(* ===== verification/Rust_Prelude.thy ===== *)
theory Rust_Prelude
  imports Main "HOL-Library.Word" "HOL-Library.Char_ord" "HOL-Library.List_Lexorder"
begin

text \<open>
  The vocabulary the component theories share: results and the early-return operator of Rust,
  checked and saturating machine arithmetic, UTF-8 strings with the operations of \<open>str\<close>
  the sources call, the interface of a textual encoding, and invariants of transition systems.
  Nothing here models a file of the repository; it models what the sources use of the language
  and its standard library.
\<close>

named_theorems i64_arith \<open>the 64-bit range and its checked arithmetic, written out\<close>

subsection \<open>Results\<close>

text \<open>
  \<open>Result<T, E>\<close> is the sum \<open>'e + 'a\<close>, with \<open>Inl\<close> for \<open>Err\<close> and \<open>Inr\<close> for
  \<open>Ok\<close>. \<open>rbind\<close> is the operator \<open>?\<close>, \<open>ensure\<close> an early return guarded by the
  negation of its first argument, \<open>ok_or\<close> is \<open>Option::ok_or\<close>, and \<open>for_each\<close> a loop
  whose body may return early with an error.
\<close>

definition rbind :: "'e + 'a \<Rightarrow> ('a \<Rightarrow> 'e + 'b) \<Rightarrow> 'e + 'b" where
  "rbind x f = (case x of Inl e \<Rightarrow> Inl e | Inr a \<Rightarrow> f a)"

definition ensure :: "bool \<Rightarrow> 'e \<Rightarrow> 'e + unit" where
  "ensure c e = (if c then Inr () else Inl e)"

definition ok_or :: "'a option \<Rightarrow> 'e \<Rightarrow> 'e + 'a" where
  "ok_or x e = (case x of None \<Rightarrow> Inl e | Some a \<Rightarrow> Inr a)"

definition map_err :: "('e \<Rightarrow> 'f) \<Rightarrow> 'e + 'a \<Rightarrow> 'f + 'a" where
  "map_err f x = (case x of Inl e \<Rightarrow> Inl (f e) | Inr a \<Rightarrow> Inr a)"

definition ok :: "'e + 'a \<Rightarrow> 'a option" where
  "ok x = (case x of Inl _ \<Rightarrow> None | Inr a \<Rightarrow> Some a)"

definition is_ok :: "'e + 'a \<Rightarrow> bool" where
  "is_ok x = (case x of Inl _ \<Rightarrow> False | Inr _ \<Rightarrow> True)"

fun for_each :: "('a \<Rightarrow> 'e + unit) \<Rightarrow> 'a list \<Rightarrow> 'e + unit" where
  "for_each f [] = Inr ()"
| "for_each f (x # xs) = rbind (f x) (\<lambda>_. for_each f xs)"

text \<open>\<open>iter().map(f).collect::<Result<Vec<_>, _>>()\<close>: the first error wins.\<close>

fun try_map :: "('a \<Rightarrow> 'e + 'b) \<Rightarrow> 'a list \<Rightarrow> 'e + 'b list" where
  "try_map f [] = Inr []"
| "try_map f (x # xs) = rbind (f x) (\<lambda>y. rbind (try_map f xs) (\<lambda>ys. Inr (y # ys)))"

lemma rbind_simps [simp]:
  "rbind (Inl e) f = Inl e"
  "rbind (Inr a) f = f a"
  by (simp_all add: rbind_def)

lemma rbind_eq_Inr [simp]: "rbind x f = Inr b \<longleftrightarrow> (\<exists>a. x = Inr a \<and> f a = Inr b)"
  by (cases x) simp_all

lemma rbind_eq_Inl: "rbind x f = Inl e \<longleftrightarrow> x = Inl e \<or> (\<exists>a. x = Inr a \<and> f a = Inl e)"
  by (cases x) simp_all

lemma ensure_simps [simp]:
  "ensure c e = Inr u \<longleftrightarrow> c"
  "ensure c e = Inl e' \<longleftrightarrow> \<not> c \<and> e' = e"
  by (auto simp: ensure_def)

lemma ensure_True [simp]: "ensure True e = Inr ()" and ensure_False [simp]: "ensure False e = Inl e"
  by (simp_all add: ensure_def)

lemma ok_or_simps [simp]:
  "ok_or None e = Inl e"
  "ok_or (Some a) e = Inr a"
  by (simp_all add: ok_or_def)

lemma ok_or_eq [simp]:
  "ok_or x e = Inr a \<longleftrightarrow> x = Some a"
  "ok_or x e = Inl e' \<longleftrightarrow> x = None \<and> e' = e"
  by (auto simp: ok_or_def split: option.splits)

lemma map_err_simps [simp]:
  "map_err f (Inl e) = Inl (f e)"
  "map_err f (Inr a) = Inr a"
  by (simp_all add: map_err_def)

lemma map_err_eq_Inr [simp]: "map_err f x = Inr a \<longleftrightarrow> x = Inr a"
  by (cases x) simp_all

lemma is_ok_simps [simp]: "is_ok (Inl e) = False" "is_ok (Inr a) = True"
  by (simp_all add: is_ok_def)

lemma ok_simps [simp]: "ok (Inl e) = None" "ok (Inr a) = Some a"
  by (simp_all add: ok_def)

lemma ok_eq_Some [simp]: "ok x = Some a \<longleftrightarrow> x = Inr a"
  by (cases x) simp_all

lemma is_ok_iff: "is_ok x \<longleftrightarrow> (\<exists>a. x = Inr a)"
  by (cases x) simp_all

lemma for_each_Inr [simp]: "for_each f xs = Inr u \<longleftrightarrow> (\<forall>x \<in> set xs. f x = Inr ())"
  by (induction xs) auto

lemma for_each_Inl: "for_each f xs = Inl e \<Longrightarrow> \<exists>x \<in> set xs. f x = Inl e"
  by (induction xs) (auto simp: rbind_eq_Inl)

lemma for_each_first:
  assumes "for_each f xs = Inl e"
  shows "\<exists>as x bs. xs = as @ x # bs \<and> f x = Inl e \<and> (\<forall>a \<in> set as. f a = Inr ())"
  using assms
proof (induction xs)
  case Nil
  then show ?case by simp
next
  case (Cons y ys)
  show ?case
  proof (cases "f y")
    case (Inl e')
    with Cons.prems show ?thesis by (intro exI [of _ "[]"]) simp
  next
    case (Inr u)
    with Cons.prems have "for_each f ys = Inl e" by simp
    from Cons.IH [OF this] obtain as x bs
      where "ys = as @ x # bs" "f x = Inl e" "\<forall>a \<in> set as. f a = Inr ()" by blast
    with Inr show ?thesis by (intro exI [of _ "y # as"]) auto
  qed
qed

lemma try_map_Inr: "try_map f xs = Inr ys \<longleftrightarrow> list_all2 (\<lambda>x y. f x = Inr y) xs ys"
  by (induction xs arbitrary: ys) (auto simp: list_all2_Cons1)

lemma try_map_Inl: "try_map f xs = Inl e \<Longrightarrow> \<exists>x \<in> set xs. f x = Inl e"
  by (induction xs) (auto simp: rbind_eq_Inl)

subsection \<open>Machine integers\<close>

text \<open>
  Signed 64-bit amounts are integers with the range checked where the source uses the checked
  operations; counters whose width shows are words.
\<close>

type_synonym u8 = "8 word"
type_synonym u32 = "32 word"
type_synonym u64 = "64 word"

definition i64_max :: int where "i64_max = 9223372036854775807"
definition i64_min :: int where "i64_min = - 9223372036854775808"

definition in_i64 :: "int \<Rightarrow> bool" where
  "in_i64 x \<longleftrightarrow> i64_min \<le> x \<and> x \<le> i64_max"

definition checked_i64 :: "int \<Rightarrow> int option" where
  "checked_i64 x = (if in_i64 x then Some x else None)"

declare i64_max_def [i64_arith] i64_min_def [i64_arith] in_i64_def [i64_arith] checked_i64_def [i64_arith]

definition checked_i32 :: "int \<Rightarrow> int option" where
  "checked_i32 x = (if - 2147483648 \<le> x \<and> x \<le> 2147483647 then Some x else None)"

definition saturating_i32 :: "int \<Rightarrow> int" where
  "saturating_i32 x = max (- 2147483648) (min 2147483647 x)"

definition saturating_inc :: "'a::len word \<Rightarrow> 'a word" where
  "saturating_inc w = (if w = - 1 then w else w + 1)"

definition saturating_dec :: "'a::len word \<Rightarrow> 'a word" where
  "saturating_dec w = (if w = 0 then 0 else w - 1)"

definition checked_inc :: "'a::len word \<Rightarrow> 'a word option" where
  "checked_inc w = (if w = - 1 then None else Some (w + 1))"

lemma checked_i64_Some [simp]: "checked_i64 x = Some y \<longleftrightarrow> in_i64 x \<and> y = x"
  by (auto simp: checked_i64_def)

lemma checked_i64_None [simp]: "checked_i64 x = None \<longleftrightarrow> \<not> in_i64 x"
  by (simp add: checked_i64_def)

lemma in_i64_between:
  "in_i64 a \<Longrightarrow> in_i64 c \<Longrightarrow> a \<le> b \<Longrightarrow> b \<le> c \<Longrightarrow> in_i64 b"
  by (auto simp: in_i64_def)

lemma in_i64_literals [simp]: "in_i64 0" "in_i64 1"
  by (simp_all add: in_i64_def i64_min_def i64_max_def)

text \<open>\<open>try_fold\<close> of a list of amounts with \<open>checked_add\<close>.\<close>

fun checked_sum :: "'e \<Rightarrow> int list \<Rightarrow> int \<Rightarrow> 'e + int" where
  "checked_sum e [] tot = Inr tot"
| "checked_sum e (x # xs) tot = rbind (ok_or (checked_i64 (tot + x)) e) (\<lambda>tot. checked_sum e xs tot)"

lemma checked_sum_Inr: "checked_sum e xs t = Inr v \<Longrightarrow> v = t + sum_list xs"
proof (induction xs arbitrary: t)
  case (Cons x xs)
  from Cons.prems have "checked_sum e xs (t + x) = Inr v" by simp
  from Cons.IH [OF this] show ?case by simp
qed simp

lemma unat_inc_word: "(w :: 'a::len word) \<noteq> - 1 \<Longrightarrow> unat (w + 1) = Suc (unat w)"
  by (metis add.commute add_eq_0_iff unatSuc)

lemma unat_saturating_inc:
  "unat (saturating_inc (w :: 'a::len word)) = (if w = - 1 then unat w else Suc (unat w))"
  by (simp add: saturating_inc_def unat_inc_word)

lemma saturating_inc_pos: "0 < unat (saturating_inc (w :: 'a::len word))"
proof (cases "w = - 1")
  case True
  then show ?thesis by (simp add: saturating_inc_def unat_gt_0)
next
  case False
  then show ?thesis by (simp add: unat_saturating_inc)
qed

lemma unat_saturating_dec: "unat (saturating_dec (w :: 'a::len word)) = unat w - 1"
  by (simp add: saturating_dec_def unat_minus_one)

lemma checked_inc_Some: "checked_inc (w :: 'a::len word) = Some v \<Longrightarrow> unat v = Suc (unat w)"
  by (auto simp: checked_inc_def unat_inc_word split: if_splits)

subsection \<open>Strings\<close>

text \<open>
  A Rust string is the list of its UTF-8 bytes, so that \<open>length\<close> is \<open>str::len\<close>. The
  \<open>White_Space\<close> characters that \<open>str::trim\<close> removes are listed by their encodings: on
  valid UTF-8 a prefix (a suffix) that spells such an encoding is exactly such a character.
\<close>

definition white_space :: "string list" where
  "white_space =
     [[CHR 0x09], [CHR 0x0A], [CHR 0x0B], [CHR 0x0C], [CHR 0x0D], [CHR 0x20],
      [CHR 0xC2, CHR 0x85], [CHR 0xC2, CHR 0xA0], [CHR 0xE1, CHR 0x9A, CHR 0x80],
      [CHR 0xE2, CHR 0x80, CHR 0x80], [CHR 0xE2, CHR 0x80, CHR 0x81],
      [CHR 0xE2, CHR 0x80, CHR 0x82], [CHR 0xE2, CHR 0x80, CHR 0x83],
      [CHR 0xE2, CHR 0x80, CHR 0x84], [CHR 0xE2, CHR 0x80, CHR 0x85],
      [CHR 0xE2, CHR 0x80, CHR 0x86], [CHR 0xE2, CHR 0x80, CHR 0x87],
      [CHR 0xE2, CHR 0x80, CHR 0x88], [CHR 0xE2, CHR 0x80, CHR 0x89],
      [CHR 0xE2, CHR 0x80, CHR 0x8A], [CHR 0xE2, CHR 0x80, CHR 0xA8],
      [CHR 0xE2, CHR 0x80, CHR 0xA9], [CHR 0xE2, CHR 0x80, CHR 0xAF],
      [CHR 0xE2, CHR 0x81, CHR 0x9F], [CHR 0xE3, CHR 0x80, CHR 0x80]]"

fun starts_with :: "string \<Rightarrow> string \<Rightarrow> bool" where
  "starts_with [] s = True"
| "starts_with (p # ps) [] = False"
| "starts_with (p # ps) (c # cs) = (p = c \<and> starts_with ps cs)"

fun strip_one :: "string list \<Rightarrow> string \<Rightarrow> string option" where
  "strip_one [] s = None"
| "strip_one (w # ws) s =
     (if w \<noteq> [] \<and> starts_with w s then Some (drop (length w) s) else strip_one ws s)"

lemma starts_with_iff: "starts_with p s \<longleftrightarrow> (\<exists>t. s = p @ t)"
  by (induction p s rule: starts_with.induct) auto

lemma strip_one_Some:
  "strip_one ws s = Some t \<Longrightarrow> \<exists>w \<in> set ws. w \<noteq> [] \<and> s = w @ t"
  by (induction ws s rule: strip_one.induct) (auto simp: starts_with_iff split: if_splits)

lemma strip_one_None: "strip_one ws s = None \<longleftrightarrow> (\<forall>w \<in> set ws. w \<noteq> [] \<longrightarrow> \<not> starts_with w s)"
  by (induction ws s rule: strip_one.induct) auto

lemma strip_one_shorter: "strip_one ws s = Some t \<Longrightarrow> length t < length s"
  by (auto dest!: strip_one_Some)

function strip_all :: "string list \<Rightarrow> string \<Rightarrow> string" where
  "strip_all ws s = (case strip_one ws s of None \<Rightarrow> s | Some t \<Rightarrow> strip_all ws t)"
  by pat_completeness auto
termination
  by (relation "measure (\<lambda>(ws, s). length s)") (auto dest: strip_one_shorter)

declare strip_all.simps [simp del]

definition trim_start :: "string \<Rightarrow> string" where
  "trim_start s = strip_all white_space s"

definition trim_end :: "string \<Rightarrow> string" where
  "trim_end s = rev (strip_all (map rev white_space) (rev s))"

definition trim :: "string \<Rightarrow> string" where
  "trim s = trim_end (trim_start s)"

lemma strip_all_suffix: "\<exists>p. s = p @ strip_all ws s"
proof (induction ws s rule: strip_all.induct)
  case (1 ws s)
  show ?case
  proof (cases "strip_one ws s")
    case None
    then show ?thesis by (simp add: strip_all.simps [of ws s])
  next
    case (Some t)
    from 1 [OF Some] obtain p where "t = p @ strip_all ws t" by blast
    moreover from strip_one_Some [OF Some] obtain w where "s = w @ t" by blast
    ultimately have "s = (w @ p) @ strip_all ws t" by simp
    moreover have "strip_all ws s = strip_all ws t" using Some by (simp add: strip_all.simps [of ws s])
    ultimately show ?thesis by metis
  qed
qed

lemma strip_one_strip_all: "strip_one ws (strip_all ws s) = None"
proof (induction ws s rule: strip_all.induct)
  case (1 ws s)
  then show ?case by (cases "strip_one ws s") (simp_all add: strip_all.simps [of ws s])
qed

lemma strip_all_id: "strip_one ws s = None \<Longrightarrow> strip_all ws s = s"
  by (simp add: strip_all.simps [of ws s])

lemma strip_one_prefix: "strip_one ws (s @ t) = None \<Longrightarrow> strip_one ws s = None"
  by (fastforce simp: strip_one_None starts_with_iff)

lemma trim_start_suffix: "\<exists>p. s = p @ trim_start s"
  by (simp add: trim_start_def strip_all_suffix)

lemma trim_end_prefix: "\<exists>p. s = trim_end s @ p"
proof -
  obtain p where "rev s = p @ strip_all (map rev white_space) (rev s)"
    using strip_all_suffix by blast
  then have "rev (rev s) = rev (p @ strip_all (map rev white_space) (rev s))" by simp
  then show ?thesis by (auto simp: trim_end_def)
qed

lemma trim_infix: "\<exists>p q. s = p @ trim s @ q"
  by (metis append.assoc trim_def trim_end_prefix trim_start_suffix)

lemma length_trim: "length (trim s) \<le> length s"
  using trim_infix [of s] by (metis length_append le_add1 le_add2 le_trans)

lemma set_trim: "set (trim s) \<subseteq> set s"
  using trim_infix [of s] by (metis Un_iff set_append subsetI)

text \<open>\<open>trim\<close> is idempotent: what is left neither starts nor ends with white space.\<close>

lemma trim_trim [simp]: "trim (trim s) = trim s"
proof -
  obtain p where p: "trim_start s = trim s @ p"
    using trim_end_prefix [of "trim_start s"] by (auto simp: trim_def)
  have "strip_one white_space (trim s @ p) = None"
    by (simp add: p [symmetric] trim_start_def strip_one_strip_all)
  then have 1: "trim_start (trim s) = trim s"
    by (simp add: trim_start_def strip_all_id strip_one_prefix)
  have 2: "trim_end (trim s) = trim s"
    by (simp add: trim_def trim_end_def strip_all_id strip_one_strip_all)
  show ?thesis
    by (simp only: trim_def [of "trim s"] 1 2)
qed

text \<open>A string none of whose bytes occurs in a white-space encoding is left alone.\<close>

definition plain :: "char \<Rightarrow> bool" where
  "plain c \<longleftrightarrow> c \<notin> set (concat white_space)"

lemma strip_one_plain:
  assumes "list_all plain s" and "\<forall>w \<in> set ws. set w \<subseteq> set (concat white_space)"
  shows "strip_one ws s = None"
  using assms unfolding strip_one_None starts_with_iff plain_def list_all_iff
  by (metis (no_types, lifting) Un_iff in_mono list.set_intros(1) list.exhaust set_append)

lemma trim_plain:
  assumes "list_all plain s"
  shows "trim s = s"
proof -
  have 1: "trim_start s = s"
    using assms by (auto simp: trim_start_def intro!: strip_all_id strip_one_plain)
  have "list_all plain (rev s)" using assms by (simp add: list_all_iff)
  then have "strip_one (map rev white_space) (rev s) = None"
    by (rule strip_one_plain) auto
  then have 2: "trim_end s = s" by (simp add: trim_end_def strip_all_id)
  show ?thesis by (simp add: trim_def 1 2)
qed

text \<open>A string that starts with such a byte keeps it.\<close>

lemma strip_all_last:
  assumes "\<forall>w \<in> set ws. c \<notin> set w"
  shows "\<exists>ys. strip_all ws (xs @ [c]) = ys @ [c]"
proof (induction "length xs" arbitrary: xs rule: less_induct)
  case less
  show ?case
  proof (cases "strip_one ws (xs @ [c])")
    case None
    then show ?thesis by (simp add: strip_all_id)
  next
    case (Some t)
    then obtain w where w: "w \<in> set ws" "w \<noteq> []" "xs @ [c] = w @ t"
      by (blast dest: strip_one_Some)
    with assms have "t \<noteq> []" by (metis append_Nil2 last_in_set last_snoc)
    with w(3) obtain t' where t: "t = t' @ [c]"
      by (metis append_butlast_last_id last_appendR last_snoc)
    with w have "length t' < length xs" by (auto dest: arg_cong [of _ _ length])
    from less [OF this] t Some show ?thesis by (simp add: strip_all.simps [of ws "xs @ [c]"])
  qed
qed

lemma trim_plain_Cons:
  assumes "plain c"
  shows "\<exists>t. trim (c # s) = c # t"
proof -
  have out: "\<forall>w \<in> set white_space. c \<notin> set w" using assms by (auto simp: plain_def)
  have "strip_one white_space (c # s) = None"
    using out unfolding strip_one_None starts_with_iff
    by (metis append_Cons list.exhaust list.inject list.set_intros(1))
  then have "trim (c # s) = rev (strip_all (map rev white_space) (rev s @ [c]))"
    by (simp add: trim_def trim_start_def trim_end_def strip_all_id)
  moreover obtain ys where "strip_all (map rev white_space) (rev s @ [c]) = ys @ [c]"
    using strip_all_last [of "map rev white_space" c "rev s"] out by auto
  ultimately show ?thesis by simp
qed

text \<open>\<open>str::rsplit_once\<close> with a one-byte separator, and the ASCII classes and mappings.\<close>

fun rsplit_once :: "char \<Rightarrow> string \<Rightarrow> (string \<times> string) option" where
  "rsplit_once c [] = None"
| "rsplit_once c (x # xs) =
     (case rsplit_once c xs of
        Some (a, b) \<Rightarrow> Some (x # a, b)
      | None \<Rightarrow> if x = c then Some ([], xs) else None)"

lemma rsplit_once_None: "rsplit_once c s = None \<longleftrightarrow> c \<notin> set s"
  by (induction s) (auto split: option.splits)

lemma rsplit_once_append: "c \<notin> set b \<Longrightarrow> rsplit_once c (a @ c # b) = Some (a, b)"
proof (induction a)
  case Nil
  then have "rsplit_once c b = None" by (simp add: rsplit_once_None)
  then show ?case by simp
next
  case (Cons x a)
  then show ?case by simp
qed

lemma rsplit_once_Some:
  "rsplit_once c s = Some (a, b) \<longleftrightarrow> s = a @ c # b \<and> c \<notin> set b"
proof
  show "rsplit_once c s = Some (a, b) \<Longrightarrow> s = a @ c # b \<and> c \<notin> set b"
    by (induction s arbitrary: a) (auto simp: rsplit_once_None split: option.splits if_splits)
qed (auto simp: rsplit_once_append)

abbreviation byte_of :: "char \<Rightarrow> nat" where
  "byte_of c \<equiv> of_char c"

definition is_ascii_uppercase :: "char \<Rightarrow> bool" where
  "is_ascii_uppercase c \<longleftrightarrow> 65 \<le> byte_of c \<and> byte_of c \<le> 90"

definition is_ascii_lowercase :: "char \<Rightarrow> bool" where
  "is_ascii_lowercase c \<longleftrightarrow> 97 \<le> byte_of c \<and> byte_of c \<le> 122"

definition is_ascii_digit :: "char \<Rightarrow> bool" where
  "is_ascii_digit c \<longleftrightarrow> 48 \<le> byte_of c \<and> byte_of c \<le> 57"

definition is_ascii_alphabetic :: "char \<Rightarrow> bool" where
  "is_ascii_alphabetic c \<longleftrightarrow> is_ascii_uppercase c \<or> is_ascii_lowercase c"

definition is_ascii_alphanumeric :: "char \<Rightarrow> bool" where
  "is_ascii_alphanumeric c \<longleftrightarrow> is_ascii_alphabetic c \<or> is_ascii_digit c"

definition ascii_upper :: "char \<Rightarrow> char" where
  "ascii_upper c = (if is_ascii_lowercase c then char_of (byte_of c - 32) else c)"

definition ascii_lower :: "char \<Rightarrow> char" where
  "ascii_lower c = (if is_ascii_uppercase c then char_of (byte_of c + 32) else c)"

definition to_ascii_uppercase :: "string \<Rightarrow> string" where
  "to_ascii_uppercase = map ascii_upper"

definition to_ascii_lowercase :: "string \<Rightarrow> string" where
  "to_ascii_lowercase = map ascii_lower"

definition eq_ignore_ascii_case :: "string \<Rightarrow> string \<Rightarrow> bool" where
  "eq_ignore_ascii_case s t \<longleftrightarrow> to_ascii_lowercase s = to_ascii_lowercase t"

lemmas ascii_defs =
  is_ascii_uppercase_def is_ascii_lowercase_def is_ascii_digit_def is_ascii_alphabetic_def
  is_ascii_alphanumeric_def

lemma byte_of_ascii_upper:
  "byte_of (ascii_upper c) = (if is_ascii_lowercase c then byte_of c - 32 else byte_of c)"
  by (auto simp: ascii_upper_def is_ascii_lowercase_def of_char_of)

lemma ascii_upper_not_lower: "\<not> is_ascii_lowercase (ascii_upper c)"
  by (auto simp: is_ascii_lowercase_def byte_of_ascii_upper)

lemma ascii_upper_alphabetic: "is_ascii_alphabetic (ascii_upper c) = is_ascii_alphabetic c"
  by (auto simp: ascii_defs byte_of_ascii_upper)

lemma length_to_ascii_uppercase [simp]: "length (to_ascii_uppercase s) = length s"
  by (simp add: to_ascii_uppercase_def)

lemma to_ascii_uppercase_idem [simp]:
  "to_ascii_uppercase (to_ascii_uppercase s) = to_ascii_uppercase s"
  using ascii_upper_not_lower by (auto simp: to_ascii_uppercase_def ascii_upper_def)

text \<open>An alphanumeric string has no white space at its ends.\<close>

lemma plain_if_printable: "33 \<le> byte_of c \<Longrightarrow> byte_of c < 128 \<Longrightarrow> plain c"
  by (auto simp: plain_def white_space_def)

lemma plain_alphanumeric: "is_ascii_alphanumeric c \<Longrightarrow> plain c"
  by (rule plain_if_printable) (auto simp: ascii_defs)

lemma trim_letters: "list_all is_ascii_alphanumeric s \<Longrightarrow> trim s = s"
  by (rule trim_plain) (auto simp: list_all_iff plain_alphanumeric)

lemma upper_text:
  assumes "list_all is_ascii_uppercase c"
  shows "trim c = c" "to_ascii_uppercase c = c"
  using assms by (auto simp: to_ascii_uppercase_def ascii_upper_def list_all_iff ascii_defs
      intro!: map_idI trim_plain plain_alphanumeric)

text \<open>Decimal printing of integers. One more step of fuel than the value is always enough.\<close>

fun show_nat_fuel :: "nat \<Rightarrow> nat \<Rightarrow> string" where
  "show_nat_fuel 0 n = []"
| "show_nat_fuel (Suc k) n =
     (if n < 10 then [char_of (48 + n)] else show_nat_fuel k (n div 10) @ [char_of (48 + n mod 10)])"

definition show_nat :: "nat \<Rightarrow> string" where
  "show_nat n = show_nat_fuel (Suc n) n"

definition show_int :: "int \<Rightarrow> string" where
  "show_int i = (if i < 0 then ''-'' @ show_nat (nat (- i)) else show_nat (nat i))"

subsection \<open>Textual encodings\<close>

lemma distinct_remdups_adj_sorted: "sorted xs \<Longrightarrow> distinct (remdups_adj (xs :: 'a::linorder list))"
  by (induction xs rule: remdups_adj.induct) (auto simp: order_antisym)

text \<open>
  The interface of a type that is printed (\<open>Display\<close>, \<open>as_str\<close>) and parsed
  (\<open>FromStr\<close>, \<open>parse\<close>): parsing what was printed gives the value back. Clients rely on
  printing being injective, since keys, sort orders and stored columns are printed values.
\<close>

locale text_codec =
  fixes render :: "'a \<Rightarrow> string"
    and parse :: "string \<Rightarrow> 'a option"
  assumes parse_render: "parse (render x) = Some x"
begin

lemma render_inject: "render x = render y \<longleftrightarrow> x = y"
  by (metis option.inject parse_render)

lemma inj_render: "inj_on render A"
  by (rule inj_onI) (simp add: render_inject)

text \<open>
  \<open>sort_unstable_by_key(to_string)\<close> followed by \<open>dedup\<close>: since the keys are injective the
  unstable sort has one possible result, which is duplicate free.
\<close>

lemma sort_key_distinct:
  assumes "sort_key render xs = ys"
  shows "distinct (remdups_adj ys)"
proof -
  have "sorted (map render ys)"
    using assms by auto
  then have "distinct (remdups_adj (map render ys))"
    by (rule distinct_remdups_adj_sorted)
  then have "distinct (map render (remdups_adj ys))"
    by (simp add: remdups_adj_map_injective inj_render)
  then show ?thesis by (simp add: distinct_map)
qed

end

subsection \<open>Ordered maps\<close>

text \<open>
  \<open>BTreeMap\<close> as the list of its entries in ascending key order. The interface its clients rely
  on is the locale \<open>ordered_map\<close>: an insertion overrides, the keys come in strictly ascending
  order, and they are the domain of the lookup. Collecting an iterator of pairs inserts them one
  after the other.
\<close>

fun btree_insert :: "'k::linorder \<Rightarrow> 'v \<Rightarrow> ('k \<times> 'v) list \<Rightarrow> ('k \<times> 'v) list" where
  "btree_insert k v [] = [(k, v)]"
| "btree_insert k v ((k', v') # m) =
     (if k < k' then (k, v) # (k', v') # m
      else if k = k' then (k, v) # m
      else (k', v') # btree_insert k v m)"

locale ordered_map =
  fixes empty :: 'm
    and insert_entry :: "'k::linorder \<Rightarrow> 'v \<Rightarrow> 'm \<Rightarrow> 'm"
    and lookup :: "'m \<Rightarrow> 'k \<rightharpoonup> 'v"
    and keys :: "'m \<Rightarrow> 'k list"
    and valid :: "'m \<Rightarrow> bool"
  assumes lookup_empty: "lookup empty k = None"
    and lookup_insert: "lookup (insert_entry k v m) = (lookup m)(k \<mapsto> v)"
    and valid_empty: "valid empty"
    and valid_insert: "valid m \<Longrightarrow> valid (insert_entry k v m)"
    and keys_sorted: "valid m \<Longrightarrow> sorted_wrt (<) (keys m)"
    and keys_dom: "set (keys m) = dom (lookup m)"
begin

lemma lookup_foldl:
  "lookup (foldl (\<lambda>m (k, v). insert_entry k v m) m kvs) = lookup m ++ map_of (rev kvs)"
  by (induction kvs arbitrary: m) (auto simp: lookup_insert fun_eq_iff map_add_def split: option.splits)

lemma valid_foldl: "valid m \<Longrightarrow> valid (foldl (\<lambda>m (k, v). insert_entry k v m) m kvs)"
  by (induction kvs arbitrary: m) (auto simp: valid_insert)

lemma lookup_collect:
  "lookup (foldl (\<lambda>m (k, v). insert_entry k v m) empty kvs) = map_of (rev kvs)"
proof -
  have "lookup empty = Map.empty" by (simp add: fun_eq_iff lookup_empty)
  then show ?thesis by (simp add: lookup_foldl)
qed

lemma keys_collect:
  "set (keys (foldl (\<lambda>m (k, v). insert_entry k v m) empty kvs)) = fst ` set kvs"
  "distinct (keys (foldl (\<lambda>m (k, v). insert_entry k v m) empty kvs))"
  using keys_sorted [OF valid_foldl [OF valid_empty, of kvs]]
  by (auto simp: keys_dom lookup_collect dom_map_of_conv_image_fst strict_sorted_iff)

text \<open>The number of entries tells whether the keys of the iterator were distinct.\<close>

lemma length_keys_collect:
  "length (keys (foldl (\<lambda>m (k, v). insert_entry k v m) empty kvs)) = length kvs
     \<longleftrightarrow> distinct (map fst kvs)"
  by (metis card_distinct distinct_card keys_collect length_map list.set_map)

end

lemma map_of_btree_insert: "map_of (btree_insert k v m) = (map_of m)(k \<mapsto> v)"
  by (induction m) (auto simp: fun_eq_iff)

lemma fst_btree_insert: "fst ` set (btree_insert k v m) = insert k (fst ` set m)"
  by (simp add: dom_map_of_conv_image_fst [symmetric] map_of_btree_insert)

lemma sorted_btree_insert:
  "sorted_wrt (<) (map fst m) \<Longrightarrow> sorted_wrt (<) (map fst (btree_insert k v m))"
proof (induction m)
  case Nil
  then show ?case by simp
next
  case (Cons kv m)
  obtain k' v' where kv: "kv = (k', v')" by force
  show ?case
  proof (cases "k \<le> k'")
    case True
    with Cons.prems kv show ?thesis by (cases "k = k'") auto
  next
    case False
    with Cons kv fst_btree_insert [of k v m] show ?thesis by auto
  qed
qed

interpretation btree: ordered_map "[]" btree_insert map_of "map fst"
  "\<lambda>m. sorted_wrt (<) (map fst m)"
  by unfold_locales
    (auto simp: map_of_btree_insert sorted_btree_insert dom_map_of_conv_image_fst)

definition btree_collect :: "('k::linorder \<times> 'v) list \<Rightarrow> ('k \<times> 'v) list" where
  "btree_collect kvs = foldl (\<lambda>m (k, v). btree_insert k v m) [] kvs"

lemmas btree_collect_facts =
  btree.lookup_collect [folded btree_collect_def]
  btree.keys_collect [folded btree_collect_def]
  btree.length_keys_collect [folded btree_collect_def]

lemma btree_insert_sub: "set (btree_insert k v m) \<subseteq> insert (k, v) (set m)"
  by (induction m) (auto split: if_splits)

lemma foldl_btree_sub: "set (foldl (\<lambda>m (k, v). btree_insert k v m) m kvs) \<subseteq> set m \<union> set kvs"
proof (induction kvs arbitrary: m)
  case (Cons kv kvs)
  obtain k v where kv: "kv = (k, v)" by force
  show ?case using Cons.IH [of "btree_insert k v m"] btree_insert_sub [of k v m] by (auto simp: kv)
qed simp

lemma btree_collect_sub: "set (btree_collect kvs) \<subseteq> set kvs"
  using foldl_btree_sub [of "[]" kvs] by (simp add: btree_collect_def)

lemma find_append_None: "List.find P xs = None \<Longrightarrow> List.find P (xs @ ys) = List.find P ys"
  by (induction xs) (auto split: if_splits)

lemma find_append_Some: "List.find P xs = Some x \<Longrightarrow> List.find P (xs @ ys) = Some x"
  by (induction xs) (auto split: if_splits)

subsection \<open>Transition systems and their invariants\<close>

text \<open>
  A component with state is a predicate of initial states and a step relation; \<open>reachable\<close>
  counts the steps, so that a bound on the length of a run can be a hypothesis.
\<close>

inductive reachable :: "('s \<Rightarrow> bool) \<Rightarrow> ('s \<Rightarrow> 's \<Rightarrow> bool) \<Rightarrow> nat \<Rightarrow> 's \<Rightarrow> bool"
  for init :: "'s \<Rightarrow> bool" and step :: "'s \<Rightarrow> 's \<Rightarrow> bool" where
  start: "init s \<Longrightarrow> reachable init step 0 s"
| next_step: "reachable init step n s \<Longrightarrow> step s t \<Longrightarrow> reachable init step (Suc n) t"

locale transition_invariant =
  fixes init :: "'s \<Rightarrow> bool"
    and step :: "'s \<Rightarrow> 's \<Rightarrow> bool"
    and bound :: "nat \<Rightarrow> bool"
    and inv :: "nat \<Rightarrow> 's \<Rightarrow> bool"
  assumes inv_init: "init s \<Longrightarrow> inv 0 s"
    and inv_step: "inv n s \<Longrightarrow> step s t \<Longrightarrow> bound (Suc n) \<Longrightarrow> inv (Suc n) t"
    and bound_down: "bound (Suc n) \<Longrightarrow> bound n"
begin

lemma reachable_inv: "reachable init step n s \<Longrightarrow> bound n \<Longrightarrow> inv n s"
  by (induction rule: reachable.induct) (auto intro: inv_init inv_step bound_down)

end

end
