(* ===== verification/Permissions.thy ===== *)
theory Permissions
  imports Rust_Prelude
begin

text \<open>
  The permission vocabulary of the platform (\<open>crates/libs/rustok-api/src/permissions.rs\<close>):
  resources, actions, permissions, their textual form and the \<open>manage\<close> wildcard. The textual form is stored in the
  database, carried in token claims and used as a sort key, so its round trip is what the rest of
  the access-control development rests on.
\<close>

subsection \<open>Resources\<close>

datatype (plugins only: code size) resource =
    Users | Tenants | Modules | Settings | FlexSchemas | FlexEntries | Products | Categories |
    Orders | Customers | Profiles | Groups | Regions | Payments | Fulfillments | Inventory |
    Discounts | MarketplaceSellers | MarketplaceListings | Posts | Pages | Forms | Navigation |
    Nodes | Media | Seo | Comments | Tags | Taxonomy | Analytics | Logs | Webhooks |
    BlogPosts | BlogCategories | ForumCategories | ForumTopics | ForumReplies |
    ModerationCases | Scripts | Mcp | AiProviders | AiTaskProfiles | AiSessions | AiRuns |
    AiApprovals | AiRouter | AiTextTasks | AiImageTasks | AiCodeTasks | AiAlloyTasks |
    AiMultimodalTasks | Workflows | WorkflowExecutions | Translations | TranslationMemory |
    TranslationGlossaries | Conversations | Messages

primrec resource_display :: "resource \<Rightarrow> string" where
  "resource_display Users = ''users''"
| "resource_display Tenants = ''tenants''"
| "resource_display Modules = ''modules''"
| "resource_display Settings = ''settings''"
| "resource_display FlexSchemas = ''flex_schemas''"
| "resource_display FlexEntries = ''flex_entries''"
| "resource_display Products = ''products''"
| "resource_display Categories = ''categories''"
| "resource_display Orders = ''orders''"
| "resource_display Customers = ''customers''"
| "resource_display Profiles = ''profiles''"
| "resource_display Groups = ''groups''"
| "resource_display Regions = ''regions''"
| "resource_display Payments = ''payments''"
| "resource_display Fulfillments = ''fulfillments''"
| "resource_display Inventory = ''inventory''"
| "resource_display Discounts = ''discounts''"
| "resource_display MarketplaceSellers = ''marketplace_sellers''"
| "resource_display MarketplaceListings = ''marketplace_listings''"
| "resource_display Posts = ''posts''"
| "resource_display Pages = ''pages''"
| "resource_display Forms = ''forms''"
| "resource_display Navigation = ''navigation''"
| "resource_display Nodes = ''nodes''"
| "resource_display Media = ''media''"
| "resource_display Seo = ''seo''"
| "resource_display Comments = ''comments''"
| "resource_display Tags = ''tags''"
| "resource_display Taxonomy = ''taxonomy''"
| "resource_display Analytics = ''analytics''"
| "resource_display Logs = ''logs''"
| "resource_display Webhooks = ''webhooks''"
| "resource_display BlogPosts = ''blog_posts''"
| "resource_display BlogCategories = ''blog_categories''"
| "resource_display ForumCategories = ''forum_categories''"
| "resource_display ForumTopics = ''forum_topics''"
| "resource_display ForumReplies = ''forum_replies''"
| "resource_display ModerationCases = ''moderation_cases''"
| "resource_display Scripts = ''scripts''"
| "resource_display Mcp = ''mcp''"
| "resource_display AiProviders = ''ai:providers''"
| "resource_display AiTaskProfiles = ''ai:task_profiles''"
| "resource_display AiSessions = ''ai:sessions''"
| "resource_display AiRuns = ''ai:runs''"
| "resource_display AiApprovals = ''ai:approvals''"
| "resource_display AiRouter = ''ai:router''"
| "resource_display AiTextTasks = ''ai:tasks:text''"
| "resource_display AiImageTasks = ''ai:tasks:image''"
| "resource_display AiCodeTasks = ''ai:tasks:code''"
| "resource_display AiAlloyTasks = ''ai:tasks:alloy''"
| "resource_display AiMultimodalTasks = ''ai:tasks:multimodal''"
| "resource_display Workflows = ''workflows''"
| "resource_display WorkflowExecutions = ''workflow_executions''"
| "resource_display Translations = ''translations''"
| "resource_display TranslationMemory = ''translation_memory''"
| "resource_display TranslationGlossaries = ''translation_glossaries''"
| "resource_display Conversations = ''conversations''"
| "resource_display Messages = ''messages''"

text \<open>
  The arms of \<open>FromStr for Resource\<close>, in the order of the \<open>match\<close>: the first arm with the
  trimmed text wins, as \<open>map_of\<close> takes the first entry.
\<close>

definition resource_arms :: "(string \<times> resource) list" where
  "resource_arms =
     [(''users'', Users), (''tenants'', Tenants), (''modules'', Modules),
      (''settings'', Settings), (''flex_schemas'', FlexSchemas),
      (''flex_entries'', FlexEntries), (''products'', Products), (''categories'', Categories),
      (''orders'', Orders), (''customers'', Customers), (''profiles'', Profiles),
      (''groups'', Groups), (''regions'', Regions), (''payments'', Payments),
      (''fulfillments'', Fulfillments), (''inventory'', Inventory), (''discounts'', Discounts),
      (''marketplace_sellers'', MarketplaceSellers),
      (''marketplace_listings'', MarketplaceListings), (''posts'', Posts), (''pages'', Pages),
      (''forms'', Forms), (''navigation'', Navigation), (''nodes'', Nodes), (''media'', Media),
      (''seo'', Seo), (''comments'', Comments), (''tags'', Tags), (''taxonomy'', Taxonomy),
      (''analytics'', Analytics), (''logs'', Logs), (''webhooks'', Webhooks),
      (''blog_posts'', BlogPosts), (''blog_categories'', BlogCategories),
      (''forum_categories'', ForumCategories), (''forum_topics'', ForumTopics),
      (''forum_replies'', ForumReplies), (''moderation_cases'', ModerationCases),
      (''scripts'', Scripts), (''mcp'', Mcp), (''ai:providers'', AiProviders),
      (''ai:task_profiles'', AiTaskProfiles), (''ai:sessions'', AiSessions),
      (''ai:runs'', AiRuns), (''ai:approvals'', AiApprovals), (''ai:router'', AiRouter),
      (''ai:tasks:text'', AiTextTasks), (''ai:tasks:image'', AiImageTasks),
      (''ai:tasks:code'', AiCodeTasks), (''ai:tasks:alloy'', AiAlloyTasks),
      (''ai:tasks:multimodal'', AiMultimodalTasks), (''workflows'', Workflows),
      (''workflow_executions'', WorkflowExecutions), (''translations'', Translations),
      (''translation_memory'', TranslationMemory),
      (''translation_glossaries'', TranslationGlossaries), (''conversations'', Conversations),
      (''messages'', Messages)]"

definition resource_from_str :: "string \<Rightarrow> string + resource" where
  "resource_from_str s =
     (case map_of resource_arms (trim s) of
        Some r \<Rightarrow> Inr r
      | None \<Rightarrow> Inl (''Unknown resource: '' @ s))"

subsection \<open>Actions\<close>

datatype action =
    Create | Read | Update | Delete | List | Export | Import | Manage | Publish | Moderate |
    Execute | Run | Cancel | Resolve | Override

primrec action_display :: "action \<Rightarrow> string" where
  "action_display Create = ''create''"
| "action_display Read = ''read''"
| "action_display Update = ''update''"
| "action_display Delete = ''delete''"
| "action_display List = ''list''"
| "action_display Export = ''export''"
| "action_display Import = ''import''"
| "action_display Manage = ''manage''"
| "action_display Publish = ''publish''"
| "action_display Moderate = ''moderate''"
| "action_display Execute = ''execute''"
| "action_display Run = ''run''"
| "action_display Cancel = ''cancel''"
| "action_display Resolve = ''resolve''"
| "action_display Override = ''override''"

definition action_arms :: "(string \<times> action) list" where
  "action_arms =
     [(''create'', Create), (''read'', Read), (''update'', Update), (''delete'', Delete),
      (''list'', List), (''export'', Export), (''import'', Import), (''manage'', Manage),
      (''*'', Manage), (''publish'', Publish), (''moderate'', Moderate),
      (''execute'', Execute), (''run'', Run), (''cancel'', Cancel), (''resolve'', Resolve),
      (''override'', Override)]"

definition action_from_str :: "string \<Rightarrow> string + action" where
  "action_from_str s =
     (case map_of action_arms (trim s) of
        Some a \<Rightarrow> Inr a
      | None \<Rightarrow> Inl (''Unknown action: '' @ s))"

subsection \<open>Permissions\<close>

record permission =
  resource :: resource
  action :: action

definition permission_new :: "resource \<Rightarrow> action \<Rightarrow> permission" where
  "permission_new r a = \<lparr>resource = r, action = a\<rparr>"

definition has_effective_permission :: "permission list \<Rightarrow> permission \<Rightarrow> bool" where
  "has_effective_permission ps required \<longleftrightarrow>
     List.member ps required \<or> List.member ps (permission_new (resource required) Manage)"

definition has_any_effective_permission :: "permission list \<Rightarrow> permission list \<Rightarrow> bool" where
  "has_any_effective_permission ps required \<longleftrightarrow>
     list_ex (\<lambda>p. has_effective_permission ps p) required"

definition permission_from_str :: "string \<Rightarrow> string + permission" where
  "permission_from_str s =
     rbind (ok_or (rsplit_once CHR '':'' (trim s)) ''Missing action'') (\<lambda>(r, a).
     rbind (resource_from_str (trim r)) (\<lambda>r'.
     rbind (action_from_str (trim a)) (\<lambda>a'.
     Inr (permission_new r' a'))))"

definition permission_display :: "permission \<Rightarrow> string" where
  "permission_display p = resource_display (resource p) @ '':'' @ action_display (action p)"

subsection \<open>Printing and parsing\<close>

lemma permission_new_sel [simp]:
  "resource (permission_new r a) = r" "action (permission_new r a) = a"
  by (simp_all add: permission_new_def)

lemma permission_new_eq [simp]:
  "permission_new r a = permission_new r' a' \<longleftrightarrow> r = r' \<and> a = a'"
  by (simp add: permission_new_def)

lemma permission_new_eq_iff:
  "permission_new r a = p \<longleftrightarrow> r = resource p \<and> a = action p"
  "p = permission_new r a \<longleftrightarrow> r = resource p \<and> a = action p"
  by (cases p; auto simp: permission_new_def)+

lemma printable_plain: "list_all (\<lambda>c. 33 \<le> byte_of c \<and> byte_of c < 128) s \<Longrightarrow> trim s = s"
  by (rule trim_plain) (auto simp: list_all_iff intro: plain_if_printable)

lemma resource_display_printable:
  "list_all (\<lambda>c. 33 \<le> byte_of c \<and> byte_of c < 128) (resource_display r)"
  by (cases r) simp_all

lemma action_display_printable:
  "list_all (\<lambda>c. 33 \<le> byte_of c \<and> byte_of c < 128) (action_display a)"
  by (cases a) simp_all

lemma trim_displays [simp]:
  "trim (resource_display r) = resource_display r"
  "trim (action_display a) = action_display a"
  by (simp_all add: printable_plain resource_display_printable action_display_printable)

lemma resource_arms_named: "list_all (\<lambda>(s, r). s = resource_display r) resource_arms"
  by code_simp

lemma resource_arms_sound: "(s, r) \<in> set resource_arms \<Longrightarrow> s = resource_display r"
  using resource_arms_named by (auto simp: list_all_iff)

lemma resource_arms_distinct: "distinct (map fst resource_arms)"
  by code_simp

lemma resource_arms_values: "map snd resource_arms =
     [Users, Tenants, Modules, Settings, FlexSchemas, FlexEntries, Products, Categories,
     Orders, Customers, Profiles, Groups, Regions, Payments, Fulfillments, Inventory,
     Discounts, MarketplaceSellers, MarketplaceListings, Posts, Pages, Forms, Navigation,
     Nodes, Media, Seo, Comments, Tags, Taxonomy, Analytics, Logs, Webhooks, BlogPosts,
     BlogCategories, ForumCategories, ForumTopics, ForumReplies, ModerationCases, Scripts, Mcp,
     AiProviders, AiTaskProfiles, AiSessions, AiRuns, AiApprovals, AiRouter, AiTextTasks,
     AiImageTasks, AiCodeTasks, AiAlloyTasks, AiMultimodalTasks, Workflows, WorkflowExecutions,
     Translations, TranslationMemory, TranslationGlossaries, Conversations, Messages]"
  by code_simp

lemma resource_arms_total: "r \<in> set (map snd resource_arms)"
  unfolding resource_arms_values by (cases r) simp_all

lemma resource_arms_complete: "map_of resource_arms (resource_display r) = Some r"
proof -
  obtain s where s: "(s, r) \<in> set resource_arms"
    using resource_arms_total [of r] by auto
  then have "s = resource_display r" by (rule resource_arms_sound)
  with s show ?thesis by (simp add: map_of_is_SomeI [OF resource_arms_distinct])
qed

lemma action_arms_sound:
  "\<forall>(s, a) \<in> set action_arms. s = action_display a \<or> s = ''*'' \<and> a = Manage"
  by (simp add: action_arms_def)

lemma action_arms_complete:
  "map_of action_arms (action_display a) = Some a"
  "map_of action_arms ''*'' = Some Manage"
  by (cases a) (simp_all add: action_arms_def)

lemma resource_from_str_Inr [simp]: "resource_from_str s = Inr r \<longleftrightarrow> trim s = resource_display r"
proof
  assume "resource_from_str s = Inr r"
  then have "map_of resource_arms (trim s) = Some r"
    by (simp add: resource_from_str_def split: option.splits)
  then show "trim s = resource_display r"
    by (intro resource_arms_sound map_of_SomeD)
next
  assume "trim s = resource_display r"
  then show "resource_from_str s = Inr r"
    by (simp add: resource_from_str_def resource_arms_complete)
qed

lemma action_from_str_Inr [simp]:
  "action_from_str s = Inr a \<longleftrightarrow> trim s = action_display a \<or> trim s = ''*'' \<and> a = Manage"
proof
  assume "action_from_str s = Inr a"
  then have "map_of action_arms (trim s) = Some a"
    by (simp add: action_from_str_def split: option.splits)
  then have "(trim s, a) \<in> set action_arms" by (rule map_of_SomeD)
  then show "trim s = action_display a \<or> trim s = ''*'' \<and> a = Manage"
    using action_arms_sound by fast
next
  assume "trim s = action_display a \<or> trim s = ''*'' \<and> a = Manage"
  then show "action_from_str s = Inr a"
    by (auto simp: action_from_str_def action_arms_complete)
qed

lemma action_display_no_colon: "CHR '':'' \<notin> set (action_display a)"
  by (cases a) simp_all

lemma trim_permission_display: "trim (permission_display p) = permission_display p"
  by (rule printable_plain)
    (simp add: permission_display_def resource_display_printable action_display_printable)

lemma rsplit_permission_display:
  "rsplit_once CHR '':'' (permission_display p)
     = Some (resource_display (resource p), action_display (action p))"
  by (simp add: permission_display_def rsplit_once_append action_display_no_colon)

interpretation resource_text: text_codec resource_display "\<lambda>s. ok (resource_from_str s)"
  by unfold_locales simp

interpretation action_text: text_codec action_display "\<lambda>s. ok (action_from_str s)"
  by unfold_locales simp

lemma permission_parse_display: "permission_from_str (permission_display p) = Inr p"
  by (auto simp: permission_from_str_def trim_permission_display rsplit_permission_display
      permission_new_eq_iff)

interpretation permission_text: text_codec permission_display "\<lambda>s. ok (permission_from_str s)"
  by unfold_locales (simp add: permission_parse_display)

text \<open>Printing a permission and parsing the text gives the permission back.\<close>

theorem permission_roundtrip: "permission_from_str (permission_display p) = Inr p"
  by (rule permission_parse_display)

text \<open>
  What \<open>Permission::from_str\<close> accepts, exactly: after trimming, the text splits at its last
  colon into a resource name and an action name, white space around either is ignored, and the
  star names the \<open>manage\<close> action. In particular a multi-segment resource such as
  \<open>ai:tasks:text\<close> keeps its own colons.
\<close>

theorem permission_from_str_accepts:
  "permission_from_str s = Inr p \<longleftrightarrow>
     (\<exists>r a. trim s = r @ '':'' @ a \<and> CHR '':'' \<notin> set a \<and>
        trim r = resource_display (resource p) \<and>
        (trim a = action_display (action p) \<or> trim a = ''*'' \<and> action p = Manage))"
proof -
  have "permission_from_str s = Inr p \<longleftrightarrow>
     (\<exists>r a. rsplit_once CHR '':'' (trim s) = Some (r, a) \<and>
        trim r = resource_display (resource p) \<and>
        (trim a = action_display (action p) \<or> trim a = ''*'' \<and> action p = Manage))"
    by (auto simp: permission_from_str_def permission_new_eq_iff)
  then show ?thesis by (simp add: rsplit_once_Some conj_assoc)
qed

subsection \<open>The manage wildcard\<close>

lemma has_effective_permission_iff:
  "has_effective_permission ps p \<longleftrightarrow>
     p \<in> set ps \<or> permission_new (resource p) Manage \<in> set ps"
  by (simp add: has_effective_permission_def)

lemma has_any_effective_permission_iff:
  "has_any_effective_permission ps required \<longleftrightarrow>
     (\<exists>p \<in> set required. has_effective_permission ps p)"
  by (simp add: has_any_effective_permission_def list_ex_iff)

lemma has_effective_permission_mono:
  "set ps \<subseteq> set qs \<Longrightarrow> has_effective_permission ps p \<Longrightarrow> has_effective_permission qs p"
  by (auto simp: has_effective_permission_iff)

text \<open>
  A required permission is granted exactly by a held permission on the same resource whose
  action is the required one or \<open>manage\<close>. No grant crosses resources.
\<close>

theorem effective_permission_same_resource:
  "has_effective_permission ps p \<longleftrightarrow>
     (\<exists>q. q \<in> set ps \<and> resource q = resource p \<and> (action q = action p \<or> action q = Manage))"
proof -
  have "p \<in> set ps \<longleftrightarrow> (\<exists>q \<in> set ps. resource q = resource p \<and> action q = action p)"
    by (metis permission_new_eq_iff(1))
  moreover have "permission_new (resource p) Manage \<in> set ps \<longleftrightarrow>
      (\<exists>q \<in> set ps. resource q = resource p \<and> action q = Manage)"
    by (metis permission_new_eq_iff(1) permission_new_sel)
  ultimately show ?thesis by (auto simp: has_effective_permission_iff)
qed

end
