(* ===== verification/Ports.thy ===== *)
theory Ports
  imports Rust_Prelude
begin

text \<open>
  The context and the error that cross every module service port
  (\<open>crates/libs/rustok-api/src/ports.rs\<close>): the call policies a port enforces before it does
  any work, and the rule that keeps internal diagnostics out of public errors. A UUID is its
  128-bit value; deadlines are milliseconds of a 64-bit unsigned integer, kept as naturals with
  the clamp of the source written out.
\<close>

type_synonym uuid = "128 word"

abbreviation is_nil :: "uuid \<Rightarrow> bool" where
  "is_nil u \<equiv> u = 0"

datatype port_actor_kind = ActorUser | ActorService | ActorSystem

record port_actor =
  actor_kind :: port_actor_kind
  actor_id :: string

record port_context =
  ctx_tenant_id :: string
  ctx_actor :: port_actor
  claims :: "string list"
  roles :: "string list"
  channel :: "string option"
  locale_tag :: string
  correlation_id :: string
  causation_id :: "string option"
  traceparent :: "string option"
  idempotency_key :: "string option"
  deadline_ms :: "nat option"

datatype port_error_kind =
    Validation | NotFound | Conflict | Forbidden | Unavailable | Timeout | InvariantViolation

record port_error =
  err_kind :: port_error_kind
  err_code :: string
  err_message :: string
  retryable :: bool

subsection \<open>Errors\<close>

definition public_unavailable_message :: string where
  "public_unavailable_message = ''the requested capability is temporarily unavailable''"

definition public_invariant_message :: string where
  "public_invariant_message = ''the requested operation could not be completed safely''"

fun sanitize_public_message :: "port_error_kind \<Rightarrow> string \<Rightarrow> string" where
  "sanitize_public_message Unavailable m = public_unavailable_message"
| "sanitize_public_message InvariantViolation m = public_invariant_message"
| "sanitize_public_message _ m = m"

definition port_error_new ::
    "port_error_kind \<Rightarrow> string \<Rightarrow> string \<Rightarrow> bool \<Rightarrow> port_error" where
  "port_error_new k c m r =
     \<lparr>err_kind = k, err_code = c, err_message = sanitize_public_message k m, retryable = r\<rparr>"

definition err_validation :: "string \<Rightarrow> string \<Rightarrow> port_error" where
  "err_validation c m = port_error_new Validation c m False"

definition err_timeout :: "string \<Rightarrow> string \<Rightarrow> port_error" where
  "err_timeout c m = port_error_new Timeout c m True"

definition err_unavailable :: "string \<Rightarrow> string \<Rightarrow> port_error" where
  "err_unavailable c m = port_error_new Unavailable c m True"

definition err_not_found :: "string \<Rightarrow> string \<Rightarrow> port_error" where
  "err_not_found c m = port_error_new NotFound c m False"

definition err_conflict :: "string \<Rightarrow> string \<Rightarrow> port_error" where
  "err_conflict c m = port_error_new Conflict c m False"

definition err_forbidden :: "string \<Rightarrow> string \<Rightarrow> port_error" where
  "err_forbidden c m = port_error_new Forbidden c m False"

definition err_invariant_violation :: "string \<Rightarrow> string \<Rightarrow> port_error" where
  "err_invariant_violation c m = port_error_new InvariantViolation c m False"

definition with_retryable :: "port_error \<Rightarrow> bool \<Rightarrow> port_error" where
  "with_retryable e r = e\<lparr>retryable := r\<rparr>"

text \<open>
  Serialising and deserialising an error passes the message through the same filter again; the
  wire form is the record of the four fields.
\<close>

definition port_error_serialize ::
    "port_error \<Rightarrow> port_error_kind \<times> string \<times> string \<times> bool" where
  "port_error_serialize e =
     (err_kind e, err_code e, sanitize_public_message (err_kind e) (err_message e), retryable e)"

definition port_error_deserialize ::
    "port_error_kind \<times> string \<times> string \<times> bool \<Rightarrow> port_error" where
  "port_error_deserialize w = (case w of (k, c, m, r) \<Rightarrow> port_error_new k c m r)"

subsection \<open>Contexts\<close>

definition port_context_new :: "string \<Rightarrow> port_actor \<Rightarrow> string \<Rightarrow> string \<Rightarrow> port_context" where
  "port_context_new tenant a loc corr =
     \<lparr>ctx_tenant_id = tenant, ctx_actor = a, claims = [], roles = [], channel = None,
      locale_tag = loc, correlation_id = corr, causation_id = None, traceparent = None,
      idempotency_key = None, deadline_ms = None\<rparr>"

definition with_claim :: "port_context \<Rightarrow> string \<Rightarrow> port_context" where
  "with_claim ctx c = ctx\<lparr>claims := claims ctx @ [c]\<rparr>"

definition with_role :: "port_context \<Rightarrow> string \<Rightarrow> port_context" where
  "with_role ctx r = ctx\<lparr>roles := roles ctx @ [r]\<rparr>"

definition with_channel :: "port_context \<Rightarrow> string \<Rightarrow> port_context" where
  "with_channel ctx c = ctx\<lparr>channel := Some c\<rparr>"

definition with_causation_id :: "port_context \<Rightarrow> string \<Rightarrow> port_context" where
  "with_causation_id ctx c = ctx\<lparr>causation_id := Some c\<rparr>"

definition with_traceparent :: "port_context \<Rightarrow> string \<Rightarrow> port_context" where
  "with_traceparent ctx t = ctx\<lparr>traceparent := Some t\<rparr>"

definition with_idempotency_key :: "port_context \<Rightarrow> string \<Rightarrow> port_context" where
  "with_idempotency_key ctx k = ctx\<lparr>idempotency_key := Some k\<rparr>"

definition with_deadline :: "port_context \<Rightarrow> nat \<Rightarrow> port_context" where
  "with_deadline ctx millis = ctx\<lparr>deadline_ms := Some (min millis (2 ^ 64 - 1))\<rparr>"

definition require_deadline_semantics :: "port_context \<Rightarrow> port_error + unit" where
  "require_deadline_semantics ctx =
     (if (case deadline_ms ctx of None \<Rightarrow> 0 | Some d \<Rightarrow> d) = 0
      then Inl (err_timeout ''port.deadline_required'' ''port calls require deadline semantics'')
      else Inr ())"

definition require_read_semantics :: "port_context \<Rightarrow> port_error + unit" where
  "require_read_semantics ctx = require_deadline_semantics ctx"

definition require_write_semantics :: "port_context \<Rightarrow> port_error + unit" where
  "require_write_semantics ctx =
     (if (case idempotency_key ctx of None \<Rightarrow> [] | Some k \<Rightarrow> k) = []
      then Inl (err_validation ''port.idempotency_key_required''
                  ''write port calls require a non-empty idempotency key'')
      else require_deadline_semantics ctx)"

datatype port_operation_kind = OpRead | OpWrite | OpEventReplay | OpBestEffortRead

record port_call_policy =
  operation :: port_operation_kind
  requires_deadline :: bool
  requires_idempotency_key :: bool

definition policy_read :: port_call_policy where
  "policy_read =
     \<lparr>operation = OpRead, requires_deadline = True, requires_idempotency_key = False\<rparr>"

definition policy_write :: port_call_policy where
  "policy_write =
     \<lparr>operation = OpWrite, requires_deadline = True, requires_idempotency_key = True\<rparr>"

definition policy_event_replay :: port_call_policy where
  "policy_event_replay =
     \<lparr>operation = OpEventReplay, requires_deadline = True, requires_idempotency_key = True\<rparr>"

definition policy_best_effort_read :: port_call_policy where
  "policy_best_effort_read =
     \<lparr>operation = OpBestEffortRead, requires_deadline = False, requires_idempotency_key = False\<rparr>"

definition require_policy :: "port_context \<Rightarrow> port_call_policy \<Rightarrow> port_error + unit" where
  "require_policy ctx p =
     (if requires_idempotency_key p then require_write_semantics ctx
      else if requires_deadline p then require_read_semantics ctx
      else Inr ())"

definition actor_user :: "string \<Rightarrow> port_actor" where
  "actor_user i = \<lparr>actor_kind = ActorUser, actor_id = i\<rparr>"

definition actor_service :: "string \<Rightarrow> port_actor" where
  "actor_service i = \<lparr>actor_kind = ActorService, actor_id = i\<rparr>"

definition actor_system :: port_actor where
  "actor_system = \<lparr>actor_kind = ActorSystem, actor_id = ''system''\<rparr>"

subsection \<open>Lemmas\<close>

lemmas port_error_defs =
  err_validation_def err_timeout_def err_unavailable_def err_not_found_def err_conflict_def
  err_forbidden_def err_invariant_violation_def port_error_new_def

lemma sanitize_idem: "sanitize_public_message k (sanitize_public_message k m) = sanitize_public_message k m"
  by (cases k) simp_all

lemma require_deadline_ok:
  "require_deadline_semantics ctx = Inr () \<longleftrightarrow> (\<exists>d. deadline_ms ctx = Some d \<and> 0 < d)"
  by (auto simp: require_deadline_semantics_def split: option.splits)

text \<open>
  An error of kind \<open>Unavailable\<close> or \<open>InvariantViolation\<close> shows one of the two fixed
  public messages whatever text it was built from, and neither the wire nor a receiver that
  rebuilds the error from a forged wire form brings any other text back.
\<close>

theorem internal_errors_never_leak:
  "err_message (err_unavailable c m) = public_unavailable_message
   \<and> err_message (err_invariant_violation c m) = public_invariant_message
   \<and> err_message (port_error_deserialize (Unavailable, c, forged, r)) = public_unavailable_message
   \<and> err_message (port_error_deserialize (InvariantViolation, c, forged, r)) = public_invariant_message
   \<and> port_error_deserialize (port_error_serialize (port_error_new k c m r)) = port_error_new k c m r"
  by (simp add: port_error_defs port_error_deserialize_def port_error_serialize_def sanitize_idem)

text \<open>
  Which contexts each call policy admits. A write or a replay needs a non-empty
  idempotency key and a positive deadline, a read a positive deadline, and a best-effort read
  nothing.
\<close>

theorem require_policy_admits:
  "(require_policy ctx policy_write = Inr () \<longleftrightarrow>
      (\<exists>k. idempotency_key ctx = Some k \<and> k \<noteq> []) \<and> (\<exists>d. deadline_ms ctx = Some d \<and> 0 < d))
   \<and> require_policy ctx policy_event_replay = require_policy ctx policy_write
   \<and> (require_policy ctx policy_read = Inr () \<longleftrightarrow> (\<exists>d. deadline_ms ctx = Some d \<and> 0 < d))
   \<and> require_policy ctx policy_best_effort_read = Inr ()"
  by (auto simp: require_policy_def policy_write_def policy_event_replay_def policy_read_def
      policy_best_effort_read_def require_write_semantics_def require_read_semantics_def
      require_deadline_ok split: option.splits)

end
