(* ===== verification/Rbac.thy ===== *)
theory Rbac
  imports Permissions Ports
begin

text \<open>
  Roles, their bootstrap grants and the security context module services authorise against
  (\<open>crates/libs/rustok-core/src/rbac.rs\<close>, \<open>types.rs\<close>, \<open>security_principal.rs\<close>). A
  \<open>HashSet<Permission>\<close> is a set built by the same insertions; \<open>Uuid::parse_str\<close> is an
  argument of the one function that calls it.
\<close>

subsection \<open>Roles and statuses\<close>

datatype user_role = SuperAdmin | Admin | Manager | Customer

primrec privilege_rank :: "user_role \<Rightarrow> u8" where
  "privilege_rank Customer = 0"
| "privilege_rank Manager = 1"
| "privilege_rank Admin = 2"
| "privilege_rank SuperAdmin = 3"

definition can_assign_role :: "user_role \<Rightarrow> user_role \<Rightarrow> bool" where
  "can_assign_role self target \<longleftrightarrow>
     self = SuperAdmin \<or> privilege_rank target < privilege_rank self"

definition can_manage_role :: "user_role \<Rightarrow> user_role \<Rightarrow> bool" where
  "can_manage_role self target \<longleftrightarrow>
     self = SuperAdmin \<or> privilege_rank target < privilege_rank self"

primrec user_role_display :: "user_role \<Rightarrow> string" where
  "user_role_display SuperAdmin = ''super_admin''"
| "user_role_display Admin = ''admin''"
| "user_role_display Manager = ''manager''"
| "user_role_display Customer = ''customer''"

definition user_role_from_str :: "string \<Rightarrow> string + user_role" where
  "user_role_from_str s =
     (if s = ''super_admin'' then Inr SuperAdmin
      else if s = ''admin'' then Inr Admin
      else if s = ''manager'' then Inr Manager
      else if s = ''customer'' then Inr Customer
      else Inl (''Invalid user role: '' @ s))"

datatype user_status = UserActive | UserInactive | UserBanned

primrec user_status_display :: "user_status \<Rightarrow> string" where
  "user_status_display UserActive = ''active''"
| "user_status_display UserInactive = ''inactive''"
| "user_status_display UserBanned = ''banned''"

subsection \<open>Bootstrap grants\<close>

text \<open>The constants of \<open>impl Permission\<close> the bootstrap sets name.\<close>

abbreviation MODULES_READ :: permission where
  "MODULES_READ \<equiv> permission_new Modules Read"

abbreviation MODULES_LIST :: permission where
  "MODULES_LIST \<equiv> permission_new Modules List"

abbreviation SCRIPTS_MANAGE :: permission where
  "SCRIPTS_MANAGE \<equiv> permission_new Scripts Manage"

abbreviation MCP_MANAGE :: permission where
  "MCP_MANAGE \<equiv> permission_new Mcp Manage"

abbreviation AI_PROVIDERS_MANAGE :: permission where
  "AI_PROVIDERS_MANAGE \<equiv> permission_new AiProviders Manage"

abbreviation AI_TASK_PROFILES_MANAGE :: permission where
  "AI_TASK_PROFILES_MANAGE \<equiv> permission_new AiTaskProfiles Manage"

abbreviation LOGS_READ :: permission where
  "LOGS_READ \<equiv> permission_new Logs Read"

abbreviation LOGS_LIST :: permission where
  "LOGS_LIST \<equiv> permission_new Logs List"

abbreviation FLEX_SCHEMAS_CREATE :: permission where
  "FLEX_SCHEMAS_CREATE \<equiv> permission_new FlexSchemas Create"

abbreviation FLEX_SCHEMAS_READ :: permission where
  "FLEX_SCHEMAS_READ \<equiv> permission_new FlexSchemas Read"

abbreviation FLEX_SCHEMAS_UPDATE :: permission where
  "FLEX_SCHEMAS_UPDATE \<equiv> permission_new FlexSchemas Update"

abbreviation FLEX_SCHEMAS_LIST :: permission where
  "FLEX_SCHEMAS_LIST \<equiv> permission_new FlexSchemas List"

abbreviation PRODUCTS_CREATE :: permission where
  "PRODUCTS_CREATE \<equiv> permission_new Products Create"

abbreviation PRODUCTS_READ :: permission where
  "PRODUCTS_READ \<equiv> permission_new Products Read"

abbreviation PRODUCTS_UPDATE :: permission where
  "PRODUCTS_UPDATE \<equiv> permission_new Products Update"

abbreviation PRODUCTS_DELETE :: permission where
  "PRODUCTS_DELETE \<equiv> permission_new Products Delete"

abbreviation PRODUCTS_LIST :: permission where
  "PRODUCTS_LIST \<equiv> permission_new Products List"

abbreviation ORDERS_READ :: permission where
  "ORDERS_READ \<equiv> permission_new Orders Read"

abbreviation ORDERS_UPDATE :: permission where
  "ORDERS_UPDATE \<equiv> permission_new Orders Update"

abbreviation ORDERS_LIST :: permission where
  "ORDERS_LIST \<equiv> permission_new Orders List"

abbreviation POSTS_CREATE :: permission where
  "POSTS_CREATE \<equiv> permission_new Posts Create"

abbreviation POSTS_READ :: permission where
  "POSTS_READ \<equiv> permission_new Posts Read"

abbreviation POSTS_UPDATE :: permission where
  "POSTS_UPDATE \<equiv> permission_new Posts Update"

abbreviation POSTS_DELETE :: permission where
  "POSTS_DELETE \<equiv> permission_new Posts Delete"

abbreviation POSTS_LIST :: permission where
  "POSTS_LIST \<equiv> permission_new Posts List"

abbreviation NODES_CREATE :: permission where
  "NODES_CREATE \<equiv> permission_new Nodes Create"

abbreviation NODES_READ :: permission where
  "NODES_READ \<equiv> permission_new Nodes Read"

abbreviation NODES_UPDATE :: permission where
  "NODES_UPDATE \<equiv> permission_new Nodes Update"

abbreviation NODES_DELETE :: permission where
  "NODES_DELETE \<equiv> permission_new Nodes Delete"

abbreviation NODES_LIST :: permission where
  "NODES_LIST \<equiv> permission_new Nodes List"

abbreviation ANALYTICS_READ :: permission where
  "ANALYTICS_READ \<equiv> permission_new Analytics Read"

abbreviation TAXONOMY_CREATE :: permission where
  "TAXONOMY_CREATE \<equiv> permission_new Taxonomy Create"

abbreviation TAXONOMY_READ :: permission where
  "TAXONOMY_READ \<equiv> permission_new Taxonomy Read"

abbreviation TAXONOMY_UPDATE :: permission where
  "TAXONOMY_UPDATE \<equiv> permission_new Taxonomy Update"

abbreviation TAXONOMY_DELETE :: permission where
  "TAXONOMY_DELETE \<equiv> permission_new Taxonomy Delete"

abbreviation TAXONOMY_LIST :: permission where
  "TAXONOMY_LIST \<equiv> permission_new Taxonomy List"

abbreviation PAGES_CREATE :: permission where
  "PAGES_CREATE \<equiv> permission_new Pages Create"

abbreviation PAGES_READ :: permission where
  "PAGES_READ \<equiv> permission_new Pages Read"

abbreviation PAGES_UPDATE :: permission where
  "PAGES_UPDATE \<equiv> permission_new Pages Update"

abbreviation PAGES_DELETE :: permission where
  "PAGES_DELETE \<equiv> permission_new Pages Delete"

abbreviation PAGES_LIST :: permission where
  "PAGES_LIST \<equiv> permission_new Pages List"

abbreviation FORMS_READ :: permission where
  "FORMS_READ \<equiv> permission_new Forms Read"

abbreviation FORMS_LIST :: permission where
  "FORMS_LIST \<equiv> permission_new Forms List"

abbreviation FORMS_UPDATE :: permission where
  "FORMS_UPDATE \<equiv> permission_new Forms Update"

abbreviation FORMS_MANAGE :: permission where
  "FORMS_MANAGE \<equiv> permission_new Forms Manage"

abbreviation BLOG_POSTS_CREATE :: permission where
  "BLOG_POSTS_CREATE \<equiv> permission_new BlogPosts Create"

abbreviation BLOG_POSTS_READ :: permission where
  "BLOG_POSTS_READ \<equiv> permission_new BlogPosts Read"

abbreviation BLOG_POSTS_UPDATE :: permission where
  "BLOG_POSTS_UPDATE \<equiv> permission_new BlogPosts Update"

abbreviation BLOG_POSTS_DELETE :: permission where
  "BLOG_POSTS_DELETE \<equiv> permission_new BlogPosts Delete"

abbreviation BLOG_POSTS_LIST :: permission where
  "BLOG_POSTS_LIST \<equiv> permission_new BlogPosts List"

abbreviation BLOG_POSTS_PUBLISH :: permission where
  "BLOG_POSTS_PUBLISH \<equiv> permission_new BlogPosts Publish"

abbreviation BLOG_CATEGORIES_CREATE :: permission where
  "BLOG_CATEGORIES_CREATE \<equiv> permission_new BlogCategories Create"

abbreviation BLOG_CATEGORIES_READ :: permission where
  "BLOG_CATEGORIES_READ \<equiv> permission_new BlogCategories Read"

abbreviation BLOG_CATEGORIES_UPDATE :: permission where
  "BLOG_CATEGORIES_UPDATE \<equiv> permission_new BlogCategories Update"

abbreviation BLOG_CATEGORIES_DELETE :: permission where
  "BLOG_CATEGORIES_DELETE \<equiv> permission_new BlogCategories Delete"

abbreviation BLOG_CATEGORIES_LIST :: permission where
  "BLOG_CATEGORIES_LIST \<equiv> permission_new BlogCategories List"

abbreviation SEO_READ :: permission where
  "SEO_READ \<equiv> permission_new Seo Read"

abbreviation SEO_UPDATE :: permission where
  "SEO_UPDATE \<equiv> permission_new Seo Update"

abbreviation SEO_PUBLISH :: permission where
  "SEO_PUBLISH \<equiv> permission_new Seo Publish"

abbreviation SEO_GENERATE :: permission where
  "SEO_GENERATE \<equiv> permission_new Seo Execute"

abbreviation AI_PROVIDERS_READ :: permission where
  "AI_PROVIDERS_READ \<equiv> permission_new AiProviders Read"

abbreviation AI_TASK_PROFILES_READ :: permission where
  "AI_TASK_PROFILES_READ \<equiv> permission_new AiTaskProfiles Read"

abbreviation AI_SESSIONS_READ :: permission where
  "AI_SESSIONS_READ \<equiv> permission_new AiSessions Read"

abbreviation AI_SESSIONS_RUN :: permission where
  "AI_SESSIONS_RUN \<equiv> permission_new AiSessions Run"

abbreviation AI_RUNS_CANCEL :: permission where
  "AI_RUNS_CANCEL \<equiv> permission_new AiRuns Cancel"

abbreviation AI_APPROVALS_RESOLVE :: permission where
  "AI_APPROVALS_RESOLVE \<equiv> permission_new AiApprovals Resolve"

abbreviation AI_TASKS_TEXT_RUN :: permission where
  "AI_TASKS_TEXT_RUN \<equiv> permission_new AiTextTasks Run"

abbreviation AI_TASKS_IMAGE_RUN :: permission where
  "AI_TASKS_IMAGE_RUN \<equiv> permission_new AiImageTasks Run"

abbreviation AI_TASKS_CODE_RUN :: permission where
  "AI_TASKS_CODE_RUN \<equiv> permission_new AiCodeTasks Run"

abbreviation AI_TASKS_ALLOY_RUN :: permission where
  "AI_TASKS_ALLOY_RUN \<equiv> permission_new AiAlloyTasks Run"

abbreviation AI_TASKS_MULTIMODAL_RUN :: permission where
  "AI_TASKS_MULTIMODAL_RUN \<equiv> permission_new AiMultimodalTasks Run"

abbreviation CONVERSATIONS_CREATE :: permission where
  "CONVERSATIONS_CREATE \<equiv> permission_new Conversations Create"

abbreviation CONVERSATIONS_READ :: permission where
  "CONVERSATIONS_READ \<equiv> permission_new Conversations Read"

abbreviation CONVERSATIONS_UPDATE :: permission where
  "CONVERSATIONS_UPDATE \<equiv> permission_new Conversations Update"

abbreviation CONVERSATIONS_DELETE :: permission where
  "CONVERSATIONS_DELETE \<equiv> permission_new Conversations Delete"

abbreviation CONVERSATIONS_LIST :: permission where
  "CONVERSATIONS_LIST \<equiv> permission_new Conversations List"

abbreviation CONVERSATIONS_MANAGE :: permission where
  "CONVERSATIONS_MANAGE \<equiv> permission_new Conversations Manage"

abbreviation MESSAGES_CREATE :: permission where
  "MESSAGES_CREATE \<equiv> permission_new Messages Create"

abbreviation MESSAGES_READ :: permission where
  "MESSAGES_READ \<equiv> permission_new Messages Read"

abbreviation MESSAGES_DELETE :: permission where
  "MESSAGES_DELETE \<equiv> permission_new Messages Delete"

abbreviation MESSAGES_LIST :: permission where
  "MESSAGES_LIST \<equiv> permission_new Messages List"

abbreviation ORDERS_CREATE :: permission where
  "ORDERS_CREATE \<equiv> permission_new Orders Create"

abbreviation INVENTORY_READ :: permission where
  "INVENTORY_READ \<equiv> permission_new Inventory Read"

abbreviation INVENTORY_LIST :: permission where
  "INVENTORY_LIST \<equiv> permission_new Inventory List"

abbreviation TAGS_READ :: permission where
  "TAGS_READ \<equiv> permission_new Tags Read"

abbreviation TAGS_LIST :: permission where
  "TAGS_LIST \<equiv> permission_new Tags List"

definition managed_permissions :: "resource list \<Rightarrow> permission set" where
  "managed_permissions rs = set (map (\<lambda>r. permission_new r Manage) rs)"

definition insert_actions :: "permission set \<Rightarrow> resource \<Rightarrow> action list \<Rightarrow> permission set" where
  "insert_actions ps r as = ps \<union> set (map (\<lambda>a. permission_new r a) as)"

definition SUPER_ADMIN_PERMISSIONS :: "permission set" where
  "SUPER_ADMIN_PERMISSIONS = managed_permissions
      [Users, Tenants, Modules, Settings, FlexSchemas, FlexEntries, Products, Categories,
       Orders, Customers, Inventory, Discounts, Posts, Pages, Nodes, Media, Seo, Comments,
       Taxonomy, Analytics, Logs, Webhooks, Scripts, Mcp, AiProviders, AiTaskProfiles,
       AiSessions, AiRuns, AiApprovals, AiRouter, AiTextTasks, AiImageTasks, AiCodeTasks,
       AiAlloyTasks, AiMultimodalTasks, BlogPosts, BlogCategories, Tags, ForumCategories,
       ForumTopics, ForumReplies, ModerationCases, Workflows, WorkflowExecutions, Translations,
       TranslationMemory, TranslationGlossaries, Navigation, Fulfillments, Payments, Regions,
       Profiles, Groups, MarketplaceSellers, MarketplaceListings, Forms, Conversations,
       Messages]"

definition ADMIN_PERMISSIONS :: "permission set" where
  "ADMIN_PERMISSIONS =
     managed_permissions
      [Users, Settings, Products, Categories, Orders, Customers, Inventory, Discounts, Posts,
       Pages, Nodes, Media, Seo, Comments, Taxonomy, Analytics, Webhooks, BlogPosts,
       BlogCategories, Tags, ForumCategories, ForumTopics, ForumReplies, ModerationCases,
       Workflows, WorkflowExecutions, Translations, TranslationMemory, TranslationGlossaries,
       Navigation, Fulfillments, Payments, Regions, Profiles, Groups, MarketplaceSellers,
       MarketplaceListings, Forms, Conversations, Messages]
     \<union> set
      [MODULES_READ, MODULES_LIST, SCRIPTS_MANAGE, MCP_MANAGE, AI_PROVIDERS_MANAGE,
       AI_TASK_PROFILES_MANAGE, permission_new AiSessions Manage, permission_new AiRuns Manage,
       permission_new AiApprovals Manage, permission_new AiRouter Manage,
       permission_new AiTextTasks Manage, permission_new AiImageTasks Manage,
       permission_new AiCodeTasks Manage, permission_new AiAlloyTasks Manage,
       permission_new AiMultimodalTasks Manage, LOGS_READ, LOGS_LIST, FLEX_SCHEMAS_CREATE,
       FLEX_SCHEMAS_READ, FLEX_SCHEMAS_UPDATE, FLEX_SCHEMAS_LIST]"

definition MANAGER_PERMISSIONS :: "permission set" where
  "MANAGER_PERMISSIONS =
     (let ps = set
      [PRODUCTS_CREATE, PRODUCTS_READ, PRODUCTS_UPDATE, PRODUCTS_DELETE, PRODUCTS_LIST];
      ps = insert_actions ps Categories [Create, Read, Update, Delete, List];
      ps = ps \<union> set
      [ORDERS_READ, ORDERS_UPDATE, ORDERS_LIST, permission_new Customers Read,
       permission_new Customers List];
      ps = insert_actions ps Inventory [Create, Read, Update, List];
      ps = ps \<union> set
      [POSTS_CREATE, POSTS_READ, POSTS_UPDATE, POSTS_DELETE, POSTS_LIST, NODES_CREATE,
       NODES_READ, NODES_UPDATE, NODES_DELETE, NODES_LIST];
      ps = insert_actions ps Media [Create, Read, Update, Delete, List];
      ps = ps \<union> set
      [ANALYTICS_READ, TAXONOMY_CREATE, TAXONOMY_READ, TAXONOMY_UPDATE, TAXONOMY_DELETE,
       TAXONOMY_LIST, PAGES_CREATE, PAGES_READ, PAGES_UPDATE, PAGES_DELETE, PAGES_LIST,
       FORMS_READ, FORMS_LIST, FORMS_UPDATE, FORMS_MANAGE, BLOG_POSTS_CREATE, BLOG_POSTS_READ,
       BLOG_POSTS_UPDATE, BLOG_POSTS_DELETE, BLOG_POSTS_LIST, BLOG_POSTS_PUBLISH,
       BLOG_CATEGORIES_CREATE, BLOG_CATEGORIES_READ, BLOG_CATEGORIES_UPDATE,
       BLOG_CATEGORIES_DELETE, BLOG_CATEGORIES_LIST, SEO_READ, SEO_UPDATE, SEO_PUBLISH,
       SEO_GENERATE, AI_PROVIDERS_READ, AI_TASK_PROFILES_READ, AI_SESSIONS_READ,
       AI_SESSIONS_RUN, AI_RUNS_CANCEL, AI_APPROVALS_RESOLVE, AI_TASKS_TEXT_RUN,
       AI_TASKS_IMAGE_RUN, AI_TASKS_CODE_RUN, AI_TASKS_ALLOY_RUN, AI_TASKS_MULTIMODAL_RUN,
       CONVERSATIONS_CREATE, CONVERSATIONS_READ, CONVERSATIONS_UPDATE, CONVERSATIONS_DELETE,
       CONVERSATIONS_LIST, CONVERSATIONS_MANAGE, MESSAGES_CREATE, MESSAGES_READ,
       MESSAGES_DELETE, MESSAGES_LIST];
      ps = insert_actions ps ForumCategories [Create, Read, Update, List]
      in foldl (\<lambda>ps r. insert_actions ps r [Create, Read, Update, Delete, List, Moderate])
           ps [ForumTopics, ForumReplies])"

definition CUSTOMER_GRANTS :: "permission list" where
  "CUSTOMER_GRANTS =
      [PRODUCTS_READ, PRODUCTS_LIST, permission_new Categories Read,
       permission_new Categories List, ORDERS_READ, ORDERS_LIST, ORDERS_CREATE, POSTS_READ,
       POSTS_LIST, NODES_READ, NODES_LIST, PAGES_READ, PAGES_LIST,
       permission_new Comments Create, permission_new Comments Read,
       permission_new Comments List, TAXONOMY_READ, TAXONOMY_LIST, BLOG_POSTS_READ,
       BLOG_POSTS_LIST, BLOG_CATEGORIES_READ, BLOG_CATEGORIES_LIST,
       permission_new ForumCategories Read, permission_new ForumCategories List,
       permission_new ForumTopics Read, permission_new ForumTopics List,
       permission_new ForumTopics Create, permission_new ForumReplies Read,
       permission_new ForumReplies List, permission_new ForumReplies Create,
       permission_new ForumTopics Update, permission_new ForumTopics Delete,
       permission_new ForumReplies Update, permission_new ForumReplies Delete, INVENTORY_READ,
       INVENTORY_LIST, CONVERSATIONS_CREATE, CONVERSATIONS_READ, CONVERSATIONS_LIST,
       MESSAGES_CREATE, MESSAGES_READ, MESSAGES_LIST]"

definition CUSTOMER_PERMISSIONS :: "permission set" where
  "CUSTOMER_PERMISSIONS = {} \<union> set CUSTOMER_GRANTS"

primrec permissions_for_role :: "user_role \<Rightarrow> permission set" where
  "permissions_for_role SuperAdmin = SUPER_ADMIN_PERMISSIONS"
| "permissions_for_role Admin = ADMIN_PERMISSIONS"
| "permissions_for_role Manager = MANAGER_PERMISSIONS"
| "permissions_for_role Customer = CUSTOMER_PERMISSIONS"

definition has_effective_permission_in_set :: "permission set \<Rightarrow> permission \<Rightarrow> bool" where
  "has_effective_permission_in_set ps p \<longleftrightarrow>
     p \<in> ps \<or> permission_new (resource p) Manage \<in> ps"

text \<open>
  \<open>Rbac::has_permission\<close> first copies the set into a vector and then asks
  \<open>has_effective_permission\<close>; lemma \<open>has_permission_enumerated\<close> shows that the order of
  the copy does not matter, so the model asks the set.
\<close>

definition has_permission :: "user_role \<Rightarrow> permission \<Rightarrow> bool" where
  "has_permission r p \<longleftrightarrow> has_effective_permission_in_set (permissions_for_role r) p"

definition has_any_permission :: "user_role \<Rightarrow> permission list \<Rightarrow> bool" where
  "has_any_permission r ps \<longleftrightarrow> list_ex (\<lambda>p. has_permission r p) ps"

definition has_all_permissions :: "user_role \<Rightarrow> permission list \<Rightarrow> bool" where
  "has_all_permissions r ps \<longleftrightarrow> list_all (\<lambda>p. has_permission r p) ps"

subsection \<open>Inferring a role label\<close>

definition role_matches_permissions :: "user_role \<Rightarrow> permission list \<Rightarrow> bool" where
  "role_matches_permissions role ps =
     (let has_grant = (\<lambda>p. List.member ps p \<or> List.member ps (permission_new (resource p) Manage)) in
      case role of
        SuperAdmin \<Rightarrow>
          has_grant (permission_new Tenants Manage) \<and> has_grant (permission_new Modules Manage)
          \<and> has_grant (permission_new Users Manage) \<and> has_grant (permission_new Settings Manage)
      | Admin \<Rightarrow> has_grant (permission_new Users Manage) \<and> has_grant (permission_new Settings Manage)
      | Manager \<Rightarrow> has_grant PRODUCTS_READ \<and> (has_grant PRODUCTS_CREATE \<or> has_grant ORDERS_READ)
      | Customer \<Rightarrow> True)"

definition infer_user_role_from_permissions :: "permission list \<Rightarrow> user_role" where
  "infer_user_role_from_permissions ps =
     (case find (\<lambda>role. role_matches_permissions role ps) [SuperAdmin, Admin, Manager] of
        Some role \<Rightarrow> role
      | None \<Rightarrow> Customer)"

subsection \<open>Scopes and security contexts\<close>

datatype permission_scope = ScopeAll | ScopeOwn | ScopeNone

datatype security_actor_kind = SecSystem | SecUser | SecService | SecPublic

record security_context =
  sec_actor_kind :: security_actor_kind
  sec_role :: user_role
  sec_user_id :: "uuid option"
  sec_permissions :: "permission set"

definition author_owned_resources :: "resource list" where
  "author_owned_resources = [ForumTopics, ForumReplies, Comments, BlogPosts, Posts, Pages, Nodes]"

definition permission_scope_for_set ::
    "permission set \<Rightarrow> permission \<Rightarrow> user_role \<Rightarrow> permission_scope" where
  "permission_scope_for_set ps p role =
     (if \<not> has_effective_permission_in_set ps p then ScopeNone
      else if List.member [SuperAdmin, Admin, Manager] role then ScopeAll
      else if has_effective_permission_in_set ps (permission_new (resource p) Manage)
              \<or> has_effective_permission_in_set ps (permission_new (resource p) Moderate)
           then ScopeAll
      else if List.member author_owned_resources (resource p) \<and> List.member [Update, Delete] (action p)
              \<or> resource p = Orders
           then ScopeOwn
      else ScopeAll)"

definition rbac_get_scope :: "user_role \<Rightarrow> permission \<Rightarrow> permission_scope" where
  "rbac_get_scope role p = permission_scope_for_set (permissions_for_role role) p role"

definition security_context_new :: "user_role \<Rightarrow> uuid option \<Rightarrow> security_context" where
  "security_context_new role uid =
     \<lparr>sec_actor_kind = SecUser, sec_role = role, sec_user_id = uid,
      sec_permissions = permissions_for_role role\<rparr>"

definition from_permissions ::
    "user_role \<Rightarrow> uuid option \<Rightarrow> permission list \<Rightarrow> security_context" where
  "from_permissions role uid ps =
     \<lparr>sec_actor_kind = SecUser, sec_role = role, sec_user_id = uid, sec_permissions = set ps\<rparr>"

definition service_context :: "user_role \<Rightarrow> permission list \<Rightarrow> security_context" where
  "service_context role ps =
     \<lparr>sec_actor_kind = SecService, sec_role = role, sec_user_id = None, sec_permissions = set ps\<rparr>"

definition from_permission_snapshot :: "uuid option \<Rightarrow> permission list \<Rightarrow> security_context" where
  "from_permission_snapshot uid ps = from_permissions (infer_user_role_from_permissions ps) uid ps"

definition public_read :: security_context where
  "public_read =
     \<lparr>sec_actor_kind = SecPublic, sec_role = Customer, sec_user_id = None,
      sec_permissions = set
      [POSTS_READ, POSTS_LIST, BLOG_POSTS_READ, BLOG_POSTS_LIST, BLOG_CATEGORIES_READ,
       BLOG_CATEGORIES_LIST, TAGS_READ, TAGS_LIST, PAGES_READ, PAGES_LIST, NODES_READ,
       NODES_LIST, TAXONOMY_READ, TAXONOMY_LIST, permission_new ForumCategories Read,
       permission_new ForumCategories List, permission_new ForumTopics Read,
       permission_new ForumTopics List, permission_new ForumReplies Read,
       permission_new ForumReplies List]\<rparr>"

definition is_public_read :: "security_context \<Rightarrow> bool" where
  "is_public_read s \<longleftrightarrow> sec_actor_kind s = SecPublic"

definition system_context :: security_context where
  "system_context =
     \<lparr>sec_actor_kind = SecSystem, sec_role = SuperAdmin, sec_user_id = None,
      sec_permissions = permissions_for_role SuperAdmin\<rparr>"

definition get_scope :: "security_context \<Rightarrow> resource \<Rightarrow> action \<Rightarrow> permission_scope" where
  "get_scope s r a = permission_scope_for_set (sec_permissions s) (permission_new r a) (sec_role s)"

definition parse_claim :: "string \<Rightarrow> port_error + permission" where
  "parse_claim claim =
     map_err (\<lambda>_. err_validation ''port.permission_claim_invalid''
                    (''invalid permission claim: '' @ claim))
       (permission_from_str claim)"

definition role_claim :: "string list \<Rightarrow> port_error + user_role" where
  "role_claim rs =
     (case rs of
        [] \<Rightarrow> Inl (err_forbidden ''port.role_required''
                     ''user and service actors require a role claim'')
      | [role] \<Rightarrow> map_err (\<lambda>_. err_validation ''port.role_invalid'' (''invalid role claim: '' @ role))
                     (user_role_from_str role)
      | _ \<Rightarrow> Inl (err_validation ''port.role_ambiguous'' ''at most one role claim is allowed''))"

definition try_from_port_context ::
    "(string \<Rightarrow> uuid option) \<Rightarrow> port_context \<Rightarrow> port_error + security_context" where
  "try_from_port_context parse_uuid ctx =
     (if actor_kind (ctx_actor ctx) = ActorSystem then Inr system_context
      else
        rbind (ok_or (parse_uuid (actor_id (ctx_actor ctx)))
                 (err_validation ''port.actor_id_invalid''
                    ''user and service actors require a UUID actor id'')) (\<lambda>aid.
        rbind (ensure (claims ctx \<noteq> [])
                 (err_forbidden ''port.permission_claims_required''
                    ''user and service actors require permission claims'')) (\<lambda>_.
        rbind (try_map parse_claim (claims ctx)) (\<lambda>ps.
        rbind (role_claim (roles ctx)) (\<lambda>role.
        let security = from_permissions role
              (if actor_kind (ctx_actor ctx) = ActorUser then Some aid else None) ps in
        Inr (if actor_kind (ctx_actor ctx) = ActorService
             then security\<lparr>sec_actor_kind := SecService\<rparr> else security))))))"

definition security_context_from_access_token ::
    "uuid \<Rightarrow> string \<Rightarrow> permission list \<Rightarrow> security_context" where
  "security_context_from_access_token subject grant_type ps =
     (let role = infer_user_role_from_permissions ps in
      if grant_type = ''client_credentials'' then service_context role ps
      else from_permissions role (Some subject) ps)"

subsection \<open>Roles\<close>

lemma privilege_rank_inject [simp]: "privilege_rank a = privilege_rank b \<longleftrightarrow> a = b"
  by (cases a; cases b) simp_all

instantiation user_role :: linorder
begin

definition less_eq_user_role :: "user_role \<Rightarrow> user_role \<Rightarrow> bool" where
  "less_eq_user_role a b \<longleftrightarrow> privilege_rank a \<le> privilege_rank b"

definition less_user_role :: "user_role \<Rightarrow> user_role \<Rightarrow> bool" where
  "less_user_role a b \<longleftrightarrow> privilege_rank a < privilege_rank b"

instance
  by intro_classes (auto simp: less_eq_user_role_def less_user_role_def order_less_le)

end

lemma SuperAdmin_greatest [simp]: "r \<le> SuperAdmin" "\<not> SuperAdmin < r"
  by (cases r; simp add: less_eq_user_role_def less_user_role_def)+

lemma can_assign_role_iff: "can_assign_role a b \<longleftrightarrow> a = SuperAdmin \<or> b < a"
  by (simp add: can_assign_role_def less_user_role_def)

lemma can_manage_role_iff: "can_manage_role a b \<longleftrightarrow> a = SuperAdmin \<or> b < a"
  by (simp add: can_manage_role_def less_user_role_def)

lemma user_role_from_str_Inr [simp]: "user_role_from_str s = Inr r \<longleftrightarrow> s = user_role_display r"
  by (cases r) (auto simp: user_role_from_str_def)

interpretation user_role_text: text_codec user_role_display "\<lambda>s. ok (user_role_from_str s)"
  by unfold_locales simp

subsection \<open>Effective permissions and scopes\<close>

lemma has_effective_permission_set:
  "has_effective_permission ps p \<longleftrightarrow> has_effective_permission_in_set (set ps) p"
  by (simp add: has_effective_permission_iff has_effective_permission_in_set_def)

lemma has_permission_enumerated:
  "set ps = permissions_for_role r \<Longrightarrow> has_permission r p \<longleftrightarrow> has_effective_permission ps p"
  by (simp add: has_permission_def has_effective_permission_set)

lemma managed_iff [simp]: "p \<in> managed_permissions rs \<longleftrightarrow> resource p \<in> set rs \<and> action p = Manage"
  by (auto simp: managed_permissions_def permission_new_eq_iff)

lemma super_admin_manages: "permission_new r Manage \<in> SUPER_ADMIN_PERMISSIONS"
  unfolding SUPER_ADMIN_PERMISSIONS_def managed_iff by (cases r) simp_all

lemma super_admin_range: "SUPER_ADMIN_PERMISSIONS = range (\<lambda>r. permission_new r Manage)"
proof -
  have "SUPER_ADMIN_PERMISSIONS \<subseteq> range (\<lambda>r. permission_new r Manage)"
    unfolding SUPER_ADMIN_PERMISSIONS_def managed_permissions_def set_map by blast
  then show ?thesis using super_admin_manages by blast
qed

lemma scope_None_iff [simp]:
  "permission_scope_for_set ps p role = ScopeNone \<longleftrightarrow> \<not> has_effective_permission_in_set ps p"
  by (simp add: permission_scope_for_set_def)

lemma scope_staff:
  "role \<noteq> Customer \<Longrightarrow> has_effective_permission_in_set ps p \<Longrightarrow>
   permission_scope_for_set ps p role = ScopeAll"
  by (cases role) (simp_all add: permission_scope_for_set_def)

lemma customer_inferred:
  "permission_new Products Read \<in> CUSTOMER_PERMISSIONS"
  "permission_new Orders Read \<in> CUSTOMER_PERMISSIONS"
  "permission_new Products Create \<notin> CUSTOMER_PERMISSIONS"
  "permission_new ForumTopics Update \<in> CUSTOMER_PERMISSIONS"
  unfolding CUSTOMER_PERMISSIONS_def CUSTOMER_GRANTS_def by simp_all

lemma customer_no_staff_action:
  "p \<in> CUSTOMER_PERMISSIONS \<Longrightarrow> action p \<noteq> Manage \<and> action p \<noteq> Moderate"
  unfolding CUSTOMER_PERMISSIONS_def CUSTOMER_GRANTS_def set_simps Un_empty_left
  by (elim insertE) (simp_all only: permission_new_sel action.distinct empty_iff simp_thms)

subsection \<open>Properties\<close>

text \<open>
  The bootstrap grants of the super administrator are complete: they make every permission
  of the vocabulary effective, and a system context has unrestricted scope on everything.
\<close>

theorem super_admin_complete:
  "has_permission SuperAdmin p \<and> get_scope system_context r a = ScopeAll"
  by (simp add: has_permission_def has_effective_permission_in_set_def super_admin_manages
      get_scope_def system_context_def scope_staff)

text \<open>
  The scope of a permission, decided completely. Scope is denied exactly without the
  effective permission; a customer is limited to own objects exactly when neither \<open>manage\<close>
  nor \<open>moderate\<close> is held on the resource and the request updates or deletes an author-owned
  object or touches orders; everything else that is granted has the full scope.
\<close>

theorem permission_scope_decided:
  "(permission_scope_for_set ps p role = ScopeNone \<longleftrightarrow> \<not> has_effective_permission_in_set ps p)
   \<and> (permission_scope_for_set ps p role = ScopeOwn \<longleftrightarrow>
        role = Customer \<and> p \<in> ps
        \<and> permission_new (resource p) Manage \<notin> ps \<and> permission_new (resource p) Moderate \<notin> ps
        \<and> (resource p = Orders
            \<or> resource p \<in> {ForumTopics, ForumReplies, Comments, BlogPosts, Posts, Pages, Nodes}
              \<and> action p \<in> {Update, Delete}))"
  by (cases role)
    (auto simp: permission_scope_for_set_def has_effective_permission_in_set_def
      author_owned_resources_def)

lemma try_from_port_context_Inr:
  "actor_kind (ctx_actor ctx) \<noteq> ActorSystem \<Longrightarrow>
   try_from_port_context parse_uuid ctx = Inr s \<longleftrightarrow>
     (\<exists>aid ps role. parse_uuid (actor_id (ctx_actor ctx)) = Some aid \<and> claims ctx \<noteq> []
        \<and> list_all2 (\<lambda>c p. permission_from_str c = Inr p) (claims ctx) ps
        \<and> roles ctx = [user_role_display role]
        \<and> s = \<lparr>sec_actor_kind = (if actor_kind (ctx_actor ctx) = ActorUser then SecUser else SecService),
               sec_role = role,
               sec_user_id = (if actor_kind (ctx_actor ctx) = ActorUser then Some aid else None),
               sec_permissions = set ps\<rparr>)"
  by (cases "actor_kind (ctx_actor ctx)")
    (auto simp: try_from_port_context_def from_permissions_def parse_claim_def try_map_Inr
      role_claim_def Let_def split: list.splits)

text \<open>
  A port context of a user or a service becomes a security context only with a UUID actor,
  at least one claim, every claim a well-formed permission and exactly one known role; the
  context then carries exactly the claimed permissions and the claimed role, and a service
  never owns objects as a user.
\<close>

theorem port_context_carries_exactly_its_claims:
  assumes "actor_kind (ctx_actor ctx) \<noteq> ActorSystem"
    and "try_from_port_context parse_uuid ctx = Inr s"
  shows "claims ctx \<noteq> [] \<and> roles ctx = [user_role_display (sec_role s)]
    \<and> sec_permissions s = {p. \<exists>c \<in> set (claims ctx). permission_from_str c = Inr p}
    \<and> (\<forall>c \<in> set (claims ctx). is_ok (permission_from_str c))
    \<and> sec_user_id s = (if actor_kind (ctx_actor ctx) = ActorUser
                        then parse_uuid (actor_id (ctx_actor ctx)) else None)
    \<and> sec_actor_kind s \<noteq> SecSystem"
proof -
  from assms obtain aid ps role where
    p: "parse_uuid (actor_id (ctx_actor ctx)) = Some aid" "claims ctx \<noteq> []"
       "roles ctx = [user_role_display role]"
    and c: "list_all2 (\<lambda>c p. permission_from_str c = Inr p) (claims ctx) ps"
    and s: "s = \<lparr>sec_actor_kind = (if actor_kind (ctx_actor ctx) = ActorUser then SecUser else SecService),
               sec_role = role,
               sec_user_id = (if actor_kind (ctx_actor ctx) = ActorUser then Some aid else None),
               sec_permissions = set ps\<rparr>"
    by (auto simp: try_from_port_context_Inr)
  have "set ps = {p. \<exists>c \<in> set (claims ctx). permission_from_str c = Inr p}"
    using c by (induction rule: list_all2_induct) auto
  moreover have "\<forall>c \<in> set (claims ctx). is_ok (permission_from_str c)"
    using c by (induction rule: list_all2_induct) auto
  ultimately show ?thesis using p s by simp
qed

lemma port_context_carries_exactly_its_claims_witness:
  "sec_permissions (from_permissions Customer (Some 7) [permission_new Forms Read])
     = {p. \<exists>c \<in> {'' forms:read''}. permission_from_str c = Inr p}"
proof -
  define ctx where "ctx = with_role (with_claim
      (port_context_new ''t'' (actor_user ''u'') ''en'' ''c'') '' forms:read'') ''customer''"
  have ctx: "actor_kind (ctx_actor ctx) = ActorUser" "claims ctx = ['' forms:read'']"
      "roles ctx = [user_role_display Customer]"
    by (simp_all add: ctx_def with_role_def with_claim_def port_context_new_def actor_user_def)
  have "permission_from_str '' forms:read'' = Inr (permission_new Forms Read)"
    by code_simp
  then have "try_from_port_context (\<lambda>_. Some 7) ctx
      = Inr (from_permissions Customer (Some 7) [permission_new Forms Read])"
    by (auto simp: try_from_port_context_Inr ctx from_permissions_def
        intro!: exI [of _ "[permission_new Forms Read]"])
  from port_context_carries_exactly_its_claims [OF _ this] show ?thesis by (simp add: ctx)
qed

text \<open>
  A service token never acts as a user, a user token keeps its subject, and the label
  inferred for either decides only the width of a scope, never whether it is granted: an
  action is allowed exactly when the token's own permissions make it effective.
\<close>

theorem access_token_context_authority:
  "(sec_user_id (security_context_from_access_token u g ps) =
      (if g = ''client_credentials'' then None else Some u))
   \<and> (sec_actor_kind (security_context_from_access_token u g ps) =
      (if g = ''client_credentials'' then SecService else SecUser))
   \<and> (get_scope (security_context_from_access_token u g ps) r a \<noteq> ScopeNone
      \<longleftrightarrow> has_effective_permission ps (permission_new r a))"
  by (simp add: security_context_from_access_token_def service_context_def from_permissions_def
      get_scope_def has_effective_permission_set Let_def)

lemma customer_snapshot_label:
  "set ps = CUSTOMER_PERMISSIONS \<Longrightarrow> infer_user_role_from_permissions ps = Manager"
  using customer_no_staff_action [of "permission_new Users Manage"] customer_inferred(1,2)
  by (auto simp: infer_user_role_from_permissions_def role_matches_permissions_def)

text \<open>
  C40: the inferred label does widen a check. A snapshot that holds exactly the bootstrap grants
  of a customer is labelled \<open>Manager\<close>, so the right to edit forum topics, which a customer
  context has on own topics only, becomes the right to edit every topic.
\<close>

theorem customer_snapshot_widened:
  assumes "set ps = permissions_for_role Customer"
  shows "infer_user_role_from_permissions ps = Manager \<and> sec_role (from_permission_snapshot uid ps) = Manager
    \<and> get_scope (security_context_new Customer uid) ForumTopics Update = ScopeOwn
    \<and> get_scope (from_permission_snapshot uid ps) ForumTopics Update = ScopeAll"
proof -
  have label: "infer_user_role_from_permissions ps = Manager" using assms customer_snapshot_label by simp
  then have "sec_role (from_permission_snapshot uid ps) = Manager"
    by (simp add: from_permission_snapshot_def from_permissions_def)
  moreover have "get_scope (security_context_new Customer uid) ForumTopics Update = ScopeOwn"
    using customer_inferred(4) customer_no_staff_action [of "permission_new ForumTopics Manage"]
      customer_no_staff_action [of "permission_new ForumTopics Moderate"]
    by (auto simp: get_scope_def security_context_new_def permission_scope_for_set_def
        has_effective_permission_in_set_def author_owned_resources_def)
  moreover have "get_scope (from_permission_snapshot uid ps) ForumTopics Update = ScopeAll"
    using assms customer_inferred(4)
    by (simp add: get_scope_def from_permission_snapshot_def from_permissions_def
        customer_snapshot_label scope_staff has_effective_permission_in_set_def)
  ultimately show ?thesis using label by blast
qed

lemma customer_snapshot_widened_witness:
  "infer_user_role_from_permissions CUSTOMER_GRANTS = Manager
   \<and> sec_role (from_permission_snapshot (Some 7) CUSTOMER_GRANTS) = Manager
   \<and> get_scope (security_context_new Customer (Some 7)) ForumTopics Update = ScopeOwn
   \<and> get_scope (from_permission_snapshot (Some 7) CUSTOMER_GRANTS) ForumTopics Update = ScopeAll"
  by (rule customer_snapshot_widened) (simp add: CUSTOMER_PERMISSIONS_def)

end
