(* ===== verification/Rbac_Policy.thy ===== *)
theory Rbac_Policy
  imports Rbac
begin

text \<open>
  The decision engine of the RBAC module over a resolved permission set
  (\<open>crates/modules/rustok-rbac/src/services\<close>: \<open>permission_policy.rs\<close>,
  \<open>permission_normalization.rs\<close>, \<open>permission_evaluator.rs\<close>, \<open>permission_check.rs\<close>,
  \<open>policy_evaluator.rs\<close>). \<open>normalize_permissions\<close> sorts by the printed form and drops
  adjacent repetitions; printing is injective (\<open>permission_text\<close>), so the unstable sort of the
  source has one result.
\<close>

datatype denied_reason_kind = NoPermissionsResolved | MissingPermissions | UnknownReason

record permission_check_outcome =
  allowed :: bool
  missing :: "permission list"

record permission_evaluation =
  ev_allowed :: bool
  ev_missing :: "permission list"
  ev_denied_reason :: "(denied_reason_kind \<times> string) option"

datatype permission_check = Single permission | Any "permission list" | All "permission list"

definition normalize_permissions :: "permission list \<Rightarrow> permission list" where
  "normalize_permissions ps = remdups_adj (sort_key permission_display ps)"

definition missing_permissions :: "permission list \<Rightarrow> permission list \<Rightarrow> permission list" where
  "missing_permissions user required =
     normalize_permissions (filter (\<lambda>p. \<not> has_effective_permission user p) required)"

definition check_permission :: "permission list \<Rightarrow> permission \<Rightarrow> permission_check_outcome" where
  "check_permission user required =
     (let a = has_effective_permission user required in
      \<lparr>allowed = a, missing = (if a then [] else [required])\<rparr>)"

definition check_any_permission ::
    "permission list \<Rightarrow> permission list \<Rightarrow> permission_check_outcome" where
  "check_any_permission user required =
     (if required = [] then \<lparr>allowed = False, missing = []\<rparr>
      else let a = list_ex (\<lambda>p. has_effective_permission user p) required in
        \<lparr>allowed = a, missing = (if a then [] else normalize_permissions required)\<rparr>)"

definition check_all_permissions ::
    "permission list \<Rightarrow> permission list \<Rightarrow> permission_check_outcome" where
  "check_all_permissions user required =
     (if required = [] then \<lparr>allowed = True, missing = []\<rparr>
      else let m = missing_permissions user required in \<lparr>allowed = (m = []), missing = m\<rparr>)"

fun join_comma :: "string list \<Rightarrow> string" where
  "join_comma [] = []"
| "join_comma [s] = s"
| "join_comma (s # ss) = s @ '','' @ join_comma ss"

definition denied_reason_for_denial ::
    "permission list \<Rightarrow> permission list \<Rightarrow> denied_reason_kind \<times> string" where
  "denied_reason_for_denial user missing_ps =
     (if user = [] then (NoPermissionsResolved, ''no_permissions_resolved'')
      else if missing_ps = [] then (UnknownReason, ''unknown'')
      else (MissingPermissions,
            ''missing_permissions:'' @ join_comma (map permission_display missing_ps)))"

definition denied_reason ::
    "permission_check_outcome \<Rightarrow> permission list \<Rightarrow> (denied_reason_kind \<times> string) option" where
  "denied_reason outcome user =
     (if allowed outcome then None
      else Some (denied_reason_for_denial user (missing outcome)))"

definition from_outcome ::
    "permission_check_outcome \<Rightarrow> permission list \<Rightarrow> permission_evaluation" where
  "from_outcome outcome user =
     \<lparr>ev_allowed = allowed outcome, ev_missing = missing outcome,
      ev_denied_reason = denied_reason outcome user\<rparr>"

definition evaluate_single_permission :: "permission list \<Rightarrow> permission \<Rightarrow> permission_evaluation" where
  "evaluate_single_permission user p = from_outcome (check_permission user p) user"

definition evaluate_any_permission ::
    "permission list \<Rightarrow> permission list \<Rightarrow> permission_evaluation" where
  "evaluate_any_permission user ps = from_outcome (check_any_permission user ps) user"

definition evaluate_all_permissions ::
    "permission list \<Rightarrow> permission list \<Rightarrow> permission_evaluation" where
  "evaluate_all_permissions user ps = from_outcome (check_all_permissions user ps) user"

fun evaluate_policy_permissions :: "uuid \<Rightarrow> permission list \<Rightarrow> permission_check \<Rightarrow> bool" where
  "evaluate_policy_permissions tenant resolved (Single p) = allowed (check_permission resolved p)"
| "evaluate_policy_permissions tenant resolved (Any ps) = allowed (check_any_permission resolved ps)"
| "evaluate_policy_permissions tenant resolved (All ps) = allowed (check_all_permissions resolved ps)"

subsection \<open>Normalisation\<close>

lemma set_normalize [simp]: "set (normalize_permissions ps) = set ps"
  by (simp add: normalize_permissions_def)

lemma normalize_eq_Nil [simp]: "normalize_permissions ps = [] \<longleftrightarrow> ps = []"
  by (metis set_empty set_normalize)

lemma normalize_Nil [simp]: "normalize_permissions [] = []"
  by simp

lemma distinct_normalize: "distinct (normalize_permissions ps)"
  by (simp add: normalize_permissions_def permission_text.sort_key_distinct)

lemma sorted_map_remdups_adj: "sorted (map f xs) \<Longrightarrow> sorted (map f (remdups_adj xs))"
  by (induction xs rule: remdups_adj.induct) auto

lemma sorted_normalize: "sorted (map permission_display (normalize_permissions ps))"
  by (simp add: normalize_permissions_def sorted_map_remdups_adj)

text \<open>Equal sets of permissions have one normal form.\<close>

lemma normalize_canonical:
  "set ps = set qs \<Longrightarrow> normalize_permissions ps = normalize_permissions qs"
  by (rule map_inj_on [where f = permission_display])
    (auto intro!: sorted_distinct_set_unique permission_text.inj_render
      simp: sorted_normalize distinct_map distinct_normalize)

subsection \<open>Properties\<close>

lemma strictly_sorted_normalize: "sorted_wrt (<) (map permission_display (normalize_permissions ps))"
  by (simp add: strict_sorted_iff sorted_normalize distinct_map distinct_normalize permission_text.inj_render)

lemma missing_set: "set (missing_permissions us ps) = {p \<in> set ps. \<not> has_effective_permission us p}"
  by (simp add: missing_permissions_def)

lemma effective_same: "set us = set vs \<Longrightarrow> has_effective_permission us = has_effective_permission vs"
  by (simp add: fun_eq_iff has_effective_permission_iff)

lemma missing_same:
  "set us = set vs \<Longrightarrow> set ps = set qs \<Longrightarrow> missing_permissions us ps = missing_permissions vs qs"
  unfolding missing_permissions_def effective_same by (rule normalize_canonical) simp

lemma check_same:
  assumes "set us = set vs" and "set ps = set qs"
  shows "check_all_permissions us ps = check_all_permissions vs qs"
    and "check_any_permission us ps = check_any_permission vs qs"
proof -
  have "ps = [] \<longleftrightarrow> qs = []" using assms(2) by (metis set_empty)
  then show "check_all_permissions us ps = check_all_permissions vs qs"
    "check_any_permission us ps = check_any_permission vs qs"
    using missing_same [OF assms] normalize_canonical [OF assms(2)] assms(2)
    by (simp_all add: check_all_permissions_def check_any_permission_def effective_same [OF assms(1)] list_ex_iff)
qed

lemma evaluation_same:
  assumes "set us = set vs"
  shows "from_outcome x us = from_outcome x vs"
proof -
  have "us = [] \<longleftrightarrow> vs = []" using assms by (metis set_empty)
  then show ?thesis by (simp add: from_outcome_def denied_reason_def denied_reason_for_denial_def)
qed

text \<open>
  C33: an evaluation depends on what is held and required, not on how it is listed. Two lists of held
  permissions and two lists of requirements with the same elements, in any order and with any
  repetitions, get the same evaluation, with the same missing permissions and the same text of the
  reason. The missing permissions of an all-check are exactly the requirements that neither are held nor
  covered by the manage permission of their resource, each once, in strictly increasing order of their
  printed form; it allows exactly when there are none. An any-check needs a requirement that is held
  or covered, so no requirement at all is refused.
\<close>

theorem policy_answers_canonical:
  assumes "set us = set vs" and "set ps = set qs"
  shows "evaluate_all_permissions us ps = evaluate_all_permissions vs qs
    \<and> evaluate_any_permission us ps = evaluate_any_permission vs qs
    \<and> set (ev_missing (evaluate_all_permissions us ps))
        = {p \<in> set ps. p \<notin> set us \<and> permission_new (resource p) Manage \<notin> set us}
    \<and> sorted_wrt (<) (map permission_display (ev_missing (evaluate_all_permissions us ps)))
    \<and> (ev_allowed (evaluate_all_permissions us ps) \<longleftrightarrow> ev_missing (evaluate_all_permissions us ps) = [])
    \<and> (ev_allowed (evaluate_any_permission us ps)
        \<longleftrightarrow> (\<exists>p. p \<in> set ps \<and> (p \<in> set us \<or> permission_new (resource p) Manage \<in> set us)))"
proof -
  have all: "ev_missing (evaluate_all_permissions us ps) = missing_permissions us ps"
    "ev_allowed (evaluate_all_permissions us ps) \<longleftrightarrow> missing_permissions us ps = []"
    by (simp_all add: evaluate_all_permissions_def from_outcome_def check_all_permissions_def Let_def missing_permissions_def)
  have any: "ev_allowed (evaluate_any_permission us ps)
      \<longleftrightarrow> (\<exists>p. p \<in> set ps \<and> (p \<in> set us \<or> permission_new (resource p) Manage \<in> set us))"
    by (auto simp: evaluate_any_permission_def from_outcome_def check_any_permission_def Let_def list_ex_iff
        has_effective_permission_iff)
  have held: "set (missing_permissions us ps)
      = {p \<in> set ps. p \<notin> set us \<and> permission_new (resource p) Manage \<notin> set us}"
    by (auto simp: missing_set has_effective_permission_iff)
  have sorted: "sorted_wrt (<) (map permission_display (missing_permissions us ps))"
    unfolding missing_permissions_def by (rule strictly_sorted_normalize)
  have same: "evaluate_all_permissions us ps = evaluate_all_permissions vs qs"
    "evaluate_any_permission us ps = evaluate_any_permission vs qs"
    by (simp_all add: evaluate_all_permissions_def evaluate_any_permission_def check_same [OF assms] evaluation_same [OF assms(1)])
  show ?thesis unfolding all by (intro conjI same any held sorted refl)
qed

text \<open>Updating, deleting and reading forms is asked of a user who may read them, in two orders.\<close>

lemma policy_answers_canonical_witness:
  "evaluate_all_permissions [permission_new Forms Read] [permission_new Forms Update, permission_new Forms Delete]
     = evaluate_all_permissions [permission_new Forms Read, permission_new Forms Read]
         [permission_new Forms Delete, permission_new Forms Update, permission_new Forms Delete]
   \<and> \<not> ev_allowed (evaluate_all_permissions [permission_new Forms Read]
         [permission_new Forms Update, permission_new Forms Delete])"
proof -
  let ?us = "[permission_new Forms Read]" and ?ps = "[permission_new Forms Update, permission_new Forms Delete]"
    and ?vs = "[permission_new Forms Read, permission_new Forms Read]"
    and ?qs = "[permission_new Forms Delete, permission_new Forms Update, permission_new Forms Delete]"
  have same: "set ?us = set ?vs" "set ?ps = set ?qs" by auto
  note c = policy_answers_canonical [OF same]
  have "permission_new Forms Update
      \<in> {p \<in> set ?ps. p \<notin> set ?us \<and> permission_new (resource p) Manage \<notin> set ?us}" by simp
  then have "permission_new Forms Update \<in> set (ev_missing (evaluate_all_permissions ?us ?ps))"
    by (rule subst [OF sym [OF conjunct1 [OF conjunct2 [OF conjunct2 [OF c]]]], rotated])
  then have "ev_missing (evaluate_all_permissions ?us ?ps) \<noteq> []" by (rule contrapos_pn) simp
  then show ?thesis using c by blast
qed

text \<open>
  An evaluation carries a reason exactly when it denies, and a denial of an all-check of a
  user with some permission always names the missing permissions.
\<close>

theorem evaluation_explains_denial:
  "(ev_denied_reason (evaluate_all_permissions user ps) = None
      \<longleftrightarrow> ev_allowed (evaluate_all_permissions user ps))
   \<and> (ev_denied_reason (evaluate_any_permission user ps) = None
      \<longleftrightarrow> ev_allowed (evaluate_any_permission user ps))
   \<and> (\<not> ev_allowed (evaluate_all_permissions (u # us) ps) \<longrightarrow>
        ev_denied_reason (evaluate_all_permissions (u # us) ps) =
          Some (MissingPermissions, ''missing_permissions:'' @
            join_comma (map permission_display (missing_permissions (u # us) ps))))"
  by (auto simp: evaluate_all_permissions_def evaluate_any_permission_def from_outcome_def
      denied_reason_def denied_reason_for_denial_def check_all_permissions_def Let_def)

lemma evaluation_explains_denial_witness:
  "ev_denied_reason (evaluate_all_permissions [permission_new Forms Read]
       [permission_new Forms Update, permission_new Forms Read])
     = Some (MissingPermissions, ''missing_permissions:forms:update'')"
proof -
  let ?u = "permission_new Forms Read" and ?ps = "[permission_new Forms Update, permission_new Forms Read]"
  have m: "missing_permissions [?u] ?ps = [permission_new Forms Update]"
    by (simp add: missing_permissions_def has_effective_permission_iff normalize_permissions_def)
  then have "\<not> ev_allowed (evaluate_all_permissions [?u] ?ps)"
    by (simp add: evaluate_all_permissions_def from_outcome_def check_all_permissions_def)
  with evaluation_explains_denial [of "[?u]" ?ps ?u "[]"] m show ?thesis
    by (simp add: permission_display_def)
qed

end
