(* ===== verification/Role_Mutation.thy ===== *)
theory Role_Mutation
  imports Rbac_Policy
begin

text \<open>
  The policy of user-role mutations and the event a committed mutation publishes
  (\<open>crates/modules/rustok-rbac/src/role_mutation.rs\<close> up to the persistence layer,
  \<open>crates/libs/rustok-events/src/rbac_role_mutation.rs\<close>, and the validators of
  \<open>validation.rs\<close> it calls). A loop over a \<open>HashSet\<close> visits its elements in an unspecified
  order: the order is the argument \<open>iter\<close> of the one function that has such a loop.
\<close>

subsection \<open>Facts, plans and errors\<close>

record role_mutation_facts =
  tenant_id :: uuid
  actor_uid :: uuid
  actor_tenant_id :: uuid
  actor_role :: user_role
  target_user_id :: uuid
  target_tenant_id :: uuid
  target_role :: user_role
  target_status :: user_status
  requested_role :: user_role
  resulting_status :: user_status
  assignment_is_exact :: bool
  remaining_active_super_admins :: u64

datatype role_mutation_change = RoleReplaced | AssignmentRepaired

record role_mutation_plan =
  plan_tenant_id :: uuid
  plan_actor_id :: uuid
  plan_target_user_id :: uuid
  previous_role :: user_role
  new_role :: user_role
  change :: role_mutation_change

datatype role_mutation_outcome = Noop | Apply role_mutation_plan

datatype role_mutation_error =
    NilIdentity string
  | ActorTenantMismatch
  | TargetTenantMismatch
  | CannotAssignPeerOrHigherRole
  | CannotManagePeerOrHigherUser
  | RequestAuthorityCeiling user_role permission
  | LastActiveSuperAdmin
  | BuiltInRoleRequiresCanonicalPath string
  | CustomRequestAuthorityCeiling string permission
  | InvalidDurableGeneration

definition validate_identity :: "string \<Rightarrow> uuid \<Rightarrow> role_mutation_error + unit" where
  "validate_identity field u = (if is_nil u then Inl (NilIdentity field) else Inr ())"

definition require_role_assignment :: "user_role \<Rightarrow> user_role \<Rightarrow> role_mutation_error + unit" where
  "require_role_assignment actor requested =
     (if can_assign_role actor requested then Inr () else Inl CannotAssignPeerOrHigherRole)"

definition require_user_management ::
    "uuid \<Rightarrow> uuid \<Rightarrow> user_role \<Rightarrow> user_role \<Rightarrow> role_mutation_error + unit" where
  "require_user_management aid tid arole trole =
     rbind (validate_identity ''actor_id'' aid) (\<lambda>_.
     rbind (validate_identity ''target_user_id'' tid) (\<lambda>_.
     if aid = tid \<or> can_manage_role arole trole then Inr ()
     else Inl CannotManagePeerOrHigherUser))"

definition removes_active_super_admin :: "role_mutation_facts \<Rightarrow> bool" where
  "removes_active_super_admin f \<longleftrightarrow>
     target_role f = SuperAdmin \<and> target_status f = UserActive
     \<and> (requested_role f \<noteq> SuperAdmin \<or> resulting_status f \<noteq> UserActive)"

definition plan_user_role_mutation ::
    "role_mutation_facts \<Rightarrow> role_mutation_error + role_mutation_outcome" where
  "plan_user_role_mutation f =
     rbind (validate_identity ''tenant_id'' (tenant_id f)) (\<lambda>_.
     rbind (validate_identity ''actor_id'' (actor_uid f)) (\<lambda>_.
     rbind (validate_identity ''actor_tenant_id'' (actor_tenant_id f)) (\<lambda>_.
     rbind (validate_identity ''target_user_id'' (target_user_id f)) (\<lambda>_.
     rbind (validate_identity ''target_tenant_id'' (target_tenant_id f)) (\<lambda>_.
     rbind (ensure (actor_tenant_id f = tenant_id f) ActorTenantMismatch) (\<lambda>_.
     rbind (ensure (target_tenant_id f = tenant_id f) TargetTenantMismatch) (\<lambda>_.
     rbind (require_role_assignment (actor_role f) (requested_role f)) (\<lambda>_.
     rbind (require_user_management (actor_uid f) (target_user_id f) (actor_role f) (target_role f))
       (\<lambda>_.
     rbind (ensure (\<not> (removes_active_super_admin f \<and> remaining_active_super_admins f = 0))
              LastActiveSuperAdmin) (\<lambda>_.
     if assignment_is_exact f \<and> target_role f = requested_role f then Inr Noop
     else Inr (Apply
       \<lparr>plan_tenant_id = tenant_id f, plan_actor_id = actor_uid f,
        plan_target_user_id = target_user_id f, previous_role = target_role f,
        new_role = requested_role f,
        change = (if target_role f = requested_role f then AssignmentRepaired else RoleReplaced)\<rparr>)
     ))))))))))"

definition require_request_role_grant ::
    "(permission set \<Rightarrow> permission list) \<Rightarrow> user_role \<Rightarrow> permission list \<Rightarrow> user_role
     \<Rightarrow> role_mutation_error + unit" where
  "require_request_role_grant iter actor authority requested =
     rbind (require_role_assignment actor requested) (\<lambda>_.
     if requested \<noteq> Customer then
       for_each (\<lambda>p. if \<not> has_effective_permission authority p
                     then Inl (RequestAuthorityCeiling requested p) else Inr ())
         (iter (permissions_for_role requested))
     else Inr ())"

subsection \<open>The published event\<close>

datatype role_mutation_event =
    UserRoleReplaced uuid string string u64
  | UserRoleAssignmentRepaired uuid string u64

definition integration_event ::
    "role_mutation_plan \<Rightarrow> u64 \<Rightarrow> role_mutation_error + role_mutation_event" where
  "integration_event p gen =
     (if gen = 0 then Inl InvalidDurableGeneration
      else Inr (case change p of
          RoleReplaced \<Rightarrow>
            UserRoleReplaced (plan_target_user_id p) (user_role_display (previous_role p))
              (user_role_display (new_role p)) gen
        | AssignmentRepaired \<Rightarrow>
            UserRoleAssignmentRepaired (plan_target_user_id p) (user_role_display (new_role p)) gen))"

datatype event_validation_error =
    EmptyField string
  | FieldTooLong string nat
  | NilUuid string
  | InvalidValue string string
  | MissingField string
  | OutOfRange string int int int
  | InvalidCharacters string

definition validate_not_empty :: "string \<Rightarrow> string \<Rightarrow> event_validation_error + unit" where
  "validate_not_empty field v = (if trim v = [] then Inl (EmptyField field) else Inr ())"

definition validate_not_nil_uuid :: "string \<Rightarrow> uuid \<Rightarrow> event_validation_error + unit" where
  "validate_not_nil_uuid field u = (if is_nil u then Inl (NilUuid field) else Inr ())"

definition validate_role_slug :: "string \<Rightarrow> string \<Rightarrow> event_validation_error + unit" where
  "validate_role_slug field v =
     rbind (validate_not_empty field v) (\<lambda>_.
     if List.member [''super_admin'', ''admin'', ''manager'', ''customer''] v then Inr ()
     else Inl (InvalidValue field ''must be a canonical built-in RBAC role slug''))"

definition validate_generation :: "u64 \<Rightarrow> event_validation_error + unit" where
  "validate_generation g =
     (if g = 0 then Inl (InvalidValue ''durable_generation'' ''must be greater than zero'')
      else Inr ())"

fun event_validate :: "role_mutation_event \<Rightarrow> event_validation_error + unit" where
  "event_validate (UserRoleReplaced u prev new gen) =
     rbind (validate_not_nil_uuid ''user_id'' u) (\<lambda>_.
     rbind (validate_role_slug ''previous_role'' prev) (\<lambda>_.
     rbind (validate_role_slug ''new_role'' new) (\<lambda>_.
     rbind (ensure (prev \<noteq> new)
              (InvalidValue ''new_role'' ''must differ from previous_role for a replacement event''))
       (\<lambda>_. validate_generation gen))))"
| "event_validate (UserRoleAssignmentRepaired u r gen) =
     rbind (validate_not_nil_uuid ''user_id'' u) (\<lambda>_.
     rbind (validate_role_slug ''role'' r) (\<lambda>_.
     validate_generation gen))"

fun event_type :: "role_mutation_event \<Rightarrow> string" where
  "event_type (UserRoleReplaced _ _ _ _) = ''rbac.user_role_replaced''"
| "event_type (UserRoleAssignmentRepaired _ _ _) = ''rbac.user_role_assignment_repaired''"

subsection \<open>What a plan implies\<close>

lemma guard_simps [simp]:
  "validate_identity field u = Inr () \<longleftrightarrow> u \<noteq> 0"
  "require_role_assignment a r = Inr () \<longleftrightarrow> can_assign_role a r"
  "require_user_management aid tid a t = Inr () \<longleftrightarrow>
     aid \<noteq> 0 \<and> tid \<noteq> 0 \<and> (aid = tid \<or> can_manage_role a t)"
  by (auto simp: validate_identity_def require_role_assignment_def require_user_management_def)

lemma plan_Inr:
  "plan_user_role_mutation f = Inr r \<longleftrightarrow>
     tenant_id f \<noteq> 0 \<and> actor_uid f \<noteq> 0 \<and> target_user_id f \<noteq> 0
     \<and> actor_tenant_id f = tenant_id f \<and> target_tenant_id f = tenant_id f
     \<and> can_assign_role (actor_role f) (requested_role f)
     \<and> (actor_uid f = target_user_id f \<or> can_manage_role (actor_role f) (target_role f))
     \<and> \<not> (removes_active_super_admin f \<and> remaining_active_super_admins f = 0)
     \<and> r = (if assignment_is_exact f \<and> target_role f = requested_role f then Noop
            else Apply
              \<lparr>plan_tenant_id = tenant_id f, plan_actor_id = actor_uid f,
               plan_target_user_id = target_user_id f, previous_role = target_role f,
               new_role = requested_role f,
               change = (if target_role f = requested_role f then AssignmentRepaired
                         else RoleReplaced)\<rparr>)"
  unfolding plan_user_role_mutation_def by auto

lemma validate_role_slug_display [simp]: "validate_role_slug field (user_role_display r) = Inr ()"
proof -
  have "trim (user_role_display r) = user_role_display r"
    by (cases r) (simp_all add: printable_plain)
  then show ?thesis by (cases r) (simp_all add: validate_role_slug_def validate_not_empty_def)
qed

subsection \<open>Properties\<close>

text \<open>
  C29: no privilege escalation. An accepted plan stays in the actor's tenant, grants a role the
  actor outranks unless the actor is a super administrator, and touches only the actor or a
  user the actor outranks. In particular an actor below super administrator never keeps or
  raises the actor's own rank through it.
\<close>

theorem role_mutation_no_escalation:
  assumes "plan_user_role_mutation f = Inr (Apply p)"
  shows "plan_tenant_id p = actor_tenant_id f \<and> plan_tenant_id p = target_tenant_id f
    \<and> plan_target_user_id p = target_user_id f \<and> new_role p = requested_role f
    \<and> (actor_role f = SuperAdmin \<or> new_role p < actor_role f)
    \<and> (actor_role f = SuperAdmin \<or> plan_target_user_id p = actor_uid f
        \<or> previous_role p < actor_role f)
    \<and> (change p = RoleReplaced \<longleftrightarrow> previous_role p \<noteq> new_role p)"
  using assms by (auto simp: plan_Inr can_assign_role_iff can_manage_role_iff split: if_splits)

text \<open>
  The users of a tenant as the store has them. The planner never sees the store: it sees the
  count of the other active super administrators, which the caller read from it.
\<close>

definition active_super_admins :: "(uuid \<rightharpoonup> user_role \<times> user_status) \<Rightarrow> uuid set" where
  "active_super_admins users = {u. users u = Some (SuperAdmin, UserActive)}"

text \<open>
  C3: a tenant never loses its last active super administrator. If the facts report whether
  another one exists, then whenever the planner accepts a mutation, writing the requested role
  and the resulting status leaves an active super administrator wherever there was one.
\<close>

theorem last_super_admin_survives:
  assumes "plan_user_role_mutation f = Inr r"
    and "users (target_user_id f) = Some (target_role f, target_status f)"
    and "remaining_active_super_admins f = 0 \<longleftrightarrow>
           active_super_admins users - {target_user_id f} = {}"
    and "active_super_admins users \<noteq> {}"
  shows "active_super_admins
           (users(target_user_id f \<mapsto> (requested_role f, resulting_status f))) \<noteq> {}"
proof (cases "active_super_admins users - {target_user_id f} = {}")
  case True
  with assms(4) have "target_user_id f \<in> active_super_admins users" by blast
  moreover from assms(1,3) True have "\<not> removes_active_super_admin f" by (simp add: plan_Inr)
  ultimately have "requested_role f = SuperAdmin \<and> resulting_status f = UserActive"
    using assms(2) by (auto simp: removes_active_super_admin_def active_super_admins_def)
  then show ?thesis by (auto simp: active_super_admins_def)
next
  case False
  then obtain u where "u \<in> active_super_admins users" "u \<noteq> target_user_id f" by blast
  then have "u \<in> active_super_admins
      (users(target_user_id f \<mapsto> (requested_role f, resulting_status f)))"
    by (simp add: active_super_admins_def)
  then show ?thesis by blast
qed

definition example_facts :: role_mutation_facts where
  "example_facts =
     \<lparr>tenant_id = 1, actor_uid = 2, actor_tenant_id = 1, actor_role = SuperAdmin,
      target_user_id = 3, target_tenant_id = 1, target_role = SuperAdmin,
      target_status = UserActive, requested_role = Admin, resulting_status = UserActive,
      assignment_is_exact = True, remaining_active_super_admins = 1\<rparr>"

definition example_plan :: role_mutation_plan where
  "example_plan =
     \<lparr>plan_tenant_id = 1, plan_actor_id = 2, plan_target_user_id = 3, previous_role = SuperAdmin,
      new_role = Admin, change = RoleReplaced\<rparr>"

lemma example_planned: "plan_user_role_mutation example_facts = Inr (Apply example_plan)"
  by (simp add: plan_Inr example_facts_def example_plan_def can_assign_role_def can_manage_role_def)

lemma role_mutation_no_escalation_witness:
  "plan_tenant_id example_plan = 1 \<and> change example_plan = RoleReplaced"
  using role_mutation_no_escalation [OF example_planned]
  by (simp add: example_plan_def)

lemma last_super_admin_survives_witness:
  "active_super_admins ([2 \<mapsto> (SuperAdmin, UserActive), 3 \<mapsto> (Admin, UserActive)]) \<noteq> {}"
proof -
  let ?users = "[2 \<mapsto> (SuperAdmin, UserActive), 3 \<mapsto> (SuperAdmin, UserActive)]"
  have u: "active_super_admins ?users = {2, 3}"
    by (auto simp: active_super_admins_def split: if_splits)
  have "active_super_admins (?users(target_user_id example_facts
      \<mapsto> (requested_role example_facts, resulting_status example_facts))) \<noteq> {}"
    by (rule last_super_admin_survives [OF example_planned])
      (use u in \<open>auto simp: example_facts_def\<close>)
  then show ?thesis by (simp add: example_facts_def)
qed

text \<open>
  A role other than customer is granted within the request's authority only: the check
  succeeds exactly when the actor may assign the role and every bootstrap grant of the role is
  effective in the authority, whatever the order in which the grants are visited.
\<close>

theorem request_role_grant_ceiling:
  assumes "set (iter (permissions_for_role requested)) = permissions_for_role requested"
  shows "require_request_role_grant iter actor authority requested = Inr () \<longleftrightarrow>
     can_assign_role actor requested
     \<and> (requested = Customer \<or>
        permissions_for_role requested \<subseteq> {p. has_effective_permission authority p})"
  using assms by (auto simp: require_request_role_grant_def)

lemma request_role_grant_ceiling_witness:
  "require_request_role_grant (\<lambda>_. map (\<lambda>r. permission_new r Manage) (map snd resource_arms))
     SuperAdmin [permission_new Users Manage] SuperAdmin \<noteq> Inr ()"
proof -
  let ?iter = "\<lambda>_ :: permission set. map (\<lambda>r. permission_new r Manage) (map snd resource_arms)"
  have "set (map snd resource_arms) = UNIV"
    using resource_arms_total by blast
  then have "set (?iter (permissions_for_role SuperAdmin)) = permissions_for_role SuperAdmin"
    by (simp only: permissions_for_role.simps super_admin_range set_map)
  from request_role_grant_ceiling [OF this, of SuperAdmin "[permission_new Users Manage]"]
  show ?thesis
    using super_admin_manages [of Tenants] by (auto simp: has_effective_permission_iff)
qed

text \<open>
  The event of every plan validates. Whatever the planner accepts for a mutation, its
  event for a positive generation passes the validation of the event contract.
\<close>

theorem planned_event_valid:
  assumes "plan_user_role_mutation f = Inr (Apply p)" and "gen \<noteq> 0"
  shows "\<exists>e. integration_event p gen = Inr e \<and> event_validate e = Inr ()"
  using assms
  by (auto simp: plan_Inr integration_event_def validate_not_nil_uuid_def validate_generation_def
      user_role_text.render_inject split: if_splits)

lemma planned_event_valid_witness:
  "\<exists>e. integration_event example_plan 1 = Inr e \<and> event_validate e = Inr ()"
  by (rule planned_event_valid [OF example_planned]) simp

end
