(* ===== verification/Circuit_Breaker.thy ===== *)
theory Circuit_Breaker
  imports Rust_Prelude
begin

text \<open>
  The circuit breaker (\<open>crates/libs/rustok-core/src/resilience/circuit_breaker.rs\<close>). Instants
  and durations are nanoseconds; the value of \<open>Instant::now\<close> is the argument \<open>now\<close>. The
  critical sections under the write lock are functions on the record of the breaker; callers
  that run concurrently are modelled below as tasks whose critical sections interleave freely
  with each other, with cancellation at an await point and with the manual controls.
\<close>

record circuit_breaker_config =
  failure_threshold :: u32
  success_threshold :: u32
  open_timeout :: nat
  half_open_max_requests :: "u32 option"

definition default_config :: circuit_breaker_config where
  "default_config =
     \<lparr>failure_threshold = 5, success_threshold = 2, open_timeout = 60 * 10 ^ 9,
      half_open_max_requests = Some 3\<rparr>"

datatype circuit_state = Closed | Open | HalfOpen

primrec circuit_state_as_str :: "circuit_state \<Rightarrow> string" where
  "circuit_state_as_str Closed = ''closed''"
| "circuit_state_as_str Open = ''open''"
| "circuit_state_as_str HalfOpen = ''half_open''"

primrec circuit_state_as_u8 :: "circuit_state \<Rightarrow> u8" where
  "circuit_state_as_u8 Closed = 0"
| "circuit_state_as_u8 Open = 1"
| "circuit_state_as_u8 HalfOpen = 2"

datatype circuit_admission = AdmClosed | AdmHalfOpen u64

record circuit_breaker =
  state :: circuit_state
  failure_count :: u32
  success_count :: u32
  last_failure_time :: "nat option"
  half_open_in_flight :: u32
  half_open_epoch :: u64
  total_requests :: u64
  total_successes :: u64
  total_failures :: u64
  total_rejected :: u64
  state_transitions :: u64

definition circuit_breaker_new :: circuit_breaker where
  "circuit_breaker_new =
     \<lparr>state = Closed, failure_count = 0, success_count = 0, last_failure_time = None,
      half_open_in_flight = 0, half_open_epoch = 0, total_requests = 0, total_successes = 0,
      total_failures = 0, total_rejected = 0, state_transitions = 0\<rparr>"

definition invalidate_half_open_epoch :: "circuit_breaker \<Rightarrow> circuit_breaker" where
  "invalidate_half_open_epoch s =
     s\<lparr>half_open_epoch := half_open_epoch s + 1, half_open_in_flight := 0, success_count := 0\<rparr>"

definition transition :: "circuit_breaker \<Rightarrow> circuit_breaker" where
  "transition s = s\<lparr>state_transitions := state_transitions s + 1\<rparr>"

definition set_open :: "nat \<Rightarrow> circuit_breaker \<Rightarrow> circuit_breaker" where
  "set_open now s =
     invalidate_half_open_epoch
       (s\<lparr>state := Open, last_failure_time := Some now, failure_count := 0\<rparr>)"

definition set_closed :: "circuit_breaker \<Rightarrow> circuit_breaker" where
  "set_closed s =
     invalidate_half_open_epoch (s\<lparr>state := Closed, failure_count := 0, last_failure_time := None\<rparr>)"

definition timeout_elapsed :: "circuit_breaker_config \<Rightarrow> nat \<Rightarrow> circuit_breaker \<Rightarrow> bool" where
  "timeout_elapsed cfg now s =
     (case last_failure_time s of
        None \<Rightarrow> False
      | Some failed_at \<Rightarrow> open_timeout cfg \<le> now - failed_at)"

definition probes_exhausted :: "circuit_breaker_config \<Rightarrow> circuit_breaker \<Rightarrow> bool" where
  "probes_exhausted cfg s =
     (case half_open_max_requests cfg of
        None \<Rightarrow> False
      | Some maximum \<Rightarrow> max maximum 1 \<le> half_open_in_flight s)"

definition admit ::
    "circuit_breaker_config \<Rightarrow> nat \<Rightarrow> circuit_breaker
     \<Rightarrow> circuit_breaker \<times> circuit_admission option" where
  "admit cfg now s =
     (case state s of
        Closed \<Rightarrow> (s, Some AdmClosed)
      | Open \<Rightarrow>
          if \<not> timeout_elapsed cfg now s then (s, None)
          else
            let e = half_open_epoch s + 1 in
            (transition (s\<lparr>state := HalfOpen, failure_count := 0, success_count := 0,
               half_open_in_flight := 1, half_open_epoch := e\<rparr>), Some (AdmHalfOpen e))
      | HalfOpen \<Rightarrow>
          if probes_exhausted cfg s then (s, None)
          else case checked_inc (half_open_in_flight s) of
              None \<Rightarrow> (s, None)
            | Some next \<Rightarrow>
                (s\<lparr>half_open_in_flight := next\<rparr>, Some (AdmHalfOpen (half_open_epoch s))))"

fun record_success ::
    "circuit_breaker_config \<Rightarrow> circuit_admission \<Rightarrow> circuit_breaker \<Rightarrow> circuit_breaker" where
  "record_success cfg AdmClosed s = (if state s = Closed then s\<lparr>failure_count := 0\<rparr> else s)"
| "record_success cfg (AdmHalfOpen e) s =
     (if state s \<noteq> HalfOpen \<or> half_open_epoch s \<noteq> e then s
      else
        let s' = s\<lparr>half_open_in_flight := saturating_dec (half_open_in_flight s),
                   success_count := saturating_inc (success_count s)\<rparr> in
        if max (success_threshold cfg) 1 \<le> success_count s' \<and> half_open_in_flight s' = 0
        then transition (set_closed s') else s')"

fun record_failure ::
    "circuit_breaker_config \<Rightarrow> nat \<Rightarrow> circuit_admission \<Rightarrow> circuit_breaker \<Rightarrow> circuit_breaker" where
  "record_failure cfg now AdmClosed s =
     (if state s \<noteq> Closed then s
      else
        let s' = s\<lparr>failure_count := saturating_inc (failure_count s)\<rparr> in
        if max (failure_threshold cfg) 1 \<le> failure_count s'
        then transition ((set_open now s')\<lparr>failure_count := failure_count s'\<rparr>)
        else s')"
| "record_failure cfg now (AdmHalfOpen e) s =
     (if state s \<noteq> HalfOpen \<or> half_open_epoch s \<noteq> e then s
      else transition (set_open now s))"

definition manual_open :: "nat \<Rightarrow> circuit_breaker \<Rightarrow> circuit_breaker" where
  "manual_open now s = (if state s \<noteq> Open then transition (set_open now s) else s)"

definition manual_close :: "circuit_breaker \<Rightarrow> circuit_breaker" where
  "manual_close s = (if state s \<noteq> Closed then transition (set_closed s) else s)"

definition manual_reset :: "circuit_breaker \<Rightarrow> circuit_breaker" where
  "manual_reset s =
     (set_closed s)\<lparr>total_requests := 0, total_successes := 0, total_failures := 0,
        total_rejected := 0, state_transitions := 0\<rparr>"

record circuit_breaker_stats =
  st_state :: circuit_state
  st_total_requests :: u64
  st_total_successes :: u64
  st_total_failures :: u64
  st_total_rejected :: u64
  st_state_transitions :: u64
  st_failure_count :: u32
  st_success_count :: u32

definition stats :: "circuit_breaker \<Rightarrow> circuit_breaker_stats" where
  "stats s =
     \<lparr>st_state = state s, st_total_requests = total_requests s,
      st_total_successes = total_successes s, st_total_failures = total_failures s,
      st_total_rejected = total_rejected s, st_state_transitions = state_transitions s,
      st_failure_count = failure_count s, st_success_count = success_count s\<rparr>"

subsection \<open>A single call\<close>

text \<open>
  \<open>call\<close> when no other caller interferes: the operation is its result, and it ends at the
  instant \<open>finished\<close>. The counters are relaxed atomics outside the lock.
\<close>

datatype 'e circuit_error = CircuitOpen | Upstream 'e

definition call ::
    "circuit_breaker_config \<Rightarrow> nat \<Rightarrow> nat \<Rightarrow> 'e + 'a \<Rightarrow> circuit_breaker
     \<Rightarrow> circuit_breaker \<times> ('e circuit_error + 'a)" where
  "call cfg now finished operation s =
     (let s = s\<lparr>total_requests := total_requests s + 1\<rparr> in
      case admit cfg now s of
        (s, None) \<Rightarrow> (s\<lparr>total_rejected := total_rejected s + 1\<rparr>, Inl CircuitOpen)
      | (s, Some admission) \<Rightarrow>
          (case operation of
             Inr v \<Rightarrow>
               let s = record_success cfg admission s in
               (s\<lparr>total_successes := total_successes s + 1\<rparr>, Inr v)
           | Inl e \<Rightarrow>
               let s = record_failure cfg finished admission s in
               (s\<lparr>total_failures := total_failures s + 1\<rparr>, Inl (Upstream e))))"

subsection \<open>Concurrent callers\<close>

text \<open>
  The tasks that share a breaker, by the point of \<open>call\<close> each has reached: \<open>requested\<close> have
  counted themselves and wait for admission, \<open>rejecting\<close> were refused and have not counted
  that, \<open>running\<close> hold an admission while their operation runs, \<open>settling_ok\<close> and
  \<open>settling_err\<close> have recorded their result and have not counted it. Dropping the future of
  a call at one of its await points ends the task there; \<open>dropped\<close> remembers the admissions
  and \<open>dropped_requests\<close> the number of tasks lost that way.
\<close>

record circuit_system =
  breaker :: circuit_breaker
  clock :: nat
  requested :: nat
  rejecting :: nat
  running :: "circuit_admission list"
  settling_ok :: nat
  settling_err :: nat
  dropped :: "circuit_admission list"
  dropped_requests :: nat

definition circuit_system_init :: "circuit_system \<Rightarrow> bool" where
  "circuit_system_init s \<longleftrightarrow>
     breaker s = circuit_breaker_new \<and> requested s = 0 \<and> rejecting s = 0 \<and> running s = []
     \<and> settling_ok s = 0 \<and> settling_err s = 0 \<and> dropped s = [] \<and> dropped_requests s = 0"

datatype circuit_event =
    Tick nat
  | Request
  | Admit
  | CountRejected
  | Succeed circuit_admission
  | Fail circuit_admission
  | CountSuccess
  | CountFailure
  | DropRequest
  | DropRunning circuit_admission
  | ManualOpen
  | ManualClose
  | ManualReset

fun circuit_exec ::
    "circuit_breaker_config \<Rightarrow> circuit_event \<Rightarrow> circuit_system \<Rightarrow> circuit_system option" where
  "circuit_exec cfg (Tick d) s = Some (s\<lparr>clock := clock s + d\<rparr>)"
| "circuit_exec cfg Request s =
     Some (s\<lparr>breaker := (breaker s)\<lparr>total_requests := total_requests (breaker s) + 1\<rparr>,
             requested := requested s + 1\<rparr>)"
| "circuit_exec cfg Admit s =
     (if requested s = 0 then None
      else case admit cfg (clock s) (breaker s) of
          (b, None) \<Rightarrow>
            Some (s\<lparr>breaker := b, requested := requested s - 1, rejecting := rejecting s + 1\<rparr>)
        | (b, Some a) \<Rightarrow>
            Some (s\<lparr>breaker := b, requested := requested s - 1, running := a # running s\<rparr>))"
| "circuit_exec cfg CountRejected s =
     (if rejecting s = 0 then None
      else Some (s\<lparr>breaker := (breaker s)\<lparr>total_rejected := total_rejected (breaker s) + 1\<rparr>,
                   rejecting := rejecting s - 1\<rparr>))"
| "circuit_exec cfg (Succeed a) s =
     (if a \<notin> set (running s) then None
      else Some (s\<lparr>breaker := record_success cfg a (breaker s), running := remove1 a (running s),
                   settling_ok := settling_ok s + 1\<rparr>))"
| "circuit_exec cfg (Fail a) s =
     (if a \<notin> set (running s) then None
      else Some (s\<lparr>breaker := record_failure cfg (clock s) a (breaker s),
                   running := remove1 a (running s), settling_err := settling_err s + 1\<rparr>))"
| "circuit_exec cfg CountSuccess s =
     (if settling_ok s = 0 then None
      else Some (s\<lparr>breaker := (breaker s)\<lparr>total_successes := total_successes (breaker s) + 1\<rparr>,
                   settling_ok := settling_ok s - 1\<rparr>))"
| "circuit_exec cfg CountFailure s =
     (if settling_err s = 0 then None
      else Some (s\<lparr>breaker := (breaker s)\<lparr>total_failures := total_failures (breaker s) + 1\<rparr>,
                   settling_err := settling_err s - 1\<rparr>))"
| "circuit_exec cfg DropRequest s =
     (if requested s = 0 then None
      else Some (s\<lparr>requested := requested s - 1, dropped_requests := dropped_requests s + 1\<rparr>))"
| "circuit_exec cfg (DropRunning a) s =
     (if a \<notin> set (running s) then None
      else Some (s\<lparr>running := remove1 a (running s), dropped := a # dropped s\<rparr>))"
| "circuit_exec cfg ManualOpen s = Some (s\<lparr>breaker := manual_open (clock s) (breaker s)\<rparr>)"
| "circuit_exec cfg ManualClose s = Some (s\<lparr>breaker := manual_close (breaker s)\<rparr>)"
| "circuit_exec cfg ManualReset s = Some (s\<lparr>breaker := manual_reset (breaker s)\<rparr>)"

inductive circuit_step :: "circuit_breaker_config \<Rightarrow> circuit_system \<Rightarrow> circuit_system \<Rightarrow> bool"
  for cfg :: circuit_breaker_config where
  circuit_stepI: "circuit_exec cfg ev s = Some t \<Longrightarrow> circuit_step cfg s t"

inductive_cases circuit_stepE: "circuit_step cfg s t"

fun circuit_run ::
    "circuit_breaker_config \<Rightarrow> circuit_event list \<Rightarrow> circuit_system \<Rightarrow> circuit_system option" where
  "circuit_run cfg [] s = Some s"
| "circuit_run cfg (e # es) s =
     (case circuit_exec cfg e s of None \<Rightarrow> None | Some t \<Rightarrow> circuit_run cfg es t)"

subsection \<open>Admissions and epochs\<close>

lemmas breaker_defs =
  transition_def set_open_def set_closed_def invalidate_half_open_epoch_def
  manual_open_def manual_close_def manual_reset_def

lemma count_list_remove1:
  "x \<in> set xs \<Longrightarrow> count_list xs y = count_list (remove1 x xs) y + (if x = y then 1 else 0)"
  by (induction xs) auto

lemma count_list_zero: "(\<And>x. x \<in> set xs \<Longrightarrow> x \<noteq> y) \<Longrightarrow> count_list xs y = 0"
  by (induction xs) auto

text \<open>Epochs are 64-bit and wrap, so statements about whole runs bound their length.\<close>

definition in_u64 :: "nat \<Rightarrow> bool" where
  "in_u64 n \<longleftrightarrow> n < 2 ^ 64"

lemma in_u64_Suc: "in_u64 (Suc n) \<Longrightarrow> in_u64 n"
  by (simp add: in_u64_def)

lemma unat_epoch_inc: "unat (w :: u64) \<le> n \<Longrightarrow> in_u64 (Suc n) \<Longrightarrow> unat (w + 1) = Suc (unat w)"
  by (rule unat_inc_word) (auto simp: in_u64_def unsigned_minus_1_eq_mask mask_eq_exp_minus_1)

text \<open>
  \<open>probes s\<close> is the number of admissions of the current epoch that are still held, and
  \<open>lost_probes s\<close> the number of those whose holder was dropped.
\<close>

definition probes :: "circuit_system \<Rightarrow> nat" where
  "probes s = count_list (running s) (AdmHalfOpen (half_open_epoch (breaker s)))"

definition lost_probes :: "circuit_system \<Rightarrow> nat" where
  "lost_probes s = count_list (dropped s) (AdmHalfOpen (half_open_epoch (breaker s)))"

definition within_limit :: "circuit_breaker_config \<Rightarrow> circuit_breaker \<Rightarrow> bool" where
  "within_limit cfg b =
     (case half_open_max_requests cfg of
        None \<Rightarrow> True
      | Some m \<Rightarrow> half_open_in_flight b \<le> max m 1)"

definition epochs_past :: "circuit_breaker \<Rightarrow> circuit_admission list \<Rightarrow> bool" where
  "epochs_past b as \<longleftrightarrow>
     (\<forall>e. AdmHalfOpen e \<in> set as \<longrightarrow>
        unat e \<le> unat (half_open_epoch b) \<and> (state b \<noteq> HalfOpen \<longrightarrow> e \<noteq> half_open_epoch b))"

definition circuit_inv :: "circuit_breaker_config \<Rightarrow> nat \<Rightarrow> circuit_system \<Rightarrow> bool" where
  "circuit_inv cfg n s \<longleftrightarrow>
     unat (half_open_epoch (breaker s)) \<le> n
     \<and> epochs_past (breaker s) (running s @ dropped s)
     \<and> (state (breaker s) = HalfOpen \<longrightarrow>
          unat (half_open_in_flight (breaker s)) = probes s + lost_probes s
          \<and> within_limit cfg (breaker s))"

lemma inv_epoch_inc:
  "circuit_inv cfg n s \<Longrightarrow> in_u64 (Suc n) \<Longrightarrow>
   unat (half_open_epoch (breaker s) + 1) = Suc (unat (half_open_epoch (breaker s)))"
  by (auto simp: circuit_inv_def elim: unat_epoch_inc)

lemma epochs_past_frozen:
  assumes "epochs_past b as" "set bs \<subseteq> insert AdmClosed (set as)"
    and "state b' = state b" "half_open_epoch b' = half_open_epoch b"
  shows "epochs_past b' bs"
proof -
  have "AdmHalfOpen e \<in> set as" if "AdmHalfOpen e \<in> set bs" for e
    using subsetD [OF assms(2) that] by simp
  with assms(1,3,4) show ?thesis by (simp add: epochs_past_def)
qed

lemma epochs_past_inc:
  assumes "epochs_past b as" "set bs \<subseteq> set as"
    and "unat (half_open_epoch b') = Suc (unat (half_open_epoch b))"
  shows "epochs_past b' bs"
  unfolding epochs_past_def
proof (intro allI impI)
  fix e
  assume "AdmHalfOpen e \<in> set bs"
  with assms(1,2) have "unat e \<le> unat (half_open_epoch b)"
    by (auto simp: epochs_past_def)
  with assms(3) show "unat e \<le> unat (half_open_epoch b')
      \<and> (state b' \<noteq> HalfOpen \<longrightarrow> e \<noteq> half_open_epoch b')"
    by auto
qed

lemma inv_frozen:
  assumes "circuit_inv cfg n s"
    and "state (breaker t) = state (breaker s)"
        "half_open_epoch (breaker t) = half_open_epoch (breaker s)"
        "half_open_in_flight (breaker t) = half_open_in_flight (breaker s)"
    and "set (running t @ dropped t) \<subseteq> insert AdmClosed (set (running s @ dropped s))"
    and "state (breaker s) = HalfOpen \<Longrightarrow> probes t + lost_probes t = probes s + lost_probes s"
  shows "circuit_inv cfg (Suc n) t"
  using assms(1-4,6) epochs_past_frozen [OF _ assms(5,2,3)]
  unfolding circuit_inv_def within_limit_def by (auto split: option.splits)

lemma inv_invalidated:
  assumes "circuit_inv cfg n s" "in_u64 (Suc n)"
    and "state (breaker t) \<noteq> HalfOpen"
        "half_open_epoch (breaker t) = half_open_epoch (breaker s) + 1"
    and "set (running t @ dropped t) \<subseteq> set (running s @ dropped s)"
  shows "circuit_inv cfg (Suc n) t"
proof -
  have e: "unat (half_open_epoch (breaker t)) = Suc (unat (half_open_epoch (breaker s)))"
    using assms(4) inv_epoch_inc [OF assms(1,2)] by simp
  show ?thesis
    using assms(1,3) e epochs_past_inc [OF _ assms(5) e] unfolding circuit_inv_def by simp
qed

lemma probes_new_epoch:
  assumes "circuit_inv cfg n s" "in_u64 (Suc n)"
  shows "count_list (running s) (AdmHalfOpen (half_open_epoch (breaker s) + 1)) = 0"
    "count_list (dropped s) (AdmHalfOpen (half_open_epoch (breaker s) + 1)) = 0"
proof -
  have e: "unat (half_open_epoch (breaker s) + 1) = Suc (unat (half_open_epoch (breaker s)))"
    by (rule inv_epoch_inc [OF assms])
  have "AdmHalfOpen (half_open_epoch (breaker s) + 1) \<notin> set (running s @ dropped s)"
    using assms(1) e unfolding circuit_inv_def epochs_past_def by (metis not_less_eq_eq order_refl)
  then show "count_list (running s) (AdmHalfOpen (half_open_epoch (breaker s) + 1)) = 0"
    "count_list (dropped s) (AdmHalfOpen (half_open_epoch (breaker s) + 1)) = 0"
    by (auto intro!: count_list_zero)
qed

lemma within_limit_inc:
  "\<not> probes_exhausted cfg b \<Longrightarrow> checked_inc (half_open_in_flight b) = Some next \<Longrightarrow>
   within_limit cfg (b\<lparr>half_open_in_flight := next\<rparr>)"
  by (drule checked_inc_Some)
    (auto simp: probes_exhausted_def within_limit_def word_le_nat_alt max_def split: option.splits if_splits)

lemma inv_admit:
  assumes inv: "circuit_inv cfg n s" and n: "in_u64 (Suc n)"
    and step: "circuit_exec cfg Admit s = Some t"
  shows "circuit_inv cfg (Suc n) t"
proof (cases "state (breaker s)")
  case Closed
  then show ?thesis
    using step by (intro inv_frozen [OF inv]) (auto simp: admit_def split: if_splits)
next
  case Open
  show ?thesis
  proof (cases "timeout_elapsed cfg (clock s) (breaker s)")
    case True
    then have t: "breaker t = transition ((breaker s)\<lparr>state := HalfOpen, failure_count := 0,
        success_count := 0, half_open_in_flight := 1,
        half_open_epoch := half_open_epoch (breaker s) + 1\<rparr>)"
      "running t = AdmHalfOpen (half_open_epoch (breaker s) + 1) # running s" "dropped t = dropped s"
      using step Open by (auto simp: admit_def Let_def split: if_splits)
    have e: "unat (half_open_epoch (breaker s) + 1) = Suc (unat (half_open_epoch (breaker s)))"
      by (rule inv_epoch_inc [OF inv n])
    show ?thesis
      using inv e probes_new_epoch [OF inv n]
      by (auto simp: circuit_inv_def t breaker_defs epochs_past_def probes_def lost_probes_def
          within_limit_def split: option.splits)
  next
    case False
    then show ?thesis
      using step Open by (intro inv_frozen [OF inv]) (auto simp: admit_def split: if_splits)
  qed
next
  case HalfOpen
  show ?thesis
  proof (cases "probes_exhausted cfg (breaker s) \<or> checked_inc (half_open_in_flight (breaker s)) = None")
    case True
    then show ?thesis
      using step HalfOpen
      by (intro inv_frozen [OF inv]) (auto simp: admit_def probes_def lost_probes_def split: if_splits)
  next
    case False
    then obtain next' where nx: "checked_inc (half_open_in_flight (breaker s)) = Some next'"
      and ne: "\<not> probes_exhausted cfg (breaker s)" by auto
    then have t: "breaker t = (breaker s)\<lparr>half_open_in_flight := next'\<rparr>"
      "running t = AdmHalfOpen (half_open_epoch (breaker s)) # running s" "dropped t = dropped s"
      using step HalfOpen by (auto simp: admit_def split: if_splits)
    show ?thesis
      using inv HalfOpen checked_inc_Some [OF nx] within_limit_inc [OF ne nx]
      by (auto simp: circuit_inv_def t epochs_past_def probes_def lost_probes_def)
  qed
qed

lemma inv_succeed:
  assumes inv: "circuit_inv cfg n s" and n: "in_u64 (Suc n)"
    and step: "circuit_exec cfg (Succeed a) s = Some t"
  shows "circuit_inv cfg (Suc n) t"
proof -
  have a: "a \<in> set (running s)"
    and t: "breaker t = record_success cfg a (breaker s)" "running t = remove1 a (running s)"
      "dropped t = dropped s"
    using step by (auto split: if_splits)
  have sub: "set (running t @ dropped t) \<subseteq> set (running s @ dropped s)"
    using t set_remove1_subset [of a "running s"] by auto
  show ?thesis
  proof (cases "state (breaker s) = HalfOpen \<and> a = AdmHalfOpen (half_open_epoch (breaker s))")
    case False
    have "probes t + lost_probes t = probes s + lost_probes s" if "state (breaker s) = HalfOpen"
      using that False count_list_remove1 [OF a, of "AdmHalfOpen (half_open_epoch (breaker s))"]
      by (cases a) (auto simp: probes_def lost_probes_def t)
    moreover have "breaker t = breaker s \<or> (\<exists>c. breaker t = (breaker s)\<lparr>failure_count := c\<rparr>)"
      using False by (cases a) (auto simp: t)
    ultimately show ?thesis
      using sub by (intro inv_frozen [OF inv]) auto
  next
    case True
    define b where "b = (breaker s)\<lparr>half_open_in_flight := saturating_dec (half_open_in_flight (breaker s)),
        success_count := saturating_inc (success_count (breaker s))\<rparr>"
    have "breaker t = transition (set_closed b) \<or> breaker t = b"
      using True by (auto simp: t b_def Let_def)
    then show ?thesis
    proof
      assume "breaker t = transition (set_closed b)"
      then show ?thesis
        using sub by (intro inv_invalidated [OF inv n]) (auto simp: breaker_defs b_def)
    next
      assume tb: "breaker t = b"
      have "unat (half_open_in_flight b) = probes t + lost_probes t"
        using inv True count_list_remove1 [OF a, of a]
        by (auto simp: circuit_inv_def probes_def lost_probes_def tb b_def t(2,3) unat_saturating_dec)
      moreover have "within_limit cfg b"
        using inv True
        by (auto simp: circuit_inv_def within_limit_def b_def word_le_nat_alt unat_saturating_dec
            split: option.splits)
      moreover have "epochs_past b (running t @ dropped t)"
        by (rule epochs_past_frozen [of "breaker s" "running s @ dropped s"])
          (use inv sub in \<open>auto simp: circuit_inv_def b_def\<close>)
      ultimately show ?thesis
        using inv True by (auto simp: circuit_inv_def tb b_def)
    qed
  qed
qed

lemma inv_fail:
  assumes inv: "circuit_inv cfg n s" and n: "in_u64 (Suc n)"
    and step: "circuit_exec cfg (Fail a) s = Some t"
  shows "circuit_inv cfg (Suc n) t"
proof -
  have a: "a \<in> set (running s)"
    and t: "breaker t = record_failure cfg (clock s) a (breaker s)" "running t = remove1 a (running s)"
      "dropped t = dropped s"
    using step by (auto split: if_splits)
  have sub: "set (running t @ dropped t) \<subseteq> set (running s @ dropped s)"
    using t set_remove1_subset [of a "running s"] by auto
  show ?thesis
  proof (cases "half_open_epoch (breaker t) = half_open_epoch (breaker s)")
    case True
    then have f: "state (breaker t) = state (breaker s)"
      "half_open_in_flight (breaker t) = half_open_in_flight (breaker s)"
      and na: "state (breaker s) = HalfOpen \<Longrightarrow> a \<noteq> AdmHalfOpen (half_open_epoch (breaker s))"
      by (cases a; auto simp: t breaker_defs Let_def split: if_splits)+
    have "probes t + lost_probes t = probes s + lost_probes s" if "state (breaker s) = HalfOpen"
      using na [OF that] count_list_remove1 [OF a, of "AdmHalfOpen (half_open_epoch (breaker s))"] True
      by (auto simp: probes_def lost_probes_def t(2,3))
    then show ?thesis
      using sub True f by (intro inv_frozen [OF inv]) auto
  next
    case False
    then have "state (breaker t) \<noteq> HalfOpen"
      "half_open_epoch (breaker t) = half_open_epoch (breaker s) + 1"
      by (cases a; auto simp: t breaker_defs Let_def split: if_splits)+
    then show ?thesis using sub by (intro inv_invalidated [OF inv n])
  qed
qed

lemma inv_manual:
  assumes inv: "circuit_inv cfg n s" and n: "in_u64 (Suc n)"
    and step: "circuit_exec cfg ev s = Some t" "ev \<in> {ManualOpen, ManualClose, ManualReset}"
  shows "circuit_inv cfg (Suc n) t"
proof -
  have t: "running t = running s" "dropped t = dropped s"
    using step by auto
  have "breaker t = breaker s \<or> state (breaker t) \<noteq> HalfOpen
      \<and> half_open_epoch (breaker t) = half_open_epoch (breaker s) + 1"
    using step by (auto simp: breaker_defs split: if_splits)
  then show ?thesis
  proof
    assume "breaker t = breaker s"
    then show ?thesis using t by (intro inv_frozen [OF inv]) (auto simp: probes_def lost_probes_def)
  next
    assume "state (breaker t) \<noteq> HalfOpen
      \<and> half_open_epoch (breaker t) = half_open_epoch (breaker s) + 1"
    then show ?thesis using t by (intro inv_invalidated [OF inv n]) auto
  qed
qed

lemma inv_drop:
  assumes inv: "circuit_inv cfg n s" and step: "circuit_exec cfg (DropRunning a) s = Some t"
  shows "circuit_inv cfg (Suc n) t"
proof -
  have a: "a \<in> set (running s)"
    and t: "breaker t = breaker s" "running t = remove1 a (running s)" "dropped t = a # dropped s"
    using step by (auto split: if_splits)
  then show ?thesis
    using count_list_remove1 [OF a, of "AdmHalfOpen (half_open_epoch (breaker s))"]
      set_remove1_subset [of a "running s"]
    by (intro inv_frozen [OF inv]) (auto simp: probes_def lost_probes_def)
qed

lemma inv_step:
  assumes inv: "circuit_inv cfg n s" and step: "circuit_step cfg s t" and n: "in_u64 (Suc n)"
  shows "circuit_inv cfg (Suc n) t"
proof -
  from step obtain ev where ev: "circuit_exec cfg ev s = Some t" by (rule circuit_stepE)
  show ?thesis
  proof (cases ev)
    case Admit
    with ev show ?thesis by (intro inv_admit [OF inv n]) simp
  next
    case (Succeed a)
    with ev show ?thesis by (intro inv_succeed [OF inv n]) simp
  next
    case (Fail a)
    with ev show ?thesis by (intro inv_fail [OF inv n]) simp
  next
    case (DropRunning a)
    with ev show ?thesis by (intro inv_drop [OF inv]) simp
  next
    case ManualOpen
    with ev show ?thesis by (intro inv_manual [OF inv n ev]) simp
  next
    case ManualClose
    with ev show ?thesis by (intro inv_manual [OF inv n ev]) simp
  next
    case ManualReset
    with ev show ?thesis by (intro inv_manual [OF inv n ev]) simp
  qed (use ev in \<open>auto intro!: inv_frozen [OF inv] simp: probes_def lost_probes_def
      split: if_splits\<close>)
qed

interpretation breaker_run: transition_invariant circuit_system_init "circuit_step cfg" in_u64
  "circuit_inv cfg" for cfg
proof
  show "circuit_inv cfg 0 s" if "circuit_system_init s" for s
    using that by (simp add: circuit_system_init_def circuit_breaker_new_def circuit_inv_def
        epochs_past_def)
  show "circuit_inv cfg (Suc n) t" if "circuit_inv cfg n s" "circuit_step cfg s t" "in_u64 (Suc n)"
    for n s t
    using that by (rule inv_step)
  show "in_u64 (Suc n) \<Longrightarrow> in_u64 n" for n by (rule in_u64_Suc)
qed

subsection \<open>Properties\<close>

text \<open>
  C12: in every run of fewer than \<open>2 ^ 64\<close> steps, however callers, cancellations and manual
  controls interleave, a half-open breaker counts exactly the probes of its current epoch,
  those still running and those whose caller was dropped, and never admits more of them than
  the configured maximum (at least one).
\<close>

theorem half_open_probes_counted:
  assumes "reachable circuit_system_init (circuit_step cfg) n s" and "n < 2 ^ 64"
    and "state (breaker s) = HalfOpen"
  shows "unat (half_open_in_flight (breaker s)) = probes s + lost_probes s
    \<and> (case half_open_max_requests cfg of
         None \<Rightarrow> True
       | Some m \<Rightarrow> probes s \<le> unat (max m 1))"
proof -
  have "circuit_inv cfg n s"
    using assms(1,2) by (intro breaker_run.reachable_inv) (simp_all add: in_u64_def)
  with assms(3) show ?thesis
    by (auto simp: circuit_inv_def within_limit_def word_le_nat_alt split: option.splits)
qed

text \<open>
  Results of an obsolete epoch are inert. After a manual control that changes the state,
  and after any probe failure, every half-open admission that was handed out before is
  obsolete, and recording its result, whatever it is, leaves the breaker as it is until the
  epoch counter has wrapped around.
\<close>

theorem obsolete_probe_inert:
  assumes "reachable circuit_system_init (circuit_step cfg) n s" and "n < 2 ^ 64 - 1"
    and "AdmHalfOpen e \<in> set (running s)"
    and "b \<in> {set_open now (breaker s), set_closed (breaker s), manual_reset (breaker s)}"
  shows "e \<noteq> half_open_epoch b \<and> record_success cfg (AdmHalfOpen e) b = b
    \<and> record_failure cfg now' (AdmHalfOpen e) b = b"
proof -
  have inv: "circuit_inv cfg n s"
    using assms(1,2) by (intro breaker_run.reachable_inv) (simp_all add: in_u64_def)
  have "half_open_epoch b = half_open_epoch (breaker s) + 1"
    using assms(4) by (auto simp: breaker_defs)
  moreover have "unat e \<le> unat (half_open_epoch (breaker s))"
    using inv assms(3) by (auto simp: circuit_inv_def epochs_past_def)
  moreover have "unat (half_open_epoch (breaker s) + 1) = Suc (unat (half_open_epoch (breaker s)))"
    using assms(2) by (intro inv_epoch_inc [OF inv]) (simp add: in_u64_def)
  ultimately have "e \<noteq> half_open_epoch b" by auto
  then show ?thesis by auto
qed

text \<open>
  An open breaker refuses every request until its timeout has elapsed, then lets exactly one
  probe through, in a fresh epoch.
\<close>

theorem open_refuses_until_timeout:
  assumes "state s = Open" and "last_failure_time s = Some t"
  shows "admit cfg now s =
     (if now < t + open_timeout cfg \<and> open_timeout cfg \<noteq> 0 then (s, None)
      else (transition (s\<lparr>state := HalfOpen, failure_count := 0, success_count := 0,
              half_open_in_flight := 1, half_open_epoch := half_open_epoch s + 1\<rparr>),
            Some (AdmHalfOpen (half_open_epoch s + 1))))"
  using assms by (auto simp: admit_def timeout_elapsed_def Let_def)

text \<open>
  A half-open breaker closes exactly when a probe of its epoch succeeds, no other probe of
  the epoch is in flight and the successes, this one included, reach the threshold; and it
  reopens at the first failure of a probe of its epoch.
\<close>

theorem half_open_decision:
  assumes "state s = HalfOpen" and "e = half_open_epoch s"
  shows "(state (record_success cfg (AdmHalfOpen e) s) = Closed \<longleftrightarrow>
            unat (half_open_in_flight s) \<le> 1
            \<and> max (success_threshold cfg) 1 \<le> saturating_inc (success_count s))
    \<and> state (record_success cfg (AdmHalfOpen e) s) \<noteq> Open
    \<and> state (record_failure cfg now (AdmHalfOpen e) s) = Open
    \<and> last_failure_time (record_failure cfg now (AdmHalfOpen e) s) = Some now"
proof -
  have "saturating_dec (half_open_in_flight s) = 0 \<longleftrightarrow> unat (half_open_in_flight s) \<le> 1"
    by (metis diff_is_0_eq unat_eq_zero unat_saturating_dec)
  then show ?thesis using assms by (auto simp: Let_def breaker_defs)
qed

lemma closed_inc:
  assumes "k < unat (m :: u32)"
  shows "saturating_inc (of_nat k :: u32) = of_nat (Suc k)"
    "m \<le> of_nat (Suc k) \<longleftrightarrow> unat m = Suc k"
proof -
  have lt: "Suc k \<le> 2 ^ 32 - 1"
    using assms unsigned_less [of m, where ?'a = nat] by simp
  then have u: "unat (of_nat k :: u32) = k" "unat (of_nat (Suc k) :: u32) = Suc k"
    by (simp_all add: unat_of_nat del: of_nat_Suc)
  show "saturating_inc (of_nat k :: u32) = of_nat (Suc k)"
    using u lt by (intro unsigned_word_eqI [where ?'a = nat])
      (auto simp: unat_saturating_inc unsigned_minus_1_eq_mask mask_eq_exp_minus_1 simp del: of_nat_Suc)
  show "m \<le> of_nat (Suc k) \<longleftrightarrow> unat m = Suc k"
    using assms u by (auto simp: word_le_nat_alt simp del: of_nat_Suc)
qed

lemma closed_failures:
  assumes "state s = Closed" "failure_count s = 0" "k < unat (max (failure_threshold cfg) 1)"
  shows "(record_failure cfg now AdmClosed ^^ k) s = s\<lparr>failure_count := of_nat k\<rparr>"
  using assms(3)
proof (induction k)
  case 0
  then show ?case using assms(2) by simp
next
  case (Suc k)
  have "k < unat (max (failure_threshold cfg) 1)" "Suc k \<noteq> unat (max (failure_threshold cfg) 1)"
    using Suc.prems by auto
  then show ?case
    using Suc.IH assms(1) closed_inc [of k "max (failure_threshold cfg) 1"]
    by (auto simp: Let_def simp del: of_nat_Suc)
qed

text \<open>
  A closed breaker opens at exactly the configured number of consecutive failures (at least
  one): before that it stays closed and counts them, and any success in between starts the
  count again.
\<close>

theorem opens_at_threshold:
  assumes "state s = Closed" and "failure_count s = 0"
  shows "(state ((record_failure cfg now AdmClosed ^^ k) s) =
            (if k < unat (max (failure_threshold cfg) 1) then Closed else Open))
    \<and> (k < unat (max (failure_threshold cfg) 1) \<longrightarrow>
         record_success cfg AdmClosed ((record_failure cfg now AdmClosed ^^ k) s) = s)"
proof -
  let ?f = "record_failure cfg now AdmClosed" and ?m = "unat (max (failure_threshold cfg) 1)"
  have m: "0 < ?m" by (auto simp: unat_gt_0 max_def)
  have "(?f ^^ ?m) s = ?f ((?f ^^ (?m - 1)) s)"
    using m by (cases ?m) simp_all
  then have "state ((?f ^^ ?m) s) = Open"
    using closed_failures [OF assms, of "?m - 1" cfg now] m closed_inc [of "?m - 1" "max (failure_threshold cfg) 1"]
      assms(1)
    by (simp add: Let_def breaker_defs del: of_nat_diff)
  then have "state ((?f ^^ d) ((?f ^^ ?m) s)) = Open" for d
    by (induction d) simp_all
  then have "state ((?f ^^ k) s) = Open" if "?m \<le> k"
    using that by (metis (no_types) comp_apply funpow_add le_add_diff_inverse2)
  then show ?thesis
    using closed_failures [OF assms, of k cfg now] assms by auto
qed

text \<open>
  A half-open breaker whose whole probe budget is held by callers that were dropped. Nothing
  gives such a probe back: only the recording functions lower \<open>half_open_in_flight\<close>, and the
  dropped callers never reach them.
\<close>

definition wedged :: "circuit_breaker_config \<Rightarrow> circuit_system \<Rightarrow> bool" where
  "wedged cfg s \<longleftrightarrow>
     state (breaker s) = HalfOpen \<and> probes_exhausted cfg (breaker s)
     \<and> AdmHalfOpen (half_open_epoch (breaker s)) \<notin> set (running s)"

definition manual_events :: "circuit_event list" where
  "manual_events = [ManualOpen, ManualClose, ManualReset]"

lemma probes_exhausted_counters [simp]:
  "probes_exhausted cfg (b\<lparr>total_requests := x\<rparr>) = probes_exhausted cfg b"
  "probes_exhausted cfg (b\<lparr>total_rejected := x\<rparr>) = probes_exhausted cfg b"
  "probes_exhausted cfg (b\<lparr>total_successes := x\<rparr>) = probes_exhausted cfg b"
  "probes_exhausted cfg (b\<lparr>total_failures := x\<rparr>) = probes_exhausted cfg b"
  by (simp_all add: probes_exhausted_def split: option.splits)

lemma wedged_exec:
  "wedged cfg s \<Longrightarrow> circuit_exec cfg ev s = Some t \<Longrightarrow> ev \<notin> set manual_events \<Longrightarrow> wedged cfg t"
proof (cases ev)
  case (Succeed a)
  moreover assume "wedged cfg s" "circuit_exec cfg ev s = Some t"
  ultimately show "wedged cfg t"
    using set_remove1_subset [of a "running s"]
    by (cases a) (auto simp: wedged_def split: if_splits)
next
  case (Fail a)
  moreover assume "wedged cfg s" "circuit_exec cfg ev s = Some t"
  ultimately show "wedged cfg t"
    using set_remove1_subset [of a "running s"]
    by (cases a) (auto simp: wedged_def split: if_splits)
next
  case (DropRunning a)
  moreover assume "wedged cfg s" "circuit_exec cfg ev s = Some t"
  ultimately show "wedged cfg t"
    using set_remove1_subset [of a "running s"]
    by (auto simp: wedged_def split: if_splits)
qed (auto simp: wedged_def manual_events_def admit_def split: if_splits)

lemma circuit_run_append:
  "circuit_run cfg (es @ fs) s =
     (case circuit_run cfg es s of None \<Rightarrow> None | Some t \<Rightarrow> circuit_run cfg fs t)"
  by (induction es arbitrary: s) (auto split: option.splits)

lemma wedged_run:
  "wedged cfg s \<Longrightarrow> circuit_run cfg es s = Some t \<Longrightarrow> set es \<inter> set manual_events = {} \<Longrightarrow>
   wedged cfg t"
  by (induction es arbitrary: s) (auto split: option.splits dest: wedged_exec)

text \<open>
  C34: cancelled probes are never given back. Once every half-open probe of the budget was lost
  by a caller dropped while its operation ran, no sequence of requests, results, cancellations
  and passing time brings the breaker out of \<open>HalfOpen\<close> or admits another request: only a
  manual control does.
\<close>

theorem dropped_probes_wedge_breaker:
  assumes "wedged cfg s" and "circuit_run cfg es s = Some t"
    and "set es \<inter> set manual_events = {}"
  shows "state (breaker t) = HalfOpen \<and> admit cfg now (breaker t) = (breaker t, None)"
  using wedged_run [OF assms] by (simp add: wedged_def admit_def)

definition idle_system :: circuit_system where
  "idle_system =
     \<lparr>breaker = circuit_breaker_new, clock = 0, requested = 0, rejecting = 0, running = [],
      settling_ok = 0, settling_err = 0, dropped = [], dropped_requests = 0\<rparr>"

definition small_config :: circuit_breaker_config where
  "small_config =
     \<lparr>failure_threshold = 1, success_threshold = 1, open_timeout = 10, half_open_max_requests = Some 1\<rparr>"

text \<open>One failed call opens the breaker; the single probe after the timeout starts.\<close>

definition probe_events :: "circuit_event list" where
  "probe_events = [Request, Admit, Fail AdmClosed, CountFailure, Tick 10, Request, Admit]"

definition probing_system :: circuit_system where
  "probing_system =
     \<lparr>breaker =
        \<lparr>state = HalfOpen, failure_count = 0, success_count = 0, last_failure_time = Some 0,
         half_open_in_flight = 1, half_open_epoch = 2, total_requests = 2, total_successes = 0,
         total_failures = 1, total_rejected = 0, state_transitions = 2\<rparr>,
      clock = 10, requested = 0, rejecting = 0, running = [AdmHalfOpen 2], settling_ok = 0,
      settling_err = 0, dropped = [], dropped_requests = 0\<rparr>"

lemma probing_run: "circuit_run small_config probe_events idle_system = Some probing_system"
  by (simp add: probe_events_def idle_system_def small_config_def circuit_breaker_new_def admit_def
      breaker_defs timeout_elapsed_def Let_def saturating_inc_def probing_system_def)

lemma reachable_run:
  "reachable i (circuit_step cfg) n s \<Longrightarrow> circuit_run cfg es s = Some t \<Longrightarrow>
   reachable i (circuit_step cfg) (n + length es) t"
proof (induction es arbitrary: n s)
  case Nil
  then show ?case by simp
next
  case (Cons e es)
  from Cons.prems(2) obtain u where "circuit_exec cfg e s = Some u" "circuit_run cfg es u = Some t"
    by (auto split: option.splits)
  with Cons.IH [of "Suc n" u] Cons.prems(1) show ?case
    by (auto intro: reachable.next_step circuit_stepI)
qed

lemma probing_reachable: "reachable circuit_system_init (circuit_step small_config) 7 probing_system"
proof -
  have "reachable circuit_system_init (circuit_step small_config) 0 idle_system"
    by (rule reachable.start) (simp add: circuit_system_init_def idle_system_def)
  from reachable_run [OF this probing_run] show ?thesis
    by (simp add: probe_events_def numeral_eq_Suc)
qed

lemma dropped_probes_wedge_breaker_witness:
  "\<exists>s. circuit_run small_config (probe_events @ [DropRunning (AdmHalfOpen 2)]) idle_system = Some s
     \<and> (\<forall>now. admit small_config now (breaker s) = (breaker s, None))"
proof -
  let ?s = "probing_system\<lparr>running := [], dropped := [AdmHalfOpen 2]\<rparr>"
  have "circuit_run small_config (probe_events @ [DropRunning (AdmHalfOpen 2)]) idle_system = Some ?s"
    by (simp add: circuit_run_append probing_run) (simp add: probing_system_def)
  moreover have "wedged small_config ?s"
    by (simp add: wedged_def probing_system_def small_config_def probes_exhausted_def)
  then have "admit small_config now (breaker ?s) = (breaker ?s, None)" for now
    using dropped_probes_wedge_breaker [of small_config ?s "[]" ?s now] by simp
  ultimately show ?thesis by blast
qed

lemma half_open_probes_counted_witness:
  "unat (half_open_in_flight (breaker probing_system)) = 1 \<and> probes probing_system \<le> 1"
  using half_open_probes_counted [OF probing_reachable]
  by (simp add: probing_system_def small_config_def probes_def lost_probes_def)

lemma obsolete_probe_inert_witness:
  "record_failure small_config 20 (AdmHalfOpen 2) (set_closed (breaker probing_system))
     = set_closed (breaker probing_system)"
  using obsolete_probe_inert [OF probing_reachable, of 2 "set_closed (breaker probing_system)" 0 20]
  by (simp add: probing_system_def)

lemma open_refuses_until_timeout_witness:
  "admit small_config 5 (set_open 0 circuit_breaker_new) = (set_open 0 circuit_breaker_new, None)"
  using open_refuses_until_timeout [of "set_open 0 circuit_breaker_new" 0 small_config 5]
  by (simp add: breaker_defs small_config_def)

lemma half_open_decision_witness:
  "state (record_success small_config (AdmHalfOpen 2) (breaker probing_system)) = Closed"
proof -
  have "state (breaker probing_system) = HalfOpen" "2 = half_open_epoch (breaker probing_system)"
    by (simp_all add: probing_system_def)
  note half_open_decision [OF this]
  moreover have "unat (half_open_in_flight (breaker probing_system)) \<le> 1"
    "max (success_threshold small_config) 1 \<le> saturating_inc (success_count (breaker probing_system))"
    by (simp_all add: probing_system_def small_config_def saturating_inc_def)
  ultimately show ?thesis by blast
qed

lemma opens_at_threshold_witness:
  "state ((record_failure default_config 0 AdmClosed ^^ 4) circuit_breaker_new) = Closed
   \<and> state ((record_failure default_config 0 AdmClosed ^^ 5) circuit_breaker_new) = Open"
  using opens_at_threshold [where s = circuit_breaker_new and cfg = default_config and now = 0 and k = 4]
    opens_at_threshold [where s = circuit_breaker_new and cfg = default_config and now = 0 and k = 5]
  by (simp add: circuit_breaker_new_def default_config_def)

subsection \<open>Counting requests\<close>

inductive counted_step :: "circuit_breaker_config \<Rightarrow> circuit_system \<Rightarrow> circuit_system \<Rightarrow> bool"
  for cfg :: circuit_breaker_config where
  counted_stepI: "circuit_exec cfg ev s = Some t \<Longrightarrow> ev \<noteq> ManualReset \<Longrightarrow> counted_step cfg s t"

inductive_cases counted_stepE: "counted_step cfg s t"

definition pending_tasks :: "circuit_system \<Rightarrow> nat" where
  "pending_tasks s =
     requested s + rejecting s + length (running s) + settling_ok s + settling_err s"

definition settled_counts :: "circuit_breaker \<Rightarrow> nat" where
  "settled_counts b =
     unat (total_rejected b) + unat (total_successes b) + unat (total_failures b)"

definition lost_tasks :: "circuit_system \<Rightarrow> nat" where
  "lost_tasks s = length (dropped s) + dropped_requests s"

definition count_inv :: "nat \<Rightarrow> circuit_system \<Rightarrow> bool" where
  "count_inv n s \<longleftrightarrow>
     unat (total_requests (breaker s)) \<le> n
     \<and> unat (total_requests (breaker s))
         = pending_tasks s + lost_tasks s + settled_counts (breaker s)"

lemmas counter_defs = pending_tasks_def settled_counts_def lost_tasks_def

lemma counters_kept [simp]:
  "total_requests (record_success cfg a b) = total_requests b"
  "total_requests (record_failure cfg now a b) = total_requests b"
  "settled_counts (record_success cfg a b) = settled_counts b"
  "settled_counts (record_failure cfg now a b) = settled_counts b"
  "total_requests (fst (admit cfg now b)) = total_requests b"
  "settled_counts (fst (admit cfg now b)) = settled_counts b"
  "total_requests (manual_open now b) = total_requests b"
  "settled_counts (manual_open now b) = settled_counts b"
  "total_requests (manual_close b) = total_requests b"
  "settled_counts (manual_close b) = settled_counts b"
  by (cases a; auto simp: counter_defs breaker_defs admit_def Let_def
      split: circuit_state.splits option.splits)+

lemma unat_counter_inc: "unat (w :: u64) < n \<Longrightarrow> in_u64 n \<Longrightarrow> unat (w + 1) = Suc (unat w)"
  by (rule unat_epoch_inc [of w "n - 1"]) simp_all

lemma count_inv_step:
  assumes inv: "count_inv n s" and step: "counted_step cfg s t" and n: "in_u64 (Suc n)"
  shows "count_inv (Suc n) t"
proof -
  from step obtain ev where ev: "circuit_exec cfg ev s = Some t" "ev \<noteq> ManualReset"
    by (rule counted_stepE)
  let ?b = "breaker s"
  have r: "unat (total_requests ?b + 1) = Suc (unat (total_requests ?b))"
    using inv by (intro unat_epoch_inc [OF _ n]) (simp add: count_inv_def)
  have c: "unat (total_rejected ?b) \<le> n" "unat (total_successes ?b) \<le> n" "unat (total_failures ?b) \<le> n"
    using inv by (simp_all add: count_inv_def settled_counts_def)
  note i = unat_epoch_inc [OF c(1) n] unat_epoch_inc [OF c(2) n] unat_epoch_inc [OF c(3) n]
  show ?thesis
  proof (cases ev)
    case Admit
    then obtain b a where ba: "admit cfg (clock s) ?b = (b, a)" "requested s \<noteq> 0"
      "t = (case a of None \<Rightarrow> s\<lparr>breaker := b, requested := requested s - 1, rejecting := rejecting s + 1\<rparr>
            | Some a \<Rightarrow> s\<lparr>breaker := b, requested := requested s - 1, running := a # running s\<rparr>)"
      using ev by (auto split: if_splits prod.splits option.splits)
    moreover have "total_requests b = total_requests ?b" "settled_counts b = settled_counts ?b"
      using counters_kept(5,6) [of cfg "clock s" ?b] ba(1) by simp_all
    ultimately show ?thesis
      using inv by (auto simp: count_inv_def pending_tasks_def lost_tasks_def split: option.splits)
  next
    case (Succeed a)
    with ev inv length_pos_if_in_set [of a "running s"] show ?thesis
      by (auto simp: count_inv_def pending_tasks_def lost_tasks_def length_remove1 split: if_splits)
  next
    case (Fail a)
    with ev inv length_pos_if_in_set [of a "running s"] show ?thesis
      by (auto simp: count_inv_def pending_tasks_def lost_tasks_def length_remove1 split: if_splits)
  next
    case (DropRunning a)
    with ev inv length_pos_if_in_set [of a "running s"] show ?thesis
      by (auto simp: count_inv_def pending_tasks_def lost_tasks_def length_remove1 split: if_splits)
  next
    case ManualOpen
    with ev inv show ?thesis by (auto simp: count_inv_def pending_tasks_def lost_tasks_def)
  next
    case ManualClose
    with ev inv show ?thesis by (auto simp: count_inv_def pending_tasks_def lost_tasks_def)
  qed (use ev inv r i in \<open>auto simp: count_inv_def counter_defs split: if_splits\<close>)
qed

interpretation counting: transition_invariant circuit_system_init "counted_step cfg" in_u64
  count_inv for cfg
proof
  show "count_inv 0 s" if "circuit_system_init s" for s
    using that by (simp add: circuit_system_init_def circuit_breaker_new_def count_inv_def counter_defs)
  show "count_inv (Suc n) t" if "count_inv n s" "counted_step cfg s t" "in_u64 (Suc n)" for n s t
    using that by (rule count_inv_step)
  show "in_u64 (Suc n) \<Longrightarrow> in_u64 n" for n by (rule in_u64_Suc)
qed

text \<open>
  The request counters account for every call. In a run of fewer than \<open>2 ^ 64\<close> steps
  without a reset, the requests counted are those still under way, those whose caller was
  dropped, and those counted as rejected, successful or failed; with no call under way and none
  dropped the three outcome counters add up to the requests.
\<close>

theorem requests_accounted:
  assumes "reachable circuit_system_init (counted_step cfg) n s" and "n < 2 ^ 64"
  shows "unat (st_total_requests (stats (breaker s)))
    = pending_tasks s + lost_tasks s + unat (st_total_rejected (stats (breaker s)))
      + unat (st_total_successes (stats (breaker s))) + unat (st_total_failures (stats (breaker s)))"
proof -
  have "count_inv n s"
    using assms by (intro counting.reachable_inv) (simp_all add: in_u64_def)
  then show ?thesis by (simp add: count_inv_def settled_counts_def stats_def)
qed

lemma requests_accounted_witness:
  "unat (st_total_requests (stats (breaker (the (circuit_exec small_config Request idle_system))))) = 1"
proof -
  have "reachable circuit_system_init (counted_step small_config) 0 idle_system"
    by (rule reachable.start) (simp add: circuit_system_init_def idle_system_def)
  then have "reachable circuit_system_init (counted_step small_config) (Suc 0)
      (the (circuit_exec small_config Request idle_system))"
    by (rule reachable.next_step) (rule counted_stepI [of _ Request]; simp)
  from requests_accounted [OF this] show ?thesis
    by (simp add: counter_defs stats_def idle_system_def circuit_breaker_new_def)
qed

end
