(* ===== verification/Module_Graph.thy ===== *)
theory Module_Graph
  imports Rust_Prelude "HOL-Library.Multiset"
begin

text \<open>
  Dependency lock graphs of admitted module artifacts
  (\<open>crates/modules/rustok-modules/src/dependency.rs\<close>): canonical order, validation and the
  iterative depth-first search for cycles. The digest of a canonical graph (JSON serialisation
  and SHA-256) is the argument \<open>digest\<close>. A string index into a map panics when the key is
  missing; the search returns \<open>None\<close> for that, and validation is shown never to reach it.
\<close>

record lock_node =
  slug :: string
  version :: string
  payload_digest :: string
  manifest_digest :: string
  dependencies :: "string list"

record lock_graph =
  graph_revision :: u64
  lock_digest :: string
  nodes :: "lock_node list"

datatype lock_error =
    ZeroGraphRevision
  | TooManyNodes nat
  | DuplicateNode
  | DuplicateDependency string
  | SelfDependency string
  | MissingNode string string
  | Cycle string
  | DigestMismatch string string
  | Serialize string

definition MAX_LOCK_GRAPH_NODES :: nat where
  "MAX_LOCK_GRAPH_NODES = 1024"

definition canonicalize_nodes :: "lock_node list \<Rightarrow> lock_node list" where
  "canonicalize_nodes ns =
     sort_key slug (map (\<lambda>n. n\<lparr>dependencies := sort (dependencies n)\<rparr>) ns)"

subsection \<open>The search for cycles\<close>

datatype mark = Visiting | Visited

type_synonym slug_map = "(string \<times> lock_node) list"

text \<open>
  What the search may still do: strings not yet marked, then dependencies and entries still on
  the stack. Every step lowers the pair lexicographically.
\<close>

definition mentioned :: "slug_map \<Rightarrow> string set" where
  "mentioned g = (\<Union>(k, n) \<in> set g. insert k (set (dependencies n)))"

definition dependencies_of :: "slug_map \<Rightarrow> string \<Rightarrow> string list" where
  "dependencies_of g s = (case map_of g s of None \<Rightarrow> [] | Some n \<Rightarrow> dependencies n)"

definition frame_work :: "slug_map \<Rightarrow> string \<times> nat \<Rightarrow> nat" where
  "frame_work g f = Suc (length (dependencies_of g (fst f)) - snd f)"

lemma mentioned_finite [simp]: "finite (mentioned g)"
  by (auto simp: mentioned_def)

lemma dependency_mentioned:
  "map_of g s = Some n \<Longrightarrow> d \<in> set (dependencies n) \<Longrightarrow> d \<in> mentioned g"
  by (auto simp: mentioned_def dest: map_of_SomeD)

function (sequential) dfs_loop ::
    "slug_map \<Rightarrow> (string \<rightharpoonup> mark) \<Rightarrow> (string \<times> nat) list
     \<Rightarrow> (lock_error + (string \<rightharpoonup> mark)) option" where
  "dfs_loop g marks [] = Some (Inr marks)"
| "dfs_loop g marks ((s, nxt) # stack) =
     (case map_of g s of
        None \<Rightarrow> None
      | Some node \<Rightarrow>
          if length (dependencies node) \<le> nxt
          then dfs_loop g (marks(s \<mapsto> Visited)) stack
          else
            let dependency = dependencies node ! nxt in
            (case marks dependency of
               Some Visiting \<Rightarrow> Some (Inl (Cycle dependency))
             | Some Visited \<Rightarrow> dfs_loop g marks ((s, Suc nxt) # stack)
             | None \<Rightarrow>
                 dfs_loop g (marks(dependency \<mapsto> Visiting)) ((dependency, 0) # (s, Suc nxt) # stack)))"
  by pat_completeness auto

lemma unmarked_push:
  assumes "d \<in> mentioned g" "marks d = None"
  shows "card (mentioned g - dom (marks(d \<mapsto> m))) < card (mentioned g - dom marks)"
  by (rule psubset_card_mono) (use assms in auto)

lemma unmarked_mono: "card (mentioned g - dom (marks(s \<mapsto> m))) \<le> card (mentioned g - dom marks)"
  by (rule card_mono) auto

termination dfs_loop
proof (relation "inv_image (less_than <*lex*> less_than)
    (\<lambda>(g, marks, stack). (card (mentioned g - dom marks), sum_list (map (frame_work g) stack)))",
    goal_cases)
  case 1
  then show ?case by auto
next
  case (2 g marks s nxt stack node)
  then show ?case
    using unmarked_mono [of g marks s Visited] by (auto simp: frame_work_def le_less)
next
  case (3 g marks s nxt stack node d)
  then have "d \<in> mentioned g"
    by (auto intro: dependency_mentioned)
  with 3 show ?case using unmarked_push by auto
next
  case (4 g marks s nxt stack node d m)
  then show ?case by (auto simp: frame_work_def dependencies_of_def)
qed

declare dfs_loop.simps(2) [simp del]

lemma dfs_loop_steps:
  assumes "map_of g s = Some n"
  shows "length (dependencies n) \<le> i \<Longrightarrow>
      dfs_loop g marks ((s, i) # stack) = dfs_loop g (marks(s \<mapsto> Visited)) stack"
    and "i < length (dependencies n) \<Longrightarrow> marks (dependencies n ! i) = None \<Longrightarrow>
      dfs_loop g marks ((s, i) # stack) =
        dfs_loop g (marks(dependencies n ! i \<mapsto> Visiting)) ((dependencies n ! i, 0) # (s, Suc i) # stack)"
    and "i < length (dependencies n) \<Longrightarrow> marks (dependencies n ! i) = Some Visited \<Longrightarrow>
      dfs_loop g marks ((s, i) # stack) = dfs_loop g marks ((s, Suc i) # stack)"
    and "i < length (dependencies n) \<Longrightarrow> marks (dependencies n ! i) = Some Visiting \<Longrightarrow>
      dfs_loop g marks ((s, i) # stack) = Some (Inl (Cycle (dependencies n ! i)))"
  using assms by (subst dfs_loop.simps(2), simp add: Let_def)+

fun dfs_roots ::
    "slug_map \<Rightarrow> (string \<rightharpoonup> mark) \<Rightarrow> string list \<Rightarrow> (lock_error + unit) option" where
  "dfs_roots g marks [] = Some (Inr ())"
| "dfs_roots g marks (root # roots) =
     (if marks root \<noteq> None then dfs_roots g marks roots
      else case dfs_loop g (marks(root \<mapsto> Visiting)) [(root, 0)] of
          None \<Rightarrow> None
        | Some (Inl e) \<Rightarrow> Some (Inl e)
        | Some (Inr marks') \<Rightarrow> dfs_roots g marks' roots)"

definition detect_cycle :: "slug_map \<Rightarrow> (lock_error + unit) option" where
  "detect_cycle g = dfs_roots g Map.empty (map fst g)"

subsection \<open>Validation\<close>

definition validate_node :: "slug_map \<Rightarrow> lock_node \<Rightarrow> lock_error + unit" where
  "validate_node by_slug n =
     rbind (ensure (slug n \<notin> set (dependencies n)) (SelfDependency (slug n))) (\<lambda>_.
     rbind (ensure (length (remdups (dependencies n)) = length (dependencies n))
              (DuplicateDependency (slug n))) (\<lambda>_.
     for_each (\<lambda>d. if map_of by_slug d = None then Inl (MissingNode (slug n) d) else Inr ())
       (dependencies n)))"

definition validate_nodes :: "lock_node list \<Rightarrow> (lock_error + unit) option" where
  "validate_nodes ns =
     (if MAX_LOCK_GRAPH_NODES < length ns then Some (Inl (TooManyNodes (length ns)))
      else
        let by_slug = btree_collect (map (\<lambda>n. (slug n, n)) ns) in
        if length by_slug \<noteq> length ns then Some (Inl DuplicateNode)
        else case for_each (validate_node by_slug) ns of
            Inl e \<Rightarrow> Some (Inl e)
          | Inr _ \<Rightarrow> detect_cycle by_slug)"

type_synonym digest_fn = "u64 \<Rightarrow> lock_node list \<Rightarrow> string + string"

definition graph_digest :: "digest_fn \<Rightarrow> u64 \<Rightarrow> lock_node list \<Rightarrow> lock_error + string" where
  "graph_digest digest revision ns = map_err Serialize (digest revision (canonicalize_nodes ns))"

definition lock_graph_create ::
    "digest_fn \<Rightarrow> u64 \<Rightarrow> lock_node list \<Rightarrow> (lock_error + lock_graph) option" where
  "lock_graph_create digest revision ns =
     (if revision = 0 then Some (Inl ZeroGraphRevision)
      else
        let ns = canonicalize_nodes ns in
        case validate_nodes ns of
          None \<Rightarrow> None
        | Some (Inl e) \<Rightarrow> Some (Inl e)
        | Some (Inr _) \<Rightarrow>
            Some (rbind (graph_digest digest revision ns) (\<lambda>d.
              Inr \<lparr>graph_revision = revision, lock_digest = d, nodes = ns\<rparr>)))"

definition lock_graph_validate :: "digest_fn \<Rightarrow> lock_graph \<Rightarrow> (lock_error + unit) option" where
  "lock_graph_validate digest g =
     (if graph_revision g = 0 then Some (Inl ZeroGraphRevision)
      else case validate_nodes (nodes g) of
          None \<Rightarrow> None
        | Some (Inl e) \<Rightarrow> Some (Inl e)
        | Some (Inr _) \<Rightarrow>
            Some (rbind (graph_digest digest (graph_revision g) (nodes g)) (\<lambda>actual.
              if actual \<noteq> lock_digest g then Inl (DigestMismatch (lock_digest g) actual)
              else Inr ())))"

subsection \<open>The search is correct\<close>

definition edges :: "slug_map \<Rightarrow> (string \<times> string) set" where
  "edges g = {(s, d). \<exists>n. map_of g s = Some n \<and> d \<in> set (dependencies n)}"

text \<open>
  The frames below the top of the stack have the slug above them as the dependency they entered
  last; all dependencies before that one are finished.
\<close>

fun frames_ok :: "slug_map \<Rightarrow> (string \<rightharpoonup> mark) \<Rightarrow> string option \<Rightarrow> (string \<times> nat) list \<Rightarrow> bool" where
  "frames_ok g marks up [] = True"
| "frames_ok g marks up ((s, i) # stack) =
     ((\<exists>n. map_of g s = Some n \<and> i \<le> length (dependencies n)
         \<and> (\<forall>j < i. marks (dependencies n ! j) = Some Visited \<or> up = Some (dependencies n ! j)))
      \<and> (\<forall>a. up = Some a \<longrightarrow> (s, a) \<in> edges g)
      \<and> frames_ok g marks (Some s) stack)"

definition visited_ok :: "slug_map \<Rightarrow> (string \<rightharpoonup> mark) \<Rightarrow> bool" where
  "visited_ok g marks \<longleftrightarrow>
     (\<forall>s. marks s = Some Visited \<longrightarrow>
        (\<forall>d. (s, d) \<in> edges g \<longrightarrow> marks d = Some Visited) \<and> (s, s) \<notin> (edges g)\<^sup>+)"

definition dfs_inv :: "slug_map \<Rightarrow> (string \<rightharpoonup> mark) \<Rightarrow> (string \<times> nat) list \<Rightarrow> bool" where
  "dfs_inv g marks stack \<longleftrightarrow>
     distinct (map fst stack)
     \<and> (\<forall>s. marks s = Some Visiting \<longleftrightarrow> s \<in> fst ` set stack)
     \<and> frames_ok g marks None stack \<and> visited_ok g marks"

definition closed_graph :: "slug_map \<Rightarrow> bool" where
  "closed_graph g \<longleftrightarrow> (\<forall>s d. (s, d) \<in> edges g \<longrightarrow> map_of g d \<noteq> None)"

lemma visited_reach:
  assumes "visited_ok g marks" "marks s = Some Visited" "(s, d) \<in> (edges g)\<^sup>*"
  shows "marks d = Some Visited"
  using assms(3,2) by (induction rule: rtrancl_induct) (use assms(1) in \<open>auto simp: visited_ok_def\<close>)

lemma frames_ok_Visited:
  "frames_ok g marks up stack \<Longrightarrow> \<forall>s. marks s = Some Visited \<longrightarrow> marks' s = Some Visited \<Longrightarrow>
   frames_ok g marks' up stack"
  by (induction g marks up stack rule: frames_ok.induct) auto

lemma frames_ok_pop:
  "frames_ok g marks (Some s) stack \<Longrightarrow> \<forall>t. marks t = Some Visited \<longrightarrow> marks' t = Some Visited \<Longrightarrow>
   marks' s = Some Visited \<Longrightarrow> frames_ok g marks' None stack"
  by (cases stack) (fastforce elim: frames_ok_Visited)+

lemma frames_path:
  "frames_ok g marks (Some a) stack \<Longrightarrow> s \<in> fst ` set stack \<Longrightarrow> (s, a) \<in> (edges g)\<^sup>+"
proof (induction stack arbitrary: a)
  case Nil
  then show ?case by simp
next
  case (Cons f stack)
  obtain t i where f: "f = (t, i)" by force
  with Cons.prems(1) have e: "(t, a) \<in> edges g" and r: "frames_ok g marks (Some t) stack" by auto
  show ?case
  proof (cases "s = t")
    case True
    with e show ?thesis by blast
  next
    case False
    with Cons.prems(2) f have "s \<in> fst ` set stack" by auto
    with Cons.IH [OF r] e show ?thesis by (meson trancl_into_trancl)
  qed
qed

text \<open>Popping a frame whose dependencies are finished, pushing one, and advancing one.\<close>

lemma dfs_pop:
  assumes inv: "dfs_inv g marks ((s, i) # stack)" and n: "map_of g s = Some n"
    and i: "length (dependencies n) \<le> i"
  shows "dfs_inv g (marks(s \<mapsto> Visited)) stack"
proof -
  have d: "marks d = Some Visited" if "(s, d) \<in> edges g" for d
    using that inv n i by (auto simp: dfs_inv_def edges_def in_set_conv_nth)
  have s: "marks s = Some Visiting" and vis: "visited_ok g marks"
    using inv by (auto simp: dfs_inv_def)
  have "(s, s) \<notin> (edges g)\<^sup>+"
  proof
    assume "(s, s) \<in> (edges g)\<^sup>+"
    then obtain d where "(s, d) \<in> edges g" "(d, s) \<in> (edges g)\<^sup>*"
      by (meson tranclD)
    then show False using d visited_reach [OF vis] s by fastforce
  qed
  then have "visited_ok g (marks(s \<mapsto> Visited))"
    using vis d by (auto simp: visited_ok_def)
  moreover have "frames_ok g (marks(s \<mapsto> Visited)) None stack"
    using inv by (auto simp: dfs_inv_def intro: frames_ok_pop)
  ultimately show ?thesis
    using inv by (auto simp: dfs_inv_def)
qed

lemma dfs_push:
  assumes inv: "dfs_inv g marks ((s, i) # stack)" and n: "map_of g s = Some n"
    and i: "i < length (dependencies n)" and d: "marks (dependencies n ! i) = None"
    and closed: "closed_graph g"
  shows "dfs_inv g (marks(dependencies n ! i \<mapsto> Visiting)) ((dependencies n ! i, 0) # (s, Suc i) # stack)"
proof -
  let ?d = "dependencies n ! i" and ?m = "marks(dependencies n ! i \<mapsto> Visiting)"
  have e: "(s, ?d) \<in> edges g" using n i by (auto simp: edges_def)
  then obtain nd where nd: "map_of g ?d = Some nd"
    using closed unfolding closed_graph_def by blast
  have mono: "\<forall>t. marks t = Some Visited \<longrightarrow> ?m t = Some Visited" using d by auto
  have old: "\<forall>j < i. marks (dependencies n ! j) = Some Visited" "frames_ok g marks (Some s) stack"
    using inv n by (auto simp: dfs_inv_def)
  have "\<forall>j < Suc i. ?m (dependencies n ! j) = Some Visited \<or> ?d = dependencies n ! j"
    using old(1) mono by (auto simp: less_Suc_eq)
  moreover have "frames_ok g ?m (Some s) stack" by (rule frames_ok_Visited [OF old(2) mono])
  ultimately have "frames_ok g ?m None ((?d, 0) # (s, Suc i) # stack)"
    using n nd i e by auto
  moreover have "visited_ok g ?m"
    using inv d by (auto simp: dfs_inv_def visited_ok_def)
  moreover have "?d \<notin> fst ` set ((s, i) # stack)"
    using inv d unfolding dfs_inv_def by (metis option.distinct(1))
  ultimately show ?thesis
    using inv by (auto simp: dfs_inv_def)
qed

lemma dfs_advance:
  assumes "dfs_inv g marks ((s, i) # stack)" "map_of g s = Some n"
    and "i < length (dependencies n)" "marks (dependencies n ! i) = Some Visited"
  shows "dfs_inv g marks ((s, Suc i) # stack)"
  using assms by (auto simp: dfs_inv_def less_Suc_eq)

lemma dfs_cycle_found:
  assumes inv: "dfs_inv g marks ((s, i) # stack)" and n: "map_of g s = Some n"
    and i: "i < length (dependencies n)" and d: "marks (dependencies n ! i) = Some Visiting"
  shows "(dependencies n ! i, dependencies n ! i) \<in> (edges g)\<^sup>+"
proof -
  let ?d = "dependencies n ! i"
  have e: "(s, ?d) \<in> edges g" using n i by (auto simp: edges_def)
  have "?d = s \<or> ?d \<in> fst ` set stack"
    using inv d by (auto simp: dfs_inv_def)
  then show ?thesis
  proof
    assume "?d = s"
    with e show ?thesis by auto
  next
    assume "?d \<in> fst ` set stack"
    moreover have "frames_ok g marks (Some s) stack" using inv by (simp add: dfs_inv_def)
    ultimately have "(?d, s) \<in> (edges g)\<^sup>+" by (rule frames_path [rotated])
    with e show ?thesis by (meson trancl_into_trancl)
  qed
qed

text \<open>The loop always ends, never panics on a closed graph, and reports true cycles only.\<close>

definition dfs_result ::
    "slug_map \<Rightarrow> (string \<rightharpoonup> mark) \<Rightarrow> (lock_error + (string \<rightharpoonup> mark)) option \<Rightarrow> bool" where
  "dfs_result g marks r \<longleftrightarrow>
     (\<exists>d. r = Some (Inl (Cycle d)) \<and> (d, d) \<in> (edges g)\<^sup>+)
     \<or> (\<exists>m. r = Some (Inr m) \<and> dfs_inv g m [] \<and> dom marks \<subseteq> dom m)"

lemma dfs_result_upd: "dfs_result g (marks(s \<mapsto> k)) r \<Longrightarrow> dfs_result g marks r"
  unfolding dfs_result_def by auto

lemma dfs_loop_correct:
  assumes "dfs_inv g marks stack" "closed_graph g"
  shows "dfs_result g marks (dfs_loop g marks stack)"
  using assms
proof (induction g marks stack rule: dfs_loop.induct)
  case (1 g marks)
  then show ?case by (simp add: dfs_result_def)
next
  case (2 g marks s i stack)
  from 2(4) obtain n where n: "map_of g s = Some n" by (auto simp: dfs_inv_def)
  show ?case
  proof (cases "length (dependencies n) \<le> i")
    case True
    show ?thesis
      unfolding dfs_loop_steps(1) [OF n True]
      by (rule dfs_result_upd [OF 2(1) [OF n True dfs_pop [OF 2(4) n True] 2(5)]])
  next
    case False
    then have i: "i < length (dependencies n)" by simp
    show ?thesis
    proof (cases "marks (dependencies n ! i)")
      case None
      show ?thesis
        unfolding dfs_loop_steps(2) [where marks = marks, OF n i None]
        by (rule dfs_result_upd [OF 2(2) [OF n False refl None dfs_push [OF 2(4) n i None 2(5)] 2(5)]])
    next
      case (Some m)
      show ?thesis
      proof (cases m)
        case Visiting
        with Some dfs_cycle_found [OF 2(4) n i] dfs_loop_steps(4) [where marks = marks, OF n i]
        show ?thesis by (simp add: dfs_result_def)
      next
        case Visited
        with Some have v: "marks (dependencies n ! i) = Some Visited" by simp
        show ?thesis
          unfolding dfs_loop_steps(3) [where marks = marks, OF n i v]
          by (rule 2(3) [OF n False refl Some Visited dfs_advance [OF 2(4) n i v] 2(5)])
      qed
    qed
  qed
qed

lemma dfs_roots_correct:
  assumes "dfs_inv g marks []" "closed_graph g" "set roots \<subseteq> dom (map_of g)"
  shows "(\<exists>d. dfs_roots g marks roots = Some (Inl (Cycle d)) \<and> (d, d) \<in> (edges g)\<^sup>+)
    \<or> dfs_roots g marks roots = Some (Inr ())
      \<and> (\<exists>m. dfs_inv g m [] \<and> set roots \<union> dom marks \<subseteq> dom m)"
  using assms
proof (induction roots arbitrary: marks)
  case Nil
  then show ?case by auto
next
  case (Cons root roots)
  show ?case
  proof (cases "marks root")
    case (Some m)
    then have "root \<in> dom marks" by blast
    then have "set roots \<union> dom marks \<subseteq> dom k \<Longrightarrow> set (root # roots) \<union> dom marks \<subseteq> dom k"
      for k :: "string \<rightharpoonup> mark" by auto
    moreover have "dfs_roots g marks (root # roots) = dfs_roots g marks roots"
      using Some by simp
    moreover have "set roots \<subseteq> dom (map_of g)" using Cons.prems(3) by simp
    note Cons.IH [OF Cons.prems(1,2) this]
    ultimately show ?thesis by metis
  next
    case None
    have "dfs_inv g (marks(root \<mapsto> Visiting)) [(root, 0)]"
      using Cons.prems(1,3) None by (auto simp: dfs_inv_def visited_ok_def)
    from dfs_loop_correct [OF this Cons.prems(2), unfolded dfs_result_def] show ?thesis
    proof (elim disjE exE conjE)
      fix m
      assume m: "dfs_loop g (marks(root \<mapsto> Visiting)) [(root, 0)] = Some (Inr m)" "dfs_inv g m []"
        and dom: "dom (marks(root \<mapsto> Visiting)) \<subseteq> dom m"
      have "insert root (dom marks) \<subseteq> dom m" using dom by simp
      then have "set roots \<union> dom m \<subseteq> dom k \<Longrightarrow> set (root # roots) \<union> dom marks \<subseteq> dom k"
        for k :: "string \<rightharpoonup> mark"
        unfolding list.set by blast
      moreover have "dfs_roots g marks (root # roots) = dfs_roots g m roots"
        using None m(1) by simp
      moreover have "set roots \<subseteq> dom (map_of g)" using Cons.prems(3) by simp
      note Cons.IH [OF m(2) Cons.prems(2) this]
      ultimately show ?thesis by metis
    qed (use None in simp)
  qed
qed

lemma all_visited_acyclic:
  assumes "dfs_inv g m []" "dom (map_of g) \<subseteq> dom m"
  shows "acyclic (edges g)"
proof (rule acyclicI, rule allI, rule notI)
  fix s
  assume c: "(s, s) \<in> (edges g)\<^sup>+"
  then obtain d where "(s, d) \<in> edges g" by (meson tranclD)
  then have "s \<in> dom m" using assms(2) by (auto simp: edges_def)
  then obtain k where k: "m s = Some k" by blast
  have "m s = Some Visited"
  proof (cases k)
    case Visiting
    with k assms(1) show ?thesis by (simp add: dfs_inv_def)
  qed (use k in simp)
  with assms(1) c show False by (auto simp: dfs_inv_def visited_ok_def)
qed

lemma detect_cycle_correct:
  assumes "closed_graph g"
  shows "detect_cycle g = Some (Inr ()) \<longleftrightarrow> acyclic (edges g)"
    and "detect_cycle g = Some (Inr ()) \<or>
      (\<exists>d. detect_cycle g = Some (Inl (Cycle d)) \<and> (d, d) \<in> (edges g)\<^sup>+)"
proof -
  have "dfs_inv g Map.empty []" by (simp add: dfs_inv_def visited_ok_def)
  note r = dfs_roots_correct [OF this assms, of "map fst g"]
  then show "detect_cycle g = Some (Inr ()) \<or>
      (\<exists>d. detect_cycle g = Some (Inl (Cycle d)) \<and> (d, d) \<in> (edges g)\<^sup>+)"
    by (auto simp: detect_cycle_def dom_map_of_conv_image_fst)
  from r show "detect_cycle g = Some (Inr ()) \<longleftrightarrow> acyclic (edges g)"
    using all_visited_acyclic [of g]
    by (auto simp: detect_cycle_def dom_map_of_conv_image_fst acyclic_def)
qed

subsection \<open>Valid graphs\<close>

definition depends :: "lock_node list \<Rightarrow> (string \<times> string) set" where
  "depends ns = {(slug n, d) | n d. n \<in> set ns \<and> d \<in> set (dependencies n)}"

definition valid_nodes :: "lock_node list \<Rightarrow> bool" where
  "valid_nodes ns \<longleftrightarrow>
     length ns \<le> 1024 \<and> distinct (map slug ns)
     \<and> (\<forall>n \<in> set ns. distinct (dependencies n) \<and> set (dependencies n) \<subseteq> slug ` set ns)
     \<and> acyclic (depends ns)"

abbreviation slug_entries :: "lock_node list \<Rightarrow> slug_map" where
  "slug_entries ns \<equiv> map (\<lambda>n. (slug n, n)) ns"

lemma length_remdups_eq: "length (remdups xs) = length xs \<longleftrightarrow> distinct xs"
  by (metis card_distinct distinct_card length_remdups_card_conv)

lemma lookup_slug:
  assumes "distinct (map slug ns)"
  shows "map_of (btree_collect (slug_entries ns)) s = Some n \<longleftrightarrow> n \<in> set ns \<and> slug n = s"
proof -
  have "distinct (map fst (rev (slug_entries ns)))"
    using assms by (simp add: comp_def rev_map [symmetric])
  from map_of_eq_Some_iff [OF this, of s n] show ?thesis
    by (auto simp: btree_collect_facts(1))
qed

lemma lookup_slug_None: "map_of (btree_collect (slug_entries ns)) d = None \<longleftrightarrow> d \<notin> slug ` set ns"
  by (simp add: btree_collect_facts(1) map_of_eq_None_iff image_image)

lemma edges_by_slug:
  assumes "distinct (map slug ns)"
  shows "edges (btree_collect (slug_entries ns)) = depends ns"
  by (auto simp: edges_def depends_def lookup_slug [OF assms])

lemma length_by_slug: "length (btree_collect (slug_entries ns)) = length ns \<longleftrightarrow> distinct (map slug ns)"
  using btree_collect_facts(4) [of "slug_entries ns"] by (simp add: comp_def)

lemma validate_node_ok:
  "validate_node (btree_collect (slug_entries ns)) n = Inr () \<longleftrightarrow>
     slug n \<notin> set (dependencies n) \<and> distinct (dependencies n)
     \<and> set (dependencies n) \<subseteq> slug ` set ns"
  by (auto simp: validate_node_def length_remdups_eq lookup_slug_None)

lemma valid_irreflexive:
  "acyclic (depends ns) \<Longrightarrow> n \<in> set ns \<Longrightarrow> slug n \<notin> set (dependencies n)"
  by (auto simp: acyclic_def depends_def intro: r_into_trancl)

lemma validate_nodes_valid:
  "validate_nodes ns \<noteq> None \<and> (validate_nodes ns = Some (Inr ()) \<longleftrightarrow> valid_nodes ns)"
proof -
  let ?g = "btree_collect (slug_entries ns)"
  show ?thesis
  proof (cases "length ns \<le> 1024 \<and> distinct (map slug ns) \<and> for_each (validate_node ?g) ns = Inr ()")
    case True
    then have ok: "\<forall>n \<in> set ns. slug n \<notin> set (dependencies n) \<and> distinct (dependencies n)
        \<and> set (dependencies n) \<subseteq> slug ` set ns"
      by (simp add: validate_node_ok)
    have e: "edges ?g = depends ns" using True by (simp add: edges_by_slug)
    have "closed_graph ?g"
      using ok by (auto simp: closed_graph_def e lookup_slug_None depends_def)
    note d = detect_cycle_correct [OF this]
    have v: "validate_nodes ns = detect_cycle ?g"
      using True length_by_slug [of ns]
      by (simp add: validate_nodes_def MAX_LOCK_GRAPH_NODES_def Let_def del: for_each_Inr)
    then have "validate_nodes ns \<noteq> None" using d(2) by auto
    moreover have "validate_nodes ns = Some (Inr ()) \<longleftrightarrow> acyclic (depends ns)"
      using d(1) by (simp add: v e)
    ultimately show ?thesis using True ok by (simp add: valid_nodes_def)
  next
    case False
    have "validate_nodes ns \<noteq> None \<and> validate_nodes ns \<noteq> Some (Inr ())"
      using False length_by_slug [of ns]
      by (auto simp: validate_nodes_def MAX_LOCK_GRAPH_NODES_def Let_def simp del: for_each_Inr
          split: sum.splits)
    moreover have "\<not> valid_nodes ns"
      using False valid_irreflexive [of ns] by (auto simp: valid_nodes_def validate_node_ok)
    ultimately show ?thesis by blast
  qed
qed

text \<open>
  C30: validation of a lock graph decides exactly the valid ones and never panics, whatever the
  graph: at most 1024 nodes, distinct slugs, duplicate-free dependencies that all name a node,
  and no dependency cycle. The iterative search therefore ends on every input.
\<close>

theorem validate_nodes_decides:
  "validate_nodes ns \<noteq> None
   \<and> (validate_nodes ns = Some (Inr ()) \<longleftrightarrow>
        length ns \<le> 1024 \<and> distinct (map slug ns)
        \<and> {n. n \<in> set ns \<and> \<not> (distinct (dependencies n) \<and> set (dependencies n) \<subseteq> slug ` set ns)} = {}
        \<and> acyclic {(slug n, d) | n d. n \<in> set ns \<and> d \<in> set (dependencies n)})"
  using validate_nodes_valid [of ns]
  by (auto simp: valid_nodes_def depends_def)

subsection \<open>Canonical order\<close>

lemma canonical_mset:
  assumes "mset ms = mset ns" "distinct (map slug ns)"
  shows "canonicalize_nodes ms = canonicalize_nodes ns"
proof -
  let ?f = "\<lambda>n. n\<lparr>dependencies := sort (dependencies n)\<rparr>"
  have "inj_on slug (?f ` set ns)"
    using assms(2) by (auto simp: distinct_map inj_on_def)
  moreover have "mset (map ?f ms) = mset (map ?f ns)"
    using assms(1) by simp
  moreover have "?f ` set ms = ?f ` set ns"
    using mset_eq_setD [OF assms(1)] by simp
  ultimately show ?thesis
    unfolding canonicalize_nodes_def by (intro sort_key_inj_key_eq) auto
qed

lemma sort_key_id: "sorted (map f xs) \<Longrightarrow> sort_key f xs = xs"
  by (induction xs) (auto simp: insort_is_Cons)

lemma canonical_idem: "canonicalize_nodes (canonicalize_nodes ns) = canonicalize_nodes ns"
proof -
  let ?f = "\<lambda>n. n\<lparr>dependencies := sort (dependencies n)\<rparr>"
  have "map ?f (canonicalize_nodes ns) = canonicalize_nodes ns"
    by (rule map_idI) (auto simp: canonicalize_nodes_def sorted_sort_id)
  then have "canonicalize_nodes (canonicalize_nodes ns) = sort_key slug (canonicalize_nodes ns)"
    by (simp add: canonicalize_nodes_def)
  also have "\<dots> = canonicalize_nodes ns"
    by (rule sort_key_id) (simp add: canonicalize_nodes_def)
  finally show ?thesis .
qed

lemma canonical_form:
  "sorted (map slug (canonicalize_nodes ns))"
  "mset (canonicalize_nodes ns) = image_mset (\<lambda>n. n\<lparr>dependencies := sort (dependencies n)\<rparr>) (mset ns)"
  by (simp_all add: canonicalize_nodes_def)

lemma valid_nodes_mset: "mset ms = mset ns \<Longrightarrow> valid_nodes ms \<longleftrightarrow> valid_nodes ns"
proof -
  assume m: "mset ms = mset ns"
  then have "set ms = set ns" "length ms = length ns" by (auto dest: mset_eq_setD mset_eq_length)
  moreover have "distinct (map slug ms) \<longleftrightarrow> distinct (map slug ns)"
    using m by (metis mset_eq_imp_distinct_iff mset_map)
  ultimately show ?thesis by (simp add: valid_nodes_def depends_def)
qed

lemma validate_Inr:
  "lock_graph_validate digest g = Some (Inr ()) \<longleftrightarrow>
     graph_revision g \<noteq> 0 \<and> valid_nodes (nodes g)
     \<and> digest (graph_revision g) (canonicalize_nodes (nodes g)) = Inr (lock_digest g)"
  using validate_nodes_valid [of "nodes g"]
  by (auto simp: lock_graph_validate_def graph_digest_def split: option.splits sum.splits)

lemma create_Inr:
  "lock_graph_create digest revision ns = Some (Inr g) \<longleftrightarrow>
     revision \<noteq> 0 \<and> valid_nodes (canonicalize_nodes ns)
     \<and> graph_revision g = revision \<and> nodes g = canonicalize_nodes ns
     \<and> digest revision (canonicalize_nodes ns) = Inr (lock_digest g)"
  using validate_nodes_valid [of "canonicalize_nodes ns"]
  by (cases g) (auto simp: lock_graph_create_def graph_digest_def Let_def canonical_idem
      split: option.splits sum.splits)

text \<open>
  C39: a graph that was created holds its nodes in canonical order, sorted by slug with sorted
  dependencies, and carries the digest of exactly these nodes. It validates in whatever order its
  nodes come back from storage, and with no other digest. Conversely any stored graph that validates
  carries the digest of its own nodes in canonical order.
\<close>

theorem created_graph_validates:
  assumes "lock_graph_create digest revision ns = Some (Inr g)" and "mset ms = mset (nodes g)"
  shows "sorted (map slug (nodes g))
    \<and> mset (nodes g) = image_mset (\<lambda>n. n\<lparr>dependencies := sort (dependencies n)\<rparr>) (mset ns)
    \<and> digest revision (nodes g) = Inr (lock_digest g)
    \<and> lock_graph_validate digest (g\<lparr>nodes := ms\<rparr>) = Some (Inr ())
    \<and> (lock_graph_validate digest (g\<lparr>nodes := ms, lock_digest := other\<rparr>) = Some (Inr ())
         \<longleftrightarrow> other = lock_digest g)
    \<and> (\<forall>h. lock_graph_validate digest h = Some (Inr ()) \<longrightarrow> (\<exists>cs. sorted (map slug cs)
         \<and> mset cs = image_mset (\<lambda>n. n\<lparr>dependencies := sort (dependencies n)\<rparr>) (mset (nodes h))
         \<and> digest (graph_revision h) cs = Inr (lock_digest h)))"
proof -
  have g: "revision \<noteq> 0" "valid_nodes (nodes g)" "graph_revision g = revision"
      "nodes g = canonicalize_nodes ns" "digest revision (canonicalize_nodes ns) = Inr (lock_digest g)"
    using assms(1) by (simp_all add: create_Inr)
  have "canonicalize_nodes ms = canonicalize_nodes (nodes g)"
    using g(2) by (intro canonical_mset assms(2)) (simp add: valid_nodes_def)
  then have "canonicalize_nodes ms = nodes g" by (simp add: g(4) canonical_idem)
  moreover have "valid_nodes ms" using g(2) valid_nodes_mset [OF assms(2)] by simp
  ultimately have "lock_graph_validate digest (g\<lparr>nodes := ms\<rparr>) = Some (Inr ())
    \<and> (lock_graph_validate digest (g\<lparr>nodes := ms, lock_digest := other\<rparr>) = Some (Inr ()) \<longleftrightarrow> other = lock_digest g)"
    using g by (auto simp: validate_Inr)
  moreover have "digest (graph_revision h) (canonicalize_nodes (nodes h)) = Inr (lock_digest h)"
    if "lock_graph_validate digest h = Some (Inr ())" for h
    using that by (simp add: validate_Inr)
  ultimately show ?thesis using canonical_form g by metis
qed

definition example_nodes :: "lock_node list" where
  "example_nodes =
     [\<lparr>slug = ''pages'', version = ''1'', payload_digest = ''p'', manifest_digest = ''m'',
       dependencies = [''core'']\<rparr>,
      \<lparr>slug = ''core'', version = ''1'', payload_digest = ''p'', manifest_digest = ''m'',
       dependencies = []\<rparr>]"

lemma created_graph_validates_witness:
  "lock_graph_validate (\<lambda>r ns. Inr (concat (map slug ns)))
     \<lparr>graph_revision = 1, lock_digest = ''corepages'', nodes = example_nodes\<rparr> = Some (Inr ())"
proof -
  let ?d = "\<lambda>r ns. Inr (concat (map slug ns))"
  have c: "canonicalize_nodes example_nodes = rev example_nodes"
    by (simp add: canonicalize_nodes_def example_nodes_def less_eq_list_code less_list_code)
  have "depends (rev example_nodes)
      = (\<Union>n \<in> set (rev example_nodes). Pair (slug n) ` set (dependencies n))"
    by (auto simp: depends_def)
  then have "depends (rev example_nodes) = {(''pages'', ''core'')}"
    by (simp add: example_nodes_def)
  then have "acyclic (depends (rev example_nodes))"
    by (simp add: acyclic_insert) (simp add: acyclic_def)
  then have "valid_nodes (rev example_nodes)"
    unfolding valid_nodes_def by (simp add: example_nodes_def)
  then have "lock_graph_create ?d 1 example_nodes = Some (Inr
      \<lparr>graph_revision = 1, lock_digest = ''corepages'', nodes = rev example_nodes\<rparr>)"
    by (simp add: create_Inr c) (simp add: example_nodes_def)
  from created_graph_validates [OF this, of example_nodes] show ?thesis by simp
qed

end
