(* ===== verification/Wave_Rollout.thy ===== *)
theory Wave_Rollout
  imports Ports
begin

text \<open>
  The coordinator of canary and wave rollouts
  (\<open>crates/modules/rustok-modules/src/wave_rollout.rs\<close>). Every operation takes the coordinator
  and returns it changed, or an error that leaves it as it was. Indexing past the cohorts panics;
  the one place where the source does not check the index first returns \<open>None\<close> there.
\<close>

datatype wave_phase = PreStaging | PreStaged | Mutating | Verified | RolledBack

record wave_assignment =
  node_id :: string
  role :: string
  candidate_digest :: string
  predecessor_digest :: "string option"
  pre_staged_candidate :: bool
  pre_staged_predecessor :: bool
  phase :: wave_phase

record wave_cohort =
  wave_index :: nat
  cohort_name :: string
  assignments :: "wave_assignment list"

datatype wave_state =
    StPreparing | StPreStaged | StMutatingWave nat | StVerifiedWave nat | StConverged | StRolledBack

record wave_rollout =
  rollout_id :: uuid
  cohorts :: "wave_cohort list"
  rollout_state :: wave_state
  recovery_attempts :: u32

record wave_rollback_receipt =
  receipt_rollout_id :: uuid
  reverted_cohort_count :: nat
  untouched_cohort_count :: nat
  recovery_attempts_consumed :: u32

datatype wave_error =
    PreStagingBarrierNotMet string
  | InvalidState wave_state
  | InvalidWaveIndex nat nat
  | PreviousWaveNotVerified nat
  | RecoveryExhausted
  | NoPredecessorAvailable nat

definition is_fully_pre_staged :: "wave_assignment \<Rightarrow> bool" where
  "is_fully_pre_staged a \<longleftrightarrow>
     pre_staged_candidate a \<and> (predecessor_digest a = None \<or> pre_staged_predecessor a)"

definition wave_rollout_new :: "uuid \<Rightarrow> wave_cohort list \<Rightarrow> wave_rollout" where
  "wave_rollout_new i cs =
     \<lparr>rollout_id = i, cohorts = cs, rollout_state = StPreparing, recovery_attempts = 0\<rparr>"

definition all_assignments :: "wave_rollout \<Rightarrow> wave_assignment list" where
  "all_assignments w = concat (map assignments (cohorts w))"

definition check_all_nodes_pre_staged :: "wave_rollout \<Rightarrow> bool" where
  "check_all_nodes_pre_staged w \<longleftrightarrow> list_all is_fully_pre_staged (all_assignments w)"

definition report_assignment :: "string \<Rightarrow> bool \<Rightarrow> bool \<Rightarrow> wave_assignment \<Rightarrow> wave_assignment" where
  "report_assignment node cand_ok pred_ok a =
     (if node_id a = node then
        let a = a\<lparr>pre_staged_candidate := cand_ok, pre_staged_predecessor := pred_ok\<rparr> in
        if is_fully_pre_staged a \<and> phase a = PreStaging then a\<lparr>phase := PreStaged\<rparr> else a
      else a)"

definition map_cohort :: "(wave_assignment \<Rightarrow> wave_assignment) \<Rightarrow> wave_cohort \<Rightarrow> wave_cohort" where
  "map_cohort f c = c\<lparr>assignments := map f (assignments c)\<rparr>"

definition report_node_pre_staged :: "string \<Rightarrow> bool \<Rightarrow> bool \<Rightarrow> wave_rollout \<Rightarrow> wave_rollout" where
  "report_node_pre_staged node cand_ok pred_ok w =
     (let w = w\<lparr>cohorts := map (map_cohort (report_assignment node cand_ok pred_ok)) (cohorts w)\<rparr> in
      if rollout_state w = StPreparing \<and> check_all_nodes_pre_staged w
      then w\<lparr>rollout_state := StPreStaged\<rparr> else w)"

definition verify_dual_pre_staging_barrier :: "wave_rollout \<Rightarrow> wave_error + unit" where
  "verify_dual_pre_staging_barrier w =
     for_each (\<lambda>a. if \<not> is_fully_pre_staged a then Inl (PreStagingBarrierNotMet (node_id a))
                   else Inr ())
       (all_assignments w)"

definition set_cohort_phase :: "nat \<Rightarrow> wave_phase \<Rightarrow> wave_rollout \<Rightarrow> wave_rollout" where
  "set_cohort_phase i p w =
     w\<lparr>cohorts := (cohorts w)[i := map_cohort (\<lambda>a. a\<lparr>phase := p\<rparr>) (cohorts w ! i)]\<rparr>"

definition start_wave_mutation :: "nat \<Rightarrow> wave_rollout \<Rightarrow> wave_error + wave_rollout" where
  "start_wave_mutation i w =
     rbind (ensure (i < length (cohorts w)) (InvalidWaveIndex i (length (cohorts w)))) (\<lambda>_.
     rbind (verify_dual_pre_staging_barrier w) (\<lambda>_.
     rbind (if i = 0 then ensure (rollout_state w = StPreStaged) (InvalidState (rollout_state w))
            else ensure (rollout_state w = StVerifiedWave (i - 1)) (PreviousWaveNotVerified (i - 1)))
       (\<lambda>_. Inr ((set_cohort_phase i Mutating w)\<lparr>rollout_state := StMutatingWave i\<rparr>))))"

definition verify_wave :: "nat \<Rightarrow> wave_rollout \<Rightarrow> (wave_error + wave_rollout) option" where
  "verify_wave i w =
     (if rollout_state w \<noteq> StMutatingWave i then Some (Inl (InvalidState (rollout_state w)))
      else if length (cohorts w) \<le> i then None
      else Some (Inr ((set_cohort_phase i Verified w)\<lparr>rollout_state :=
        (if i + 1 = length (cohorts w) then StConverged else StVerifiedWave i)\<rparr>)))"

definition check_predecessors :: "nat \<Rightarrow> wave_cohort \<Rightarrow> wave_error + unit" where
  "check_predecessors i c =
     for_each (\<lambda>a. if predecessor_digest a = None then Inl (NoPredecessorAvailable i) else Inr ())
       (assignments c)"

definition rollback_all_mutated_waves ::
    "nat \<Rightarrow> wave_rollout \<Rightarrow> wave_error + (wave_rollout \<times> wave_rollback_receipt)" where
  "rollback_all_mutated_waves failed w =
     rbind (ensure (recovery_attempts w < 1) RecoveryExhausted) (\<lambda>_.
     rbind (ensure (failed < length (cohorts w)) (InvalidWaveIndex failed (length (cohorts w)))) (\<lambda>_.
     rbind (for_each (\<lambda>i. check_predecessors i (cohorts w ! i)) [0..<failed + 1]) (\<lambda>_.
     let w' = (foldl (\<lambda>w i. set_cohort_phase i RolledBack w) w [0..<failed + 1])
                \<lparr>recovery_attempts := recovery_attempts w + 1, rollout_state := StRolledBack\<rparr> in
     Inr (w', \<lparr>receipt_rollout_id = rollout_id w, reverted_cohort_count = failed + 1,
               untouched_cohort_count = length (cohorts w) - (failed + 1),
               recovery_attempts_consumed = recovery_attempts w'\<rparr>))))"

subsection \<open>Runs\<close>

datatype wave_operation =
    Report string bool bool
  | StartMutation nat
  | VerifyWave nat
  | Rollback nat

fun wave_exec :: "wave_operation \<Rightarrow> wave_rollout \<Rightarrow> wave_rollout option" where
  "wave_exec (Report node c p) w = Some (report_node_pre_staged node c p w)"
| "wave_exec (StartMutation i) w =
     Some (case start_wave_mutation i w of Inl _ \<Rightarrow> w | Inr w' \<Rightarrow> w')"
| "wave_exec (VerifyWave i) w =
     (case verify_wave i w of None \<Rightarrow> None | Some (Inl _) \<Rightarrow> Some w | Some (Inr w') \<Rightarrow> Some w')"
| "wave_exec (Rollback i) w =
     Some (case rollback_all_mutated_waves i w of Inl _ \<Rightarrow> w | Inr (w', _) \<Rightarrow> w')"

inductive wave_step :: "wave_rollout \<Rightarrow> wave_rollout \<Rightarrow> bool" where
  wave_stepI: "wave_exec op w = Some w' \<Longrightarrow> wave_step w w'"

inductive_cases wave_stepE: "wave_step w w'"

text \<open>A rollout starts with every node of every cohort still to be pre-staged.\<close>

definition wave_init :: "wave_rollout \<Rightarrow> bool" where
  "wave_init w \<longleftrightarrow>
     (\<exists>i cs. w = wave_rollout_new i cs \<and>
        (\<forall>c \<in> set cs. \<forall>a \<in> set (assignments c). phase a = PreStaging))"

subsection \<open>Which waves are touched\<close>

definition cohort_in :: "wave_phase set \<Rightarrow> wave_cohort \<Rightarrow> bool" where
  "cohort_in P c \<longleftrightarrow> (\<forall>a \<in> set (assignments c). phase a \<in> P)"

abbreviation untouched :: "wave_cohort \<Rightarrow> bool" where
  "untouched \<equiv> cohort_in {PreStaging, PreStaged}"

definition waves_in :: "wave_rollout \<Rightarrow> nat \<Rightarrow> nat \<Rightarrow> wave_phase set \<Rightarrow> bool" where
  "waves_in w l u P \<longleftrightarrow> (\<forall>i. l \<le> i \<longrightarrow> i < u \<longrightarrow> i < length (cohorts w) \<longrightarrow> cohort_in P (cohorts w ! i))"

abbreviation fresh_phases :: "wave_phase set" where
  "fresh_phases \<equiv> {PreStaging, PreStaged}"

fun wave_layout :: "wave_state \<Rightarrow> wave_rollout \<Rightarrow> bool" where
  "wave_layout StPreparing w = waves_in w 0 (length (cohorts w)) fresh_phases"
| "wave_layout StPreStaged w = waves_in w 0 (length (cohorts w)) fresh_phases"
| "wave_layout (StMutatingWave k) w =
     (k < length (cohorts w) \<and> waves_in w 0 k {Verified} \<and> waves_in w k (Suc k) {Mutating}
      \<and> waves_in w (Suc k) (length (cohorts w)) fresh_phases)"
| "wave_layout (StVerifiedWave k) w =
     (Suc k < length (cohorts w) \<and> waves_in w 0 (Suc k) {Verified}
      \<and> waves_in w (Suc k) (length (cohorts w)) fresh_phases)"
| "wave_layout StConverged w = waves_in w 0 (length (cohorts w)) {Verified}"
| "wave_layout StRolledBack w = True"

definition wave_inv :: "wave_rollout \<Rightarrow> bool" where
  "wave_inv w \<longleftrightarrow> wave_layout (rollout_state w) w
     \<and> (recovery_attempts w = 0 \<or> recovery_attempts w = 1 \<and> rollout_state w = StRolledBack)"

lemma cohort_in_map:
  "cohort_in P (map_cohort f c) \<longleftrightarrow> (\<forall>a \<in> set (assignments c). phase (f a) \<in> P)"
  by (simp add: cohort_in_def map_cohort_def)

lemma cohorts_set_phase [simp]:
  "length (cohorts (set_cohort_phase i p w)) = length (cohorts w)"
  "j < length (cohorts w) \<Longrightarrow> cohorts (set_cohort_phase i p w) ! j =
     (if i = j then map_cohort (\<lambda>a. a\<lparr>phase := p\<rparr>) (cohorts w ! j) else cohorts w ! j)"
  by (auto simp: set_cohort_phase_def nth_list_update)

lemma set_phase_frame [simp]:
  "rollout_state (set_cohort_phase i p w) = rollout_state w"
  "recovery_attempts (set_cohort_phase i p w) = recovery_attempts w"
  "rollout_id (set_cohort_phase i p w) = rollout_id w"
  by (simp_all add: set_cohort_phase_def)

lemma report_phase_cases:
  "phase (report_assignment n c p a) = phase a
   \<or> phase a = PreStaging \<and> phase (report_assignment n c p a) = PreStaged"
  by (auto simp: report_assignment_def Let_def)

lemma cohort_in_report:
  assumes "cohort_in P c" "PreStaging \<in> P \<longrightarrow> PreStaged \<in> P"
  shows "cohort_in P (map_cohort (report_assignment n cand pred) c)"
  unfolding cohort_in_map
proof
  fix a
  assume "a \<in> set (assignments c)"
  with assms(1) have "phase a \<in> P" by (simp add: cohort_in_def)
  with assms(2) report_phase_cases [of n cand pred a]
  show "phase (report_assignment n cand pred a) \<in> P" by auto
qed

lemma wave_layout_report:
  "wave_layout st w \<Longrightarrow>
   wave_layout st (w\<lparr>cohorts := map (map_cohort (report_assignment n c p)) (cohorts w)\<rparr>)"
  by (cases st) (auto simp: waves_in_def cohort_in_report)

lemma wave_layout_state: "wave_layout st (w\<lparr>rollout_state := s\<rparr>) = wave_layout st w"
  by (cases st) (simp_all add: waves_in_def)

lemma wave_inv_report: "wave_inv w \<Longrightarrow> wave_inv (report_node_pre_staged n c p w)"
  using wave_layout_report [of "rollout_state w" w n c p]
  by (auto simp: wave_inv_def report_node_pre_staged_def Let_def wave_layout_state)

lemma start_Inr:
  "start_wave_mutation i w = Inr w' \<longleftrightarrow>
     i < length (cohorts w) \<and> (\<forall>a \<in> set (all_assignments w). is_fully_pre_staged a)
     \<and> rollout_state w = (if i = 0 then StPreStaged else StVerifiedWave (i - 1))
     \<and> w' = (set_cohort_phase i Mutating w)\<lparr>rollout_state := StMutatingWave i\<rparr>"
  by (auto simp: start_wave_mutation_def verify_dual_pre_staging_barrier_def split: if_splits)

lemma wave_inv_start: "wave_inv w \<Longrightarrow> start_wave_mutation i w = Inr w' \<Longrightarrow> wave_inv w'"
  by (cases i) (auto simp: start_Inr wave_inv_def wave_layout_state waves_in_def cohort_in_map)

lemma wave_inv_verify: "wave_inv w \<Longrightarrow> verify_wave i w = Some (Inr w') \<Longrightarrow> wave_inv w'"
  by (auto simp: verify_wave_def wave_inv_def wave_layout_state waves_in_def cohort_in_map less_Suc_eq
      split: if_splits)

lemma rolled_back_cohorts:
  "n \<le> length (cohorts w) \<Longrightarrow> j < length (cohorts w) \<Longrightarrow>
   length (cohorts (foldl (\<lambda>w i. set_cohort_phase i p w) w [0..<n])) = length (cohorts w)
   \<and> cohorts (foldl (\<lambda>w i. set_cohort_phase i p w) w [0..<n]) ! j =
     (if j < n then map_cohort (\<lambda>a. a\<lparr>phase := p\<rparr>) (cohorts w ! j) else cohorts w ! j)"
  by (induction n) (auto simp: less_Suc_eq)

lemma rolled_back_frame [simp]:
  "recovery_attempts (foldl (\<lambda>w i. set_cohort_phase i p w) w is) = recovery_attempts w"
  by (induction "is" arbitrary: w) simp_all

lemma attempts_lt_1: "(n :: u32) < 1 \<longleftrightarrow> n = 0"
  by (metis word_less_1)

lemma rollback_Inr:
  "rollback_all_mutated_waves k w = Inr (w', r) \<longleftrightarrow>
     recovery_attempts w = 0 \<and> k < length (cohorts w)
     \<and> (\<forall>i \<le> k. \<forall>a \<in> set (assignments (cohorts w ! i)). predecessor_digest a \<noteq> None)
     \<and> w' = (foldl (\<lambda>w i. set_cohort_phase i RolledBack w) w [0..<Suc k])
              \<lparr>recovery_attempts := 1, rollout_state := StRolledBack\<rparr>
     \<and> r = \<lparr>receipt_rollout_id = rollout_id w, reverted_cohort_count = Suc k,
            untouched_cohort_count = length (cohorts w) - Suc k, recovery_attempts_consumed = 1\<rparr>"
  by (auto simp: rollback_all_mutated_waves_def check_predecessors_def Let_def attempts_lt_1
      less_Suc_eq_le simp del: upt_Suc)

lemma wave_inv_rollback:
  "wave_inv w \<Longrightarrow> rollback_all_mutated_waves k w = Inr (w', r) \<Longrightarrow> wave_inv w'"
  by (simp add: rollback_Inr wave_inv_def)

lemma wave_inv_step: "wave_inv w \<Longrightarrow> wave_step w w' \<Longrightarrow> wave_inv w'"
proof (erule wave_stepE)
  fix op
  assume "wave_inv w" "wave_exec op w = Some w'"
  then show "wave_inv w'"
    by (cases op)
      (auto simp: wave_inv_report intro: wave_inv_start wave_inv_verify wave_inv_rollback
        split: sum.splits option.splits)
qed

interpretation rollout_run: transition_invariant wave_init wave_step "\<lambda>_. True" "\<lambda>_. wave_inv"
proof
  show "wave_inv w" if "wave_init w" for w
    using that
    by (auto simp: wave_init_def wave_rollout_new_def wave_inv_def waves_in_def cohort_in_def
        dest!: nth_mem)
qed (auto intro: wave_inv_step)

subsection \<open>Properties\<close>

text \<open>
  C21: waves are mutated one after the other, the canary first. In every reachable rollout, while
  wave \<open>k\<close> is mutating, the waves before it are verified and those after it untouched; after it
  verified the same holds with \<open>k\<close> verified; a converged rollout has verified every wave; and a
  wave starts to mutate only when every node of every wave has both bundles pre-staged.
\<close>

theorem waves_in_order:
  assumes "reachable wave_init wave_step n w"
  shows "(rollout_state w = StMutatingWave k \<longrightarrow>
       k < length (cohorts w) \<and> waves_in w 0 k {Verified} \<and> waves_in w k (Suc k) {Mutating}
       \<and> waves_in w (Suc k) (length (cohorts w)) {PreStaging, PreStaged})
    \<and> (rollout_state w = StVerifiedWave k \<longrightarrow>
       waves_in w 0 (Suc k) {Verified} \<and> waves_in w (Suc k) (length (cohorts w)) {PreStaging, PreStaged})
    \<and> (rollout_state w = StConverged \<longrightarrow> waves_in w 0 (length (cohorts w)) {Verified})
    \<and> (start_wave_mutation k w = Inr w' \<longrightarrow> list_all is_fully_pre_staged (all_assignments w))
    \<and> verify_wave k w \<noteq> None"
proof -
  have "wave_inv w" using assms by (rule rollout_run.reachable_inv) simp
  then have l: "wave_layout (rollout_state w) w" by (simp add: wave_inv_def)
  then have "verify_wave k w \<noteq> None" by (auto simp: verify_wave_def)
  with l show ?thesis by (auto simp: start_Inr list_all_iff)
qed

text \<open>
  C38: a rollback reverts the waves up to the one it names and no others. While wave \<open>k\<close> is mutating,
  a rollback that names any wave \<open>j\<close> succeeds as soon as the nodes of the waves up to \<open>j\<close> have a
  predecessor. It declares the rollout rolled back, its receipt counts every wave once, and no second
  rollback is possible. The waves after \<open>j\<close> stay as they are: naming wave \<open>k\<close> reverts exactly the
  touched waves, but naming an earlier one leaves those in between verified and wave \<open>k\<close> mutating.
\<close>

theorem rollback_reverts_named_waves:
  assumes "reachable wave_init wave_step n w" and "rollout_state w = StMutatingWave k" and "j < length (cohorts w)"
    and "\<forall>c \<in> set (take (Suc j) (cohorts w)). \<forall>a \<in> set (assignments c). predecessor_digest a \<noteq> None"
  shows "\<exists>w' r. rollback_all_mutated_waves j w = Inr (w', r)
    \<and> rollout_state w' = StRolledBack \<and> length (cohorts w') = length (cohorts w)
    \<and> reverted_cohort_count r = Suc j \<and> untouched_cohort_count r = length (cohorts w) - Suc j
    \<and> waves_in w' 0 (Suc j) {RolledBack}
    \<and> drop (Suc j) (cohorts w') = drop (Suc j) (cohorts w)
    \<and> waves_in w' (Suc j) k {Verified} \<and> waves_in w' (max k (Suc j)) (Suc k) {Mutating}
    \<and> waves_in w' (max (Suc k) (Suc j)) (length (cohorts w')) {PreStaging, PreStaged}
    \<and> (\<forall>j'. rollback_all_mutated_waves j' w' = Inl RecoveryExhausted)"
proof -
  have "wave_inv w" using assms(1) by (rule rollout_run.reachable_inv) simp
  with assms(2) have l: "wave_layout (StMutatingWave k) w" and fresh: "recovery_attempts w = 0"
    by (simp_all add: wave_inv_def)
  have "predecessor_digest a \<noteq> None" if "i \<le> j" "a \<in> set (assignments (cohorts w ! i))" for i a
    using assms(3,4) that nth_mem [of i "take (Suc j) (cohorts w)"] by simp
  then obtain w' r where run: "rollback_all_mutated_waves j w = Inr (w', r)"
    using assms(3) fresh rollback_Inr [of j w] by blast
  have r: "j < length (cohorts w)" "recovery_attempts w' = 1" "rollout_state w' = StRolledBack"
      "cohorts w' = cohorts (foldl (\<lambda>w i. set_cohort_phase i RolledBack w) w [0..<Suc j])"
      "reverted_cohort_count r = Suc j" "untouched_cohort_count r = length (cohorts w) - Suc j"
    using run by (simp_all add: rollback_Inr)
  have c: "length (cohorts w') = length (cohorts w)"
      "i < length (cohorts w) \<Longrightarrow> cohorts w' ! i =
        (if i < Suc j then map_cohort (\<lambda>a. a\<lparr>phase := RolledBack\<rparr>) (cohorts w ! i) else cohorts w ! i)" for i
    using rolled_back_cohorts [of "Suc j" w _ RolledBack] r(1) unfolding r(4)
    by (auto simp del: upt_Suc)
  have "waves_in w' 0 (Suc j) {RolledBack}"
    by (simp add: waves_in_def c cohort_in_map)
  moreover have "drop (Suc j) (cohorts w') = drop (Suc j) (cohorts w)"
    by (rule nth_equalityI) (simp_all add: c)
  moreover have "waves_in w' (Suc j) k {Verified}" "waves_in w' (max k (Suc j)) (Suc k) {Mutating}"
    "waves_in w' (max (Suc k) (Suc j)) (length (cohorts w')) {PreStaging, PreStaged}"
    using l by (auto simp: waves_in_def c)
  moreover have "rollback_all_mutated_waves j' w' = Inl RecoveryExhausted" for j'
    by (simp add: rollback_all_mutated_waves_def r(2))
  ultimately show ?thesis using run r c(1) by blast
qed

subsection \<open>Two waves\<close>

definition example_cohort :: "nat \<Rightarrow> string \<Rightarrow> wave_cohort" where
  "example_cohort i node =
     \<lparr>wave_index = i, cohort_name = node,
      assignments = [\<lparr>node_id = node, role = ''web'', candidate_digest = ''c'',
        predecessor_digest = Some ''p'', pre_staged_candidate = False,
        pre_staged_predecessor = False, phase = PreStaging\<rparr>]\<rparr>"

definition example_rollout :: wave_rollout where
  "example_rollout = wave_rollout_new 1 [example_cohort 0 ''a'', example_cohort 1 ''b'']"

definition example_ops :: "wave_operation list" where
  "example_ops = [Report ''a'' True True, Report ''b'' True True, StartMutation 0, VerifyWave 0,
     StartMutation 1]"

fun wave_run :: "wave_operation list \<Rightarrow> wave_rollout \<Rightarrow> wave_rollout option" where
  "wave_run [] w = Some w"
| "wave_run (op # ops) w = (case wave_exec op w of None \<Rightarrow> None | Some w' \<Rightarrow> wave_run ops w')"

lemma wave_run_reachable:
  "reachable wave_init wave_step n w \<Longrightarrow> wave_run ops w = Some w' \<Longrightarrow>
   reachable wave_init wave_step (n + length ops) w'"
proof (induction ops arbitrary: n w)
  case Nil
  then show ?case by simp
next
  case (Cons op ops)
  from Cons.prems(2) obtain u where "wave_exec op w = Some u" "wave_run ops u = Some w'"
    by (auto split: option.splits)
  with Cons.IH [of "Suc n" u] Cons.prems(1) show ?case
    by (auto intro: reachable.next_step wave_stepI)
qed

definition example_mutating :: wave_rollout where
  "example_mutating =
     example_rollout\<lparr>rollout_state := StMutatingWave 1,
       cohorts := [map_cohort (\<lambda>a. a\<lparr>pre_staged_candidate := True, pre_staged_predecessor := True,
                     phase := Verified\<rparr>) (example_cohort 0 ''a''),
                   map_cohort (\<lambda>a. a\<lparr>pre_staged_candidate := True, pre_staged_predecessor := True,
                     phase := Mutating\<rparr>) (example_cohort 1 ''b'')]\<rparr>"

lemma example_run: "wave_run example_ops example_rollout = Some example_mutating"
  by code_simp

lemma example_reachable: "reachable wave_init wave_step 5 example_mutating"
proof -
  have "wave_init example_rollout"
    by (auto simp: wave_init_def example_rollout_def wave_rollout_new_def example_cohort_def)
  then have "reachable wave_init wave_step 0 example_rollout" by (rule reachable.start)
  from wave_run_reachable [OF this example_run] show ?thesis
    by (simp add: example_ops_def numeral_eq_Suc)
qed

lemma waves_in_order_witness:
  "waves_in example_mutating 0 1 {Verified} \<and> waves_in example_mutating 1 2 {Mutating}"
  using waves_in_order [OF example_reachable, of 1]
  by (simp add: example_mutating_def numeral_2_eq_2)

lemma rollback_reverts_named_waves_witness:
  "\<exists>w r. rollback_all_mutated_waves 0 example_mutating = Inr (w, r)
     \<and> rollout_state w = StRolledBack \<and> waves_in w 1 2 {Mutating}"
proof -
  have "rollout_state example_mutating = StMutatingWave 1" "0 < length (cohorts example_mutating)"
    "\<forall>c \<in> set (take (Suc 0) (cohorts example_mutating)). \<forall>a \<in> set (assignments c). predecessor_digest a \<noteq> None"
    by (simp_all add: example_mutating_def map_cohort_def example_cohort_def)
  from rollback_reverts_named_waves [OF example_reachable this] show ?thesis
    by (simp add: numeral_2_eq_2) blast
qed

end
