(* ===== verification/Outbox_Relay.thy ===== *)
theory Outbox_Relay
  imports Ports
begin

text \<open>
  The relay of the transactional outbox (\<open>crates/modules/rustok-outbox/src/relay.rs\<close> over the
  table of \<open>entity.rs\<close>). The table is the list of its rows; a statement or a transaction of
  the source is one function on it, so transactions are serial here as their isolation makes
  them. Instants and durations are nanoseconds. What the relay only calls is an argument: the
  two JSON decodings, the registered-schema check and the transport's publication. Database
  failures, which end an operation with an error and change nothing, are left out.
\<close>

datatype event_status = Pending | Dispatched | Failed

record 'p event_row =
  row_id :: uuid
  row_event_type :: string
  row_schema_version :: int
  payload :: 'p
  status :: event_status
  retry_count :: int
  next_attempt_at :: "int option"
  last_error :: "string option"
  claimed_by :: "string option"
  claimed_at :: "int option"
  created_at :: int
  dispatched_at :: "int option"

record relay_config =
  batch_size :: nat
  max_attempts :: int
  backoff_base :: nat
  backoff_max :: nat
  max_concurrency :: nat
  claim_ttl :: nat
  worker_id :: string

record relay_metrics =
  success_total :: u64
  failure_total :: u64
  retry_total :: u64
  dlq_total :: u64
  latency_ms_total :: u64
  processed_total :: u64

datatype relay_error =
    InvalidIdFormat string
  | DatabaseError string
  | SerializationError string
  | AuthError string
  | NotFoundError string
  | ForbiddenError string
  | CacheError string
  | ScriptingError string
  | ValidationError string
  | InternalError string
  | ExternalError string

primrec error_to_string :: "relay_error \<Rightarrow> string" where
  "error_to_string (InvalidIdFormat s) = ''Invalid ID format: '' @ s"
| "error_to_string (DatabaseError s) = ''Database error: '' @ s"
| "error_to_string (SerializationError s) = ''Serialization error: '' @ s"
| "error_to_string (AuthError s) = ''Auth error: '' @ s"
| "error_to_string (NotFoundError s) = ''Not found: '' @ s"
| "error_to_string (ForbiddenError s) = ''Permission denied: '' @ s"
| "error_to_string (CacheError s) = ''Cache error: '' @ s"
| "error_to_string (ScriptingError s) = ''Scripting error: '' @ s"
| "error_to_string (ValidationError s) = ''Validation error: '' @ s"
| "error_to_string (InternalError s) = ''Internal error: '' @ s"
| "error_to_string (ExternalError s) = ''External error: '' @ s"

type_synonym 'p event_table = "'p event_row list"

definition relay_config_default :: "string \<Rightarrow> relay_config" where
  "relay_config_default worker =
     \<lparr>batch_size = 100, max_attempts = 5, backoff_base = 10 ^ 9, backoff_max = 60 * 10 ^ 9,
      max_concurrency = 8, claim_ttl = 60 * 10 ^ 9, worker_id = worker\<rparr>"

definition metrics_default :: relay_metrics where
  "metrics_default =
     \<lparr>success_total = 0, failure_total = 0, retry_total = 0, dlq_total = 0,
      latency_ms_total = 0, processed_total = 0\<rparr>"

definition validate_config :: "relay_config \<Rightarrow> relay_error + unit" where
  "validate_config cfg =
     rbind (ensure (batch_size cfg \<noteq> 0)
       (ValidationError ''outbox relay batch_size must be greater than zero'')) (\<lambda>_.
     rbind (ensure (0 < max_attempts cfg)
       (ValidationError ''outbox relay max_attempts must be greater than zero'')) (\<lambda>_.
     rbind (ensure (max_concurrency cfg \<noteq> 0)
       (ValidationError ''outbox relay max_concurrency must be greater than zero'')) (\<lambda>_.
     rbind (ensure (claim_ttl cfg \<noteq> 0)
       (ValidationError ''outbox relay claim_ttl must be greater than zero'')) (\<lambda>_.
     ensure (trim (worker_id cfg) \<noteq> [])
       (ValidationError ''outbox relay worker_id must not be empty'')))))"

subsection \<open>Claiming\<close>

text \<open>\<open>chrono::Duration::from_std\<close> accepts at most \<open>i64::MAX\<close> milliseconds.\<close>

definition chrono_from_std :: "nat \<Rightarrow> int option" where
  "chrono_from_std d = (if int d \<le> i64_max * 10 ^ 6 then Some (int d) else None)"

definition stale_before :: "relay_config \<Rightarrow> int \<Rightarrow> int" where
  "stale_before cfg now =
     now - (case chrono_from_std (claim_ttl cfg) of Some d \<Rightarrow> d | None \<Rightarrow> 60 * 10 ^ 9)"

definition claimable :: "relay_config \<Rightarrow> int \<Rightarrow> 'p event_row \<Rightarrow> bool" where
  "claimable cfg now r \<longleftrightarrow>
     status r = Pending
     \<and> (case next_attempt_at r of None \<Rightarrow> True | Some t \<Rightarrow> t \<le> now)
     \<and> (case claimed_at r of None \<Rightarrow> True | Some t \<Rightarrow> t \<le> stale_before cfg now)"

definition claim_row :: "relay_config \<Rightarrow> int \<Rightarrow> 'p event_row \<Rightarrow> 'p event_row" where
  "claim_row cfg now r = r\<lparr>claimed_by := Some (worker_id cfg), claimed_at := Some now\<rparr>"

definition claim_batch ::
    "relay_config \<Rightarrow> int \<Rightarrow> nat \<Rightarrow> 'p event_table \<Rightarrow> 'p event_table \<times> 'p event_row list" where
  "claim_batch cfg now n table =
     (let candidates = take n (sort_key created_at (filter (claimable cfg now) table));
          ids = map row_id candidates in
      if ids = [] then (table, [])
      else
        let table' = map (\<lambda>r. if row_id r \<in> set ids \<and> claimable cfg now r
                              then claim_row cfg now r else r) table in
        (table', filter (\<lambda>r. row_id r \<in> set ids \<and> status r = Pending
                   \<and> claimed_by r = Some (worker_id cfg) \<and> claimed_at r = Some now) table'))"

subsection \<open>Completing an attempt\<close>

text \<open>
  The condition of the completing updates. An equality with a \<open>NULL\<close> of the snapshot matches
  no row.
\<close>

definition owns :: "'p event_row \<Rightarrow> 'p event_row \<Rightarrow> bool" where
  "owns m r \<longleftrightarrow>
     row_id r = row_id m \<and> status r = Pending
     \<and> claimed_by r \<noteq> None \<and> claimed_by r = claimed_by m
     \<and> claimed_at r \<noteq> None \<and> claimed_at r = claimed_at m"

definition update_many ::
    "('p event_row \<Rightarrow> bool) \<Rightarrow> ('p event_row \<Rightarrow> 'p event_row) \<Rightarrow> 'p event_table
     \<Rightarrow> 'p event_table \<times> nat" where
  "update_many P f table = (map (\<lambda>r. if P r then f r else r) table, length (filter P table))"

definition ensure_claim_owned :: "(uuid \<Rightarrow> string) \<Rightarrow> uuid \<Rightarrow> nat \<Rightarrow> relay_error + unit" where
  "ensure_claim_owned show_uuid i rows_affected =
     (if rows_affected = 1 then Inr ()
      else Inl (ExternalError (''outbox event '' @ show_uuid i @ '' claim was lost before completion'')))"

definition dispatched_row :: "int \<Rightarrow> 'p event_row \<Rightarrow> 'p event_row" where
  "dispatched_row now r =
     r\<lparr>status := Dispatched, dispatched_at := Some now, claimed_by := None, claimed_at := None,
       last_error := None, next_attempt_at := None\<rparr>"

definition mark_dispatched ::
    "(uuid \<Rightarrow> string) \<Rightarrow> int \<Rightarrow> 'p event_row \<Rightarrow> 'p event_table \<Rightarrow> 'p event_table \<times> (relay_error + unit)" where
  "mark_dispatched show_uuid now m table =
     (let (table', n) = update_many (owns m) (dispatched_row now) table in
      (table', ensure_claim_owned show_uuid (row_id m) n))"

text \<open>
  \<open>backoff_duration\<close>: the doubling factor is capped at \<open>2 ^ 16\<close>, the product saturates at
  128 bits, and the narrowing cast to \<open>i64\<close> wraps.
\<close>

definition as_i64 :: "nat \<Rightarrow> int" where
  "as_i64 n = (int n + 2 ^ 63) mod 2 ^ 64 - 2 ^ 63"

definition as_millis :: "nat \<Rightarrow> nat" where
  "as_millis d = d div 10 ^ 6"

definition backoff_attempt :: "int \<Rightarrow> nat" where
  "backoff_attempt retries = nat (max (- 2147483648) (retries - 1) mod 2 ^ 32)"

definition backoff_millis :: "relay_config \<Rightarrow> int \<Rightarrow> nat" where
  "backoff_millis cfg retries =
     (let factor = 2 ^ min (backoff_attempt retries) 16;
          millis = min (as_millis (backoff_base cfg) * factor) (2 ^ 128 - 1) in
      min millis (as_millis (backoff_max cfg)))"

definition backoff_duration :: "relay_config \<Rightarrow> int \<Rightarrow> int" where
  "backoff_duration cfg retries = as_i64 (backoff_millis cfg retries) * 10 ^ 6"

definition failed_row :: "relay_config \<Rightarrow> int \<Rightarrow> string \<Rightarrow> int \<Rightarrow> 'p event_row \<Rightarrow> 'p event_row" where
  "failed_row cfg now err retries r =
     r\<lparr>retry_count := retries, last_error := Some err, claimed_by := None, claimed_at := None,
       status := (if max_attempts cfg \<le> retries then Failed else Pending),
       next_attempt_at := (if max_attempts cfg \<le> retries then None
                           else Some (now + backoff_duration cfg retries))\<rparr>"

definition mark_failed_attempt ::
    "(uuid \<Rightarrow> string) \<Rightarrow> relay_config \<Rightarrow> int \<Rightarrow> 'p event_row \<Rightarrow> relay_error
     \<Rightarrow> 'p event_table \<times> relay_metrics \<Rightarrow> ('p event_table \<times> relay_metrics) \<times> (relay_error + unit)" where
  "mark_failed_attempt show_uuid cfg now m err s =
     (let (table, mt) = s;
          retries = saturating_i32 (retry_count m + 1);
          (table', n) = update_many (owns m) (failed_row cfg now (error_to_string err) retries) table in
      case ensure_claim_owned show_uuid (row_id m) n of
        Inl e \<Rightarrow> ((table', mt), Inl e)
      | Inr _ \<Rightarrow>
          ((table', if max_attempts cfg \<le> retries then mt\<lparr>dlq_total := dlq_total mt + 1\<rparr>
                    else mt\<lparr>retry_total := retry_total mt + 1\<rparr>), Inr ()))"

definition record_processed :: "u64 \<Rightarrow> bool \<Rightarrow> relay_metrics \<Rightarrow> relay_metrics" where
  "record_processed elapsed_ms succeeded mt =
     (let mt = mt\<lparr>latency_ms_total := latency_ms_total mt + elapsed_ms,
                  processed_total := processed_total mt + 1\<rparr> in
      if succeeded then mt\<lparr>success_total := success_total mt + 1\<rparr>
      else mt\<lparr>failure_total := failure_total mt + 1\<rparr>)"

subsection \<open>Processing\<close>

text \<open>
  An envelope is what the relay reads of it: its event type, its schema version (16 bits) and
  whether it is a contract envelope. \<open>as_contract\<close> and \<open>as_root\<close> are the two JSON
  decodings, \<open>schema_error\<close> the registered-schema check.
\<close>

record relay_envelope =
  is_contract :: bool
  env_event_type :: string
  env_schema_version :: nat
  env_body :: string

record 'p envelope_codec =
  as_contract :: "'p \<Rightarrow> relay_envelope option"
  as_root :: "'p \<Rightarrow> string + relay_envelope"
  schema_error :: "relay_envelope \<Rightarrow> string option"

definition check_schema :: "'p envelope_codec \<Rightarrow> relay_envelope \<Rightarrow> relay_error + relay_envelope" where
  "check_schema codec e =
     (case schema_error codec e of Some m \<Rightarrow> Inl (ValidationError m) | None \<Rightarrow> Inr e)"

definition decode_envelope :: "'p envelope_codec \<Rightarrow> 'p event_row \<Rightarrow> relay_error + relay_envelope" where
  "decode_envelope codec m =
     rbind (case as_contract codec (payload m) of
              Some e \<Rightarrow> check_schema codec (e\<lparr>is_contract := True\<rparr>)
            | None \<Rightarrow>
                (case as_root codec (payload m) of
                   Inr e \<Rightarrow> check_schema codec (e\<lparr>is_contract := False\<rparr>)
                 | Inl root_error \<Rightarrow> Inl (SerializationError root_error))) (\<lambda>e.
     rbind (ensure (env_schema_version e \<le> 32767)
              (ValidationError (''outbox envelope schema version '' @ show_nat (env_schema_version e)
                 @ '' exceeds database SMALLINT range''))) (\<lambda>_.
     if row_event_type m \<noteq> env_event_type e \<or> row_schema_version m \<noteq> int (env_schema_version e)
     then Inl (ValidationError (''outbox row metadata does not match envelope: row=`'' @ row_event_type m
            @ ''`/'' @ show_int (row_schema_version m) @ '' envelope=`'' @ env_event_type e @ ''`/''
            @ show_nat (env_schema_version e)))
     else Inr e))"

record 'p relay_env =
  codec :: "'p envelope_codec"
  publish :: "relay_envelope \<Rightarrow> relay_error + unit"
  show_uuid :: "uuid \<Rightarrow> string"
  elapsed_ms :: "uuid \<Rightarrow> u64"
  finished_at :: "uuid \<Rightarrow> int"

definition process_claimed_event ::
    "'p relay_env \<Rightarrow> relay_config \<Rightarrow> int \<Rightarrow> 'p event_row \<Rightarrow> 'p event_table \<times> relay_metrics
     \<Rightarrow> ('p event_table \<times> relay_metrics) \<times> (relay_error + unit)" where
  "process_claimed_event env cfg now m s =
     (let (table, mt) = s; ms = elapsed_ms env (row_id m) in
      case decode_envelope (codec env) m of
        Inl e \<Rightarrow>
          mark_failed_attempt (show_uuid env) cfg now m e (table, record_processed ms False mt)
      | Inr e \<Rightarrow>
          (case publish env e of
             Inr _ \<Rightarrow>
               (case mark_dispatched (show_uuid env) now m table of
                  (table', Inl err) \<Rightarrow> ((table', mt), Inl err)
                | (table', Inr _) \<Rightarrow> ((table', record_processed ms True mt), Inr ()))
           | Inl err \<Rightarrow>
               mark_failed_attempt (show_uuid env) cfg now m err (table, record_processed ms False mt)))"

text \<open>
  One round. The dispatch tasks run concurrently, at most \<open>max_concurrency\<close> at a time, and
  touch different rows; \<open>completion\<close> is the order in which they are joined, and the first error
  in that order is the result. The claim reads the clock as \<open>now\<close>, the completion of each event
  as its \<open>finished_at\<close>. A task that panics is left out.
\<close>

definition process_pending_once ::
    "'p relay_env \<Rightarrow> relay_config \<Rightarrow> ('p event_row list \<Rightarrow> 'p event_row list) \<Rightarrow> int \<Rightarrow> nat option
     \<Rightarrow> 'p event_table \<times> relay_metrics \<Rightarrow> ('p event_table \<times> relay_metrics) \<times> (relay_error + nat)" where
  "process_pending_once env cfg completion now hint s =
     (case rbind (validate_config cfg) (\<lambda>_. ensure (hint \<noteq> Some 0)
             (ValidationError ''outbox max_batch_hint must be greater than zero'')) of
        Inl e \<Rightarrow> (s, Inl e)
      | Inr _ \<Rightarrow>
          let n = min (case hint of None \<Rightarrow> batch_size cfg | Some h \<Rightarrow> h) (batch_size cfg);
              (table, claimed) = claim_batch cfg now n (fst s);
              (s', first_error) =
                foldl (\<lambda>(s, err) m. case process_claimed_event env cfg (finished_at env (row_id m)) m s of
                         (s', Inl e) \<Rightarrow> (s', case err of None \<Rightarrow> Some e | Some _ \<Rightarrow> err)
                       | (s', Inr _) \<Rightarrow> (s', err))
                  ((table, snd s), None) (completion claimed) in
          (s', case first_error of Some e \<Rightarrow> Inl e | None \<Rightarrow> Inr (length claimed)))"

subsection \<open>Claims\<close>

lemma validate_config_Inr:
  "validate_config cfg = Inr () \<longleftrightarrow>
     batch_size cfg \<noteq> 0 \<and> 0 < max_attempts cfg \<and> max_concurrency cfg \<noteq> 0 \<and> claim_ttl cfg \<noteq> 0
     \<and> trim (worker_id cfg) \<noteq> []"
  by (auto simp: validate_config_def)

lemma stale_before_less: "claim_ttl cfg \<noteq> 0 \<Longrightarrow> stale_before cfg now < now"
  by (auto simp: stale_before_def chrono_from_std_def split: option.splits)

lemma claim_row_sel [simp]:
  "row_id (claim_row cfg now r) = row_id r"
  "claimed_by (claim_row cfg now r) = Some (worker_id cfg)"
  "claimed_at (claim_row cfg now r) = Some now"
  "status (claim_row cfg now r) = status r"
  "payload (claim_row cfg now r) = payload r"
  "retry_count (claim_row cfg now r) = retry_count r"
  by (simp_all add: claim_row_def)

definition candidate_ids :: "relay_config \<Rightarrow> int \<Rightarrow> nat \<Rightarrow> 'p event_table \<Rightarrow> uuid list" where
  "candidate_ids cfg now n table =
     map row_id (take n (sort_key created_at (filter (claimable cfg now) table)))"

lemma claim_batch_table:
  "fst (claim_batch cfg now n table) =
     map (\<lambda>r. if row_id r \<in> set (candidate_ids cfg now n table) \<and> claimable cfg now r
              then claim_row cfg now r else r) table"
  by (auto simp: claim_batch_def candidate_ids_def Let_def)

lemma claim_batch_claimed:
  "snd (claim_batch cfg now n table) =
     filter (\<lambda>r. row_id r \<in> set (candidate_ids cfg now n table) \<and> status r = Pending
               \<and> claimed_by r = Some (worker_id cfg) \<and> claimed_at r = Some now)
       (fst (claim_batch cfg now n table))"
  by (auto simp: claim_batch_def candidate_ids_def Let_def)

lemma candidate_claimable:
  assumes "distinct (map row_id table)" "r \<in> set table"
  shows "row_id r \<in> set (candidate_ids cfg now n table) \<Longrightarrow> claimable cfg now r"
proof -
  assume "row_id r \<in> set (candidate_ids cfg now n table)"
  then obtain r' where "r' \<in> set table" "row_id r' = row_id r" "claimable cfg now r'"
    by (auto simp: candidate_ids_def dest!: in_set_takeD)
  with assms show "claimable cfg now r"
    by (metis distinct_map inj_onD)
qed

lemma claimable_Pending: "claimable cfg now r \<Longrightarrow> status r = Pending"
  by (simp add: claimable_def)

lemma claimed_iff:
  assumes "distinct (map row_id table)"
  shows "m \<in> set (snd (claim_batch cfg now n table)) \<longleftrightarrow>
    (\<exists>r \<in> set table. row_id r \<in> set (candidate_ids cfg now n table) \<and> claimable cfg now r
       \<and> m = claim_row cfg now r)" (is "?l \<longleftrightarrow> ?r")
proof
  assume ?l
  then obtain r where r: "r \<in> set table" "row_id m \<in> set (candidate_ids cfg now n table)"
      "m = (if row_id r \<in> set (candidate_ids cfg now n table) \<and> claimable cfg now r
            then claim_row cfg now r else r)"
    by (auto simp: claim_batch_claimed claim_batch_table)
  then have i: "row_id r \<in> set (candidate_ids cfg now n table)" by (auto split: if_splits)
  moreover from candidate_claimable [OF assms r(1) i] have "claimable cfg now r" .
  ultimately show ?r using r by auto
next
  assume ?r
  then show ?l
    by (auto simp: claim_batch_claimed claim_batch_table claimable_Pending intro!: image_eqI)
qed

lemma row_ids_claimed: "map row_id (fst (claim_batch cfg now n table)) = map row_id table"
  by (simp add: claim_batch_table)

lemma length_claimed:
  assumes "distinct (map row_id table)"
  shows "length (snd (claim_batch cfg now n table)) \<le> n"
proof -
  let ?c = "snd (claim_batch cfg now n table)"
  have "distinct (map row_id (fst (claim_batch cfg now n table)))"
    unfolding row_ids_claimed by (rule assms)
  then have "distinct (map row_id ?c)"
    by (simp add: claim_batch_claimed distinct_map inj_on_def)
  then have "length ?c = card (set (map row_id ?c))"
    by (metis distinct_card length_map)
  also have "\<dots> \<le> card (set (candidate_ids cfg now n table))"
    by (rule card_mono) (auto simp: claimed_iff [OF assms])
  also have "\<dots> \<le> n"
    by (rule order_trans [OF card_length]) (simp add: candidate_ids_def)
  finally show ?thesis .
qed

lemma owns_filter:
  assumes "distinct (map row_id table)" "r \<in> set table" "owns m r"
  shows "length (filter (owns m) table) = 1"
proof -
  have "x = r" if "x \<in> set table" "owns m x" for x
    using assms that by (auto simp: owns_def distinct_map inj_on_def)
  then have "{x. owns m x} \<inter> set table = {r}" using assms(2,3) by blast
  then show ?thesis
    using assms(1) by (simp add: distinct_length_filter distinct_map)
qed

lemma not_owned:
  assumes "\<forall>r \<in> set table. \<not> owns m r"
  shows "update_many (owns m) f table = (table, 0)"
  using assms by (auto simp: update_many_def filter_empty_conv intro: map_idI)

lemma owns_claim_row:
  assumes "claimable cfg now r"
  shows "owns (claim_row cfg now r) (claim_row cfg now r)"
  using assms by (simp add: owns_def claimable_Pending)

text \<open>A row that is claimed again is not owned through an earlier snapshot.\<close>

lemma reclaimed_not_owned:
  assumes d: "distinct (map row_id table)" and ttl: "claim_ttl cfg \<noteq> 0"
    and r: "r \<in> set table" "owns m r"
    and c: "m' \<in> set (snd (claim_batch cfg now n table))" "row_id m' = row_id m"
  shows "\<forall>x \<in> set (fst (claim_batch cfg now n table)). \<not> owns m x"
proof
  fix x
  assume x: "x \<in> set (fst (claim_batch cfg now n table))"
  from c d obtain r' where r': "r' \<in> set table" "row_id r' \<in> set (candidate_ids cfg now n table)"
      "claimable cfg now r'" "m' = claim_row cfg now r'"
    by (auto simp: claimed_iff)
  have "row_id r' = row_id r" using r(2) r'(4) c(2) by (simp add: owns_def)
  then have "r' = r" using d r(1) r'(1) by (auto simp: distinct_map inj_on_def)
  then obtain t where t: "claimed_at r = Some t" "t \<le> stale_before cfg now"
    using r(2) r'(3) by (auto simp: owns_def claimable_def split: option.splits)
  show "\<not> owns m x"
  proof
    assume o: "owns m x"
    from x obtain y where y: "y \<in> set table" "x = (if row_id y \<in> set (candidate_ids cfg now n table)
        \<and> claimable cfg now y then claim_row cfg now y else y)"
      by (auto simp: claim_batch_table)
    have "row_id y = row_id r" using o r(2) y(2) by (auto simp: owns_def split: if_splits)
    then have "y = r" using d r(1) y(1) by (auto simp: distinct_map inj_on_def)
    with y(2) r'(2,3) \<open>r' = r\<close> have "claimed_at x = Some now" by simp
    moreover have "claimed_at x = Some t" using o r(2) t(1) by (auto simp: owns_def)
    ultimately show False using t(2) stale_before_less [OF ttl, of now] by simp
  qed
qed

subsection \<open>Properties\<close>

text \<open>
  A claim is exclusive and bounded. It takes at most the requested number of rows, only rows
  that are pending, due, and free or claimed for longer than the time to live; every row taken
  carries the worker and the instant of the claim in the table, and no other row changes.
\<close>

theorem claim_batch_exclusive:
  assumes "distinct (map row_id table)"
  shows "length (snd (claim_batch cfg now n table)) \<le> n
    \<and> map row_id (fst (claim_batch cfg now n table)) = map row_id table
    \<and> (\<forall>m \<in> set (snd (claim_batch cfg now n table)).
         m \<in> set (fst (claim_batch cfg now n table)) \<and> owns m m
         \<and> (\<exists>r \<in> set table. claimable cfg now r \<and> m = claim_row cfg now r))
    \<and> (\<forall>r \<in> set table. \<not> claimable cfg now r \<longrightarrow> r \<in> set (fst (claim_batch cfg now n table)))"
proof -
  have "m \<in> set (fst (claim_batch cfg now n table)) \<and> owns m m
      \<and> (\<exists>r \<in> set table. claimable cfg now r \<and> m = claim_row cfg now r)"
    if "m \<in> set (snd (claim_batch cfg now n table))" for m
    using that claimed_iff [OF assms, of m cfg now n]
    by (auto simp: claim_batch_claimed owns_claim_row)
  moreover have "r \<in> set (fst (claim_batch cfg now n table))"
    if "r \<in> set table" "\<not> claimable cfg now r" for r
    using that by (auto simp: claim_batch_table intro!: image_eqI [of r])
  ultimately show ?thesis
    using length_claimed [OF assms] row_ids_claimed by blast
qed

text \<open>
  C13: only the latest claimant of a row completes it. After a row whose claim went stale was
  claimed again, the earlier claimant neither dispatches nor fails it: the table stays as it is
  and the call reports the lost claim. The new claimant's completion succeeds and dispatches
  exactly that row.
\<close>

theorem stale_claimant_cannot_complete:
  assumes "distinct (map row_id table)" and "claim_ttl cfg \<noteq> 0"
    and "r \<in> set table" and "owns m r"
    and "m' \<in> set (snd (claim_batch cfg now n table))" and "row_id m' = row_id m"
    and "table' = fst (claim_batch cfg now n table)"
  shows "fst (mark_dispatched sh t m table') = table' \<and> \<not> is_ok (snd (mark_dispatched sh t m table'))
    \<and> fst (mark_failed_attempt sh cfg' t m e (table', mt)) = (table', mt)
    \<and> \<not> is_ok (snd (mark_failed_attempt sh cfg' t m e (table', mt)))
    \<and> snd (mark_dispatched sh t m' table') = Inr ()
    \<and> (\<forall>x \<in> set (fst (mark_dispatched sh t m' table')). row_id x = row_id m' \<longrightarrow> status x = Dispatched)"
proof -
  have lost: "update_many (owns m) f table' = (table', 0)" for f
    using reclaimed_not_owned [OF assms(1-6)] unfolding assms(7) by (rule not_owned)
  have d: "distinct (map row_id table')" unfolding assms(7) row_ids_claimed by (rule assms(1))
  have m': "m' \<in> set table'" "owns m' m'"
    using assms(5) owns_claim_row [of cfg now] claimed_iff [OF assms(1), of m' cfg now n]
    by (auto simp: assms(7) claim_batch_claimed)
  have "snd (update_many (owns m') f table') = 1" for f
    by (simp add: update_many_def owns_filter [OF d m'])
  moreover have "x = m'" if "x \<in> set table'" "row_id x = row_id m'" for x
    using d m'(1) that by (auto simp: distinct_map inj_on_def)
  ultimately have new: "snd (mark_dispatched sh t m' table') = Inr ()
      \<and> (\<forall>x \<in> set (fst (mark_dispatched sh t m' table')). row_id x = row_id m' \<longrightarrow> status x = Dispatched)"
    using m' by (auto simp: mark_dispatched_def ensure_claim_owned_def update_many_def
        dispatched_row_def split: if_splits)
  have "fst (mark_dispatched sh t m table') = table' \<and> \<not> is_ok (snd (mark_dispatched sh t m table'))
    \<and> fst (mark_failed_attempt sh cfg' t m e (table', mt)) = (table', mt)
    \<and> \<not> is_ok (snd (mark_failed_attempt sh cfg' t m e (table', mt)))"
    by (simp add: mark_dispatched_def mark_failed_attempt_def lost ensure_claim_owned_def)
  with new show ?thesis by blast
qed

subsection \<open>Attempts and back-off\<close>

lemma as_i64_small: "n < 2 ^ 63 \<Longrightarrow> as_i64 n = int n"
  by (simp add: as_i64_def)

lemma backoff_millis_le: "backoff_millis cfg k \<le> as_millis (backoff_max cfg)"
  by (simp add: backoff_millis_def Let_def)

lemma backoff_exact:
  "as_millis (backoff_max cfg) < 2 ^ 63 \<Longrightarrow> backoff_duration cfg k = int (backoff_millis cfg k) * 10 ^ 6"
  using backoff_millis_le [of cfg k] by (simp add: backoff_duration_def as_i64_small)

lemma backoff_bounds:
  assumes "as_millis (backoff_max cfg) < 2 ^ 63"
  shows "0 \<le> backoff_duration cfg k \<and> backoff_duration cfg k \<le> int (backoff_max cfg)"
proof -
  have "backoff_millis cfg k * 10 ^ 6 \<le> backoff_max cfg"
    using backoff_millis_le [of cfg k] by (simp add: as_millis_def)
  then have "int (backoff_millis cfg k * 10 ^ 6) \<le> int (backoff_max cfg)"
    by (simp only: of_nat_le_iff)
  then show ?thesis unfolding backoff_exact [OF assms] by simp
qed

lemma backoff_attempt_pos: "1 \<le> k \<Longrightarrow> k \<le> 2147483647 \<Longrightarrow> backoff_attempt k = nat (k - 1)"
  by (simp add: backoff_attempt_def)

lemma backoff_mono:
  assumes "as_millis (backoff_max cfg) < 2 ^ 63" "1 \<le> j" "j \<le> k" "k \<le> 2147483647"
  shows "backoff_duration cfg j \<le> backoff_duration cfg k"
proof -
  have "backoff_attempt j \<le> backoff_attempt k"
    using assms by (simp add: backoff_attempt_pos)
  then have "(2 :: nat) ^ min (backoff_attempt j) 16 \<le> 2 ^ min (backoff_attempt k) 16"
    by (intro power_increasing) auto
  then have "backoff_millis cfg j \<le> backoff_millis cfg k"
    unfolding backoff_millis_def Let_def by (intro min.mono mult_left_mono) auto
  then show ?thesis by (simp add: backoff_exact [OF assms(1)])
qed

lemma update_owned:
  assumes "distinct (map row_id table)" "r \<in> set table" "owns m r"
  shows "snd (update_many (owns m) f table) = 1" "f r \<in> set (fst (update_many (owns m) f table))"
  using assms owns_filter [OF assms] by (auto simp: update_many_def intro!: image_eqI [of _ _ r])

text \<open>
  What becomes of a claimed event. While its claim is owned, processing succeeds: the row is
  dispatched when its envelope decodes and the transport publishes it, and otherwise its retry
  count grows by one, the claim is released, and it is either moved to the dead letters, exactly
  when the attempts are used up, or becomes due again after a pause of at most
  \<open>backoff_max\<close>.
\<close>

theorem claimed_event_settled:
  assumes "distinct (map row_id table)" and "m \<in> set table" and "owns m m"
    and "retry_count m < 2147483647" and "- 2147483648 \<le> retry_count m"
    and "as_millis (backoff_max cfg) < 2 ^ 63"
    and "process_claimed_event env cfg now m (table, mt) = ((table', mt'), res)"
  shows "res = Inr () \<and> (\<exists>x \<in> set table'. row_id x = row_id m \<and> claimed_by x = None \<and>
    (if rbind (decode_envelope (codec env) m) (publish env) = Inr ()
     then status x = Dispatched \<and> dispatched_at x = Some now \<and> retry_count x = retry_count m
     else retry_count x = retry_count m + 1 \<and>
       (if max_attempts cfg \<le> retry_count m + 1 then status x = Failed \<and> next_attempt_at x = None
        else status x = Pending \<and> (\<exists>d. 0 \<le> d \<and> d \<le> int (backoff_max cfg)
               \<and> next_attempt_at x = Some (now + d)))))"
proof -
  let ?retries = "retry_count m + 1"
  have sat: "saturating_i32 ?retries = ?retries"
    using assms(4,5) by (simp add: saturating_i32_def)
  have dispatch: "\<exists>tb. mark_dispatched sh now m table = (tb, Inr ()) \<and> dispatched_row now m \<in> set tb" for sh
    using update_owned [OF assms(1-3), of "dispatched_row now"]
    by (auto simp: mark_dispatched_def ensure_claim_owned_def split: prod.splits)
  have failed: "\<exists>tb mt''. mark_failed_attempt sh cfg now m e (table, mt1) = ((tb, mt''), Inr ())
      \<and> failed_row cfg now (error_to_string e) ?retries m \<in> set tb" for sh e mt1
    using update_owned [OF assms(1-3), of "failed_row cfg now (error_to_string e) ?retries"]
    by (auto simp: mark_failed_attempt_def ensure_claim_owned_def sat Let_def split: prod.splits)
  have outcome: "res = Inr () \<and> (if rbind (decode_envelope (codec env) m) (publish env) = Inr ()
      then dispatched_row now m \<in> set table'
      else \<exists>e. failed_row cfg now (error_to_string e) ?retries m \<in> set table')"
  proof (cases "decode_envelope (codec env) m")
    case (Inl e)
    with assms(7) failed [of "show_uuid env" e "record_processed (elapsed_ms env (row_id m)) False mt"]
    show ?thesis by (auto simp: process_claimed_event_def Let_def)
  next
    case (Inr v)
    with assms(7) dispatch [of "show_uuid env"]
      failed [of "show_uuid env" "projl (publish env v)" "record_processed (elapsed_ms env (row_id m)) False mt"]
    show ?thesis by (cases "publish env v") (auto simp: process_claimed_event_def Let_def)
  qed
  show ?thesis
  proof (cases "rbind (decode_envelope (codec env) m) (publish env) = Inr ()")
    case True
    with outcome have "res = Inr ()" "dispatched_row now m \<in> set table'" by (simp_all only: if_True)
    with True show ?thesis
      by (intro conjI bexI [of _ "dispatched_row now m"]) (simp_all add: dispatched_row_def)
  next
    case False
    with outcome obtain e where "res = Inr ()"
      "failed_row cfg now (error_to_string e) ?retries m \<in> set table'" by (auto simp only: if_False)
    with False show ?thesis
      using backoff_bounds [OF assms(6), of ?retries]
      by (intro conjI bexI [of _ "failed_row cfg now (error_to_string e) ?retries m"])
        (simp_all only: if_False, auto simp: failed_row_def)
  qed
qed

text \<open>
  A row that keeps failing is retried with pauses that never shrink and becomes a dead letter
  at exactly the configured number of attempts: after \<open>k\<close> failed attempts its retry count has
  grown by \<open>k\<close>, and it has failed for good if and only if that reaches \<open>max_attempts\<close>.
\<close>

theorem dead_letter_after_max_attempts:
  assumes "status r = Pending" and "0 \<le> retry_count r" and "retry_count r < max_attempts cfg"
    and "retry_count r + int k < 2147483647" and "as_millis (backoff_max cfg) < 2 ^ 63"
    and "fail = (\<lambda>x. failed_row cfg now err (saturating_i32 (retry_count x + 1)) x)"
  shows "retry_count ((fail ^^ k) r) = retry_count r + int k
    \<and> (status ((fail ^^ k) r) = Failed \<longleftrightarrow> max_attempts cfg \<le> retry_count r + int k)
    \<and> (0 < k \<longrightarrow> backoff_duration cfg (retry_count ((fail ^^ (k - 1)) r) + 1)
                  \<le> backoff_duration cfg (retry_count ((fail ^^ k) r) + 1))"
proof -
  have step: "retry_count ((fail ^^ j) r) = retry_count r + int j
      \<and> (status ((fail ^^ j) r) = Failed \<longleftrightarrow> max_attempts cfg \<le> retry_count r + int j)"
    if "j \<le> k" for j
    using that
  proof (induction j)
    case 0
    then show ?case using assms(1,3) by simp
  next
    case (Suc j)
    then have "retry_count ((fail ^^ j) r) = retry_count r + int j" by simp
    then show ?case
      using Suc.prems assms(2,4) by (simp add: assms(6) failed_row_def saturating_i32_def)
  qed
  moreover have "backoff_duration cfg (retry_count ((fail ^^ (k - 1)) r) + 1)
      \<le> backoff_duration cfg (retry_count ((fail ^^ k) r) + 1)"
    if "0 < k"
    using step [of k] step [of "k - 1"] that assms(2,4)
    by (intro backoff_mono [OF assms(5)]) auto
  ultimately show ?thesis by auto
qed

subsection \<open>An example table\<close>

definition example_row :: "nat event_row" where
  "example_row =
     \<lparr>row_id = 7, row_event_type = ''node.created'', row_schema_version = 1, payload = 0,
      status = Pending, retry_count = 0, next_attempt_at = None, last_error = None,
      claimed_by = Some ''a'', claimed_at = Some 0, created_at = 0, dispatched_at = None\<rparr>"

definition example_relay :: relay_config where
  "example_relay = relay_config_default ''b''"

definition example_now :: int where
  "example_now = 60 * 10 ^ 9"

lemma example_claim:
  "claim_batch example_relay example_now 10 [example_row]
     = ([claim_row example_relay example_now example_row],
        [claim_row example_relay example_now example_row])"
  by (simp add: claim_batch_def claimable_def stale_before_def chrono_from_std_def i64_max_def
      example_row_def example_relay_def relay_config_default_def claim_row_def example_now_def)

lemma claim_batch_exclusive_witness:
  "length (snd (claim_batch example_relay example_now 10 [example_row])) \<le> 10"
  using claim_batch_exclusive [of "[example_row]" example_relay example_now 10] by simp

lemma stale_claimant_cannot_complete_witness:
  "\<not> is_ok (snd (mark_dispatched (\<lambda>_. []) 0 example_row
       [claim_row example_relay example_now example_row]))"
proof -
  let ?t = "[claim_row example_relay example_now example_row]"
  have own: "owns example_row example_row" by (simp add: owns_def example_row_def)
  have ttl: "claim_ttl example_relay \<noteq> 0"
    by (simp add: example_relay_def relay_config_default_def)
  have table: "distinct (map row_id [example_row])" "example_row \<in> set [example_row]" by simp_all
  have claimed: "claim_row example_relay example_now example_row
        \<in> set (snd (claim_batch example_relay example_now 10 [example_row]))"
      "?t = fst (claim_batch example_relay example_now 10 [example_row])"
    by (simp_all only: example_claim fst_conv snd_conv list.set insertI1)
  show ?thesis
    using stale_claimant_cannot_complete [OF table(1) ttl table(2) own claimed(1) _ claimed(2),
        of "\<lambda>_. []" 0] by (metis claim_row_sel(1))
qed

definition example_env :: "nat relay_env" where
  "example_env =
     \<lparr>codec = \<lparr>as_contract = (\<lambda>_. None), as_root = (\<lambda>_. Inl ''bad payload''), schema_error = (\<lambda>_. None)\<rparr>,
      publish = (\<lambda>_. Inr ()), show_uuid = (\<lambda>_. []), elapsed_ms = (\<lambda>_. 1),
      finished_at = (\<lambda>_. 0)\<rparr>"

lemma claimed_event_settled_witness:
  "\<exists>x \<in> set (fst (fst (process_claimed_event example_env example_relay 0 example_row
       ([example_row], metrics_default)))). retry_count x = 1 \<and> status x = Pending"
proof -
  obtain tb mt res where p: "process_claimed_event example_env example_relay 0 example_row
      ([example_row], metrics_default) = ((tb, mt), res)" by (metis surj_pair)
  have d: "decode_envelope (codec example_env) example_row = Inl (SerializationError ''bad payload'')"
    by (simp add: decode_envelope_def example_env_def)
  have e: "distinct (map row_id [example_row])" "example_row \<in> set [example_row]"
      "owns example_row example_row" "retry_count example_row < 2147483647"
      "- 2147483648 \<le> retry_count example_row" "as_millis (backoff_max example_relay) < 2 ^ 63"
    by (simp_all add: owns_def example_row_def example_relay_def relay_config_default_def as_millis_def)
  have "retry_count example_row + 1 = 1" "\<not> max_attempts example_relay \<le> 1"
    by (simp_all add: example_row_def example_relay_def relay_config_default_def)
  with claimed_event_settled [OF e p] d
  have "\<exists>x \<in> set tb. retry_count x = 1 \<and> status x = Pending"
    by (simp only: rbind_simps sum.distinct if_False) blast
  then show ?thesis by (simp add: p)
qed

lemma dead_letter_after_max_attempts_witness:
  "status (((\<lambda>x. failed_row example_relay 0 [] (saturating_i32 (retry_count x + 1)) x) ^^ 5) example_row)
     = Failed"
  using dead_letter_after_max_attempts [of example_row example_relay 5
      "\<lambda>x. failed_row example_relay 0 [] (saturating_i32 (retry_count x + 1)) x" 0 "[]"]
  by (simp add: example_row_def example_relay_def relay_config_default_def as_millis_def)

end
