(* ===== verification/Accounting.thy ===== *)
theory Accounting
  imports Ports
begin

text \<open>
  Double-entry accounting (\<open>crates/modules/rustok-accounting/src\<close>: \<open>domain/posting.rs\<close>,
  \<open>domain/account.rs\<close>, \<open>domain/rule.rs\<close>, \<open>dto/posting.rs\<close>). Amounts are \<open>i64\<close>
  minor units, kept as integers with the checked additions written out. The final loop over a
  \<open>HashMap\<close> visits the currencies in an unspecified order, which is the argument \<open>iter\<close>;
  the clock of the reversal is an argument too.
\<close>

datatype accounting_error =
    InvariantViolationError string
  | UnbalancedTransaction int int string
  | AccountNotFound string
  | AccountInactive string
  | InvalidCurrency string
  | TransactionNotFound uuid
  | AccDatabase string
  | AccValidation string

subsection \<open>Accounts and rules\<close>

datatype account_type = Asset | Liability | Equity | Revenue | Expense

definition is_debit_normal :: "account_type \<Rightarrow> bool" where
  "is_debit_normal t \<longleftrightarrow> t = Asset \<or> t = Expense"

definition is_credit_normal :: "account_type \<Rightarrow> bool" where
  "is_credit_normal t \<longleftrightarrow> t = Liability \<or> t = Equity \<or> t = Revenue"

definition calculate_closing_balance ::
    "account_type \<Rightarrow> int \<Rightarrow> int \<Rightarrow> int \<Rightarrow> accounting_error + int" where
  "calculate_closing_balance t opening debit credit =
     rbind (ensure (0 \<le> debit)
       (AccValidation (''Debit turnover cannot be negative, got '' @ show_int debit))) (\<lambda>_.
     rbind (ensure (0 \<le> credit)
       (AccValidation (''Credit turnover cannot be negative, got '' @ show_int credit))) (\<lambda>_.
     let (up, down) = (if is_debit_normal t then (debit, credit) else (credit, debit)) in
     ok_or (case checked_i64 (opening + up) of None \<Rightarrow> None | Some v \<Rightarrow> checked_i64 (v - down))
       (InvariantViolationError ''Balance calculation overflow'')))"

definition MAX_ACCOUNT_CODE_LEN :: nat where "MAX_ACCOUNT_CODE_LEN = 64"
definition MAX_ACCOUNT_NAME_LEN :: nat where "MAX_ACCOUNT_NAME_LEN = 255"
definition MIN_CURRENCY_CODE_LEN :: nat where "MIN_CURRENCY_CODE_LEN = 3"
definition MAX_CURRENCY_CODE_LEN :: nat where "MAX_CURRENCY_CODE_LEN = 10"
definition MAX_TRANSACTION_LINES :: nat where "MAX_TRANSACTION_LINES = 1000"

record account_definition =
  acc_code :: string
  acc_name :: string
  acc_type :: account_type
  acc_currency_code :: "string option"
  acc_is_active :: bool
  track_party :: bool
  track_contract :: bool
  track_item :: bool
  track_warehouse :: bool

definition is_code_char :: "char \<Rightarrow> bool" where
  "is_code_char c \<longleftrightarrow> is_ascii_alphanumeric c \<or> c = CHR ''.'' \<or> c = CHR ''-'' \<or> c = CHR ''_''"

definition currency_shape :: "string \<Rightarrow> bool" where
  "currency_shape c \<longleftrightarrow>
     \<not> (length c < MIN_CURRENCY_CODE_LEN \<or> MAX_CURRENCY_CODE_LEN < length c
        \<or> \<not> list_all is_ascii_alphanumeric c)"

definition account_validate :: "account_definition \<Rightarrow> accounting_error + unit" where
  "account_validate a =
     (let code = trim (acc_code a); nm = trim (acc_name a) in
      rbind (ensure (code \<noteq> []) (AccValidation ''Account code cannot be empty'')) (\<lambda>_.
      rbind (ensure (length code \<le> MAX_ACCOUNT_CODE_LEN)
        (AccValidation ''Account code exceeds maximum length of 64 characters'')) (\<lambda>_.
      rbind (ensure (list_all is_code_char code)
        (AccValidation (''Account code contains invalid characters: `'' @ code @ ''`''))) (\<lambda>_.
      rbind (ensure (nm \<noteq> []) (AccValidation ''Account name cannot be empty'')) (\<lambda>_.
      rbind (ensure (length nm \<le> MAX_ACCOUNT_NAME_LEN)
        (AccValidation ''Account name exceeds maximum length of 255 characters'')) (\<lambda>_.
      case acc_currency_code a of
        None \<Rightarrow> Inr ()
      | Some cur \<Rightarrow>
          let c = trim cur in
          rbind (ensure (c \<noteq> []) (InvalidCurrency ''Currency code cannot be empty if specified'')) (\<lambda>_.
          ensure (currency_shape c)
            (InvalidCurrency (''Currency code must be 3-10 alphanumeric characters, got `'' @ c @ ''`''))))))))
     )"

record posting_rule =
  rule_document_type :: string
  rule_operation_type :: string
  debit_account_code :: string
  credit_account_code :: string
  description_template :: "string option"

definition rule_field :: "string \<Rightarrow> string \<Rightarrow> accounting_error + unit" where
  "rule_field field v =
     rbind (ensure (v \<noteq> []) (AccValidation (''Posting rule '' @ field @ '' cannot be empty''))) (\<lambda>_.
     ensure (length v \<le> 64)
       (AccValidation (''Posting rule '' @ field @ '' exceeds maximum length of 64 characters'')))"

definition posting_rule_validate :: "posting_rule \<Rightarrow> accounting_error + unit" where
  "posting_rule_validate r =
     (let debit = trim (debit_account_code r); credit = trim (credit_account_code r) in
      rbind (rule_field ''document_type'' (trim (rule_document_type r))) (\<lambda>_.
      rbind (rule_field ''operation_type'' (trim (rule_operation_type r))) (\<lambda>_.
      rbind (rule_field ''debit_account_code'' debit) (\<lambda>_.
      rbind (rule_field ''credit_account_code'' credit) (\<lambda>_.
      rbind (ensure (debit \<noteq> credit)
        (AccValidation (''Posting rule cannot have identical debit and credit account codes: '' @ debit)))
        (\<lambda>_.
      ensure (case description_template r of None \<Rightarrow> True | Some t \<Rightarrow> length (trim t) \<le> 1024)
        (AccValidation ''Posting rule description_template exceeds maximum length of 1024 characters'')))))))"

subsection \<open>Balance of a transaction\<close>

datatype posting_direction = Debit | Credit

primrec reverse_direction :: "posting_direction \<Rightarrow> posting_direction" where
  "reverse_direction Debit = Credit"
| "reverse_direction Credit = Debit"

type_synonym posting_line = "string \<times> posting_direction \<times> int"
type_synonym currency_sums = "(string \<times> int \<times> int) list"

definition add_line :: "posting_line \<Rightarrow> nat \<times> currency_sums \<Rightarrow> accounting_error + nat \<times> currency_sums" where
  "add_line line acc =
     (case line of (currency, direction, amount) \<Rightarrow>
      let c = trim currency; (count, sums) = acc in
      rbind (ensure (c \<noteq> []) (InvalidCurrency ''Posting currency code cannot be empty'')) (\<lambda>_.
      rbind (ensure (currency_shape c) (InvalidCurrency
        (''Posting currency code must be 3-10 alphanumeric characters, got `'' @ c @ ''`''))) (\<lambda>_.
      rbind (ensure (0 < amount) (AccValidation (''Posting amount must be strictly positive, got ''
        @ show_int amount @ '' for currency '' @ c))) (\<lambda>_.
      let (d, cr) = (case map_of sums c of None \<Rightarrow> (0, 0) | Some e \<Rightarrow> e) in
      case direction of
        Debit \<Rightarrow> rbind (ok_or (checked_i64 (d + amount)) (InvariantViolationError ''Debit sum overflow''))
                   (\<lambda>d. Inr (count + 1, btree_insert c (d, cr) sums))
      | Credit \<Rightarrow> rbind (ok_or (checked_i64 (cr + amount)) (InvariantViolationError ''Credit sum overflow''))
                   (\<lambda>cr. Inr (count + 1, btree_insert c (d, cr) sums))))))"

fun add_lines :: "posting_line list \<Rightarrow> nat \<times> currency_sums \<Rightarrow> accounting_error + nat \<times> currency_sums" where
  "add_lines [] acc = Inr acc"
| "add_lines (l # ls) acc = rbind (add_line l acc) (\<lambda>acc. add_lines ls acc)"

definition validate_transaction_balance ::
    "(currency_sums \<Rightarrow> currency_sums) \<Rightarrow> posting_line list \<Rightarrow> accounting_error + unit" where
  "validate_transaction_balance iter lines =
     rbind (add_lines lines (0, [])) (\<lambda>(count, sums).
     rbind (ensure (2 \<le> count) (AccValidation
       ''Journal transaction must contain at least two postings (at least one debit and one credit)'')) (\<lambda>_.
     rbind (ensure (count \<le> MAX_TRANSACTION_LINES) (AccValidation (''Journal transaction lines (''
       @ show_nat count @ '') exceeds maximum allowed of 1000''))) (\<lambda>_.
     for_each (\<lambda>(c, d, cr). if d \<noteq> cr then Inl (UnbalancedTransaction d cr c) else Inr ()) (iter sums))))"

subsection \<open>Journal transactions\<close>

record posting_item =
  account_code :: string
  direction :: posting_direction
  amount_minor :: int
  currency_code :: string
  party_id :: "uuid option"
  contract_id :: "uuid option"
  item_id :: "uuid option"
  warehouse_id :: "uuid option"
  description :: "string option"

record posting_response = posting_item +
  posting_id :: uuid
  line_number :: int

record journal_input =
  transaction_number :: "string option"
  document_type :: string
  document_id :: "uuid option"
  input_description :: "string option"
  posted_at :: "int option"
  lines :: "posting_item list"

record journal_response =
  tx_id :: uuid
  tx_tenant_id :: uuid
  tx_number :: string
  tx_document_type :: string
  tx_document_id :: "uuid option"
  tx_description :: "string option"
  tx_posted_at :: int
  is_storno :: bool
  postings :: "posting_response list"

definition text_fits :: "string option \<Rightarrow> bool" where
  "text_fits d = (case d of None \<Rightarrow> True | Some s \<Rightarrow> length (trim s) \<le> 1024)"

definition item_validate :: "'a posting_item_scheme \<Rightarrow> accounting_error + unit" where
  "item_validate i =
     (let acc = trim (account_code i); cur = trim (currency_code i) in
      rbind (ensure (acc \<noteq> []) (AccValidation ''Journal posting item account_code cannot be empty'')) (\<lambda>_.
      rbind (ensure (length acc \<le> MAX_ACCOUNT_CODE_LEN) (AccValidation
        ''Journal posting item account_code exceeds maximum length of 64 characters'')) (\<lambda>_.
      rbind (ensure (list_all is_code_char acc) (AccValidation
        (''Journal posting item account_code contains invalid characters: `'' @ acc @ ''`''))) (\<lambda>_.
      rbind (ensure (cur \<noteq> []) (InvalidCurrency ''Journal posting item currency_code cannot be empty'')) (\<lambda>_.
      rbind (ensure (currency_shape cur) (InvalidCurrency
        (''Journal posting item currency_code must be 3-10 alphanumeric characters, got `'' @ cur @ ''`''))) (\<lambda>_.
      rbind (ensure (0 < amount_minor i) (AccValidation (''Posting amount must be strictly positive, got ''
        @ show_int (amount_minor i) @ '' for account '' @ acc))) (\<lambda>_.
      ensure (text_fits (description i)) (AccValidation
        ''Journal posting item description exceeds maximum length of 1024 characters''))))))))"

definition line_of :: "'a posting_item_scheme \<Rightarrow> posting_line" where
  "line_of i = (currency_code i, direction i, amount_minor i)"

definition journal_validate ::
    "(currency_sums \<Rightarrow> currency_sums) \<Rightarrow> journal_input \<Rightarrow> accounting_error + unit" where
  "journal_validate iter t =
     (let doc = trim (document_type t) in
      rbind (ensure (doc \<noteq> []) (AccValidation ''document_type cannot be empty'')) (\<lambda>_.
      rbind (ensure (length doc \<le> 64)
        (AccValidation ''document_type exceeds maximum length of 64 characters'')) (\<lambda>_.
      rbind (case transaction_number t of
          None \<Rightarrow> Inr ()
        | Some num \<Rightarrow>
            rbind (ensure (trim num \<noteq> [])
              (AccValidation ''transaction_number cannot be blank if provided'')) (\<lambda>_.
            ensure (length (trim num) \<le> 64)
              (AccValidation ''transaction_number exceeds maximum length of 64 characters''))) (\<lambda>_.
      rbind (ensure (text_fits (input_description t))
        (AccValidation ''description exceeds maximum length of 1024 characters'')) (\<lambda>_.
      rbind (ensure (lines t \<noteq> [])
        (AccValidation ''Journal transaction must contain at least two postings'')) (\<lambda>_.
      rbind (ensure (length (lines t) \<le> MAX_TRANSACTION_LINES) (AccValidation (''Journal transaction lines (''
        @ show_nat (length (lines t)) @ '') exceeds maximum allowed of 1000''))) (\<lambda>_.
      rbind (for_each item_validate (lines t)) (\<lambda>_.
      validate_transaction_balance iter (map line_of (lines t))))))))))"

definition storno_item :: "string option \<Rightarrow> posting_response \<Rightarrow> posting_item" where
  "storno_item reason p =
     \<lparr>account_code = account_code p, direction = reverse_direction (direction p),
      amount_minor = amount_minor p, currency_code = currency_code p, party_id = party_id p,
      contract_id = contract_id p, item_id = item_id p, warehouse_id = warehouse_id p,
      description = Some (case (reason, description p) of
           (Some r, Some d) \<Rightarrow> ''STORNO ('' @ r @ ''): '' @ d
         | (Some r, None) \<Rightarrow> ''STORNO: '' @ r
         | (None, Some d) \<Rightarrow> ''STORNO: '' @ d
         | (None, None) \<Rightarrow> ''STORNO reversal'')\<rparr>"

definition storno_input :: "int \<Rightarrow> journal_response \<Rightarrow> string option \<Rightarrow> journal_input" where
  "storno_input now t reason =
     \<lparr>transaction_number = Some (''STORNO-'' @ tx_number t),
      document_type = tx_document_type t,
      document_id = tx_document_id t,
      input_description = Some (case reason of
          Some r \<Rightarrow> ''Reversal of '' @ tx_number t @ '': '' @ r
        | None \<Rightarrow> ''Reversal of '' @ tx_number t),
      posted_at = Some now,
      lines = map (storno_item reason) (postings t)\<rparr>"

definition create_storno_input ::
    "(currency_sums \<Rightarrow> currency_sums) \<Rightarrow> int \<Rightarrow> journal_response \<Rightarrow> string option
     \<Rightarrow> accounting_error + journal_input" where
  "create_storno_input iter now t reason =
     (let input = storno_input now t reason in
      rbind (journal_validate iter input) (\<lambda>_. Inr input))"

subsection \<open>What balance means\<close>

definition total :: "posting_direction \<Rightarrow> string \<Rightarrow> posting_line list \<Rightarrow> int" where
  "total dir c ls = sum_list (map (\<lambda>(cur, d, a). if trim cur = c \<and> d = dir then a else 0) ls)"

definition line_ok :: "posting_line \<Rightarrow> bool" where
  "line_ok l \<longleftrightarrow> (case l of (cur, d, a) \<Rightarrow> currency_shape (trim cur) \<and> 0 < a)"

definition sums_match :: "posting_line list \<Rightarrow> currency_sums \<Rightarrow> bool" where
  "sums_match ls sums \<longleftrightarrow>
     sorted_wrt (<) (map fst sums)
     \<and> (\<forall>c. map_of sums c =
        (if c \<in> (\<lambda>(cur, d, a). trim cur) ` set ls then Some (total Debit c ls, total Credit c ls) else None))"

lemma total_Cons:
  "total dir c (l # ls) =
     (if trim (fst l) = c \<and> fst (snd l) = dir then snd (snd l) else 0) + total dir c ls"
  by (cases l) (simp add: total_def)

lemma total_nonneg: "\<forall>l \<in> set ls. line_ok l \<Longrightarrow> 0 \<le> total dir c ls"
  by (induction ls) (auto simp: total_def line_ok_def split: if_splits)

lemma total_append: "total dir c (ks @ ls) = total dir c ks + total dir c ls"
  by (simp add: total_def)

lemma currency_shape_nonempty: "currency_shape c \<Longrightarrow> c \<noteq> []"
  by (auto simp: currency_shape_def MIN_CURRENCY_CODE_LEN_def)

lemma total_absent: "c \<notin> (\<lambda>(cur, d, a). trim cur) ` set ls \<Longrightarrow> total dir c ls = 0"
  by (induction ls) (auto simp: total_def)

text \<open>One line: accepted exactly when it is well formed and its currency's sum stays in range.\<close>

lemma add_line_Inr:
  assumes "sums_match ks sums" "length ks = n"
  shows "add_line l (n, sums) = Inr acc \<longleftrightarrow>
     line_ok l \<and> in_i64 (total (fst (snd l)) (trim (fst l)) (ks @ [l]))
     \<and> acc = (Suc n, btree_insert (trim (fst l))
         (total Debit (trim (fst l)) (ks @ [l]), total Credit (trim (fst l)) (ks @ [l])) sums)"
proof -
  obtain cur d a where l: "l = (cur, d, a)" by (cases l)
  let ?c = "trim cur"
  have e: "(case map_of sums ?c of None \<Rightarrow> (0, 0) | Some e \<Rightarrow> e) = (total Debit ?c ks, total Credit ?c ks)"
    using assms(1) by (auto simp: sums_match_def total_absent)
  show ?thesis
    using currency_shape_nonempty [of ?c]
    by (cases d) (auto simp: l add_line_def e line_ok_def total_append total_def [of _ _ "[_]"] Let_def)
qed

lemma sums_match_insert:
  assumes "sums_match ks sums"
  shows "sums_match (ks @ [l]) (btree_insert (trim (fst l))
     (total Debit (trim (fst l)) (ks @ [l]), total Credit (trim (fst l)) (ks @ [l])) sums)"
  using assms sorted_btree_insert [of sums]
  by (cases l) (auto simp: sums_match_def map_of_btree_insert total_append total_def [of _ _ "[_]"])

definition totals_fit :: "posting_line list \<Rightarrow> bool" where
  "totals_fit ls \<longleftrightarrow> (\<forall>dir c. total dir c ls \<le> i64_max)"

lemma in_i64_nonneg: "0 \<le> x \<Longrightarrow> in_i64 x \<longleftrightarrow> x \<le> i64_max"
  by (auto simp: in_i64_def i64_min_def)

lemma totals_fit_snoc:
  assumes "\<forall>k \<in> set ks. line_ok k" "totals_fit ks" "line_ok l"
  shows "in_i64 (total (fst (snd l)) (trim (fst l)) (ks @ [l])) \<longleftrightarrow> totals_fit (ks @ [l])"
proof -
  have "0 \<le> total (fst (snd l)) (trim (fst l)) (ks @ [l])"
    using assms(1,3) by (intro total_nonneg) auto
  moreover have "total dir c (ks @ [l]) = total dir c ks"
    if "\<not> (dir = fst (snd l) \<and> c = trim (fst l))" for dir c
    using that by (cases l) (auto simp: total_append total_def [of _ _ "[_]"])
  ultimately show ?thesis
    using assms(2) unfolding totals_fit_def by (metis in_i64_nonneg)
qed

lemma totals_fit_prefix: "totals_fit (ks @ ls) \<Longrightarrow> \<forall>l \<in> set ls. line_ok l \<Longrightarrow> totals_fit ks"
  unfolding totals_fit_def total_append using total_nonneg [of ls] by (smt (verit))

lemma add_lines_spec:
  assumes "sums_match ks sums" "length ks = n" "\<forall>k \<in> set ks. line_ok k" "totals_fit ks"
  shows "if (\<forall>l \<in> set ls. line_ok l) \<and> totals_fit (ks @ ls)
    then \<exists>sums'. add_lines ls (n, sums) = Inr (n + length ls, sums') \<and> sums_match (ks @ ls) sums'
    else \<not> is_ok (add_lines ls (n, sums))"
  using assms
proof (induction ls arbitrary: ks n sums)
  case Nil
  then show ?case by simp
next
  case (Cons l ls)
  let ?acc = "btree_insert (trim (fst l))
         (total Debit (trim (fst l)) (ks @ [l]), total Credit (trim (fst l)) (ks @ [l])) sums"
  show ?case
  proof (cases "line_ok l \<and> totals_fit (ks @ [l])")
    case True
    then have "add_line l (n, sums) = Inr (Suc n, ?acc)"
      using totals_fit_snoc [OF Cons.prems(3,4)] by (simp add: add_line_Inr [OF Cons.prems(1,2)])
    moreover have "sums_match (ks @ [l]) ?acc" by (rule sums_match_insert [OF Cons.prems(1)])
    note Cons.IH [OF this, of "Suc n"]
    ultimately show ?thesis using True Cons.prems by auto
  next
    case False
    then have "add_line l (n, sums) \<noteq> Inr acc" for acc
      using totals_fit_snoc [OF Cons.prems(3,4), of l] by (auto simp: add_line_Inr [OF Cons.prems(1,2)])
    then have "\<not> is_ok (add_lines (l # ls) (n, sums))" by (cases "add_line l (n, sums)") auto
    moreover have "\<not> ((\<forall>l \<in> set (l # ls). line_ok l) \<and> totals_fit (ks @ l # ls))"
      using False totals_fit_prefix [of "ks @ [l]" ls] by auto
    ultimately show ?thesis by presburger
  qed
qed

definition balanced :: "posting_line list \<Rightarrow> bool" where
  "balanced ls \<longleftrightarrow>
     2 \<le> length ls \<and> length ls \<le> 1000 \<and> (\<forall>l \<in> set ls. line_ok l) \<and> totals_fit ls
     \<and> (\<forall>c. total Debit c ls = total Credit c ls)"

lemma sums_balanced:
  assumes "sums_match ls sums"
  shows "(\<forall>(c, d, cr) \<in> set sums. d = cr) \<longleftrightarrow> (\<forall>c. total Debit c ls = total Credit c ls)"
proof -
  have e: "(c, d, cr) \<in> set sums \<longleftrightarrow> map_of sums c = Some (d, cr)" for c d cr
    using assms by (intro map_of_eq_Some_iff [symmetric]) (simp add: sums_match_def strict_sorted_iff)
  show ?thesis
  proof
    assume l: "\<forall>(c, d, cr) \<in> set sums. d = cr"
    show "\<forall>c. total Debit c ls = total Credit c ls"
    proof
      fix c
      show "total Debit c ls = total Credit c ls"
      proof (cases "c \<in> (\<lambda>(cur, d, a). trim cur) ` set ls")
        case True
        with assms have "map_of sums c = Some (total Debit c ls, total Credit c ls)"
          by (simp add: sums_match_def)
        then have "(c, total Debit c ls, total Credit c ls) \<in> set sums" by (simp only: e)
        from bspec [OF l this] show ?thesis by simp
      qed (simp add: total_absent)
    qed
  next
    assume r: "\<forall>c. total Debit c ls = total Credit c ls"
    have "d = cr" if "(c, d, cr) \<in> set sums" for c d cr
    proof -
      from that have m: "map_of sums c = Some (d, cr)" by (simp only: e)
      have "map_of sums c = (if c \<in> (\<lambda>(cur, d, a). trim cur) ` set ls
          then Some (total Debit c ls, total Credit c ls) else None)"
        using assms unfolding sums_match_def by blast
      with m have "d = total Debit c ls \<and> cr = total Credit c ls"
        by (simp only: split: if_splits) simp_all
      with r show ?thesis by simp
    qed
    then show "\<forall>(c, d, cr) \<in> set sums. d = cr" by blast
  qed
qed

lemma balance_Inr:
  assumes "\<And>sums. set (iter sums) = set sums"
  shows "validate_transaction_balance iter ls = Inr () \<longleftrightarrow> balanced ls"
proof -
  have "sums_match [] []" "totals_fit []"
    by (simp_all add: sums_match_def totals_fit_def total_def i64_max_def)
  note spec = add_lines_spec [OF this(1) _ _ this(2), of 0 ls, simplified]
  show ?thesis
  proof (cases "(\<forall>l \<in> set ls. line_ok l) \<and> totals_fit ls")
    case False
    then have "\<not> is_ok (add_lines ls (0, []))" using spec by presburger
    then show ?thesis
      using False by (cases "add_lines ls (0, [])")
        (auto simp: validate_transaction_balance_def balanced_def)
  next
    case True
    then obtain sums where s: "add_lines ls (0, []) = Inr (length ls, sums)" "sums_match ls sums"
      using spec by auto
    have "(\<forall>(c, d, cr) \<in> set sums. d = cr) \<longleftrightarrow> (\<forall>c. total Debit c ls = total Credit c ls)"
      using sums_balanced [OF s(2)] by simp
    with True s(1) assms show ?thesis
      by (auto simp: validate_transaction_balance_def balanced_def MAX_TRANSACTION_LINES_def)
  qed
qed

text \<open>
  C19: a journal transaction is accepted exactly when it is a double entry: between 2 and 1000
  lines, each with a well-formed currency and a positive amount, and in every currency the
  debits equal the credits, with both sums in the range of 64-bit signed integers. The order in
  which the currencies are compared does not matter.
\<close>

theorem transaction_balance_decides:
  assumes "\<And>sums. set (iter sums) = set sums"
  shows "validate_transaction_balance iter ls = Inr () \<longleftrightarrow>
    2 \<le> length ls \<and> length ls \<le> 1000
    \<and> (\<forall>(cur, d, a) \<in> set ls. currency_shape (trim cur) \<and> 0 < a)
    \<and> (\<forall>c. total Debit c ls = total Credit c ls \<and> total Debit c ls \<le> i64_max)"
proof -
  have "totals_fit ls \<longleftrightarrow> (\<forall>c. total Debit c ls \<le> i64_max \<and> total Credit c ls \<le> i64_max)"
    by (auto simp: totals_fit_def) (metis posting_direction.exhaust)
  then have "totals_fit ls \<and> (\<forall>c. total Debit c ls = total Credit c ls)
      \<longleftrightarrow> (\<forall>c. total Debit c ls = total Credit c ls \<and> total Debit c ls \<le> i64_max)"
    by metis
  then show ?thesis
    unfolding balance_Inr [OF assms] balanced_def line_ok_def by blast
qed

lemma transaction_balance_decides_witness:
  "validate_transaction_balance (\<lambda>s. s) [(''RUB'', Debit, 500), (''RUB '', Credit, 500)] = Inr ()"
proof -
  let ?ls = "[(''RUB'', Debit, 500), (''RUB '', Credit, 500)] :: posting_line list"
  have t: "trim ''RUB'' = ''RUB''" "trim ''RUB '' = ''RUB''" by code_simp+
  have "currency_shape ''RUB''" by code_simp
  then have "2 \<le> length ?ls \<and> length ?ls \<le> 1000
    \<and> (\<forall>(cur, d, a) \<in> set ?ls. currency_shape (trim cur) \<and> 0 < a)
    \<and> (\<forall>c. total Debit c ?ls = total Credit c ?ls \<and> total Debit c ?ls \<le> i64_max)"
    by (simp add: t total_def i64_max_def)
  then show ?thesis using transaction_balance_decides [of "\<lambda>s. s" ?ls] by blast
qed

subsection \<open>Reversal\<close>

lemma reverse_reverse [simp]: "reverse_direction (reverse_direction d) = d"
  by (cases d) simp_all

lemma reverse_eq: "reverse_direction d = d' \<longleftrightarrow> d = reverse_direction d'"
  by (cases d; cases d') simp_all

lemma line_of_storno:
  "line_of (storno_item reason p) = (currency_code p, reverse_direction (direction p), amount_minor p)"
  by (simp add: line_of_def storno_item_def)

lemma total_storno:
  "total d c (map line_of (map (storno_item reason) ps)) = total (reverse_direction d) c (map line_of ps)"
proof (induction ps)
  case Nil
  then show ?case by (simp add: total_def)
next
  case (Cons p ps)
  then show ?case by (auto simp: total_Cons line_of_storno line_of_def [of p] reverse_eq)
qed

lemma reverse_changes: "reverse_direction d \<noteq> d"
  by (cases d) simp_all

lemma storno_mirrors:
  "list_all2 (\<lambda>p l. account_code l = account_code p \<and> direction l \<noteq> direction p
      \<and> amount_minor l = amount_minor p \<and> currency_code l = currency_code p \<and> party_id l = party_id p
      \<and> contract_id l = contract_id p \<and> item_id l = item_id p \<and> warehouse_id l = warehouse_id p)
    ps (map (storno_item reason) ps)"
  by (simp add: list_all2_map2 list_all2_same storno_item_def reverse_changes)

lemma balanced_storno:
  "balanced (map line_of (map (storno_item reason) ps)) \<longleftrightarrow> balanced (map line_of ps)"
proof -
  have "totals_fit (map line_of (map (storno_item reason) ps)) \<longleftrightarrow> totals_fit (map line_of ps)"
    unfolding totals_fit_def total_storno by (metis reverse_reverse)
  moreover have "(\<forall>c. total Debit c (map line_of (map (storno_item reason) ps))
        = total Credit c (map line_of (map (storno_item reason) ps)))
      \<longleftrightarrow> (\<forall>c. total Debit c (map line_of ps) = total Credit c (map line_of ps))"
    unfolding total_storno by auto
  moreover have "(\<forall>l \<in> set (map line_of (map (storno_item reason) ps)). line_ok l)
      \<longleftrightarrow> (\<forall>l \<in> set (map line_of ps). line_ok l)"
    by (auto simp: line_ok_def line_of_def storno_item_def)
  ultimately show ?thesis unfolding balanced_def by simp
qed

lemma item_validate_storno:
  "item_validate p = Inr () \<Longrightarrow>
   item_validate (storno_item reason p) = Inr () \<longleftrightarrow> text_fits (description (storno_item reason p))"
  by (simp add: item_validate_def storno_item_def Let_def)

lemma trim_storno_number: "trim (''STORNO-'' @ n) \<noteq> []"
proof -
  have "plain (CHR ''S'')" by (rule plain_alphanumeric) (simp add: ascii_defs)
  from trim_plain_Cons [OF this, of "''TORNO-'' @ n"] show ?thesis by auto
qed

definition storno_texts_fit :: "journal_response \<Rightarrow> string option \<Rightarrow> bool" where
  "storno_texts_fit t reason \<longleftrightarrow>
     length (trim (''STORNO-'' @ tx_number t)) \<le> 64
     \<and> text_fits (input_description (storno_input 0 t reason))
     \<and> (\<forall>p \<in> set (postings t). text_fits (description (storno_item reason p)))"

text \<open>
  C35: a posted transaction is reversed line by line: the lines of the reversal are those of the
  transaction in the same order, each on the same account, for the same amount, currency, party,
  contract, item and warehouse, with debit and credit exchanged. So per currency the sums are
  exchanged and the reversal passes the balance check again. It is refused only when a generated
  text is too long: its number, its description or the description of a line.
\<close>

theorem storno_reverses:
  assumes "\<And>sums. set (iter sums) = set sums"
    and "trim (tx_document_type t) \<noteq> []" and "length (trim (tx_document_type t)) \<le> 64"
    and "for_each item_validate (postings t) = Inr ()"
    and "validate_transaction_balance iter (map line_of (postings t)) = Inr ()"
  shows "(create_storno_input iter now t reason = Inr (storno_input now t reason)
           \<longleftrightarrow> storno_texts_fit t reason)
    \<and> list_all2 (\<lambda>p l. account_code l = account_code p \<and> direction l \<noteq> direction p
          \<and> amount_minor l = amount_minor p \<and> currency_code l = currency_code p \<and> party_id l = party_id p
          \<and> contract_id l = contract_id p \<and> item_id l = item_id p \<and> warehouse_id l = warehouse_id p)
        (postings t) (lines (storno_input now t reason))
    \<and> validate_transaction_balance iter (map line_of (lines (storno_input now t reason))) = Inr ()
    \<and> (\<forall>d c. total d c (map line_of (lines (storno_input now t reason)))
              = total (reverse_direction d) c (map line_of (postings t)))"
proof -
  have b: "balanced (map line_of (postings t))"
    using assms(5) by (simp add: balance_Inr [OF assms(1)])
  then have n: "postings t \<noteq> []" "length (postings t) \<le> MAX_TRANSACTION_LINES"
    by (auto simp: balanced_def MAX_TRANSACTION_LINES_def)
  have v: "validate_transaction_balance iter (map line_of (map (storno_item reason) (postings t))) = Inr ()"
    unfolding balance_Inr [OF assms(1)] balanced_storno by (rule b)
  have "for_each item_validate (map (storno_item reason) (postings t)) = Inr ()
      \<longleftrightarrow> (\<forall>p \<in> set (postings t). text_fits (description (storno_item reason p)))"
    using assms(4) item_validate_storno by auto
  then have "journal_validate iter (storno_input now t reason) = Inr () \<longleftrightarrow> storno_texts_fit t reason"
    using assms(2,3) n v trim_storno_number [of "tx_number t"]
    by (auto simp: journal_validate_def storno_input_def storno_texts_fit_def Let_def
        simp del: map_map for_each_Inr)
  then have "create_storno_input iter now t reason = Inr (storno_input now t reason)
      \<longleftrightarrow> storno_texts_fit t reason"
    by (auto simp: create_storno_input_def Let_def)
  moreover have "lines (storno_input now t reason) = map (storno_item reason) (postings t)"
    by (simp add: storno_input_def)
  ultimately show ?thesis using v by (simp add: total_storno storno_mirrors del: map_map)
qed

definition example_posting :: "posting_direction \<Rightarrow> posting_response" where
  "example_posting d =
     \<lparr>account_code = ''51.01'', direction = d, amount_minor = 500, currency_code = ''RUB'',
      party_id = None, contract_id = None, item_id = None, warehouse_id = None, description = None,
      posting_id = 1, line_number = 1\<rparr>"

definition example_tx :: "string \<Rightarrow> journal_response" where
  "example_tx n =
     \<lparr>tx_id = 1, tx_tenant_id = 1, tx_number = n, tx_document_type = ''invoice'',
      tx_document_id = None, tx_description = None, tx_posted_at = 0, is_storno = False,
      postings = [example_posting Debit, example_posting Credit]\<rparr>"

lemma example_tx_valid:
  "for_each item_validate (postings (example_tx n)) = Inr ()"
  "validate_transaction_balance (\<lambda>s. s) (map line_of (postings (example_tx n))) = Inr ()"
  "trim (tx_document_type (example_tx n)) = ''invoice''"
proof -
  have "for_each item_validate [example_posting Debit, example_posting Credit] = Inr ()"
    "validate_transaction_balance (\<lambda>s. s) (map line_of [example_posting Debit, example_posting Credit]) = Inr ()"
    "trim ''invoice'' = ''invoice''"
    by code_simp+
  then show "for_each item_validate (postings (example_tx n)) = Inr ()"
    "validate_transaction_balance (\<lambda>s. s) (map line_of (postings (example_tx n))) = Inr ()"
    "trim (tx_document_type (example_tx n)) = ''invoice''"
    by (simp_all only: example_tx_def journal_response.simps)
qed

text \<open>A transaction whose number uses the 64 bytes it may have cannot be reversed.\<close>

lemma storno_reverses_witness:
  "create_storno_input (\<lambda>s. s) 0 (example_tx (replicate 64 CHR ''7'')) None
     \<noteq> Inr (storno_input 0 (example_tx (replicate 64 CHR ''7'')) None)
   \<and> create_storno_input (\<lambda>s. s) 0 (example_tx ''T-1'') None
     = Inr (storno_input 0 (example_tx ''T-1'') None)"
proof -
  have r: "create_storno_input (\<lambda>s. s) 0 (example_tx n) None = Inr (storno_input 0 (example_tx n) None)
      \<longleftrightarrow> storno_texts_fit (example_tx n) None" for n
    using storno_reverses [of "\<lambda>s. s" "example_tx n" 0 None] by (simp add: example_tx_valid)
  have "list_all plain (''STORNO-'' @ replicate 64 CHR ''7'')"
    by (simp add: list_all_iff plain_if_printable)
  then have "\<not> storno_texts_fit (example_tx (replicate 64 CHR ''7'')) None"
    by (simp add: storno_texts_fit_def trim_plain example_tx_def)
  moreover have "storno_texts_fit (example_tx ''T-1'') None" by code_simp
  ultimately show ?thesis using r by blast
qed

end
