(* ===== verification/Idempotency.thy ===== *)
theory Idempotency
  imports Ports
begin

text \<open>
  What the receipted commands of the marketplace crates share: tables with unique constraints,
  JSON values in canonical form, and the contract of a command that is protected by an
  idempotency receipt. Each crate has its own copy of the receipt code; the components define
  theirs and discharge the contract \<open>receipted_command\<close>, from which the replay facts of
  \<open>idempotent_command\<close> follow once and for all.
\<close>

subsection \<open>JSON values\<close>

datatype json =
    JNull | JBool bool | JNumber string | JString string
  | JArray "json list" | JObject "(string \<times> json) list"

text \<open>
  \<open>canonical_json\<close>: objects with their keys in ascending order, at every depth. The entries of
  an object have distinct keys.
\<close>

primrec canonical_json :: "json \<Rightarrow> json" where
  "canonical_json JNull = JNull"
| "canonical_json (JBool b) = JBool b"
| "canonical_json (JNumber n) = JNumber n"
| "canonical_json (JString s) = JString s"
| "canonical_json (JArray vs) = JArray (map canonical_json vs)"
| "canonical_json (JObject kvs) = JObject (sort_key fst (map (map_prod id canonical_json) kvs))"

subsection \<open>Tables with unique constraints\<close>

definition insert_unique :: "('a \<Rightarrow> 'a \<Rightarrow> bool) \<Rightarrow> 'a \<Rightarrow> 'a list \<Rightarrow> 'a list option" where
  "insert_unique clash x xs = (if list_ex (clash x) xs then None else Some (xs @ [x]))"

definition unique_rows :: "('a \<Rightarrow> 'a \<Rightarrow> bool) \<Rightarrow> 'a list \<Rightarrow> bool" where
  "unique_rows clash xs \<longleftrightarrow> sorted_wrt (\<lambda>a b. \<not> clash a b) xs"

locale unique_table =
  fixes clash :: "'a \<Rightarrow> 'a \<Rightarrow> bool"
  assumes clash_sym: "clash a b \<Longrightarrow> clash b a"
    and clash_refl: "clash a a"
begin

lemma insert_unique_Some:
  "insert_unique clash x xs = Some ys \<longleftrightarrow> ys = xs @ [x] \<and> (\<forall>y \<in> set xs. \<not> clash x y)"
  by (auto simp: insert_unique_def list_ex_iff)

lemma insert_unique_None: "insert_unique clash x xs = None \<longleftrightarrow> (\<exists>y \<in> set xs. clash x y)"
  by (auto simp: insert_unique_def list_ex_iff)

lemma unique_snoc:
  "unique_rows clash (xs @ [x]) \<longleftrightarrow> unique_rows clash xs \<and> (\<forall>y \<in> set xs. \<not> clash x y)"
  using clash_sym by (auto simp: unique_rows_def sorted_wrt_append)

lemma unique_insert:
  "unique_rows clash xs \<Longrightarrow> insert_unique clash x xs = Some ys \<Longrightarrow> unique_rows clash ys"
  by (simp add: insert_unique_Some unique_snoc)

lemma unique_eq:
  assumes "unique_rows clash xs" and "x \<in> set xs" and "y \<in> set xs" and "clash x y"
  shows "x = y"
proof -
  obtain i j where ij: "i < length xs" "j < length xs" "x = xs ! i" "y = xs ! j"
    using assms(2,3) by (auto simp: in_set_conv_nth)
  have "\<not> i < j" "\<not> j < i"
    using assms(1,4) ij clash_sym [of x y] by (auto simp: unique_rows_def sorted_wrt_iff_nth_less)
  then have "i = j" by simp
  with ij show ?thesis by simp
qed

lemma unique_append:
  "unique_rows clash (xs @ ys) \<Longrightarrow> x \<in> set xs \<Longrightarrow> y \<in> set ys \<Longrightarrow> \<not> clash x y"
  by (auto simp: unique_rows_def sorted_wrt_append)

lemma unique_find:
  assumes "unique_rows clash xs" and "x \<in> set xs" and "P x" and "\<And>y. P y \<Longrightarrow> clash x y"
  shows "List.find P xs = Some x"
proof (cases "List.find P xs")
  case None
  then show ?thesis using assms(2,3) by (auto simp: find_None_iff)
next
  case (Some y)
  then have "y \<in> set xs" "P y" by (auto simp: find_Some_iff)
  then show ?thesis using Some unique_eq [OF assms(1,2), of y] assms(4) by simp
qed

end

lemma find_append: "List.find P (xs @ ys) = (case List.find P xs of None \<Rightarrow> List.find P ys | Some x \<Rightarrow> Some x)"
  by (induction xs) auto

lemma list_all2_set2_ex: "list_all2 P xs ys \<Longrightarrow> y \<in> set ys \<Longrightarrow> \<exists>x \<in> set xs. P x y"
  by (induction xs ys rule: list_all2_induct) auto

subsection \<open>Commands with a receipt\<close>

text \<open>
  The contract of a command with an idempotency receipt: a success is recorded, a record stays
  whatever commands follow, and the recorded answer is what every repetition of the request
  gets, without further effect.
\<close>

locale idempotent_command =
  fixes run :: "'s \<Rightarrow> 'c \<Rightarrow> 's \<times> ('e + 'r)"
    and valid :: "'s \<Rightarrow> bool"
    and same_request :: "'c \<Rightarrow> 'c \<Rightarrow> bool"
    and recorded :: "'s \<Rightarrow> 'c \<Rightarrow> 'r \<Rightarrow> bool"
  assumes valid_run: "valid s \<Longrightarrow> valid (fst (run s c))"
    and run_records: "valid s \<Longrightarrow> run s c = (s', Inr r) \<Longrightarrow> recorded s' c r"
    and recorded_stays: "valid s \<Longrightarrow> recorded s c r \<Longrightarrow> recorded (fst (run s d)) c r"
    and recorded_same: "recorded s c r \<Longrightarrow> same_request c d \<Longrightarrow> recorded s d r"
    and recorded_replays: "recorded s c r \<Longrightarrow> run s c = (s, Inr r)"
begin

lemma valid_runs: "valid s \<Longrightarrow> valid (foldl (\<lambda>s d. fst (run s d)) s ds)"
  by (induction ds arbitrary: s) (simp_all add: valid_run)

lemma recorded_after:
  "valid s \<Longrightarrow> recorded s c r \<Longrightarrow> recorded (foldl (\<lambda>s d. fst (run s d)) s ds) c r"
  by (induction ds arbitrary: s) (simp_all add: valid_run recorded_stays)

lemma recorded_since:
  assumes "valid s" and "run s c = (s', Inr r)"
  shows "recorded (foldl (\<lambda>s d. fst (run s d)) s' ds) c r"
  using recorded_after [of s' c r ds] run_records [OF assms] valid_run [OF assms(1), of c] assms(2)
  by simp

lemma replay_after:
  assumes "valid s" and "run s c = (s', Inr r)" and "same_request c d"
  shows "run (foldl (\<lambda>s d. fst (run s d)) s' ds) d = (foldl (\<lambda>s d. fst (run s d)) s' ds, Inr r)"
  by (rule recorded_replays [OF recorded_same [OF recorded_since [OF assms(1,2)] assms(3)]])

end

text \<open>
  How the crates implement it. \<open>prepare\<close> validates the command and computes what its receipt is
  bound to; \<open>lookup\<close> finds the receipt of a prepared command in the store and \<open>replay\<close> answers
  from it. A prepared command whose receipt exists is answered from it; one without either fails
  and changes nothing, or leaves a receipt that replays to its answer and keeps all others.
\<close>

locale receipted_command =
  fixes run :: "'s \<Rightarrow> 'c \<Rightarrow> 's \<times> ('e + 'r)"
    and valid :: "'s \<Rightarrow> bool"
    and prepare :: "'c \<Rightarrow> 'e + 'p"
    and lookup :: "'s \<Rightarrow> 'p \<Rightarrow> 'rc option"
    and replay :: "'rc \<Rightarrow> 'p \<Rightarrow> 'e + 'r"
  assumes refused: "prepare c = Inl e \<Longrightarrow> run s c = (s, Inl e)"
    and replayed: "prepare c = Inr p \<Longrightarrow> lookup s p = Some rc \<Longrightarrow> run s c = (s, replay rc p)"
    and fresh: "valid s \<Longrightarrow> prepare c = Inr p \<Longrightarrow> lookup s p = None \<Longrightarrow>
      (\<exists>e. run s c = (s, Inl e))
      \<or> (\<exists>s' r rc. run s c = (s', Inr r) \<and> valid s' \<and> lookup s' p = Some rc \<and> replay rc p = Inr r
           \<and> (\<forall>q x. lookup s q = Some x \<longrightarrow> lookup s' q = Some x))"

sublocale receipted_command \<subseteq> commands: idempotent_command run valid
  "\<lambda>c d. prepare c = prepare d"
  "\<lambda>s c r. \<exists>p rc. prepare c = Inr p \<and> lookup s p = Some rc \<and> replay rc p = Inr r"
proof
  have step: "valid (fst (run s c)) \<and> (\<forall>q x. lookup s q = Some x \<longrightarrow> lookup (fst (run s c)) q = Some x)
      \<and> (\<forall>r. snd (run s c) = Inr r \<longrightarrow> (\<exists>p rc. prepare c = Inr p \<and> lookup (fst (run s c)) p = Some rc
            \<and> replay rc p = Inr r))" if "valid s" for s c
  proof (cases "prepare c")
    case (Inl e)
    then show ?thesis using refused that by simp
  next
    case (Inr p)
    show ?thesis
    proof (cases "lookup s p")
      case None
      from fresh [OF that Inr None] that Inr show ?thesis by auto
    next
      case (Some rc)
      then show ?thesis using replayed [OF Inr Some] that Inr by auto
    qed
  qed
  fix s c s' r d
  show "valid s \<Longrightarrow> valid (fst (run s c))" using step by blast
  show "valid s \<Longrightarrow> run s c = (s', Inr r) \<Longrightarrow>
      \<exists>p rc. prepare c = Inr p \<and> lookup s' p = Some rc \<and> replay rc p = Inr r"
    using step [of s c] by simp
  show "valid s \<Longrightarrow> \<exists>p rc. prepare c = Inr p \<and> lookup s p = Some rc \<and> replay rc p = Inr r \<Longrightarrow>
      \<exists>p rc. prepare c = Inr p \<and> lookup (fst (run s d)) p = Some rc \<and> replay rc p = Inr r"
    using step [of s d] by blast
  show "\<exists>p rc. prepare c = Inr p \<and> lookup s p = Some rc \<and> replay rc p = Inr r \<Longrightarrow> run s c = (s, Inr r)"
    using replayed by fastforce
qed auto

text \<open>
  A command may be followed by work outside of its transaction, which its answer waits for: its
  error replaces the answer, and what the command did stays.
\<close>

fun followed_by :: "'s \<times> ('e + 'r) \<Rightarrow> ('r \<Rightarrow> 's \<Rightarrow> 's \<times> ('e + unit)) \<Rightarrow> 's \<times> ('e + 'r)" where
  "followed_by (s, Inl e) work = (s, Inl e)"
| "followed_by (s, Inr r) work =
     (case work r s of (t, Inl e) \<Rightarrow> (t, Inl e) | (t, Inr _) \<Rightarrow> (t, Inr r))"

lemma followed_by_store: "fst (followed_by (s, Inr r) work) = fst (work r s)"
  by (auto split: prod.splits sum.splits)

locale followed_command = receipted_command run valid prepare lookup replay
  for run :: "'s \<Rightarrow> 'c \<Rightarrow> 's \<times> ('e + 'r)" and valid prepare lookup replay +
  fixes follow :: "'c \<Rightarrow> 'r \<Rightarrow> 's \<Rightarrow> 's \<times> ('e + unit)"
  assumes follow_valid: "valid s \<Longrightarrow> valid (fst (follow c r s))"
    and follow_keeps: "lookup s p = Some rc \<Longrightarrow> lookup (fst (follow c r s)) p = Some rc"
begin

lemma failed_unchanged: "valid s \<Longrightarrow> run s c = (s', Inl e) \<Longrightarrow> s' = s"
proof (cases "prepare c")
  case (Inr p)
  show "valid s \<Longrightarrow> run s c = (s', Inl e) \<Longrightarrow> ?thesis"
  proof (cases "lookup s p")
    case None
    show "valid s \<Longrightarrow> run s c = (s', Inl e) \<Longrightarrow> ?thesis" using fresh [OF _ Inr None] by auto
  next
    case (Some rc)
    show "run s c = (s', Inl e) \<Longrightarrow> ?thesis" using replayed [OF Inr Some] by simp
  qed
qed (simp add: refused)

lemma whole_keeps:
  assumes "valid s" and "\<exists>p rc. prepare c = Inr p \<and> lookup s p = Some rc \<and> replay rc p = Inr r"
  shows "valid (fst (followed_by (run s d) (follow d)))
    \<and> (\<exists>p rc. prepare c = Inr p \<and> lookup (fst (followed_by (run s d) (follow d))) p = Some rc \<and> replay rc p = Inr r)"
proof -
  obtain s1 res where run: "run s d = (s1, res)" by fastforce
  have "valid s1" "\<exists>p rc. prepare c = Inr p \<and> lookup s1 p = Some rc \<and> replay rc p = Inr r"
    using commands.valid_run [OF assms(1), of d] commands.recorded_stays [OF assms, of d] by (simp_all add: run)
  then show ?thesis
    using follow_valid follow_keeps by (cases res) (auto simp: run followed_by_store simp del: followed_by.simps(2))
qed

lemma whole_recorded:
  "valid s \<Longrightarrow> \<exists>p rc. prepare c = Inr p \<and> lookup s p = Some rc \<and> replay rc p = Inr r \<Longrightarrow>
    \<exists>p rc. prepare c = Inr p
      \<and> lookup (foldl (\<lambda>s d. fst (followed_by (run s d) (follow d))) s ds) p = Some rc \<and> replay rc p = Inr r"
proof (induction ds arbitrary: s)
  case (Cons d ds)
  then show ?case using whole_keeps [OF Cons.prems, of d] by simp
qed simp

lemma whole_replays:
  assumes "valid s" and "run s c = (s1, Inr r)" and "prepare d = prepare c"
    and "s'' = foldl (\<lambda>s d. fst (followed_by (run s d) (follow d))) (fst (follow c r s1)) ds"
  shows "run s'' d = (s'', Inr r)"
proof -
  have s1: "valid s1" using commands.valid_run [OF assms(1), of c] assms(2) by simp
  obtain p rc where rc: "prepare c = Inr p" "lookup s1 p = Some rc" "replay rc p = Inr r"
    using commands.run_records [OF assms(1,2)] by blast
  have "\<exists>p rc. prepare c = Inr p \<and> lookup (fst (follow c r s1)) p = Some rc \<and> replay rc p = Inr r"
    using rc follow_keeps [OF rc(2)] by blast
  from whole_recorded [OF follow_valid [OF s1] this] obtain p' rc' where
    "prepare c = Inr p'" "lookup s'' p' = Some rc'" "replay rc' p' = Inr r" unfolding assms(4) by blast
  then show ?thesis using replayed [of d p' s'' rc'] assms(3) by simp
qed

end

end
