(* ===== verification/Marketplace_Allocation.thy ===== *)
theory Marketplace_Allocation
  imports Idempotency
begin

text \<open>
  Allocation of marketplace order lines to sellers
  (\<open>crates/modules/rustok-marketplace-allocation/src\<close>: \<open>service.rs\<close>, \<open>receipts.rs\<close>,
  \<open>dto.rs\<close>, \<open>error.rs\<close>, \<open>ports.rs\<close> and the tables of \<open>entities\<close> with the unique indexes of their
  migration). The two tables are lists of rows; a transaction works on its own copy of the store,
  which replaces the store at commit and is dropped otherwise. A command reads its receipt before
  its transaction begins, so it takes the store it saw then and the store its transaction runs
  on. Parameters, in the record \<open>alloc_env\<close>: the serialiser of the request, the hash of the
  encoded payload, the printing of UUIDs, the clock and the generated identifiers. The stored
  response is the response itself: the JSON column holds its serialisation, which reads back as
  it was written. Database failures other than a unique constraint are left out.
\<close>

subsection \<open>Data\<close>

datatype alloc_status = Allocated | Cancelled

primrec alloc_status_as_str :: "alloc_status \<Rightarrow> string" where
  "alloc_status_as_str Allocated = ''allocated''"
| "alloc_status_as_str Cancelled = ''cancelled''"

definition alloc_status_parse :: "string \<Rightarrow> alloc_status option" where
  "alloc_status_parse s =
     (if s = ''allocated'' then Some Allocated
      else if s = ''cancelled'' then Some Cancelled else None)"

interpretation alloc_status_text: text_codec alloc_status_as_str alloc_status_parse
proof
  show "alloc_status_parse (alloc_status_as_str x) = Some x" for x
    by (cases x) (simp_all add: alloc_status_parse_def)
qed

definition MAX_ALLOCATION_LINES_PER_COMMAND :: nat where "MAX_ALLOCATION_LINES_PER_COMMAND = 500"
definition MAX_ALLOCATIONS_PER_PAGE :: nat where "MAX_ALLOCATIONS_PER_PAGE = 200"
definition MAX_IDEMPOTENCY_KEY_LENGTH :: nat where "MAX_IDEMPOTENCY_KEY_LENGTH = 191"

datatype alloc_error =
    AllocationNotFound uuid
  | LineAlreadyAllocated uuid
  | DuplicateLine uuid
  | IdempotencyConflict
  | ReceiptCorrupt
  | AllocValidation string
  | AllocDatabase string

record alloc_line =
  ln_order_line_item_id :: uuid
  ln_seller_id :: uuid
  ln_listing_id :: uuid
  ln_master_product_id :: uuid
  ln_master_variant_id :: uuid
  ln_quantity :: int
  ln_unit_amount :: int
  ln_subtotal_amount :: int
  ln_discount_amount :: int
  ln_tax_amount :: int
  ln_total_amount :: int
  ln_listing_terms_version :: int
  ln_pricing_reference :: "string option"
  ln_inventory_reference :: "string option"
  ln_fulfillment_profile_slug :: "string option"
  ln_metadata :: json

record alloc_input =
  in_order_id :: uuid
  in_currency_code :: string
  in_lines :: "alloc_line list"

text \<open>A row of the table has its status as text, the response as an \<open>alloc_status\<close>.\<close>

record 'st allocation =
  al_id :: uuid
  al_tenant_id :: uuid
  al_order_id :: uuid
  al_order_line_item_id :: uuid
  al_seller_id :: uuid
  al_listing_id :: uuid
  al_master_product_id :: uuid
  al_master_variant_id :: uuid
  al_quantity :: int
  al_currency_code :: string
  al_unit_amount :: int
  al_subtotal_amount :: int
  al_discount_amount :: int
  al_tax_amount :: int
  al_total_amount :: int
  al_listing_terms_version :: int
  al_pricing_reference :: "string option"
  al_inventory_reference :: "string option"
  al_fulfillment_profile_slug :: "string option"
  al_status :: 'st
  al_metadata :: json
  al_created_at :: int
  al_updated_at :: int

type_synonym alloc_row = "string allocation"
type_synonym alloc_view = "alloc_status allocation"

record alloc_response =
  resp_order_id :: uuid
  resp_currency_code :: string
  resp_allocations :: "alloc_view list"

record alloc_receipt =
  rc_id :: uuid
  rc_tenant_id :: uuid
  rc_actor_id :: uuid
  rc_idempotency_key :: string
  rc_request_kind :: string
  rc_request_hash :: string
  rc_status :: string
  rc_response_json :: "alloc_response option"
  rc_created_at :: int
  rc_completed_at :: "int option"

record alloc_store =
  allocation_rows :: "alloc_row list"
  receipt_rows :: "alloc_receipt list"

record alloc_env =
  to_value :: "alloc_input \<Rightarrow> json option"
  digest_of :: "json \<Rightarrow> string option"
  print_uuid :: "uuid \<Rightarrow> string"
  new_receipt_id :: uuid
  new_allocation_id :: "nat \<Rightarrow> uuid"
  receipt_now :: int
  allocation_now :: int
  completion_now :: int

record new_receipt =
  transaction :: alloc_store
  nr_receipt_id :: uuid
  nr_tenant_id :: uuid

datatype admission = Replay alloc_receipt | New new_receipt

record seller_query =
  sq_seller_id :: uuid
  sq_page :: nat
  sq_per_page :: nat
  sq_status :: "alloc_status option"

record alloc_page =
  pg_items :: "alloc_view list"
  pg_total :: nat
  pg_page :: nat
  pg_per_page :: nat

subsection \<open>Normalisation of a command\<close>

definition require_uuid :: "uuid \<Rightarrow> string \<Rightarrow> alloc_error + unit" where
  "require_uuid v field = ensure (\<not> is_nil v) (AllocValidation (field @ '' must not be nil''))"

definition normalize_currency :: "string \<Rightarrow> alloc_error + string" where
  "normalize_currency v =
     (let v = to_ascii_uppercase (trim v) in
      if length v \<noteq> 3 \<or> \<not> list_all is_ascii_uppercase v
      then Inl (AllocValidation ''currency_code must contain exactly three ASCII letters'')
      else Inr v)"

definition normalize_optional_text ::
    "string option \<Rightarrow> nat \<Rightarrow> string \<Rightarrow> alloc_error + string option" where
  "normalize_optional_text v max_bytes field =
     (case v of
        None \<Rightarrow> Inr None
      | Some s \<Rightarrow>
          let s = trim s in
          if s = [] then Inr None
          else if max_bytes < length s
          then Inl (AllocValidation (field @ '' must not exceed '' @ show_nat max_bytes @ '' bytes''))
          else Inr (Some s))"

definition normalize_metadata :: "json \<Rightarrow> alloc_error + json" where
  "normalize_metadata v =
     (case v of
        JNull \<Rightarrow> Inr (JObject [])
      | JObject kvs \<Rightarrow> Inr v
      | _ \<Rightarrow> Inl (AllocValidation ''metadata must be a JSON object''))"

definition require_amount :: "int \<times> string \<Rightarrow> alloc_error + unit" where
  "require_amount p =
     ensure (0 \<le> fst p) (AllocValidation (snd p @ '' must not be negative''))"

definition check_amounts :: "(uuid \<Rightarrow> string) \<Rightarrow> alloc_line \<Rightarrow> alloc_error + unit" where
  "check_amounts prn l =
     (let line_text = prn (ln_order_line_item_id l) in
      rbind (ok_or (checked_i64 (ln_unit_amount l * ln_quantity l))
        (AllocValidation ''subtotal overflow'')) (\<lambda>expected_subtotal.
      rbind (ensure (ln_subtotal_amount l = expected_subtotal) (AllocValidation
        (''subtotal_amount must equal unit_amount * quantity for line '' @ line_text))) (\<lambda>_.
      rbind (ensure (ln_discount_amount l \<le> ln_subtotal_amount l) (AllocValidation
        (''discount_amount exceeds subtotal_amount for line '' @ line_text))) (\<lambda>_.
      rbind (ok_or (case checked_i64 (ln_subtotal_amount l - ln_discount_amount l) of
                      None \<Rightarrow> None | Some v \<Rightarrow> checked_i64 (v + ln_tax_amount l))
        (AllocValidation ''total overflow'')) (\<lambda>expected_total.
      ensure (ln_total_amount l = expected_total) (AllocValidation
        (''total_amount must equal subtotal_amount - discount_amount + tax_amount for line ''
          @ line_text)))))))"

definition normalize_texts :: "alloc_line \<Rightarrow> alloc_error + alloc_line" where
  "normalize_texts l =
     rbind (normalize_optional_text (ln_pricing_reference l) 191 ''pricing_reference'') (\<lambda>pr.
     rbind (normalize_optional_text (ln_inventory_reference l) 191 ''inventory_reference'') (\<lambda>ir.
     rbind (normalize_optional_text (ln_fulfillment_profile_slug l) 120 ''fulfillment_profile_slug'') (\<lambda>fs.
     rbind (normalize_metadata (ln_metadata l)) (\<lambda>md.
     Inr (l\<lparr>ln_pricing_reference := pr, ln_inventory_reference := ir,
             ln_fulfillment_profile_slug := fs, ln_metadata := md\<rparr>)))))"

definition normalize_line :: "(uuid \<Rightarrow> string) \<Rightarrow> alloc_line \<Rightarrow> alloc_error + alloc_line" where
  "normalize_line prn l =
     rbind (for_each (\<lambda>(v, field). require_uuid v field)
       [(ln_order_line_item_id l, ''order_line_item_id''), (ln_seller_id l, ''seller_id''),
        (ln_listing_id l, ''listing_id''), (ln_master_product_id l, ''master_product_id''),
        (ln_master_variant_id l, ''master_variant_id'')]) (\<lambda>_.
     rbind (ensure (0 < ln_quantity l) (AllocValidation ''quantity must be greater than zero'')) (\<lambda>_.
     rbind (ensure (0 < ln_listing_terms_version l)
       (AllocValidation ''listing_terms_version must be greater than zero'')) (\<lambda>_.
     rbind (for_each require_amount
       [(ln_unit_amount l, ''unit_amount''), (ln_subtotal_amount l, ''subtotal_amount''),
        (ln_discount_amount l, ''discount_amount''), (ln_tax_amount l, ''tax_amount''),
        (ln_total_amount l, ''total_amount'')]) (\<lambda>_.
     rbind (check_amounts prn l) (\<lambda>_.
     normalize_texts l)))))"

fun normalize_lines ::
    "(uuid \<Rightarrow> string) \<Rightarrow> uuid set \<Rightarrow> alloc_line list \<Rightarrow> alloc_error + alloc_line list" where
  "normalize_lines prn seen [] = Inr []"
| "normalize_lines prn seen (l # ls) =
     rbind (normalize_line prn l) (\<lambda>l'.
     if ln_order_line_item_id l' \<in> seen then Inl (DuplicateLine (ln_order_line_item_id l'))
     else rbind (normalize_lines prn (insert (ln_order_line_item_id l') seen) ls)
            (\<lambda>ls'. Inr (l' # ls')))"

definition normalize_allocation_input :: "(uuid \<Rightarrow> string) \<Rightarrow> alloc_input \<Rightarrow> alloc_error + alloc_input" where
  "normalize_allocation_input prn inp =
     rbind (require_uuid (in_order_id inp) ''order_id'') (\<lambda>_.
     rbind (normalize_currency (in_currency_code inp)) (\<lambda>cur.
     if in_lines inp = [] \<or> MAX_ALLOCATION_LINES_PER_COMMAND < length (in_lines inp)
     then Inl (AllocValidation ''allocation command must contain 1 to 500 lines'')
     else rbind (normalize_lines prn {} (in_lines inp)) (\<lambda>ls.
       Inr (inp\<lparr>in_currency_code := cur, in_lines := ls\<rparr>))))"

subsection \<open>Receipts\<close>

definition normalize_idempotency_key :: "string \<Rightarrow> alloc_error + string" where
  "normalize_idempotency_key v =
     (let v = trim v in
      if v = [] \<or> MAX_IDEMPOTENCY_KEY_LENGTH < length v
      then Inl (AllocValidation ''idempotency key must contain 1 to 191 bytes'')
      else Inr v)"

definition allocation_request_hash :: "alloc_env \<Rightarrow> uuid \<Rightarrow> alloc_input \<Rightarrow> alloc_error + string" where
  "allocation_request_hash env actor inp =
     rbind (ensure (\<not> is_nil actor) (AllocValidation ''actor_id must not be nil'')) (\<lambda>_.
     rbind (ok_or (to_value env inp)
       (AllocValidation ''allocation request could not be normalized'')) (\<lambda>request.
     ok_or (digest_of env (JObject
        [(''version'', JNumber ''1''), (''request_kind'', JString ''allocate_order_lines''),
         (''actor_id'', JString (print_uuid env actor)), (''request'', canonical_json request)]))
       (AllocValidation ''allocation request could not be hashed'')))"

definition find_receipt :: "alloc_store \<Rightarrow> uuid \<Rightarrow> string \<Rightarrow> alloc_receipt option" where
  "find_receipt s tenant key =
     List.find (\<lambda>r. rc_tenant_id r = tenant \<and> rc_idempotency_key r = key) (receipt_rows s)"

text \<open>The unique constraints of the two tables: the primary keys and the unique indexes.\<close>

definition receipt_clash :: "alloc_receipt \<Rightarrow> alloc_receipt \<Rightarrow> bool" where
  "receipt_clash a b \<longleftrightarrow> rc_id a = rc_id b
     \<or> rc_tenant_id a = rc_tenant_id b \<and> rc_idempotency_key a = rc_idempotency_key b"

definition allocation_clash :: "alloc_row \<Rightarrow> alloc_row \<Rightarrow> bool" where
  "allocation_clash a b \<longleftrightarrow> al_id a = al_id b
     \<or> al_tenant_id a = al_tenant_id b \<and> al_order_line_item_id a = al_order_line_item_id b"

definition pending_receipt :: "alloc_env \<Rightarrow> uuid \<Rightarrow> uuid \<Rightarrow> string \<Rightarrow> string \<Rightarrow> alloc_receipt" where
  "pending_receipt env tenant actor key hash =
     \<lparr>rc_id = new_receipt_id env, rc_tenant_id = tenant, rc_actor_id = actor,
      rc_idempotency_key = key, rc_request_kind = ''allocate_order_lines'',
      rc_request_hash = hash, rc_status = ''pending'', rc_response_json = None,
      rc_created_at = receipt_now env, rc_completed_at = None\<rparr>"

definition admit_receipt ::
    "alloc_env \<Rightarrow> alloc_store \<Rightarrow> alloc_store \<Rightarrow> uuid \<Rightarrow> uuid \<Rightarrow> string \<Rightarrow> string \<Rightarrow> alloc_error + admission" where
  "admit_receipt env seen s tenant actor key hash =
     (if is_nil tenant \<or> is_nil actor
      then Inl (AllocValidation ''tenant_id and actor_id must not be nil'')
      else case find_receipt seen tenant key of
        Some existing \<Rightarrow> Inr (Replay existing)
      | None \<Rightarrow>
          (case insert_unique receipt_clash (pending_receipt env tenant actor key hash) (receipt_rows s) of
             Some rs \<Rightarrow> Inr (New \<lparr>transaction = s\<lparr>receipt_rows := rs\<rparr>,
                               nr_receipt_id = new_receipt_id env, nr_tenant_id = tenant\<rparr>)
           | None \<Rightarrow>
               (case find_receipt s tenant key of
                  Some existing \<Rightarrow> Inr (Replay existing)
                | None \<Rightarrow> Inl (AllocDatabase ''unique constraint''))))"

definition replay_receipt :: "alloc_receipt \<Rightarrow> string \<Rightarrow> alloc_error + alloc_response" where
  "replay_receipt r expected_hash =
     (if rc_request_kind r \<noteq> ''allocate_order_lines'' \<or> rc_request_hash r \<noteq> expected_hash
      then Inl IdempotencyConflict
      else if rc_status r \<noteq> ''completed'' \<or> rc_completed_at r = None then Inl ReceiptCorrupt
      else ok_or (rc_response_json r) ReceiptCorrupt)"

definition completes :: "new_receipt \<Rightarrow> alloc_receipt \<Rightarrow> bool" where
  "completes nr r \<longleftrightarrow>
     rc_id r = nr_receipt_id nr \<and> rc_tenant_id r = nr_tenant_id nr \<and> rc_status r = ''pending''"

definition completed_receipt :: "alloc_env \<Rightarrow> alloc_response \<Rightarrow> alloc_receipt \<Rightarrow> alloc_receipt" where
  "completed_receipt env resp r =
     r\<lparr>rc_status := ''completed'', rc_response_json := Some resp,
       rc_completed_at := Some (completion_now env)\<rparr>"

text \<open>
  \<open>complete_receipt\<close> commits the transaction over the store \<open>s\<close> it began on, or rolls it
  back; \<open>rollback_receipt\<close> always rolls back.
\<close>

definition complete_receipt ::
    "alloc_env \<Rightarrow> alloc_store \<Rightarrow> new_receipt \<Rightarrow> alloc_response \<Rightarrow> alloc_store \<times> (alloc_error + alloc_response)" where
  "complete_receipt env s nr resp =
     (let tx = transaction nr;
          rs = map (\<lambda>r. if completes nr r then completed_receipt env resp r else r) (receipt_rows tx);
          rows_affected = length (filter (completes nr) (receipt_rows tx)) in
      if rows_affected \<noteq> 1 then (s, Inl ReceiptCorrupt)
      else (tx\<lparr>receipt_rows := rs\<rparr>, Inr resp))"

definition rollback_receipt ::
    "alloc_store \<Rightarrow> new_receipt \<Rightarrow> alloc_error \<Rightarrow> alloc_store \<times> (alloc_error + alloc_response)" where
  "rollback_receipt s nr e = (s, Inl e)"

subsection \<open>Allocation\<close>

definition map_allocation :: "alloc_row \<Rightarrow> alloc_error + alloc_view" where
  "map_allocation m =
     rbind (ok_or (alloc_status_parse (al_status m))
       (AllocValidation (''unknown marketplace allocation status `'' @ al_status m @ ''`''))) (\<lambda>st.
     Inr \<lparr>al_id = al_id m, al_tenant_id = al_tenant_id m, al_order_id = al_order_id m,
          al_order_line_item_id = al_order_line_item_id m, al_seller_id = al_seller_id m,
          al_listing_id = al_listing_id m, al_master_product_id = al_master_product_id m,
          al_master_variant_id = al_master_variant_id m, al_quantity = al_quantity m,
          al_currency_code = al_currency_code m, al_unit_amount = al_unit_amount m,
          al_subtotal_amount = al_subtotal_amount m, al_discount_amount = al_discount_amount m,
          al_tax_amount = al_tax_amount m, al_total_amount = al_total_amount m,
          al_listing_terms_version = al_listing_terms_version m,
          al_pricing_reference = al_pricing_reference m,
          al_inventory_reference = al_inventory_reference m,
          al_fulfillment_profile_slug = al_fulfillment_profile_slug m, al_status = st,
          al_metadata = al_metadata m, al_created_at = al_created_at m,
          al_updated_at = al_updated_at m\<rparr>)"

definition allocation_row :: "alloc_env \<Rightarrow> uuid \<Rightarrow> alloc_input \<Rightarrow> nat \<Rightarrow> alloc_line \<Rightarrow> alloc_row" where
  "allocation_row env tenant inp i l =
     \<lparr>al_id = new_allocation_id env i, al_tenant_id = tenant, al_order_id = in_order_id inp,
      al_order_line_item_id = ln_order_line_item_id l, al_seller_id = ln_seller_id l,
      al_listing_id = ln_listing_id l, al_master_product_id = ln_master_product_id l,
      al_master_variant_id = ln_master_variant_id l, al_quantity = ln_quantity l,
      al_currency_code = in_currency_code inp, al_unit_amount = ln_unit_amount l,
      al_subtotal_amount = ln_subtotal_amount l, al_discount_amount = ln_discount_amount l,
      al_tax_amount = ln_tax_amount l, al_total_amount = ln_total_amount l,
      al_listing_terms_version = ln_listing_terms_version l,
      al_pricing_reference = ln_pricing_reference l,
      al_inventory_reference = ln_inventory_reference l,
      al_fulfillment_profile_slug = ln_fulfillment_profile_slug l,
      al_status = alloc_status_as_str Allocated, al_metadata = ln_metadata l,
      al_created_at = allocation_now env, al_updated_at = allocation_now env\<rparr>"

fun insert_lines ::
    "alloc_env \<Rightarrow> uuid \<Rightarrow> alloc_input \<Rightarrow> nat \<Rightarrow> alloc_line list \<Rightarrow> alloc_row list
     \<Rightarrow> alloc_error + alloc_row list \<times> alloc_view list" where
  "insert_lines env tenant inp i [] rows = Inr (rows, [])"
| "insert_lines env tenant inp i (l # ls) rows =
     (let model = allocation_row env tenant inp i l in
      rbind (ok_or (insert_unique allocation_clash model rows)
        (LineAlreadyAllocated (ln_order_line_item_id l))) (\<lambda>rows'.
      rbind (map_allocation model) (\<lambda>v.
      rbind (insert_lines env tenant inp (Suc i) ls rows') (\<lambda>(rows'', vs).
      Inr (rows'', v # vs)))))"

definition existing_lines :: "uuid \<Rightarrow> alloc_line list \<Rightarrow> alloc_row list \<Rightarrow> alloc_row list" where
  "existing_lines tenant ls rows =
     sort_key al_order_line_item_id (filter (\<lambda>r. al_tenant_id r = tenant
       \<and> al_order_line_item_id r \<in> set (map ln_order_line_item_id ls)) rows)"

definition allocate_in_transaction ::
    "alloc_env \<Rightarrow> new_receipt \<Rightarrow> uuid \<Rightarrow> alloc_input \<Rightarrow> alloc_error + alloc_store \<times> alloc_response" where
  "allocate_in_transaction env nr tenant inp =
     (case existing_lines tenant (in_lines inp) (allocation_rows (transaction nr)) of
        existing # _ \<Rightarrow> Inl (LineAlreadyAllocated (al_order_line_item_id existing))
      | [] \<Rightarrow>
          rbind (insert_lines env tenant inp 0 (in_lines inp) (allocation_rows (transaction nr)))
            (\<lambda>(rows, vs).
          Inr ((transaction nr)\<lparr>allocation_rows := rows\<rparr>,
               \<lparr>resp_order_id = in_order_id inp, resp_currency_code = in_currency_code inp,
                resp_allocations = vs\<rparr>)))"

definition prepare_command ::
    "alloc_env \<Rightarrow> uuid \<Rightarrow> uuid \<Rightarrow> string \<Rightarrow> alloc_input \<Rightarrow> alloc_error + alloc_input \<times> string \<times> string" where
  "prepare_command env tenant actor key inp =
     rbind (require_uuid tenant ''tenant_id'') (\<lambda>_.
     rbind (require_uuid actor ''actor_id'') (\<lambda>_.
     rbind (normalize_allocation_input (print_uuid env) inp) (\<lambda>inp.
     rbind (normalize_idempotency_key key) (\<lambda>key.
     rbind (allocation_request_hash env actor inp) (\<lambda>hash.
     Inr (inp, key, hash))))))"

definition allocate_order_lines_with_receipt ::
    "alloc_env \<Rightarrow> alloc_store \<Rightarrow> alloc_store \<Rightarrow> uuid \<Rightarrow> uuid \<Rightarrow> string \<Rightarrow> alloc_input
     \<Rightarrow> alloc_store \<times> (alloc_error + alloc_response)" where
  "allocate_order_lines_with_receipt env seen s tenant actor key inp =
     (case prepare_command env tenant actor key inp of
        Inl e \<Rightarrow> (s, Inl e)
      | Inr (inp, key, hash) \<Rightarrow>
          (case admit_receipt env seen s tenant actor key hash of
             Inl e \<Rightarrow> (s, Inl e)
           | Inr (Replay receipt) \<Rightarrow> (s, replay_receipt receipt hash)
           | Inr (New receipt) \<Rightarrow>
               (case allocate_in_transaction env receipt tenant inp of
                  Inr (tx, response) \<Rightarrow>
                    complete_receipt env s (receipt\<lparr>transaction := tx\<rparr>) response
                | Inl e \<Rightarrow> rollback_receipt s receipt e)))"

subsection \<open>Queries\<close>

definition get_by_order_line :: "alloc_store \<Rightarrow> uuid \<Rightarrow> uuid \<Rightarrow> alloc_error + alloc_view" where
  "get_by_order_line s tenant line =
     rbind (require_uuid tenant ''tenant_id'') (\<lambda>_.
     rbind (require_uuid line ''order_line_item_id'') (\<lambda>_.
     rbind (ok_or (List.find (\<lambda>r. al_tenant_id r = tenant \<and> al_order_line_item_id r = line)
              (allocation_rows s)) (AllocationNotFound line)) map_allocation))"

definition list_by_order :: "alloc_store \<Rightarrow> uuid \<Rightarrow> uuid \<Rightarrow> alloc_error + alloc_view list" where
  "list_by_order s tenant order =
     rbind (require_uuid tenant ''tenant_id'') (\<lambda>_.
     rbind (require_uuid order ''order_id'') (\<lambda>_.
     try_map map_allocation (sort_key al_created_at (sort_key al_id
       (filter (\<lambda>r. al_tenant_id r = tenant \<and> al_order_id r = order) (allocation_rows s))))))"

definition seller_rows :: "alloc_store \<Rightarrow> uuid \<Rightarrow> seller_query \<Rightarrow> alloc_row list" where
  "seller_rows s tenant q =
     sort_key (\<lambda>r. - al_created_at r) (sort_key (\<lambda>r. - uint (al_id r))
       (filter (\<lambda>r. al_tenant_id r = tenant \<and> al_seller_id r = sq_seller_id q
          \<and> (case sq_status q of None \<Rightarrow> True | Some st \<Rightarrow> al_status r = alloc_status_as_str st))
         (allocation_rows s)))"

definition list_by_seller :: "alloc_store \<Rightarrow> uuid \<Rightarrow> seller_query \<Rightarrow> alloc_error + alloc_page" where
  "list_by_seller s tenant q =
     rbind (require_uuid tenant ''tenant_id'') (\<lambda>_.
     rbind (require_uuid (sq_seller_id q) ''seller_id'') (\<lambda>_.
     let page = max (sq_page q) 1;
         per_page = min (max (sq_per_page q) 1) MAX_ALLOCATIONS_PER_PAGE;
         rows = seller_rows s tenant q in
     rbind (try_map map_allocation (take per_page (drop (per_page * (page - 1)) rows))) (\<lambda>items.
     Inr \<lparr>pg_items = items, pg_total = length rows, pg_page = page, pg_per_page = per_page\<rparr>)))"

subsection \<open>The ports of the service\<close>

definition parse_tenant_id :: "(string \<Rightarrow> uuid option) \<Rightarrow> port_context \<Rightarrow> port_error + uuid" where
  "parse_tenant_id parse_uuid ctx =
     rbind (ok_or (parse_uuid (ctx_tenant_id ctx)) (err_validation ''marketplace_allocation.tenant_id_invalid''
       ''PortContext.tenant_id must be a UUID for marketplace allocation ports'')) (\<lambda>i.
     if is_nil i then Inl (err_validation ''marketplace_allocation.tenant_id_invalid''
       ''PortContext.tenant_id must not be nil for marketplace allocation ports'')
     else Inr i)"

definition parse_actor_id :: "(string \<Rightarrow> uuid option) \<Rightarrow> port_context \<Rightarrow> port_error + uuid" where
  "parse_actor_id parse_uuid ctx =
     rbind (ok_or (parse_uuid (actor_id (ctx_actor ctx))) (err_validation ''marketplace_allocation.actor_id_invalid''
       ''write PortContext.actor.id must be a UUID for marketplace allocation audit'')) (\<lambda>i.
     if is_nil i then Inl (err_validation ''marketplace_allocation.actor_id_invalid''
       ''write PortContext.actor.id must not be nil for marketplace allocation audit'')
     else Inr i)"

definition parse_idempotency_key :: "port_context \<Rightarrow> port_error + string" where
  "parse_idempotency_key ctx =
     ok_or (case idempotency_key ctx of None \<Rightarrow> None | Some k \<Rightarrow> if trim k = [] then None else Some (trim k))
       (err_validation ''marketplace_allocation.idempotency_key_required''
         ''marketplace allocation write requires an idempotency key'')"

fun map_owner_error :: "(uuid \<Rightarrow> string) \<Rightarrow> alloc_error \<Rightarrow> port_error" where
  "map_owner_error prn (AllocationNotFound l) = err_not_found ''marketplace_allocation.not_found''
     (''marketplace allocation for order line '' @ prn l @ '' was not found'')"
| "map_owner_error prn (LineAlreadyAllocated l) = err_conflict ''marketplace_allocation.line_already_allocated''
     (''order line '' @ prn l @ '' is already allocated'')"
| "map_owner_error prn (DuplicateLine l) = err_validation ''marketplace_allocation.duplicate_line''
     (''order line '' @ prn l @ '' appears more than once'')"
| "map_owner_error prn IdempotencyConflict = err_conflict ''marketplace_allocation.idempotency_conflict''
     ''allocation idempotency key is already bound to another request''"
| "map_owner_error prn ReceiptCorrupt = err_invariant_violation ''marketplace_allocation.receipt_corrupt''
     ''allocation receipt requires operator review''"
| "map_owner_error prn (AllocValidation m) = err_validation ''marketplace_allocation.validation'' m"
| "map_owner_error prn (AllocDatabase m) = port_error_new Unavailable ''marketplace_allocation.storage_unavailable''
     ''marketplace allocation storage is temporarily unavailable'' True"

definition port_read_allocation_by_line ::
    "(string \<Rightarrow> uuid option) \<Rightarrow> (uuid \<Rightarrow> string) \<Rightarrow> alloc_store \<Rightarrow> port_context \<Rightarrow> uuid \<Rightarrow> port_error + alloc_view" where
  "port_read_allocation_by_line parse_uuid prn s ctx line =
     rbind (require_policy ctx policy_read) (\<lambda>_.
     rbind (ensure (\<not> is_nil line) (err_validation ''marketplace_allocation.order_line_item_id_invalid''
       ''order_line_item_id must not be nil'')) (\<lambda>_.
     rbind (parse_tenant_id parse_uuid ctx) (\<lambda>tenant.
     map_err (map_owner_error prn) (get_by_order_line s tenant line))))"

definition port_list_allocations_by_order ::
    "(string \<Rightarrow> uuid option) \<Rightarrow> (uuid \<Rightarrow> string) \<Rightarrow> alloc_store \<Rightarrow> port_context \<Rightarrow> uuid \<Rightarrow> port_error + alloc_view list" where
  "port_list_allocations_by_order parse_uuid prn s ctx order =
     rbind (require_policy ctx policy_read) (\<lambda>_.
     rbind (ensure (\<not> is_nil order) (err_validation ''marketplace_allocation.order_id_invalid''
       ''order_id must not be nil'')) (\<lambda>_.
     rbind (parse_tenant_id parse_uuid ctx) (\<lambda>tenant.
     map_err (map_owner_error prn) (list_by_order s tenant order))))"

definition port_list_allocations_by_seller ::
    "(string \<Rightarrow> uuid option) \<Rightarrow> (uuid \<Rightarrow> string) \<Rightarrow> alloc_store \<Rightarrow> port_context \<Rightarrow> seller_query \<Rightarrow> port_error + alloc_page" where
  "port_list_allocations_by_seller parse_uuid prn s ctx q =
     rbind (require_policy ctx policy_read) (\<lambda>_.
     rbind (ensure (\<not> is_nil (sq_seller_id q)) (err_validation ''marketplace_allocation.seller_id_invalid''
       ''seller_id must not be nil'')) (\<lambda>_.
     rbind (parse_tenant_id parse_uuid ctx) (\<lambda>tenant.
     map_err (map_owner_error prn) (list_by_seller s tenant q))))"

definition port_allocate_order_lines ::
    "(string \<Rightarrow> uuid option) \<Rightarrow> alloc_env \<Rightarrow> alloc_store \<Rightarrow> alloc_store \<Rightarrow> port_context \<Rightarrow> alloc_input
     \<Rightarrow> alloc_store \<times> (port_error + alloc_response)" where
  "port_allocate_order_lines parse_uuid env seen s ctx inp =
     (case rbind (require_policy ctx policy_write) (\<lambda>_.
           rbind (parse_tenant_id parse_uuid ctx) (\<lambda>tenant.
           rbind (parse_actor_id parse_uuid ctx) (\<lambda>actor.
           rbind (parse_idempotency_key ctx) (\<lambda>key. Inr (tenant, actor, key))))) of
        Inl e \<Rightarrow> (s, Inl e)
      | Inr (tenant, actor, key) \<Rightarrow>
          let (s', res) = allocate_order_lines_with_receipt env seen s tenant actor key inp in
          (s', map_err (map_owner_error (print_uuid env)) res))"

subsection \<open>Normal form of a command\<close>

definition consistent_line :: "alloc_line \<Rightarrow> bool" where
  "consistent_line l \<longleftrightarrow>
     \<not> is_nil (ln_order_line_item_id l) \<and> \<not> is_nil (ln_seller_id l) \<and> \<not> is_nil (ln_listing_id l)
     \<and> \<not> is_nil (ln_master_product_id l) \<and> \<not> is_nil (ln_master_variant_id l)
     \<and> 0 < ln_quantity l \<and> 0 < ln_listing_terms_version l
     \<and> 0 \<le> ln_unit_amount l \<and> ln_subtotal_amount l = ln_unit_amount l * ln_quantity l
     \<and> 0 \<le> ln_discount_amount l \<and> ln_discount_amount l \<le> ln_subtotal_amount l
     \<and> 0 \<le> ln_tax_amount l
     \<and> ln_total_amount l = ln_subtotal_amount l - ln_discount_amount l + ln_tax_amount l
     \<and> in_i64 (ln_subtotal_amount l) \<and> in_i64 (ln_total_amount l)"

lemma in_i64_difference: "0 \<le> d \<Longrightarrow> d \<le> s \<Longrightarrow> in_i64 s \<Longrightarrow> in_i64 (s - d)"
  by (simp add: i64_arith)

lemma normalize_currency_Inr:
  assumes "normalize_currency v = Inr c"
  shows "length c = 3" "list_all is_ascii_uppercase c" "normalize_currency c = Inr c"
proof -
  show c: "length c = 3" "list_all is_ascii_uppercase c"
    using assms by (auto simp: normalize_currency_def Let_def split: if_splits)
  then show "normalize_currency c = Inr c" by (simp add: normalize_currency_def upper_text)
qed

lemma normalize_optional_text_idem:
  "normalize_optional_text v n f = Inr w \<Longrightarrow> normalize_optional_text w n f = Inr w"
  by (auto simp: normalize_optional_text_def Let_def split: option.splits if_splits)

lemma normalize_metadata_idem: "normalize_metadata v = Inr w \<Longrightarrow> normalize_metadata w = Inr w"
  by (cases v) (auto simp: normalize_metadata_def)

lemma normalize_texts_Inr:
  assumes "normalize_texts l = Inr l'"
  shows "normalize_texts l' = Inr l'" and "consistent_line l' = consistent_line l"
    and "ln_order_line_item_id l' = ln_order_line_item_id l"
proof -
  obtain pr ir fs md where
    n: "normalize_optional_text (ln_pricing_reference l) 191 ''pricing_reference'' = Inr pr"
      "normalize_optional_text (ln_inventory_reference l) 191 ''inventory_reference'' = Inr ir"
      "normalize_optional_text (ln_fulfillment_profile_slug l) 120 ''fulfillment_profile_slug'' = Inr fs"
      "normalize_metadata (ln_metadata l) = Inr md"
    and l': "l' = l\<lparr>ln_pricing_reference := pr, ln_inventory_reference := ir,
        ln_fulfillment_profile_slug := fs, ln_metadata := md\<rparr>"
    using assms by (auto simp: normalize_texts_def)
  show "normalize_texts l' = Inr l'"
    using n(1-3) [THEN normalize_optional_text_idem] n(4) [THEN normalize_metadata_idem]
    by (simp add: normalize_texts_def l')
  show "consistent_line l' = consistent_line l"
    "ln_order_line_item_id l' = ln_order_line_item_id l"
    by (simp_all add: l' consistent_line_def)
qed

lemma check_amounts_Inr:
  "0 \<le> ln_discount_amount l \<Longrightarrow>
   check_amounts prn l = Inr () \<longleftrightarrow>
     in_i64 (ln_subtotal_amount l) \<and> ln_subtotal_amount l = ln_unit_amount l * ln_quantity l
     \<and> ln_discount_amount l \<le> ln_subtotal_amount l \<and> in_i64 (ln_total_amount l)
     \<and> ln_total_amount l = ln_subtotal_amount l - ln_discount_amount l + ln_tax_amount l"
  using in_i64_difference [of "ln_discount_amount l" "ln_subtotal_amount l"]
  by (auto simp: check_amounts_def Let_def split: option.splits)

lemma normalize_line_consistent:
  "normalize_line prn l = Inr l' \<longleftrightarrow> consistent_line l \<and> normalize_texts l = Inr l'"
proof (cases "0 \<le> ln_discount_amount l")
  case True
  have "0 \<le> ln_total_amount l" if "consistent_line l"
    using that by (simp add: consistent_line_def)
  moreover have "0 \<le> ln_subtotal_amount l" if "consistent_line l"
    using that by (simp add: consistent_line_def)
  ultimately show ?thesis
    using check_amounts_Inr [OF True]
    by (auto simp: normalize_line_def consistent_line_def require_uuid_def require_amount_def)
next
  case False
  then show ?thesis
    by (auto simp: normalize_line_def consistent_line_def require_amount_def)
qed

lemma normalize_line_idem:
  "normalize_line prn l = Inr l' \<Longrightarrow> normalize_line prn l' = Inr l' \<and> consistent_line l'
     \<and> ln_order_line_item_id l' = ln_order_line_item_id l"
  using normalize_texts_Inr [of l l'] by (simp add: normalize_line_consistent)

lemma normalize_lines_Inr:
  "normalize_lines prn seen ls = Inr ls' \<Longrightarrow>
     length ls' = length ls \<and> map ln_order_line_item_id ls' = map ln_order_line_item_id ls
     \<and> distinct (map ln_order_line_item_id ls)
     \<and> ln_order_line_item_id ` set ls \<inter> seen = {}
     \<and> (\<forall>l \<in> set ls'. consistent_line l) \<and> normalize_lines prn seen ls' = Inr ls'"
proof (induction prn seen ls arbitrary: ls' rule: normalize_lines.induct)
  case (2 sh seen l ls)
  then obtain l' k where l': "normalize_line sh l = Inr l'" "ls' = l' # k"
    and n: "ln_order_line_item_id l' \<notin> seen"
    and k: "normalize_lines sh (insert (ln_order_line_item_id l') seen) ls = Inr k"
    by (auto split: if_splits)
  from 2(1) [OF n k] normalize_line_idem [OF l'(1)] n show ?case
    by (simp add: l'(2))
qed simp

text \<open>
  C37: every accepted allocation command is in normal form. It has 1 to 500 lines with distinct
  line identifiers, an upper-case currency code of three letters, and amounts that fit together
  on every line: the subtotal is the price times a positive quantity, the discount is at most
  the subtotal, the total is the subtotal less the discount plus the tax, all without overflow.
  Normalising it again changes nothing.
\<close>

theorem accepted_command_normal:
  assumes "normalize_allocation_input prn inp = Inr inp'"
  shows "normalize_allocation_input prn inp' = Inr inp'
    \<and> 1 \<le> length (in_lines inp') \<and> length (in_lines inp') \<le> 500
    \<and> map ln_order_line_item_id (in_lines inp') = map ln_order_line_item_id (in_lines inp)
    \<and> distinct (map ln_order_line_item_id (in_lines inp'))
    \<and> length (in_currency_code inp') = 3 \<and> list_all is_ascii_uppercase (in_currency_code inp')
    \<and> list_all (\<lambda>l. 0 < ln_quantity l \<and> ln_subtotal_amount l = ln_unit_amount l * ln_quantity l
         \<and> 0 \<le> ln_discount_amount l \<and> ln_discount_amount l \<le> ln_subtotal_amount l
         \<and> 0 \<le> ln_tax_amount l
         \<and> ln_total_amount l = ln_subtotal_amount l - ln_discount_amount l + ln_tax_amount l
         \<and> in_i64 (ln_subtotal_amount l) \<and> in_i64 (ln_total_amount l)) (in_lines inp')"
proof -
  obtain cur ls where n: "\<not> is_nil (in_order_id inp)" "normalize_currency (in_currency_code inp) = Inr cur"
    "in_lines inp \<noteq> []" "length (in_lines inp) \<le> 500" "normalize_lines prn {} (in_lines inp) = Inr ls"
    and inp': "inp' = inp\<lparr>in_currency_code := cur, in_lines := ls\<rparr>"
    using assms
    by (auto simp: normalize_allocation_input_def require_uuid_def MAX_ALLOCATION_LINES_PER_COMMAND_def
        split: if_splits)
  note lines = normalize_lines_Inr [OF n(5)] and cur = normalize_currency_Inr [OF n(2)]
  have "ls \<noteq> []" using lines n(3) by auto
  then have "1 \<le> length ls" "normalize_allocation_input prn inp' = Inr inp'"
    using n lines cur
    by (simp_all add: normalize_allocation_input_def require_uuid_def inp' Suc_le_eq
        MAX_ALLOCATION_LINES_PER_COMMAND_def)
  moreover have "list_all (\<lambda>l. 0 < ln_quantity l \<and> ln_subtotal_amount l = ln_unit_amount l * ln_quantity l
         \<and> 0 \<le> ln_discount_amount l \<and> ln_discount_amount l \<le> ln_subtotal_amount l
         \<and> 0 \<le> ln_tax_amount l
         \<and> ln_total_amount l = ln_subtotal_amount l - ln_discount_amount l + ln_tax_amount l
         \<and> in_i64 (ln_subtotal_amount l) \<and> in_i64 (ln_total_amount l)) ls"
    using lines unfolding consistent_line_def list_all_iff by blast
  moreover have "distinct (map ln_order_line_item_id (in_lines inp))" using lines by metis
  ultimately show ?thesis
    using n(4) lines cur(1,2) by (simp add: inp')
qed

subsection \<open>The tables\<close>

interpretation receipt_table: unique_table receipt_clash
  by unfold_locales (auto simp: receipt_clash_def)

interpretation allocation_table: unique_table allocation_clash
  by unfold_locales (auto simp: allocation_clash_def)

definition store_ok :: "alloc_store \<Rightarrow> bool" where
  "store_ok s \<longleftrightarrow>
     unique_rows allocation_clash (allocation_rows s) \<and> unique_rows receipt_clash (receipt_rows s)"

definition new_rows :: "alloc_env \<Rightarrow> uuid \<Rightarrow> alloc_input \<Rightarrow> nat \<Rightarrow> alloc_line list \<Rightarrow> alloc_row list" where
  "new_rows env tenant inp i ls = map (\<lambda>(j, l). allocation_row env tenant inp j l) (enumerate i ls)"

lemma new_rows_simps [simp]:
  "new_rows env tenant inp i [] = []"
  "new_rows env tenant inp i (l # ls)
     = allocation_row env tenant inp i l # new_rows env tenant inp (Suc i) ls"
  by (simp_all add: new_rows_def)

lemma new_rows_keys:
  "map al_order_line_item_id (new_rows env tenant inp i ls) = map ln_order_line_item_id ls"
  "r \<in> set (new_rows env tenant inp i ls) \<Longrightarrow>
     al_tenant_id r = tenant \<and> al_order_id r = in_order_id inp
     \<and> al_currency_code r = in_currency_code inp \<and> al_status r = ''allocated''"
  by (induction ls arbitrary: i) (auto simp: allocation_row_def)

lemma set_new_rows_lines:
  "al_order_line_item_id ` set (new_rows env tenant inp i ls) = ln_order_line_item_id ` set ls"
  by (metis list.set_map new_rows_keys(1))

lemma insert_lines_Inr:
  "insert_lines env tenant inp i ls rows = Inr (rows', vs) \<Longrightarrow>
     rows' = rows @ new_rows env tenant inp i ls
     \<and> try_map map_allocation (new_rows env tenant inp i ls) = Inr vs
     \<and> (unique_rows allocation_clash rows \<longrightarrow> unique_rows allocation_clash rows')"
proof (induction ls arbitrary: i rows rows' vs)
  case (Cons l ls)
  let ?m = "allocation_row env tenant inp i l"
  from Cons.prems obtain rs v vs' where
    step: "insert_unique allocation_clash ?m rows = Some rs" "map_allocation ?m = Inr v"
      "insert_lines env tenant inp (Suc i) ls rs = Inr (rows', vs')" "vs = v # vs'"
    by (auto simp: Let_def)
  from Cons.IH [OF step(3)] step(1,2,4) allocation_table.unique_insert [OF _ step(1)]
  show ?case by (auto simp: allocation_table.insert_unique_Some)
qed simp

lemma find_receipt_Some:
  assumes "find_receipt s tenant key = Some r"
  shows "r \<in> set (receipt_rows s)" "rc_tenant_id r = tenant" "rc_idempotency_key r = key"
  using assms by (auto simp: find_receipt_def find_Some_iff)

lemma find_receipt_None:
  "find_receipt s tenant key = None \<longleftrightarrow>
     (\<forall>r \<in> set (receipt_rows s). \<not> (rc_tenant_id r = tenant \<and> rc_idempotency_key r = key))"
  by (auto simp: find_receipt_def find_None_iff)

lemma pending_clash:
  "receipt_clash (pending_receipt env tenant actor key hash) r \<longleftrightarrow>
     rc_id r = new_receipt_id env \<or> rc_tenant_id r = tenant \<and> rc_idempotency_key r = key"
  by (auto simp: receipt_clash_def pending_receipt_def)

subsection \<open>Outcomes of a command\<close>

text \<open>
  \<open>commits\<close>: the command inserts one row per line and its completed receipt, and answers with
  the rows as stored.
\<close>

definition commits ::
    "alloc_env \<Rightarrow> alloc_store \<Rightarrow> uuid \<Rightarrow> uuid \<Rightarrow> alloc_input \<times> string \<times> string \<Rightarrow> alloc_store \<Rightarrow> alloc_response \<Rightarrow> bool" where
  "commits env s tenant actor p s' resp \<longleftrightarrow>
     (case p of (inp, key, hash) \<Rightarrow>
        find_receipt s tenant key = None
        \<and> existing_lines tenant (in_lines inp) (allocation_rows s) = []
        \<and> try_map map_allocation (new_rows env tenant inp 0 (in_lines inp)) = Inr (resp_allocations resp)
        \<and> resp_order_id resp = in_order_id inp \<and> resp_currency_code resp = in_currency_code inp
        \<and> allocation_rows s' = allocation_rows s @ new_rows env tenant inp 0 (in_lines inp)
        \<and> receipt_rows s' = receipt_rows s
             @ [completed_receipt env resp (pending_receipt env tenant actor key hash)]
        \<and> store_ok s')"

lemma admit_New:
  assumes "admit_receipt env seen s tenant actor key hash = Inr (New nr)"
  shows "nr = \<lparr>transaction = s\<lparr>receipt_rows := receipt_rows s @ [pending_receipt env tenant actor key hash]\<rparr>,
               nr_receipt_id = new_receipt_id env, nr_tenant_id = tenant\<rparr>"
    and "\<forall>r \<in> set (receipt_rows s). \<not> receipt_clash (pending_receipt env tenant actor key hash) r"
  using assms
  by (auto simp: admit_receipt_def receipt_table.insert_unique_Some split: if_splits option.splits)

lemma admit_Replay:
  assumes "admit_receipt env seen s tenant actor key hash = Inr (Replay r)"
  shows "find_receipt seen tenant key = Some r \<or> find_receipt s tenant key = Some r"
  using assms by (auto simp: admit_receipt_def split: if_splits option.splits)

lemma complete_new_receipt:
  assumes "\<forall>r \<in> set (receipt_rows s). rc_id r \<noteq> rc_id p" and "rc_status p = ''pending''"
    and "receipt_rows tx = receipt_rows s @ [p]"
  shows "complete_receipt env s \<lparr>transaction = tx, nr_receipt_id = rc_id p, nr_tenant_id = rc_tenant_id p\<rparr> resp
     = (tx\<lparr>receipt_rows := receipt_rows s @ [completed_receipt env resp p]\<rparr>, Inr resp)"
proof -
  let ?nr = "\<lparr>transaction = tx, nr_receipt_id = rc_id p, nr_tenant_id = rc_tenant_id p\<rparr>"
  have "\<not> completes ?nr r" if "r \<in> set (receipt_rows s)" for r
    using assms(1) that by (auto simp: completes_def)
  then have "filter (completes ?nr) (receipt_rows s) = []"
    "map (\<lambda>r. if completes ?nr r then completed_receipt env resp r else r) (receipt_rows s) = receipt_rows s"
    by (auto simp: filter_empty_conv intro: map_idI)
  moreover have "completes ?nr p" using assms(2) by (simp add: completes_def)
  ultimately show ?thesis using assms(3) by (simp add: complete_receipt_def Let_def)
qed

lemma transaction_commits:
  assumes "store_ok s" and "admit_receipt env seen s tenant actor k h = Inr (New nr)"
    and "allocate_in_transaction env nr tenant inp = Inr (tx, resp)"
  shows "\<exists>s'. complete_receipt env s (nr\<lparr>transaction := tx\<rparr>) resp = (s', Inr resp)
           \<and> commits env s tenant actor (inp, k, h) s' resp"
proof -
  let ?p = "pending_receipt env tenant actor k h"
  note nr = admit_New(1) [OF assms(2)] and fresh = admit_New(2) [OF assms(2)]
  obtain rows vs where ins: "insert_lines env tenant inp 0 (in_lines inp) (allocation_rows s) = Inr (rows, vs)"
    and ex: "existing_lines tenant (in_lines inp) (allocation_rows s) = []"
    and tx: "tx = s\<lparr>receipt_rows := receipt_rows s @ [?p], allocation_rows := rows\<rparr>"
    and resp: "resp = \<lparr>resp_order_id = in_order_id inp, resp_currency_code = in_currency_code inp,
                       resp_allocations = vs\<rparr>"
    using assms(3) by (auto simp: allocate_in_transaction_def nr split: list.splits)
  let ?s' = "tx\<lparr>receipt_rows := receipt_rows s @ [completed_receipt env resp ?p]\<rparr>"
  have "complete_receipt env s \<lparr>transaction = tx, nr_receipt_id = rc_id ?p, nr_tenant_id = rc_tenant_id ?p\<rparr> resp
      = (?s', Inr resp)"
    using fresh
    by (intro complete_new_receipt) (auto simp: receipt_clash_def tx, simp_all add: pending_receipt_def)
  then have "complete_receipt env s (nr\<lparr>transaction := tx\<rparr>) resp = (?s', Inr resp)"
    by (simp add: nr pending_receipt_def)
  moreover have "unique_rows receipt_clash (receipt_rows s @ [completed_receipt env resp ?p])"
    using assms(1) fresh
    by (auto simp: store_ok_def unique_rows_def sorted_wrt_append receipt_clash_def
        completed_receipt_def pending_receipt_def)
  ultimately show ?thesis
    using insert_lines_Inr [OF ins] assms(1) fresh ex
    by (auto simp: commits_def store_ok_def find_receipt_None pending_clash tx resp)
qed

lemma command_outcome:
  assumes "store_ok s"
    and "allocate_order_lines_with_receipt env seen s tenant actor key inp = (s', res)"
  shows "s' = s \<and> (\<forall>resp. res = Inr resp \<longrightarrow> (\<exists>inp' k h r.
             prepare_command env tenant actor key inp = Inr (inp', k, h)
             \<and> (find_receipt seen tenant k = Some r \<or> find_receipt s tenant k = Some r)
             \<and> replay_receipt r h = Inr resp))
    \<or> (\<exists>p resp. prepare_command env tenant actor key inp = Inr p \<and> res = Inr resp
         \<and> commits env s tenant actor p s' resp)"
proof (cases "prepare_command env tenant actor key inp")
  case (Inl e)
  then show ?thesis using assms(2) by (auto simp: allocate_order_lines_with_receipt_def)
next
  case prep: (Inr p)
  obtain inp' k h where p: "p = (inp', k, h)" by (cases p) auto
  note run = assms(2) [unfolded allocate_order_lines_with_receipt_def prep p sum.case prod.case]
  show ?thesis
  proof (cases "admit_receipt env seen s tenant actor k h")
    case (Inl e)
    with run show ?thesis by auto
  next
    case adm: (Inr a)
    show ?thesis
    proof (cases a)
      case (Replay r)
      with adm run admit_Replay [of env seen s tenant actor k h r] prep p show ?thesis by auto
    next
      case (New nr)
      note adm = adm [unfolded New]
      show ?thesis
      proof (cases "allocate_in_transaction env nr tenant inp'")
        case (Inl e)
        with adm run show ?thesis by (auto simp: rollback_receipt_def)
      next
        case (Inr t)
        then obtain tx resp where "allocate_in_transaction env nr tenant inp' = Inr (tx, resp)"
          by (cases t) auto
        with transaction_commits [OF assms(1) adm this] adm run prep p show ?thesis by auto
      qed
    qed
  qed
qed

lemma prepare_Inr:
  assumes "prepare_command env tenant actor key inp = Inr (inp', k, h)"
  shows "\<not> is_nil tenant" "\<not> is_nil actor"
    "normalize_allocation_input (print_uuid env) inp = Inr inp'"
    "\<forall>l \<in> set (in_lines inp'). consistent_line l"
proof -
  show n: "normalize_allocation_input (print_uuid env) inp = Inr inp'"
    and "\<not> is_nil tenant" "\<not> is_nil actor"
    using assms by (auto simp: prepare_command_def require_uuid_def)
  have "normalize_lines (print_uuid env) {} (in_lines inp) = Inr (in_lines inp')"
    using n by (auto simp: normalize_allocation_input_def split: if_splits)
  from normalize_lines_Inr [OF this] show "\<forall>l \<in> set (in_lines inp'). consistent_line l" by simp
qed

lemma map_allocation_line:
  "map_allocation r = Inr v \<Longrightarrow> al_order_line_item_id v = al_order_line_item_id r \<and> al_tenant_id v = al_tenant_id r"
  by (auto simp: map_allocation_def)

lemma find_allocation:
  "unique_rows allocation_clash rows \<Longrightarrow> r \<in> set rows \<Longrightarrow>
   List.find (\<lambda>x. al_tenant_id x = al_tenant_id r
           \<and> al_order_line_item_id x = al_order_line_item_id r) rows = Some r"
  by (rule allocation_table.unique_find) (auto simp: allocation_clash_def)

lemma committed_lookup:
  assumes "commits env s tenant actor (inp', k, h) s' resp"
    and "prepare_command env tenant actor key inp = Inr (inp', k, h)"
    and "v \<in> set (resp_allocations resp)"
  shows "get_by_order_line s' tenant (al_order_line_item_id v) = Inr v"
proof -
  let ?new = "new_rows env tenant inp' 0 (in_lines inp')"
  from assms(1) have "list_all2 (\<lambda>r v. map_allocation r = Inr v) ?new (resp_allocations resp)"
    by (simp add: commits_def try_map_Inr)
  with assms(3) obtain r where r: "r \<in> set ?new" "map_allocation r = Inr v"
    by (meson list_all2_set2_ex)
  have keys: "al_tenant_id r = tenant" "al_order_line_item_id r \<in> ln_order_line_item_id ` set (in_lines inp')"
    using new_rows_keys(2) [OF r(1)] set_new_rows_lines [of env tenant inp' 0 "in_lines inp'"] r(1)
    by auto
  then have "\<not> is_nil (al_order_line_item_id r)"
    using prepare_Inr(4) [OF assms(2)] by (auto simp: consistent_line_def)
  moreover have "List.find (\<lambda>x. al_tenant_id x = tenant \<and> al_order_line_item_id x = al_order_line_item_id v)
      (allocation_rows s') = Some r"
    using find_allocation [of "allocation_rows s'" r] assms(1) r keys(1) map_allocation_line [OF r(2)]
    by (auto simp: commits_def store_ok_def)
  ultimately show ?thesis
    using prepare_Inr(1) [OF assms(2)] r(2) map_allocation_line [OF r(2)]
    by (simp add: get_by_order_line_def require_uuid_def)
qed

lemma no_existing_lines:
  assumes "existing_lines tenant ls rows = []" and "r \<in> set rows" and "al_tenant_id r = tenant"
  shows "al_order_line_item_id r \<notin> ln_order_line_item_id ` set ls"
proof -
  have "set (existing_lines tenant ls rows) = {}" using assms(1) by simp
  then show ?thesis using assms(2,3) by (auto simp: existing_lines_def)
qed

text \<open>
  C10: an order line is allocated at most once, and a command is all or nothing. Every command
  keeps the unique constraints; one that fails changes nothing; one that changes the store
  appends exactly one allocated row per line of the command, for lines that the tenant had not
  allocated before, and a later lookup of each line returns the allocation it answered with.
\<close>

theorem lines_allocated_once:
  assumes "store_ok s"
    and "allocate_order_lines_with_receipt env seen s tenant actor key inp = (s', res)"
  shows "store_ok s' \<and> (\<not> is_ok res \<longrightarrow> s' = s)
    \<and> (s' \<noteq> s \<longrightarrow> (\<exists>new inp' resp. res = Inr resp
         \<and> normalize_allocation_input (print_uuid env) inp = Inr inp'
         \<and> allocation_rows s' = allocation_rows s @ new
         \<and> map al_order_line_item_id new = map ln_order_line_item_id (in_lines inp')
         \<and> (\<forall>r \<in> set new. al_tenant_id r = tenant \<and> al_order_id r = in_order_id inp' \<and> al_status r = ''allocated'')
         \<and> (\<forall>r \<in> set (allocation_rows s). al_tenant_id r = tenant \<longrightarrow>
              al_order_line_item_id r \<notin> set (map al_order_line_item_id new))
         \<and> (\<forall>v \<in> set (resp_allocations resp). get_by_order_line s' tenant (al_order_line_item_id v) = Inr v)))"
  using command_outcome [OF assms]
proof (elim disjE exE conjE)
  assume "s' = s" and "\<forall>resp. res = Inr resp \<longrightarrow> (\<exists>inp' k h r.
             prepare_command env tenant actor key inp = Inr (inp', k, h)
             \<and> (find_receipt seen tenant k = Some r \<or> find_receipt s tenant k = Some r)
             \<and> replay_receipt r h = Inr resp)"
  then show ?thesis using assms(1) by simp
next
  fix p resp
  assume prep: "prepare_command env tenant actor key inp = Inr p" and res: "res = Inr resp"
    and c: "commits env s tenant actor p s' resp"
  obtain inp' k h where p: "p = (inp', k, h)" by (cases p) auto
  let ?new = "new_rows env tenant inp' 0 (in_lines inp')"
  have keys: "map al_order_line_item_id ?new = map ln_order_line_item_id (in_lines inp')"
    by (rule new_rows_keys)
  have "al_order_line_item_id r \<notin> set (map al_order_line_item_id ?new)"
    if "r \<in> set (allocation_rows s)" "al_tenant_id r = tenant" for r
    using no_existing_lines [of tenant "in_lines inp'" "allocation_rows s" r] that c p
    by (simp add: commits_def set_new_rows_lines)
  moreover have "allocation_rows s' = allocation_rows s @ ?new" "store_ok s'"
    using c p by (simp_all add: commits_def)
  moreover have "\<forall>v \<in> set (resp_allocations resp). get_by_order_line s' tenant (al_order_line_item_id v) = Inr v"
    using committed_lookup c prep unfolding p by blast
  ultimately show ?thesis
    using res keys prepare_Inr(3) [OF prep [unfolded p]] new_rows_keys(2) [of _ env tenant inp' 0 "in_lines inp'"]
    by (intro conjI impI exI [of _ ?new] exI [of _ inp'] exI [of _ resp]) auto
qed

subsection \<open>Replay of a command\<close>

record alloc_call =
  call_env :: alloc_env
  call_tenant :: uuid
  call_actor :: uuid
  call_key :: string
  call_input :: alloc_input

definition run_call :: "alloc_store \<Rightarrow> alloc_call \<Rightarrow> alloc_store \<times> (alloc_error + alloc_response)" where
  "run_call s c = allocate_order_lines_with_receipt (call_env c) s s (call_tenant c)
     (call_actor c) (call_key c) (call_input c)"

lemma find_receipt_commits:
  assumes "commits env s tenant actor (inp, k, h) s' resp"
  shows "find_receipt s tenant' k' = Some r \<Longrightarrow> find_receipt s' tenant' k' = Some r"
    and "find_receipt s' tenant k = Some (completed_receipt env resp (pending_receipt env tenant actor k h))"
  using assms
  by (simp_all add: commits_def find_receipt_def find_append completed_receipt_def pending_receipt_def)

lemma replay_completed:
  "replay_receipt (completed_receipt env resp (pending_receipt env tenant actor k h)) h' =
     (if h = h' then Inr resp else Inl IdempotencyConflict)"
  by (simp add: replay_receipt_def completed_receipt_def pending_receipt_def)

lemma replayed_command:
  assumes "prepare_command env tenant actor key inp = Inr (inp', k, h)"
    and "find_receipt s tenant k = Some r"
    and "seen = s \<or> find_receipt seen tenant k = None"
  shows "allocate_order_lines_with_receipt env seen s tenant actor key inp = (s, replay_receipt r h)"
proof -
  have "receipt_clash (pending_receipt env tenant actor k h) r" "r \<in> set (receipt_rows s)"
    using find_receipt_Some [OF assms(2)] by (simp_all add: pending_clash)
  then have "insert_unique receipt_clash (pending_receipt env tenant actor k h) (receipt_rows s) = None"
    by (auto simp: receipt_table.insert_unique_None)
  then have "admit_receipt env seen s tenant actor k h = Inr (Replay r)"
    using assms(2,3) prepare_Inr [OF assms(1)] by (auto simp: admit_receipt_def)
  then show ?thesis
    using assms(1) by (simp add: allocate_order_lines_with_receipt_def)
qed

definition prepare_call :: "alloc_call \<Rightarrow> alloc_error + uuid \<times> alloc_input \<times> string \<times> string" where
  "prepare_call c = rbind (prepare_command (call_env c) (call_tenant c) (call_actor c) (call_key c)
     (call_input c)) (\<lambda>p. Inr (call_tenant c, p))"

interpretation allocation_command: receipted_command run_call store_ok prepare_call
  "\<lambda>s (tenant, inp, k, h). find_receipt s tenant k" "\<lambda>r (tenant, inp, k, h). replay_receipt r h"
proof
  fix c s e
  assume "prepare_call c = Inl e"
  then show "run_call s c = (s, Inl e)"
    by (simp add: prepare_call_def run_call_def allocate_order_lines_with_receipt_def rbind_eq_Inl)
next
  fix c s p rc
  assume "prepare_call c = Inr p" "(case p of (tenant, inp, k, h) \<Rightarrow> find_receipt s tenant k) = Some rc"
  then show "run_call s c = (s, case p of (tenant, inp, k, h) \<Rightarrow> replay_receipt rc h)"
    using replayed_command [where seen = s and s = s] by (auto simp: prepare_call_def run_call_def)
next
  fix s c p
  assume ok: "store_ok s" and prep: "prepare_call c = Inr p"
    and none: "(case p of (tenant, inp, k, h) \<Rightarrow> find_receipt s tenant k) = None"
  obtain inp k h where p: "p = (call_tenant c, inp, k, h)"
    and cmd: "prepare_command (call_env c) (call_tenant c) (call_actor c) (call_key c) (call_input c)
      = Inr (inp, k, h)" using prep by (auto simp: prepare_call_def)
  let ?new = "\<lambda>s'. \<exists>r rc. run_call s c = (s', Inr r) \<and> store_ok s'
      \<and> find_receipt s' (call_tenant c) k = Some rc \<and> replay_receipt rc h = Inr r
      \<and> (\<forall>t k x. find_receipt s t k = Some x \<longrightarrow> find_receipt s' t k = Some x)"
  obtain s' res where run: "run_call s c = (s', res)" by (cases "run_call s c")
  have none: "find_receipt s (call_tenant c) k = None" using none p by simp
  have "(\<exists>e. run_call s c = (s, Inl e)) \<or> ?new s'"
    using command_outcome [OF ok run [unfolded run_call_def]]
  proof (elim disjE exE conjE)
    assume "s' = s" and "\<forall>resp. res = Inr resp \<longrightarrow> (\<exists>inp' k h r.
       prepare_command (call_env c) (call_tenant c) (call_actor c) (call_key c) (call_input c) = Inr (inp', k, h)
       \<and> (find_receipt s (call_tenant c) k = Some r \<or> find_receipt s (call_tenant c) k = Some r)
       \<and> replay_receipt r h = Inr resp)"
    then show ?thesis using run none cmd by (cases res) auto
  next
    fix q r
    assume "prepare_command (call_env c) (call_tenant c) (call_actor c) (call_key c) (call_input c) = Inr q"
      and res: "res = Inr r" and "commits (call_env c) s (call_tenant c) (call_actor c) q s' r"
    with cmd have c: "commits (call_env c) s (call_tenant c) (call_actor c) (inp, k, h) s' r" by simp
    then have "store_ok s'" by (simp add: commits_def)
    with run res find_receipt_commits [OF c] show ?thesis
      by (intro disjI2 exI conjI) (auto simp: replay_completed)
  qed
  then show "(\<exists>e. run_call s c = (s, Inl e)) \<or> (\<exists>s' r rc. run_call s c = (s', Inr r) \<and> store_ok s'
      \<and> (case p of (tenant, inp, k, h) \<Rightarrow> find_receipt s' tenant k) = Some rc
      \<and> (case p of (tenant, inp, k, h) \<Rightarrow> replay_receipt rc h) = Inr r
      \<and> (\<forall>q x. (case q of (tenant, inp, k, h) \<Rightarrow> find_receipt s tenant k) = Some x
              \<longrightarrow> (case q of (tenant, inp, k, h) \<Rightarrow> find_receipt s' tenant k) = Some x))"
    unfolding p prod.case split_paired_All by blast
qed

lemma prepare_command_cong:
  "to_value env' = to_value env \<Longrightarrow> digest_of env' = digest_of env \<Longrightarrow> print_uuid env' = print_uuid env
   \<Longrightarrow> prepare_command env' = prepare_command env"
  by (intro ext) (simp add: prepare_command_def allocation_request_hash_def)

text \<open>
  C32: a command takes effect once per idempotency key. After it succeeded, and whatever commands
  ran since, repeating the request with fresh identifiers and clock returns the identical
  response and leaves the store as it is, even when the repetition had read the receipts before
  the first attempt committed. Another request under the same key, recognised by its hash, is
  refused as a conflict and leaves the store as it is.
\<close>

theorem allocation_replayed:
  assumes "store_ok s"
    and "allocate_order_lines_with_receipt env s s tenant actor key inp = (s', Inr resp)"
    and "prepare_command env tenant actor key inp = Inr (inp', k, h)"
    and "s'' = foldl (\<lambda>s c. fst (run_call s c)) s' calls"
    and "seen = s'' \<or> find_receipt seen tenant k = None"
  shows "(to_value env' = to_value env \<and> digest_of env' = digest_of env \<and> print_uuid env' = print_uuid env \<longrightarrow>
       allocate_order_lines_with_receipt env' seen s'' tenant actor key inp = (s'', Inr resp))
    \<and> (prepare_command env2 tenant actor2 key2 inp2 = Inr (inp3, k, h2) \<and> h2 \<noteq> h \<longrightarrow>
       allocate_order_lines_with_receipt env2 seen s'' tenant actor2 key2 inp2 = (s'', Inl IdempotencyConflict))"
proof -
  let ?c = "\<lparr>call_env = env, call_tenant = tenant, call_actor = actor, call_key = key, call_input = inp\<rparr>"
  obtain r where r: "find_receipt s'' tenant k = Some r" "replay_receipt r h = Inr resp"
    using allocation_command.commands.recorded_since [OF assms(1), of ?c s' resp calls] assms(2-4)
    by (auto simp: run_call_def prepare_call_def)
  have conflict: "replay_receipt r h2 = Inl IdempotencyConflict" if "h2 \<noteq> h"
    using r(2) that by (auto simp: replay_receipt_def split: if_splits)
  show ?thesis
    using replayed_command [OF _ r(1) assms(5)] prepare_command_cong [of env' env] assms(3) r(2) conflict
    by auto
qed

subsection \<open>An example command\<close>

definition example_line :: alloc_line where
  "example_line =
     \<lparr>ln_order_line_item_id = 11, ln_seller_id = 12, ln_listing_id = 13, ln_master_product_id = 14,
      ln_master_variant_id = 15, ln_quantity = 3, ln_unit_amount = 50, ln_subtotal_amount = 150,
      ln_discount_amount = 20, ln_tax_amount = 7, ln_total_amount = 137,
      ln_listing_terms_version = 1, ln_pricing_reference = None, ln_inventory_reference = None,
      ln_fulfillment_profile_slug = None, ln_metadata = JNull\<rparr>"

definition example_input :: alloc_input where
  "example_input = \<lparr>in_order_id = 9, in_currency_code = ''EUR'', in_lines = [example_line]\<rparr>"

definition example_normal :: alloc_input where
  "example_normal = example_input\<lparr>in_lines := [example_line\<lparr>ln_metadata := JObject []\<rparr>]\<rparr>"

definition example_alloc_env :: alloc_env where
  "example_alloc_env =
     \<lparr>to_value = (\<lambda>i. Some (JString (in_currency_code i))), digest_of = (\<lambda>_. Some ''h''),
      print_uuid = (\<lambda>_. ''id''), new_receipt_id = 1, new_allocation_id = (\<lambda>i. of_nat i + 100),
      receipt_now = 0, allocation_now = 0, completion_now = 1\<rparr>"

definition empty_store :: alloc_store where
  "empty_store = \<lparr>allocation_rows = [], receipt_rows = []\<rparr>"

lemma example_normalises: "normalize_allocation_input prn example_input = Inr example_normal"
proof -
  have "normalize_currency ''EUR'' = Inr ''EUR''"
    by (simp add: normalize_currency_def Let_def trim_letters ascii_defs to_ascii_uppercase_def ascii_upper_def)
  moreover have "consistent_line example_line"
    by (simp add: consistent_line_def example_line_def i64_arith)
  then have "normalize_line prn example_line = Inr (example_line\<lparr>ln_metadata := JObject []\<rparr>)"
    by (simp add: normalize_line_consistent)
      (simp add: normalize_texts_def example_line_def normalize_optional_text_def normalize_metadata_def)
  ultimately show ?thesis
    by (simp add: normalize_allocation_input_def example_input_def example_normal_def require_uuid_def
        MAX_ALLOCATION_LINES_PER_COMMAND_def)
qed

lemma example_prepared:
  "prepare_command example_alloc_env 2 3 ''key'' example_input = Inr (example_normal, ''key'', ''h'')"
  by (simp add: prepare_command_def example_normalises require_uuid_def normalize_idempotency_key_def
      Let_def trim_letters ascii_defs MAX_IDEMPOTENCY_KEY_LENGTH_def allocation_request_hash_def
      example_alloc_env_def)

lemma empty_store_ok: "store_ok empty_store"
  by (simp add: store_ok_def empty_store_def unique_rows_def)

lemma example_commits:
  "\<exists>s' resp. allocate_order_lines_with_receipt example_alloc_env empty_store empty_store 2 3 ''key''
     example_input = (s', Inr resp) \<and> s' \<noteq> empty_store"
  unfolding allocate_order_lines_with_receipt_def example_prepared sum.case prod.case
  by (simp add: admit_receipt_def find_receipt_def
      empty_store_def insert_unique_def pending_receipt_def allocate_in_transaction_def existing_lines_def
      example_normal_def example_input_def example_line_def map_allocation_def allocation_row_def
      alloc_status_parse_def complete_receipt_def completes_def example_alloc_env_def)

lemma accepted_command_normal_witness:
  "normalize_allocation_input (\<lambda>_. []) example_normal = Inr example_normal"
  using accepted_command_normal [OF example_normalises, of "\<lambda>_. []"] by (rule conjunct1)

lemma lines_allocated_once_witness:
  "\<exists>s'. store_ok s' \<and> s' \<noteq> empty_store
     \<and> fst (allocate_order_lines_with_receipt example_alloc_env empty_store empty_store 2 3 ''key'' example_input) = s'"
proof -
  obtain s' resp where run: "allocate_order_lines_with_receipt example_alloc_env empty_store empty_store 2 3 ''key''
     example_input = (s', Inr resp)" "s' \<noteq> empty_store" using example_commits by blast
  from lines_allocated_once [OF empty_store_ok run(1)] run show ?thesis by auto
qed

lemma allocation_replayed_witness:
  "\<exists>s' resp. allocate_order_lines_with_receipt example_alloc_env empty_store s' 2 3 ''key'' example_input
     = (s', Inr resp) \<and> s' \<noteq> empty_store"
proof -
  obtain s' resp where run: "allocate_order_lines_with_receipt example_alloc_env empty_store empty_store 2 3 ''key''
     example_input = (s', Inr resp)" "s' \<noteq> empty_store" using example_commits by blast
  have "s' = foldl (\<lambda>s c. fst (run_call s c)) s' []" by simp
  moreover have "empty_store = s' \<or> find_receipt empty_store 2 ''key'' = None"
    by (simp add: find_receipt_def empty_store_def)
  ultimately show ?thesis
    using allocation_replayed [OF empty_store_ok run(1) example_prepared, of s' "[]" empty_store example_alloc_env] run(2)
    by (intro exI [of _ s'] exI [of _ resp] conjI) auto
qed

end
