(* ===== verification/Marketplace_Commission.thy ===== *)
theory Marketplace_Commission
  imports Marketplace_Allocation "HOL-Library.Signed_Division" "HOL-Library.Multiset"
begin

text \<open>
  Commission rules and assessments of marketplace allocations
  (\<open>crates/modules/rustok-marketplace-commission/src\<close>: \<open>service.rs\<close>, \<open>receipts.rs\<close>,
  \<open>allocation_filter.rs\<close>, \<open>dto.rs\<close>, \<open>error.rs\<close> and the tables of \<open>entities\<close> with their
  unique indexes). Amounts are 64-bit minor units, the percentage is computed in 128 bits and
  truncated. As for the allocation service, tables are lists of rows and a transaction works on
  its own copy of the store; the read port of the allocations, serialisation, hash, clock and
  generated identifiers are parameters in \<open>com_env\<close>. Instants are integers.
\<close>

subsection \<open>Comparison in Rust\<close>

datatype ordering = Less | Equal | Greater

definition cmp :: "'a::linorder \<Rightarrow> 'a \<Rightarrow> ordering" where
  "cmp x y = (if x < y then Less else if x = y then Equal else Greater)"

primrec then_with :: "ordering \<Rightarrow> ordering \<Rightarrow> ordering" where
  "then_with Less b = Less"
| "then_with Equal b = b"
| "then_with Greater b = Greater"

text \<open>\<open>Iterator::max_by\<close>: the last of the greatest elements.\<close>

fun max_by :: "('a \<Rightarrow> 'a \<Rightarrow> ordering) \<Rightarrow> 'a list \<Rightarrow> 'a option" where
  "max_by f [] = None"
| "max_by f (x # xs) = Some (foldl (\<lambda>a b. if f a b = Greater then a else b) x xs)"

definition checked_i128 :: "int \<Rightarrow> int option" where
  "checked_i128 x = (if - (2 ^ 127) \<le> x \<and> x < 2 ^ 127 then Some x else None)"

subsection \<open>Data\<close>

datatype rule_status = Active | Inactive

primrec rule_status_as_str :: "rule_status \<Rightarrow> string" where
  "rule_status_as_str Active = ''active''"
| "rule_status_as_str Inactive = ''inactive''"

definition rule_status_parse :: "string \<Rightarrow> rule_status option" where
  "rule_status_parse s =
     (if s = ''active'' then Some Active else if s = ''inactive'' then Some Inactive else None)"

datatype assessment_status = Assessed | Reversed

primrec assessment_status_as_str :: "assessment_status \<Rightarrow> string" where
  "assessment_status_as_str Assessed = ''assessed''"
| "assessment_status_as_str Reversed = ''reversed''"

definition assessment_status_parse :: "string \<Rightarrow> assessment_status option" where
  "assessment_status_parse s =
     (if s = ''assessed'' then Some Assessed else if s = ''reversed'' then Some Reversed else None)"

interpretation rule_status_text: text_codec rule_status_as_str rule_status_parse
proof
  show "rule_status_parse (rule_status_as_str x) = Some x" for x
    by (cases x) (simp_all add: rule_status_parse_def)
qed

interpretation assessment_status_text: text_codec assessment_status_as_str assessment_status_parse
proof
  show "assessment_status_parse (assessment_status_as_str x) = Some x" for x
    by (cases x) (simp_all add: assessment_status_parse_def)
qed

definition MAX_COMMISSION_RULES_PER_PAGE :: nat where "MAX_COMMISSION_RULES_PER_PAGE = 200"
definition MAX_COMMISSION_ASSESSMENTS_PER_PAGE :: nat where "MAX_COMMISSION_ASSESSMENTS_PER_PAGE = 200"

text \<open>The kinds of the allocation boundary are those of the port error, one to one.\<close>

datatype com_error =
    RuleNotFound uuid
  | AssessmentNotFound uuid
  | RuleNotMatched uuid
  | AllocationAlreadyAssessed uuid
  | ComIdempotencyConflict
  | ComReceiptCorrupt
  | ComValidation string
  | AllocationBoundary string string bool port_error_kind
  | ComDatabase string

record rule_input =
  ri_rule_key :: uuid
  ri_seller_id :: "uuid option"
  ri_listing_id :: "uuid option"
  ri_rate_bps :: int
  ri_fixed_amount :: int
  ri_currency_code :: "string option"
  ri_priority :: int
  ri_effective_from :: int
  ri_effective_until :: "int option"
  ri_status :: rule_status
  ri_metadata :: json

record 'st commission_rule =
  ru_id :: uuid
  ru_tenant_id :: uuid
  ru_rule_key :: uuid
  ru_version :: int
  ru_seller_id :: "uuid option"
  ru_listing_id :: "uuid option"
  ru_rate_bps :: int
  ru_fixed_amount :: int
  ru_currency_code :: "string option"
  ru_priority :: int
  ru_effective_from :: int
  ru_effective_until :: "int option"
  ru_status :: 'st
  ru_metadata :: json
  ru_created_at :: int

record 'st assessment =
  as_id :: uuid
  as_tenant_id :: uuid
  as_allocation_id :: uuid
  as_order_id :: uuid
  as_order_line_item_id :: uuid
  as_seller_id :: uuid
  as_listing_id :: uuid
  as_rule_id :: uuid
  as_rule_key :: uuid
  as_rule_version :: int
  as_currency_code :: string
  as_allocation_total_amount :: int
  as_rate_bps :: int
  as_fixed_amount :: int
  as_commission_amount :: int
  as_seller_proceeds_amount :: int
  as_status :: 'st
  as_metadata :: json
  as_assessed_at :: int
  as_created_at :: int

type_synonym rule_row = "string commission_rule"
type_synonym rule_view = "rule_status commission_rule"
type_synonym assessment_row = "string assessment"
type_synonym assessment_view = "assessment_status assessment"

record assess_input =
  ai_order_id :: uuid
  ai_assessed_at :: int

record assess_response =
  ar_order_id :: uuid
  ar_assessments :: "assessment_view list"
  ar_commission_total_amount :: int
  ar_seller_proceeds_total_amount :: int

datatype com_response = RuleResponse rule_view | AssessResponse assess_response

record com_receipt =
  cr_id :: uuid
  cr_tenant_id :: uuid
  cr_actor_id :: uuid
  cr_idempotency_key :: string
  cr_command_kind :: string
  cr_request_hash :: string
  cr_status :: string
  cr_response_kind :: "string option"
  cr_response_json :: "com_response option"
  cr_created_at :: int
  cr_completed_at :: "int option"

record com_store =
  rule_rows :: "rule_row list"
  assessment_rows :: "assessment_row list"
  com_receipt_rows :: "com_receipt list"

record com_env =
  rule_to_value :: "rule_input \<Rightarrow> json option"
  assess_to_value :: "assess_input \<Rightarrow> json option"
  com_digest_of :: "json \<Rightarrow> string option"
  com_print_uuid :: "uuid \<Rightarrow> string"
  com_receipt_id :: uuid
  com_rule_id :: uuid
  com_assessment_id :: "nat \<Rightarrow> uuid"
  com_receipt_now :: int
  com_row_now :: int
  com_completion_now :: int
  allocation_reader :: "port_context \<Rightarrow> uuid \<Rightarrow> port_error + alloc_view list"

record new_com_receipt =
  com_transaction :: com_store
  nc_receipt_id :: uuid
  nc_tenant_id :: uuid

datatype com_admission = ComReplay com_receipt | ComNew new_com_receipt

subsection \<open>Receipts\<close>

definition com_normalize_idempotency_key :: "string \<Rightarrow> com_error + string" where
  "com_normalize_idempotency_key v =
     (let v = trim v in
      if v = [] \<or> 191 < length v
      then Inl (ComValidation ''idempotency key must contain 1 to 191 bytes'')
      else Inr v)"

definition com_request_hash :: "com_env \<Rightarrow> string \<Rightarrow> uuid \<Rightarrow> json option \<Rightarrow> com_error + string" where
  "com_request_hash env kind actor request =
     rbind (ensure (\<not> is_nil actor) (ComValidation ''actor_id must not be nil'')) (\<lambda>_.
     rbind (ok_or request (ComValidation ''commission command could not be normalized'')) (\<lambda>request.
     ok_or (com_digest_of env (JObject
        [(''version'', JNumber ''1''), (''command_kind'', JString kind),
         (''actor_id'', JString (com_print_uuid env actor)), (''request'', canonical_json request)]))
       (ComValidation ''commission command could not be hashed'')))"

definition com_find_receipt :: "com_store \<Rightarrow> uuid \<Rightarrow> string \<Rightarrow> com_receipt option" where
  "com_find_receipt s tenant key =
     List.find (\<lambda>r. cr_tenant_id r = tenant \<and> cr_idempotency_key r = key) (com_receipt_rows s)"

definition com_receipt_clash :: "com_receipt \<Rightarrow> com_receipt \<Rightarrow> bool" where
  "com_receipt_clash a b \<longleftrightarrow> cr_id a = cr_id b
     \<or> cr_tenant_id a = cr_tenant_id b \<and> cr_idempotency_key a = cr_idempotency_key b"

definition rule_clash :: "rule_row \<Rightarrow> rule_row \<Rightarrow> bool" where
  "rule_clash a b \<longleftrightarrow> ru_id a = ru_id b
     \<or> ru_tenant_id a = ru_tenant_id b \<and> ru_rule_key a = ru_rule_key b \<and> ru_version a = ru_version b"

definition assessment_clash :: "assessment_row \<Rightarrow> assessment_row \<Rightarrow> bool" where
  "assessment_clash a b \<longleftrightarrow> as_id a = as_id b
     \<or> as_tenant_id a = as_tenant_id b \<and> as_allocation_id a = as_allocation_id b"

definition com_pending_receipt :: "com_env \<Rightarrow> uuid \<Rightarrow> uuid \<Rightarrow> string \<Rightarrow> string \<Rightarrow> string \<Rightarrow> com_receipt" where
  "com_pending_receipt env tenant actor key kind hash =
     \<lparr>cr_id = com_receipt_id env, cr_tenant_id = tenant, cr_actor_id = actor,
      cr_idempotency_key = key, cr_command_kind = kind, cr_request_hash = hash,
      cr_status = ''pending'', cr_response_kind = None, cr_response_json = None,
      cr_created_at = com_receipt_now env, cr_completed_at = None\<rparr>"

definition com_admit_receipt ::
    "com_env \<Rightarrow> com_store \<Rightarrow> com_store \<Rightarrow> uuid \<Rightarrow> uuid \<Rightarrow> string \<Rightarrow> string \<Rightarrow> string \<Rightarrow> com_error + com_admission" where
  "com_admit_receipt env seen s tenant actor key kind hash =
     (if is_nil tenant \<or> is_nil actor
      then Inl (ComValidation ''tenant_id and actor_id must not be nil'')
      else case com_find_receipt seen tenant key of
        Some existing \<Rightarrow> Inr (ComReplay existing)
      | None \<Rightarrow>
          (case insert_unique com_receipt_clash (com_pending_receipt env tenant actor key kind hash)
                  (com_receipt_rows s) of
             Some rs \<Rightarrow> Inr (ComNew \<lparr>com_transaction = s\<lparr>com_receipt_rows := rs\<rparr>,
                               nc_receipt_id = com_receipt_id env, nc_tenant_id = tenant\<rparr>)
           | None \<Rightarrow>
               (case com_find_receipt s tenant key of
                  Some existing \<Rightarrow> Inr (ComReplay existing)
                | None \<Rightarrow> Inl (ComDatabase ''unique constraint''))))"

text \<open>
  \<open>select\<close> reads the JSON of the response as the type the caller expects: a response of another
  type does not deserialise.
\<close>

definition com_replay_receipt ::
    "(com_response \<Rightarrow> 'r option) \<Rightarrow> com_receipt \<Rightarrow> string \<Rightarrow> string \<Rightarrow> string \<Rightarrow> com_error + 'r" where
  "com_replay_receipt select r kind hash response_kind =
     (if cr_command_kind r \<noteq> kind \<or> cr_request_hash r \<noteq> hash then Inl ComIdempotencyConflict
      else if cr_status r \<noteq> ''completed'' \<or> cr_response_kind r \<noteq> Some response_kind
              \<or> cr_completed_at r = None
      then Inl ComReceiptCorrupt
      else rbind (ok_or (cr_response_json r) ComReceiptCorrupt) (\<lambda>v. ok_or (select v) ComReceiptCorrupt))"

definition com_completes :: "new_com_receipt \<Rightarrow> com_receipt \<Rightarrow> bool" where
  "com_completes nr r \<longleftrightarrow>
     cr_id r = nc_receipt_id nr \<and> cr_tenant_id r = nc_tenant_id nr \<and> cr_status r = ''pending''"

definition com_completed_receipt :: "com_env \<Rightarrow> string \<Rightarrow> com_response \<Rightarrow> com_receipt \<Rightarrow> com_receipt" where
  "com_completed_receipt env response_kind resp r =
     r\<lparr>cr_status := ''completed'', cr_response_kind := Some response_kind,
       cr_response_json := Some resp, cr_completed_at := Some (com_completion_now env)\<rparr>"

definition com_complete_receipt ::
    "com_env \<Rightarrow> com_store \<Rightarrow> new_com_receipt \<Rightarrow> string \<Rightarrow> com_response \<Rightarrow> com_store \<times> (com_error + com_response)" where
  "com_complete_receipt env s nr response_kind resp =
     (let tx = com_transaction nr;
          rs = map (\<lambda>r. if com_completes nr r then com_completed_receipt env response_kind resp r else r)
                 (com_receipt_rows tx);
          rows_affected = length (filter (com_completes nr) (com_receipt_rows tx)) in
      if rows_affected \<noteq> 1 then (s, Inl ComReceiptCorrupt)
      else (tx\<lparr>com_receipt_rows := rs\<rparr>, Inr resp))"

subsection \<open>Rules\<close>

definition com_normalize_currency :: "string \<Rightarrow> com_error + string" where
  "com_normalize_currency v =
     (let v = to_ascii_uppercase (trim v) in
      if length v \<noteq> 3 \<or> \<not> list_all is_ascii_uppercase v
      then Inl (ComValidation ''currency_code must contain exactly three ASCII letters'')
      else Inr v)"

definition com_normalize_metadata :: "json \<Rightarrow> com_error + json" where
  "com_normalize_metadata v =
     (case v of
        JNull \<Rightarrow> Inr (JObject [])
      | JObject kvs \<Rightarrow> Inr v
      | _ \<Rightarrow> Inl (ComValidation ''metadata must be a JSON object''))"

definition normalize_rule_input :: "rule_input \<Rightarrow> com_error + rule_input" where
  "normalize_rule_input inp =
     rbind (ensure (\<not> is_nil (ri_rule_key inp)) (ComValidation ''rule_key must not be nil'')) (\<lambda>_.
     rbind (ensure (\<not> (ri_seller_id inp = Some 0 \<or> ri_listing_id inp = Some 0))
       (ComValidation ''seller_id and listing_id must not be nil when present'')) (\<lambda>_.
     rbind (ensure (0 \<le> ri_rate_bps inp \<and> ri_rate_bps inp \<le> 10000)
       (ComValidation ''rate_bps must be between 0 and 10000'')) (\<lambda>_.
     rbind (ensure (\<not> ri_fixed_amount inp < 0) (ComValidation ''fixed_amount must not be negative'')) (\<lambda>_.
     rbind (case ri_currency_code inp of
              Some v \<Rightarrow> rbind (com_normalize_currency v) (\<lambda>c. Inr (Some c))
            | None \<Rightarrow> Inr None) (\<lambda>cur.
     rbind (ensure (\<not> (0 < ri_fixed_amount inp \<and> cur = None))
       (ComValidation ''currency_code is required when fixed_amount is positive'')) (\<lambda>_.
     rbind (ensure (\<not> (case ri_effective_until inp of None \<Rightarrow> False | Some t \<Rightarrow> t \<le> ri_effective_from inp))
       (ComValidation ''effective_until must be later than effective_from'')) (\<lambda>_.
     rbind (com_normalize_metadata (ri_metadata inp)) (\<lambda>md.
     Inr (inp\<lparr>ri_currency_code := cur, ri_metadata := md\<rparr>)))))))))"

definition map_rule :: "rule_row \<Rightarrow> com_error + rule_view" where
  "map_rule m =
     rbind (ok_or (rule_status_parse (ru_status m))
       (ComValidation (''unknown commission rule status `'' @ ru_status m @ ''`''))) (\<lambda>st.
     Inr \<lparr>ru_id = ru_id m, ru_tenant_id = ru_tenant_id m, ru_rule_key = ru_rule_key m,
          ru_version = ru_version m, ru_seller_id = ru_seller_id m, ru_listing_id = ru_listing_id m,
          ru_rate_bps = ru_rate_bps m, ru_fixed_amount = ru_fixed_amount m,
          ru_currency_code = ru_currency_code m, ru_priority = ru_priority m,
          ru_effective_from = ru_effective_from m, ru_effective_until = ru_effective_until m,
          ru_status = st, ru_metadata = ru_metadata m, ru_created_at = ru_created_at m\<rparr>)"

definition latest_version :: "com_store \<Rightarrow> uuid \<Rightarrow> uuid \<Rightarrow> int" where
  "latest_version s tenant key =
     (case sort_key (\<lambda>r. - ru_version r)
             (filter (\<lambda>r. ru_tenant_id r = tenant \<and> ru_rule_key r = key) (rule_rows s)) of
        [] \<Rightarrow> 0 | r # _ \<Rightarrow> ru_version r)"

definition rule_row_of :: "com_env \<Rightarrow> uuid \<Rightarrow> int \<Rightarrow> rule_input \<Rightarrow> rule_row" where
  "rule_row_of env tenant version inp =
     \<lparr>ru_id = com_rule_id env, ru_tenant_id = tenant, ru_rule_key = ri_rule_key inp,
      ru_version = version, ru_seller_id = ri_seller_id inp, ru_listing_id = ri_listing_id inp,
      ru_rate_bps = ri_rate_bps inp, ru_fixed_amount = ri_fixed_amount inp,
      ru_currency_code = ri_currency_code inp, ru_priority = ri_priority inp,
      ru_effective_from = ri_effective_from inp, ru_effective_until = ri_effective_until inp,
      ru_status = rule_status_as_str (ri_status inp), ru_metadata = ri_metadata inp,
      ru_created_at = com_row_now env\<rparr>"

definition create_rule_in_transaction ::
    "com_env \<Rightarrow> com_store \<Rightarrow> uuid \<Rightarrow> rule_input \<Rightarrow> com_error + com_store \<times> rule_view" where
  "create_rule_in_transaction env tx tenant inp =
     rbind (ok_or (checked_i32 (latest_version tx tenant (ri_rule_key inp) + 1))
       (ComValidation ''rule version overflow'')) (\<lambda>version.
     let model = rule_row_of env tenant version inp in
     rbind (ok_or (insert_unique rule_clash model (rule_rows tx)) (ComDatabase ''unique constraint'')) (\<lambda>rows.
     rbind (map_rule model) (\<lambda>v.
     Inr (tx\<lparr>rule_rows := rows\<rparr>, v))))"

subsection \<open>Selection and calculation\<close>

definition rule_specificity :: "'st commission_rule \<Rightarrow> nat" where
  "rule_specificity r = (if ru_listing_id r \<noteq> None then 2 else if ru_seller_id r \<noteq> None then 1 else 0)"

definition compare_rules :: "'st commission_rule \<Rightarrow> 'st commission_rule \<Rightarrow> ordering" where
  "compare_rules l r =
     then_with (cmp (rule_specificity l) (rule_specificity r))
    (then_with (cmp (ru_priority l) (ru_priority r))
    (then_with (cmp (ru_version l) (ru_version r))
    (then_with (cmp (ru_effective_from l) (ru_effective_from r))
               (cmp (ru_id r) (ru_id l)))))"

definition rule_applies :: "'st commission_rule \<Rightarrow> alloc_view \<Rightarrow> bool" where
  "rule_applies c a \<longleftrightarrow>
     (case ru_listing_id c of None \<Rightarrow> True | Some l \<Rightarrow> l = al_listing_id a)
     \<and> (case ru_seller_id c of None \<Rightarrow> True | Some l \<Rightarrow> l = al_seller_id a)
     \<and> (ru_fixed_amount c = 0 \<or> ru_currency_code c = Some (al_currency_code a))"

definition select_rule :: "'st commission_rule list \<Rightarrow> alloc_view \<Rightarrow> 'st commission_rule option" where
  "select_rule candidates a = max_by compare_rules (filter (\<lambda>c. rule_applies c a) candidates)"

definition calculate_commission ::
    "(uuid \<Rightarrow> string) \<Rightarrow> 'st commission_rule \<Rightarrow> alloc_view \<Rightarrow> com_error + int \<times> int" where
  "calculate_commission prn r a =
     rbind (ok_or (checked_i128 (al_total_amount a * ru_rate_bps r))
       (ComValidation ''commission multiplication overflow'')) (\<lambda>product.
     rbind (ok_or (checked_i128 (product sdiv 10000 + ru_fixed_amount r))
       (ComValidation ''commission addition overflow'')) (\<lambda>commission.
     rbind (ensure (\<not> al_total_amount a < commission) (ComValidation
       (''commission rule '' @ prn (ru_rule_key r) @ '' version '' @ show_int (ru_version r)
         @ '' exceeds allocation total '' @ prn (al_id a)))) (\<lambda>_.
     rbind (ok_or (checked_i64 commission) (ComValidation ''commission amount overflow'')) (\<lambda>commission.
     rbind (ok_or (checked_i64 (al_total_amount a - commission))
       (ComValidation ''seller proceeds underflow'')) (\<lambda>proceeds.
     Inr (commission, proceeds))))))"

subsection \<open>Assessment\<close>

fun validate_batch_from ::
    "(uuid \<Rightarrow> string) \<Rightarrow> uuid \<Rightarrow> uuid \<Rightarrow> uuid set \<Rightarrow> alloc_view list \<Rightarrow> com_error + unit" where
  "validate_batch_from prn tenant order seen [] = Inr ()"
| "validate_batch_from prn tenant order seen (a # as) =
     (if al_tenant_id a \<noteq> tenant \<or> al_order_id a \<noteq> order
      then Inl (ComValidation ''allocation batch does not match tenant or order scope'')
      else if al_id a \<in> seen
      then Inl (ComValidation (''allocation '' @ prn (al_id a) @ '' appears more than once''))
      else if al_total_amount a < 0
      then Inl (ComValidation (''allocation '' @ prn (al_id a) @ '' has a negative total''))
      else validate_batch_from prn tenant order (insert (al_id a) seen) as)"

definition validate_allocation_batch ::
    "(uuid \<Rightarrow> string) \<Rightarrow> uuid \<Rightarrow> uuid \<Rightarrow> alloc_view list \<Rightarrow> com_error + unit" where
  "validate_allocation_batch prn tenant order as = validate_batch_from prn tenant order {} as"

definition map_assessment :: "assessment_row \<Rightarrow> com_error + assessment_view" where
  "map_assessment m =
     rbind (ok_or (assessment_status_parse (as_status m))
       (ComValidation (''unknown commission assessment status `'' @ as_status m @ ''`''))) (\<lambda>st.
     Inr \<lparr>as_id = as_id m, as_tenant_id = as_tenant_id m, as_allocation_id = as_allocation_id m,
          as_order_id = as_order_id m, as_order_line_item_id = as_order_line_item_id m,
          as_seller_id = as_seller_id m, as_listing_id = as_listing_id m, as_rule_id = as_rule_id m,
          as_rule_key = as_rule_key m, as_rule_version = as_rule_version m,
          as_currency_code = as_currency_code m,
          as_allocation_total_amount = as_allocation_total_amount m, as_rate_bps = as_rate_bps m,
          as_fixed_amount = as_fixed_amount m, as_commission_amount = as_commission_amount m,
          as_seller_proceeds_amount = as_seller_proceeds_amount m, as_status = st,
          as_metadata = as_metadata m, as_assessed_at = as_assessed_at m,
          as_created_at = as_created_at m\<rparr>)"

definition assessment_row_of ::
    "com_env \<Rightarrow> uuid \<Rightarrow> int \<Rightarrow> nat \<Rightarrow> rule_row \<Rightarrow> alloc_view \<Rightarrow> int \<Rightarrow> int \<Rightarrow> assessment_row" where
  "assessment_row_of env tenant assessed_at i r a commission proceeds =
     \<lparr>as_id = com_assessment_id env i, as_tenant_id = tenant, as_allocation_id = al_id a,
      as_order_id = al_order_id a, as_order_line_item_id = al_order_line_item_id a,
      as_seller_id = al_seller_id a, as_listing_id = al_listing_id a, as_rule_id = ru_id r,
      as_rule_key = ru_rule_key r, as_rule_version = ru_version r,
      as_currency_code = al_currency_code a, as_allocation_total_amount = al_total_amount a,
      as_rate_bps = ru_rate_bps r, as_fixed_amount = ru_fixed_amount r,
      as_commission_amount = commission, as_seller_proceeds_amount = proceeds,
      as_status = assessment_status_as_str Assessed,
      as_metadata = JObject [(''rule_specificity'', JNumber (show_nat (rule_specificity r))),
                             (''allocation_status'', JString (alloc_status_as_str (al_status a)))],
      as_assessed_at = assessed_at, as_created_at = com_row_now env\<rparr>"

text \<open>The loop over the allocations: the table, the responses and the two totals so far.\<close>

fun assess_allocations ::
    "com_env \<Rightarrow> uuid \<Rightarrow> int \<Rightarrow> rule_row list \<Rightarrow> nat \<Rightarrow> alloc_view list
     \<Rightarrow> assessment_row list \<times> assessment_view list \<times> int \<times> int
     \<Rightarrow> com_error + assessment_row list \<times> assessment_view list \<times> int \<times> int" where
  "assess_allocations env tenant at candidates i [] acc = Inr acc"
| "assess_allocations env tenant at candidates i (a # as) (rows, vs, ct, pt) =
     rbind (ok_or (select_rule candidates a) (RuleNotMatched (al_id a))) (\<lambda>r.
     rbind (calculate_commission (com_print_uuid env) r a) (\<lambda>(commission, proceeds).
     rbind (ok_or (checked_i64 (ct + commission)) (ComValidation ''commission total overflow'')) (\<lambda>ct.
     rbind (ok_or (checked_i64 (pt + proceeds)) (ComValidation ''proceeds total overflow'')) (\<lambda>pt.
     let model = assessment_row_of env tenant at i r a commission proceeds in
     rbind (ok_or (insert_unique assessment_clash model rows) (AllocationAlreadyAssessed (al_id a))) (\<lambda>rows.
     rbind (map_assessment model) (\<lambda>v.
     assess_allocations env tenant at candidates (Suc i) as (rows, vs @ [v], ct, pt)))))))"

definition candidate_rules :: "com_store \<Rightarrow> uuid \<Rightarrow> int \<Rightarrow> alloc_view list \<Rightarrow> rule_row list" where
  "candidate_rules s tenant at as =
     filter (\<lambda>r. ru_tenant_id r = tenant \<and> ru_status r = rule_status_as_str Active
        \<and> ru_effective_from r \<le> at
        \<and> (case ru_effective_until r of None \<Rightarrow> True | Some t \<Rightarrow> at < t)
        \<and> (case ru_listing_id r of None \<Rightarrow> True | Some l \<Rightarrow> l \<in> set (map al_listing_id as))
        \<and> (case ru_seller_id r of None \<Rightarrow> True | Some l \<Rightarrow> l \<in> set (map al_seller_id as)))
       (rule_rows s)"

definition assessed_already :: "com_store \<Rightarrow> uuid \<Rightarrow> alloc_view list \<Rightarrow> assessment_row list" where
  "assessed_already s tenant as =
     sort_key as_allocation_id (filter (\<lambda>r. as_tenant_id r = tenant
       \<and> as_allocation_id r \<in> set (map al_id as)) (assessment_rows s))"

text \<open>The caller has checked that there is at least one allocation.\<close>

definition assess_in_transaction ::
    "com_env \<Rightarrow> com_store \<Rightarrow> uuid \<Rightarrow> int \<Rightarrow> alloc_view list \<Rightarrow> com_error + com_store \<times> assess_response" where
  "assess_in_transaction env tx tenant at as =
     (case assessed_already tx tenant as of
        existing # _ \<Rightarrow> Inl (AllocationAlreadyAssessed (as_allocation_id existing))
      | [] \<Rightarrow>
          rbind (assess_allocations env tenant at (candidate_rules tx tenant at as) 0 as
                   (assessment_rows tx, [], 0, 0)) (\<lambda>(rows, vs, ct, pt).
          Inr (tx\<lparr>assessment_rows := rows\<rparr>,
               \<lparr>ar_order_id = al_order_id (hd as),
                ar_assessments = sort_key as_order_line_item_id (sort_key as_id vs),
                ar_commission_total_amount = ct, ar_seller_proceeds_total_amount = pt\<rparr>)))"

definition map_allocation_port_error :: "port_error \<Rightarrow> com_error" where
  "map_allocation_port_error e =
     AllocationBoundary (err_code e)
       (case err_kind e of
          Validation \<Rightarrow> ''marketplace allocation request is invalid''
        | NotFound \<Rightarrow> ''marketplace allocation resource was not found''
        | Conflict \<Rightarrow> ''marketplace allocation operation conflicts with the current state''
        | Forbidden \<Rightarrow> ''marketplace allocation permission was denied''
        | Unavailable \<Rightarrow> ''marketplace allocation service is temporarily unavailable''
        | Timeout \<Rightarrow> ''marketplace allocation request timed out''
        | InvariantViolation \<Rightarrow> ''marketplace allocation requires operator review'')
       (retryable e) (err_kind e)"

text \<open>\<open>AssessableAllocationReader\<close>: allocations that are not in the allocated state are refused.\<close>

definition assessable_reader ::
    "(uuid \<Rightarrow> string) \<Rightarrow> (port_context \<Rightarrow> uuid \<Rightarrow> port_error + alloc_view list)
     \<Rightarrow> port_context \<Rightarrow> uuid \<Rightarrow> port_error + alloc_view list" where
  "assessable_reader prn reader ctx order =
     rbind (reader ctx order) (\<lambda>as.
     case List.find (\<lambda>a. al_status a \<noteq> Allocated) as of
       Some a \<Rightarrow> Inl (err_conflict ''marketplace_commission.allocation_not_assessable''
          (''allocation '' @ prn (al_id a) @ '' is `'' @ alloc_status_as_str (al_status a)
            @ ''` and cannot be assessed''))
     | None \<Rightarrow> Inr as)"

subsection \<open>Commands\<close>

definition as_rule_response :: "com_response \<Rightarrow> rule_view option" where
  "as_rule_response v = (case v of RuleResponse r \<Rightarrow> Some r | _ \<Rightarrow> None)"

definition as_assess_response :: "com_response \<Rightarrow> assess_response option" where
  "as_assess_response v = (case v of AssessResponse r \<Rightarrow> Some r | _ \<Rightarrow> None)"

definition prepare_rule ::
    "com_env \<Rightarrow> uuid \<Rightarrow> uuid \<Rightarrow> string \<Rightarrow> rule_input \<Rightarrow> com_error + rule_input \<times> string \<times> string" where
  "prepare_rule env tenant actor key inp =
     rbind (ensure (\<not> (is_nil tenant \<or> is_nil actor))
       (ComValidation ''tenant_id and actor_id must not be nil'')) (\<lambda>_.
     rbind (normalize_rule_input inp) (\<lambda>inp.
     rbind (com_normalize_idempotency_key key) (\<lambda>key.
     rbind (com_request_hash env ''create_commission_rule_version'' actor (rule_to_value env inp)) (\<lambda>hash.
     Inr (inp, key, hash)))))"

definition create_rule_version_with_receipt ::
    "com_env \<Rightarrow> com_store \<Rightarrow> com_store \<Rightarrow> uuid \<Rightarrow> uuid \<Rightarrow> string \<Rightarrow> rule_input
     \<Rightarrow> com_store \<times> (com_error + com_response)" where
  "create_rule_version_with_receipt env seen s tenant actor key inp =
     (case prepare_rule env tenant actor key inp of
        Inl e \<Rightarrow> (s, Inl e)
      | Inr (inp, key, hash) \<Rightarrow>
          (case com_admit_receipt env seen s tenant actor key ''create_commission_rule_version'' hash of
             Inl e \<Rightarrow> (s, Inl e)
           | Inr (ComReplay r) \<Rightarrow>
               (s, rbind (com_replay_receipt as_rule_response r ''create_commission_rule_version'' hash ''rule'')
                     (\<lambda>v. Inr (RuleResponse v)))
           | Inr (ComNew nr) \<Rightarrow>
               (case create_rule_in_transaction env (com_transaction nr) tenant inp of
                  Inr (tx, v) \<Rightarrow> com_complete_receipt env s (nr\<lparr>com_transaction := tx\<rparr>) ''rule'' (RuleResponse v)
                | Inl e \<Rightarrow> (s, Inl e))))"

definition prepare_assess ::
    "com_env \<Rightarrow> uuid \<Rightarrow> uuid \<Rightarrow> string \<Rightarrow> assess_input \<Rightarrow> com_error + string \<times> string" where
  "prepare_assess env tenant actor key inp =
     rbind (ensure (\<not> (is_nil tenant \<or> is_nil actor \<or> is_nil (ai_order_id inp)))
       (ComValidation ''tenant_id, actor_id, and order_id must not be nil'')) (\<lambda>_.
     rbind (com_normalize_idempotency_key key) (\<lambda>key.
     rbind (com_request_hash env ''assess_order_commissions'' actor (assess_to_value env inp)) (\<lambda>hash.
     Inr (key, hash))))"

definition load_allocations ::
    "com_env \<Rightarrow> port_context \<Rightarrow> uuid \<Rightarrow> uuid \<Rightarrow> com_error + alloc_view list" where
  "load_allocations env ctx tenant order =
     rbind (map_err map_allocation_port_error
              (assessable_reader (com_print_uuid env) (allocation_reader env) ctx order)) (\<lambda>as.
     rbind (ensure (as \<noteq> []) (ComValidation
       (''order '' @ com_print_uuid env order @ '' has no marketplace allocations''))) (\<lambda>_.
     rbind (validate_allocation_batch (com_print_uuid env) tenant order as) (\<lambda>_.
     Inr as)))"

text \<open>
  The receipt is looked up before the allocations are read, in the store \<open>before\<close>, and again
  when it is admitted, in the store \<open>seen\<close>.
\<close>

definition assess_order_with_receipt ::
    "com_env \<Rightarrow> com_store \<Rightarrow> com_store \<Rightarrow> com_store \<Rightarrow> port_context \<Rightarrow> uuid \<Rightarrow> uuid \<Rightarrow> string \<Rightarrow> assess_input
     \<Rightarrow> com_store \<times> (com_error + com_response)" where
  "assess_order_with_receipt env before seen s ctx tenant actor key inp =
     (case prepare_assess env tenant actor key inp of
        Inl e \<Rightarrow> (s, Inl e)
      | Inr (key, hash) \<Rightarrow>
          (let replay = (\<lambda>r. rbind (com_replay_receipt as_assess_response r ''assess_order_commissions''
                 hash ''assessments'') (\<lambda>v. Inr (AssessResponse v))) in
           case com_find_receipt before tenant key of
             Some r \<Rightarrow> (s, replay r)
           | None \<Rightarrow>
               (case load_allocations env ctx tenant (ai_order_id inp) of
                  Inl e \<Rightarrow> (s, Inl e)
                | Inr as \<Rightarrow>
                    (case com_admit_receipt env seen s tenant actor key ''assess_order_commissions'' hash of
                       Inl e \<Rightarrow> (s, Inl e)
                     | Inr (ComReplay r) \<Rightarrow> (s, replay r)
                     | Inr (ComNew nr) \<Rightarrow>
                         (case assess_in_transaction env (com_transaction nr) tenant (ai_assessed_at inp) as of
                            Inr (tx, v) \<Rightarrow>
                              com_complete_receipt env s (nr\<lparr>com_transaction := tx\<rparr>) ''assessments''
                                (AssessResponse v)
                          | Inl e \<Rightarrow> (s, Inl e))))))"

subsection \<open>Queries\<close>

definition get_assessment_by_allocation :: "com_store \<Rightarrow> uuid \<Rightarrow> uuid \<Rightarrow> com_error + assessment_view" where
  "get_assessment_by_allocation s tenant alloc =
     rbind (ensure (\<not> (is_nil tenant \<or> is_nil alloc))
       (ComValidation ''tenant_id and allocation_id must not be nil'')) (\<lambda>_.
     rbind (ok_or (List.find (\<lambda>r. as_tenant_id r = tenant \<and> as_allocation_id r = alloc) (assessment_rows s))
       (AssessmentNotFound alloc)) map_assessment)"

definition list_assessments_by_order :: "com_store \<Rightarrow> uuid \<Rightarrow> uuid \<Rightarrow> com_error + assessment_view list" where
  "list_assessments_by_order s tenant order =
     rbind (ensure (\<not> (is_nil tenant \<or> is_nil order))
       (ComValidation ''tenant_id and order_id must not be nil'')) (\<lambda>_.
     try_map map_assessment (sort_key as_order_line_item_id (sort_key as_id
       (filter (\<lambda>r. as_tenant_id r = tenant \<and> as_order_id r = order) (assessment_rows s)))))"

definition list_assessments_by_seller ::
    "com_store \<Rightarrow> uuid \<Rightarrow> uuid \<Rightarrow> nat \<Rightarrow> nat \<Rightarrow> assessment_status option
     \<Rightarrow> com_error + assessment_view list \<times> nat \<times> nat \<times> nat" where
  "list_assessments_by_seller s tenant seller page per_page status =
     rbind (ensure (\<not> (is_nil tenant \<or> is_nil seller))
       (ComValidation ''tenant_id and seller_id must not be nil'')) (\<lambda>_.
     let page = max page 1;
         per_page = min (max per_page 1) MAX_COMMISSION_ASSESSMENTS_PER_PAGE;
         rows = sort_key (\<lambda>r. - as_assessed_at r) (sort_key (\<lambda>r. - uint (as_id r))
           (filter (\<lambda>r. as_tenant_id r = tenant \<and> as_seller_id r = seller
              \<and> (case status of None \<Rightarrow> True | Some st \<Rightarrow> as_status r = assessment_status_as_str st))
             (assessment_rows s))) in
     rbind (try_map map_assessment (take per_page (drop (per_page * (page - 1)) rows))) (\<lambda>items.
     Inr (items, length rows, page, per_page)))"

record rules_query =
  rq_rule_key :: "uuid option"
  rq_seller_id :: "uuid option"
  rq_listing_id :: "uuid option"
  rq_status :: "rule_status option"
  rq_page :: nat
  rq_per_page :: nat

text \<open>Rows equal in both sort keys come in the order of the table.\<close>

definition list_rules :: "com_store \<Rightarrow> uuid \<Rightarrow> rules_query \<Rightarrow> com_error + rule_view list \<times> nat \<times> nat \<times> nat" where
  "list_rules s tenant q =
     rbind (ensure (\<not> is_nil tenant) (ComValidation ''tenant_id must not be nil'')) (\<lambda>_.
     rbind (ensure (\<not> (rq_rule_key q = Some 0 \<or> rq_seller_id q = Some 0 \<or> rq_listing_id q = Some 0))
       (ComValidation ''filter rule_key, seller_id, and listing_id must not be nil when present'')) (\<lambda>_.
     let page = max (rq_page q) 1;
         per_page = min (max (rq_per_page q) 1) MAX_COMMISSION_RULES_PER_PAGE;
         rows = sort_key (\<lambda>r. - ru_created_at r) (sort_key (\<lambda>r. - ru_version r)
           (filter (\<lambda>r. ru_tenant_id r = tenant
              \<and> (case rq_rule_key q of None \<Rightarrow> True | Some k \<Rightarrow> ru_rule_key r = k)
              \<and> (case rq_seller_id q of None \<Rightarrow> True | Some k \<Rightarrow> ru_seller_id r = Some k)
              \<and> (case rq_listing_id q of None \<Rightarrow> True | Some k \<Rightarrow> ru_listing_id r = Some k)
              \<and> (case rq_status q of None \<Rightarrow> True | Some st \<Rightarrow> ru_status r = rule_status_as_str st))
             (rule_rows s))) in
     rbind (try_map map_rule (take per_page (drop (per_page * (page - 1)) rows))) (\<lambda>items.
     Inr (items, length rows, page, per_page))))"

subsection \<open>Selection of the rule\<close>

text \<open>
  The documented order of precedence as one value, compared lexicographically: specificity,
  priority, version, start of validity, and at last the smaller identifier.
\<close>

definition rule_rank :: "'st commission_rule \<Rightarrow> int list" where
  "rule_rank r = [int (rule_specificity r), ru_priority r, ru_version r, ru_effective_from r, - uint (ru_id r)]"

lemma cmp_Cons: "cmp (x # xs) (y # ys) = then_with (cmp x y) (cmp xs ys)"
  by (auto simp: cmp_def)

lemma compare_rules_rank: "compare_rules l r = cmp (rule_rank l) (rule_rank r)"
proof -
  have "cmp (ru_id r) (ru_id l) = cmp [- uint (ru_id l)] [- uint (ru_id r)]"
    by (simp add: cmp_def word_less_def word_uint_eq_iff)
  moreover have "cmp (rule_specificity l) (rule_specificity r)
      = cmp (int (rule_specificity l)) (int (rule_specificity r))" by (simp add: cmp_def)
  ultimately show ?thesis by (simp only: compare_rules_def rule_rank_def cmp_Cons)
qed

lemma foldl_max:
  fixes k :: "'a \<Rightarrow> 'b::linorder"
  assumes "m = foldl (\<lambda>a b. if cmp (k a) (k b) = Greater then a else b) x xs"
  shows "m \<in> set (x # xs) \<and> (\<forall>y \<in> set (x # xs). k y \<le> k m)"
  using assms
proof (induction xs arbitrary: x)
  case (Cons z xs)
  let ?y = "if cmp (k x) (k z) = Greater then x else z"
  have "k x \<le> k ?y" "k z \<le> k ?y" "?y = x \<or> ?y = z" by (auto simp: cmp_def)
  with Cons.IH [of ?y] Cons.prems show ?case by force
qed simp

lemma max_by_cmp:
  fixes k :: "'a \<Rightarrow> 'b::linorder"
  assumes "max_by (\<lambda>a b. cmp (k a) (k b)) xs = Some m"
  shows "m \<in> set xs" "\<And>x. x \<in> set xs \<Longrightarrow> k x \<le> k m"
  using assms foldl_max [where k = k] by (cases xs; auto)+

lemma rule_rank_id: "rule_rank c = rule_rank r \<Longrightarrow> ru_id c = ru_id r"
  by (simp add: rule_rank_def word_uint_eq_iff)

lemma select_rule_max:
  "select_rule cs a = max_by (\<lambda>l r. cmp (rule_rank l) (rule_rank r)) (filter (\<lambda>c. rule_applies c a) cs)"
  unfolding select_rule_def compare_rules_rank ..

lemma select_rule_None: "select_rule cs a = None \<longleftrightarrow> (\<forall>c \<in> set cs. \<not> rule_applies c a)"
  by (cases "filter (\<lambda>c. rule_applies c a) cs") (auto simp: select_rule_def filter_empty_conv filter_eq_Cons_iff)

lemma select_rule_Some:
  assumes "select_rule cs a = Some r"
  shows "r \<in> set cs" "rule_applies r a"
    "\<And>c. c \<in> set cs \<Longrightarrow> rule_applies c a \<Longrightarrow> rule_rank c \<le> rule_rank r"
  using max_by_cmp [OF assms [unfolded select_rule_max]] by auto

lemma select_rule_iff:
  assumes "distinct (map ru_id cs)"
  shows "select_rule cs a = Some r \<longleftrightarrow> r \<in> set cs \<and> rule_applies r a
    \<and> (\<forall>c \<in> set cs. rule_applies c a \<longrightarrow> c = r \<or> rule_rank c < rule_rank r)"
proof
  assume s: "select_rule cs a = Some r"
  have "c = r" if "c \<in> set cs" "rule_rank c = rule_rank r" for c
    using that rule_rank_id select_rule_Some(1) [OF s] assms by (auto simp: distinct_map inj_on_def)
  then show "r \<in> set cs \<and> rule_applies r a
      \<and> (\<forall>c \<in> set cs. rule_applies c a \<longrightarrow> c = r \<or> rule_rank c < rule_rank r)"
    using select_rule_Some [OF s] by (auto simp: order.order_iff_strict)
next
  assume r: "r \<in> set cs \<and> rule_applies r a
      \<and> (\<forall>c \<in> set cs. rule_applies c a \<longrightarrow> c = r \<or> rule_rank c < rule_rank r)"
  then obtain m where m: "select_rule cs a = Some m"
    using select_rule_None [of cs a] by (cases "select_rule cs a") auto
  have "m = r"
    using select_rule_Some [OF m] r by (metis leD)
  with m show "select_rule cs a = Some r" by simp
qed

text \<open>
  C31: the rule that sets the commission of an allocation is the greatest applicable one in the
  documented order of precedence, and there is none only when no rule applies. It does not
  depend on the order in which the database returns the candidates.
\<close>

theorem select_rule_reference:
  assumes "distinct (map ru_id cs)"
  shows "(select_rule cs a = Some r \<longleftrightarrow> r \<in> set cs \<and> rule_applies r a
      \<and> (\<forall>c \<in> set cs. rule_applies c a \<longrightarrow> c = r \<or> rule_rank c < rule_rank r))
    \<and> (select_rule cs a = None \<longleftrightarrow> (\<forall>c \<in> set cs. \<not> rule_applies c a))
    \<and> (mset ds = mset cs \<longrightarrow> select_rule ds a = select_rule cs a)"
proof -
  have "select_rule ds a = select_rule cs a" if p: "mset ds = mset cs"
  proof -
    have s: "set ds = set cs" using p by (rule mset_eq_setD)
    have "mset (map ru_id ds) = mset (map ru_id cs)" using p by simp
    then have d: "distinct (map ru_id ds)" using assms mset_eq_imp_distinct_iff by blast
    show ?thesis
    proof (cases "select_rule cs a")
      case None
      then have "select_rule ds a = None" unfolding select_rule_None s .
      with None show ?thesis by simp
    next
      case (Some r)
      then have "select_rule ds a = Some r"
        unfolding select_rule_iff [OF d] select_rule_iff [OF assms] s .
      with Some show ?thesis by simp
    qed
  qed
  then show ?thesis using select_rule_iff [OF assms] select_rule_None by blast
qed

subsection \<open>The split of an allocation\<close>

definition rule_in_range :: "'st commission_rule \<Rightarrow> bool" where
  "rule_in_range r \<longleftrightarrow> 0 \<le> ru_rate_bps r \<and> ru_rate_bps r \<le> 10000 \<and> 0 \<le> ru_fixed_amount r"

lemma sdiv_nonneg: "0 \<le> a \<Longrightarrow> 0 < b \<Longrightarrow> a sdiv b = a div (b :: int)"
  by (cases "a = 0") (simp_all add: signed_divide_int_def)

lemma checked_i128_Some [simp]: "checked_i128 x = Some y \<Longrightarrow> y = x"
  by (simp add: checked_i128_def split: if_splits)

lemma calculate_commission_Inr:
  assumes "calculate_commission prn r a = Inr (c, p)" and "rule_in_range r" and "0 \<le> al_total_amount a"
  shows "c = al_total_amount a * ru_rate_bps r div 10000 + ru_fixed_amount r"
    and "0 \<le> c" and "c \<le> al_total_amount a" and "c + p = al_total_amount a"
proof -
  have "0 \<le> al_total_amount a * ru_rate_bps r" using assms(2,3) by (simp add: rule_in_range_def)
  then have d: "al_total_amount a * ru_rate_bps r sdiv 10000 = al_total_amount a * ru_rate_bps r div 10000"
    by (rule sdiv_nonneg) simp
  have "c = al_total_amount a * ru_rate_bps r sdiv 10000 + ru_fixed_amount r"
    and *: "c \<le> al_total_amount a" "c + p = al_total_amount a"
    using assms(1) by (auto simp: calculate_commission_def dest!: checked_i128_Some)
  then show c: "c = al_total_amount a * ru_rate_bps r div 10000 + ru_fixed_amount r"
    and "c \<le> al_total_amount a" "c + p = al_total_amount a" by (simp_all add: d)
  have "0 \<le> al_total_amount a * ru_rate_bps r div 10000"
    using \<open>0 \<le> al_total_amount a * ru_rate_bps r\<close> by (simp add: pos_imp_zdiv_nonneg_iff)
  then show "0 \<le> c" using assms(2) c by (simp add: rule_in_range_def)
qed

definition assessed_by :: "com_env \<Rightarrow> uuid \<Rightarrow> int \<Rightarrow> rule_row list \<Rightarrow> alloc_view \<Rightarrow> assessment_row \<Rightarrow> bool" where
  "assessed_by env tenant at cs a m \<longleftrightarrow> (\<exists>r c p i. select_rule cs a = Some r
     \<and> calculate_commission (com_print_uuid env) r a = Inr (c, p)
     \<and> m = assessment_row_of env tenant at i r a c p)"

lemma assessed_by_split:
  assumes "assessed_by env tenant at cs a m" and "\<forall>r \<in> set cs. rule_in_range r" and "0 \<le> al_total_amount a"
  shows "as_allocation_id m = al_id a \<and> as_tenant_id m = tenant \<and> as_order_id m = al_order_id a
    \<and> as_seller_id m = al_seller_id a \<and> as_currency_code m = al_currency_code a
    \<and> as_order_line_item_id m = al_order_line_item_id a
    \<and> as_allocation_total_amount m = al_total_amount a
    \<and> as_commission_amount m = al_total_amount a * as_rate_bps m div 10000 + as_fixed_amount m
    \<and> 0 \<le> as_commission_amount m \<and> as_commission_amount m \<le> al_total_amount a
    \<and> as_commission_amount m + as_seller_proceeds_amount m = al_total_amount a"
proof -
  obtain r c p i where m: "select_rule cs a = Some r"
    "calculate_commission (com_print_uuid env) r a = Inr (c, p)"
    "m = assessment_row_of env tenant at i r a c p" using assms(1) by (auto simp: assessed_by_def)
  then have "rule_in_range r" using select_rule_Some(1) assms(2) by blast
  from calculate_commission_Inr [OF m(2) this assms(3)] show ?thesis
    by (simp add: m(3) assessment_row_of_def)
qed

lemma assess_allocations_Inr:
  "assess_allocations env tenant at cs i as (rows, vs, ct, pt) = Inr (rows', vs', ct', pt') \<Longrightarrow>
   \<exists>ms ws. rows' = rows @ ms \<and> vs' = vs @ ws \<and> try_map map_assessment ms = Inr ws
     \<and> list_all2 (assessed_by env tenant at cs) as ms
     \<and> ct' = ct + sum_list (map as_commission_amount ms)
     \<and> pt' = pt + sum_list (map as_seller_proceeds_amount ms)
     \<and> (unique_rows assessment_clash rows \<longrightarrow> unique_rows assessment_clash rows')"
proof (induction as arbitrary: i rows vs ct pt)
  case Nil
  then show ?case by simp
next
  case (Cons a as)
  from Cons.prems obtain r c p v where
    step: "select_rule cs a = Some r" "calculate_commission (com_print_uuid env) r a = Inr (c, p)"
    and ins: "\<forall>y \<in> set rows. \<not> assessment_clash (assessment_row_of env tenant at i r a c p) y"
    and v: "map_assessment (assessment_row_of env tenant at i r a c p) = Inr v"
    and rest: "assess_allocations env tenant at cs (Suc i) as
        (rows @ [assessment_row_of env tenant at i r a c p], vs @ [v], ct + c, pt + p) = Inr (rows', vs', ct', pt')"
    by (auto simp: Let_def insert_unique_def list_ex_iff split: prod.splits if_splits)
  let ?m = "assessment_row_of env tenant at i r a c p"
  have m: "assessed_by env tenant at cs a ?m" using step by (auto simp: assessed_by_def)
  have amounts: "as_commission_amount ?m = c" "as_seller_proceeds_amount ?m = p"
    by (simp_all add: assessment_row_of_def)
  from Cons.IH [OF rest] obtain ms ws where IH: "rows' = (rows @ [?m]) @ ms" "vs' = (vs @ [v]) @ ws"
    "try_map map_assessment ms = Inr ws" "list_all2 (assessed_by env tenant at cs) as ms"
    "ct' = ct + c + sum_list (map as_commission_amount ms)"
    "pt' = pt + p + sum_list (map as_seller_proceeds_amount ms)"
    "unique_rows assessment_clash (rows @ [?m]) \<longrightarrow> unique_rows assessment_clash rows'" by blast
  have "unique_rows assessment_clash rows \<Longrightarrow> unique_rows assessment_clash (rows @ [?m])"
    using ins by (auto simp: unique_rows_def sorted_wrt_append assessment_clash_def)
  with IH m v amounts show ?case
    by (intro exI [of _ "?m # ms"] exI [of _ "v # ws"]) auto
qed

lemma validate_batch_from_Inr:
  "validate_batch_from prn tenant order seen as = Inr () \<Longrightarrow>
     distinct (map al_id as) \<and> al_id ` set as \<inter> seen = {}
     \<and> (\<forall>a \<in> set as. al_tenant_id a = tenant \<and> al_order_id a = order \<and> 0 \<le> al_total_amount a)"
proof (induction as arbitrary: seen)
  case (Cons a as)
  from Cons.prems have "validate_batch_from prn tenant order (insert (al_id a) seen) as = Inr ()"
    and "al_tenant_id a = tenant" "al_order_id a = order" "al_id a \<notin> seen" "0 \<le> al_total_amount a"
    by (auto split: if_splits)
  with Cons.IH [OF this(1)] show ?case by auto
qed simp

lemma load_allocations_Inr:
  assumes "load_allocations env ctx tenant order = Inr as"
  shows "as \<noteq> []" "distinct (map al_id as)"
    "\<forall>a \<in> set as. al_tenant_id a = tenant \<and> al_order_id a = order \<and> 0 \<le> al_total_amount a"
    "\<forall>a \<in> set as. al_status a = Allocated"
    "allocation_reader env ctx order = Inr as"
proof -
  from assms have v: "validate_batch_from (com_print_uuid env) tenant order {} as = Inr ()"
    and r: "assessable_reader (com_print_uuid env) (allocation_reader env) ctx order = Inr as" and n: "as \<noteq> []"
    by (auto simp: load_allocations_def validate_allocation_batch_def)
  show "as \<noteq> []" by (rule n)
  show "distinct (map al_id as)"
    "\<forall>a \<in> set as. al_tenant_id a = tenant \<and> al_order_id a = order \<and> 0 \<le> al_total_amount a"
    using validate_batch_from_Inr [OF v] by simp_all
  from r show "\<forall>a \<in> set as. al_status a = Allocated" "allocation_reader env ctx order = Inr as"
    by (auto simp: assessable_reader_def find_None_iff split: option.splits)
qed

subsection \<open>Outcomes\<close>

interpretation com_receipt_table: unique_table com_receipt_clash
  by unfold_locales (auto simp: com_receipt_clash_def)

interpretation rule_table: unique_table rule_clash
  by unfold_locales (auto simp: rule_clash_def)

interpretation assessment_table: unique_table assessment_clash
  by unfold_locales (auto simp: assessment_clash_def)

definition com_store_ok :: "com_store \<Rightarrow> bool" where
  "com_store_ok s \<longleftrightarrow>
     unique_rows rule_clash (rule_rows s) \<and> unique_rows assessment_clash (assessment_rows s)
     \<and> unique_rows com_receipt_clash (com_receipt_rows s) \<and> (\<forall>r \<in> set (rule_rows s). rule_in_range r)"

definition com_receipted ::
    "com_env \<Rightarrow> com_store \<Rightarrow> uuid \<Rightarrow> uuid \<Rightarrow> string \<Rightarrow> string \<Rightarrow> string \<Rightarrow> string \<Rightarrow> com_response \<Rightarrow> com_store \<Rightarrow> bool" where
  "com_receipted env s tenant actor key kind hash rkind resp s' \<longleftrightarrow>
     com_find_receipt s tenant key = None
     \<and> com_receipt_rows s' = com_receipt_rows s
          @ [com_completed_receipt env rkind resp (com_pending_receipt env tenant actor key kind hash)]
     \<and> (unique_rows com_receipt_clash (com_receipt_rows s) \<longrightarrow> unique_rows com_receipt_clash (com_receipt_rows s'))"

lemma com_find_None:
  "com_find_receipt s tenant key = None \<longleftrightarrow>
     (\<forall>r \<in> set (com_receipt_rows s). \<not> (cr_tenant_id r = tenant \<and> cr_idempotency_key r = key))"
  by (auto simp: com_find_receipt_def find_None_iff)

lemma com_find_receipted:
  assumes "com_receipted env s tenant actor key kind hash rkind resp s'"
  shows "com_find_receipt s t k = Some r \<Longrightarrow> com_find_receipt s' t k = Some r"
    and "com_find_receipt s' tenant key
      = Some (com_completed_receipt env rkind resp (com_pending_receipt env tenant actor key kind hash))"
  using assms
  by (simp_all add: com_receipted_def com_find_receipt_def find_append com_completed_receipt_def
      com_pending_receipt_def)

lemma com_replay_completed:
  "com_replay_receipt select (com_completed_receipt env rkind resp
     (com_pending_receipt env tenant actor key kind hash)) kind hash rkind = ok_or (select resp) ComReceiptCorrupt"
  by (simp add: com_replay_receipt_def com_completed_receipt_def com_pending_receipt_def)

lemma com_admit_Replay:
  "com_admit_receipt env seen s tenant actor key kind hash = Inr (ComReplay r) \<Longrightarrow>
   com_find_receipt seen tenant key = Some r \<or> com_find_receipt s tenant key = Some r"
  by (auto simp: com_admit_receipt_def split: if_splits option.splits)

lemma com_admit_New:
  assumes "com_admit_receipt env seen s tenant actor key kind hash = Inr (ComNew nr)"
  shows "nr = \<lparr>com_transaction = s\<lparr>com_receipt_rows := com_receipt_rows s
                 @ [com_pending_receipt env tenant actor key kind hash]\<rparr>,
               nc_receipt_id = com_receipt_id env, nc_tenant_id = tenant\<rparr>"
    and "\<forall>r \<in> set (com_receipt_rows s). \<not> com_receipt_clash (com_pending_receipt env tenant actor key kind hash) r"
  using assms
  by (auto simp: com_admit_receipt_def com_receipt_table.insert_unique_Some split: if_splits option.splits)

text \<open>Completion of an admitted receipt always commits, whatever the body did to the other tables.\<close>

lemma com_complete_New:
  assumes "com_admit_receipt env seen s tenant actor key kind hash = Inr (ComNew nr)"
    and "com_receipt_rows tx = com_receipt_rows (com_transaction nr)"
  shows "\<exists>s'. com_complete_receipt env s (nr\<lparr>com_transaction := tx\<rparr>) rkind resp = (s', Inr resp)
    \<and> rule_rows s' = rule_rows tx \<and> assessment_rows s' = assessment_rows tx
    \<and> com_receipted env s tenant actor key kind hash rkind resp s'"
proof -
  let ?p = "com_pending_receipt env tenant actor key kind hash"
  let ?nr = "nr\<lparr>com_transaction := tx\<rparr>"
  note nr = com_admit_New(1) [OF assms(1)] and fresh = com_admit_New(2) [OF assms(1)]
  have tx: "com_receipt_rows tx = com_receipt_rows s @ [?p]" using assms(2) by (simp add: nr)
  have "\<not> com_completes ?nr r" if "r \<in> set (com_receipt_rows s)" for r
    using fresh that by (auto simp: com_completes_def nr com_receipt_clash_def com_pending_receipt_def)
  then have old: "filter (com_completes ?nr) (com_receipt_rows s) = []"
    "map (\<lambda>r. if com_completes ?nr r then com_completed_receipt env rkind resp r else r) (com_receipt_rows s)
      = com_receipt_rows s"
    by (auto simp: filter_empty_conv intro: map_idI)
  have "com_completes ?nr ?p" by (simp add: com_completes_def nr com_pending_receipt_def)
  then have run: "com_complete_receipt env s ?nr rkind resp
      = (tx\<lparr>com_receipt_rows := com_receipt_rows s @ [com_completed_receipt env rkind resp ?p]\<rparr>, Inr resp)"
    using old by (simp add: com_complete_receipt_def Let_def tx)
  have "unique_rows com_receipt_clash (com_receipt_rows s @ [com_completed_receipt env rkind resp ?p])"
    if "unique_rows com_receipt_clash (com_receipt_rows s)"
    using that fresh by (auto simp: com_receipt_table.unique_snoc com_receipt_clash_def com_completed_receipt_def)
  moreover have "com_find_receipt s tenant key = None"
    using fresh by (auto simp: com_find_None com_receipt_clash_def com_pending_receipt_def)
  ultimately show ?thesis by (simp add: run com_receipted_def)
qed

definition assess_commits ::
    "com_env \<Rightarrow> com_store \<Rightarrow> uuid \<Rightarrow> uuid \<Rightarrow> string \<Rightarrow> string \<Rightarrow> int \<Rightarrow> alloc_view list \<Rightarrow> assessment_row list
     \<Rightarrow> assess_response \<Rightarrow> com_store \<Rightarrow> bool" where
  "assess_commits env s tenant actor k h at as ms resp s' \<longleftrightarrow>
     com_receipted env s tenant actor k ''assess_order_commissions'' h ''assessments'' (AssessResponse resp) s'
     \<and> rule_rows s' = rule_rows s \<and> assessment_rows s' = assessment_rows s @ ms
     \<and> assessed_already s tenant as = []
     \<and> list_all2 (assessed_by env tenant at (candidate_rules s tenant at as)) as ms
     \<and> (\<exists>ws. try_map map_assessment ms = Inr ws
          \<and> ar_assessments resp = sort_key as_order_line_item_id (sort_key as_id ws))
     \<and> ar_order_id resp = al_order_id (hd as)
     \<and> ar_commission_total_amount resp = sum_list (map as_commission_amount ms)
     \<and> ar_seller_proceeds_total_amount resp = sum_list (map as_seller_proceeds_amount ms)
     \<and> com_store_ok s'"

lemma assess_in_transaction_Inr:
  assumes "assess_in_transaction env tx tenant at as = Inr (tx', resp)"
    and "rule_rows tx = rule_rows s" "assessment_rows tx = assessment_rows s"
  shows "\<exists>ms ws. tx' = tx\<lparr>assessment_rows := assessment_rows s @ ms\<rparr>
    \<and> assessed_already s tenant as = []
    \<and> list_all2 (assessed_by env tenant at (candidate_rules s tenant at as)) as ms
    \<and> try_map map_assessment ms = Inr ws
    \<and> resp = \<lparr>ar_order_id = al_order_id (hd as),
              ar_assessments = sort_key as_order_line_item_id (sort_key as_id ws),
              ar_commission_total_amount = sum_list (map as_commission_amount ms),
              ar_seller_proceeds_total_amount = sum_list (map as_seller_proceeds_amount ms)\<rparr>
    \<and> (unique_rows assessment_clash (assessment_rows s) \<longrightarrow> unique_rows assessment_clash (assessment_rows s @ ms))"
proof -
  have eqs: "candidate_rules tx tenant at as = candidate_rules s tenant at as"
    "assessed_already tx tenant as = assessed_already s tenant as"
    by (simp_all add: candidate_rules_def assessed_already_def assms(2,3))
  obtain rows vs ct pt where
    loop: "assess_allocations env tenant at (candidate_rules s tenant at as) 0 as (assessment_rows s, [], 0, 0)
      = Inr (rows, vs, ct, pt)" and none: "assessed_already s tenant as = []"
    and out: "tx' = tx\<lparr>assessment_rows := rows\<rparr>" "resp = \<lparr>ar_order_id = al_order_id (hd as),
              ar_assessments = sort_key as_order_line_item_id (sort_key as_id vs),
              ar_commission_total_amount = ct, ar_seller_proceeds_total_amount = pt\<rparr>"
    using assms(1) by (auto simp: assess_in_transaction_def eqs assms(3) split: list.splits)
  from assess_allocations_Inr [OF loop] obtain ms ws where
    "rows = assessment_rows s @ ms" "vs = ws" "try_map map_assessment ms = Inr ws"
    "list_all2 (assessed_by env tenant at (candidate_rules s tenant at as)) as ms"
    "ct = sum_list (map as_commission_amount ms)" "pt = sum_list (map as_seller_proceeds_amount ms)"
    "unique_rows assessment_clash (assessment_rows s) \<longrightarrow> unique_rows assessment_clash rows" by auto
  with none out show ?thesis by (intro exI [of _ ms] exI [of _ ws]) simp
qed

lemma assess_New_commits:
  assumes "com_store_ok s"
    and "com_admit_receipt env seen s tenant actor k ''assess_order_commissions'' h = Inr (ComNew nr)"
    and "assess_in_transaction env (com_transaction nr) tenant at as = Inr (tx, resp)"
  shows "\<exists>s' ms. com_complete_receipt env s (nr\<lparr>com_transaction := tx\<rparr>) ''assessments'' (AssessResponse resp)
      = (s', Inr (AssessResponse resp)) \<and> assess_commits env s tenant actor k h at as ms resp s'"
proof -
  note nr = com_admit_New(1) [OF assms(2)]
  have base: "rule_rows (com_transaction nr) = rule_rows s" "assessment_rows (com_transaction nr) = assessment_rows s"
    by (simp_all add: nr)
  obtain ms ws where tx: "tx = (com_transaction nr)\<lparr>assessment_rows := assessment_rows s @ ms\<rparr>"
    and body: "assessed_already s tenant as = []"
      "list_all2 (assessed_by env tenant at (candidate_rules s tenant at as)) as ms"
      "try_map map_assessment ms = Inr ws"
      "resp = \<lparr>ar_order_id = al_order_id (hd as),
              ar_assessments = sort_key as_order_line_item_id (sort_key as_id ws),
              ar_commission_total_amount = sum_list (map as_commission_amount ms),
              ar_seller_proceeds_total_amount = sum_list (map as_seller_proceeds_amount ms)\<rparr>"
      "unique_rows assessment_clash (assessment_rows s) \<longrightarrow> unique_rows assessment_clash (assessment_rows s @ ms)"
    using assess_in_transaction_Inr [OF assms(3) base] by blast
  obtain s' where s': "com_complete_receipt env s (nr\<lparr>com_transaction := tx\<rparr>) ''assessments'' (AssessResponse resp)
      = (s', Inr (AssessResponse resp))" "rule_rows s' = rule_rows tx" "assessment_rows s' = assessment_rows tx"
    "com_receipted env s tenant actor k ''assess_order_commissions'' h ''assessments'' (AssessResponse resp) s'"
    using com_complete_New [OF assms(2), of tx] tx by auto
  have rows: "rule_rows s' = rule_rows s" "assessment_rows s' = assessment_rows s @ ms"
    using s'(2,3) by (simp_all add: tx base)
  then have "com_store_ok s'"
    using body(5) s'(4) assms(1) unfolding com_store_ok_def com_receipted_def by metis
  with body(1-4) s'(4) rows have "assess_commits env s tenant actor k h at as ms resp s'"
    by (simp add: assess_commits_def)
  with s'(1) show ?thesis by blast
qed

lemma assess_outcome:
  assumes "com_store_ok s"
    and "assess_order_with_receipt env before seen s ctx tenant actor key inp = (s', res)"
  shows "s' = s \<and> (\<forall>v. res = Inr v \<longrightarrow> (\<exists>k h r. prepare_assess env tenant actor key inp = Inr (k, h)
             \<and> (com_find_receipt before tenant k = Some r \<or> com_find_receipt seen tenant k = Some r
                \<or> com_find_receipt s tenant k = Some r)))
    \<or> (\<exists>k h as ms resp. prepare_assess env tenant actor key inp = Inr (k, h)
         \<and> load_allocations env ctx tenant (ai_order_id inp) = Inr as \<and> res = Inr (AssessResponse resp)
         \<and> assess_commits env s tenant actor k h (ai_assessed_at inp) as ms resp s')"
proof (cases "prepare_assess env tenant actor key inp")
  case (Inl e)
  with assms(2) show ?thesis by (auto simp: assess_order_with_receipt_def)
next
  case prep: (Inr p)
  obtain k h where p: "p = (k, h)" by (cases p)
  note run = assms(2) [unfolded assess_order_with_receipt_def prep p sum.case prod.case Let_def]
  show ?thesis
  proof (cases "com_find_receipt before tenant k")
    case (Some r)
    with run prep p show ?thesis by auto
  next
    case none: None
    show ?thesis
    proof (cases "load_allocations env ctx tenant (ai_order_id inp)")
      case (Inl e)
      with run none show ?thesis by auto
    next
      case load: (Inr as)
      show ?thesis
      proof (cases "com_admit_receipt env seen s tenant actor k ''assess_order_commissions'' h")
        case (Inl e)
        with run none load show ?thesis by auto
      next
        case adm: (Inr a)
        show ?thesis
        proof (cases a)
          case (ComReplay r)
          with run none load adm com_admit_Replay [of env seen s tenant actor k _ h r] prep p
          show ?thesis by auto
        next
          case (ComNew nr)
          note adm = adm [unfolded ComNew]
          show ?thesis
          proof (cases "assess_in_transaction env (com_transaction nr) tenant (ai_assessed_at inp) as")
            case (Inl e)
            with run none load adm show ?thesis by auto
          next
            case (Inr t)
            then obtain tx resp where t: "assess_in_transaction env (com_transaction nr) tenant (ai_assessed_at inp) as
                = Inr (tx, resp)" by (cases t) auto
            with assess_New_commits [OF assms(1) adm t] run none load adm prep p show ?thesis by auto
          qed
        qed
      qed
    qed
  qed
qed

lemma map_assessment_fields:
  "map_assessment m = Inr w \<Longrightarrow>
     as_id w = as_id m \<and> as_tenant_id w = as_tenant_id m \<and> as_allocation_id w = as_allocation_id m
     \<and> as_order_id w = as_order_id m \<and> as_currency_code w = as_currency_code m
     \<and> as_seller_id w = as_seller_id m
     \<and> as_allocation_total_amount w = as_allocation_total_amount m
     \<and> as_commission_amount w = as_commission_amount m
     \<and> as_seller_proceeds_amount w = as_seller_proceeds_amount m
     \<and> assessment_status_parse (as_status m) = Some (as_status w)"
  by (auto simp: map_assessment_def)

lemma list_all2_sum:
  "list_all2 P xs ys \<Longrightarrow> (\<And>x y. x \<in> set xs \<Longrightarrow> P x y \<Longrightarrow> f x = (g y :: int) + h y) \<Longrightarrow>
   sum_list (map g ys) + sum_list (map h ys) = sum_list (map f xs)"
  by (induction xs ys rule: list_all2_induct) auto

lemma list_all2_map_eq:
  "list_all2 P xs ys \<Longrightarrow> (\<And>x y. x \<in> set xs \<Longrightarrow> P x y \<Longrightarrow> f x = g y) \<Longrightarrow> map g ys = map f xs"
  by (induction xs ys rule: list_all2_induct) auto

lemma committed_split:
  assumes "com_store_ok s" and "load_allocations env ctx tenant order = Inr as"
    and "assess_commits env s tenant actor k h at as ms resp s'"
  shows "map as_allocation_id ms = map al_id as"
    and "\<forall>m \<in> set ms. as_tenant_id m = tenant \<and> as_order_id m = order
      \<and> as_commission_amount m = as_allocation_total_amount m * as_rate_bps m div 10000 + as_fixed_amount m
      \<and> 0 \<le> as_commission_amount m \<and> 0 \<le> as_seller_proceeds_amount m
      \<and> as_commission_amount m + as_seller_proceeds_amount m = as_allocation_total_amount m"
    and "ar_commission_total_amount resp + ar_seller_proceeds_total_amount resp
      = sum_list (map al_total_amount as)"
proof -
  let ?cs = "candidate_rules s tenant at as"
  have all: "list_all2 (assessed_by env tenant at ?cs) as ms" using assms(3) by (simp add: assess_commits_def)
  have cs: "\<forall>r \<in> set ?cs. rule_in_range r" using assms(1) by (auto simp: candidate_rules_def com_store_ok_def)
  note load = load_allocations_Inr [OF assms(2)]
  have split: "as_allocation_id m = al_id a \<and> as_tenant_id m = tenant \<and> as_order_id m = al_order_id a
    \<and> as_seller_id m = al_seller_id a \<and> as_currency_code m = al_currency_code a
    \<and> as_order_line_item_id m = al_order_line_item_id a
    \<and> as_allocation_total_amount m = al_total_amount a
    \<and> as_commission_amount m = al_total_amount a * as_rate_bps m div 10000 + as_fixed_amount m
    \<and> 0 \<le> as_commission_amount m \<and> as_commission_amount m \<le> al_total_amount a
    \<and> as_commission_amount m + as_seller_proceeds_amount m = al_total_amount a"
    if "a \<in> set as" "assessed_by env tenant at ?cs a m" for a m
    by (rule assessed_by_split [OF that(2) cs]) (use load(3) that(1) in blast)
  show "map as_allocation_id ms = map al_id as" by (rule list_all2_map_eq [OF all]) (use split in simp)
  show "ar_commission_total_amount resp + ar_seller_proceeds_total_amount resp = sum_list (map al_total_amount as)"
  proof -
    have "sum_list (map as_commission_amount ms) + sum_list (map as_seller_proceeds_amount ms)
        = sum_list (map al_total_amount as)"
      by (rule list_all2_sum [OF all]) (use split in metis)
    with assms(3) show ?thesis by (simp add: assess_commits_def)
  qed
  show "\<forall>m \<in> set ms. as_tenant_id m = tenant \<and> as_order_id m = order
      \<and> as_commission_amount m = as_allocation_total_amount m * as_rate_bps m div 10000 + as_fixed_amount m
      \<and> 0 \<le> as_commission_amount m \<and> 0 \<le> as_seller_proceeds_amount m
      \<and> as_commission_amount m + as_seller_proceeds_amount m = as_allocation_total_amount m"
  proof
    fix m
    assume "m \<in> set ms"
    then obtain a where a: "a \<in> set as" "assessed_by env tenant at ?cs a m"
      using list_all2_set2_ex [OF all] by blast
    moreover have "al_order_id a = order" using load(3) a(1) by blast
    ultimately show "as_tenant_id m = tenant \<and> as_order_id m = order
      \<and> as_commission_amount m = as_allocation_total_amount m * as_rate_bps m div 10000 + as_fixed_amount m
      \<and> 0 \<le> as_commission_amount m \<and> 0 \<le> as_seller_proceeds_amount m
      \<and> as_commission_amount m + as_seller_proceeds_amount m = as_allocation_total_amount m"
      using split [OF a] by simp
  qed
qed

text \<open>
  C4: an order is assessed whole, once, and to the last minor unit. A command that fails changes
  nothing. One that changes the store adds exactly one assessment per allocation of the order,
  none of which was assessed before; each takes the floored percentage plus the fixed amount of
  its rule as commission, leaves no negative share, and commission and seller proceeds add up to
  the allocation; so do the totals of the response over the whole order.
\<close>

theorem order_assessed_exactly:
  assumes "com_store_ok s"
    and "assess_order_with_receipt env before seen s ctx tenant actor key inp = (s', res)"
  shows "com_store_ok s' \<and> (\<not> is_ok res \<longrightarrow> s' = s)
    \<and> (s' \<noteq> s \<longrightarrow> (\<exists>as ms resp. res = Inr (AssessResponse resp)
         \<and> allocation_reader env ctx (ai_order_id inp) = Inr as
         \<and> assessment_rows s' = assessment_rows s @ ms
         \<and> map as_allocation_id ms = map al_id as \<and> distinct (map al_id as)
         \<and> (\<forall>m \<in> set (assessment_rows s). as_tenant_id m = tenant \<longrightarrow> as_allocation_id m \<notin> al_id ` set as)
         \<and> (\<forall>m \<in> set ms. as_commission_amount m
                = as_allocation_total_amount m * as_rate_bps m div 10000 + as_fixed_amount m
              \<and> 0 \<le> as_commission_amount m \<and> 0 \<le> as_seller_proceeds_amount m
              \<and> as_commission_amount m + as_seller_proceeds_amount m = as_allocation_total_amount m)
         \<and> ar_commission_total_amount resp + ar_seller_proceeds_total_amount resp
              = sum_list (map al_total_amount as)))"
proof (cases "s' = s")
  case True
  then show ?thesis using assms(1) by simp
next
  case False
  then obtain k h as ms resp where load: "load_allocations env ctx tenant (ai_order_id inp) = Inr as"
    and res: "res = Inr (AssessResponse resp)"
    and c: "assess_commits env s tenant actor k h (ai_assessed_at inp) as ms resp s'"
    using assess_outcome [OF assms] by blast
  note split = committed_split [OF assms(1) load c] and reader = load_allocations_Inr [OF load]
  have "set (assessed_already s tenant as) = {}" using c by (simp add: assess_commits_def)
  then have "\<forall>m \<in> set (assessment_rows s). as_tenant_id m = tenant \<longrightarrow> as_allocation_id m \<notin> al_id ` set as"
    by (auto simp: assessed_already_def)
  moreover have "com_store_ok s'" "assessment_rows s' = assessment_rows s @ ms"
    using c by (simp_all add: assess_commits_def)
  ultimately show ?thesis
    using False res split reader(2,5)
    by (intro conjI impI exI [of _ as] exI [of _ ms] exI [of _ resp]) auto
qed

subsection \<open>Versions of a rule\<close>

lemma normalize_rule_input_Inr:
  "normalize_rule_input inp = Inr inp' \<Longrightarrow>
     0 \<le> ri_rate_bps inp' \<and> ri_rate_bps inp' \<le> 10000 \<and> 0 \<le> ri_fixed_amount inp'
     \<and> ri_status inp' = ri_status inp \<and> ri_rule_key inp' = ri_rule_key inp"
  by (auto simp: normalize_rule_input_def)

lemma latest_version_max:
  assumes "r \<in> set (rule_rows s)" and "ru_tenant_id r = tenant" and "ru_rule_key r = key"
  shows "ru_version r \<le> latest_version s tenant key"
proof -
  let ?rows = "sort_key (\<lambda>r. - ru_version r)
      (filter (\<lambda>r. ru_tenant_id r = tenant \<and> ru_rule_key r = key) (rule_rows s))"
  have r: "r \<in> set ?rows" using assms by simp
  then obtain x xs where x: "?rows = x # xs" by (cases ?rows) auto
  have "sorted (map (\<lambda>r. - ru_version r) ?rows)" by simp
  then have "- ru_version x \<le> - ru_version r" using r by (auto simp: x)
  then show ?thesis by (simp add: latest_version_def x)
qed

definition create_commits ::
    "com_env \<Rightarrow> com_store \<Rightarrow> uuid \<Rightarrow> uuid \<Rightarrow> string \<Rightarrow> string \<Rightarrow> rule_input \<Rightarrow> rule_view \<Rightarrow> com_store \<Rightarrow> bool" where
  "create_commits env s tenant actor k h inp v s' \<longleftrightarrow>
     com_receipted env s tenant actor k ''create_commission_rule_version'' h ''rule'' (RuleResponse v) s'
     \<and> assessment_rows s' = assessment_rows s
     \<and> rule_rows s' = rule_rows s @ [rule_row_of env tenant (latest_version s tenant (ri_rule_key inp) + 1) inp]
     \<and> map_rule (rule_row_of env tenant (latest_version s tenant (ri_rule_key inp) + 1) inp) = Inr v
     \<and> com_store_ok s'"

lemma create_New_commits:
  assumes "com_store_ok s" and "0 \<le> ri_rate_bps inp" "ri_rate_bps inp \<le> 10000" "0 \<le> ri_fixed_amount inp"
    and "com_admit_receipt env seen s tenant actor k ''create_commission_rule_version'' h = Inr (ComNew nr)"
    and "create_rule_in_transaction env (com_transaction nr) tenant inp = Inr (tx, v)"
  shows "\<exists>s'. com_complete_receipt env s (nr\<lparr>com_transaction := tx\<rparr>) ''rule'' (RuleResponse v)
      = (s', Inr (RuleResponse v)) \<and> create_commits env s tenant actor k h inp v s'"
proof -
  note nr = com_admit_New(1) [OF assms(5)]
  let ?version = "latest_version s tenant (ri_rule_key inp) + 1"
  let ?m = "rule_row_of env tenant ?version inp"
  have "latest_version (com_transaction nr) tenant (ri_rule_key inp) = latest_version s tenant (ri_rule_key inp)"
    by (simp add: latest_version_def nr)
  with assms(6) obtain rows where ins: "insert_unique rule_clash ?m (rule_rows s) = Some rows"
    and v: "map_rule ?m = Inr v" and tx: "tx = (com_transaction nr)\<lparr>rule_rows := rows\<rparr>"
    by (auto simp: create_rule_in_transaction_def Let_def checked_i32_def nr split: if_splits)
  obtain s' where s': "com_complete_receipt env s (nr\<lparr>com_transaction := tx\<rparr>) ''rule'' (RuleResponse v)
      = (s', Inr (RuleResponse v))" "rule_rows s' = rule_rows tx" "assessment_rows s' = assessment_rows tx"
    "com_receipted env s tenant actor k ''create_commission_rule_version'' h ''rule'' (RuleResponse v) s'"
    using com_complete_New [OF assms(5), of tx] tx by auto
  have rows: "rule_rows s' = rule_rows s @ [?m]" "assessment_rows s' = assessment_rows s"
    using s'(2,3) ins by (simp_all add: tx nr rule_table.insert_unique_Some)
  have "unique_rows rule_clash (rule_rows s')" using rule_table.unique_insert [OF _ ins] assms(1) rows(1) ins
    by (simp add: com_store_ok_def rule_table.insert_unique_Some)
  moreover have "rule_in_range ?m" using assms(2-4) by (simp add: rule_in_range_def rule_row_of_def)
  ultimately have "com_store_ok s'"
    using rows s'(4) assms(1) by (auto simp: com_store_ok_def com_receipted_def)
  with s'(1,4) rows v show ?thesis by (auto simp: create_commits_def)
qed

lemma create_outcome:
  assumes "com_store_ok s"
    and "create_rule_version_with_receipt env seen s tenant actor key inp = (s', res)"
  shows "s' = s \<and> (\<forall>v. res = Inr v \<longrightarrow> (\<exists>inp' k h r. prepare_rule env tenant actor key inp = Inr (inp', k, h)
             \<and> (com_find_receipt seen tenant k = Some r \<or> com_find_receipt s tenant k = Some r)))
    \<or> (\<exists>inp' k h v. prepare_rule env tenant actor key inp = Inr (inp', k, h) \<and> res = Inr (RuleResponse v)
         \<and> create_commits env s tenant actor k h inp' v s')"
proof (cases "prepare_rule env tenant actor key inp")
  case (Inl e)
  with assms(2) show ?thesis by (auto simp: create_rule_version_with_receipt_def)
next
  case prep: (Inr p)
  obtain inp' k h where p: "p = (inp', k, h)" by (cases p) auto
  note run = assms(2) [unfolded create_rule_version_with_receipt_def prep p sum.case prod.case]
  have range: "0 \<le> ri_rate_bps inp'" "ri_rate_bps inp' \<le> 10000" "0 \<le> ri_fixed_amount inp'"
    using normalize_rule_input_Inr [of inp inp'] prep p by (auto simp: prepare_rule_def)
  show ?thesis
  proof (cases "com_admit_receipt env seen s tenant actor k ''create_commission_rule_version'' h")
    case (Inl e)
    with run show ?thesis by auto
  next
    case adm: (Inr a)
    show ?thesis
    proof (cases a)
      case (ComReplay r)
      with run adm com_admit_Replay [of env seen s tenant actor k _ h r] prep p show ?thesis by auto
    next
      case (ComNew nr)
      note adm = adm [unfolded ComNew]
      show ?thesis
      proof (cases "create_rule_in_transaction env (com_transaction nr) tenant inp'")
        case (Inl e)
        with run adm show ?thesis by auto
      next
        case (Inr t)
        then obtain tx v where t: "create_rule_in_transaction env (com_transaction nr) tenant inp' = Inr (tx, v)"
          by (cases t) auto
        with create_New_commits [OF assms(1) range adm t] run adm prep p show ?thesis by auto
      qed
    qed
  qed
qed

text \<open>
  C36: a rule version is appended, never changed, with a version above every earlier one of its key.
  Appending an inactive version does not retire the rule: the candidates of every assessment
  stay the same, so an earlier active version of the same key goes on setting commissions.
\<close>

theorem rule_version_appended:
  assumes "com_store_ok s"
    and "create_rule_version_with_receipt env seen s tenant actor key inp = (s', res)" and "s' \<noteq> s"
  shows "com_store_ok s' \<and> (\<exists>r. rule_rows s' = rule_rows s @ [r] \<and> ru_rule_key r = ri_rule_key inp
      \<and> ru_tenant_id r = tenant \<and> ru_status r = rule_status_as_str (ri_status inp)
      \<and> (\<forall>q \<in> set (rule_rows s). ru_tenant_id q = tenant \<and> ru_rule_key q = ri_rule_key inp
           \<longrightarrow> ru_version q < ru_version r))
    \<and> (ri_status inp = Inactive \<longrightarrow>
         candidate_rules s' other at as = candidate_rules s other at as)"
proof -
  obtain inp' k h v where prep: "prepare_rule env tenant actor key inp = Inr (inp', k, h)"
    and c: "create_commits env s tenant actor k h inp' v s'"
    using create_outcome [OF assms(1,2)] assms(3) by blast
  let ?r = "rule_row_of env tenant (latest_version s tenant (ri_rule_key inp') + 1) inp'"
  have inp': "ri_status inp' = ri_status inp" "ri_rule_key inp' = ri_rule_key inp"
    using normalize_rule_input_Inr [of inp inp'] prep by (auto simp: prepare_rule_def)
  have rows: "rule_rows s' = rule_rows s @ [?r]" "com_store_ok s'" using c by (simp_all add: create_commits_def)
  moreover have "ru_version q < ru_version ?r"
    if "q \<in> set (rule_rows s)" "ru_tenant_id q = tenant" "ru_rule_key q = ri_rule_key inp'" for q
    using latest_version_max [OF that] by (simp add: rule_row_of_def)
  moreover have "candidate_rules s' other at as = candidate_rules s other at as" if "ri_status inp = Inactive"
    using that inp' by (simp add: candidate_rules_def rows(1) rule_row_of_def)
  ultimately show ?thesis
    using inp' by (intro conjI exI [of _ ?r]) (simp_all add: rule_row_of_def)
qed

subsection \<open>Replay\<close>

datatype com_command =
    CreateRule com_env uuid uuid string rule_input
  | AssessOrder com_env port_context uuid uuid string assess_input

fun run_com :: "com_store \<Rightarrow> com_command \<Rightarrow> com_store \<times> (com_error + com_response)" where
  "run_com s (CreateRule env tenant actor key inp) =
     create_rule_version_with_receipt env s s tenant actor key inp"
| "run_com s (AssessOrder env ctx tenant actor key inp) =
     assess_order_with_receipt env s s s ctx tenant actor key inp"

datatype bound_command = BoundRule uuid string string | BoundAssess uuid string string

fun prepare_com :: "com_command \<Rightarrow> com_error + bound_command" where
  "prepare_com (CreateRule env tenant actor key inp) =
     rbind (prepare_rule env tenant actor key inp) (\<lambda>(inp, k, h). Inr (BoundRule tenant k h))"
| "prepare_com (AssessOrder env ctx tenant actor key inp) =
     rbind (prepare_assess env tenant actor key inp) (\<lambda>(k, h). Inr (BoundAssess tenant k h))"

fun lookup_com :: "com_store \<Rightarrow> bound_command \<Rightarrow> com_receipt option" where
  "lookup_com s (BoundRule tenant k h) = com_find_receipt s tenant k"
| "lookup_com s (BoundAssess tenant k h) = com_find_receipt s tenant k"

fun replay_com :: "com_receipt \<Rightarrow> bound_command \<Rightarrow> com_error + com_response" where
  "replay_com r (BoundRule tenant k h) =
     rbind (com_replay_receipt as_rule_response r ''create_commission_rule_version'' h ''rule'')
       (\<lambda>v. Inr (RuleResponse v))"
| "replay_com r (BoundAssess tenant k h) =
     rbind (com_replay_receipt as_assess_response r ''assess_order_commissions'' h ''assessments'')
       (\<lambda>v. Inr (AssessResponse v))"

lemma lookup_com_receipted:
  assumes "com_receipted env s tenant actor key kind hash rkind resp s'"
  shows "lookup_com s q = Some x \<Longrightarrow> lookup_com s' q = Some x"
  using com_find_receipted(1) [OF assms] by (cases q) auto

interpretation commission_command: receipted_command run_com com_store_ok prepare_com lookup_com replay_com
proof
  fix c s e
  assume "prepare_com c = Inl e"
  then show "run_com s c = (s, Inl e)"
    by (cases c) (auto simp: create_rule_version_with_receipt_def assess_order_with_receipt_def rbind_eq_Inl
        split: prod.splits)
next
  fix c s p rc
  assume p: "prepare_com c = Inr p" "lookup_com s p = Some rc"
  show "run_com s c = (s, replay_com rc p)"
  proof (cases c)
    case (CreateRule env tenant actor key inp)
    moreover have "\<not> is_nil tenant \<and> \<not> is_nil actor" using p CreateRule by (auto simp: prepare_rule_def)
    ultimately show ?thesis
      using p by (auto simp: create_rule_version_with_receipt_def com_admit_receipt_def)
  next
    case (AssessOrder env ctx tenant actor key inp)
    with p show ?thesis by (auto simp: assess_order_with_receipt_def)
  qed
next
  fix s c p
  assume ok: "com_store_ok s" and p: "prepare_com c = Inr p" and none: "lookup_com s p = None"
  obtain s' res where run: "run_com s c = (s', res)" by (cases "run_com s c")
  show "(\<exists>e. run_com s c = (s, Inl e)) \<or> (\<exists>s' r rc. run_com s c = (s', Inr r) \<and> com_store_ok s'
      \<and> lookup_com s' p = Some rc \<and> replay_com rc p = Inr r
      \<and> (\<forall>q x. lookup_com s q = Some x \<longrightarrow> lookup_com s' q = Some x))"
  proof (cases "\<exists>e. res = Inl e \<and> s' = s")
    case True
    then show ?thesis using run by blast
  next
    case False
    show ?thesis
    proof (cases c)
      case (CreateRule env tenant actor key inp)
      with create_outcome [OF ok, of env s tenant actor key inp s' res] run p none False
      obtain inp' k h v where "prepare_rule env tenant actor key inp = Inr (inp', k, h)" "res = Inr (RuleResponse v)"
        and c: "create_commits env s tenant actor k h inp' v s'" by (cases res) auto
      moreover from c have "com_receipted env s tenant actor k ''create_commission_rule_version'' h ''rule''
          (RuleResponse v) s'" "com_store_ok s'" by (simp_all add: create_commits_def)
      ultimately show ?thesis
        using run p CreateRule com_find_receipted(2) lookup_com_receipted
        by (intro disjI2 exI [of _ s'] exI [of _ "RuleResponse v"]
            exI [of _ "com_completed_receipt env ''rule'' (RuleResponse v)
              (com_pending_receipt env tenant actor k ''create_commission_rule_version'' h)"])
          (auto simp: com_replay_completed as_rule_response_def)
    next
      case (AssessOrder env ctx tenant actor key inp)
      with assess_outcome [OF ok, of env s s ctx tenant actor key inp s' res] run p none False
      obtain k h as ms v where "prepare_assess env tenant actor key inp = Inr (k, h)" "res = Inr (AssessResponse v)"
        and c: "assess_commits env s tenant actor k h (ai_assessed_at inp) as ms v s'" by (cases res) auto
      moreover from c have "com_receipted env s tenant actor k ''assess_order_commissions'' h ''assessments''
          (AssessResponse v) s'" "com_store_ok s'" by (simp_all add: assess_commits_def)
      ultimately show ?thesis
        using run p AssessOrder com_find_receipted(2) lookup_com_receipted
        by (intro disjI2 exI [of _ s'] exI [of _ "AssessResponse v"]
            exI [of _ "com_completed_receipt env ''assessments'' (AssessResponse v)
              (com_pending_receipt env tenant actor k ''assess_order_commissions'' h)"])
          (auto simp: com_replay_completed as_assess_response_def)
    qed
  qed
qed

lemma commission_replay_after:
  assumes "com_store_ok s" and "run_com s c = (s', Inr r)" and "prepare_com c = prepare_com d"
  shows "run_com (foldl (\<lambda>s d. fst (run_com s d)) s' ds) d = (foldl (\<lambda>s d. fst (run_com s d)) s' ds, Inr r)"
  using assms by (rule commission_command.commands.replay_after)

subsection \<open>An example assessment\<close>

definition example_rule :: "uuid \<Rightarrow> int \<Rightarrow> int \<Rightarrow> rule_row" where
  "example_rule i version rate =
     \<lparr>ru_id = i, ru_tenant_id = 2, ru_rule_key = 60, ru_version = version, ru_seller_id = None,
      ru_listing_id = None, ru_rate_bps = rate, ru_fixed_amount = 0, ru_currency_code = None,
      ru_priority = 0, ru_effective_from = 0, ru_effective_until = None, ru_status = ''active'',
      ru_metadata = JObject [], ru_created_at = 0\<rparr>"

definition example_view :: alloc_view where
  "example_view =
     \<lparr>al_id = 100, al_tenant_id = 2, al_order_id = 9, al_order_line_item_id = 11, al_seller_id = 12,
      al_listing_id = 13, al_master_product_id = 14, al_master_variant_id = 15, al_quantity = 3,
      al_currency_code = ''EUR'', al_unit_amount = 50, al_subtotal_amount = 150,
      al_discount_amount = 20, al_tax_amount = 7, al_total_amount = 137,
      al_listing_terms_version = 1, al_pricing_reference = None, al_inventory_reference = None,
      al_fulfillment_profile_slug = None, al_status = Allocated, al_metadata = JObject [],
      al_created_at = 0, al_updated_at = 0\<rparr>"

definition example_com_env :: com_env where
  "example_com_env =
     \<lparr>rule_to_value = (\<lambda>_. Some JNull), assess_to_value = (\<lambda>_. Some JNull),
      com_digest_of = (\<lambda>_. Some ''h''), com_print_uuid = (\<lambda>_. ''id''), com_receipt_id = 1,
      com_rule_id = 70, com_assessment_id = (\<lambda>i. of_nat i + 200), com_receipt_now = 0,
      com_row_now = 0, com_completion_now = 1, allocation_reader = (\<lambda>_ _. Inr [example_view])\<rparr>"

definition example_com_store :: com_store where
  "example_com_store =
     \<lparr>rule_rows = [example_rule 50 1 1000, example_rule 51 2 1500], assessment_rows = [],
      com_receipt_rows = []\<rparr>"

definition example_assess :: assess_input where
  "example_assess = \<lparr>ai_order_id = 9, ai_assessed_at = 5\<rparr>"

definition example_rule_input :: rule_input where
  "example_rule_input =
     \<lparr>ri_rule_key = 60, ri_seller_id = None, ri_listing_id = None, ri_rate_bps = 0,
      ri_fixed_amount = 0, ri_currency_code = None, ri_priority = 0, ri_effective_from = 0,
      ri_effective_until = None, ri_status = Inactive, ri_metadata = JNull\<rparr>"

lemma example_com_store_ok: "com_store_ok example_com_store"
  by (simp add: com_store_ok_def example_com_store_def unique_rows_def rule_clash_def example_rule_def
      rule_in_range_def)

lemma example_key: "com_normalize_idempotency_key ''key'' = Inr ''key''"
  by (simp add: com_normalize_idempotency_key_def Let_def trim_letters ascii_defs)

lemma example_selected:
  "select_rule [example_rule 50 1 1000, example_rule 51 2 1500] example_view = Some (example_rule 51 2 1500)"
  by (simp add: select_rule_def compare_rules_def rule_applies_def rule_specificity_def cmp_def example_rule_def)

lemma example_split: "calculate_commission prn (example_rule 51 2 1500) example_view = Inr (20, 117)"
  by (simp add: calculate_commission_def checked_i128_def example_rule_def example_view_def
      sdiv_nonneg i64_arith)

lemma example_load: "load_allocations example_com_env ctx 2 9 = Inr [example_view]"
  by (simp add: load_allocations_def assessable_reader_def validate_allocation_batch_def
      example_com_env_def example_view_def)

definition example_admitted :: "string \<Rightarrow> new_com_receipt" where
  "example_admitted kind = \<lparr>com_transaction = example_com_store\<lparr>com_receipt_rows :=
      [com_pending_receipt example_com_env 2 3 ''key'' kind ''h'']\<rparr>, nc_receipt_id = 1, nc_tenant_id = 2\<rparr>"

lemma example_find: "com_find_receipt example_com_store 2 ''key'' = None"
  by (simp add: com_find_receipt_def example_com_store_def)

lemma example_admit:
  "com_admit_receipt example_com_env example_com_store example_com_store 2 3 ''key'' kind ''h''
     = Inr (ComNew (example_admitted kind))"
  by (simp add: com_admit_receipt_def example_find insert_unique_def example_admitted_def)
    (simp add: example_com_store_def example_com_env_def)

lemma example_assessed:
  "\<exists>s' resp. assess_order_with_receipt example_com_env example_com_store example_com_store example_com_store
      ctx 2 3 ''key'' example_assess = (s', Inr (AssessResponse resp)) \<and> s' \<noteq> example_com_store"
proof -
  let ?nr = "example_admitted ''assess_order_commissions''"
  have prep: "prepare_assess example_com_env 2 3 ''key'' example_assess = Inr (''key'', ''h'')"
    by (simp add: prepare_assess_def example_key com_request_hash_def example_com_env_def example_assess_def)
  note adm = example_admit [of "''assess_order_commissions''"]
  have at: "ai_order_id example_assess = 9" "ai_assessed_at example_assess = 5"
    by (simp_all add: example_assess_def)
  have "\<exists>t. assess_allocations example_com_env 2 5 [example_rule 50 1 1000, example_rule 51 2 1500] 0
      [example_view] ([], [], 0, 0) = Inr t"
    by (simp add: example_selected example_split i64_arith
        insert_unique_def map_assessment_def assessment_row_of_def assessment_status_parse_def Let_def)
  moreover have "candidate_rules (com_transaction ?nr) 2 5 [example_view]
      = [example_rule 50 1 1000, example_rule 51 2 1500]"
    "assessed_already (com_transaction ?nr) 2 [example_view] = []" "assessment_rows (com_transaction ?nr) = []"
    by (simp_all add: example_admitted_def assessed_already_def example_com_store_def
        candidate_rules_def example_rule_def)
  ultimately obtain tx resp where body: "assess_in_transaction example_com_env (com_transaction ?nr) 2 5 [example_view]
      = Inr (tx, resp)"
    by (auto simp: assess_in_transaction_def)
  obtain s' ms where c: "com_complete_receipt example_com_env example_com_store (?nr\<lparr>com_transaction := tx\<rparr>)
      ''assessments'' (AssessResponse resp) = (s', Inr (AssessResponse resp))"
    "assess_commits example_com_env example_com_store 2 3 ''key'' ''h'' 5 [example_view] ms resp s'"
    using assess_New_commits [OF example_com_store_ok adm body] by blast
  have "s' \<noteq> example_com_store"
    using c(2) by (auto simp: assess_commits_def com_receipted_def)
  moreover have "assess_order_with_receipt example_com_env example_com_store example_com_store example_com_store
      ctx 2 3 ''key'' example_assess = (s', Inr (AssessResponse resp))"
    unfolding assess_order_with_receipt_def prep at
    by (simp add: example_find example_load adm body c(1))
  ultimately show ?thesis by blast
qed

lemma select_rule_reference_witness:
  "select_rule [example_rule 51 2 1500, example_rule 50 1 1000] example_view = Some (example_rule 51 2 1500)"
  using select_rule_reference [of "[example_rule 50 1 1000, example_rule 51 2 1500]" example_view
      "example_rule 51 2 1500" "[example_rule 51 2 1500, example_rule 50 1 1000]"]
  by (simp add: example_selected add_mset_commute) (simp add: example_rule_def)

lemma order_assessed_exactly_witness:
  "\<exists>s' ms. fst (assess_order_with_receipt example_com_env example_com_store example_com_store example_com_store
      (port_context_new [] (actor_user []) [] []) 2 3 ''key'' example_assess) = s'
    \<and> com_store_ok s' \<and> assessment_rows s' = ms \<and> map as_allocation_id ms = [100]"
proof -
  let ?ctx = "port_context_new [] (actor_user []) [] []"
  obtain s' resp where run: "assess_order_with_receipt example_com_env example_com_store example_com_store
      example_com_store ?ctx 2 3 ''key'' example_assess = (s', Inr (AssessResponse resp))" "s' \<noteq> example_com_store"
    using example_assessed by blast
  have "allocation_reader example_com_env ?ctx (ai_order_id example_assess) = Inr [example_view]"
    "assessment_rows example_com_store = []" "al_id example_view = 100"
    by (simp_all add: example_com_env_def example_com_store_def example_view_def)
  with order_assessed_exactly [OF example_com_store_ok run(1)] run show ?thesis by auto
qed

lemma rule_version_appended_witness:
  "\<exists>s'. fst (create_rule_version_with_receipt example_com_env example_com_store example_com_store 2 3 ''key''
      example_rule_input) = s' \<and> s' \<noteq> example_com_store
    \<and> candidate_rules s' 2 5 [example_view] = candidate_rules example_com_store 2 5 [example_view]"
proof -
  let ?run = "create_rule_version_with_receipt example_com_env example_com_store example_com_store 2 3 ''key''
      example_rule_input"
  have prep: "prepare_rule example_com_env 2 3 ''key'' example_rule_input
      = Inr (example_rule_input\<lparr>ri_metadata := JObject []\<rparr>, ''key'', ''h'')"
    by (simp add: prepare_rule_def example_key com_request_hash_def example_com_env_def normalize_rule_input_def
        com_normalize_metadata_def example_rule_input_def)
  have latest: "latest_version (example_com_store\<lparr>com_receipt_rows := rs\<rparr>) 2 60 = 2" for rs
    by (simp add: latest_version_def example_com_store_def example_rule_def)
  let ?inp = "example_rule_input\<lparr>ri_metadata := JObject []\<rparr>"
  let ?nr = "example_admitted ''create_commission_rule_version''"
  obtain tx v where body: "create_rule_in_transaction example_com_env (com_transaction ?nr) 2 ?inp = Inr (tx, v)"
    by (simp add: create_rule_in_transaction_def latest example_admitted_def checked_i32_def example_rule_input_def
        insert_unique_def rule_row_of_def map_rule_def rule_status_parse_def rule_clash_def)
      (simp add: example_com_store_def example_rule_def example_com_env_def Let_def rule_clash_def)
  have "0 \<le> ri_rate_bps ?inp" "ri_rate_bps ?inp \<le> 10000" "0 \<le> ri_fixed_amount ?inp"
    by (simp_all add: example_rule_input_def)
  from create_New_commits [OF example_com_store_ok this example_admit body] obtain s' where
    c: "com_complete_receipt example_com_env example_com_store (?nr\<lparr>com_transaction := tx\<rparr>) ''rule'' (RuleResponse v)
      = (s', Inr (RuleResponse v))" "create_commits example_com_env example_com_store 2 3 ''key'' ''h'' ?inp v s'"
    by blast
  then have "s' \<noteq> example_com_store" by (auto simp: create_commits_def)
  moreover have "?run = (s', Inr (RuleResponse v))"
    unfolding create_rule_version_with_receipt_def prep sum.case prod.case
    by (simp add: example_admit body c(1))
  ultimately have new: "fst ?run \<noteq> example_com_store" by simp
  obtain s' res where run: "?run = (s', res)" by (cases ?run)
  have "s' \<noteq> example_com_store" "ri_status example_rule_input = Inactive"
    using new run by (simp_all add: example_rule_input_def)
  with rule_version_appended [OF example_com_store_ok run, of 2 5 "[example_view]"] run show ?thesis by auto
qed

end
