(* ===== verification/Marketplace_Ledger.thy ===== *)
theory Marketplace_Ledger
  imports Marketplace_Commission
begin

text \<open>
  The double-entry ledger of the marketplace
  (\<open>crates/modules/rustok-marketplace-balance/src\<close>: \<open>service.rs\<close>, \<open>receipts.rs\<close>, \<open>dto.rs\<close>,
  \<open>error.rs\<close>, the tables of \<open>entities\<close> and the unique indexes of \<open>migrations\<close>): the data of
  all ledger commands, their receipts, and the posting of the assessments of an order. Reversals,
  balance transfers and the balance projection are in the theories that follow. Tables are lists
  of rows and a transaction works on its own copy of the store; row locks only order concurrent
  transactions and have no counterpart. The read port of the commission service, serialisation,
  hash, clock, generated identifiers and the iteration order of a hash set are parameters in
  \<open>led_env\<close>. Instants are integers.
\<close>

subsection \<open>Data\<close>

datatype tx_status = TxPosted | TxReversed

primrec tx_status_as_str :: "tx_status \<Rightarrow> string" where
  "tx_status_as_str TxPosted = ''posted''"
| "tx_status_as_str TxReversed = ''reversed''"

definition tx_status_parse :: "string \<Rightarrow> tx_status option" where
  "tx_status_parse s =
     (if s = ''posted'' then Some TxPosted else if s = ''reversed'' then Some TxReversed else None)"

datatype direction = Debit | Credit

primrec direction_as_str :: "direction \<Rightarrow> string" where
  "direction_as_str Debit = ''debit''"
| "direction_as_str Credit = ''credit''"

definition direction_parse :: "string \<Rightarrow> direction option" where
  "direction_parse s =
     (if s = ''debit'' then Some Debit else if s = ''credit'' then Some Credit else None)"

datatype account_code = MarketplaceClearing | PlatformCommissionRevenue | SellerPayable

primrec account_code_as_str :: "account_code \<Rightarrow> string" where
  "account_code_as_str MarketplaceClearing = ''marketplace_clearing''"
| "account_code_as_str PlatformCommissionRevenue = ''platform_commission_revenue''"
| "account_code_as_str SellerPayable = ''seller_payable''"

definition account_code_parse :: "string \<Rightarrow> account_code option" where
  "account_code_parse s =
     (if s = ''marketplace_clearing'' then Some MarketplaceClearing
      else if s = ''platform_commission_revenue'' then Some PlatformCommissionRevenue
      else if s = ''seller_payable'' then Some SellerPayable
      else None)"

datatype reversal_kind = Refund | Chargeback

primrec reversal_kind_as_str :: "reversal_kind \<Rightarrow> string" where
  "reversal_kind_as_str Refund = ''refund''"
| "reversal_kind_as_str Chargeback = ''chargeback''"

primrec reversal_source_kind :: "reversal_kind \<Rightarrow> string" where
  "reversal_source_kind Refund = ''refund_reversal''"
| "reversal_source_kind Chargeback = ''chargeback_reversal''"

definition reversal_kind_parse :: "string \<Rightarrow> reversal_kind option" where
  "reversal_kind_parse s =
     (if s = ''refund'' then Some Refund else if s = ''chargeback'' then Some Chargeback else None)"

datatype bucket = PendingBucket | AvailableBucket | ReservedBucket | PaidBucket

primrec bucket_as_str :: "bucket \<Rightarrow> string" where
  "bucket_as_str PendingBucket = ''pending''"
| "bucket_as_str AvailableBucket = ''available''"
| "bucket_as_str ReservedBucket = ''reserved''"
| "bucket_as_str PaidBucket = ''paid''"

definition bucket_parse :: "string \<Rightarrow> bucket option" where
  "bucket_parse s =
     (if s = ''pending'' then Some PendingBucket else if s = ''available'' then Some AvailableBucket
      else if s = ''reserved'' then Some ReservedBucket else if s = ''paid'' then Some PaidBucket else None)"

datatype transfer_kind =
  PendingRelease | ReserveHold | ReserveRelease | PayoutSettlement | PayoutReversal

primrec transfer_kind_as_str :: "transfer_kind \<Rightarrow> string" where
  "transfer_kind_as_str PendingRelease = ''pending_release''"
| "transfer_kind_as_str ReserveHold = ''reserve_hold''"
| "transfer_kind_as_str ReserveRelease = ''reserve_release''"
| "transfer_kind_as_str PayoutSettlement = ''payout_settlement''"
| "transfer_kind_as_str PayoutReversal = ''payout_reversal''"

primrec transfer_source_kind :: "transfer_kind \<Rightarrow> string" where
  "transfer_source_kind PendingRelease = ''seller_balance_pending_release''"
| "transfer_source_kind ReserveHold = ''seller_balance_reserve_hold''"
| "transfer_source_kind ReserveRelease = ''seller_balance_reserve_release''"
| "transfer_source_kind PayoutSettlement = ''seller_balance_payout_settlement''"
| "transfer_source_kind PayoutReversal = ''seller_balance_payout_reversal''"

primrec transfer_buckets :: "transfer_kind \<Rightarrow> bucket \<times> bucket" where
  "transfer_buckets PendingRelease = (PendingBucket, AvailableBucket)"
| "transfer_buckets ReserveHold = (AvailableBucket, ReservedBucket)"
| "transfer_buckets ReserveRelease = (ReservedBucket, AvailableBucket)"
| "transfer_buckets PayoutSettlement = (ReservedBucket, PaidBucket)"
| "transfer_buckets PayoutReversal = (PaidBucket, AvailableBucket)"

definition transfer_kind_parse :: "string \<Rightarrow> transfer_kind option" where
  "transfer_kind_parse s =
     (if s = ''pending_release'' then Some PendingRelease
      else if s = ''reserve_hold'' then Some ReserveHold
      else if s = ''reserve_release'' then Some ReserveRelease
      else if s = ''payout_settlement'' then Some PayoutSettlement
      else if s = ''payout_reversal'' then Some PayoutReversal
      else None)"

interpretation tx_status_text: text_codec tx_status_as_str tx_status_parse
proof
  show "tx_status_parse (tx_status_as_str x) = Some x" for x
    by (cases x) (simp_all add: tx_status_parse_def)
qed

interpretation direction_text: text_codec direction_as_str direction_parse
proof
  show "direction_parse (direction_as_str x) = Some x" for x
    by (cases x) (simp_all add: direction_parse_def)
qed

interpretation account_code_text: text_codec account_code_as_str account_code_parse
proof
  show "account_code_parse (account_code_as_str x) = Some x" for x
    by (cases x) (simp_all add: account_code_parse_def)
qed

interpretation reversal_kind_text: text_codec reversal_kind_as_str reversal_kind_parse
proof
  show "reversal_kind_parse (reversal_kind_as_str x) = Some x" for x
    by (cases x) (simp_all add: reversal_kind_parse_def)
qed

interpretation bucket_text: text_codec bucket_as_str bucket_parse
proof
  show "bucket_parse (bucket_as_str x) = Some x" for x
    by (cases x) (simp_all add: bucket_parse_def)
qed

interpretation transfer_kind_text: text_codec transfer_kind_as_str transfer_kind_parse
proof
  show "transfer_kind_parse (transfer_kind_as_str x) = Some x" for x
    by (cases x) (simp_all add: transfer_kind_parse_def)
qed

text \<open>The kinds of the commission boundary are those of the port error, one to one.\<close>

datatype led_error =
    TransactionNotFound uuid
  | OrderAlreadyPosted uuid
  | AssessmentAlreadyPosted uuid
  | ReversalAlreadyPosted uuid
  | BalanceTransferAlreadyPosted uuid
  | SellerBalanceNotFound uuid string
  | LedIdempotencyConflict
  | LedReceiptCorrupt
  | LedValidation string
  | CommissionBoundary string string bool port_error_kind
  | LedDatabase string

record 'st ledger_tx =
  lt_id :: uuid
  lt_tenant_id :: uuid
  lt_source_kind :: string
  lt_source_id :: uuid
  lt_order_id :: uuid
  lt_currency_code :: string
  lt_debit_total_amount :: int
  lt_credit_total_amount :: int
  lt_status :: 'st
  lt_posted_at :: int
  lt_metadata :: json
  lt_created_at :: int

record ('acc, 'dir) ledger_entry =
  le_id :: uuid
  le_tenant_id :: uuid
  le_transaction_id :: uuid
  le_order_id :: uuid
  le_assessment_id :: uuid
  le_allocation_id :: uuid
  le_order_line_item_id :: uuid
  le_seller_id :: "uuid option"
  le_account_code :: 'acc
  le_direction :: 'dir
  le_currency_code :: string
  le_amount :: int
  le_metadata :: json
  le_created_at :: int

type_synonym tx_row = "string ledger_tx"
type_synonym entry_row = "(string, string) ledger_entry"
type_synonym entry_view = "(account_code, direction) ledger_entry"

record tx_view = "tx_status ledger_tx" +
  lt_entries :: "entry_view list"

record bucket_row =
  eb_id :: uuid
  eb_tenant_id :: uuid
  eb_entry_id :: uuid
  eb_seller_id :: uuid
  eb_balance_bucket :: string
  eb_source_kind :: string
  eb_source_id :: uuid
  eb_created_at :: int

record reversal_row =
  rv_id :: uuid
  rv_tenant_id :: uuid
  rv_transaction_id :: uuid
  rv_reversed_transaction_id :: uuid
  rv_reversal_kind :: string
  rv_source_id :: uuid
  rv_order_id :: uuid
  rv_currency_code :: string
  rv_total_amount :: int
  rv_reversed_at :: int
  rv_metadata :: json
  rv_created_at :: int

record reversal_line_row =
  rl_id :: uuid
  rl_tenant_id :: uuid
  rl_reversal_id :: uuid
  rl_entry_id :: uuid
  rl_reversed_entry_id :: uuid
  rl_seller_id :: "uuid option"
  rl_assessment_id :: uuid
  rl_allocation_id :: uuid
  rl_order_line_item_id :: uuid
  rl_account_code :: string
  rl_direction :: string
  rl_seller_balance_bucket :: "string option"
  rl_amount :: int
  rl_created_at :: int

record transfer_row =
  tr_id :: uuid
  tr_tenant_id :: uuid
  tr_transaction_id :: uuid
  tr_transfer_kind :: string
  tr_source_id :: uuid
  tr_seller_id :: uuid
  tr_currency_code :: string
  tr_from_bucket :: string
  tr_to_bucket :: string
  tr_total_amount :: int
  tr_transferred_at :: int
  tr_metadata :: json
  tr_created_at :: int

record transfer_line_row =
  tl_id :: uuid
  tl_tenant_id :: uuid
  tl_transfer_id :: uuid
  tl_reference_entry_id :: uuid
  tl_debit_entry_id :: uuid
  tl_credit_entry_id :: uuid
  tl_amount :: int
  tl_created_at :: int

record balance_row =
  sb_id :: uuid
  sb_tenant_id :: uuid
  sb_seller_id :: uuid
  sb_currency_code :: string
  sb_pending_amount :: int
  sb_available_amount :: int
  sb_reserved_amount :: int
  sb_paid_amount :: int
  sb_negative_amount :: int
  sb_source_entry_count :: int
  sb_last_entry_id :: "uuid option"
  sb_last_entry_created_at :: "int option"
  sb_rebuilt_at :: int
  sb_updated_at :: int

record post_input =
  po_order_id :: uuid
  po_posted_at :: int

record reversal_line_input =
  rli_assessment_id :: uuid
  rli_allocation_id :: uuid
  rli_order_line_item_id :: uuid
  rli_seller_id :: uuid
  rli_commission_amount :: int
  rli_seller_amount :: int
  rli_seller_balance_bucket :: bucket

record reversal_input =
  rvi_kind :: reversal_kind
  rvi_source_id :: uuid
  rvi_order_id :: uuid
  rvi_currency_code :: string
  rvi_reversed_at :: int
  rvi_lines :: "reversal_line_input list"
  rvi_metadata :: json

record reversal_entry_view =
  rve_entry :: entry_view
  rve_reversed_entry_id :: uuid
  rve_seller_balance_bucket :: "bucket option"

record reversal_view =
  rvv_id :: uuid
  rvv_tenant_id :: uuid
  rvv_transaction_id :: uuid
  rvv_kind :: reversal_kind
  rvv_source_id :: uuid
  rvv_order_id :: uuid
  rvv_currency_code :: string
  rvv_total_amount :: int
  rvv_reversed_transaction_id :: uuid
  rvv_reversed_at :: int
  rvv_metadata :: json
  rvv_created_at :: int
  rvv_transaction :: tx_view
  rvv_entries :: "reversal_entry_view list"

record transfer_line_input =
  tli_reference_entry_id :: uuid
  tli_amount :: int

record transfer_input =
  tri_kind :: transfer_kind
  tri_source_id :: uuid
  tri_seller_id :: uuid
  tri_currency_code :: string
  tri_transferred_at :: int
  tri_lines :: "transfer_line_input list"
  tri_metadata :: json

record transfer_line_view =
  tlv_reference_entry_id :: uuid
  tlv_amount :: int
  tlv_from_bucket :: bucket
  tlv_to_bucket :: bucket
  tlv_debit_entry :: entry_view
  tlv_credit_entry :: entry_view

record transfer_view =
  trv_id :: uuid
  trv_tenant_id :: uuid
  trv_transaction_id :: uuid
  trv_kind :: transfer_kind
  trv_source_id :: uuid
  trv_seller_id :: uuid
  trv_currency_code :: string
  trv_from_bucket :: bucket
  trv_to_bucket :: bucket
  trv_total_amount :: int
  trv_transferred_at :: int
  trv_metadata :: json
  trv_created_at :: int
  trv_transaction :: tx_view
  trv_lines :: "transfer_line_view list"

record balance_view =
  bv_id :: uuid
  bv_tenant_id :: uuid
  bv_seller_id :: uuid
  bv_currency_code :: string
  bv_pending_amount :: int
  bv_available_amount :: int
  bv_reserved_amount :: int
  bv_paid_amount :: int
  bv_negative_amount :: int
  bv_source_entry_count :: nat
  bv_last_entry_id :: "uuid option"
  bv_last_entry_created_at :: "int option"
  bv_rebuilt_at :: int
  bv_updated_at :: int

datatype led_response =
  PostResponse tx_view | ReversalResponse reversal_view | TransferResponse transfer_view

record led_receipt =
  lr_id :: uuid
  lr_tenant_id :: uuid
  lr_actor_id :: uuid
  lr_idempotency_key :: string
  lr_command_kind :: string
  lr_request_hash :: string
  lr_status :: string
  lr_response_json :: "led_response option"
  lr_created_at :: int
  lr_completed_at :: "int option"

record led_store =
  tx_rows :: "tx_row list"
  entry_rows :: "entry_row list"
  bucket_rows :: "bucket_row list"
  reversal_rows :: "reversal_row list"
  reversal_line_rows :: "reversal_line_row list"
  transfer_rows :: "transfer_row list"
  transfer_line_rows :: "transfer_line_row list"
  balance_rows :: "balance_row list"
  led_receipt_rows :: "led_receipt list"

record led_env =
  post_to_value :: "post_input \<Rightarrow> json option"
  reversal_to_value :: "reversal_input \<Rightarrow> json option"
  transfer_to_value :: "transfer_input \<Rightarrow> json option"
  led_digest_of :: "json \<Rightarrow> string option"
  led_print_uuid :: "uuid \<Rightarrow> string"
  led_receipt_id :: uuid
  led_tx_id :: uuid
  led_group_id :: uuid
  led_balance_id :: uuid
  led_entry_id :: "nat \<Rightarrow> uuid"
  led_link_id :: "nat \<Rightarrow> uuid"
  led_line_id :: "nat \<Rightarrow> uuid"
  led_receipt_now :: int
  led_row_now :: int
  led_completion_now :: int
  led_rebuild_now :: int
  led_scope_order :: "(uuid \<times> string) list \<Rightarrow> (uuid \<times> string) list"
  commission_reader :: "port_context \<Rightarrow> uuid \<Rightarrow> port_error + assessment_view list"

record new_led_receipt =
  led_transaction :: led_store
  nl_receipt_id :: uuid
  nl_tenant_id :: uuid

datatype led_admission = LedReplay led_receipt | LedNew new_led_receipt

subsection \<open>Tables\<close>

text \<open>When two rows violate a unique index or share the primary key.\<close>

definition led_receipt_clash :: "led_receipt \<Rightarrow> led_receipt \<Rightarrow> bool" where
  "led_receipt_clash a b \<longleftrightarrow> lr_id a = lr_id b
     \<or> lr_tenant_id a = lr_tenant_id b \<and> lr_idempotency_key a = lr_idempotency_key b"

definition tx_clash :: "tx_row \<Rightarrow> tx_row \<Rightarrow> bool" where
  "tx_clash a b \<longleftrightarrow> lt_id a = lt_id b
     \<or> lt_tenant_id a = lt_tenant_id b \<and> lt_source_kind a = lt_source_kind b \<and> lt_source_id a = lt_source_id b"

definition entry_clash :: "entry_row \<Rightarrow> entry_row \<Rightarrow> bool" where
  "entry_clash a b \<longleftrightarrow> le_id a = le_id b
     \<or> le_tenant_id a = le_tenant_id b \<and> le_transaction_id a = le_transaction_id b
       \<and> le_assessment_id a = le_assessment_id b \<and> le_account_code a = le_account_code b
       \<and> le_direction a = le_direction b"

definition bucket_clash :: "bucket_row \<Rightarrow> bucket_row \<Rightarrow> bool" where
  "bucket_clash a b \<longleftrightarrow> eb_id a = eb_id b
     \<or> eb_tenant_id a = eb_tenant_id b \<and> eb_entry_id a = eb_entry_id b"

definition reversal_clash :: "reversal_row \<Rightarrow> reversal_row \<Rightarrow> bool" where
  "reversal_clash a b \<longleftrightarrow> rv_id a = rv_id b
     \<or> rv_tenant_id a = rv_tenant_id b \<and> rv_transaction_id a = rv_transaction_id b
     \<or> rv_tenant_id a = rv_tenant_id b \<and> rv_reversal_kind a = rv_reversal_kind b \<and> rv_source_id a = rv_source_id b"

definition reversal_line_clash :: "reversal_line_row \<Rightarrow> reversal_line_row \<Rightarrow> bool" where
  "reversal_line_clash a b \<longleftrightarrow> rl_id a = rl_id b
     \<or> rl_tenant_id a = rl_tenant_id b \<and> rl_entry_id a = rl_entry_id b"

definition transfer_clash :: "transfer_row \<Rightarrow> transfer_row \<Rightarrow> bool" where
  "transfer_clash a b \<longleftrightarrow> tr_id a = tr_id b
     \<or> tr_tenant_id a = tr_tenant_id b \<and> tr_transaction_id a = tr_transaction_id b
     \<or> tr_tenant_id a = tr_tenant_id b \<and> tr_transfer_kind a = tr_transfer_kind b \<and> tr_source_id a = tr_source_id b"

definition transfer_line_clash :: "transfer_line_row \<Rightarrow> transfer_line_row \<Rightarrow> bool" where
  "transfer_line_clash a b \<longleftrightarrow> tl_id a = tl_id b
     \<or> tl_tenant_id a = tl_tenant_id b
       \<and> (tl_transfer_id a = tl_transfer_id b \<and> tl_reference_entry_id a = tl_reference_entry_id b
          \<or> tl_debit_entry_id a = tl_debit_entry_id b \<or> tl_credit_entry_id a = tl_credit_entry_id b)"

definition balance_clash :: "balance_row \<Rightarrow> balance_row \<Rightarrow> bool" where
  "balance_clash a b \<longleftrightarrow> sb_id a = sb_id b
     \<or> sb_tenant_id a = sb_tenant_id b \<and> sb_seller_id a = sb_seller_id b
       \<and> sb_currency_code a = sb_currency_code b"

interpretation led_receipt_table: unique_table led_receipt_clash
  by unfold_locales (auto simp: led_receipt_clash_def)

interpretation tx_table: unique_table tx_clash
  by unfold_locales (auto simp: tx_clash_def)

interpretation entry_table: unique_table entry_clash
  by unfold_locales (auto simp: entry_clash_def)

interpretation bucket_table: unique_table bucket_clash
  by unfold_locales (auto simp: bucket_clash_def)

interpretation reversal_table: unique_table reversal_clash
  by unfold_locales (auto simp: reversal_clash_def)

interpretation reversal_line_table: unique_table reversal_line_clash
  by unfold_locales (auto simp: reversal_line_clash_def)

interpretation transfer_table: unique_table transfer_clash
  by unfold_locales (auto simp: transfer_clash_def)

interpretation transfer_line_table: unique_table transfer_line_clash
  by unfold_locales (auto simp: transfer_line_clash_def)

interpretation balance_table: unique_table balance_clash
  by unfold_locales (auto simp: balance_clash_def)

subsection \<open>Receipts\<close>

definition led_normalize_idempotency_key :: "string \<Rightarrow> led_error + string" where
  "led_normalize_idempotency_key v =
     (let v = trim v in
      if v = [] \<or> 191 < length v
      then Inl (LedValidation ''idempotency key must contain 1 to 191 bytes'')
      else Inr v)"

definition led_normalize_command_kind :: "string \<Rightarrow> led_error + string" where
  "led_normalize_command_kind v =
     (let v = trim v in
      if v = [] \<or> 80 < length v
      then Inl (LedValidation ''ledger command kind must contain 1 to 80 bytes'')
      else Inr v)"

definition led_command_request_hash :: "led_env \<Rightarrow> string \<Rightarrow> uuid \<Rightarrow> json option \<Rightarrow> led_error + string" where
  "led_command_request_hash env kind actor request =
     rbind (ensure (\<not> is_nil actor) (LedValidation ''actor_id must not be nil'')) (\<lambda>_.
     rbind (led_normalize_command_kind kind) (\<lambda>kind.
     rbind (ok_or request (LedValidation ''ledger command request could not be normalized'')) (\<lambda>request.
     ok_or (led_digest_of env (JObject
        [(''version'', JNumber ''1''), (''command_kind'', JString kind),
         (''actor_id'', JString (led_print_uuid env actor)), (''request'', canonical_json request)]))
       (LedValidation ''ledger command request could not be hashed''))))"

definition led_find_receipt :: "led_store \<Rightarrow> uuid \<Rightarrow> string \<Rightarrow> led_receipt option" where
  "led_find_receipt s tenant key =
     List.find (\<lambda>r. lr_tenant_id r = tenant \<and> lr_idempotency_key r = key) (led_receipt_rows s)"

text \<open>
  \<open>reads\<close> tells whether the JSON of a response deserialises as the type the caller expects.
\<close>

definition led_replay_command_receipt ::
    "(led_response \<Rightarrow> bool) \<Rightarrow> led_receipt \<Rightarrow> string \<Rightarrow> string \<Rightarrow> led_error + led_response" where
  "led_replay_command_receipt reads r kind hash =
     (if lr_command_kind r \<noteq> kind \<or> lr_request_hash r \<noteq> hash then Inl LedIdempotencyConflict
      else if lr_status r \<noteq> ''completed'' \<or> lr_completed_at r = None then Inl LedReceiptCorrupt
      else rbind (ok_or (lr_response_json r) LedReceiptCorrupt) (\<lambda>v.
           rbind (ensure (reads v) LedReceiptCorrupt) (\<lambda>_. Inr v)))"

definition led_replay_existing_command ::
    "(led_response \<Rightarrow> bool) \<Rightarrow> led_store \<Rightarrow> uuid \<Rightarrow> string \<Rightarrow> string \<Rightarrow> string \<Rightarrow> led_error + led_response option" where
  "led_replay_existing_command reads s tenant key kind hash =
     rbind (ensure (\<not> is_nil tenant) (LedValidation ''tenant_id must not be nil'')) (\<lambda>_.
     case led_find_receipt s tenant key of
       Some r \<Rightarrow> rbind (led_replay_command_receipt reads r kind hash) (\<lambda>v. Inr (Some v))
     | None \<Rightarrow> Inr None)"

definition led_pending_receipt :: "led_env \<Rightarrow> uuid \<Rightarrow> uuid \<Rightarrow> string \<Rightarrow> string \<Rightarrow> string \<Rightarrow> led_receipt" where
  "led_pending_receipt env tenant actor key kind hash =
     \<lparr>lr_id = led_receipt_id env, lr_tenant_id = tenant, lr_actor_id = actor,
      lr_idempotency_key = key, lr_command_kind = kind, lr_request_hash = hash,
      lr_status = ''pending'', lr_response_json = None,
      lr_created_at = led_receipt_now env, lr_completed_at = None\<rparr>"

definition led_admit_command_receipt ::
    "led_env \<Rightarrow> led_store \<Rightarrow> led_store \<Rightarrow> uuid \<Rightarrow> uuid \<Rightarrow> string \<Rightarrow> string \<Rightarrow> string \<Rightarrow> led_error + led_admission" where
  "led_admit_command_receipt env seen s tenant actor key kind hash =
     rbind (ensure (\<not> (is_nil tenant \<or> is_nil actor))
       (LedValidation ''tenant_id and actor_id must not be nil'')) (\<lambda>_.
     rbind (led_normalize_command_kind kind) (\<lambda>kind.
     case led_find_receipt seen tenant key of
       Some existing \<Rightarrow> Inr (LedReplay existing)
     | None \<Rightarrow>
         (case insert_unique led_receipt_clash (led_pending_receipt env tenant actor key kind hash)
                 (led_receipt_rows s) of
            Some rs \<Rightarrow> Inr (LedNew \<lparr>led_transaction = s\<lparr>led_receipt_rows := rs\<rparr>,
                              nl_receipt_id = led_receipt_id env, nl_tenant_id = tenant\<rparr>)
          | None \<Rightarrow>
              (case led_find_receipt s tenant key of
                 Some existing \<Rightarrow> Inr (LedReplay existing)
               | None \<Rightarrow> Inl (LedDatabase ''unique constraint'')))))"

definition led_completes :: "new_led_receipt \<Rightarrow> led_receipt \<Rightarrow> bool" where
  "led_completes nr r \<longleftrightarrow>
     lr_id r = nl_receipt_id nr \<and> lr_tenant_id r = nl_tenant_id nr \<and> lr_status r = ''pending''"

definition led_completed_receipt :: "led_env \<Rightarrow> led_response \<Rightarrow> led_receipt \<Rightarrow> led_receipt" where
  "led_completed_receipt env resp r =
     r\<lparr>lr_status := ''completed'', lr_response_json := Some resp,
       lr_completed_at := Some (led_completion_now env)\<rparr>"

definition led_complete_receipt ::
    "led_env \<Rightarrow> led_store \<Rightarrow> new_led_receipt \<Rightarrow> led_response \<Rightarrow> led_store \<times> (led_error + led_response)" where
  "led_complete_receipt env s nr resp =
     (let tx = led_transaction nr;
          rs = map (\<lambda>r. if led_completes nr r then led_completed_receipt env resp r else r) (led_receipt_rows tx);
          rows_affected = length (filter (led_completes nr) (led_receipt_rows tx)) in
      if rows_affected \<noteq> 1 then (s, Inl LedReceiptCorrupt)
      else (tx\<lparr>led_receipt_rows := rs\<rparr>, Inr resp))"

text \<open>
  The protocol that the three commands of the ledger follow: look the receipt up (in the store
  \<open>before\<close>), load what the command needs from other services, admit a new receipt (looking again,
  in the store \<open>seen\<close>), run the body in the transaction of the receipt, and commit with the
  completed receipt or roll back.
\<close>

definition led_with_receipt ::
    "led_env \<Rightarrow> led_store \<Rightarrow> led_store \<Rightarrow> led_store \<Rightarrow> uuid \<Rightarrow> uuid \<Rightarrow> string \<Rightarrow> string \<Rightarrow> string
     \<Rightarrow> (led_response \<Rightarrow> bool) \<Rightarrow> led_error + 'b \<Rightarrow> ('b \<Rightarrow> led_store \<Rightarrow> led_error + led_store \<times> led_response)
     \<Rightarrow> led_store \<times> (led_error + led_response)" where
  "led_with_receipt env before seen s tenant actor key kind hash reads load body =
     (case led_replay_existing_command reads before tenant key kind hash of
        Inl e \<Rightarrow> (s, Inl e)
      | Inr (Some v) \<Rightarrow> (s, Inr v)
      | Inr None \<Rightarrow>
          (case load of
             Inl e \<Rightarrow> (s, Inl e)
           | Inr b \<Rightarrow>
               (case led_admit_command_receipt env seen s tenant actor key kind hash of
                  Inl e \<Rightarrow> (s, Inl e)
                | Inr (LedReplay r) \<Rightarrow> (s, led_replay_command_receipt reads r kind hash)
                | Inr (LedNew nr) \<Rightarrow>
                    (case body b (led_transaction nr) of
                       Inr (tx, v) \<Rightarrow> led_complete_receipt env s (nr\<lparr>led_transaction := tx\<rparr>) v
                     | Inl e \<Rightarrow> (s, Inl e)))))"

subsection \<open>Reading rows\<close>

definition led_normalize_currency :: "string \<Rightarrow> led_error + string" where
  "led_normalize_currency v =
     (let v = to_ascii_uppercase (trim v) in
      if length v \<noteq> 3 \<or> \<not> list_all is_ascii_uppercase v
      then Inl (LedValidation ''currency_code must contain exactly three ASCII letters'')
      else Inr v)"

definition map_transaction :: "(uuid \<Rightarrow> string) \<Rightarrow> tx_row \<Rightarrow> entry_view list \<Rightarrow> led_error + tx_view" where
  "map_transaction prn m es =
     rbind (ok_or (tx_status_parse (lt_status m))
       (LedValidation (''unknown ledger transaction status `'' @ lt_status m @ ''`''))) (\<lambda>st.
     rbind (ensure (lt_debit_total_amount m = lt_credit_total_amount m)
       (LedValidation (''ledger transaction '' @ prn (lt_id m) @ '' is not balanced''))) (\<lambda>_.
     Inr \<lparr>lt_id = lt_id m, lt_tenant_id = lt_tenant_id m, lt_source_kind = lt_source_kind m,
          lt_source_id = lt_source_id m, lt_order_id = lt_order_id m,
          lt_currency_code = lt_currency_code m, lt_debit_total_amount = lt_debit_total_amount m,
          lt_credit_total_amount = lt_credit_total_amount m, lt_status = st,
          lt_posted_at = lt_posted_at m, lt_metadata = lt_metadata m,
          lt_created_at = lt_created_at m, lt_entries = es\<rparr>))"

text \<open>The mapping of an entry, without and with the check of the amount.\<close>

definition read_entry :: "entry_row \<Rightarrow> led_error + entry_view" where
  "read_entry m =
     rbind (ok_or (account_code_parse (le_account_code m))
       (LedValidation (''unknown ledger account code `'' @ le_account_code m @ ''`''))) (\<lambda>acc.
     rbind (ok_or (direction_parse (le_direction m))
       (LedValidation (''unknown ledger entry direction `'' @ le_direction m @ ''`''))) (\<lambda>dir.
     Inr \<lparr>le_id = le_id m, le_tenant_id = le_tenant_id m, le_transaction_id = le_transaction_id m,
          le_order_id = le_order_id m, le_assessment_id = le_assessment_id m,
          le_allocation_id = le_allocation_id m, le_order_line_item_id = le_order_line_item_id m,
          le_seller_id = le_seller_id m, le_account_code = acc, le_direction = dir,
          le_currency_code = le_currency_code m, le_amount = le_amount m,
          le_metadata = le_metadata m, le_created_at = le_created_at m\<rparr>))"

definition map_entry :: "(uuid \<Rightarrow> string) \<Rightarrow> entry_row \<Rightarrow> led_error + entry_view" where
  "map_entry prn m =
     rbind (read_entry m) (\<lambda>v.
     rbind (ensure (\<not> le_amount m < 0)
       (LedValidation (''ledger entry '' @ prn (le_id m) @ '' has a negative amount''))) (\<lambda>_.
     Inr v))"

subsection \<open>Posting of an order\<close>

record assessment_batch =
  ba_currency_code :: string
  ba_debit_total_amount :: int
  ba_credit_total_amount :: int
  ba_assessments :: "assessment_view list"

definition check_assessment ::
    "(uuid \<Rightarrow> string) \<Rightarrow> uuid \<Rightarrow> uuid \<Rightarrow> string \<Rightarrow> uuid set \<Rightarrow> uuid set \<Rightarrow> assessment_view \<Rightarrow> led_error + int" where
  "check_assessment prn tenant order cur ids allocs a =
     rbind (ensure (\<not> (as_tenant_id a \<noteq> tenant \<or> as_order_id a \<noteq> order))
       (LedValidation ''commission assessment batch does not match tenant or order scope'')) (\<lambda>_.
     rbind (ensure (as_status a = Assessed) (LedValidation (''commission assessment '' @ prn (as_id a)
       @ '' is `'' @ assessment_status_as_str (as_status a) @ ''` and cannot be posted''))) (\<lambda>_.
     rbind (led_normalize_currency (as_currency_code a)) (\<lambda>c.
     rbind (ensure (c = cur) (LedValidation (''order '' @ prn order
       @ '' commission assessments contain multiple currencies''))) (\<lambda>_.
     rbind (ensure (as_id a \<notin> ids) (LedValidation (''commission assessment '' @ prn (as_id a)
       @ '' appears more than once''))) (\<lambda>_.
     rbind (ensure (as_allocation_id a \<notin> allocs) (LedValidation (''allocation '' @ prn (as_allocation_id a)
       @ '' appears in multiple commission assessments''))) (\<lambda>_.
     rbind (for_each (\<lambda>(amount, field). ensure (\<not> amount < 0)
         (LedValidation (''assessment '' @ prn (as_id a) @ '' has negative '' @ field)))
       [(as_allocation_total_amount a, ''allocation_total_amount''),
        (as_commission_amount a, ''commission_amount''),
        (as_seller_proceeds_amount a, ''seller_proceeds_amount'')]) (\<lambda>_.
     rbind (ok_or (checked_i64 (as_commission_amount a + as_seller_proceeds_amount a))
       (LedValidation ''commission assessment credit total overflow'')) (\<lambda>expected.
     rbind (ensure (expected = as_allocation_total_amount a) (LedValidation (''assessment ''
       @ prn (as_id a) @ '' is not balanced against its allocation total''))) (\<lambda>_.
     Inr expected)))))))))"

fun check_assessments ::
    "(uuid \<Rightarrow> string) \<Rightarrow> uuid \<Rightarrow> uuid \<Rightarrow> string \<Rightarrow> assessment_view list \<Rightarrow> uuid set \<Rightarrow> uuid set \<Rightarrow> int \<Rightarrow> int
     \<Rightarrow> led_error + int \<times> int" where
  "check_assessments prn tenant order cur [] ids allocs dt ct = Inr (dt, ct)"
| "check_assessments prn tenant order cur (a # as) ids allocs dt ct =
     rbind (check_assessment prn tenant order cur ids allocs a) (\<lambda>expected.
     rbind (ok_or (checked_i64 (dt + as_allocation_total_amount a))
       (LedValidation ''ledger debit total overflow'')) (\<lambda>dt.
     rbind (ok_or (checked_i64 (ct + expected)) (LedValidation ''ledger credit total overflow'')) (\<lambda>ct.
     check_assessments prn tenant order cur as (insert (as_id a) ids) (insert (as_allocation_id a) allocs) dt ct)))"

definition validate_assessment_batch ::
    "(uuid \<Rightarrow> string) \<Rightarrow> uuid \<Rightarrow> uuid \<Rightarrow> assessment_view list \<Rightarrow> led_error + assessment_batch" where
  "validate_assessment_batch prn tenant order as =
     rbind (ensure (as \<noteq> [])
       (LedValidation (''order '' @ prn order @ '' has no commission assessments''))) (\<lambda>_.
     rbind (led_normalize_currency (as_currency_code (hd as))) (\<lambda>cur.
     rbind (check_assessments prn tenant order cur as {} {} 0 0) (\<lambda>(dt, ct).
     rbind (ensure (dt = ct) (LedValidation ''commission assessment batch is not balanced'')) (\<lambda>_.
     Inr \<lparr>ba_currency_code = cur, ba_debit_total_amount = dt, ba_credit_total_amount = ct,
          ba_assessments = as\<rparr>))))"

definition posting_source_kind :: string where
  "posting_source_kind = ''commission_assessment_batch''"

definition posting_tx_row :: "led_env \<Rightarrow> uuid \<Rightarrow> uuid \<Rightarrow> int \<Rightarrow> assessment_batch \<Rightarrow> tx_row" where
  "posting_tx_row env tenant order posted_at b =
     \<lparr>lt_id = led_tx_id env, lt_tenant_id = tenant, lt_source_kind = posting_source_kind,
      lt_source_id = order, lt_order_id = order, lt_currency_code = ba_currency_code b,
      lt_debit_total_amount = ba_debit_total_amount b, lt_credit_total_amount = ba_credit_total_amount b,
      lt_status = tx_status_as_str TxPosted, lt_posted_at = posted_at,
      lt_metadata = JObject [(''assessment_count'', JNumber (show_nat (length (ba_assessments b)))),
                             (''source'', JString posting_source_kind)],
      lt_created_at = led_row_now env\<rparr>"

definition posting_entry ::
    "led_env \<Rightarrow> uuid \<Rightarrow> nat \<Rightarrow> assessment_view \<Rightarrow> uuid option \<Rightarrow> account_code \<Rightarrow> direction \<Rightarrow> int \<Rightarrow> entry_row" where
  "posting_entry env tenant n a seller acc dir amount =
     \<lparr>le_id = led_entry_id env n, le_tenant_id = tenant, le_transaction_id = led_tx_id env,
      le_order_id = as_order_id a, le_assessment_id = as_id a, le_allocation_id = as_allocation_id a,
      le_order_line_item_id = as_order_line_item_id a, le_seller_id = seller,
      le_account_code = account_code_as_str acc, le_direction = direction_as_str dir,
      le_currency_code = as_currency_code a, le_amount = amount,
      le_metadata = JObject [(''rule_id'', JString (led_print_uuid env (as_rule_id a))),
                             (''rule_key'', JString (led_print_uuid env (as_rule_key a))),
                             (''rule_version'', JNumber (show_int (as_rule_version a)))],
      le_created_at = led_row_now env\<rparr>"

definition insert_entry ::
    "led_env \<Rightarrow> uuid \<Rightarrow> entry_row \<Rightarrow> entry_row list \<Rightarrow> led_error + entry_row list \<times> entry_view" where
  "insert_entry env assessment m rows =
     rbind (ok_or (insert_unique entry_clash m rows) (AssessmentAlreadyPosted assessment)) (\<lambda>rows.
     rbind (map_entry (led_print_uuid env) m) (\<lambda>v.
     Inr (rows, v)))"

text \<open>The three entries of an assessment, in the order they are inserted.\<close>

fun post_assessments ::
    "led_env \<Rightarrow> uuid \<Rightarrow> nat \<Rightarrow> assessment_view list \<Rightarrow> entry_row list \<times> entry_view list
     \<Rightarrow> led_error + entry_row list \<times> entry_view list" where
  "post_assessments env tenant n [] acc = Inr acc"
| "post_assessments env tenant n (a # as) (rows, vs) =
     rbind (insert_entry env (as_id a)
       (posting_entry env tenant n a None MarketplaceClearing Debit (as_allocation_total_amount a)) rows) (\<lambda>(rows, v1).
     rbind (insert_entry env (as_id a)
       (posting_entry env tenant (n + 1) a None PlatformCommissionRevenue Credit (as_commission_amount a)) rows) (\<lambda>(rows, v2).
     rbind (insert_entry env (as_id a)
       (posting_entry env tenant (n + 2) a (Some (as_seller_id a)) SellerPayable Credit (as_seller_proceeds_amount a)) rows) (\<lambda>(rows, v3).
     post_assessments env tenant (n + 3) as (rows, vs @ [v1, v2, v3]))))"

definition find_order_tx :: "led_store \<Rightarrow> uuid \<Rightarrow> uuid \<Rightarrow> tx_row option" where
  "find_order_tx s tenant order =
     List.find (\<lambda>t. lt_tenant_id t = tenant \<and> lt_source_kind t = posting_source_kind \<and> lt_source_id t = order)
       (tx_rows s)"

definition sort_posted_entries :: "entry_view list \<Rightarrow> entry_view list" where
  "sort_posted_entries vs =
     sort_key le_order_line_item_id (sort_key le_assessment_id
       (sort_key (\<lambda>e. account_code_as_str (le_account_code e)) vs))"

definition post_order_in_transaction ::
    "led_env \<Rightarrow> uuid \<Rightarrow> uuid \<Rightarrow> int \<Rightarrow> assessment_batch \<Rightarrow> led_store \<Rightarrow> led_error + led_store \<times> led_response" where
  "post_order_in_transaction env tenant order posted_at b tx =
     rbind (ensure (find_order_tx tx tenant order = None) (OrderAlreadyPosted order)) (\<lambda>_.
     case List.find (\<lambda>e. le_tenant_id e = tenant \<and> le_assessment_id e \<in> set (map as_id (ba_assessments b)))
            (entry_rows tx) of
       Some existing \<Rightarrow> Inl (AssessmentAlreadyPosted (le_assessment_id existing))
     | None \<Rightarrow>
         (let model = posting_tx_row env tenant order posted_at b in
          rbind (ok_or (insert_unique tx_clash model (tx_rows tx)) (OrderAlreadyPosted order)) (\<lambda>txs.
          rbind (post_assessments env tenant 0 (ba_assessments b) (entry_rows tx, [])) (\<lambda>(rows, vs).
          rbind (map_transaction (led_print_uuid env) model (sort_posted_entries vs)) (\<lambda>v.
          Inr (tx\<lparr>tx_rows := txs, entry_rows := rows\<rparr>, PostResponse v))))))"

definition map_commission_port_error :: "port_error \<Rightarrow> led_error" where
  "map_commission_port_error e =
     CommissionBoundary (err_code e)
       (case err_kind e of
          Validation \<Rightarrow> ''marketplace commission request is invalid''
        | NotFound \<Rightarrow> ''marketplace commission resource was not found''
        | Conflict \<Rightarrow> ''marketplace commission operation conflicts with the current state''
        | Forbidden \<Rightarrow> ''marketplace commission permission was denied''
        | Unavailable \<Rightarrow> ''marketplace commission service is temporarily unavailable''
        | Timeout \<Rightarrow> ''marketplace commission request timed out''
        | InvariantViolation \<Rightarrow> ''marketplace commission requires operator review'')
       (retryable e) (err_kind e)"

definition reads_post :: "led_response \<Rightarrow> bool" where
  "reads_post v = (case v of PostResponse _ \<Rightarrow> True | _ \<Rightarrow> False)"

definition prepare_post :: "led_env \<Rightarrow> uuid \<Rightarrow> uuid \<Rightarrow> string \<Rightarrow> post_input \<Rightarrow> led_error + string \<times> string" where
  "prepare_post env tenant actor key inp =
     rbind (ensure (\<not> (is_nil tenant \<or> is_nil actor \<or> is_nil (po_order_id inp)))
       (LedValidation ''tenant_id, actor_id, and order_id must not be nil'')) (\<lambda>_.
     rbind (led_normalize_idempotency_key key) (\<lambda>key.
     rbind (led_command_request_hash env ''post_order_commissions'' actor (post_to_value env inp)) (\<lambda>hash.
     Inr (key, hash))))"

definition load_batch :: "led_env \<Rightarrow> port_context \<Rightarrow> uuid \<Rightarrow> uuid \<Rightarrow> led_error + assessment_batch" where
  "load_batch env ctx tenant order =
     rbind (map_err map_commission_port_error (commission_reader env ctx order)) (\<lambda>as.
     validate_assessment_batch (led_print_uuid env) tenant order as)"

definition post_order_with_receipt ::
    "led_env \<Rightarrow> led_store \<Rightarrow> led_store \<Rightarrow> led_store \<Rightarrow> port_context \<Rightarrow> uuid \<Rightarrow> uuid \<Rightarrow> string \<Rightarrow> post_input
     \<Rightarrow> led_store \<times> (led_error + led_response)" where
  "post_order_with_receipt env before seen s ctx tenant actor key inp =
     (case prepare_post env tenant actor key inp of
        Inl e \<Rightarrow> (s, Inl e)
      | Inr (key, hash) \<Rightarrow>
          led_with_receipt env before seen s tenant actor key ''post_order_commissions'' hash reads_post
            (load_batch env ctx tenant (po_order_id inp))
            (post_order_in_transaction env tenant (po_order_id inp) (po_posted_at inp)))"

subsection \<open>Queries\<close>

definition MAX_LEDGER_ENTRIES_PER_PAGE :: nat where "MAX_LEDGER_ENTRIES_PER_PAGE = 200"
definition MAX_LEDGER_REVERSAL_LINES :: nat where "MAX_LEDGER_REVERSAL_LINES = 500"
definition MAX_LEDGER_BALANCE_TRANSFER_LINES :: nat where "MAX_LEDGER_BALANCE_TRANSFER_LINES = 500"

definition read_order_ledger :: "(uuid \<Rightarrow> string) \<Rightarrow> led_store \<Rightarrow> uuid \<Rightarrow> uuid \<Rightarrow> led_error + tx_view" where
  "read_order_ledger prn s tenant order =
     rbind (ensure (\<not> (is_nil tenant \<or> is_nil order))
       (LedValidation ''tenant_id and order_id must not be nil'')) (\<lambda>_.
     rbind (ok_or (find_order_tx s tenant order) (TransactionNotFound order)) (\<lambda>t.
     rbind (try_map (map_entry prn) (sort_key le_order_line_item_id (sort_key le_assessment_id
         (sort_key le_account_code (filter (\<lambda>e. le_tenant_id e = tenant \<and> le_transaction_id e = lt_id t)
            (entry_rows s)))))) (\<lambda>es.
     map_transaction prn t es)))"

definition payable_entries :: "led_store \<Rightarrow> uuid \<Rightarrow> uuid \<Rightarrow> string \<Rightarrow> entry_row list" where
  "payable_entries s tenant seller cur =
     filter (\<lambda>e. le_tenant_id e = tenant \<and> le_seller_id e = Some seller
        \<and> le_account_code e = account_code_as_str SellerPayable \<and> le_currency_code e = cur) (entry_rows s)"

definition list_seller_entries ::
    "(uuid \<Rightarrow> string) \<Rightarrow> led_store \<Rightarrow> uuid \<Rightarrow> uuid \<Rightarrow> string option \<Rightarrow> nat \<Rightarrow> nat
     \<Rightarrow> led_error + entry_view list \<times> nat \<times> nat \<times> nat" where
  "list_seller_entries prn s tenant seller currency page per_page =
     rbind (ensure (\<not> (is_nil tenant \<or> is_nil seller))
       (LedValidation ''tenant_id and seller_id must not be nil'')) (\<lambda>_.
     rbind (case currency of
              Some v \<Rightarrow> rbind (led_normalize_currency v) (\<lambda>c. Inr (Some c))
            | None \<Rightarrow> Inr None) (\<lambda>currency.
     let page = max page 1;
         per_page = min (max per_page 1) MAX_LEDGER_ENTRIES_PER_PAGE;
         rows = sort_key (\<lambda>e. - le_created_at e) (sort_key (\<lambda>e. - uint (le_id e))
           (filter (\<lambda>e. le_tenant_id e = tenant \<and> le_seller_id e = Some seller
              \<and> le_account_code e = account_code_as_str SellerPayable
              \<and> (case currency of None \<Rightarrow> True | Some c \<Rightarrow> le_currency_code e = c)) (entry_rows s))) in
     rbind (try_map (map_entry prn) (take per_page (drop (per_page * (page - 1)) rows))) (\<lambda>items.
     Inr (items, length rows, page, per_page))))"

subsection \<open>The protocol of the receipts\<close>

lemma led_find_None:
  "led_find_receipt s tenant key = None \<longleftrightarrow>
     (\<forall>r \<in> set (led_receipt_rows s). \<not> (lr_tenant_id r = tenant \<and> lr_idempotency_key r = key))"
  by (auto simp: led_find_receipt_def find_None_iff)

lemma led_replay_completed:
  "led_replay_command_receipt reads (led_completed_receipt env resp
     (led_pending_receipt env tenant actor key kind hash)) kind hash
   = (if reads resp then Inr resp else Inl LedReceiptCorrupt)"
  by (simp add: led_replay_command_receipt_def led_completed_receipt_def led_pending_receipt_def ensure_def)

lemma led_admit_Replay:
  "led_admit_command_receipt env seen s tenant actor key kind hash = Inr (LedReplay r) \<Longrightarrow>
   led_find_receipt seen tenant key = Some r \<or> led_find_receipt s tenant key = Some r"
  by (auto simp: led_admit_command_receipt_def split: if_splits option.splits)

lemma led_admit_New:
  assumes "led_admit_command_receipt env seen s tenant actor key kind hash = Inr (LedNew nr)"
    and "led_normalize_command_kind kind = Inr kind"
  shows "nr = \<lparr>led_transaction = s\<lparr>led_receipt_rows := led_receipt_rows s
                 @ [led_pending_receipt env tenant actor key kind hash]\<rparr>,
               nl_receipt_id = led_receipt_id env, nl_tenant_id = tenant\<rparr>"
    and "\<forall>r \<in> set (led_receipt_rows s). \<not> led_receipt_clash (led_pending_receipt env tenant actor key kind hash) r"
  using assms
  by (auto simp: led_admit_command_receipt_def led_receipt_table.insert_unique_Some split: if_splits option.splits)

definition led_receipted ::
    "led_env \<Rightarrow> led_store \<Rightarrow> uuid \<Rightarrow> uuid \<Rightarrow> string \<Rightarrow> string \<Rightarrow> string \<Rightarrow> led_response \<Rightarrow> led_store \<Rightarrow> bool" where
  "led_receipted env s tenant actor key kind hash resp s' \<longleftrightarrow>
     led_find_receipt s tenant key = None
     \<and> led_receipt_rows s' = led_receipt_rows s
          @ [led_completed_receipt env resp (led_pending_receipt env tenant actor key kind hash)]
     \<and> (unique_rows led_receipt_clash (led_receipt_rows s) \<longrightarrow> unique_rows led_receipt_clash (led_receipt_rows s'))"

lemma led_receipted_unique:
  "led_receipted env s tenant actor key kind hash resp s' \<Longrightarrow> unique_rows led_receipt_clash (led_receipt_rows s)
     \<Longrightarrow> unique_rows led_receipt_clash (led_receipt_rows s')"
  unfolding led_receipted_def by blast

lemma led_find_receipted:
  assumes "led_receipted env s tenant actor key kind hash resp s'"
  shows "led_find_receipt s t k = Some r \<Longrightarrow> led_find_receipt s' t k = Some r"
    and "led_find_receipt s' tenant key
      = Some (led_completed_receipt env resp (led_pending_receipt env tenant actor key kind hash))"
  using assms
  by (simp_all add: led_receipted_def led_find_receipt_def find_append led_completed_receipt_def
      led_pending_receipt_def)

text \<open>Completion of an admitted receipt always commits, whatever the body did to the other tables.\<close>

lemma led_complete_New:
  assumes "led_admit_command_receipt env seen s tenant actor key kind hash = Inr (LedNew nr)"
    and "led_normalize_command_kind kind = Inr kind"
    and "led_receipt_rows tx = led_receipt_rows (led_transaction nr)"
  shows "\<exists>rs. led_complete_receipt env s (nr\<lparr>led_transaction := tx\<rparr>) resp = (tx\<lparr>led_receipt_rows := rs\<rparr>, Inr resp)
    \<and> led_receipted env s tenant actor key kind hash resp (tx\<lparr>led_receipt_rows := rs\<rparr>)"
proof -
  let ?p = "led_pending_receipt env tenant actor key kind hash"
  let ?nr = "nr\<lparr>led_transaction := tx\<rparr>"
  let ?rs = "led_receipt_rows s @ [led_completed_receipt env resp ?p]"
  note nr = led_admit_New(1) [OF assms(1,2)] and fresh = led_admit_New(2) [OF assms(1,2)]
  have tx: "led_receipt_rows tx = led_receipt_rows s @ [?p]" using assms(3) by (simp add: nr)
  have "\<not> led_completes ?nr r" if "r \<in> set (led_receipt_rows s)" for r
    using fresh that by (auto simp: led_completes_def nr led_receipt_clash_def led_pending_receipt_def)
  then have old: "filter (led_completes ?nr) (led_receipt_rows s) = []"
    "map (\<lambda>r. if led_completes ?nr r then led_completed_receipt env resp r else r) (led_receipt_rows s)
      = led_receipt_rows s"
    by (auto simp: filter_empty_conv intro: map_idI)
  have "led_completes ?nr ?p" by (simp add: led_completes_def nr led_pending_receipt_def)
  then have run: "led_complete_receipt env s ?nr resp = (tx\<lparr>led_receipt_rows := ?rs\<rparr>, Inr resp)"
    using old by (simp add: led_complete_receipt_def Let_def tx)
  have "unique_rows led_receipt_clash ?rs" if "unique_rows led_receipt_clash (led_receipt_rows s)"
    using that fresh by (auto simp: led_receipt_table.unique_snoc led_receipt_clash_def led_completed_receipt_def)
  moreover have "led_find_receipt s tenant key = None"
    using fresh by (auto simp: led_find_None led_receipt_clash_def led_pending_receipt_def)
  ultimately show ?thesis by (intro exI [of _ ?rs]) (simp add: run led_receipted_def)
qed

text \<open>
  A command either leaves the store as it is, or its body succeeded on the store and the effect
  of the body is committed together with the receipt of the answer.
\<close>

definition led_commits ::
    "led_env \<Rightarrow> led_store \<Rightarrow> uuid \<Rightarrow> uuid \<Rightarrow> string \<Rightarrow> string \<Rightarrow> string
     \<Rightarrow> (led_store \<Rightarrow> led_error + led_store \<times> led_response) \<Rightarrow> led_response \<Rightarrow> led_store \<Rightarrow> bool" where
  "led_commits env s tenant actor key kind hash body resp s' \<longleftrightarrow>
     (\<exists>tx rs rs'. body (s\<lparr>led_receipt_rows := rs\<rparr>) = Inr (tx, resp) \<and> s' = tx\<lparr>led_receipt_rows := rs'\<rparr>)
     \<and> led_receipted env s tenant actor key kind hash resp s'"

lemma led_New_commits:
  assumes "led_admit_command_receipt env seen s tenant actor key kind hash = Inr (LedNew nr)"
    and "led_normalize_command_kind kind = Inr kind"
    and "body (led_transaction nr) = Inr (tx, v)"
    and "led_receipt_rows tx = led_receipt_rows (led_transaction nr)"
  shows "\<exists>s'. led_complete_receipt env s (nr\<lparr>led_transaction := tx\<rparr>) v = (s', Inr v)
    \<and> led_commits env s tenant actor key kind hash body v s'"
proof -
  obtain rs where rs: "led_complete_receipt env s (nr\<lparr>led_transaction := tx\<rparr>) v = (tx\<lparr>led_receipt_rows := rs\<rparr>, Inr v)"
    "led_receipted env s tenant actor key kind hash v (tx\<lparr>led_receipt_rows := rs\<rparr>)"
    using led_complete_New [OF assms(1,2,4)] by blast
  have "body (s\<lparr>led_receipt_rows := led_receipt_rows s @ [led_pending_receipt env tenant actor key kind hash]\<rparr>) = Inr (tx, v)"
    using led_admit_New(1) [OF assms(1,2)] assms(3) by simp
  then show ?thesis using rs unfolding led_commits_def by blast
qed

lemma led_with_receipt_outcome:
  assumes "led_with_receipt env before seen s tenant actor key kind hash reads load body = (s', res)"
    and "led_normalize_command_kind kind = Inr kind"
    and "\<forall>b t t' v. body b t = Inr (t', v) \<longrightarrow> led_receipt_rows t' = led_receipt_rows t"
  shows "s' = s \<and> (\<forall>v. res = Inr v \<longrightarrow> (\<exists>r. led_find_receipt before tenant key = Some r
             \<or> led_find_receipt seen tenant key = Some r \<or> led_find_receipt s tenant key = Some r))
    \<or> (\<exists>b v. load = Inr b \<and> res = Inr v \<and> led_commits env s tenant actor key kind hash (body b) v s')"
proof (cases "led_replay_existing_command reads before tenant key kind hash")
  case (Inl e)
  with assms(1) show ?thesis by (auto simp: led_with_receipt_def)
next
  case rep: (Inr o1)
  note run = assms(1) [unfolded led_with_receipt_def rep sum.case]
  show ?thesis
  proof (cases o1)
    case (Some v)
    with run rep show ?thesis by (auto simp: led_replay_existing_command_def split: option.splits)
  next
    case none: None
    show ?thesis
    proof (cases load)
      case (Inl e)
      with run none show ?thesis by auto
    next
      case load: (Inr b)
      show ?thesis
      proof (cases "led_admit_command_receipt env seen s tenant actor key kind hash")
        case (Inl e)
        with run none load show ?thesis by auto
      next
        case adm: (Inr a)
        show ?thesis
        proof (cases a)
          case (LedReplay r)
          with run none load adm led_admit_Replay [of env seen s tenant actor key kind hash r] show ?thesis by auto
        next
          case (LedNew nr)
          note adm = adm [unfolded LedNew]
          show ?thesis
          proof (cases "body b (led_transaction nr)")
            case (Inl e)
            with run none load adm show ?thesis by auto
          next
            case (Inr t)
            then obtain tx v where t: "body b (led_transaction nr) = Inr (tx, v)" by (cases t) auto
            with led_New_commits [where body = "body b", OF adm assms(2) t assms(3) [rule_format, OF t]] run none load adm show ?thesis by auto
          qed
        qed
      qed
    qed
  qed
qed

end
