(* ===== verification/Ledger_Books.thy ===== *)
theory Ledger_Books
  imports Marketplace_Ledger
begin

text \<open>
  The books the marketplace ledger keeps, independently of the command that writes them: every
  transaction carries the sums of its debits and credits, no entry is reversed or transferred
  beyond its amount, and the balance of a seller is the signed sum of the payable entries in each
  bucket. A command that appends one transaction with its entries extends the books; the effect
  on the invariant and on the balances is proved here once. The posting of an order is the first
  such command.
\<close>

subsection \<open>What the tables say\<close>

definition dir_sum :: "direction \<Rightarrow> entry_row list \<Rightarrow> int" where
  "dir_sum dir es = sum_list (map le_amount (filter (\<lambda>e. le_direction e = direction_as_str dir) es))"

definition of_tx :: "uuid \<Rightarrow> uuid \<Rightarrow> entry_row \<Rightarrow> bool" where
  "of_tx tenant tx e \<longleftrightarrow> le_tenant_id e = tenant \<and> le_transaction_id e = tx"

definition reversed_of :: "reversal_line_row list \<Rightarrow> entry_row \<Rightarrow> int" where
  "reversed_of ls e = sum_list (map rl_amount
     (filter (\<lambda>l. rl_tenant_id l = le_tenant_id e \<and> rl_reversed_entry_id l = le_id e) ls))"

definition transferred_of :: "transfer_line_row list \<Rightarrow> entry_row \<Rightarrow> int" where
  "transferred_of ls e = sum_list (map tl_amount
     (filter (\<lambda>l. tl_tenant_id l = le_tenant_id e \<and> tl_reference_entry_id l = le_id e) ls))"

text \<open>The bucket an entry counts in: the explicit one, that of a reversal, or pending.\<close>

definition class_of :: "bucket_row list \<Rightarrow> reversal_line_row list \<Rightarrow> uuid \<Rightarrow> uuid \<Rightarrow> string" where
  "class_of bs ls tenant i =
     (case List.find (\<lambda>b. eb_tenant_id b = tenant \<and> eb_entry_id b = i) bs of
        Some b \<Rightarrow> eb_balance_bucket b
      | None \<Rightarrow>
          (case List.find (\<lambda>l. rl_tenant_id l = tenant \<and> rl_entry_id l = i \<and> rl_seller_balance_bucket l \<noteq> None) ls of
             Some l \<Rightarrow> the (rl_seller_balance_bucket l)
           | None \<Rightarrow> bucket_as_str PendingBucket))"

definition signed_amount :: "entry_row \<Rightarrow> int" where
  "signed_amount e = (if le_direction e = direction_as_str Credit then le_amount e else - le_amount e)"

definition payable_to :: "uuid \<Rightarrow> uuid \<Rightarrow> string \<Rightarrow> entry_row \<Rightarrow> bool" where
  "payable_to tenant seller cur e \<longleftrightarrow> le_tenant_id e = tenant \<and> le_seller_id e = Some seller
     \<and> le_account_code e = account_code_as_str SellerPayable \<and> le_currency_code e = cur"

definition balance_of ::
    "bucket_row list \<Rightarrow> reversal_line_row list \<Rightarrow> entry_row list \<Rightarrow> uuid \<Rightarrow> uuid \<Rightarrow> string \<Rightarrow> bucket \<Rightarrow> int" where
  "balance_of bs ls es tenant seller cur b =
     sum_list (map signed_amount (filter (\<lambda>e. payable_to tenant seller cur e
       \<and> class_of bs ls tenant (le_id e) = bucket_as_str b) es))"

text \<open>The abstract account of a seller: an amount in each bucket.\<close>

definition seller_balance :: "led_store \<Rightarrow> uuid \<Rightarrow> uuid \<Rightarrow> string \<Rightarrow> bucket \<Rightarrow> int" where
  "seller_balance s = balance_of (bucket_rows s) (reversal_line_rows s) (entry_rows s)"

definition tables_ok :: "led_store \<Rightarrow> bool" where
  "tables_ok s \<longleftrightarrow>
     unique_rows tx_clash (tx_rows s) \<and> unique_rows entry_clash (entry_rows s)
     \<and> unique_rows bucket_clash (bucket_rows s) \<and> unique_rows reversal_clash (reversal_rows s)
     \<and> unique_rows reversal_line_clash (reversal_line_rows s) \<and> unique_rows transfer_clash (transfer_rows s)
     \<and> unique_rows transfer_line_clash (transfer_line_rows s) \<and> unique_rows balance_clash (balance_rows s)
     \<and> unique_rows led_receipt_clash (led_receipt_rows s)"

definition tx_ok :: "led_store \<Rightarrow> tx_row \<Rightarrow> bool" where
  "tx_ok s t \<longleftrightarrow>
     lt_debit_total_amount t = dir_sum Debit (filter (of_tx (lt_tenant_id t) (lt_id t)) (entry_rows s))
     \<and> lt_credit_total_amount t = dir_sum Credit (filter (of_tx (lt_tenant_id t) (lt_id t)) (entry_rows s))
     \<and> lt_debit_total_amount t = lt_credit_total_amount t"

definition entry_ok :: "led_store \<Rightarrow> entry_row \<Rightarrow> bool" where
  "entry_ok s e \<longleftrightarrow>
     0 \<le> le_amount e \<and> le_direction e \<in> range direction_as_str \<and> le_transaction_id e \<in> lt_id ` set (tx_rows s)
     \<and> reversed_of (reversal_line_rows s) e \<le> le_amount e
     \<and> transferred_of (transfer_line_rows s) e \<le> le_amount e"

text \<open>The texts of the buckets are those of the data type.\<close>

definition classes_ok :: "bucket_row list \<Rightarrow> reversal_line_row list \<Rightarrow> bool" where
  "classes_ok bs ls \<longleftrightarrow>
     (\<forall>b \<in> set bs. eb_balance_bucket b \<in> range bucket_as_str)
     \<and> (\<forall>l \<in> set ls. \<forall>t. rl_seller_balance_bucket l = Some t \<longrightarrow> t \<in> range bucket_as_str)"

definition refs_ok :: "led_store \<Rightarrow> bool" where
  "refs_ok s \<longleftrightarrow>
     eb_entry_id ` set (bucket_rows s) \<subseteq> le_id ` set (entry_rows s)
     \<and> rl_entry_id ` set (reversal_line_rows s) \<subseteq> le_id ` set (entry_rows s)
     \<and> rl_reversed_entry_id ` set (reversal_line_rows s) \<subseteq> le_id ` set (entry_rows s)
     \<and> tl_reference_entry_id ` set (transfer_line_rows s) \<subseteq> le_id ` set (entry_rows s)
     \<and> classes_ok (bucket_rows s) (reversal_line_rows s)"

definition books_ok :: "led_store \<Rightarrow> bool" where
  "books_ok s \<longleftrightarrow> tables_ok s \<and> (\<forall>t \<in> set (tx_rows s). tx_ok s t)
     \<and> (\<forall>e \<in> set (entry_rows s). entry_ok s e) \<and> refs_ok s"

lemma books_ok_tables: "books_ok s \<Longrightarrow> tables_ok s"
  by (simp add: books_ok_def)

subsection \<open>Extending the books\<close>

definition books_extend ::
    "led_store \<Rightarrow> tx_row \<Rightarrow> entry_row list \<Rightarrow> bucket_row list \<Rightarrow> reversal_line_row list \<Rightarrow> transfer_line_row list
     \<Rightarrow> led_store \<Rightarrow> bool" where
  "books_extend s t es bs rls tls s' \<longleftrightarrow>
     tx_rows s' = tx_rows s @ [t] \<and> entry_rows s' = entry_rows s @ es \<and> bucket_rows s' = bucket_rows s @ bs
     \<and> reversal_line_rows s' = reversal_line_rows s @ rls \<and> transfer_line_rows s' = transfer_line_rows s @ tls
     \<and> tables_ok s'
     \<and> (\<forall>e \<in> set es. of_tx (lt_tenant_id t) (lt_id t) e \<and> 0 \<le> le_amount e \<and> le_direction e \<in> range direction_as_str)
     \<and> eb_entry_id ` set bs \<subseteq> le_id ` set es \<and> rl_entry_id ` set rls \<subseteq> le_id ` set es
     \<and> rl_reversed_entry_id ` set rls \<subseteq> le_id ` set (entry_rows s)
     \<and> tl_reference_entry_id ` set tls \<subseteq> le_id ` set (entry_rows s) \<and> classes_ok bs rls"

lemma dir_sum_append [simp]: "dir_sum d (xs @ ys) = dir_sum d xs + dir_sum d ys"
  by (simp add: dir_sum_def)

lemma reversed_of_append [simp]: "reversed_of (xs @ ys) e = reversed_of xs e + reversed_of ys e"
  by (simp add: reversed_of_def)

lemma transferred_of_append [simp]: "transferred_of (xs @ ys) e = transferred_of xs e + transferred_of ys e"
  by (simp add: transferred_of_def)

lemma reversed_of_zero: "le_id e \<notin> rl_reversed_entry_id ` set ls \<Longrightarrow> reversed_of ls e = 0"
  by (induction ls) (auto simp: reversed_of_def)

lemma transferred_of_zero: "le_id e \<notin> tl_reference_entry_id ` set ls \<Longrightarrow> transferred_of ls e = 0"
  by (induction ls) (auto simp: transferred_of_def)

lemma extend_fresh:
  assumes "books_extend s t es bs rls tls s'"
  shows "e \<in> set (entry_rows s) \<Longrightarrow> f \<in> set es \<Longrightarrow> le_id e \<noteq> le_id f"
    and "t0 \<in> set (tx_rows s) \<Longrightarrow> lt_id t0 \<noteq> lt_id t"
proof -
  have "tables_ok s'" "entry_rows s' = entry_rows s @ es" "tx_rows s' = tx_rows s @ [t]"
    using assms by (auto simp: books_extend_def)
  then have u: "unique_rows entry_clash (entry_rows s @ es)" "unique_rows tx_clash (tx_rows s @ [t])"
    by (auto simp: tables_ok_def)
  show "e \<in> set (entry_rows s) \<Longrightarrow> f \<in> set es \<Longrightarrow> le_id e \<noteq> le_id f"
    using entry_table.unique_append [OF u(1), of e f] by (auto simp: entry_clash_def)
  show "t0 \<in> set (tx_rows s) \<Longrightarrow> lt_id t0 \<noteq> lt_id t"
    using tx_table.unique_append [OF u(2), of t0 t] by (auto simp: tx_clash_def)
qed

lemma extend_tx_ok:
  assumes "books_ok s" and ext: "books_extend s t es bs rls tls s'"
    and "lt_debit_total_amount t = dir_sum Debit es" "lt_credit_total_amount t = dir_sum Credit es"
    and "lt_debit_total_amount t = lt_credit_total_amount t"
    and "t0 \<in> set (tx_rows s')"
  shows "tx_ok s' t0"
proof -
  have rows: "tx_rows s' = tx_rows s @ [t]" "entry_rows s' = entry_rows s @ es"
    and es: "\<And>e. e \<in> set es \<Longrightarrow> of_tx (lt_tenant_id t) (lt_id t) e"
    using ext by (auto simp: books_extend_def)
  have old: "le_transaction_id e \<in> lt_id ` set (tx_rows s)" if "e \<in> set (entry_rows s)" for e
    using assms(1) that by (simp add: books_ok_def entry_ok_def)
  show ?thesis
  proof (cases "t0 = t")
    case True
    have "filter (of_tx (lt_tenant_id t) (lt_id t)) (entry_rows s) = []"
      using old extend_fresh(2) [OF ext] by (fastforce simp: filter_empty_conv of_tx_def)
    moreover have "filter (of_tx (lt_tenant_id t) (lt_id t)) es = es" using es by (simp add: filter_id_conv)
    ultimately show ?thesis using assms(3-5) True by (simp add: tx_ok_def rows)
  next
    case False
    then have t0: "t0 \<in> set (tx_rows s)" using assms(6) rows by simp
    have "filter (of_tx (lt_tenant_id t0) (lt_id t0)) es = []"
      using es extend_fresh(2) [OF ext t0] by (auto simp: filter_empty_conv of_tx_def)
    moreover have "tx_ok s t0" using assms(1) t0 by (simp add: books_ok_def)
    ultimately show ?thesis by (simp add: tx_ok_def rows)
  qed
qed

lemma extend_entry_ok:
  assumes "books_ok s" and ext: "books_extend s t es bs rls tls s'"
    and "\<And>e. e \<in> set (entry_rows s) \<Longrightarrow> reversed_of (reversal_line_rows s) e + reversed_of rls e \<le> le_amount e"
    and "\<And>e. e \<in> set (entry_rows s) \<Longrightarrow> transferred_of (transfer_line_rows s) e + transferred_of tls e \<le> le_amount e"
    and "e \<in> set (entry_rows s')"
  shows "entry_ok s' e"
proof -
  have rows: "tx_rows s' = tx_rows s @ [t]" "entry_rows s' = entry_rows s @ es"
    "reversal_line_rows s' = reversal_line_rows s @ rls" "transfer_line_rows s' = transfer_line_rows s @ tls"
    and es: "\<And>e. e \<in> set es \<Longrightarrow> of_tx (lt_tenant_id t) (lt_id t) e \<and> 0 \<le> le_amount e
        \<and> le_direction e \<in> range direction_as_str"
    and refs: "rl_reversed_entry_id ` set rls \<subseteq> le_id ` set (entry_rows s)"
      "tl_reference_entry_id ` set tls \<subseteq> le_id ` set (entry_rows s)"
    using ext by (auto simp: books_extend_def)
  show ?thesis
  proof (cases "e \<in> set (entry_rows s)")
    case True
    then have "entry_ok s e" using assms(1) by (simp add: books_ok_def)
    then show ?thesis using assms(3,4) [OF True] by (simp add: entry_ok_def rows)
  next
    case False
    then have e: "e \<in> set es" using assms(5) rows by simp
    then have "le_id e \<notin> le_id ` set (entry_rows s)" using extend_fresh(1) [OF ext _ e] by force
    moreover have "rl_reversed_entry_id ` set (reversal_line_rows s) \<subseteq> le_id ` set (entry_rows s)"
      "tl_reference_entry_id ` set (transfer_line_rows s) \<subseteq> le_id ` set (entry_rows s)"
      using assms(1) by (simp_all add: books_ok_def refs_ok_def)
    ultimately have "reversed_of (reversal_line_rows s) e = 0" "reversed_of rls e = 0"
      "transferred_of (transfer_line_rows s) e = 0" "transferred_of tls e = 0"
      using refs by (auto intro!: reversed_of_zero transferred_of_zero)
    then show ?thesis using es [OF e] by (simp add: entry_ok_def rows of_tx_def)
  qed
qed

lemma books_extend_ok:
  assumes "books_ok s" and "books_extend s t es bs rls tls s'"
    and "lt_debit_total_amount t = dir_sum Debit es" "lt_credit_total_amount t = dir_sum Credit es"
    and "lt_debit_total_amount t = lt_credit_total_amount t"
    and "\<And>e. e \<in> set (entry_rows s) \<Longrightarrow> reversed_of (reversal_line_rows s) e + reversed_of rls e \<le> le_amount e"
    and "\<And>e. e \<in> set (entry_rows s) \<Longrightarrow> transferred_of (transfer_line_rows s) e + transferred_of tls e \<le> le_amount e"
  shows "books_ok s'"
proof -
  have "refs_ok s'" "tables_ok s'"
    using assms(1,2) by (auto simp: books_ok_def refs_ok_def books_extend_def classes_ok_def)
  then show ?thesis
    using extend_tx_ok [OF assms(1-5)] extend_entry_ok [OF assms(1,2,6,7)] by (simp add: books_ok_def)
qed

text \<open>Where nothing is reversed or transferred, the two bounds are those of the store before.\<close>

lemma books_ok_bounds:
  assumes "books_ok s" and "e \<in> set (entry_rows s)"
  shows "reversed_of (reversal_line_rows s) e \<le> le_amount e" "transferred_of (transfer_line_rows s) e \<le> le_amount e"
    "0 \<le> le_amount e"
  using assms by (auto simp: books_ok_def entry_ok_def)

lemma class_of_old:
  assumes "i \<notin> eb_entry_id ` set bs'" and "i \<notin> rl_entry_id ` set ls'"
  shows "class_of (bs @ bs') (ls @ ls') tenant i = class_of bs ls tenant i"
proof -
  have "List.find (\<lambda>b. eb_tenant_id b = tenant \<and> eb_entry_id b = i) bs' = None"
    "List.find (\<lambda>l. rl_tenant_id l = tenant \<and> rl_entry_id l = i \<and> rl_seller_balance_bucket l \<noteq> None) ls' = None"
    using assms by (auto simp: find_None_iff)
  then show ?thesis by (simp add: class_of_def find_append del: not_None_eq split: option.splits)
qed

lemma class_of_new:
  assumes "i \<notin> eb_entry_id ` set bs" and "i \<notin> rl_entry_id ` set ls"
  shows "class_of (bs @ bs') (ls @ ls') tenant i = class_of bs' ls' tenant i"
proof -
  have "List.find (\<lambda>b. eb_tenant_id b = tenant \<and> eb_entry_id b = i) bs = None"
    "List.find (\<lambda>l. rl_tenant_id l = tenant \<and> rl_entry_id l = i \<and> rl_seller_balance_bucket l \<noteq> None) ls = None"
    using assms by (auto simp: find_None_iff)
  then show ?thesis by (simp add: class_of_def find_append del: not_None_eq split: option.splits)
qed

lemma balance_of_append:
  assumes "eb_entry_id ` set bs' \<subseteq> le_id ` set es'" and "rl_entry_id ` set ls' \<subseteq> le_id ` set es'"
    and "eb_entry_id ` set bs \<subseteq> le_id ` set es" and "rl_entry_id ` set ls \<subseteq> le_id ` set es"
    and "le_id ` set es \<inter> le_id ` set es' = {}"
  shows "balance_of (bs @ bs') (ls @ ls') (es @ es') tenant seller cur b
    = balance_of bs ls es tenant seller cur b + balance_of bs' ls' es' tenant seller cur b"
proof -
  have old: "class_of (bs @ bs') (ls @ ls') tenant (le_id e) = class_of bs ls tenant (le_id e)" if "e \<in> set es" for e
    using assms(1,2,5) that by (intro class_of_old) blast+
  have new: "class_of (bs @ bs') (ls @ ls') tenant (le_id e) = class_of bs' ls' tenant (le_id e)" if "e \<in> set es'" for e
    using assms(3-5) that by (intro class_of_new) blast+
  show ?thesis by (simp add: balance_of_def old new cong: filter_cong)
qed

lemma balance_extend:
  assumes "books_ok s" and "books_extend s t es bs rls tls s'"
  shows "seller_balance s' tenant seller cur b = seller_balance s tenant seller cur b + balance_of bs rls es tenant seller cur b"
proof -
  have rows: "entry_rows s' = entry_rows s @ es" "bucket_rows s' = bucket_rows s @ bs"
    "reversal_line_rows s' = reversal_line_rows s @ rls"
    and refs: "eb_entry_id ` set bs \<subseteq> le_id ` set es" "rl_entry_id ` set rls \<subseteq> le_id ` set es"
    using assms(2) by (auto simp: books_extend_def)
  have refs': "eb_entry_id ` set (bucket_rows s) \<subseteq> le_id ` set (entry_rows s)"
    "rl_entry_id ` set (reversal_line_rows s) \<subseteq> le_id ` set (entry_rows s)"
    using assms(1) by (auto simp: books_ok_def refs_ok_def)
  have "le_id ` set (entry_rows s) \<inter> le_id ` set es = {}" using extend_fresh(1) [OF assms(2)] by blast
  from balance_of_append [OF refs refs' this] show ?thesis by (simp add: seller_balance_def rows)
qed

subsection \<open>The entries of a posted order\<close>

primrec posted_entries :: "led_env \<Rightarrow> uuid \<Rightarrow> nat \<Rightarrow> assessment_view list \<Rightarrow> entry_row list" where
  "posted_entries env tenant n [] = []"
| "posted_entries env tenant n (a # as) =
     [posting_entry env tenant n a None MarketplaceClearing Debit (as_allocation_total_amount a),
      posting_entry env tenant (n + 1) a None PlatformCommissionRevenue Credit (as_commission_amount a),
      posting_entry env tenant (n + 2) a (Some (as_seller_id a)) SellerPayable Credit (as_seller_proceeds_amount a)]
     @ posted_entries env tenant (n + 3) as"

lemma insert_entry_Inr:
  "insert_entry env a m rows = Inr (rows', v) \<longleftrightarrow>
     insert_unique entry_clash m rows = Some rows' \<and> map_entry (led_print_uuid env) m = Inr v"
  by (auto simp: insert_entry_def)

lemma entry_unique_insert:
  "insert_unique entry_clash m rows = Some rows' \<Longrightarrow>
     rows' = rows @ [m] \<and> (unique_rows entry_clash rows \<longrightarrow> unique_rows entry_clash (rows @ [m]))"
  by (simp add: entry_table.insert_unique_Some entry_table.unique_snoc)

lemma post_assessments_Inr:
  assumes "post_assessments env tenant n as (rows, vs) = Inr (rows', vs')"
  shows "rows' = rows @ posted_entries env tenant n as
    \<and> (\<exists>ws. vs' = vs @ ws \<and> try_map (map_entry (led_print_uuid env)) (posted_entries env tenant n as) = Inr ws)
    \<and> (unique_rows entry_clash rows \<longrightarrow> unique_rows entry_clash rows')"
  using assms
proof (induction as arbitrary: n rows vs)
  case (Cons a as)
  let ?e1 = "posting_entry env tenant n a None MarketplaceClearing Debit (as_allocation_total_amount a)"
  let ?e2 = "posting_entry env tenant (n + 1) a None PlatformCommissionRevenue Credit (as_commission_amount a)"
  let ?e3 = "posting_entry env tenant (n + 2) a (Some (as_seller_id a)) SellerPayable Credit (as_seller_proceeds_amount a)"
  from Cons.prems obtain r1 v1 r2 v2 r3 v3 where
    i: "insert_unique entry_clash ?e1 rows = Some r1" "insert_unique entry_clash ?e2 r1 = Some r2"
      "insert_unique entry_clash ?e3 r2 = Some r3"
    and v: "map_entry (led_print_uuid env) ?e1 = Inr v1" "map_entry (led_print_uuid env) ?e2 = Inr v2"
      "map_entry (led_print_uuid env) ?e3 = Inr v3"
    and rest: "post_assessments env tenant (n + 3) as (r3, vs @ [v1, v2, v3]) = Inr (rows', vs')"
    by (auto simp: insert_entry_Inr)
  note u1 = entry_unique_insert [OF i(1)]
  note u2 = entry_unique_insert [OF i(2)]
  note u3 = entry_unique_insert [OF i(3)]
  have r3: "r3 = rows @ [?e1, ?e2, ?e3]" using u1 u2 u3 by simp
  have u: "unique_rows entry_clash rows \<longrightarrow> unique_rows entry_clash r3" using u1 u2 u3 by blast
  from Cons.IH [OF rest] obtain ws where IH: "rows' = r3 @ posted_entries env tenant (n + 3) as"
    "vs' = (vs @ [v1, v2, v3]) @ ws"
    "try_map (map_entry (led_print_uuid env)) (posted_entries env tenant (n + 3) as) = Inr ws"
    "unique_rows entry_clash r3 \<longrightarrow> unique_rows entry_clash rows'" by blast
  then show ?case using r3 u v by (intro conjI exI [of _ "[v1, v2, v3] @ ws"]) auto
qed simp

lemma posting_entry_simps [simp]:
  "le_tenant_id (posting_entry env tenant n a sel acc dir amt) = tenant"
  "le_transaction_id (posting_entry env tenant n a sel acc dir amt) = led_tx_id env"
  "le_id (posting_entry env tenant n a sel acc dir amt) = led_entry_id env n"
  "le_assessment_id (posting_entry env tenant n a sel acc dir amt) = as_id a"
  "le_seller_id (posting_entry env tenant n a sel acc dir amt) = sel"
  "le_account_code (posting_entry env tenant n a sel acc dir amt) = account_code_as_str acc"
  "le_direction (posting_entry env tenant n a sel acc dir amt) = direction_as_str dir"
  "le_currency_code (posting_entry env tenant n a sel acc dir amt) = as_currency_code a"
  "le_amount (posting_entry env tenant n a sel acc dir amt) = amt"
  by (simp_all add: posting_entry_def)

lemma direction_texts [simp]: "''debit'' \<in> range direction_as_str" "''credit'' \<in> range direction_as_str"
  using rangeI [of direction_as_str Debit] rangeI [of direction_as_str Credit] by simp_all

lemma posted_entries_sums:
  "dir_sum Debit (posted_entries env tenant n as) = sum_list (map as_allocation_total_amount as)"
  "dir_sum Credit (posted_entries env tenant n as)
     = sum_list (map (\<lambda>a. as_commission_amount a + as_seller_proceeds_amount a) as)"
  by (induction as arbitrary: n) (simp_all add: dir_sum_def)

lemma posted_entries_rows:
  "e \<in> set (posted_entries env tenant n as) \<Longrightarrow>
     of_tx tenant (led_tx_id env) e \<and> le_direction e \<in> range direction_as_str
     \<and> (\<exists>a \<in> set as. le_assessment_id e = as_id a
          \<and> le_amount e \<in> {as_allocation_total_amount a, as_commission_amount a, as_seller_proceeds_amount a})"
  by (induction as arbitrary: n) (auto simp: of_tx_def)

lemma posted_entries_balance:
  "balance_of [] [] (posted_entries env tenant n as) tenant seller cur b
     = (if b = PendingBucket
        then sum_list (map as_seller_proceeds_amount
               (filter (\<lambda>a. as_seller_id a = seller \<and> as_currency_code a = cur) as))
        else 0)"
proof (induction as arbitrary: n)
  case (Cons a as)
  have c: "class_of [] [] tenant i = bucket_as_str b \<longleftrightarrow> b = PendingBucket" for i
    by (cases b) (simp_all add: class_of_def)
  show ?case using Cons [of "n + 3"]
    by (auto simp: balance_of_def payable_to_def signed_amount_def c)
qed (simp add: balance_of_def)

lemma posted_entries_other_tenant:
  "tenant' \<noteq> tenant \<Longrightarrow> balance_of bs ls (posted_entries env tenant n as) tenant' seller cur b = 0"
  by (induction as arbitrary: n) (simp_all add: balance_of_def payable_to_def)

definition batch_ok :: "uuid \<Rightarrow> uuid \<Rightarrow> string \<Rightarrow> assessment_view list \<Rightarrow> bool" where
  "batch_ok tenant order cur as \<longleftrightarrow>
     distinct (map as_id as) \<and> distinct (map as_allocation_id as)
     \<and> (\<forall>a \<in> set as. as_tenant_id a = tenant \<and> as_order_id a = order \<and> as_status a = Assessed
          \<and> led_normalize_currency (as_currency_code a) = Inr cur
          \<and> 0 \<le> as_commission_amount a \<and> 0 \<le> as_seller_proceeds_amount a
          \<and> as_commission_amount a + as_seller_proceeds_amount a = as_allocation_total_amount a)"

lemma check_assessments_Inr:
  assumes "check_assessments prn tenant order cur as ids allocs dt ct = Inr (dt', ct')"
  shows "dt' = dt + sum_list (map as_allocation_total_amount as)
    \<and> ct' = ct + sum_list (map as_allocation_total_amount as)
    \<and> as_id ` set as \<inter> ids = {} \<and> as_allocation_id ` set as \<inter> allocs = {} \<and> batch_ok tenant order cur as"
  using assms
proof (induction as arbitrary: ids allocs dt ct)
  case (Cons a as)
  from Cons.prems obtain dt1 ct1 where c: "check_assessment prn tenant order cur ids allocs a = Inr (as_allocation_total_amount a)"
    and t: "dt1 = dt + as_allocation_total_amount a" "ct1 = ct + as_allocation_total_amount a"
    and rest: "check_assessments prn tenant order cur as (insert (as_id a) ids) (insert (as_allocation_id a) allocs)
      dt1 ct1 = Inr (dt', ct')"
    by (auto simp: check_assessment_def)
  from c have "as_tenant_id a = tenant \<and> as_order_id a = order \<and> as_status a = Assessed
      \<and> led_normalize_currency (as_currency_code a) = Inr cur \<and> as_id a \<notin> ids \<and> as_allocation_id a \<notin> allocs
      \<and> 0 \<le> as_commission_amount a \<and> 0 \<le> as_seller_proceeds_amount a
      \<and> as_commission_amount a + as_seller_proceeds_amount a = as_allocation_total_amount a"
    by (auto simp: check_assessment_def)
  with Cons.IH [OF rest] t show ?case by (auto simp: batch_ok_def)
qed (simp add: batch_ok_def)

lemma validate_assessment_batch_Inr:
  assumes "validate_assessment_batch prn tenant order as = Inr b"
  shows "ba_assessments b = as" "as \<noteq> []" "batch_ok tenant order (ba_currency_code b) as"
    "ba_debit_total_amount b = sum_list (map as_allocation_total_amount as)"
    "ba_credit_total_amount b = sum_list (map as_allocation_total_amount as)"
proof -
  obtain cur dt ct where "as \<noteq> []" and c: "check_assessments prn tenant order cur as {} {} 0 0 = Inr (dt, ct)"
    and b: "b = \<lparr>ba_currency_code = cur, ba_debit_total_amount = dt, ba_credit_total_amount = ct, ba_assessments = as\<rparr>"
    using assms by (auto simp: validate_assessment_batch_def)
  with check_assessments_Inr [OF c] show "ba_assessments b = as" "as \<noteq> []" "batch_ok tenant order (ba_currency_code b) as"
    "ba_debit_total_amount b = sum_list (map as_allocation_total_amount as)"
    "ba_credit_total_amount b = sum_list (map as_allocation_total_amount as)" by simp_all
qed

subsection \<open>The effect of posting an order\<close>

lemma post_order_body:
  assumes "post_order_in_transaction env tenant order at b tx = Inr (tx', v)"
  shows "led_receipt_rows tx' = led_receipt_rows tx"
    and "\<exists>txs rows. insert_unique tx_clash (posting_tx_row env tenant order at b) (tx_rows tx) = Some txs
      \<and> (\<exists>vs. post_assessments env tenant 0 (ba_assessments b) (entry_rows tx, []) = Inr (rows, vs))
      \<and> tx' = tx\<lparr>tx_rows := txs, entry_rows := rows\<rparr> \<and> reads_post v"
    and "find_order_tx tx tenant order = None"
    and "\<forall>e \<in> set (entry_rows tx). le_tenant_id e = tenant \<longrightarrow> le_assessment_id e \<notin> as_id ` set (ba_assessments b)"
  using assms
  by (auto simp: post_order_in_transaction_def Let_def reads_post_def find_None_iff split: option.splits)

lemma post_order_extends:
  assumes "books_ok s" and "batch_ok tenant order (ba_currency_code b) (ba_assessments b)"
    and "led_commits env s tenant actor k kind h (post_order_in_transaction env tenant order at b) v s'"
  shows "books_extend s (posting_tx_row env tenant order at b) (posted_entries env tenant 0 (ba_assessments b)) [] [] [] s'"
    and "balance_rows s' = balance_rows s" "reads_post v" "find_order_tx s tenant order = None"
    and "\<forall>e \<in> set (entry_rows s). le_tenant_id e = tenant \<longrightarrow> le_assessment_id e \<notin> as_id ` set (ba_assessments b)"
proof -
  let ?t = "posting_tx_row env tenant order at b" and ?es = "posted_entries env tenant 0 (ba_assessments b)"
  obtain tx rs rs' where body: "post_order_in_transaction env tenant order at b (s\<lparr>led_receipt_rows := rs\<rparr>) = Inr (tx, v)"
    and s': "s' = tx\<lparr>led_receipt_rows := rs'\<rparr>" and r: "led_receipted env s tenant actor k kind h v s'"
    using assms(3) by (auto simp: led_commits_def)
  note outcome = post_order_body [OF body]
  obtain txs rows vs where ins: "insert_unique tx_clash ?t (tx_rows s) = Some txs"
    and loop: "post_assessments env tenant 0 (ba_assessments b) (entry_rows s, []) = Inr (rows, vs)"
    and tx: "tx = s\<lparr>led_receipt_rows := rs, tx_rows := txs, entry_rows := rows\<rparr>"
    using outcome(2) by auto
  have rows: "rows = entry_rows s @ ?es" "unique_rows entry_clash (entry_rows s) \<longrightarrow> unique_rows entry_clash rows"
    using post_assessments_Inr [OF loop] by blast+
  have txs: "txs = tx_rows s @ [?t]" "unique_rows tx_clash (tx_rows s) \<longrightarrow> unique_rows tx_clash txs"
    using ins tx_table.unique_insert [OF _ ins] by (simp_all add: tx_table.insert_unique_Some)
  have tables: "tables_ok s" using assms(1) by (rule books_ok_tables)
  have "unique_rows led_receipt_clash (led_receipt_rows s')" using led_receipted_unique [OF r] tables by (simp add: tables_ok_def)
  then have "tables_ok s'" using tables rows(2) txs(2) by (simp add: tables_ok_def s' tx)
  moreover have "of_tx (lt_tenant_id ?t) (lt_id ?t) e \<and> 0 \<le> le_amount e \<and> le_direction e \<in> range direction_as_str"
    if "e \<in> set ?es" for e
  proof -
    from posted_entries_rows [OF that] obtain a where a: "a \<in> set (ba_assessments b)"
      "le_amount e \<in> {as_allocation_total_amount a, as_commission_amount a, as_seller_proceeds_amount a}" by blast
    moreover have "0 \<le> as_commission_amount a \<and> 0 \<le> as_seller_proceeds_amount a
        \<and> as_commission_amount a + as_seller_proceeds_amount a = as_allocation_total_amount a"
      using assms(2) a(1) by (simp add: batch_ok_def)
    ultimately have "0 \<le> le_amount e" by auto
    then show ?thesis using posted_entries_rows [OF that] by (simp add: posting_tx_row_def)
  qed
  ultimately show "books_extend s ?t ?es [] [] [] s'"
    using rows(1) txs(1) by (simp add: books_extend_def classes_ok_def s' tx)
  show "balance_rows s' = balance_rows s" by (simp add: s' tx)
  show "reads_post v" using outcome(2) by blast
  show "find_order_tx s tenant order = None" using outcome(3) by (simp add: find_order_tx_def)
  show "\<forall>e \<in> set (entry_rows s). le_tenant_id e = tenant \<longrightarrow> le_assessment_id e \<notin> as_id ` set (ba_assessments b)"
    using outcome(4) by simp
qed

lemma post_kind: "led_normalize_command_kind ''post_order_commissions'' = Inr ''post_order_commissions''"
proof -
  have "trim ''post_order_commissions'' = ''post_order_commissions''" by (rule trim_plain) (simp add: plain_if_printable)
  then show ?thesis by (simp add: led_normalize_command_kind_def)
qed

lemma post_outcome:
  assumes "books_ok s" and "post_order_with_receipt env before seen s ctx tenant actor key inp = (s', res)"
  shows "s' = s \<and> (\<forall>v. res = Inr v \<longrightarrow> (\<exists>k h r. prepare_post env tenant actor key inp = Inr (k, h)
             \<and> (led_find_receipt before tenant k = Some r \<or> led_find_receipt seen tenant k = Some r
                \<or> led_find_receipt s tenant k = Some r)))
    \<or> (\<exists>k h b v. prepare_post env tenant actor key inp = Inr (k, h)
         \<and> load_batch env ctx tenant (po_order_id inp) = Inr b \<and> res = Inr v
         \<and> led_commits env s tenant actor k ''post_order_commissions'' h
              (post_order_in_transaction env tenant (po_order_id inp) (po_posted_at inp) b) v s')"
proof (cases "prepare_post env tenant actor key inp")
  case (Inl e)
  with assms(2) show ?thesis by (auto simp: post_order_with_receipt_def)
next
  case (Inr p)
  obtain k h where p: "p = (k, h)" by (cases p)
  note run = assms(2) [unfolded post_order_with_receipt_def Inr p sum.case prod.case]
  have keep: "\<forall>b t t' v. post_order_in_transaction env tenant (po_order_id inp) (po_posted_at inp) b t = Inr (t', v)
      \<longrightarrow> led_receipt_rows t' = led_receipt_rows t"
    using post_order_body(1) by blast
  from led_with_receipt_outcome [OF run post_kind keep] show ?thesis using Inr p by blast
qed

lemma load_batch_Inr:
  assumes "load_batch env ctx tenant order = Inr b"
  shows "commission_reader env ctx order = Inr (ba_assessments b)" "ba_assessments b \<noteq> []"
    "batch_ok tenant order (ba_currency_code b) (ba_assessments b)"
    "ba_debit_total_amount b = sum_list (map as_allocation_total_amount (ba_assessments b))"
    "ba_credit_total_amount b = sum_list (map as_allocation_total_amount (ba_assessments b))"
proof -
  obtain as where as: "commission_reader env ctx order = Inr as"
    "validate_assessment_batch (led_print_uuid env) tenant order as = Inr b"
    using assms by (auto simp: load_batch_def)
  note v = validate_assessment_batch_Inr [OF as(2)]
  show "commission_reader env ctx order = Inr (ba_assessments b)" "ba_assessments b \<noteq> []"
    "batch_ok tenant order (ba_currency_code b) (ba_assessments b)"
    "ba_debit_total_amount b = sum_list (map as_allocation_total_amount (ba_assessments b))"
    "ba_credit_total_amount b = sum_list (map as_allocation_total_amount (ba_assessments b))"
    using as(1) v by simp_all
qed

lemma post_order_books_ok:
  assumes "books_ok s" and "load_batch env ctx tenant order = Inr b"
    and "led_commits env s tenant actor k kind h (post_order_in_transaction env tenant order at b) v s'"
  shows "books_ok s'"
proof -
  note load = load_batch_Inr [OF assms(2)]
  have "as_commission_amount a + as_seller_proceeds_amount a = as_allocation_total_amount a"
    if "a \<in> set (ba_assessments b)" for a using load(3) that by (simp add: batch_ok_def)
  then have sums: "sum_list (map (\<lambda>a. as_commission_amount a + as_seller_proceeds_amount a) (ba_assessments b))
      = sum_list (map as_allocation_total_amount (ba_assessments b))" by (simp cong: map_cong)
  show ?thesis
    by (rule books_extend_ok [OF assms(1) post_order_extends(1) [OF assms(1) load(3) assms(3)]])
      (use load(4,5) sums in \<open>simp_all add: posted_entries_sums posting_tx_row_def books_ok_bounds [OF assms(1)]
        reversed_of_def [of "[]"] transferred_of_def [of "[]"]\<close>)
qed

end
