(* ===== verification/Ledger_Balance.thy ===== *)
theory Ledger_Balance
  imports Ledger_Books
begin

text \<open>
  The balance projection of a seller (\<open>rustok-marketplace-balance/src/balance.rs\<close>): the sums of
  the payable entries in each bucket, materialised in one row per seller and currency. A rebuild
  reads the entries, looks the row up and writes it in separate statements; the three stores of
  the definition are the ones these statements see.
\<close>

subsection \<open>Totals\<close>

record balance_totals =
  bt_pending :: int
  bt_available :: int
  bt_reserved :: int
  bt_paid :: int

definition zero_totals :: balance_totals where
  "zero_totals = \<lparr>bt_pending = 0, bt_available = 0, bt_reserved = 0, bt_paid = 0\<rparr>"

primrec totals_amount :: "balance_totals \<Rightarrow> bucket \<Rightarrow> int" where
  "totals_amount t PendingBucket = bt_pending t"
| "totals_amount t AvailableBucket = bt_available t"
| "totals_amount t ReservedBucket = bt_reserved t"
| "totals_amount t PaidBucket = bt_paid t"

primrec totals_set :: "bucket \<Rightarrow> int \<Rightarrow> balance_totals \<Rightarrow> balance_totals" where
  "totals_set PendingBucket v t = t\<lparr>bt_pending := v\<rparr>"
| "totals_set AvailableBucket v t = t\<lparr>bt_available := v\<rparr>"
| "totals_set ReservedBucket v t = t\<lparr>bt_reserved := v\<rparr>"
| "totals_set PaidBucket v t = t\<lparr>bt_paid := v\<rparr>"

text \<open>The projection and the transfers apply entries alike, up to the texts of the two errors.\<close>

definition totals_apply ::
    "string \<Rightarrow> string \<Rightarrow> balance_totals \<Rightarrow> bucket \<Rightarrow> direction \<Rightarrow> int \<Rightarrow> led_error + balance_totals" where
  "totals_apply negative overflow t b dir amount =
     rbind (ensure (\<not> amount < 0) (LedValidation negative)) (\<lambda>_.
     rbind (ok_or (checked_i64 (case dir of Credit \<Rightarrow> totals_amount t b + amount
                                          | Debit \<Rightarrow> totals_amount t b - amount))
       (LedValidation overflow)) (\<lambda>v.
     Inr (totals_set b v t)))"

definition balance_totals_apply ::
    "balance_totals \<Rightarrow> bucket \<Rightarrow> direction \<Rightarrow> int \<Rightarrow> led_error + balance_totals" where
  "balance_totals_apply = totals_apply ''seller balance source entry amount must not be negative''
     ''seller balance overflow during rebuild''"

definition parse_bucket :: "string \<Rightarrow> led_error + bucket" where
  "parse_bucket v = ok_or (bucket_parse v) (LedValidation (''unknown seller balance bucket `'' @ v @ ''`''))"

definition explicit_buckets :: "led_store \<Rightarrow> uuid \<Rightarrow> uuid list \<Rightarrow> uuid \<rightharpoonup> string" where
  "explicit_buckets s tenant ids = map_of (rev (map (\<lambda>b. (eb_entry_id b, eb_balance_bucket b))
     (filter (\<lambda>b. eb_tenant_id b = tenant \<and> eb_entry_id b \<in> set ids) (bucket_rows s))))"

definition reversal_buckets :: "led_store \<Rightarrow> uuid \<Rightarrow> uuid list \<Rightarrow> uuid \<rightharpoonup> string" where
  "reversal_buckets s tenant ids = map_of (rev (List.map_filter
     (\<lambda>l. map_option (\<lambda>b. (rl_entry_id l, b)) (rl_seller_balance_bucket l))
     (filter (\<lambda>l. rl_tenant_id l = tenant \<and> rl_entry_id l \<in> set ids) (reversal_line_rows s))))"

definition entry_bucket :: "(uuid \<rightharpoonup> string) \<Rightarrow> (uuid \<rightharpoonup> string) \<Rightarrow> uuid \<Rightarrow> led_error + bucket" where
  "entry_bucket explicit reversal i =
     (case (case explicit i of Some v \<Rightarrow> Some v | None \<Rightarrow> reversal i) of
        Some v \<Rightarrow> parse_bucket v
      | None \<Rightarrow> Inr PendingBucket)"

fun sum_entries ::
    "(balance_totals \<Rightarrow> bucket \<Rightarrow> direction \<Rightarrow> int \<Rightarrow> led_error + balance_totals)
     \<Rightarrow> (uuid \<rightharpoonup> string) \<Rightarrow> (uuid \<rightharpoonup> string) \<Rightarrow> entry_row list \<Rightarrow> balance_totals \<Rightarrow> led_error + balance_totals" where
  "sum_entries apply_entry explicit reversal [] t = Inr t"
| "sum_entries apply_entry explicit reversal (m # ms) t =
     rbind (ok_or (direction_parse (le_direction m))
       (LedValidation (''unknown ledger entry direction `'' @ le_direction m @ ''`''))) (\<lambda>dir.
     rbind (entry_bucket explicit reversal (le_id m)) (\<lambda>b.
     rbind (apply_entry t b dir (le_amount m)) (\<lambda>t.
     sum_entries apply_entry explicit reversal ms t)))"

subsection \<open>The projection\<close>

definition map_balance :: "(uuid \<Rightarrow> string) \<Rightarrow> balance_row \<Rightarrow> led_error + balance_view" where
  "map_balance prn m =
     rbind (ensure (0 \<le> sb_source_entry_count m) (LedValidation (''seller balance projection ''
       @ prn (sb_id m) @ '' has an invalid source entry count''))) (\<lambda>_.
     Inr \<lparr>bv_id = sb_id m, bv_tenant_id = sb_tenant_id m, bv_seller_id = sb_seller_id m,
          bv_currency_code = sb_currency_code m, bv_pending_amount = sb_pending_amount m,
          bv_available_amount = sb_available_amount m, bv_reserved_amount = sb_reserved_amount m,
          bv_paid_amount = sb_paid_amount m, bv_negative_amount = sb_negative_amount m,
          bv_source_entry_count = nat (sb_source_entry_count m),
          bv_last_entry_id = sb_last_entry_id m,
          bv_last_entry_created_at = sb_last_entry_created_at m,
          bv_rebuilt_at = sb_rebuilt_at m, bv_updated_at = sb_updated_at m\<rparr>)"

definition find_balance :: "led_store \<Rightarrow> uuid \<Rightarrow> uuid \<Rightarrow> string \<Rightarrow> balance_row option" where
  "find_balance s tenant seller cur =
     List.find (\<lambda>r. sb_tenant_id r = tenant \<and> sb_seller_id r = seller \<and> sb_currency_code r = cur) (balance_rows s)"

definition validate_tenant_id :: "uuid \<Rightarrow> led_error + unit" where
  "validate_tenant_id tenant = ensure (\<not> is_nil tenant) (LedValidation ''tenant_id must not be nil'')"

definition validate_seller_id :: "uuid \<Rightarrow> led_error + unit" where
  "validate_seller_id seller = ensure (\<not> is_nil seller) (LedValidation ''seller_id must not be nil'')"

definition read_seller_balance_projection ::
    "(uuid \<Rightarrow> string) \<Rightarrow> led_store \<Rightarrow> uuid \<Rightarrow> uuid \<Rightarrow> string \<Rightarrow> led_error + balance_view" where
  "read_seller_balance_projection prn s tenant seller currency =
     rbind (validate_tenant_id tenant) (\<lambda>_.
     rbind (validate_seller_id seller) (\<lambda>_.
     rbind (led_normalize_currency currency) (\<lambda>cur.
     rbind (ok_or (find_balance s tenant seller cur) (SellerBalanceNotFound seller cur)) (\<lambda>m.
     map_balance prn m))))"

definition sorted_payable :: "led_store \<Rightarrow> uuid \<Rightarrow> uuid \<Rightarrow> string \<Rightarrow> entry_row list" where
  "sorted_payable s tenant seller cur =
     sort_key le_created_at (sort_key le_id (payable_entries s tenant seller cur))"

definition rebuild_totals :: "led_store \<Rightarrow> uuid \<Rightarrow> entry_row list \<Rightarrow> led_error + balance_totals" where
  "rebuild_totals s tenant es =
     (let ids = map le_id es in
      sum_entries balance_totals_apply (explicit_buckets s tenant ids) (reversal_buckets s tenant ids) es zero_totals)"

text \<open>The columns a rebuild sets, on an existing row or on a new one.\<close>

definition set_balance ::
    "led_env \<Rightarrow> entry_row list \<Rightarrow> balance_totals \<Rightarrow> int \<Rightarrow> int \<Rightarrow> balance_row \<Rightarrow> balance_row" where
  "set_balance env es t negative n r =
     r\<lparr>sb_pending_amount := bt_pending t, sb_available_amount := bt_available t,
       sb_reserved_amount := bt_reserved t, sb_paid_amount := bt_paid t,
       sb_negative_amount := negative, sb_source_entry_count := n,
       sb_last_entry_id := (if es = [] then None else Some (le_id (last es))),
       sb_last_entry_created_at := (if es = [] then None else Some (le_created_at (last es))),
       sb_rebuilt_at := led_rebuild_now env, sb_updated_at := led_rebuild_now env\<rparr>"

definition blank_balance :: "led_env \<Rightarrow> uuid \<Rightarrow> uuid \<Rightarrow> string \<Rightarrow> balance_row" where
  "blank_balance env tenant seller cur =
     \<lparr>sb_id = led_balance_id env, sb_tenant_id = tenant, sb_seller_id = seller, sb_currency_code = cur,
      sb_pending_amount = 0, sb_available_amount = 0, sb_reserved_amount = 0, sb_paid_amount = 0,
      sb_negative_amount = 0, sb_source_entry_count = 0, sb_last_entry_id = None,
      sb_last_entry_created_at = None, sb_rebuilt_at = 0, sb_updated_at = 0\<rparr>"

text \<open>An update addresses the row by its primary key and fails when there is none.\<close>

definition update_balance ::
    "(balance_row \<Rightarrow> balance_row) \<Rightarrow> balance_row \<Rightarrow> led_store \<Rightarrow> led_error + led_store \<times> balance_row" where
  "update_balance set_row m s =
     (case List.find (\<lambda>r. sb_id r = sb_id m) (balance_rows s) of
        Some r \<Rightarrow> Inr (s\<lparr>balance_rows := map (\<lambda>r. if sb_id r = sb_id m then set_row r else r) (balance_rows s)\<rparr>,
                       set_row r)
      | None \<Rightarrow> Inl (LedDatabase ''record not updated''))"

definition write_balance ::
    "led_env \<Rightarrow> led_store \<Rightarrow> uuid \<Rightarrow> uuid \<Rightarrow> string \<Rightarrow> (balance_row \<Rightarrow> balance_row) \<Rightarrow> led_store
     \<Rightarrow> led_error + led_store \<times> balance_row" where
  "write_balance env seen tenant seller cur set_row s =
     (case find_balance seen tenant seller cur of
        Some m \<Rightarrow> update_balance set_row m s
      | None \<Rightarrow>
          (let row = set_row (blank_balance env tenant seller cur) in
           case insert_unique balance_clash row (balance_rows s) of
             Some rows \<Rightarrow> Inr (s\<lparr>balance_rows := rows\<rparr>, row)
           | None \<Rightarrow>
               (case find_balance s tenant seller cur of
                  Some m \<Rightarrow> update_balance set_row m s
                | None \<Rightarrow> Inl (LedDatabase ''unique constraint''))))"

definition current_balance :: "balance_totals \<Rightarrow> led_error + int" where
  "current_balance t =
     ok_or (Option.bind (checked_i64 (bt_pending t + bt_available t)) (\<lambda>v. checked_i64 (v + bt_reserved t)))
       (LedValidation ''seller current balance overflow during rebuild'')"

definition negative_amount_of :: "int \<Rightarrow> led_error + int" where
  "negative_amount_of current =
     (if current < 0
      then ok_or (checked_i64 (- current)) (LedValidation ''seller negative balance overflow during rebuild'')
      else Inr 0)"

definition rebuild_seller_balance_projection ::
    "led_env \<Rightarrow> led_store \<Rightarrow> led_store \<Rightarrow> led_store \<Rightarrow> uuid \<Rightarrow> uuid \<Rightarrow> string \<Rightarrow> led_store \<times> (led_error + balance_view)" where
  "rebuild_seller_balance_projection env read seen s tenant seller currency =
     (case rbind (validate_tenant_id tenant) (\<lambda>_.
           rbind (validate_seller_id seller) (\<lambda>_.
           rbind (led_normalize_currency currency) (\<lambda>cur.
           let es = sorted_payable read tenant seller cur in
           rbind (rebuild_totals read tenant es) (\<lambda>t.
           rbind (ok_or (checked_i64 (int (length es)))
             (LedValidation ''seller balance source entry count exceeds supported range'')) (\<lambda>n.
           rbind (current_balance t) (\<lambda>current.
           rbind (negative_amount_of current) (\<lambda>negative.
           rbind (write_balance env seen tenant seller cur (set_balance env es t negative n) s) (\<lambda>(s', m).
           Inr (s', map_balance (led_print_uuid env) m))))))))) of
        Inl e \<Rightarrow> (s, Inl e)
      | Inr (s', res) \<Rightarrow> (s', res))"

subsection \<open>The sellers of a transaction\<close>

definition payable_scopes :: "tx_view \<Rightarrow> (uuid \<times> string) list" where
  "payable_scopes t = remdups (List.map_filter
     (\<lambda>e. if le_account_code e = SellerPayable
          then map_option (\<lambda>sel. (sel, le_currency_code e)) (le_seller_id e) else None) (lt_entries t))"

fun rebuild_scopes ::
    "led_env \<Rightarrow> uuid \<Rightarrow> (uuid \<times> string) list \<Rightarrow> led_store \<Rightarrow> balance_view list \<Rightarrow> led_store \<times> (led_error + balance_view list)" where
  "rebuild_scopes env tenant [] s vs = (s, Inr vs)"
| "rebuild_scopes env tenant ((seller, cur) # scopes) s vs =
     (case rebuild_seller_balance_projection env s s s tenant seller cur of
        (s', Inl e) \<Rightarrow> (s', Inl e)
      | (s', Inr v) \<Rightarrow> rebuild_scopes env tenant scopes s' (vs @ [v]))"

definition rebuild_seller_balances_for_transaction ::
    "led_env \<Rightarrow> uuid \<Rightarrow> tx_view \<Rightarrow> led_store \<Rightarrow> led_store \<times> (led_error + balance_view list)" where
  "rebuild_seller_balances_for_transaction env tenant t s =
     (case validate_tenant_id tenant of
        Inl e \<Rightarrow> (s, Inl e)
      | Inr _ \<Rightarrow>
          (case rebuild_scopes env tenant (led_scope_order env (payable_scopes t)) s [] of
             (s', Inl e) \<Rightarrow> (s', Inl e)
           | (s', Inr vs) \<Rightarrow> (s', Inr (sort_key bv_seller_id (sort_key bv_currency_code vs)))))"

subsection \<open>The totals are the balances\<close>

lemma map_of_rev_find:
  assumes "\<And>x y. x \<in> set rows \<Longrightarrow> y \<in> set rows \<Longrightarrow> P x \<Longrightarrow> P y \<Longrightarrow> k x = k y \<Longrightarrow> v x = v y"
  shows "map_of (rev (map (\<lambda>x. (k x, v x)) (filter P rows))) i = map_option v (List.find (\<lambda>x. P x \<and> k x = i) rows)"
  using assms
proof (induction rows)
  case (Cons a rows)
  have IH: "map_of (rev (map (\<lambda>x. (k x, v x)) (filter P rows))) i = map_option v (List.find (\<lambda>x. P x \<and> k x = i) rows)"
    using Cons.prems by (intro Cons.IH) auto
  show ?case
  proof (cases "P a \<and> k a = i")
    case True
    have "v y = v a" if "List.find (\<lambda>x. P x \<and> k x = i) rows = Some y" for y
      using that True Cons.prems [of y a] by (auto simp: find_Some_iff)
    then show ?thesis using True by (cases "List.find (\<lambda>x. P x \<and> k x = i) rows") (auto simp: map_add_def IH)
  next
    case False
    then show ?thesis by (auto simp: map_add_def IH split: option.splits)
  qed
qed simp

lemma find_SomeD: "List.find P xs = Some x \<Longrightarrow> x \<in> set xs \<and> P x"
  by (auto simp: find_Some_iff)

lemma find_cong: "(\<And>x. x \<in> set xs \<Longrightarrow> P x = Q x) \<Longrightarrow> List.find P xs = List.find Q xs"
  by (induction xs) auto

lemma explicit_buckets_find:
  assumes "unique_rows bucket_clash (bucket_rows s)" and "i \<in> set ids"
  shows "explicit_buckets s tenant ids i
    = map_option eb_balance_bucket (List.find (\<lambda>b. eb_tenant_id b = tenant \<and> eb_entry_id b = i) (bucket_rows s))"
proof -
  have eq: "x = y" if "x \<in> set (bucket_rows s)" "y \<in> set (bucket_rows s)" "eb_tenant_id x = eb_tenant_id y"
    "eb_entry_id x = eb_entry_id y" for x y
    using bucket_table.unique_eq [OF assms(1) that(1,2)] that(3,4) by (simp add: bucket_clash_def)
  have "explicit_buckets s tenant ids i = map_option eb_balance_bucket (List.find (\<lambda>b. (eb_tenant_id b = tenant
      \<and> eb_entry_id b \<in> set ids) \<and> eb_entry_id b = i) (bucket_rows s))"
    unfolding explicit_buckets_def
    by (rule map_of_rev_find) (use eq in metis)
  also have "\<dots> = map_option eb_balance_bucket (List.find (\<lambda>b. eb_tenant_id b = tenant \<and> eb_entry_id b = i) (bucket_rows s))"
    using assms(2) by (intro arg_cong [where f = "map_option eb_balance_bucket"] find_cong) auto
  finally show ?thesis .
qed

lemma reversal_buckets_find:
  assumes "unique_rows reversal_line_clash (reversal_line_rows s)" and "i \<in> set ids"
  shows "reversal_buckets s tenant ids i
    = map_option (\<lambda>l. the (rl_seller_balance_bucket l)) (List.find (\<lambda>l. rl_tenant_id l = tenant \<and> rl_entry_id l = i
        \<and> rl_seller_balance_bucket l \<noteq> None) (reversal_line_rows s))"
proof -
  have eq: "x = y" if "x \<in> set (reversal_line_rows s)" "y \<in> set (reversal_line_rows s)" "rl_tenant_id x = rl_tenant_id y"
    "rl_entry_id x = rl_entry_id y" for x y
    using reversal_line_table.unique_eq [OF assms(1) that(1,2)] that(3,4) by (simp add: reversal_line_clash_def)
  let ?P = "\<lambda>l. rl_seller_balance_bucket l \<noteq> None \<and> rl_tenant_id l = tenant \<and> rl_entry_id l \<in> set ids"
  have "List.map_filter (\<lambda>l. map_option (\<lambda>b. (rl_entry_id l, b)) (rl_seller_balance_bucket l))
      (filter (\<lambda>l. rl_tenant_id l = tenant \<and> rl_entry_id l \<in> set ids) (reversal_line_rows s))
    = map (\<lambda>l. (rl_entry_id l, the (rl_seller_balance_bucket l))) (filter ?P (reversal_line_rows s))"
    by (auto simp: List.map_filter_def intro!: map_cong filter_cong)
  then have "reversal_buckets s tenant ids i = map_option (\<lambda>l. the (rl_seller_balance_bucket l))
      (List.find (\<lambda>l. ?P l \<and> rl_entry_id l = i) (reversal_line_rows s))"
    unfolding reversal_buckets_def
    by (simp only:) (rule map_of_rev_find, use eq in metis)
  also have "\<dots> = map_option (\<lambda>l. the (rl_seller_balance_bucket l)) (List.find (\<lambda>l. rl_tenant_id l = tenant
      \<and> rl_entry_id l = i \<and> rl_seller_balance_bucket l \<noteq> None) (reversal_line_rows s))"
    using assms(2) by (intro arg_cong [where f = "map_option (\<lambda>l. the (rl_seller_balance_bucket l))"] find_cong) auto
  finally show ?thesis .
qed

lemma parse_bucket_text [simp]: "parse_bucket (bucket_as_str b) = Inr b"
  by (simp add: parse_bucket_def bucket_text.parse_render)

lemma parse_bucket_Inr: "parse_bucket t = Inr b \<Longrightarrow> t = bucket_as_str b"
  by (auto simp: parse_bucket_def bucket_parse_def split: if_splits)

lemma entry_bucket_class:
  assumes "tables_ok s" and "i \<in> set ids"
  shows "entry_bucket (explicit_buckets s tenant ids) (reversal_buckets s tenant ids) i
    = parse_bucket (class_of (bucket_rows s) (reversal_line_rows s) tenant i)"
proof -
  have u: "unique_rows bucket_clash (bucket_rows s)" "unique_rows reversal_line_clash (reversal_line_rows s)"
    using assms(1) by (simp_all add: tables_ok_def)
  have "parse_bucket ''pending'' = Inr PendingBucket" using parse_bucket_text [of PendingBucket] by simp
  then show ?thesis
    unfolding entry_bucket_def explicit_buckets_find [OF u(1) assms(2)] reversal_buckets_find [OF u(2) assms(2)]
      class_of_def
    by (auto split: option.splits simp del: not_None_eq)
qed

lemma class_of_text:
  assumes "classes_ok bs ls"
  shows "class_of bs ls tenant i \<in> range bucket_as_str"
proof -
  have "the (rl_seller_balance_bucket l) \<in> range bucket_as_str" if "l \<in> set ls" "rl_seller_balance_bucket l \<noteq> None" for l
    using assms that by (auto simp: classes_ok_def)
  moreover have "eb_balance_bucket b \<in> range bucket_as_str" if "b \<in> set bs" for b
    using assms that by (simp add: classes_ok_def)
  moreover have "bucket_as_str PendingBucket \<in> range bucket_as_str" by (rule rangeI)
  ultimately show ?thesis
    unfolding class_of_def by (auto split: option.splits dest!: find_SomeD simp del: not_None_eq bucket_as_str.simps)
qed

lemma totals_amount_set [simp]: "totals_amount (totals_set b v t) b' = (if b' = b then v else totals_amount t b')"
  by (cases b; cases b') simp_all

lemma totals_amount_zero [simp]: "totals_amount zero_totals b = 0"
  by (cases b) (simp_all add: zero_totals_def)

lemma direction_parse_Some: "direction_parse v = Some d \<longleftrightarrow> v = direction_as_str d"
  by (cases d) (auto simp: direction_parse_def)

lemma totals_apply_Inr:
  assumes "totals_apply neg ovf t b (dir :: direction) (le_amount e) = Inr t'" and "le_direction e = direction_as_str dir"
  shows "totals_amount t' b' = totals_amount t b' + (if b' = b then signed_amount e else 0)"
  using assms by (cases dir) (auto simp: totals_apply_def signed_amount_def)

lemma sum_entries_Inr:
  assumes "sum_entries (totals_apply neg ovf) explicit reversal es t = Inr t'"
  shows "totals_amount t' b = totals_amount t b
    + sum_list (map signed_amount (filter (\<lambda>e. entry_bucket explicit reversal (le_id e) = Inr b) es))"
  using assms
proof (induction es arbitrary: t)
  case (Cons e es)
  from Cons.prems obtain dir c t1 where e: "le_direction e = direction_as_str dir"
    "entry_bucket explicit reversal (le_id e) = Inr c" "totals_apply neg ovf t c dir (le_amount e) = Inr t1"
    and rest: "sum_entries (totals_apply neg ovf) explicit reversal es t1 = Inr t'"
    by (auto simp: direction_parse_Some)
  show ?case using Cons.IH [OF rest] totals_apply_Inr [OF e(3,1), of b] e(2) by (auto simp del: direction_as_str.simps)
qed simp

lemma sum_list_perm:
  "mset xs = mset ys \<Longrightarrow> sum_list (map f (filter P xs)) = (sum_list (map f (filter P ys)) :: int)"
  by (metis mset_filter mset_map sum_mset_sum_list)

lemma payable_filter: "payable_entries s tenant seller cur = filter (payable_to tenant seller cur) (entry_rows s)"
  unfolding payable_entries_def by (rule filter_cong) (simp_all add: payable_to_def)

lemma totals_are_balance:
  assumes "tables_ok s" and "mset es = mset (payable_entries s tenant seller cur)"
    and "sum_entries (totals_apply neg ovf) (explicit_buckets s tenant (map le_id es))
        (reversal_buckets s tenant (map le_id es)) es zero_totals = Inr t"
  shows "totals_amount t b = seller_balance s tenant seller cur b"
proof -
  let ?cls = "\<lambda>e. class_of (bucket_rows s) (reversal_line_rows s) tenant (le_id e)"
  have "totals_amount t b = sum_list (map signed_amount (filter (\<lambda>e. entry_bucket
      (explicit_buckets s tenant (map le_id es)) (reversal_buckets s tenant (map le_id es)) (le_id e) = Inr b) es))"
    using sum_entries_Inr [OF assms(3), of b] by simp
  also have "\<dots> = sum_list (map signed_amount (filter (\<lambda>e. ?cls e = bucket_as_str b) es))"
    using entry_bucket_class [OF assms(1)] parse_bucket_Inr
    by (intro arg_cong [where f = "\<lambda>xs. sum_list (map signed_amount xs)"] filter_cong) auto
  also have "\<dots> = sum_list (map signed_amount (filter (\<lambda>e. ?cls e = bucket_as_str b)
      (payable_entries s tenant seller cur)))"
    by (rule sum_list_perm [OF assms(2)])
  also have "\<dots> = seller_balance s tenant seller cur b"
    by (simp add: payable_filter seller_balance_def balance_of_def conj_commute)
  finally show ?thesis .
qed

subsection \<open>The projection row\<close>

definition same_scope :: "balance_row \<Rightarrow> balance_row \<Rightarrow> bool" where
  "same_scope a b \<longleftrightarrow> sb_id a = sb_id b \<and> sb_tenant_id a = sb_tenant_id b \<and> sb_seller_id a = sb_seller_id b
     \<and> sb_currency_code a = sb_currency_code b"

lemma set_balance_scope [simp]: "same_scope (set_balance env es t neg n r) r"
  by (simp add: same_scope_def set_balance_def)

lemma unique_balance_map:
  assumes "unique_rows balance_clash rows" and "\<And>r. same_scope (f r) r"
  shows "unique_rows balance_clash (map f rows)"
proof -
  have "balance_clash (f a) (f b) = balance_clash a b" for a b
    using assms(2) [of a] assms(2) [of b] by (simp add: balance_clash_def same_scope_def)
  then show ?thesis using assms(1) by (simp add: unique_rows_def sorted_wrt_map)
qed

lemma find_balance_map:
  assumes "\<And>r. same_scope (f r) r"
  shows "find_balance (s\<lparr>balance_rows := map f (balance_rows s)\<rparr>) tenant seller cur
    = map_option f (find_balance s tenant seller cur)"
proof -
  have "List.find (\<lambda>r. sb_tenant_id r = tenant \<and> sb_seller_id r = seller \<and> sb_currency_code r = cur) (map f rows)
      = map_option f (List.find (\<lambda>r. sb_tenant_id r = tenant \<and> sb_seller_id r = seller \<and> sb_currency_code r = cur) rows)"
    for rows using assms by (induction rows) (auto simp: same_scope_def)
  then show ?thesis by (simp add: find_balance_def)
qed

definition projection_written ::
    "(balance_row \<Rightarrow> balance_row) \<Rightarrow> uuid \<Rightarrow> uuid \<Rightarrow> string \<Rightarrow> led_store \<Rightarrow> led_store \<Rightarrow> balance_row \<Rightarrow> bool" where
  "projection_written set_row tenant seller cur s s' m \<longleftrightarrow>
     (\<exists>r. m = set_row r) \<and> find_balance s' tenant seller cur = Some m
     \<and> s' = s\<lparr>balance_rows := balance_rows s'\<rparr> \<and> unique_rows balance_clash (balance_rows s')
     \<and> (\<forall>t sel c. (t, sel, c) \<noteq> (tenant, seller, cur) \<longrightarrow> find_balance s' t sel c = find_balance s t sel c)"

lemma update_balance_Inr:
  assumes "unique_rows balance_clash (balance_rows s)" and keep: "\<And>r. same_scope (set_row r) r"
    and "find_balance s tenant seller cur = Some r" and "sb_id r = sb_id m"
    and "update_balance set_row m s = Inr (s', m')"
  shows "projection_written set_row tenant seller cur s s' m'"
proof -
  let ?f = "\<lambda>r. if sb_id r = sb_id m then set_row r else r"
  have r: "r \<in> set (balance_rows s)" "sb_tenant_id r = tenant" "sb_seller_id r = seller" "sb_currency_code r = cur"
    using find_SomeD [OF assms(3) [unfolded find_balance_def]] by simp_all
  have find: "List.find (\<lambda>r. sb_id r = sb_id m) (balance_rows s) = Some r"
    by (rule balance_table.unique_find [OF assms(1) r(1)]) (use assms(4) in \<open>auto simp: balance_clash_def\<close>)
  then have out: "s' = s\<lparr>balance_rows := map ?f (balance_rows s)\<rparr>" "m' = set_row r"
    using assms(5) by (simp_all add: update_balance_def)
  have keep': "same_scope (?f r) r" for r using keep by (simp add: same_scope_def)
  have same: "find_balance s' t sel c = map_option ?f (find_balance s t sel c)" for t sel c
    unfolding out(1) by (rule find_balance_map [OF keep'])
  have "map_option ?f (find_balance s t sel c) = find_balance s t sel c" if "(t, sel, c) \<noteq> (tenant, seller, cur)" for t sel c
  proof (cases "find_balance s t sel c")
    case (Some q)
    then have q: "q \<in> set (balance_rows s)" "sb_tenant_id q = t" "sb_seller_id q = sel" "sb_currency_code q = c"
      using find_SomeD [OF Some [unfolded find_balance_def]] by simp_all
    have "sb_id q \<noteq> sb_id m"
      using balance_table.unique_eq [OF assms(1) q(1) r(1)] q r that assms(4) by (auto simp: balance_clash_def)
    then show ?thesis using Some by simp
  qed simp
  then show ?thesis
    using same assms(3,4) out(2) unique_balance_map [OF assms(1) keep']
    by (auto simp: projection_written_def out(1))
qed

lemma insert_balance_written:
  assumes "unique_rows balance_clash (balance_rows s)" and "same_scope (set_row r) r"
    and "sb_tenant_id r = tenant" "sb_seller_id r = seller" "sb_currency_code r = cur"
    and "insert_unique balance_clash (set_row r) (balance_rows s) = Some rows"
  shows "projection_written set_row tenant seller cur s (s\<lparr>balance_rows := rows\<rparr>) (set_row r)"
proof -
  have rows: "rows = balance_rows s @ [set_row r]" "\<forall>y \<in> set (balance_rows s). \<not> balance_clash (set_row r) y"
    using assms(6) by (simp_all add: balance_table.insert_unique_Some)
  have "find_balance s tenant seller cur = None"
    using rows(2) assms(2-5) by (auto simp: find_balance_def find_None_iff balance_clash_def same_scope_def)
  moreover have "find_balance (s\<lparr>balance_rows := rows\<rparr>) t sel c = (case find_balance s t sel c of
      Some x \<Rightarrow> Some x | None \<Rightarrow> if (t, sel, c) = (tenant, seller, cur) then Some (set_row r) else None)" for t sel c
    using assms(2-5) by (auto simp: find_balance_def rows(1) find_append same_scope_def split: option.splits)
  ultimately show ?thesis
    using balance_table.unique_insert [OF assms(1,6)] by (auto simp: projection_written_def split: option.splits)
qed

lemma write_balance_Inr:
  assumes "unique_rows balance_clash (balance_rows s)" and keep: "\<And>r. same_scope (set_row r) r"
    and "\<And>m. find_balance seen tenant seller cur = Some m
      \<Longrightarrow> \<exists>r. find_balance s tenant seller cur = Some r \<and> sb_id r = sb_id m"
    and "write_balance env seen tenant seller cur set_row s = Inr (s', m')"
  shows "projection_written set_row tenant seller cur s s' m'"
proof (cases "find_balance seen tenant seller cur")
  case (Some m)
  with assms(3) obtain r where r: "find_balance s tenant seller cur = Some r" "sb_id r = sb_id m" by blast
  show ?thesis
    by (rule update_balance_Inr [OF assms(1) keep r]) (use assms(4) Some in \<open>simp add: write_balance_def\<close>)
next
  case None
  let ?r = "blank_balance env tenant seller cur"
  show ?thesis
  proof (cases "insert_unique balance_clash (set_row ?r) (balance_rows s)")
    case (Some rows)
    from insert_balance_written [where set_row = set_row and r = ?r and tenant = tenant and seller = seller and cur = cur,
        OF assms(1) keep _ _ _ Some] None Some assms(4) show ?thesis
      by (auto simp: write_balance_def Let_def blank_balance_def)
  next
    case ins: None
    with None assms(4) obtain m where m: "find_balance s tenant seller cur = Some m" "update_balance set_row m s = Inr (s', m')"
      by (auto simp: write_balance_def Let_def split: option.splits)
    show ?thesis by (rule update_balance_Inr [OF assms(1) keep m(1) refl m(2)])
  qed
qed

subsection \<open>The projection refines the balance\<close>

lemma mset_sorted_payable [simp]: "mset (sorted_payable s tenant seller cur) = mset (payable_entries s tenant seller cur)"
  by (simp add: sorted_payable_def)

lemma rebuild_totals_balance:
  assumes "tables_ok s" and "rebuild_totals s tenant (sorted_payable s tenant seller cur) = Inr t"
  shows "totals_amount t b = seller_balance s tenant seller cur b"
  by (rule totals_are_balance [OF assms(1) mset_sorted_payable])
    (use assms(2) in \<open>simp add: rebuild_totals_def balance_totals_apply_def Let_def\<close>)

lemma current_balance_Inr: "current_balance t = Inr c \<Longrightarrow> c = bt_pending t + bt_available t + bt_reserved t"
  by (auto simp: current_balance_def Option.bind_eq_Some_conv)

lemma negative_amount_Inr: "negative_amount_of c = Inr n \<Longrightarrow> n = max 0 (- c)"
  by (auto simp: negative_amount_of_def split: if_splits)

text \<open>What a successful rebuild leaves: the row of the scope says what the read entries sum to.\<close>

lemma rebuild_Inr:
  assumes "tables_ok read" and "tables_ok s"
    and "\<And>c m. find_balance seen tenant seller c = Some m
      \<Longrightarrow> \<exists>r. find_balance s tenant seller c = Some r \<and> sb_id r = sb_id m"
    and "rebuild_seller_balance_projection env read seen s tenant seller currency = (s', Inr v)"
  shows "\<exists>c m t neg. led_normalize_currency currency = Inr c \<and> tenant \<noteq> 0 \<and> seller \<noteq> 0
    \<and> projection_written (set_balance env (sorted_payable read tenant seller c) t neg
         (int (length (payable_entries read tenant seller c)))) tenant seller c s s' m
    \<and> map_balance (led_print_uuid env) m = Inr v
    \<and> (\<forall>b. totals_amount t b = seller_balance read tenant seller c b)
    \<and> neg = max 0 (- (seller_balance read tenant seller c PendingBucket
         + seller_balance read tenant seller c AvailableBucket + seller_balance read tenant seller c ReservedBucket))"
proof -
  obtain c t n cb neg m where nil: "tenant \<noteq> 0" "seller \<noteq> 0" and c: "led_normalize_currency currency = Inr c"
    and t: "rebuild_totals read tenant (sorted_payable read tenant seller c) = Inr t"
    and n: "n = int (length (sorted_payable read tenant seller c))"
    and cb: "current_balance t = Inr cb" and neg: "negative_amount_of cb = Inr neg"
    and w: "write_balance env seen tenant seller c (set_balance env (sorted_payable read tenant seller c) t neg n) s
      = Inr (s', m)" and v: "map_balance (led_print_uuid env) m = Inr v"
    using assms(4)
    by (auto simp: rebuild_seller_balance_projection_def Let_def validate_tenant_id_def validate_seller_id_def
        split: sum.splits prod.splits)
  have bal: "totals_amount t b = seller_balance read tenant seller c b" for b
    by (rule rebuild_totals_balance [OF assms(1) t])
  have len: "n = int (length (payable_entries read tenant seller c))"
    using n by (simp add: sorted_payable_def)
  have neg': "neg = max 0 (- (seller_balance read tenant seller c PendingBucket
      + seller_balance read tenant seller c AvailableBucket + seller_balance read tenant seller c ReservedBucket))"
    using negative_amount_Inr [OF neg] current_balance_Inr [OF cb]
      bal [of PendingBucket] bal [of AvailableBucket] bal [of ReservedBucket] by simp
  have u: "unique_rows balance_clash (balance_rows s)" using assms(2) by (simp add: tables_ok_def)
  have "projection_written (set_balance env (sorted_payable read tenant seller c) t neg n) tenant seller c s s' m"
    by (rule write_balance_Inr [OF u set_balance_scope assms(3) w])
  then show ?thesis using nil c bal neg' v unfolding len by blast
qed

text \<open>
  C11: the balance projection refines the abstract account of the seller. A successful rebuild
  stores, and answers, in each bucket exactly the signed sum of the seller's payable entries in
  the requested currency, the shortfall of what the seller still holds, and the number of the
  entries; reading the projection afterwards gives that answer; entries and the projections of
  others are untouched. The amounts are those of the store the entries were read from: a rebuild
  that is overtaken between its read and its write puts the older amounts back.
\<close>

theorem projection_refines:
  assumes "tables_ok read" and "tables_ok s"
    and "\<forall>c m. find_balance seen tenant seller c = Some m
      \<longrightarrow> (\<exists>r. find_balance s tenant seller c = Some r \<and> sb_id r = sb_id m)"
    and "rebuild_seller_balance_projection env read seen s tenant seller currency = (s', Inr v)"
  shows "\<exists>c. led_normalize_currency currency = Inr c
    \<and> bv_pending_amount v = seller_balance read tenant seller c PendingBucket
    \<and> bv_available_amount v = seller_balance read tenant seller c AvailableBucket
    \<and> bv_reserved_amount v = seller_balance read tenant seller c ReservedBucket
    \<and> bv_paid_amount v = seller_balance read tenant seller c PaidBucket
    \<and> bv_negative_amount v = max 0 (- (bv_pending_amount v + bv_available_amount v + bv_reserved_amount v))
    \<and> bv_source_entry_count v = length (payable_entries read tenant seller c)
    \<and> read_seller_balance_projection (led_print_uuid env) s' tenant seller currency = Inr v
    \<and> s' = s\<lparr>balance_rows := balance_rows s'\<rparr> \<and> tables_ok s'
    \<and> (\<forall>t sel d. (t, sel, d) \<noteq> (tenant, seller, c) \<longrightarrow> find_balance s' t sel d = find_balance s t sel d)"
proof -
  obtain c m t neg where c: "led_normalize_currency currency = Inr c" "tenant \<noteq> 0" "seller \<noteq> 0"
    and w: "projection_written (set_balance env (sorted_payable read tenant seller c) t neg
         (int (length (payable_entries read tenant seller c)))) tenant seller c s s' m"
    and v: "map_balance (led_print_uuid env) m = Inr v"
    and t: "\<forall>b. totals_amount t b = seller_balance read tenant seller c b"
    and neg: "neg = max 0 (- (seller_balance read tenant seller c PendingBucket
         + seller_balance read tenant seller c AvailableBucket + seller_balance read tenant seller c ReservedBucket))"
    using rebuild_Inr [OF assms(1,2) assms(3) [rule_format] assms(4)] by blast
  have frame: "find_balance s' tenant seller c = Some m" "s' = s\<lparr>balance_rows := balance_rows s'\<rparr>"
    "unique_rows balance_clash (balance_rows s')"
    "\<forall>t sel d. (t, sel, d) \<noteq> (tenant, seller, c) \<longrightarrow> find_balance s' t sel d = find_balance s t sel d"
    using w by (auto simp: projection_written_def)
  obtain r where m: "m = set_balance env (sorted_payable read tenant seller c) t neg
      (int (length (payable_entries read tenant seller c))) r" using w by (auto simp: projection_written_def)
  have amounts: "bv_pending_amount v = bt_pending t" "bv_available_amount v = bt_available t"
    "bv_reserved_amount v = bt_reserved t" "bv_paid_amount v = bt_paid t" "bv_negative_amount v = neg"
    "bv_source_entry_count v = length (payable_entries read tenant seller c)"
    using v by (auto simp: map_balance_def m set_balance_def)
  have "tables_ok s'"
    using assms(2) frame(3) unfolding tables_ok_def by (subst (1 2 3 4 5 6 7 9) frame(2)) simp
  moreover have "read_seller_balance_projection (led_print_uuid env) s' tenant seller currency = Inr v"
    using c v frame(1) by (simp add: read_seller_balance_projection_def validate_tenant_id_def validate_seller_id_def)
  ultimately show ?thesis
    using c(1) frame amounts neg t [rule_format, of PendingBucket] t [rule_format, of AvailableBucket]
      t [rule_format, of ReservedBucket] t [rule_format, of PaidBucket]
    by (intro exI [of _ c]) simp
qed

subsection \<open>A rebuild succeeds\<close>

definition spread :: "balance_totals \<Rightarrow> int" where
  "spread t = \<bar>bt_pending t\<bar> + \<bar>bt_available t\<bar> + \<bar>bt_reserved t\<bar> + \<bar>bt_paid t\<bar>"

lemma spread_amount: "\<bar>totals_amount t b\<bar> \<le> spread t"
  by (cases b) (simp_all add: spread_def)

lemma spread_set: "spread (totals_set b v t) + \<bar>totals_amount t b\<bar> = spread t + \<bar>v\<bar>"
  by (cases b) (simp_all add: spread_def)

lemma sum_entries_succeeds:
  assumes "\<forall>e \<in> set es. 0 \<le> le_amount e \<and> le_direction e \<in> range direction_as_str
      \<and> (\<exists>b. entry_bucket explicit reversal (le_id e) = Inr b)"
    and "spread t + sum_list (map le_amount es) \<le> i64_max"
  shows "\<exists>t'. sum_entries (totals_apply neg ovf) explicit reversal es t = Inr t' \<and> spread t' \<le> i64_max"
  using assms
proof (induction es arbitrary: t)
  case Nil
  then show ?case by simp
next
  case (Cons e es)
  obtain dir c where e: "0 \<le> le_amount e" "le_direction e = direction_as_str dir"
    "entry_bucket explicit reversal (le_id e) = Inr c" using Cons.prems(1) by auto
  have rest: "0 \<le> sum_list (map le_amount es)" using Cons.prems(1) by (intro sum_list_nonneg) auto
  let ?v = "case dir of Credit \<Rightarrow> totals_amount t c + le_amount e | Debit \<Rightarrow> totals_amount t c - le_amount e"
  have v: "\<bar>?v\<bar> \<le> \<bar>totals_amount t c\<bar> + le_amount e" using e(1) by (cases dir) auto
  then have v': "spread (totals_set c ?v t) + sum_list (map le_amount es) \<le> i64_max"
    using spread_set [of c ?v t] Cons.prems(2) by simp
  have "\<bar>?v\<bar> \<le> i64_max" using spread_amount [of "totals_set c ?v t" c] v' rest by simp
  then have "in_i64 ?v" by (auto simp: i64_arith)
  then have a: "totals_apply neg ovf t c dir (le_amount e) = Inr (totals_set c ?v t)"
    using e(1) by (simp add: totals_apply_def)
  obtain t' where "sum_entries (totals_apply neg ovf) explicit reversal es (totals_set c ?v t) = Inr t'
      \<and> spread t' \<le> i64_max"
    using Cons.IH [OF _ v'] Cons.prems(1) by auto
  moreover have "direction_parse (le_direction e) = Some dir" using e(2) by (simp add: direction_parse_Some)
  ultimately show ?case using e(3) a by auto
qed

lemma rebuild_totals_succeeds:
  assumes "books_ok s" and "sum_list (map le_amount (payable_entries s tenant seller cur)) \<le> i64_max"
  shows "\<exists>t. rebuild_totals s tenant (sorted_payable s tenant seller cur) = Inr t \<and> spread t \<le> i64_max"
proof -
  let ?es = "sorted_payable s tenant seller cur"
  have "mset (map le_amount ?es) = mset (map le_amount (payable_entries s tenant seller cur))" by simp
  then have sum: "sum_list (map le_amount ?es) = sum_list (map le_amount (payable_entries s tenant seller cur))"
    by (metis sum_mset_sum_list)
  have "0 \<le> le_amount e \<and> le_direction e \<in> range direction_as_str
      \<and> (\<exists>b. entry_bucket (explicit_buckets s tenant (map le_id ?es)) (reversal_buckets s tenant (map le_id ?es)) (le_id e) = Inr b)"
    if "e \<in> set ?es" for e
  proof -
    have "e \<in> set (entry_rows s)" using that by (simp add: sorted_payable_def payable_entries_def)
    then have ok: "entry_ok s e" using assms(1) by (simp add: books_ok_def)
    have "class_of (bucket_rows s) (reversal_line_rows s) tenant (le_id e) \<in> range bucket_as_str"
      using assms(1) by (intro class_of_text) (simp add: books_ok_def refs_ok_def)
    then obtain b where "class_of (bucket_rows s) (reversal_line_rows s) tenant (le_id e) = bucket_as_str b" by blast
    then have "entry_bucket (explicit_buckets s tenant (map le_id ?es)) (reversal_buckets s tenant (map le_id ?es)) (le_id e)
        = Inr b"
      using entry_bucket_class [OF books_ok_tables [OF assms(1)], of "le_id e" "map le_id ?es"] that by simp
    with ok show ?thesis by (auto simp: entry_ok_def)
  qed
  then show ?thesis
    using sum_entries_succeeds [of ?es "explicit_buckets s tenant (map le_id ?es)" "reversal_buckets s tenant (map le_id ?es)"
        zero_totals] assms(2) sum
    by (simp add: rebuild_totals_def balance_totals_apply_def Let_def spread_def zero_totals_def)
qed

lemma write_balance_succeeds:
  assumes "led_balance_id env \<notin> sb_id ` set (balance_rows s)" and keep: "\<And>r. same_scope (set_row r) r"
  shows "\<exists>s' m. write_balance env s tenant seller cur set_row s = Inr (s', m) \<and> (\<exists>r. m = set_row r)"
proof (cases "find_balance s tenant seller cur")
  case None
  have "insert_unique balance_clash (set_row (blank_balance env tenant seller cur)) (balance_rows s)
      = Some (balance_rows s @ [set_row (blank_balance env tenant seller cur)])"
    using None assms(1) keep [of "blank_balance env tenant seller cur"]
    by (auto simp: balance_table.insert_unique_Some balance_clash_def same_scope_def blank_balance_def
        find_balance_def find_None_iff)
  then show ?thesis using None by (auto simp: write_balance_def Let_def)
next
  case (Some m)
  then have "m \<in> set (balance_rows s)" using find_SomeD [OF Some [unfolded find_balance_def]] by simp
  then have "List.find (\<lambda>r. sb_id r = sb_id m) (balance_rows s) \<noteq> None" by (auto simp: find_None_iff)
  then show ?thesis using Some by (auto simp: write_balance_def update_balance_def split: option.splits)
qed

text \<open>
  A rebuild does not fail on sound books. For a tenant, a seller and a currency that are
  well formed it succeeds whenever the amounts of the seller's entries add up within 64 bits; no
  intermediate sum can then overflow, whatever the order of the entries.
\<close>

theorem rebuild_succeeds:
  assumes "books_ok s" and "tenant \<noteq> 0" "seller \<noteq> 0" and "led_normalize_currency currency = Inr c"
    and "sum_list (map le_amount (payable_entries s tenant seller c)) \<le> i64_max"
    and "int (length (payable_entries s tenant seller c)) \<le> i64_max"
    and "led_balance_id env \<notin> sb_id ` set (balance_rows s)"
  shows "is_ok (snd (rebuild_seller_balance_projection env s s s tenant seller currency))"
proof -
  let ?es = "sorted_payable s tenant seller c"
  obtain t where t: "rebuild_totals s tenant ?es = Inr t" "spread t \<le> i64_max"
    using rebuild_totals_succeeds [OF assms(1,5)] by blast
  let ?cb = "bt_pending t + bt_available t + bt_reserved t"
  have "in_i64 (bt_pending t + bt_available t)" "in_i64 ?cb" "in_i64 (- ?cb)"
    using t(2) by (auto simp: spread_def i64_arith)
  then have cb: "current_balance t = Inr ?cb" "negative_amount_of ?cb = Inr (if ?cb < 0 then - ?cb else 0)"
    by (simp_all add: current_balance_def negative_amount_of_def checked_i64_def)
  have len: "length ?es = length (payable_entries s tenant seller c)" by (simp add: sorted_payable_def)
  have "in_i64 (int (length ?es))" using assms(6) len by (simp add: in_i64_def i64_min_def)
  then have n: "ok_or (checked_i64 (int (length ?es))) e = (Inr (int (length ?es)) :: led_error + int)" for e by simp
  obtain s' m r where w: "write_balance env s tenant seller c
      (set_balance env ?es t (if ?cb < 0 then - ?cb else 0) (int (length ?es))) s = Inr (s', m)"
    and m: "m = set_balance env ?es t (if ?cb < 0 then - ?cb else 0) (int (length ?es)) r"
    using write_balance_succeeds [where tenant = tenant and seller = seller and cur = c
        and set_row = "set_balance env ?es t (if ?cb < 0 then - ?cb else 0) (int (length ?es))",
        OF assms(7) set_balance_scope] by blast
  have "rebuild_seller_balance_projection env s s s tenant seller currency = (s', map_balance (led_print_uuid env) m)"
    using assms(2,3)
    by (simp add: rebuild_seller_balance_projection_def validate_tenant_id_def validate_seller_id_def Let_def
        assms(4) t(1) n cb w del: ok_or_eq)
  moreover have "is_ok (map_balance (led_print_uuid env) m)" by (simp add: map_balance_def m set_balance_def)
  ultimately show ?thesis by simp
qed

end
