(* ===== verification/Ledger_Reversal.thy ===== *)
theory Ledger_Reversal
  imports Ledger_Balance
begin

text \<open>
  Refunds and chargebacks (\<open>rustok-marketplace-balance/src/reversal.rs\<close>): a reversal is a new
  balanced transaction whose entries point at the entries of the posted order they take back.
  No entry is taken back beyond its amount, over all reversals together.
\<close>

subsection \<open>Input\<close>

definition is_object :: "json \<Rightarrow> bool" where
  "is_object v = (case v of JObject _ \<Rightarrow> True | _ \<Rightarrow> False)"

fun check_reversal_lines :: "(uuid \<Rightarrow> string) \<Rightarrow> uuid set \<Rightarrow> reversal_line_input list \<Rightarrow> led_error + unit" where
  "check_reversal_lines prn seen [] = Inr ()"
| "check_reversal_lines prn seen (l # ls) =
     rbind (ensure (\<not> (is_nil (rli_assessment_id l) \<or> is_nil (rli_allocation_id l)
         \<or> is_nil (rli_order_line_item_id l) \<or> is_nil (rli_seller_id l)))
       (LedValidation ''reversal line identities must not be nil'')) (\<lambda>_.
     rbind (ensure (rli_assessment_id l \<notin> seen) (LedValidation (''commission assessment ''
       @ prn (rli_assessment_id l) @ '' appears more than once in reversal''))) (\<lambda>_.
     rbind (ensure (\<not> (rli_commission_amount l < 0 \<or> rli_seller_amount l < 0))
       (LedValidation ''reversal line amounts must not be negative'')) (\<lambda>_.
     rbind (ensure (\<not> (rli_commission_amount l = 0 \<and> rli_seller_amount l = 0))
       (LedValidation ''reversal line must reverse a positive amount'')) (\<lambda>_.
     check_reversal_lines prn (insert (rli_assessment_id l) seen) ls))))"

definition validate_reversal_input :: "(uuid \<Rightarrow> string) \<Rightarrow> reversal_input \<Rightarrow> led_error + unit" where
  "validate_reversal_input prn inp =
     rbind (ensure (\<not> (is_nil (rvi_source_id inp) \<or> is_nil (rvi_order_id inp)))
       (LedValidation ''reversal source_id and order_id must not be nil'')) (\<lambda>_.
     rbind (led_normalize_currency (rvi_currency_code inp)) (\<lambda>_.
     rbind (ensure (\<not> (rvi_lines inp = [] \<or> MAX_LEDGER_REVERSAL_LINES < length (rvi_lines inp)))
       (LedValidation ''reversal requires 1 to 500 lines'')) (\<lambda>_.
     rbind (ensure (is_object (rvi_metadata inp)) (LedValidation ''reversal metadata must be an object'')) (\<lambda>_.
     check_reversal_lines prn {} (rvi_lines inp)))))"

fun reversal_sum :: "reversal_line_input list \<Rightarrow> int \<Rightarrow> led_error + int" where
  "reversal_sum [] tot = Inr tot"
| "reversal_sum (l # ls) tot =
     rbind (ok_or (Option.bind (checked_i64 (tot + rli_commission_amount l))
         (\<lambda>v. checked_i64 (v + rli_seller_amount l)))
       (LedValidation ''reversal total overflow'')) (\<lambda>tot.
     reversal_sum ls tot)"

definition reversal_total :: "reversal_line_input list \<Rightarrow> led_error + int" where
  "reversal_total ls =
     rbind (reversal_sum ls 0) (\<lambda>tot.
     rbind (ensure (\<not> tot \<le> 0) (LedValidation ''reversal total must be positive'')) (\<lambda>_.
     Inr tot))"

definition reversal_metadata :: "(uuid \<Rightarrow> string) \<Rightarrow> reversal_input \<Rightarrow> uuid \<Rightarrow> led_error + json" where
  "reversal_metadata prn inp original =
     (case rvi_metadata inp of
        JObject kvs \<Rightarrow> Inr (JObject (btree_insert ''ledger_reversal''
          (JObject [(''kind'', JString (reversal_kind_as_str (rvi_kind inp))),
                    (''source_id'', JString (prn (rvi_source_id inp))),
                    (''reversed_transaction_id'', JString (prn original)),
                    (''line_count'', JNumber (show_nat (length (rvi_lines inp))))]) kvs))
      | _ \<Rightarrow> Inl (LedValidation ''reversal metadata must be an object''))"

subsection \<open>The entries of the posted order\<close>

record originals =
  oa_clearing :: "entry_row option"
  oa_commission :: "entry_row option"
  oa_seller :: "entry_row option"

definition no_originals :: originals where
  "no_originals = \<lparr>oa_clearing = None, oa_commission = None, oa_seller = None\<rparr>"

definition insert_original :: "account_code \<Rightarrow> entry_row \<Rightarrow> originals \<Rightarrow> led_error + originals" where
  "insert_original acc m o0 =
     (let (slot, o1) = (case acc of
          MarketplaceClearing \<Rightarrow> (oa_clearing o0, o0\<lparr>oa_clearing := Some m\<rparr>)
        | PlatformCommissionRevenue \<Rightarrow> (oa_commission o0, o0\<lparr>oa_commission := Some m\<rparr>)
        | SellerPayable \<Rightarrow> (oa_seller o0, o0\<lparr>oa_seller := Some m\<rparr>)) in
      rbind (ensure (slot = None)
        (LedValidation ''original ledger transaction contains duplicate assessment accounts'')) (\<lambda>_.
      Inr o1))"

definition original_direction :: "account_code \<Rightarrow> direction" where
  "original_direction acc = (case acc of MarketplaceClearing \<Rightarrow> Debit | _ \<Rightarrow> Credit)"

fun index_original_entries ::
    "(uuid \<Rightarrow> string) \<Rightarrow> entry_row list \<Rightarrow> (uuid \<rightharpoonup> originals) \<Rightarrow> led_error + (uuid \<rightharpoonup> originals)" where
  "index_original_entries prn [] out = Inr out"
| "index_original_entries prn (m # ms) out =
     rbind (ok_or (account_code_parse (le_account_code m))
       (LedValidation (''unknown original ledger account code `'' @ le_account_code m @ ''`''))) (\<lambda>acc.
     rbind (ensure (direction_parse (le_direction m) = Some (original_direction acc))
       (LedValidation (''original ledger entry '' @ prn (le_id m) @ '' has an invalid direction''))) (\<lambda>_.
     rbind (insert_original acc m (case out (le_assessment_id m) of Some o0 \<Rightarrow> o0 | None \<Rightarrow> no_originals)) (\<lambda>o1.
     index_original_entries prn ms (out(le_assessment_id m \<mapsto> o1)))))"

definition missing_original :: "string \<Rightarrow> led_error" where
  "missing_original account =
     LedValidation (''commission assessment has no original '' @ account @ '' ledger entry'')"

text \<open>The three entries of an assessment, when they are all there and match the line.\<close>

definition validate_original ::
    "(uuid \<Rightarrow> string) \<Rightarrow> originals \<Rightarrow> reversal_line_input \<Rightarrow> uuid \<Rightarrow> string
     \<Rightarrow> led_error + entry_row \<times> entry_row \<times> entry_row" where
  "validate_original prn o0 l order cur =
     rbind (ok_or (oa_clearing o0) (missing_original ''marketplace_clearing'')) (\<lambda>clearing.
     rbind (ok_or (oa_commission o0) (missing_original ''platform_commission_revenue'')) (\<lambda>commission.
     rbind (ok_or (oa_seller o0) (missing_original ''seller_payable'')) (\<lambda>seller.
     rbind (for_each (\<lambda>m. ensure (\<not> (le_order_id m \<noteq> order \<or> le_currency_code m \<noteq> cur
         \<or> le_assessment_id m \<noteq> rli_assessment_id l \<or> le_allocation_id m \<noteq> rli_allocation_id l
         \<or> le_order_line_item_id m \<noteq> rli_order_line_item_id l))
         (LedValidation (''reversal identity does not match original ledger entry '' @ prn (le_id m))))
       [clearing, commission, seller]) (\<lambda>_.
     rbind (ensure (le_seller_id seller = Some (rli_seller_id l))
       (LedValidation ''reversal seller does not match the original seller payable entry'')) (\<lambda>_.
     Inr (clearing, commission, seller))))))"

definition ensure_remaining ::
    "(uuid \<Rightarrow> string) \<Rightarrow> reversal_line_row list \<Rightarrow> uuid \<Rightarrow> entry_row \<Rightarrow> int \<Rightarrow> led_error + unit" where
  "ensure_remaining prn ls tenant original requested =
     rbind (ensure (\<not> requested < 0) (LedValidation ''reversal amount must not be negative'')) (\<lambda>_.
     if requested = 0 then Inr ()
     else
       rbind (checked_sum (LedValidation ''cumulative reversal amount overflow'')
         (map rl_amount (filter (\<lambda>l. rl_tenant_id l = tenant \<and> rl_reversed_entry_id l = le_id original) ls)) 0) (\<lambda>used.
       rbind (ok_or (checked_i64 (le_amount original - used))
         (LedValidation (''original ledger entry '' @ prn (le_id original) @ '' is over-reversed''))) (\<lambda>remaining.
       ensure (\<not> remaining < requested) (LedValidation (''reversal amount '' @ show_int requested
         @ '' exceeds remaining amount '' @ show_int remaining @ '' for ledger entry '' @ prn (le_id original))))))"

subsection \<open>Posting the reversal\<close>

text \<open>\<open>ReversalEntryInput\<close>: one entry to write.\<close>

record reversal_item =
  it_line :: reversal_line_input
  it_reversed_entry :: entry_row
  it_seller_id :: "uuid option"
  it_account_code :: account_code
  it_direction :: direction
  it_amount :: int
  it_bucket :: "bucket option"

text \<open>The entries a line gives, in the order they are written.\<close>

definition reversal_items :: "reversal_line_input \<Rightarrow> entry_row \<times> entry_row \<times> entry_row \<Rightarrow> reversal_item list" where
  "reversal_items l os =
     (case os of (clearing, commission, seller) \<Rightarrow>
       (if 0 < rli_commission_amount l
        then [\<lparr>it_line = l, it_reversed_entry = commission, it_seller_id = None,
               it_account_code = PlatformCommissionRevenue, it_direction = Debit,
               it_amount = rli_commission_amount l, it_bucket = None\<rparr>] else [])
       @ (if 0 < rli_seller_amount l
          then [\<lparr>it_line = l, it_reversed_entry = seller, it_seller_id = Some (rli_seller_id l),
                 it_account_code = SellerPayable, it_direction = Debit,
                 it_amount = rli_seller_amount l, it_bucket = Some (rli_seller_balance_bucket l)\<rparr>] else [])
       @ [\<lparr>it_line = l, it_reversed_entry = clearing, it_seller_id = None,
           it_account_code = MarketplaceClearing, it_direction = Credit,
           it_amount = rli_commission_amount l + rli_seller_amount l, it_bucket = None\<rparr>])"

definition reversal_entry_row :: "led_env \<Rightarrow> uuid \<Rightarrow> reversal_input \<Rightarrow> string \<Rightarrow> nat \<Rightarrow> reversal_item \<Rightarrow> entry_row" where
  "reversal_entry_row env tenant inp cur n it =
     \<lparr>le_id = led_entry_id env n, le_tenant_id = tenant, le_transaction_id = led_tx_id env,
      le_order_id = le_order_id (it_reversed_entry it), le_assessment_id = rli_assessment_id (it_line it),
      le_allocation_id = rli_allocation_id (it_line it),
      le_order_line_item_id = rli_order_line_item_id (it_line it), le_seller_id = it_seller_id it,
      le_account_code = account_code_as_str (it_account_code it),
      le_direction = direction_as_str (it_direction it), le_currency_code = cur, le_amount = it_amount it,
      le_metadata = JObject [(''reversal_id'', JString (led_print_uuid env (led_group_id env))),
                             (''reversal_kind'', JString (reversal_kind_as_str (rvi_kind inp))),
                             (''reversal_source_id'', JString (led_print_uuid env (rvi_source_id inp)))],
      le_created_at = led_row_now env\<rparr>"

definition reversal_link_row :: "led_env \<Rightarrow> uuid \<Rightarrow> nat \<Rightarrow> reversal_item \<Rightarrow> reversal_line_row" where
  "reversal_link_row env tenant n it =
     \<lparr>rl_id = led_link_id env n, rl_tenant_id = tenant, rl_reversal_id = led_group_id env,
      rl_entry_id = led_entry_id env n, rl_reversed_entry_id = le_id (it_reversed_entry it),
      rl_seller_id = it_seller_id it, rl_assessment_id = rli_assessment_id (it_line it),
      rl_allocation_id = rli_allocation_id (it_line it),
      rl_order_line_item_id = rli_order_line_item_id (it_line it),
      rl_account_code = account_code_as_str (it_account_code it),
      rl_direction = direction_as_str (it_direction it),
      rl_seller_balance_bucket = map_option bucket_as_str (it_bucket it),
      rl_amount = it_amount it, rl_created_at = led_row_now env\<rparr>"

definition insert_reversal_entry ::
    "led_env \<Rightarrow> uuid \<Rightarrow> reversal_input \<Rightarrow> string \<Rightarrow> nat \<Rightarrow> reversal_item \<Rightarrow> entry_row list \<times> reversal_line_row list
     \<Rightarrow> led_error + (entry_row list \<times> reversal_line_row list) \<times> reversal_entry_view" where
  "insert_reversal_entry env tenant inp cur n it tables =
     rbind (ensure (\<not> it_amount it \<le> 0) (LedValidation ''reversal entry amount must be positive'')) (\<lambda>_.
     let m = reversal_entry_row env tenant inp cur n it in
     rbind (ok_or (insert_unique entry_clash m (fst tables)) (LedDatabase ''unique constraint'')) (\<lambda>rows.
     rbind (ok_or (insert_unique reversal_line_clash (reversal_link_row env tenant n it) (snd tables))
       (LedDatabase ''unique constraint'')) (\<lambda>lines.
     rbind (map_entry (led_print_uuid env) m) (\<lambda>v.
     Inr ((rows, lines), \<lparr>rve_entry = v, rve_reversed_entry_id = le_id (it_reversed_entry it),
                          rve_seller_balance_bucket = it_bucket it\<rparr>)))))"

fun insert_reversal_entries ::
    "led_env \<Rightarrow> uuid \<Rightarrow> reversal_input \<Rightarrow> string \<Rightarrow> nat \<Rightarrow> reversal_item list
     \<Rightarrow> (entry_row list \<times> reversal_line_row list) \<times> reversal_entry_view list
     \<Rightarrow> led_error + (entry_row list \<times> reversal_line_row list) \<times> reversal_entry_view list" where
  "insert_reversal_entries env tenant inp cur n [] acc = Inr acc"
| "insert_reversal_entries env tenant inp cur n (it # its) (tables, links) =
     rbind (insert_reversal_entry env tenant inp cur n it tables) (\<lambda>(tables, v).
     insert_reversal_entries env tenant inp cur (n + 1) its (tables, links @ [v]))"

fun post_reversal_lines ::
    "led_env \<Rightarrow> uuid \<Rightarrow> reversal_input \<Rightarrow> string \<Rightarrow> (uuid \<rightharpoonup> originals) \<Rightarrow> nat \<Rightarrow> reversal_line_input list
     \<Rightarrow> (entry_row list \<times> reversal_line_row list) \<times> reversal_entry_view list
     \<Rightarrow> led_error + (entry_row list \<times> reversal_line_row list) \<times> reversal_entry_view list" where
  "post_reversal_lines env tenant inp cur os n [] acc = Inr acc"
| "post_reversal_lines env tenant inp cur os n (l # ls) (tables, links) =
     rbind (ok_or (os (rli_assessment_id l)) (LedValidation (''commission assessment ''
       @ led_print_uuid env (rli_assessment_id l) @ '' has no original ledger entries''))) (\<lambda>o0.
     rbind (validate_original (led_print_uuid env) o0 l (rvi_order_id inp) cur) (\<lambda>(clearing, commission, seller).
     rbind (ok_or (checked_i64 (rli_commission_amount l + rli_seller_amount l))
       (LedValidation ''reversal line total overflow'')) (\<lambda>clearing_amount.
     rbind (ensure_remaining (led_print_uuid env) (snd tables) tenant clearing clearing_amount) (\<lambda>_.
     rbind (ensure_remaining (led_print_uuid env) (snd tables) tenant commission (rli_commission_amount l)) (\<lambda>_.
     rbind (ensure_remaining (led_print_uuid env) (snd tables) tenant seller (rli_seller_amount l)) (\<lambda>_.
     let its = reversal_items l (clearing, commission, seller) in
     rbind (insert_reversal_entries env tenant inp cur n its (tables, links)) (\<lambda>acc.
     post_reversal_lines env tenant inp cur os (n + length its) ls acc)))))))"

definition reversal_tx_row :: "led_env \<Rightarrow> uuid \<Rightarrow> reversal_input \<Rightarrow> string \<Rightarrow> int \<Rightarrow> json \<Rightarrow> tx_row" where
  "reversal_tx_row env tenant inp cur tot md =
     \<lparr>lt_id = led_tx_id env, lt_tenant_id = tenant, lt_source_kind = reversal_source_kind (rvi_kind inp),
      lt_source_id = rvi_source_id inp, lt_order_id = rvi_order_id inp, lt_currency_code = cur,
      lt_debit_total_amount = tot, lt_credit_total_amount = tot,
      lt_status = tx_status_as_str TxPosted, lt_posted_at = rvi_reversed_at inp, lt_metadata = md,
      lt_created_at = led_row_now env\<rparr>"

definition reversal_row_of :: "led_env \<Rightarrow> uuid \<Rightarrow> reversal_input \<Rightarrow> string \<Rightarrow> int \<Rightarrow> uuid \<Rightarrow> reversal_row" where
  "reversal_row_of env tenant inp cur tot original =
     \<lparr>rv_id = led_group_id env, rv_tenant_id = tenant, rv_transaction_id = led_tx_id env,
      rv_reversed_transaction_id = original, rv_reversal_kind = reversal_kind_as_str (rvi_kind inp),
      rv_source_id = rvi_source_id inp, rv_order_id = rvi_order_id inp, rv_currency_code = cur,
      rv_total_amount = tot, rv_reversed_at = rvi_reversed_at inp, rv_metadata = rvi_metadata inp,
      rv_created_at = led_row_now env\<rparr>"

text \<open>The stable order of the entries, applied to the entries and to the links.\<close>

definition sort_reversal_by :: "('a \<Rightarrow> entry_view) \<Rightarrow> 'a list \<Rightarrow> 'a list" where
  "sort_reversal_by f xs =
     sort_key (\<lambda>x. le_order_line_item_id (f x)) (sort_key (\<lambda>x. le_assessment_id (f x))
       (sort_key (\<lambda>x. account_code_as_str (le_account_code (f x)))
         (sort_key (\<lambda>x. direction_as_str (le_direction (f x))) xs)))"

definition tx_entries :: "led_store \<Rightarrow> uuid \<Rightarrow> uuid \<Rightarrow> entry_row list" where
  "tx_entries s tenant tx =
     sort_key le_id (filter (\<lambda>e. le_tenant_id e = tenant \<and> le_transaction_id e = tx) (entry_rows s))"

definition post_reversal_in_transaction ::
    "led_env \<Rightarrow> uuid \<Rightarrow> reversal_input \<Rightarrow> led_store \<Rightarrow> led_error + led_store \<times> led_response" where
  "post_reversal_in_transaction env tenant inp tx =
     rbind (led_normalize_currency (rvi_currency_code inp)) (\<lambda>cur.
     rbind (ok_or (find_order_tx tx tenant (rvi_order_id inp)) (TransactionNotFound (rvi_order_id inp))) (\<lambda>original.
     rbind (ensure (\<not> (lt_order_id original \<noteq> rvi_order_id inp \<or> lt_currency_code original \<noteq> cur))
       (LedValidation ''reversal order or currency does not match the original ledger transaction'')) (\<lambda>_.
     rbind (ensure (\<not> rvi_reversed_at inp < lt_posted_at original)
       (LedValidation ''reversed_at must not be earlier than the original posting'')) (\<lambda>_.
     rbind (ensure (\<not> list_ex (\<lambda>r. rv_tenant_id r = tenant
         \<and> rv_reversal_kind r = reversal_kind_as_str (rvi_kind inp) \<and> rv_source_id r = rvi_source_id inp)
         (reversal_rows tx)) (ReversalAlreadyPosted (rvi_source_id inp))) (\<lambda>_.
     rbind (index_original_entries (led_print_uuid env) (tx_entries tx tenant (lt_id original)) Map.empty) (\<lambda>os.
     rbind (reversal_total (rvi_lines inp)) (\<lambda>tot.
     rbind (reversal_metadata (led_print_uuid env) inp (lt_id original)) (\<lambda>md.
     let t = reversal_tx_row env tenant inp cur tot md;
         r = reversal_row_of env tenant inp cur tot (lt_id original) in
     rbind (ok_or (insert_unique tx_clash t (tx_rows tx)) (ReversalAlreadyPosted (rvi_source_id inp))) (\<lambda>txs.
     rbind (ok_or (insert_unique reversal_clash r (reversal_rows tx)) (ReversalAlreadyPosted (rvi_source_id inp))) (\<lambda>rvs.
     rbind (post_reversal_lines env tenant inp cur os 0 (rvi_lines inp) ((entry_rows tx, reversal_line_rows tx), []))
       (\<lambda>((rows, lines), links).
     rbind (map_transaction (led_print_uuid env) t (sort_reversal_by id (map rve_entry links))) (\<lambda>v.
     Inr (tx\<lparr>tx_rows := txs, reversal_rows := rvs, entry_rows := rows, reversal_line_rows := lines\<rparr>,
          ReversalResponse
            \<lparr>rvv_id = rv_id r, rvv_tenant_id = tenant, rvv_transaction_id = rv_transaction_id r,
             rvv_kind = rvi_kind inp, rvv_source_id = rv_source_id r, rvv_order_id = rv_order_id r,
             rvv_currency_code = cur, rvv_total_amount = tot,
             rvv_reversed_transaction_id = rv_reversed_transaction_id r,
             rvv_reversed_at = rv_reversed_at r, rvv_metadata = rv_metadata r,
             rvv_created_at = rv_created_at r, rvv_transaction = v,
             rvv_entries = sort_reversal_by rve_entry links\<rparr>)))))))))))))"

subsection \<open>The command\<close>

definition reads_reversal :: "led_response \<Rightarrow> bool" where
  "reads_reversal v = (case v of ReversalResponse _ \<Rightarrow> True | _ \<Rightarrow> False)"

definition prepare_reversal :: "led_env \<Rightarrow> uuid \<Rightarrow> uuid \<Rightarrow> string \<Rightarrow> reversal_input \<Rightarrow> led_error + string \<times> string" where
  "prepare_reversal env tenant actor key inp =
     rbind (ensure (\<not> (is_nil tenant \<or> is_nil actor))
       (LedValidation ''tenant_id and actor_id must not be nil'')) (\<lambda>_.
     rbind (validate_reversal_input (led_print_uuid env) inp) (\<lambda>_.
     rbind (led_normalize_idempotency_key key) (\<lambda>key.
     rbind (led_command_request_hash env ''post_financial_reversal'' actor (reversal_to_value env inp)) (\<lambda>hash.
     Inr (key, hash)))))"

text \<open>
  The command up to its answer, without the rebuilds of the sellers' balances that the source runs
  before it returns, on a replay as well. \<open>post_reversal_with_receipt\<close> is the whole command.
\<close>

definition reversal_answer ::
    "led_env \<Rightarrow> led_store \<Rightarrow> led_store \<Rightarrow> led_store \<Rightarrow> uuid \<Rightarrow> uuid \<Rightarrow> string \<Rightarrow> reversal_input
     \<Rightarrow> led_store \<times> (led_error + led_response)" where
  "reversal_answer env before seen s tenant actor key inp =
     (case prepare_reversal env tenant actor key inp of
        Inl e \<Rightarrow> (s, Inl e)
      | Inr (key, hash) \<Rightarrow>
          led_with_receipt env before seen s tenant actor key ''post_financial_reversal'' hash reads_reversal
            (Inr ()) (\<lambda>_. post_reversal_in_transaction env tenant inp))"

definition post_reversal_with_receipt ::
    "led_env \<Rightarrow> led_store \<Rightarrow> led_store \<Rightarrow> led_store \<Rightarrow> uuid \<Rightarrow> uuid \<Rightarrow> string \<Rightarrow> reversal_input
     \<Rightarrow> led_store \<times> (led_error + led_response)" where
  "post_reversal_with_receipt env before seen s tenant actor key inp =
     (case reversal_answer env before seen s tenant actor key inp of
        (s', Inr (ReversalResponse v)) \<Rightarrow>
          (case rebuild_seller_balances_for_transaction env tenant (rvv_transaction v) s' of
             (s'', Inl e) \<Rightarrow> (s'', Inl e)
           | (s'', Inr _) \<Rightarrow> (s'', Inr (ReversalResponse v)))
      | (s', res) \<Rightarrow> (s', res))"

subsection \<open>The rows of a reversal\<close>

primrec item_entries :: "led_env \<Rightarrow> uuid \<Rightarrow> reversal_input \<Rightarrow> string \<Rightarrow> nat \<Rightarrow> reversal_item list \<Rightarrow> entry_row list" where
  "item_entries env tenant inp cur n [] = []"
| "item_entries env tenant inp cur n (it # its) =
     reversal_entry_row env tenant inp cur n it # item_entries env tenant inp cur (n + 1) its"

primrec item_links :: "led_env \<Rightarrow> uuid \<Rightarrow> nat \<Rightarrow> reversal_item list \<Rightarrow> reversal_line_row list" where
  "item_links env tenant n [] = []"
| "item_links env tenant n (it # its) = reversal_link_row env tenant n it # item_links env tenant (n + 1) its"

lemma item_entries_append:
  "item_entries env tenant inp cur n (xs @ ys)
     = item_entries env tenant inp cur n xs @ item_entries env tenant inp cur (n + length xs) ys"
  by (induction xs arbitrary: n) simp_all

lemma item_links_append:
  "item_links env tenant n (xs @ ys) = item_links env tenant n xs @ item_links env tenant (n + length xs) ys"
  by (induction xs arbitrary: n) simp_all

lemma reversal_row_simps [simp]:
  "le_id (reversal_entry_row env tenant inp cur n it) = led_entry_id env n"
  "le_tenant_id (reversal_entry_row env tenant inp cur n it) = tenant"
  "le_transaction_id (reversal_entry_row env tenant inp cur n it) = led_tx_id env"
  "le_seller_id (reversal_entry_row env tenant inp cur n it) = it_seller_id it"
  "le_account_code (reversal_entry_row env tenant inp cur n it) = account_code_as_str (it_account_code it)"
  "le_direction (reversal_entry_row env tenant inp cur n it) = direction_as_str (it_direction it)"
  "le_currency_code (reversal_entry_row env tenant inp cur n it) = cur"
  "le_amount (reversal_entry_row env tenant inp cur n it) = it_amount it"
  "rl_tenant_id (reversal_link_row env tenant n it) = tenant"
  "rl_entry_id (reversal_link_row env tenant n it) = led_entry_id env n"
  "rl_reversed_entry_id (reversal_link_row env tenant n it) = le_id (it_reversed_entry it)"
  "rl_seller_balance_bucket (reversal_link_row env tenant n it) = map_option bucket_as_str (it_bucket it)"
  "rl_amount (reversal_link_row env tenant n it) = it_amount it"
  by (simp_all add: reversal_entry_row_def reversal_link_row_def)

lemma item_rows:
  "e \<in> set (item_entries env tenant inp cur n its) \<Longrightarrow>
     of_tx tenant (led_tx_id env) e \<and> le_direction e \<in> range direction_as_str
     \<and> (\<exists>it \<in> set its. le_amount e = it_amount it)"
  by (induction its arbitrary: n) (auto simp: of_tx_def)

lemma item_links_ids:
  "rl_entry_id ` set (item_links env tenant n its) = le_id ` set (item_entries env tenant inp cur n its)"
  "rl_reversed_entry_id ` set (item_links env tenant n its) = (\<lambda>it. le_id (it_reversed_entry it)) ` set its"
  by (induction its arbitrary: n) auto

lemma item_links_classes: "classes_ok [] (item_links env tenant n its)"
  by (induction its arbitrary: n) (auto simp: classes_ok_def)

lemma item_entries_sum:
  "dir_sum d (item_entries env tenant inp cur n its)
     = sum_list (map it_amount (filter (\<lambda>it. it_direction it = d) its))"
  by (induction its arbitrary: n) (auto simp: dir_sum_def direction_text.render_inject simp del: direction_as_str.simps)

lemma item_links_reversed:
  "reversed_of (item_links env tenant n its) e = (if le_tenant_id e = tenant
     then sum_list (map it_amount (filter (\<lambda>it. le_id (it_reversed_entry it) = le_id e) its)) else 0)"
  by (induction its arbitrary: n) (auto simp: reversed_of_def)

lemma item_balance:
  assumes "distinct (map le_id (item_entries env tenant inp cur n its))"
  shows "balance_of [] (item_links env tenant n its) (item_entries env tenant inp cur n its) t sel c b
    = (if t = tenant \<and> c = cur then sum_list (map (\<lambda>it. if it_direction it = Credit then it_amount it else - it_amount it)
         (filter (\<lambda>it. it_account_code it = SellerPayable \<and> it_seller_id it = Some sel
            \<and> (case it_bucket it of None \<Rightarrow> b = PendingBucket | Some x \<Rightarrow> x = b)) its)) else 0)"
  using assms
proof (induction its arbitrary: n)
  case (Cons it its)
  let ?e = "reversal_entry_row env tenant inp cur n it" and ?l = "reversal_link_row env tenant n it"
  have one: "balance_of [] [?l] [?e] t sel c b = (if t = tenant \<and> c = cur \<and> it_account_code it = SellerPayable
      \<and> it_seller_id it = Some sel \<and> (case it_bucket it of None \<Rightarrow> b = PendingBucket | Some x \<Rightarrow> x = b)
      then if it_direction it = Credit then it_amount it else - it_amount it else 0)"
  proof -
    have p: "bucket_as_str PendingBucket = bucket_as_str b \<longleftrightarrow> b = PendingBucket"
      by (metis bucket_text.render_inject)
    show ?thesis
      by (cases "it_bucket it")
        (auto simp: balance_of_def payable_to_def class_of_def signed_amount_def p account_code_text.render_inject
          bucket_text.render_inject direction_text.render_inject
          simp del: direction_as_str.simps account_code_as_str.simps bucket_as_str.simps)
  qed
  have "balance_of ([] @ []) ([?l] @ item_links env tenant (n + 1) its)
        ([?e] @ item_entries env tenant inp cur (n + 1) its) t sel c b
      = balance_of [] [?l] [?e] t sel c b
        + balance_of [] (item_links env tenant (n + 1) its) (item_entries env tenant inp cur (n + 1) its) t sel c b"
    by (rule balance_of_append) (use Cons.prems item_links_ids(1) [of env tenant "n + 1" its inp cur] in auto)
  then show ?case using Cons.IH [of "n + 1"] Cons.prems one by auto
qed (simp add: balance_of_def)

lemma insert_reversal_entries_Inr:
  assumes "insert_reversal_entries env tenant inp cur n its ((es, ls), vs) = Inr ((es', ls'), vs')"
  shows "es' = es @ item_entries env tenant inp cur n its \<and> ls' = ls @ item_links env tenant n its
    \<and> (unique_rows entry_clash es \<longrightarrow> unique_rows entry_clash es')
    \<and> (unique_rows reversal_line_clash ls \<longrightarrow> unique_rows reversal_line_clash ls')
    \<and> (\<forall>it \<in> set its. 0 < it_amount it)"
  using assms
proof (induction its arbitrary: n es ls vs)
  case (Cons it its)
  let ?e = "reversal_entry_row env tenant inp cur n it" and ?l = "reversal_link_row env tenant n it"
  from Cons.prems obtain es1 ls1 v where i: "insert_unique entry_clash ?e es = Some es1"
    "insert_unique reversal_line_clash ?l ls = Some ls1" "0 < it_amount it"
    and rest: "insert_reversal_entries env tenant inp cur (n + 1) its ((es1, ls1), vs @ [v]) = Inr ((es', ls'), vs')"
    by (auto simp: insert_reversal_entry_def Let_def)
  have e: "es1 = es @ [?e]" "unique_rows entry_clash es \<longrightarrow> unique_rows entry_clash es1"
    using entry_unique_insert [OF i(1)] by simp_all
  have l: "ls1 = ls @ [?l]" "unique_rows reversal_line_clash ls \<longrightarrow> unique_rows reversal_line_clash ls1"
    using i(2) reversal_line_table.unique_insert [OF _ i(2)] by (simp_all add: reversal_line_table.insert_unique_Some)
  from Cons.IH [OF rest] e l i(3) show ?case by auto
qed simp

subsection \<open>Capacity\<close>

text \<open>The indexed entries are entries of the tenant, each under its account.\<close>

definition originals_in :: "entry_row set \<Rightarrow> uuid \<Rightarrow> originals \<Rightarrow> bool" where
  "originals_in B tenant o0 \<longleftrightarrow>
     (\<forall>e. oa_clearing o0 = Some e \<longrightarrow> e \<in> B \<and> le_tenant_id e = tenant \<and> le_account_code e = account_code_as_str MarketplaceClearing)
     \<and> (\<forall>e. oa_commission o0 = Some e \<longrightarrow> e \<in> B \<and> le_tenant_id e = tenant \<and> le_account_code e = account_code_as_str PlatformCommissionRevenue)
     \<and> (\<forall>e. oa_seller o0 = Some e \<longrightarrow> e \<in> B \<and> le_tenant_id e = tenant \<and> le_account_code e = account_code_as_str SellerPayable)"

definition indexed_in :: "entry_row set \<Rightarrow> uuid \<Rightarrow> (uuid \<rightharpoonup> originals) \<Rightarrow> bool" where
  "indexed_in B tenant os \<longleftrightarrow> (\<forall>a o0. os a = Some o0 \<longrightarrow> originals_in B tenant o0)"

lemma insert_original_in:
  assumes "insert_original acc m o0 = Inr o1" and "originals_in B tenant o0"
    and "m \<in> B" "le_tenant_id m = tenant" "le_account_code m = account_code_as_str acc"
  shows "originals_in B tenant o1"
  using assms
  by (cases acc) (auto simp: originals_in_def insert_original_def Let_def simp del: account_code_as_str.simps)

lemma account_code_parse_Some: "account_code_parse v = Some c \<Longrightarrow> v = account_code_as_str c"
  by (auto simp: account_code_parse_def split: if_splits)

lemma index_original_entries_in:
  assumes "index_original_entries prn ms out = Inr out'" and "indexed_in B tenant out"
    and "\<forall>m \<in> set ms. m \<in> B \<and> le_tenant_id m = tenant"
  shows "indexed_in B tenant out'"
  using assms
proof (induction ms arbitrary: out)
  case (Cons m ms)
  let ?o = "case out (le_assessment_id m) of Some o0 \<Rightarrow> o0 | None \<Rightarrow> no_originals"
  from Cons.prems(1) obtain acc o1 where acc: "le_account_code m = account_code_as_str acc"
    and o1: "insert_original acc m ?o = Inr o1"
    and rest: "index_original_entries prn ms (out(le_assessment_id m \<mapsto> o1)) = Inr out'"
    by (auto dest: account_code_parse_Some)
  have "originals_in B tenant ?o"
    using Cons.prems(2) by (auto simp: indexed_in_def originals_in_def no_originals_def split: option.splits)
  moreover have "m \<in> B" "le_tenant_id m = tenant" using Cons.prems(3) by simp_all
  ultimately have "originals_in B tenant o1" using insert_original_in [OF o1] acc by blast
  then have "indexed_in B tenant (out(le_assessment_id m \<mapsto> o1))"
    using Cons.prems(2) by (auto simp: indexed_in_def)
  then show ?case by (rule Cons.IH [OF rest]) (use Cons.prems(3) in simp)
qed simp

lemma ensure_remaining_Inr:
  assumes "ensure_remaining prn ls tenant e requested = Inr ()" and "le_tenant_id e = tenant"
  shows "0 \<le> requested" "requested = 0 \<or> reversed_of ls e + requested \<le> le_amount e"
  using assms by (auto simp: ensure_remaining_def reversed_of_def dest: checked_sum_Inr split: if_splits)

lemma reversal_items_reversed:
  "it \<in> set (reversal_items l (c, m, sl)) \<Longrightarrow> it_reversed_entry it \<in> {c, m, sl}"
  by (auto simp: reversal_items_def split: if_splits)

lemma reversal_items_sums:
  assumes "0 \<le> rli_commission_amount l" "0 \<le> rli_seller_amount l"
  shows "sum_list (map it_amount (filter (\<lambda>it. it_direction it = d) (reversal_items l (c, m, sl))))
      = rli_commission_amount l + rli_seller_amount l"
    and "sum_list (map (\<lambda>it. if it_direction it = Credit then it_amount it else - it_amount it)
         (filter (\<lambda>it. it_account_code it = SellerPayable \<and> it_seller_id it = Some sel
            \<and> (case it_bucket it of None \<Rightarrow> b = PendingBucket | Some x \<Rightarrow> x = b)) (reversal_items l (c, m, sl))))
      = (if rli_seller_id l = sel \<and> rli_seller_balance_bucket l = b then - rli_seller_amount l else 0)"
proof -
  show "sum_list (map it_amount (filter (\<lambda>it. it_direction it = d) (reversal_items l (c, m, sl))))
      = rli_commission_amount l + rli_seller_amount l"
    using assms by (cases d) (auto simp: reversal_items_def)
  show "sum_list (map (\<lambda>it. if it_direction it = Credit then it_amount it else - it_amount it)
         (filter (\<lambda>it. it_account_code it = SellerPayable \<and> it_seller_id it = Some sel
            \<and> (case it_bucket it of None \<Rightarrow> b = PendingBucket | Some x \<Rightarrow> x = b)) (reversal_items l (c, m, sl))))
      = (if rli_seller_id l = sel \<and> rli_seller_balance_bucket l = b then - rli_seller_amount l else 0)"
    using assms by (auto simp: reversal_items_def)
qed

lemma reversal_items_capacity:
  assumes "c \<in> B" "m \<in> B" "sl \<in> B" and "inj_on le_id B"
    and "le_tenant_id c = tenant" "le_tenant_id m = tenant" "le_tenant_id sl = tenant"
    and acc: "le_account_code c = account_code_as_str MarketplaceClearing"
      "le_account_code m = account_code_as_str PlatformCommissionRevenue" "le_account_code sl = account_code_as_str SellerPayable"
    and rem: "ensure_remaining prn ls tenant c (rli_commission_amount l + rli_seller_amount l) = Inr ()"
      "ensure_remaining prn ls tenant m (rli_commission_amount l) = Inr ()"
      "ensure_remaining prn ls tenant sl (rli_seller_amount l) = Inr ()"
    and "e \<in> B" "reversed_of ls e \<le> le_amount e"
  shows "reversed_of (ls @ item_links env tenant n (reversal_items l (c, m, sl))) e \<le> le_amount e"
proof -
  have "c \<noteq> m" "c \<noteq> sl" "m \<noteq> sl" using acc by auto
  then have ids: "le_id c \<noteq> le_id m" "le_id c \<noteq> le_id sl" "le_id m \<noteq> le_id sl"
    using assms(1-4) by (auto simp: inj_on_def)
  have eq: "le_id o0 = le_id e \<longleftrightarrow> o0 = e" if "o0 \<in> B" for o0
    using that assms(4,14) by (auto simp: inj_on_def)
  note r = ensure_remaining_Inr [OF rem(1) assms(5)] ensure_remaining_Inr [OF rem(2) assms(6)]
    ensure_remaining_Inr [OF rem(3) assms(7)]
  consider "e = c" | "e = m" | "e = sl" | "e \<notin> {c, m, sl}" by blast
  then show ?thesis
  proof cases
    case 4
    then have "le_id (it_reversed_entry it) \<noteq> le_id e" if "it \<in> set (reversal_items l (c, m, sl))" for it
      using reversal_items_reversed [OF that] eq [OF assms(1)] eq [OF assms(2)] eq [OF assms(3)] by auto
    then show ?thesis using assms(15) by (simp add: item_links_reversed filter_False)
  qed (use r ids ids [symmetric] assms(5-7,15) in \<open>auto simp: item_links_reversed reversal_items_def\<close>)
qed

text \<open>The items of all lines, each with the three entries it takes back from.\<close>

definition line_ok :: "entry_row set \<Rightarrow> reversal_line_input \<Rightarrow> entry_row \<times> entry_row \<times> entry_row \<Rightarrow> bool" where
  "line_ok B l os \<longleftrightarrow> (case os of (c, m, sl) \<Rightarrow> {c, m, sl} \<subseteq> B \<and> le_seller_id sl = Some (rli_seller_id l)
     \<and> 0 \<le> rli_commission_amount l \<and> 0 \<le> rli_seller_amount l)"

definition all_items ::
    "reversal_line_input list \<Rightarrow> (entry_row \<times> entry_row \<times> entry_row) list \<Rightarrow> reversal_item list" where
  "all_items lines oss = concat (map2 reversal_items lines oss)"

lemma post_reversal_lines_Inr:
  assumes "post_reversal_lines env tenant inp cur os n lines ((es, ls), vs) = Inr ((es', ls'), vs')"
    and "indexed_in B tenant os" and "inj_on le_id B"
  shows "\<exists>oss. list_all2 (line_ok B) lines oss
    \<and> es' = es @ item_entries env tenant inp cur n (all_items lines oss)
    \<and> ls' = ls @ item_links env tenant n (all_items lines oss)
    \<and> (unique_rows entry_clash es \<longrightarrow> unique_rows entry_clash es')
    \<and> (unique_rows reversal_line_clash ls \<longrightarrow> unique_rows reversal_line_clash ls')
    \<and> (\<forall>it \<in> set (all_items lines oss). 0 < it_amount it)
    \<and> (\<forall>e \<in> B. reversed_of ls e \<le> le_amount e \<longrightarrow> reversed_of ls' e \<le> le_amount e)"
  using assms(1)
proof (induction lines arbitrary: n es ls vs)
  case Nil
  then show ?case by (simp add: all_items_def)
next
  case (Cons l lines)
  from Cons.prems obtain o0 c m sl es1 ls1 vs1 where o0: "os (rli_assessment_id l) = Some o0"
    and val: "validate_original (led_print_uuid env) o0 l (rvi_order_id inp) cur = Inr (c, m, sl)"
    and rem: "ensure_remaining (led_print_uuid env) ls tenant c (rli_commission_amount l + rli_seller_amount l) = Inr ()"
      "ensure_remaining (led_print_uuid env) ls tenant m (rli_commission_amount l) = Inr ()"
      "ensure_remaining (led_print_uuid env) ls tenant sl (rli_seller_amount l) = Inr ()"
    and ins: "insert_reversal_entries env tenant inp cur n (reversal_items l (c, m, sl)) ((es, ls), vs) = Inr ((es1, ls1), vs1)"
    and rest: "post_reversal_lines env tenant inp cur os (n + length (reversal_items l (c, m, sl))) lines ((es1, ls1), vs1)
      = Inr ((es', ls'), vs')"
    by (auto simp: Let_def)
  have os: "oa_clearing o0 = Some c" "oa_commission o0 = Some m" "oa_seller o0 = Some sl" "le_seller_id sl = Some (rli_seller_id l)"
    using val by (auto simp: validate_original_def)
  then have B: "c \<in> B" "m \<in> B" "sl \<in> B"
    and ten: "le_tenant_id c = tenant" "le_tenant_id m = tenant" "le_tenant_id sl = tenant"
    and acc: "le_account_code c = account_code_as_str MarketplaceClearing"
      "le_account_code m = account_code_as_str PlatformCommissionRevenue" "le_account_code sl = account_code_as_str SellerPayable"
    using assms(2) o0 unfolding indexed_in_def originals_in_def by blast+
  have line: "line_ok B l (c, m, sl)"
    using B os(4) ensure_remaining_Inr(1) [OF rem(2) ten(2)] ensure_remaining_Inr(1) [OF rem(3) ten(3)]
    by (simp add: line_ok_def)
  note i = insert_reversal_entries_Inr [OF ins]
  have cap: "reversed_of ls1 e \<le> le_amount e" if "e \<in> B" "reversed_of ls e \<le> le_amount e" for e
    using reversal_items_capacity [OF B assms(3) ten acc rem that, of env n] i by simp
  from Cons.IH [OF rest] obtain oss where IH: "list_all2 (line_ok B) lines oss"
    "es' = es1 @ item_entries env tenant inp cur (n + length (reversal_items l (c, m, sl))) (all_items lines oss)"
    "ls' = ls1 @ item_links env tenant (n + length (reversal_items l (c, m, sl))) (all_items lines oss)"
    "unique_rows entry_clash es1 \<longrightarrow> unique_rows entry_clash es'"
    "unique_rows reversal_line_clash ls1 \<longrightarrow> unique_rows reversal_line_clash ls'"
    "\<forall>it \<in> set (all_items lines oss). 0 < it_amount it"
    "\<forall>e \<in> B. reversed_of ls1 e \<le> le_amount e \<longrightarrow> reversed_of ls' e \<le> le_amount e" by blast
  have items: "all_items (l # lines) ((c, m, sl) # oss) = reversal_items l (c, m, sl) @ all_items lines oss"
    by (simp add: all_items_def)
  show ?case
    by (rule exI [of _ "(c, m, sl) # oss"])
      (use IH i line cap in \<open>auto simp: items item_entries_append item_links_append\<close>)
qed

subsection \<open>The effect of a reversal\<close>

definition reversed_from :: "reversal_input \<Rightarrow> uuid \<Rightarrow> bucket \<Rightarrow> int" where
  "reversed_from inp seller b = sum_list (map rli_seller_amount
     (filter (\<lambda>l. rli_seller_id l = seller \<and> rli_seller_balance_bucket l = b) (rvi_lines inp)))"

lemma all_items_sums:
  assumes "list_all2 (line_ok B) lines oss"
  shows "sum_list (map it_amount (filter (\<lambda>it. it_direction it = d) (all_items lines oss)))
      = sum_list (map (\<lambda>l. rli_commission_amount l + rli_seller_amount l) lines)"
    and "sum_list (map (\<lambda>it. if it_direction it = Credit then it_amount it else - it_amount it)
         (filter (\<lambda>it. it_account_code it = SellerPayable \<and> it_seller_id it = Some sel
            \<and> (case it_bucket it of None \<Rightarrow> b = PendingBucket | Some x \<Rightarrow> x = b)) (all_items lines oss)))
      = - sum_list (map rli_seller_amount
            (filter (\<lambda>l. rli_seller_id l = sel \<and> rli_seller_balance_bucket l = b) lines))"
    and "\<forall>it \<in> set (all_items lines oss). it_reversed_entry it \<in> B"
  using assms
proof (induction lines oss rule: list_all2_induct)
  case (Cons l lines os oss)
  obtain c m sl where os: "os = (c, m, sl)" by (cases os) auto
  have l: "0 \<le> rli_commission_amount l" "0 \<le> rli_seller_amount l" "{c, m, sl} \<subseteq> B"
    using Cons.hyps(1) by (auto simp: line_ok_def os)
  have items: "all_items (l # lines) (os # oss) = reversal_items l (c, m, sl) @ all_items lines oss"
    by (simp add: all_items_def os)
  {
    case 1
    show ?case using Cons.IH(1) by (simp add: items reversal_items_sums(1) [OF l(1,2)])
  next
    case 2
    show ?case using Cons.IH(2) by (simp add: items reversal_items_sums(2) [OF l(1,2)])
  next
    case 3
    show ?case using Cons.IH(3) reversal_items_reversed l(3) by (fastforce simp: items)
  }
qed (simp_all add: all_items_def)

lemma reversal_sum_Inr:
  "reversal_sum ls t = Inr v \<Longrightarrow> v = t + sum_list (map (\<lambda>l. rli_commission_amount l + rli_seller_amount l) ls)"
proof (induction ls arbitrary: t)
  case (Cons l ls)
  from Cons.prems have "reversal_sum ls (t + rli_commission_amount l + rli_seller_amount l) = Inr v"
    by (auto simp: Option.bind_eq_Some_conv)
  from Cons.IH [OF this] show ?case by simp
qed simp

lemma reversal_body:
  assumes "post_reversal_in_transaction env tenant inp tx = Inr (tx', v)"
  shows "led_receipt_rows tx' = led_receipt_rows tx" and "reads_reversal v"
    and "\<exists>cur original os md txs rvs rows lines links.
      led_normalize_currency (rvi_currency_code inp) = Inr cur
      \<and> find_order_tx tx tenant (rvi_order_id inp) = Some original \<and> lt_currency_code original = cur
      \<and> index_original_entries (led_print_uuid env) (tx_entries tx tenant (lt_id original)) Map.empty = Inr os
      \<and> insert_unique tx_clash (reversal_tx_row env tenant inp cur
           (sum_list (map (\<lambda>l. rli_commission_amount l + rli_seller_amount l) (rvi_lines inp))) md) (tx_rows tx) = Some txs
      \<and> insert_unique reversal_clash (reversal_row_of env tenant inp cur
           (sum_list (map (\<lambda>l. rli_commission_amount l + rli_seller_amount l) (rvi_lines inp))) (lt_id original))
           (reversal_rows tx) = Some rvs
      \<and> post_reversal_lines env tenant inp cur os 0 (rvi_lines inp) ((entry_rows tx, reversal_line_rows tx), [])
           = Inr ((rows, lines), links)
      \<and> tx' = tx\<lparr>tx_rows := txs, reversal_rows := rvs, entry_rows := rows, reversal_line_rows := lines\<rparr>"
proof -
  obtain cur original os tot md txs rvs rows lines links vt where
    c: "led_normalize_currency (rvi_currency_code inp) = Inr cur"
    "find_order_tx tx tenant (rvi_order_id inp) = Some original" "lt_currency_code original = cur"
    "index_original_entries (led_print_uuid env) (tx_entries tx tenant (lt_id original)) Map.empty = Inr os"
    and tot: "reversal_total (rvi_lines inp) = Inr tot"
    and i: "insert_unique tx_clash (reversal_tx_row env tenant inp cur tot md) (tx_rows tx) = Some txs"
    "insert_unique reversal_clash (reversal_row_of env tenant inp cur tot (lt_id original)) (reversal_rows tx) = Some rvs"
    "post_reversal_lines env tenant inp cur os 0 (rvi_lines inp) ((entry_rows tx, reversal_line_rows tx), [])
       = Inr ((rows, lines), links)"
    and out: "tx' = tx\<lparr>tx_rows := txs, reversal_rows := rvs, entry_rows := rows, reversal_line_rows := lines\<rparr>"
      "reads_reversal v"
    using assms by (auto simp: post_reversal_in_transaction_def Let_def reads_reversal_def)
  have "tot = sum_list (map (\<lambda>l. rli_commission_amount l + rli_seller_amount l) (rvi_lines inp))"
    using tot by (auto simp: reversal_total_def dest: reversal_sum_Inr)
  with c i out show "led_receipt_rows tx' = led_receipt_rows tx" "reads_reversal v"
    "\<exists>cur original os md txs rvs rows lines links.
      led_normalize_currency (rvi_currency_code inp) = Inr cur
      \<and> find_order_tx tx tenant (rvi_order_id inp) = Some original \<and> lt_currency_code original = cur
      \<and> index_original_entries (led_print_uuid env) (tx_entries tx tenant (lt_id original)) Map.empty = Inr os
      \<and> insert_unique tx_clash (reversal_tx_row env tenant inp cur
           (sum_list (map (\<lambda>l. rli_commission_amount l + rli_seller_amount l) (rvi_lines inp))) md) (tx_rows tx) = Some txs
      \<and> insert_unique reversal_clash (reversal_row_of env tenant inp cur
           (sum_list (map (\<lambda>l. rli_commission_amount l + rli_seller_amount l) (rvi_lines inp))) (lt_id original))
           (reversal_rows tx) = Some rvs
      \<and> post_reversal_lines env tenant inp cur os 0 (rvi_lines inp) ((entry_rows tx, reversal_line_rows tx), [])
           = Inr ((rows, lines), links)
      \<and> tx' = tx\<lparr>tx_rows := txs, reversal_rows := rvs, entry_rows := rows, reversal_line_rows := lines\<rparr>"
    by (simp, simp, blast)
qed

lemma books_ok_inj: "books_ok s \<Longrightarrow> inj_on le_id (set (entry_rows s))"
  using entry_table.unique_eq [of "entry_rows s"]
  by (auto simp: books_ok_def tables_ok_def entry_clash_def intro!: inj_onI)

lemma unique_entry_ids: "unique_rows entry_clash (es @ es') \<Longrightarrow> distinct (map le_id es')"
  by (induction es') (auto simp: unique_rows_def sorted_wrt_append entry_clash_def)

definition reversal_tx_of :: "led_env \<Rightarrow> uuid \<Rightarrow> reversal_input \<Rightarrow> string \<Rightarrow> json \<Rightarrow> tx_row" where
  "reversal_tx_of env tenant inp cur md = reversal_tx_row env tenant inp cur
     (sum_list (map (\<lambda>l. rli_commission_amount l + rli_seller_amount l) (rvi_lines inp))) md"

lemma reversal_extends:
  assumes "books_ok s"
    and "led_commits env s tenant actor k kind h (post_reversal_in_transaction env tenant inp) v s'"
  shows "\<exists>cur md oss. led_normalize_currency (rvi_currency_code inp) = Inr cur
    \<and> books_extend s (reversal_tx_of env tenant inp cur md)
        (item_entries env tenant inp cur 0 (all_items (rvi_lines inp) oss)) []
        (item_links env tenant 0 (all_items (rvi_lines inp) oss)) [] s'
    \<and> list_all2 (line_ok (set (entry_rows s))) (rvi_lines inp) oss
    \<and> (\<forall>e \<in> set (entry_rows s). reversed_of (reversal_line_rows s) e
         + reversed_of (item_links env tenant 0 (all_items (rvi_lines inp) oss)) e \<le> le_amount e)
    \<and> balance_rows s' = balance_rows s \<and> reads_reversal v"
proof -
  let ?B = "set (entry_rows s)"
  obtain tx rs rs' where body: "post_reversal_in_transaction env tenant inp (s\<lparr>led_receipt_rows := rs\<rparr>) = Inr (tx, v)"
    and s': "s' = tx\<lparr>led_receipt_rows := rs'\<rparr>" and r: "led_receipted env s tenant actor k kind h v s'"
    using assms(2) by (auto simp: led_commits_def)
  have upd: "tx_rows (s\<lparr>led_receipt_rows := rs\<rparr>) = tx_rows s" "entry_rows (s\<lparr>led_receipt_rows := rs\<rparr>) = entry_rows s"
    "reversal_rows (s\<lparr>led_receipt_rows := rs\<rparr>) = reversal_rows s"
    "reversal_line_rows (s\<lparr>led_receipt_rows := rs\<rparr>) = reversal_line_rows s"
    "\<And>a b. tx_entries (s\<lparr>led_receipt_rows := rs\<rparr>) a b = tx_entries s a b"
    by (simp_all add: tx_entries_def)
  obtain cur and original :: tx_row and os md txs rvs rows lines links where cur: "led_normalize_currency (rvi_currency_code inp) = Inr cur"
    and os: "index_original_entries (led_print_uuid env) (tx_entries s tenant (lt_id original)) Map.empty = Inr os"
    and i: "insert_unique tx_clash (reversal_tx_of env tenant inp cur md) (tx_rows s) = Some txs"
      "insert_unique reversal_clash (reversal_row_of env tenant inp cur
           (sum_list (map (\<lambda>l. rli_commission_amount l + rli_seller_amount l) (rvi_lines inp))) (lt_id original))
           (reversal_rows s) = Some rvs"
    and loop: "post_reversal_lines env tenant inp cur os 0 (rvi_lines inp) ((entry_rows s, reversal_line_rows s), [])
           = Inr ((rows, lines), links)"
    and tx: "tx = s\<lparr>led_receipt_rows := rs, tx_rows := txs, reversal_rows := rvs, entry_rows := rows, reversal_line_rows := lines\<rparr>"
    using reversal_body(3) [OF body] unfolding upd reversal_tx_of_def [symmetric] by blast
  have inj: "inj_on le_id ?B" by (rule books_ok_inj [OF assms(1)])
  have "indexed_in ?B tenant os"
    by (rule index_original_entries_in [OF os]) (auto simp: indexed_in_def tx_entries_def)
  from post_reversal_lines_Inr [OF loop this inj] obtain oss where oss: "list_all2 (line_ok ?B) (rvi_lines inp) oss"
    and rows: "rows = entry_rows s @ item_entries env tenant inp cur 0 (all_items (rvi_lines inp) oss)"
      "lines = reversal_line_rows s @ item_links env tenant 0 (all_items (rvi_lines inp) oss)"
    and u: "unique_rows entry_clash (entry_rows s) \<longrightarrow> unique_rows entry_clash rows"
      "unique_rows reversal_line_clash (reversal_line_rows s) \<longrightarrow> unique_rows reversal_line_clash lines"
    and pos: "\<forall>it \<in> set (all_items (rvi_lines inp) oss). 0 < it_amount it"
    and cap: "\<forall>e \<in> ?B. reversed_of (reversal_line_rows s) e \<le> le_amount e \<longrightarrow> reversed_of lines e \<le> le_amount e"
    by blast
  let ?es = "item_entries env tenant inp cur 0 (all_items (rvi_lines inp) oss)"
  let ?ls = "item_links env tenant 0 (all_items (rvi_lines inp) oss)" and ?t = "reversal_tx_of env tenant inp cur md"
  have tables: "tables_ok s" using assms(1) by (rule books_ok_tables)
  have "unique_rows led_receipt_clash (led_receipt_rows s')" using led_receipted_unique [OF r] tables by (simp add: tables_ok_def)
  moreover have "unique_rows tx_clash txs" "unique_rows reversal_clash rvs"
    using tx_table.unique_insert [OF _ i(1)] reversal_table.unique_insert [OF _ i(2)] tables by (simp_all add: tables_ok_def)
  ultimately have t': "tables_ok s'" using tables u by (simp add: tables_ok_def s' tx)
  have es: "of_tx (lt_tenant_id ?t) (lt_id ?t) e \<and> 0 \<le> le_amount e \<and> le_direction e \<in> range direction_as_str"
    if "e \<in> set ?es" for e
    using item_rows [OF that] pos by (force simp: reversal_tx_of_def reversal_tx_row_def)
  have refs: "rl_entry_id ` set ?ls \<subseteq> le_id ` set ?es" "rl_reversed_entry_id ` set ?ls \<subseteq> le_id ` ?B"
    using item_links_ids(1) [of env tenant 0 "all_items (rvi_lines inp) oss" inp cur]
      item_links_ids(2) [of env tenant 0 "all_items (rvi_lines inp) oss"] all_items_sums(3) [OF oss] by auto
  have "books_extend s ?t ?es [] ?ls [] s'"
    using i(1) rows t' es refs item_links_classes
    by (simp add: books_extend_def s' tx tx_table.insert_unique_Some)
  moreover have "reversed_of (reversal_line_rows s) e + reversed_of ?ls e \<le> le_amount e" if "e \<in> ?B" for e
    using cap that books_ok_bounds(1) [OF assms(1) that] rows(2) by simp
  moreover have "balance_rows s' = balance_rows s" by (simp add: s' tx)
  ultimately show ?thesis using cur oss reversal_body(2) [OF body] by blast
qed

lemma reversal_books_ok:
  assumes "books_ok s"
    and "led_commits env s tenant actor k kind h (post_reversal_in_transaction env tenant inp) v s'"
  shows "books_ok s'"
proof -
  obtain cur md oss where ext: "books_extend s (reversal_tx_of env tenant inp cur md)
        (item_entries env tenant inp cur 0 (all_items (rvi_lines inp) oss)) []
        (item_links env tenant 0 (all_items (rvi_lines inp) oss)) [] s'"
    and oss: "list_all2 (line_ok (set (entry_rows s))) (rvi_lines inp) oss"
    and cap: "\<forall>e \<in> set (entry_rows s). reversed_of (reversal_line_rows s) e
         + reversed_of (item_links env tenant 0 (all_items (rvi_lines inp) oss)) e \<le> le_amount e"
    using reversal_extends [OF assms] by blast
  show ?thesis
    by (rule books_extend_ok [OF assms(1) ext])
      (use cap books_ok_bounds [OF assms(1)] in \<open>simp_all add: item_entries_sum all_items_sums(1) [OF oss]
        reversal_tx_of_def reversal_tx_row_def transferred_of_def [of "[]"]\<close>)
qed

text \<open>On the account of a seller, a reversal takes the reversed amounts out of the named buckets.\<close>

lemma reversal_balance:
  assumes "books_ok s"
    and "led_commits env s tenant actor k kind h (post_reversal_in_transaction env tenant inp) v s'"
    and "led_normalize_currency (rvi_currency_code inp) = Inr cur"
  shows "seller_balance s' t seller c b
    = seller_balance s t seller c b - (if t = tenant \<and> c = cur then reversed_from inp seller b else 0)"
proof -
  obtain md oss where ext: "books_extend s (reversal_tx_of env tenant inp cur md)
        (item_entries env tenant inp cur 0 (all_items (rvi_lines inp) oss)) []
        (item_links env tenant 0 (all_items (rvi_lines inp) oss)) [] s'"
    and oss: "list_all2 (line_ok (set (entry_rows s))) (rvi_lines inp) oss"
    using reversal_extends [OF assms(1,2)] assms(3) by auto
  have "unique_rows entry_clash (entry_rows s @ item_entries env tenant inp cur 0 (all_items (rvi_lines inp) oss))"
    using ext unfolding books_extend_def tables_ok_def by metis
  from item_balance [OF unique_entry_ids [OF this]] show ?thesis
    by (simp add: balance_extend [OF assms(1) ext] all_items_sums(2) [OF oss] reversed_from_def)
qed

lemma reversal_kind: "led_normalize_command_kind ''post_financial_reversal'' = Inr ''post_financial_reversal''"
proof -
  have "trim ''post_financial_reversal'' = ''post_financial_reversal''" by (rule trim_plain) (simp add: plain_if_printable)
  then show ?thesis by (simp add: led_normalize_command_kind_def)
qed

lemma reversal_outcome:
  assumes "reversal_answer env before seen s tenant actor key inp = (s', res)"
  shows "s' = s \<and> (\<forall>v. res = Inr v \<longrightarrow> (\<exists>k h r. prepare_reversal env tenant actor key inp = Inr (k, h)
             \<and> (led_find_receipt before tenant k = Some r \<or> led_find_receipt seen tenant k = Some r
                \<or> led_find_receipt s tenant k = Some r)))
    \<or> (\<exists>k h v. prepare_reversal env tenant actor key inp = Inr (k, h) \<and> res = Inr v
         \<and> led_commits env s tenant actor k ''post_financial_reversal'' h
              (post_reversal_in_transaction env tenant inp) v s')"
proof (cases "prepare_reversal env tenant actor key inp")
  case (Inl e)
  with assms show ?thesis by (auto simp: reversal_answer_def)
next
  case (Inr p)
  obtain k h where p: "p = (k, h)" by (cases p)
  note run = assms [unfolded reversal_answer_def Inr p sum.case prod.case]
  have keep: "\<forall>b t t' v. post_reversal_in_transaction env tenant inp t = Inr (t', v)
      \<longrightarrow> led_receipt_rows t' = led_receipt_rows t"
    using reversal_body(1) by blast
  from led_with_receipt_outcome [OF run reversal_kind] keep Inr p show ?thesis by blast
qed

end
