(* ===== verification/Ledger_Transfer.thy ===== *)
theory Ledger_Transfer
  imports Ledger_Reversal
begin

text \<open>
  Transfers between the buckets of a seller (\<open>rustok-marketplace-balance/src/balance_transfer.rs\<close>):
  releases, holds, payouts and their reversals. A transfer is a balanced transaction of pairs of
  entries that move parts of earlier credits from one bucket to another.
\<close>

subsection \<open>Input and admission\<close>

definition check_transfer_line :: "transfer_line_input \<Rightarrow> led_error + unit" where
  "check_transfer_line l = ensure (\<not> (is_nil (tli_reference_entry_id l) \<or> tli_amount l \<le> 0))
     (LedValidation ''seller balance transfer line requires a reference entry and positive amount'')"

definition validate_transfer_input :: "transfer_input \<Rightarrow> led_error + unit" where
  "validate_transfer_input inp =
     rbind (ensure (\<not> (is_nil (tri_source_id inp) \<or> is_nil (tri_seller_id inp)))
       (LedValidation ''seller balance transfer source_id and seller_id must not be nil'')) (\<lambda>_.
     rbind (led_normalize_currency (tri_currency_code inp)) (\<lambda>_.
     rbind (ensure (\<not> (tri_lines inp = [] \<or> MAX_LEDGER_BALANCE_TRANSFER_LINES < length (tri_lines inp)))
       (LedValidation ''seller balance transfer requires 1 to 500 lines'')) (\<lambda>_.
     rbind (ensure (is_object (tri_metadata inp))
       (LedValidation ''seller balance transfer metadata must be an object'')) (\<lambda>_.
     for_each check_transfer_line (tri_lines inp)))))"

definition transfer_total :: "transfer_input \<Rightarrow> led_error + int" where
  "transfer_total inp =
     rbind (checked_sum (LedValidation ''seller balance transfer total overflow'') (map tli_amount (tri_lines inp)) 0) (\<lambda>tot.
     rbind (ensure (\<not> tot \<le> 0) (LedValidation ''seller balance transfer total must be positive'')) (\<lambda>_.
     Inr tot))"

definition bucket_totals_apply ::
    "balance_totals \<Rightarrow> bucket \<Rightarrow> direction \<Rightarrow> int \<Rightarrow> led_error + balance_totals" where
  "bucket_totals_apply = totals_apply ''seller balance entry amount must not be negative''
     ''seller balance bucket overflow during transfer admission''"

definition calculate_bucket_totals ::
    "entry_row list \<Rightarrow> (uuid \<rightharpoonup> string) \<Rightarrow> (uuid \<rightharpoonup> string) \<Rightarrow> led_error + balance_totals" where
  "calculate_bucket_totals es explicit reversal = sum_entries bucket_totals_apply explicit reversal es zero_totals"

fun prior_amounts :: "(uuid \<Rightarrow> string) \<Rightarrow> transfer_line_row list \<Rightarrow> (uuid \<rightharpoonup> int) \<Rightarrow> led_error + (uuid \<rightharpoonup> int)" where
  "prior_amounts prn [] totals = Inr totals"
| "prior_amounts prn (l # ls) totals =
     rbind (ok_or (checked_i64 ((case totals (tl_reference_entry_id l) of Some v \<Rightarrow> v | None \<Rightarrow> 0) + tl_amount l))
       (LedValidation (''reference entry '' @ prn (tl_reference_entry_id l) @ '' transfer capacity overflow''))) (\<lambda>next.
     prior_amounts prn ls (totals(tl_reference_entry_id l \<mapsto> next)))"

record reference_context =
  rc_print :: "uuid \<Rightarrow> string"
  rc_indexed :: "uuid \<rightharpoonup> entry_row"
  rc_explicit :: "uuid \<rightharpoonup> string"
  rc_reversal :: "uuid \<rightharpoonup> string"
  rc_prior :: "uuid \<rightharpoonup> int"
  rc_from :: bucket
  rc_transferred_at :: int

text \<open>The checks of one line; the result is the entry it refers to.\<close>

definition check_reference ::
    "reference_context \<Rightarrow> uuid set \<Rightarrow> uuid set \<Rightarrow> uuid option \<Rightarrow> transfer_line_input \<Rightarrow> led_error + entry_row" where
  "check_reference rc refs assessments order l =
     rbind (ensure (tli_reference_entry_id l \<notin> refs) (LedValidation (''reference entry ''
       @ rc_print rc (tli_reference_entry_id l) @ '' appears more than once in seller balance transfer''))) (\<lambda>_.
     rbind (ok_or (rc_indexed rc (tli_reference_entry_id l)) (LedValidation (''reference seller payable entry ''
       @ rc_print rc (tli_reference_entry_id l) @ '' was not found''))) (\<lambda>r.
     rbind (ensure (\<not> le_amount r \<le> 0) (LedValidation (''reference seller payable entry ''
       @ rc_print rc (le_id r) @ '' must have a positive amount''))) (\<lambda>_.
     rbind (ensure (direction_parse (le_direction r) = Some Credit) (LedValidation (''reference seller payable entry ''
       @ rc_print rc (le_id r) @ '' must be a credit''))) (\<lambda>_.
     rbind (entry_bucket (rc_explicit rc) (rc_reversal rc) (le_id r)) (\<lambda>b.
     rbind (ensure (b = rc_from rc) (LedValidation (''reference entry '' @ rc_print rc (le_id r) @ '' belongs to ''
       @ bucket_as_str b @ '' bucket, expected '' @ bucket_as_str (rc_from rc)))) (\<lambda>_.
     rbind (ok_or (checked_i64 ((case rc_prior rc (le_id r) of Some v \<Rightarrow> v | None \<Rightarrow> 0) + tli_amount l))
       (LedValidation (''reference entry '' @ rc_print rc (le_id r) @ '' cumulative transfer amount overflow''))) (\<lambda>cumulative.
     rbind (ensure (\<not> le_amount r < cumulative) (LedValidation (''reference entry '' @ rc_print rc (le_id r)
       @ '' cumulative transfer amount '' @ show_int cumulative @ '' exceeds credit amount '' @ show_int (le_amount r)))) (\<lambda>_.
     rbind (ensure (\<not> rc_transferred_at rc < le_created_at r)
       (LedValidation (''transferred_at must not be earlier than reference entry '' @ rc_print rc (le_id r)))) (\<lambda>_.
     rbind (ensure (le_assessment_id r \<notin> assessments) (LedValidation (''commission assessment ''
       @ rc_print rc (le_assessment_id r) @ '' appears more than once in seller balance transfer''))) (\<lambda>_.
     rbind (ensure (case order of Some expected \<Rightarrow> expected = le_order_id r | None \<Rightarrow> True)
       (LedValidation ''seller balance transfer reference entries must belong to one order'')) (\<lambda>_.
     Inr r)))))))))))"

fun check_references ::
    "reference_context \<Rightarrow> uuid set \<Rightarrow> uuid set \<Rightarrow> uuid option \<Rightarrow> transfer_line_input list
     \<Rightarrow> (transfer_line_input \<times> entry_row) list \<Rightarrow> led_error + (transfer_line_input \<times> entry_row) list \<times> uuid option" where
  "check_references rc refs assessments order [] acc = Inr (acc, order)"
| "check_references rc refs assessments order (l # ls) acc =
     rbind (check_reference rc refs assessments order l) (\<lambda>r.
     check_references rc (insert (tli_reference_entry_id l) refs) (insert (le_assessment_id r) assessments)
       (Some (case order of Some expected \<Rightarrow> expected | None \<Rightarrow> le_order_id r)) ls (acc @ [(l, r)]))"

subsection \<open>Posting the transfer\<close>

definition transfer_entry_row ::
    "led_env \<Rightarrow> uuid \<Rightarrow> transfer_input \<Rightarrow> string \<Rightarrow> nat \<Rightarrow> entry_row \<Rightarrow> bucket \<Rightarrow> direction \<Rightarrow> int \<Rightarrow> entry_row" where
  "transfer_entry_row env tenant inp cur n r b dir amount =
     \<lparr>le_id = led_entry_id env n, le_tenant_id = tenant, le_transaction_id = led_tx_id env,
      le_order_id = le_order_id r, le_assessment_id = le_assessment_id r,
      le_allocation_id = le_allocation_id r, le_order_line_item_id = le_order_line_item_id r,
      le_seller_id = le_seller_id r, le_account_code = account_code_as_str SellerPayable,
      le_direction = direction_as_str dir, le_currency_code = cur, le_amount = amount,
      le_metadata = JObject [(''transfer_id'', JString (led_print_uuid env (led_group_id env))),
                             (''transfer_kind'', JString (transfer_kind_as_str (tri_kind inp))),
                             (''transfer_source_id'', JString (led_print_uuid env (tri_source_id inp))),
                             (''seller_balance_bucket'', JString (bucket_as_str b)),
                             (''reference_entry_id'', JString (led_print_uuid env (le_id r)))],
      le_created_at = led_row_now env\<rparr>"

definition transfer_bucket_row ::
    "led_env \<Rightarrow> uuid \<Rightarrow> transfer_input \<Rightarrow> nat \<Rightarrow> uuid \<Rightarrow> bucket \<Rightarrow> bucket_row" where
  "transfer_bucket_row env tenant inp n seller b =
     \<lparr>eb_id = led_link_id env n, eb_tenant_id = tenant, eb_entry_id = led_entry_id env n,
      eb_seller_id = seller, eb_balance_bucket = bucket_as_str b,
      eb_source_kind = transfer_source_kind (tri_kind inp), eb_source_id = tri_source_id inp,
      eb_created_at = led_row_now env\<rparr>"

definition insert_transfer_entry ::
    "led_env \<Rightarrow> uuid \<Rightarrow> transfer_input \<Rightarrow> string \<Rightarrow> nat \<Rightarrow> entry_row \<Rightarrow> bucket \<Rightarrow> direction \<Rightarrow> int
     \<Rightarrow> entry_row list \<times> bucket_row list \<Rightarrow> led_error + (entry_row list \<times> bucket_row list) \<times> entry_view" where
  "insert_transfer_entry env tenant inp cur n r b dir amount tables =
     (let m = transfer_entry_row env tenant inp cur n r b dir amount in
      rbind (ok_or (insert_unique entry_clash m (fst tables)) (LedDatabase ''unique constraint'')) (\<lambda>rows.
      rbind (ok_or (le_seller_id r)
        (LedValidation ''seller payable reference entry requires seller identity'')) (\<lambda>seller.
      rbind (ok_or (insert_unique bucket_clash (transfer_bucket_row env tenant inp n seller b) (snd tables))
        (LedDatabase ''unique constraint'')) (\<lambda>buckets.
      rbind (read_entry m) (\<lambda>v.
      Inr ((rows, buckets), v))))))"

definition transfer_line_row_of :: "led_env \<Rightarrow> uuid \<Rightarrow> nat \<Rightarrow> uuid \<Rightarrow> uuid \<Rightarrow> uuid \<Rightarrow> int \<Rightarrow> transfer_line_row" where
  "transfer_line_row_of env tenant i reference debit credit amount =
     \<lparr>tl_id = led_line_id env i, tl_tenant_id = tenant, tl_transfer_id = led_group_id env,
      tl_reference_entry_id = reference, tl_debit_entry_id = debit, tl_credit_entry_id = credit,
      tl_amount = amount, tl_created_at = led_row_now env\<rparr>"

fun post_transfer_lines ::
    "led_env \<Rightarrow> uuid \<Rightarrow> transfer_input \<Rightarrow> string \<Rightarrow> nat \<Rightarrow> (transfer_line_input \<times> entry_row) list
     \<Rightarrow> (entry_row list \<times> bucket_row list) \<times> transfer_line_row list \<times> transfer_line_view list
     \<Rightarrow> led_error + (entry_row list \<times> bucket_row list) \<times> transfer_line_row list \<times> transfer_line_view list" where
  "post_transfer_lines env tenant inp cur i [] acc = Inr acc"
| "post_transfer_lines env tenant inp cur i ((l, r) # refs) (tables, lines, vs) =
     (case transfer_buckets (tri_kind inp) of (from, to) \<Rightarrow>
      rbind (insert_transfer_entry env tenant inp cur (2 * i) r from Debit (tli_amount l) tables) (\<lambda>(tables, debit).
      rbind (insert_transfer_entry env tenant inp cur (2 * i + 1) r to Credit (tli_amount l) tables) (\<lambda>(tables, credit).
      rbind (ok_or (insert_unique transfer_line_clash
          (transfer_line_row_of env tenant i (le_id r) (le_id debit) (le_id credit) (tli_amount l)) lines)
        (LedDatabase ''unique constraint'')) (\<lambda>lines.
      post_transfer_lines env tenant inp cur (i + 1) refs (tables, lines,
        vs @ [\<lparr>tlv_reference_entry_id = le_id r, tlv_amount = tli_amount l, tlv_from_bucket = from,
               tlv_to_bucket = to, tlv_debit_entry = debit, tlv_credit_entry = credit\<rparr>])))))"

definition transfer_tx_row :: "led_env \<Rightarrow> uuid \<Rightarrow> transfer_input \<Rightarrow> string \<Rightarrow> uuid \<Rightarrow> int \<Rightarrow> tx_row" where
  "transfer_tx_row env tenant inp cur order tot =
     \<lparr>lt_id = led_tx_id env, lt_tenant_id = tenant, lt_source_kind = transfer_source_kind (tri_kind inp),
      lt_source_id = tri_source_id inp, lt_order_id = order, lt_currency_code = cur,
      lt_debit_total_amount = tot, lt_credit_total_amount = tot,
      lt_status = tx_status_as_str TxPosted, lt_posted_at = tri_transferred_at inp,
      lt_metadata = JObject
        [(''transfer_id'', JString (led_print_uuid env (led_group_id env))),
         (''transfer_kind'', JString (transfer_kind_as_str (tri_kind inp))),
         (''transfer_source_id'', JString (led_print_uuid env (tri_source_id inp))),
         (''seller_id'', JString (led_print_uuid env (tri_seller_id inp))),
         (''from_bucket'', JString (bucket_as_str (fst (transfer_buckets (tri_kind inp))))),
         (''to_bucket'', JString (bucket_as_str (snd (transfer_buckets (tri_kind inp))))),
         (''line_count'', JNumber (show_nat (length (tri_lines inp))))],
      lt_created_at = led_row_now env\<rparr>"

definition transfer_row_of :: "led_env \<Rightarrow> uuid \<Rightarrow> transfer_input \<Rightarrow> string \<Rightarrow> int \<Rightarrow> transfer_row" where
  "transfer_row_of env tenant inp cur tot =
     \<lparr>tr_id = led_group_id env, tr_tenant_id = tenant, tr_transaction_id = led_tx_id env,
      tr_transfer_kind = transfer_kind_as_str (tri_kind inp), tr_source_id = tri_source_id inp,
      tr_seller_id = tri_seller_id inp, tr_currency_code = cur,
      tr_from_bucket = bucket_as_str (fst (transfer_buckets (tri_kind inp))),
      tr_to_bucket = bucket_as_str (snd (transfer_buckets (tri_kind inp))),
      tr_total_amount = tot, tr_transferred_at = tri_transferred_at inp,
      tr_metadata = tri_metadata inp, tr_created_at = led_row_now env\<rparr>"

definition sort_transfer_entries :: "entry_view list \<Rightarrow> entry_view list" where
  "sort_transfer_entries vs =
     sort_key le_order_line_item_id (sort_key le_assessment_id
       (sort_key (\<lambda>e. direction_as_str (le_direction e)) (sort_key le_id vs)))"

definition reference_context_of ::
    "led_env \<Rightarrow> uuid \<Rightarrow> transfer_input \<Rightarrow> entry_row list \<Rightarrow> (uuid \<rightharpoonup> int) \<Rightarrow> led_store \<Rightarrow> reference_context" where
  "reference_context_of env tenant inp es prior tx =
     \<lparr>rc_print = led_print_uuid env, rc_indexed = map_of (rev (map (\<lambda>e. (le_id e, e)) es)),
      rc_explicit = explicit_buckets tx tenant (map le_id es),
      rc_reversal = reversal_buckets tx tenant (map le_id es), rc_prior = prior,
      rc_from = fst (transfer_buckets (tri_kind inp)), rc_transferred_at = tri_transferred_at inp\<rparr>"

text \<open>
  What is checked before anything is written: the seller's entries, the earlier transfers of the
  references, the balance of the source bucket, and the references. The result is the total, the
  lines with their references, and the order.
\<close>

definition admit_transfer ::
    "led_env \<Rightarrow> uuid \<Rightarrow> transfer_input \<Rightarrow> string \<Rightarrow> led_store
     \<Rightarrow> led_error + int \<times> (transfer_line_input \<times> entry_row) list \<times> uuid" where
  "admit_transfer env tenant inp cur tx =
     rbind (ensure (\<not> list_ex (\<lambda>r. tr_tenant_id r = tenant
         \<and> tr_transfer_kind r = transfer_kind_as_str (tri_kind inp) \<and> tr_source_id r = tri_source_id inp)
         (transfer_rows tx)) (BalanceTransferAlreadyPosted (tri_source_id inp))) (\<lambda>_.
     let es = sorted_payable tx tenant (tri_seller_id inp) cur;
         from = fst (transfer_buckets (tri_kind inp)) in
     rbind (ensure (es \<noteq> []) (SellerBalanceNotFound (tri_seller_id inp) cur)) (\<lambda>_.
     rbind (prior_amounts (led_print_uuid env) (filter (\<lambda>l. tl_tenant_id l = tenant
         \<and> tl_reference_entry_id l \<in> set (map tli_reference_entry_id (tri_lines inp))) (transfer_line_rows tx))
         Map.empty) (\<lambda>prior.
     let rc = reference_context_of env tenant inp es prior tx in
     rbind (calculate_bucket_totals es (rc_explicit rc) (rc_reversal rc)) (\<lambda>totals.
     rbind (transfer_total inp) (\<lambda>tot.
     rbind (ensure (\<not> totals_amount totals from < tot) (LedValidation (''seller balance transfer amount ''
       @ show_int tot @ '' exceeds '' @ bucket_as_str from @ '' bucket balance ''
       @ show_int (totals_amount totals from)))) (\<lambda>_.
     rbind (check_references rc {} {} None (tri_lines inp) []) (\<lambda>(refs, order).
     rbind (ok_or order (LedValidation ''seller balance transfer could not derive an order scope'')) (\<lambda>order.
     Inr (tot, refs, order)))))))))"

definition post_transfer_in_transaction ::
    "led_env \<Rightarrow> uuid \<Rightarrow> transfer_input \<Rightarrow> led_store \<Rightarrow> led_error + led_store \<times> led_response" where
  "post_transfer_in_transaction env tenant inp tx =
     rbind (led_normalize_currency (tri_currency_code inp)) (\<lambda>cur.
     rbind (admit_transfer env tenant inp cur tx) (\<lambda>(tot, refs, order).
     let t = transfer_tx_row env tenant inp cur order tot; r = transfer_row_of env tenant inp cur tot in
     rbind (ok_or (insert_unique tx_clash t (tx_rows tx)) (BalanceTransferAlreadyPosted (tri_source_id inp))) (\<lambda>txs.
     rbind (ok_or (insert_unique transfer_clash r (transfer_rows tx)) (BalanceTransferAlreadyPosted (tri_source_id inp))) (\<lambda>trs.
     rbind (post_transfer_lines env tenant inp cur 0 refs
              ((entry_rows tx, bucket_rows tx), transfer_line_rows tx, [])) (\<lambda>((rows, buckets), lines, vs).
     rbind (map_transaction (led_print_uuid env) t (sort_transfer_entries
              (concat (map (\<lambda>v. [tlv_debit_entry v, tlv_credit_entry v]) vs)))) (\<lambda>v.
     Inr (tx\<lparr>tx_rows := txs, transfer_rows := trs, entry_rows := rows, bucket_rows := buckets,
              transfer_line_rows := lines\<rparr>,
          TransferResponse
            \<lparr>trv_id = tr_id r, trv_tenant_id = tr_tenant_id r, trv_transaction_id = tr_transaction_id r,
             trv_kind = tri_kind inp, trv_source_id = tr_source_id r, trv_seller_id = tr_seller_id r,
             trv_currency_code = tr_currency_code r,
             trv_from_bucket = fst (transfer_buckets (tri_kind inp)),
             trv_to_bucket = snd (transfer_buckets (tri_kind inp)), trv_total_amount = tr_total_amount r,
             trv_transferred_at = tr_transferred_at r, trv_metadata = tr_metadata r,
             trv_created_at = tr_created_at r, trv_transaction = v,
             trv_lines = sort_key tlv_reference_entry_id vs\<rparr>)))))))"

subsection \<open>The command\<close>

definition reads_transfer :: "led_response \<Rightarrow> bool" where
  "reads_transfer v = (case v of TransferResponse _ \<Rightarrow> True | _ \<Rightarrow> False)"

definition prepare_transfer :: "led_env \<Rightarrow> uuid \<Rightarrow> uuid \<Rightarrow> string \<Rightarrow> transfer_input \<Rightarrow> led_error + string \<times> string" where
  "prepare_transfer env tenant actor key inp =
     rbind (ensure (\<not> (is_nil tenant \<or> is_nil actor))
       (LedValidation ''tenant_id and actor_id must not be nil'')) (\<lambda>_.
     rbind (validate_transfer_input inp) (\<lambda>_.
     rbind (led_normalize_idempotency_key key) (\<lambda>key.
     rbind (led_command_request_hash env ''post_seller_balance_transfer'' actor (transfer_to_value env inp)) (\<lambda>hash.
     Inr (key, hash)))))"

text \<open>
  The command up to its answer, without the rebuild of the seller's balance that the source runs
  before it returns, on a replay as well. \<open>post_balance_transfer_with_receipt\<close> is the whole command.
\<close>

definition transfer_answer ::
    "led_env \<Rightarrow> led_store \<Rightarrow> led_store \<Rightarrow> led_store \<Rightarrow> uuid \<Rightarrow> uuid \<Rightarrow> string \<Rightarrow> transfer_input
     \<Rightarrow> led_store \<times> (led_error + led_response)" where
  "transfer_answer env before seen s tenant actor key inp =
     (case prepare_transfer env tenant actor key inp of
        Inl e \<Rightarrow> (s, Inl e)
      | Inr (key, hash) \<Rightarrow>
          led_with_receipt env before seen s tenant actor key ''post_seller_balance_transfer'' hash reads_transfer
            (Inr ()) (\<lambda>_. post_transfer_in_transaction env tenant inp))"

definition post_balance_transfer_with_receipt ::
    "led_env \<Rightarrow> led_store \<Rightarrow> led_store \<Rightarrow> led_store \<Rightarrow> uuid \<Rightarrow> uuid \<Rightarrow> string \<Rightarrow> transfer_input
     \<Rightarrow> led_store \<times> (led_error + led_response)" where
  "post_balance_transfer_with_receipt env before seen s tenant actor key inp =
     (case transfer_answer env before seen s tenant actor key inp of
        (s', Inr (TransferResponse v)) \<Rightarrow>
          (case rebuild_seller_balance_projection env s' s' s' tenant (trv_seller_id v) (trv_currency_code v) of
             (s'', Inl e) \<Rightarrow> (s'', Inl e)
           | (s'', Inr _) \<Rightarrow> (s'', Inr (TransferResponse v)))
      | (s', res) \<Rightarrow> (s', res))"

subsection \<open>The rows of a transfer\<close>

primrec moved_entries ::
    "led_env \<Rightarrow> uuid \<Rightarrow> transfer_input \<Rightarrow> string \<Rightarrow> nat \<Rightarrow> (transfer_line_input \<times> entry_row) list \<Rightarrow> entry_row list" where
  "moved_entries env tenant inp cur i [] = []"
| "moved_entries env tenant inp cur i (x # refs) =
     [transfer_entry_row env tenant inp cur (2 * i) (snd x) (fst (transfer_buckets (tri_kind inp))) Debit (tli_amount (fst x)),
      transfer_entry_row env tenant inp cur (2 * i + 1) (snd x) (snd (transfer_buckets (tri_kind inp))) Credit (tli_amount (fst x))]
     @ moved_entries env tenant inp cur (i + 1) refs"

primrec moved_buckets ::
    "led_env \<Rightarrow> uuid \<Rightarrow> transfer_input \<Rightarrow> nat \<Rightarrow> (transfer_line_input \<times> entry_row) list \<Rightarrow> bucket_row list" where
  "moved_buckets env tenant inp i [] = []"
| "moved_buckets env tenant inp i (x # refs) =
     [transfer_bucket_row env tenant inp (2 * i) (the (le_seller_id (snd x))) (fst (transfer_buckets (tri_kind inp))),
      transfer_bucket_row env tenant inp (2 * i + 1) (the (le_seller_id (snd x))) (snd (transfer_buckets (tri_kind inp)))]
     @ moved_buckets env tenant inp (i + 1) refs"

primrec moved_lines ::
    "led_env \<Rightarrow> uuid \<Rightarrow> nat \<Rightarrow> (transfer_line_input \<times> entry_row) list \<Rightarrow> transfer_line_row list" where
  "moved_lines env tenant i [] = []"
| "moved_lines env tenant i (x # refs) =
     transfer_line_row_of env tenant i (le_id (snd x)) (led_entry_id env (2 * i)) (led_entry_id env (2 * i + 1))
       (tli_amount (fst x)) # moved_lines env tenant (i + 1) refs"

lemma transfer_row_simps [simp]:
  "le_id (transfer_entry_row env tenant inp cur n r b dir amt) = led_entry_id env n"
  "le_tenant_id (transfer_entry_row env tenant inp cur n r b dir amt) = tenant"
  "le_transaction_id (transfer_entry_row env tenant inp cur n r b dir amt) = led_tx_id env"
  "le_seller_id (transfer_entry_row env tenant inp cur n r b dir amt) = le_seller_id r"
  "le_account_code (transfer_entry_row env tenant inp cur n r b dir amt) = account_code_as_str SellerPayable"
  "le_direction (transfer_entry_row env tenant inp cur n r b dir amt) = direction_as_str dir"
  "le_currency_code (transfer_entry_row env tenant inp cur n r b dir amt) = cur"
  "le_amount (transfer_entry_row env tenant inp cur n r b dir amt) = amt"
  "eb_tenant_id (transfer_bucket_row env tenant inp n sel b) = tenant"
  "eb_entry_id (transfer_bucket_row env tenant inp n sel b) = led_entry_id env n"
  "eb_balance_bucket (transfer_bucket_row env tenant inp n sel b) = bucket_as_str b"
  "tl_tenant_id (transfer_line_row_of env tenant i ref d c amt) = tenant"
  "tl_reference_entry_id (transfer_line_row_of env tenant i ref d c amt) = ref"
  "tl_amount (transfer_line_row_of env tenant i ref d c amt) = amt"
  by (simp_all add: transfer_entry_row_def transfer_bucket_row_def transfer_line_row_of_def)

lemma moved_rows:
  "e \<in> set (moved_entries env tenant inp cur i refs) \<Longrightarrow>
     of_tx tenant (led_tx_id env) e \<and> le_direction e \<in> range direction_as_str
     \<and> (\<exists>x \<in> set refs. le_amount e = tli_amount (fst x))"
  by (induction refs arbitrary: i) (auto simp: of_tx_def)

lemma moved_ids: "eb_entry_id ` set (moved_buckets env tenant inp i refs) = le_id ` set (moved_entries env tenant inp cur i refs)"
  by (induction refs arbitrary: i) auto

lemma moved_classes: "classes_ok (moved_buckets env tenant inp i refs) []"
  by (induction refs arbitrary: i) (auto simp: classes_ok_def)

lemma moved_references: "tl_reference_entry_id ` set (moved_lines env tenant i refs) = le_id ` snd ` set refs"
  by (induction refs arbitrary: i) auto

lemma moved_sum: "dir_sum d (moved_entries env tenant inp cur i refs) = sum_list (map (\<lambda>x. tli_amount (fst x)) refs)"
  by (induction refs arbitrary: i) (cases d; auto simp: dir_sum_def)+

lemma moved_transferred:
  "transferred_of (moved_lines env tenant i refs) e = (if le_tenant_id e = tenant
     then sum_list (map (\<lambda>x. tli_amount (fst x)) (filter (\<lambda>x. le_id (snd x) = le_id e) refs)) else 0)"
  by (induction refs arbitrary: i) (auto simp: transferred_of_def)

lemma moved_balance:
  assumes "distinct (map le_id (moved_entries env tenant inp cur i refs))"
    and "\<forall>x \<in> set refs. le_seller_id (snd x) = Some seller"
  shows "balance_of (moved_buckets env tenant inp i refs) [] (moved_entries env tenant inp cur i refs) t sel c b
    = (if t = tenant \<and> sel = seller \<and> c = cur
       then (if b = snd (transfer_buckets (tri_kind inp)) then sum_list (map (\<lambda>x. tli_amount (fst x)) refs) else 0)
         - (if b = fst (transfer_buckets (tri_kind inp)) then sum_list (map (\<lambda>x. tli_amount (fst x)) refs) else 0)
       else 0)"
  using assms
proof (induction refs arbitrary: i)
  case (Cons x refs)
  let ?from = "fst (transfer_buckets (tri_kind inp))" and ?to = "snd (transfer_buckets (tri_kind inp))"
  let ?e1 = "transfer_entry_row env tenant inp cur (2 * i) (snd x) ?from Debit (tli_amount (fst x))"
  let ?e2 = "transfer_entry_row env tenant inp cur (2 * i + 1) (snd x) ?to Credit (tli_amount (fst x))"
  let ?b1 = "transfer_bucket_row env tenant inp (2 * i) (the (le_seller_id (snd x))) ?from"
  let ?b2 = "transfer_bucket_row env tenant inp (2 * i + 1) (the (le_seller_id (snd x))) ?to"
  have ids: "led_entry_id env (2 * i) \<noteq> led_entry_id env (2 * i + 1)" using Cons.prems(1) by auto
  have one: "balance_of [?b1, ?b2] [] [?e1, ?e2] t sel c b = (if t = tenant \<and> sel = seller \<and> c = cur
      then (if b = ?to then tli_amount (fst x) else 0) - (if b = ?from then tli_amount (fst x) else 0) else 0)"
    using ids Cons.prems(2)
    by (auto simp: balance_of_def payable_to_def class_of_def signed_amount_def bucket_text.render_inject
        direction_text.render_inject simp del: direction_as_str.simps bucket_as_str.simps)
  have "balance_of ([?b1, ?b2] @ moved_buckets env tenant inp (i + 1) refs) ([] @ [])
        ([?e1, ?e2] @ moved_entries env tenant inp cur (i + 1) refs) t sel c b
      = balance_of [?b1, ?b2] [] [?e1, ?e2] t sel c b
        + balance_of (moved_buckets env tenant inp (i + 1) refs) [] (moved_entries env tenant inp cur (i + 1) refs) t sel c b"
    by (rule balance_of_append) (use Cons.prems(1) moved_ids [of env tenant inp "i + 1" refs cur] in auto)
  then show ?case using Cons.IH [of "i + 1"] Cons.prems one by auto
qed (simp add: balance_of_def)

lemma insert_transfer_entry_Inr:
  assumes "insert_transfer_entry env tenant inp cur n r b dir amt (es, bs) = Inr ((es', bs'), v)"
  shows "es' = es @ [transfer_entry_row env tenant inp cur n r b dir amt]"
    and "bs' = bs @ [transfer_bucket_row env tenant inp n (the (le_seller_id r)) b]"
    and "unique_rows entry_clash es \<longrightarrow> unique_rows entry_clash es'"
    and "unique_rows bucket_clash bs \<longrightarrow> unique_rows bucket_clash bs'"
    and "le_id v = led_entry_id env n"
proof -
  from assms obtain sel where i: "insert_unique entry_clash (transfer_entry_row env tenant inp cur n r b dir amt) es = Some es'"
    "insert_unique bucket_clash (transfer_bucket_row env tenant inp n sel b) bs = Some bs'" "le_seller_id r = Some sel"
    and v: "read_entry (transfer_entry_row env tenant inp cur n r b dir amt) = Inr v"
    by (auto simp: insert_transfer_entry_def Let_def)
  show "es' = es @ [transfer_entry_row env tenant inp cur n r b dir amt]"
    "unique_rows entry_clash es \<longrightarrow> unique_rows entry_clash es'"
    using entry_unique_insert [OF i(1)] by simp_all
  show "bs' = bs @ [transfer_bucket_row env tenant inp n (the (le_seller_id r)) b]"
    "unique_rows bucket_clash bs \<longrightarrow> unique_rows bucket_clash bs'"
    using i(2,3) bucket_table.unique_insert [OF _ i(2)] by (simp_all add: bucket_table.insert_unique_Some)
  show "le_id v = led_entry_id env n" using v by (auto simp: read_entry_def)
qed

lemma post_transfer_lines_Inr:
  assumes "post_transfer_lines env tenant inp cur i refs ((es, bs), ls, vs) = Inr ((es', bs'), ls', vs')"
  shows "es' = es @ moved_entries env tenant inp cur i refs \<and> bs' = bs @ moved_buckets env tenant inp i refs
    \<and> ls' = ls @ moved_lines env tenant i refs
    \<and> (unique_rows entry_clash es \<longrightarrow> unique_rows entry_clash es')
    \<and> (unique_rows bucket_clash bs \<longrightarrow> unique_rows bucket_clash bs')
    \<and> (unique_rows transfer_line_clash ls \<longrightarrow> unique_rows transfer_line_clash ls')"
  using assms
proof (induction refs arbitrary: i es bs ls vs)
  case (Cons x refs)
  obtain l r where x: "x = (l, r)" by (cases x)
  obtain from_b to_b where ft: "transfer_buckets (tri_kind inp) = (from_b, to_b)" by (cases "transfer_buckets (tri_kind inp)")
  from Cons.prems obtain es1 bs1 d es2 bs2 c ls1 vs1 where
    i1: "insert_transfer_entry env tenant inp cur (2 * i) r from_b Debit (tli_amount l) (es, bs) = Inr ((es1, bs1), d)"
    and i2: "insert_transfer_entry env tenant inp cur (2 * i + 1) r to_b Credit (tli_amount l) (es1, bs1) = Inr ((es2, bs2), c)"
    and i3: "insert_unique transfer_line_clash
        (transfer_line_row_of env tenant i (le_id r) (le_id d) (le_id c) (tli_amount l)) ls = Some ls1"
    and rest: "post_transfer_lines env tenant inp cur (i + 1) refs ((es2, bs2), ls1, vs1) = Inr ((es', bs'), ls', vs')"
    by (auto simp: x ft)
  note r1 = insert_transfer_entry_Inr [OF i1] and r2 = insert_transfer_entry_Inr [OF i2]
  have ls1: "ls1 = ls @ [transfer_line_row_of env tenant i (le_id r) (le_id d) (le_id c) (tli_amount l)]"
    "unique_rows transfer_line_clash ls \<longrightarrow> unique_rows transfer_line_clash ls1"
    using i3 transfer_line_table.unique_insert [OF _ i3] by (simp_all add: transfer_line_table.insert_unique_Some)
  from Cons.IH [OF rest] r1 r2 ls1 show ?case by (auto simp: x ft)
qed simp

subsection \<open>What is admitted\<close>

lemma prior_amounts_Inr:
  "prior_amounts prn ls m = Inr m' \<Longrightarrow>
     (case m' i of Some v \<Rightarrow> v | None \<Rightarrow> 0) = (case m i of Some v \<Rightarrow> v | None \<Rightarrow> 0)
       + sum_list (map tl_amount (filter (\<lambda>l. tl_reference_entry_id l = i) ls))"
proof (induction ls arbitrary: m)
  case (Cons l ls)
  from Cons.prems have "prior_amounts prn ls (m(tl_reference_entry_id l
      \<mapsto> (case m (tl_reference_entry_id l) of Some v \<Rightarrow> v | None \<Rightarrow> 0) + tl_amount l)) = Inr m'" by auto
  from Cons.IH [OF this] show ?case by (auto split: option.splits)
qed simp

lemma check_reference_Inr:
  assumes "check_reference rc refs ass order l = Inr r"
  shows "tli_reference_entry_id l \<notin> refs" "rc_indexed rc (tli_reference_entry_id l) = Some r"
    "(case rc_prior rc (le_id r) of Some v \<Rightarrow> v | None \<Rightarrow> 0) + tli_amount l \<le> le_amount r"
    "entry_bucket (rc_explicit rc) (rc_reversal rc) (le_id r) = Inr (rc_from rc)"
  using assms by (auto simp: check_reference_def)

lemma check_references_Inr:
  assumes "check_references rc refs ass order ls acc = Inr (acc', order')"
  shows "\<exists>xs. acc' = acc @ xs \<and> map fst xs = ls \<and> distinct (map tli_reference_entry_id ls)
    \<and> tli_reference_entry_id ` set ls \<inter> refs = {}
    \<and> (\<forall>x \<in> set xs. rc_indexed rc (tli_reference_entry_id (fst x)) = Some (snd x)
         \<and> (case rc_prior rc (le_id (snd x)) of Some v \<Rightarrow> v | None \<Rightarrow> 0) + tli_amount (fst x) \<le> le_amount (snd x)
         \<and> entry_bucket (rc_explicit rc) (rc_reversal rc) (le_id (snd x)) = Inr (rc_from rc))"
  using assms
proof (induction ls arbitrary: refs ass order acc)
  case (Cons l ls)
  from Cons.prems obtain r order1 where r: "check_reference rc refs ass order l = Inr r"
    and rest: "check_references rc (insert (tli_reference_entry_id l) refs) (insert (le_assessment_id r) ass) order1 ls
      (acc @ [(l, r)]) = Inr (acc', order')" by auto
  note c = check_reference_Inr [OF r]
  from Cons.IH [OF rest] obtain xs where xs: "acc' = (acc @ [(l, r)]) @ xs" "map fst xs = ls"
    "distinct (map tli_reference_entry_id ls)"
    "tli_reference_entry_id ` set ls \<inter> insert (tli_reference_entry_id l) refs = {}"
    "\<forall>x \<in> set xs. rc_indexed rc (tli_reference_entry_id (fst x)) = Some (snd x)
         \<and> (case rc_prior rc (le_id (snd x)) of Some v \<Rightarrow> v | None \<Rightarrow> 0) + tli_amount (fst x) \<le> le_amount (snd x)
         \<and> entry_bucket (rc_explicit rc) (rc_reversal rc) (le_id (snd x)) = Inr (rc_from rc)" by blast
  show ?case
    by (rule exI [of _ "(l, r) # xs"]) (use xs c in auto)
qed simp

lemma filter_key_single:
  "distinct (map k xs) \<Longrightarrow> x \<in> set xs \<Longrightarrow> filter (\<lambda>y. k y = k x) xs = [x]"
  by (induction xs) (auto simp: filter_empty_conv, metis imageI)

definition admitted_ok :: "uuid \<Rightarrow> transfer_input \<Rightarrow> string \<Rightarrow> led_store \<Rightarrow> int \<Rightarrow> (transfer_line_input \<times> entry_row) list \<Rightarrow> bool" where
  "admitted_ok tenant inp cur s tot refs \<longleftrightarrow>
     tot = sum_list (map (\<lambda>x. tli_amount (fst x)) refs) \<and> 0 < tot \<and> map fst refs = tri_lines inp
     \<and> tot \<le> seller_balance s tenant (tri_seller_id inp) cur (fst (transfer_buckets (tri_kind inp)))
     \<and> (\<forall>x \<in> set refs. snd x \<in> set (payable_entries s tenant (tri_seller_id inp) cur)
          \<and> class_of (bucket_rows s) (reversal_line_rows s) tenant (le_id (snd x))
              = bucket_as_str (fst (transfer_buckets (tri_kind inp)))
          \<and> transferred_of (transfer_line_rows s) (snd x) + tli_amount (fst x) \<le> le_amount (snd x))
     \<and> distinct (map (\<lambda>x. le_id (snd x)) refs)"

lemma admit_transfer_Inr:
  assumes "books_ok s" and "admit_transfer env tenant inp cur s = Inr (tot, refs, order)"
  shows "admitted_ok tenant inp cur s tot refs"
proof -
  let ?es = "sorted_payable s tenant (tri_seller_id inp) cur" and ?from = "fst (transfer_buckets (tri_kind inp))"
  let ?ids = "set (map tli_reference_entry_id (tri_lines inp))"
  obtain prior totals ord where
    prior: "prior_amounts (led_print_uuid env) (filter (\<lambda>l. tl_tenant_id l = tenant
      \<and> tl_reference_entry_id l \<in> ?ids) (transfer_line_rows s)) Map.empty = Inr prior"
    and totals: "calculate_bucket_totals ?es (rc_explicit (reference_context_of env tenant inp ?es prior s))
      (rc_reversal (reference_context_of env tenant inp ?es prior s)) = Inr totals"
    and tot: "transfer_total inp = Inr tot" and le: "tot \<le> totals_amount totals ?from"
    and refs: "check_references (reference_context_of env tenant inp ?es prior s) {} {} None (tri_lines inp) [] = Inr (refs, ord)"
    using assms(2) by (auto simp: admit_transfer_def Let_def)
  have lines: "map fst refs = tri_lines inp" "distinct (map tli_reference_entry_id (tri_lines inp))"
    and x: "\<And>x. x \<in> set refs \<Longrightarrow> map_of (rev (map (\<lambda>e. (le_id e, e)) ?es)) (tli_reference_entry_id (fst x)) = Some (snd x)
      \<and> (case prior (le_id (snd x)) of Some v \<Rightarrow> v | None \<Rightarrow> 0) + tli_amount (fst x) \<le> le_amount (snd x)
      \<and> entry_bucket (explicit_buckets s tenant (map le_id ?es)) (reversal_buckets s tenant (map le_id ?es)) (le_id (snd x)) = Inr ?from"
    using check_references_Inr [OF refs] by (auto simp: reference_context_of_def)
  have es: "set ?es = set (payable_entries s tenant (tri_seller_id inp) cur)" by (simp add: sorted_payable_def)
  have r: "snd x \<in> set ?es" "le_id (snd x) = tli_reference_entry_id (fst x)" if "x \<in> set refs" for x
    using x [OF that] by (auto dest!: map_of_SomeD)
  have t: "tables_ok s" using assms(1) by (rule books_ok_tables)
  have sums: "map tli_amount (tri_lines inp) = map (\<lambda>x. tli_amount (fst x)) refs"
    by (simp flip: lines(1))
  have "tot = sum_list (map (\<lambda>x. tli_amount (fst x)) refs) \<and> 0 < tot"
    using tot by (auto simp: transfer_total_def sums dest: checked_sum_Inr)
  moreover have "totals_amount totals ?from = seller_balance s tenant (tri_seller_id inp) cur ?from"
    using totals by (intro totals_are_balance [OF t mset_sorted_payable])
      (simp add: calculate_bucket_totals_def bucket_totals_apply_def reference_context_of_def)
  moreover have "class_of (bucket_rows s) (reversal_line_rows s) tenant (le_id (snd x)) = bucket_as_str ?from"
    if "x \<in> set refs" for x
    using entry_bucket_class [OF t, of "le_id (snd x)" "map le_id ?es" tenant] x [OF that] r(1) [OF that]
    by (intro parse_bucket_Inr) simp
  moreover have "transferred_of (transfer_line_rows s) (snd x) + tli_amount (fst x) \<le> le_amount (snd x)" if "x \<in> set refs" for x
  proof -
    have ten: "le_tenant_id (snd x) = tenant" using r(1) [OF that] es by (simp add: payable_entries_def)
    have "le_id (snd x) \<in> ?ids" using r(2) [OF that] that lines(1) by (metis image_eqI list.set_map)
    then have "filter (\<lambda>l. tl_reference_entry_id l = le_id (snd x)) (filter (\<lambda>l. tl_tenant_id l = tenant
        \<and> tl_reference_entry_id l \<in> ?ids) (transfer_line_rows s))
      = filter (\<lambda>l. tl_tenant_id l = tenant \<and> tl_reference_entry_id l = le_id (snd x)) (transfer_line_rows s)"
      by (auto intro!: filter_cong)
    then have "(case prior (le_id (snd x)) of Some v \<Rightarrow> v | None \<Rightarrow> 0) = transferred_of (transfer_line_rows s) (snd x)"
      using prior_amounts_Inr [OF prior, of "le_id (snd x)"] ten by (simp add: transferred_of_def)
    with x [OF that] show ?thesis by simp
  qed
  moreover have "distinct (map (\<lambda>x. le_id (snd x)) refs)"
  proof -
    have "map (\<lambda>x. le_id (snd x)) refs = map tli_reference_entry_id (map fst refs)" using r(2) by simp
    then show ?thesis using lines by simp
  qed
  ultimately show ?thesis using le lines(1) r(1) es by (simp add: admitted_ok_def)
qed

lemma admitted_capacity:
  assumes "books_ok s" and "admitted_ok tenant inp cur s tot refs" and "e \<in> set (entry_rows s)"
  shows "transferred_of (transfer_line_rows s) e + transferred_of (moved_lines env tenant i refs) e \<le> le_amount e"
proof (cases "le_tenant_id e = tenant \<and> (\<exists>x \<in> set refs. le_id (snd x) = le_id e)")
  case True
  then obtain x where x: "x \<in> set refs" "le_id (snd x) = le_id e" by blast
  have "snd x \<in> set (entry_rows s)" using assms(2) x(1) by (auto simp: admitted_ok_def payable_entries_def)
  then have "snd x = e" using books_ok_inj [OF assms(1)] assms(3) x(2) by (auto simp: inj_on_def)
  moreover have "filter (\<lambda>y. le_id (snd y) = le_id (snd x)) refs = [x]"
    by (rule filter_key_single) (use assms(2) x(1) in \<open>simp_all add: admitted_ok_def\<close>)
  ultimately show ?thesis using assms(2) x(1) True by (auto simp: admitted_ok_def moved_transferred)
next
  case False
  then have "transferred_of (moved_lines env tenant i refs) e = 0"
    by (auto simp: moved_transferred filter_empty_conv filter_False)
  then show ?thesis using books_ok_bounds(2) [OF assms(1,3)] by simp
qed

subsection \<open>The effect of a transfer\<close>

lemma transfer_body:
  assumes "post_transfer_in_transaction env tenant inp tx = Inr (tx', v)"
  shows "led_receipt_rows tx' = led_receipt_rows tx" and "reads_transfer v"
    and "\<exists>cur tot refs order txs trs rows buckets lines vs.
      led_normalize_currency (tri_currency_code inp) = Inr cur
      \<and> admit_transfer env tenant inp cur tx = Inr (tot, refs, order)
      \<and> insert_unique tx_clash (transfer_tx_row env tenant inp cur order tot) (tx_rows tx) = Some txs
      \<and> insert_unique transfer_clash (transfer_row_of env tenant inp cur tot) (transfer_rows tx) = Some trs
      \<and> post_transfer_lines env tenant inp cur 0 refs ((entry_rows tx, bucket_rows tx), transfer_line_rows tx, [])
           = Inr ((rows, buckets), lines, vs)
      \<and> tx' = tx\<lparr>tx_rows := txs, transfer_rows := trs, entry_rows := rows, bucket_rows := buckets,
                 transfer_line_rows := lines\<rparr>"
  using assms by (auto simp: post_transfer_in_transaction_def Let_def reads_transfer_def)

lemma admit_transfer_receipts [simp]:
  "admit_transfer env tenant inp cur (s\<lparr>led_receipt_rows := rs\<rparr>) = admit_transfer env tenant inp cur s"
  by (simp add: admit_transfer_def sorted_payable_def payable_entries_def reference_context_of_def
      explicit_buckets_def reversal_buckets_def)

lemma transfer_extends:
  assumes "books_ok s" and pos: "\<forall>l \<in> set (tri_lines inp). 0 < tli_amount l"
    and "led_commits env s tenant actor k kind h (post_transfer_in_transaction env tenant inp) v s'"
  shows "\<exists>cur order tot refs. led_normalize_currency (tri_currency_code inp) = Inr cur
    \<and> admitted_ok tenant inp cur s tot refs
    \<and> books_extend s (transfer_tx_row env tenant inp cur order tot) (moved_entries env tenant inp cur 0 refs)
        (moved_buckets env tenant inp 0 refs) [] (moved_lines env tenant 0 refs) s'
    \<and> balance_rows s' = balance_rows s \<and> reads_transfer v"
proof -
  obtain tx rs rs' where body: "post_transfer_in_transaction env tenant inp (s\<lparr>led_receipt_rows := rs\<rparr>) = Inr (tx, v)"
    and s': "s' = tx\<lparr>led_receipt_rows := rs'\<rparr>" and r: "led_receipted env s tenant actor k kind h v s'"
    using assms(3) by (auto simp: led_commits_def)
  obtain cur tot refs order txs trs rows buckets lines vs where cur: "led_normalize_currency (tri_currency_code inp) = Inr cur"
    and adm: "admit_transfer env tenant inp cur s = Inr (tot, refs, order)"
    and i: "insert_unique tx_clash (transfer_tx_row env tenant inp cur order tot) (tx_rows s) = Some txs"
      "insert_unique transfer_clash (transfer_row_of env tenant inp cur tot) (transfer_rows s) = Some trs"
    and loop: "post_transfer_lines env tenant inp cur 0 refs ((entry_rows s, bucket_rows s), transfer_line_rows s, [])
           = Inr ((rows, buckets), lines, vs)"
    and tx: "tx = s\<lparr>led_receipt_rows := rs, tx_rows := txs, transfer_rows := trs, entry_rows := rows,
      bucket_rows := buckets, transfer_line_rows := lines\<rparr>"
    using transfer_body(3) [OF body] by auto
  let ?t = "transfer_tx_row env tenant inp cur order tot" and ?es = "moved_entries env tenant inp cur 0 refs"
  let ?bs = "moved_buckets env tenant inp 0 refs" and ?ls = "moved_lines env tenant 0 refs"
  have ok: "admitted_ok tenant inp cur s tot refs" by (rule admit_transfer_Inr [OF assms(1) adm])
  note l = post_transfer_lines_Inr [OF loop]
  have tables: "tables_ok s" using assms(1) by (rule books_ok_tables)
  have "unique_rows led_receipt_clash (led_receipt_rows s')" using led_receipted_unique [OF r] tables by (simp add: tables_ok_def)
  moreover have "unique_rows tx_clash txs" "unique_rows transfer_clash trs"
    using tx_table.unique_insert [OF _ i(1)] transfer_table.unique_insert [OF _ i(2)] tables by (simp_all add: tables_ok_def)
  moreover have "unique_rows entry_clash rows" "unique_rows bucket_clash buckets" "unique_rows transfer_line_clash lines"
    using l tables unfolding tables_ok_def by blast+
  ultimately have t': "tables_ok s'" using tables by (simp add: tables_ok_def s' tx)
  have es: "of_tx (lt_tenant_id ?t) (lt_id ?t) e \<and> 0 \<le> le_amount e \<and> le_direction e \<in> range direction_as_str"
    if "e \<in> set ?es" for e
  proof -
    note m = moved_rows [OF that]
    obtain x where x: "x \<in> set refs" "le_amount e = tli_amount (fst x)" using m by blast
    have "fst x \<in> set (tri_lines inp)" using ok x(1) by (metis admitted_ok_def image_eqI list.set_map)
    then show ?thesis using m pos x(2) by (force simp: transfer_tx_row_def)
  qed
  have refs: "eb_entry_id ` set ?bs \<subseteq> le_id ` set ?es" "tl_reference_entry_id ` set ?ls \<subseteq> le_id ` set (entry_rows s)"
    using moved_ids [of env tenant inp 0 refs cur] moved_references [of env tenant 0 refs] ok
    by (auto simp: admitted_ok_def payable_entries_def)
  have "books_extend s ?t ?es ?bs [] ?ls s'"
    using i(1) l t' es refs moved_classes by (simp add: books_extend_def s' tx tx_table.insert_unique_Some)
  moreover have "balance_rows s' = balance_rows s" by (simp add: s' tx)
  ultimately show ?thesis using cur ok transfer_body(2) [OF body] by blast
qed

lemma transfer_books_ok:
  assumes "books_ok s" and "\<forall>l \<in> set (tri_lines inp). 0 < tli_amount l"
    and "led_commits env s tenant actor k kind h (post_transfer_in_transaction env tenant inp) v s'"
  shows "books_ok s'"
proof -
  obtain cur order tot refs where ok: "admitted_ok tenant inp cur s tot refs"
    and ext: "books_extend s (transfer_tx_row env tenant inp cur order tot) (moved_entries env tenant inp cur 0 refs)
        (moved_buckets env tenant inp 0 refs) [] (moved_lines env tenant 0 refs) s'"
    using transfer_extends [OF assms] by blast
  have tot: "tot = sum_list (map (\<lambda>x. tli_amount (fst x)) refs)" using ok by (simp add: admitted_ok_def)
  show ?thesis
    by (rule books_extend_ok [OF assms(1) ext])
      (use books_ok_bounds [OF assms(1)] admitted_capacity [OF assms(1) ok] in
        \<open>simp_all add: moved_sum transfer_tx_row_def tot reversed_of_def [of "[]"]\<close>)
qed

text \<open>
  On the account of a seller, a transfer moves its total from the source bucket, which held at
  least that much, to the destination bucket.
\<close>

definition moved_total :: "transfer_input \<Rightarrow> int" where
  "moved_total inp = sum_list (map tli_amount (tri_lines inp))"

lemma transfer_balance:
  assumes "books_ok s" and "\<forall>l \<in> set (tri_lines inp). 0 < tli_amount l"
    and "led_commits env s tenant actor k kind h (post_transfer_in_transaction env tenant inp) v s'"
    and "led_normalize_currency (tri_currency_code inp) = Inr cur"
    and "transfer_buckets (tri_kind inp) = (from_b, to_b)"
  shows "0 < moved_total inp" "moved_total inp \<le> seller_balance s tenant (tri_seller_id inp) cur from_b"
    and "seller_balance s' t seller c b = seller_balance s t seller c b
      + (if t = tenant \<and> seller = tri_seller_id inp \<and> c = cur
         then (if b = to_b then moved_total inp else 0) - (if b = from_b then moved_total inp else 0) else 0)"
proof -
  obtain order tot refs where ok: "admitted_ok tenant inp cur s tot refs"
    and ext: "books_extend s (transfer_tx_row env tenant inp cur order tot) (moved_entries env tenant inp cur 0 refs)
        (moved_buckets env tenant inp 0 refs) [] (moved_lines env tenant 0 refs) s'"
    using transfer_extends [OF assms(1-3)] assms(4) by auto
  have lines: "tri_lines inp = map fst refs" using ok by (simp add: admitted_ok_def)
  have mt: "moved_total inp = sum_list (map (\<lambda>x. tli_amount (fst x)) refs)"
    by (simp add: moved_total_def lines comp_def)
  then show "0 < moved_total inp" "moved_total inp \<le> seller_balance s tenant (tri_seller_id inp) cur from_b"
    using ok assms(5) by (simp_all add: admitted_ok_def)
  have "unique_rows entry_clash (entry_rows s @ moved_entries env tenant inp cur 0 refs)"
    using ext unfolding books_extend_def tables_ok_def by metis
  note d = unique_entry_ids [OF this]
  have "\<forall>x \<in> set refs. le_seller_id (snd x) = Some (tri_seller_id inp)"
    using ok by (auto simp: admitted_ok_def payable_entries_def)
  from moved_balance [OF d this] show "seller_balance s' t seller c b = seller_balance s t seller c b
      + (if t = tenant \<and> seller = tri_seller_id inp \<and> c = cur
         then (if b = to_b then moved_total inp else 0) - (if b = from_b then moved_total inp else 0) else 0)"
    by (simp add: balance_extend [OF assms(1) ext] mt assms(5))
qed

lemma transfer_kind_text: "led_normalize_command_kind ''post_seller_balance_transfer'' = Inr ''post_seller_balance_transfer''"
proof -
  have "trim ''post_seller_balance_transfer'' = ''post_seller_balance_transfer''" by (rule trim_plain) (simp add: plain_if_printable)
  then show ?thesis by (simp add: led_normalize_command_kind_def)
qed

lemma prepare_transfer_lines: "prepare_transfer env tenant actor key inp = Inr p \<Longrightarrow> \<forall>l \<in> set (tri_lines inp). 0 < tli_amount l"
  by (auto simp: prepare_transfer_def validate_transfer_input_def check_transfer_line_def)

lemma transfer_outcome:
  assumes "transfer_answer env before seen s tenant actor key inp = (s', res)"
  shows "s' = s \<and> (\<forall>v. res = Inr v \<longrightarrow> (\<exists>k h r. prepare_transfer env tenant actor key inp = Inr (k, h)
             \<and> (led_find_receipt before tenant k = Some r \<or> led_find_receipt seen tenant k = Some r
                \<or> led_find_receipt s tenant k = Some r)))
    \<or> (\<exists>k h v. prepare_transfer env tenant actor key inp = Inr (k, h) \<and> res = Inr v
         \<and> led_commits env s tenant actor k ''post_seller_balance_transfer'' h
              (post_transfer_in_transaction env tenant inp) v s')"
proof (cases "prepare_transfer env tenant actor key inp")
  case (Inl e)
  with assms show ?thesis by (auto simp: transfer_answer_def)
next
  case (Inr p)
  obtain k h where p: "p = (k, h)" by (cases p)
  note run = assms [unfolded transfer_answer_def Inr p sum.case prod.case]
  have keep: "\<forall>b t t' v. post_transfer_in_transaction env tenant inp t = Inr (t', v)
      \<longrightarrow> led_receipt_rows t' = led_receipt_rows t"
    using transfer_body(1) by blast
  from led_with_receipt_outcome [OF run transfer_kind_text] keep Inr p show ?thesis by blast
qed

end
