(* ===== verification/Ledger_Commands.thy ===== *)
theory Ledger_Commands
  imports Ledger_Transfer
begin

text \<open>
  The commands of the marketplace ledger together: its ports
  (\<open>rustok-marketplace-balance/src/ports.rs\<close>), the steps that concurrent callers take on the
  store, the invariant of every reachable store, what each command does to the account of a
  seller, and the replay of receipts.
\<close>

subsection \<open>The ports\<close>

definition led_parse_tenant_id :: "(string \<Rightarrow> uuid option) \<Rightarrow> port_context \<Rightarrow> port_error + uuid" where
  "led_parse_tenant_id parse_uuid ctx =
     rbind (ok_or (parse_uuid (ctx_tenant_id ctx)) (err_validation ''marketplace_ledger.tenant_id_invalid''
       ''PortContext.tenant_id must be a UUID for marketplace ledger ports'')) (\<lambda>i.
     if is_nil i then Inl (err_validation ''marketplace_ledger.tenant_id_invalid''
       ''PortContext.tenant_id must not be nil UUID for marketplace ledger ports'')
     else Inr i)"

definition led_parse_actor_id :: "(string \<Rightarrow> uuid option) \<Rightarrow> port_context \<Rightarrow> port_error + uuid" where
  "led_parse_actor_id parse_uuid ctx =
     rbind (ok_or (parse_uuid (actor_id (ctx_actor ctx))) (err_validation ''marketplace_ledger.actor_id_invalid''
       ''write PortContext.actor.id must be a UUID for marketplace ledger audit'')) (\<lambda>i.
     if is_nil i then Inl (err_validation ''marketplace_ledger.actor_id_invalid''
       ''write PortContext.actor.id must not be nil UUID for marketplace ledger audit'')
     else Inr i)"

definition led_parse_idempotency_key :: "port_context \<Rightarrow> port_error + string" where
  "led_parse_idempotency_key ctx =
     ok_or (case idempotency_key ctx of None \<Rightarrow> None | Some k \<Rightarrow> if trim k = [] then None else Some (trim k))
       (err_validation ''marketplace_ledger.idempotency_key_required''
         ''marketplace ledger write requires an idempotency key'')"

fun led_map_owner_error :: "(uuid \<Rightarrow> string) \<Rightarrow> led_error \<Rightarrow> port_error" where
  "led_map_owner_error prn (TransactionNotFound i) = err_not_found ''marketplace_ledger.transaction_not_found''
     (''marketplace ledger transaction for order '' @ prn i @ '' was not found'')"
| "led_map_owner_error prn (OrderAlreadyPosted i) = err_conflict ''marketplace_ledger.order_already_posted''
     (''marketplace ledger transaction for order '' @ prn i @ '' is already posted'')"
| "led_map_owner_error prn (AssessmentAlreadyPosted i) = err_conflict ''marketplace_ledger.assessment_already_posted''
     (''commission assessment '' @ prn i @ '' is already posted'')"
| "led_map_owner_error prn (ReversalAlreadyPosted i) = err_conflict ''marketplace_ledger.reversal_already_posted''
     (''marketplace ledger reversal source '' @ prn i @ '' is already posted'')"
| "led_map_owner_error prn (BalanceTransferAlreadyPosted i) =
     err_conflict ''marketplace_ledger.balance_transfer_already_posted''
       (''marketplace seller balance transfer source '' @ prn i @ '' is already posted'')"
| "led_map_owner_error prn (SellerBalanceNotFound i c) = err_not_found ''marketplace_ledger.seller_balance_not_found''
     (''marketplace seller balance for seller '' @ prn i @ '' and currency '' @ c @ '' was not found'')"
| "led_map_owner_error prn LedIdempotencyConflict = err_conflict ''marketplace_ledger.idempotency_conflict''
     ''ledger idempotency key is already bound to another request''"
| "led_map_owner_error prn LedReceiptCorrupt = err_invariant_violation ''marketplace_ledger.receipt_corrupt''
     ''ledger receipt requires operator review''"
| "led_map_owner_error prn (LedValidation m) = err_validation ''marketplace_ledger.validation'' m"
| "led_map_owner_error prn (CommissionBoundary c m r k) = port_error_new k c m r"
| "led_map_owner_error prn (LedDatabase m) = port_error_new Unavailable ''marketplace_ledger.storage_unavailable''
     ''marketplace ledger storage is temporarily unavailable'' True"

definition port_read_order_ledger ::
    "(string \<Rightarrow> uuid option) \<Rightarrow> (uuid \<Rightarrow> string) \<Rightarrow> led_store \<Rightarrow> port_context \<Rightarrow> uuid \<Rightarrow> port_error + tx_view" where
  "port_read_order_ledger parse_uuid prn s ctx order =
     rbind (require_policy ctx policy_read) (\<lambda>_.
     rbind (ensure (\<not> is_nil order) (err_validation ''marketplace_ledger.order_id_invalid''
       ''order_id must not be nil UUID'')) (\<lambda>_.
     rbind (led_parse_tenant_id parse_uuid ctx) (\<lambda>tenant.
     map_err (led_map_owner_error prn) (read_order_ledger prn s tenant order))))"

definition port_list_seller_entries ::
    "(string \<Rightarrow> uuid option) \<Rightarrow> (uuid \<Rightarrow> string) \<Rightarrow> led_store \<Rightarrow> port_context \<Rightarrow> uuid \<Rightarrow> string option \<Rightarrow> nat \<Rightarrow> nat
     \<Rightarrow> port_error + entry_view list \<times> nat \<times> nat \<times> nat" where
  "port_list_seller_entries parse_uuid prn s ctx seller currency page per_page =
     rbind (require_policy ctx policy_read) (\<lambda>_.
     rbind (ensure (\<not> is_nil seller) (err_validation ''marketplace_ledger.seller_id_invalid''
       ''seller_id must not be nil UUID'')) (\<lambda>_.
     rbind (led_parse_tenant_id parse_uuid ctx) (\<lambda>tenant.
     map_err (led_map_owner_error prn) (list_seller_entries prn s tenant seller currency page per_page))))"

text \<open>The check of seller and currency that reading and rebuilding a balance share.\<close>

definition port_balance_scope :: "uuid \<Rightarrow> string \<Rightarrow> port_error + string" where
  "port_balance_scope seller currency =
     rbind (ensure (\<not> is_nil seller) (err_validation ''marketplace_ledger.seller_id_invalid''
       ''seller_id must not be nil UUID'')) (\<lambda>_.
     let currency = trim currency in
     rbind (ensure (\<not> (length currency \<noteq> 3 \<or> \<not> list_all is_ascii_alphabetic currency))
       (err_validation ''marketplace_ledger.currency_code_invalid''
         ''currency_code must be an ASCII 3-letter currency code'')) (\<lambda>_.
     Inr (to_ascii_uppercase currency)))"

definition port_read_seller_balance ::
    "(string \<Rightarrow> uuid option) \<Rightarrow> (uuid \<Rightarrow> string) \<Rightarrow> led_store \<Rightarrow> port_context \<Rightarrow> uuid \<Rightarrow> string \<Rightarrow> port_error + balance_view" where
  "port_read_seller_balance parse_uuid prn s ctx seller currency =
     rbind (require_policy ctx policy_read) (\<lambda>_.
     rbind (port_balance_scope seller currency) (\<lambda>currency.
     rbind (led_parse_tenant_id parse_uuid ctx) (\<lambda>tenant.
     map_err (led_map_owner_error prn) (read_seller_balance_projection prn s tenant seller currency))))"

text \<open>What a write port reads from its context.\<close>

definition port_write_context :: "(string \<Rightarrow> uuid option) \<Rightarrow> port_context \<Rightarrow> port_error + uuid \<times> uuid \<times> string" where
  "port_write_context parse_uuid ctx =
     rbind (led_parse_tenant_id parse_uuid ctx) (\<lambda>tenant.
     rbind (led_parse_actor_id parse_uuid ctx) (\<lambda>actor.
     rbind (led_parse_idempotency_key ctx) (\<lambda>key.
     Inr (tenant, actor, key))))"

definition port_post_order_commissions ::
    "(string \<Rightarrow> uuid option) \<Rightarrow> led_env \<Rightarrow> led_store \<Rightarrow> led_store \<Rightarrow> led_store \<Rightarrow> port_context \<Rightarrow> post_input
     \<Rightarrow> led_store \<times> (port_error + led_response)" where
  "port_post_order_commissions parse_uuid env before seen s ctx inp =
     (case rbind (require_policy ctx policy_write) (\<lambda>_.
           rbind (ensure (\<not> is_nil (po_order_id inp)) (err_validation ''marketplace_ledger.order_id_invalid''
             ''order_id must not be nil UUID'')) (\<lambda>_.
           port_write_context parse_uuid ctx)) of
        Inl e \<Rightarrow> (s, Inl e)
      | Inr (tenant, actor, key) \<Rightarrow>
          (case post_order_with_receipt env before seen s ctx tenant actor key inp of
             (s', Inr (PostResponse v)) \<Rightarrow>
               (case rebuild_seller_balances_for_transaction env tenant v s' of
                  (s'', Inl e) \<Rightarrow> (s'', Inl (led_map_owner_error (led_print_uuid env) e))
                | (s'', Inr _) \<Rightarrow> (s'', Inr (PostResponse v)))
           | (s', res) \<Rightarrow> (s', map_err (led_map_owner_error (led_print_uuid env)) res)))"

definition port_post_financial_reversal ::
    "(string \<Rightarrow> uuid option) \<Rightarrow> led_env \<Rightarrow> led_store \<Rightarrow> led_store \<Rightarrow> led_store \<Rightarrow> port_context \<Rightarrow> reversal_input
     \<Rightarrow> led_store \<times> (port_error + led_response)" where
  "port_post_financial_reversal parse_uuid env before seen s ctx inp =
     (case rbind (require_policy ctx policy_write) (\<lambda>_.
           rbind (ensure (\<not> is_nil (rvi_source_id inp)) (err_validation ''marketplace_ledger.source_id_invalid''
             ''source_id must not be nil UUID'')) (\<lambda>_.
           rbind (ensure (\<not> is_nil (rvi_order_id inp)) (err_validation ''marketplace_ledger.order_id_invalid''
             ''order_id must not be nil UUID'')) (\<lambda>_.
           port_write_context parse_uuid ctx))) of
        Inl e \<Rightarrow> (s, Inl e)
      | Inr (tenant, actor, key) \<Rightarrow>
          (case post_reversal_with_receipt env before seen s tenant actor key inp of
             (s', res) \<Rightarrow> (s', map_err (led_map_owner_error (led_print_uuid env)) res)))"

definition port_post_seller_balance_transfer ::
    "(string \<Rightarrow> uuid option) \<Rightarrow> led_env \<Rightarrow> led_store \<Rightarrow> led_store \<Rightarrow> led_store \<Rightarrow> port_context \<Rightarrow> transfer_input
     \<Rightarrow> led_store \<times> (port_error + led_response)" where
  "port_post_seller_balance_transfer parse_uuid env before seen s ctx inp =
     (case rbind (require_policy ctx policy_write) (\<lambda>_.
           rbind (ensure (\<not> is_nil (tri_source_id inp)) (err_validation ''marketplace_ledger.source_id_invalid''
             ''source_id must not be nil UUID'')) (\<lambda>_.
           rbind (ensure (\<not> is_nil (tri_seller_id inp)) (err_validation ''marketplace_ledger.seller_id_invalid''
             ''seller_id must not be nil UUID'')) (\<lambda>_.
           port_write_context parse_uuid ctx))) of
        Inl e \<Rightarrow> (s, Inl e)
      | Inr (tenant, actor, key) \<Rightarrow>
          (case post_balance_transfer_with_receipt env before seen s tenant actor key inp of
             (s', res) \<Rightarrow> (s', map_err (led_map_owner_error (led_print_uuid env)) res)))"

definition port_rebuild_seller_balance ::
    "(string \<Rightarrow> uuid option) \<Rightarrow> led_env \<Rightarrow> led_store \<Rightarrow> led_store \<Rightarrow> led_store \<Rightarrow> port_context \<Rightarrow> uuid \<Rightarrow> string
     \<Rightarrow> led_store \<times> (port_error + balance_view)" where
  "port_rebuild_seller_balance parse_uuid env read seen s ctx seller currency =
     (case rbind (require_policy ctx policy_write) (\<lambda>_.
           rbind (port_balance_scope seller currency) (\<lambda>currency.
           rbind (port_write_context parse_uuid ctx) (\<lambda>(tenant, _).
           Inr (tenant, currency)))) of
        Inl e \<Rightarrow> (s, Inl e)
      | Inr (tenant, currency) \<Rightarrow>
          (case rebuild_seller_balance_projection env read seen s tenant seller currency of
             (s', res) \<Rightarrow> (s', map_err (led_map_owner_error (led_print_uuid env)) res)))"

subsection \<open>The books of every reachable store\<close>

text \<open>A rebuild touches the projection only, whatever the stores its statements saw.\<close>

lemma update_balance_frame:
  assumes "update_balance f m s = Inr (s', r)" and "\<And>r. same_scope (f r) r"
  shows "\<exists>rows. s' = s\<lparr>balance_rows := rows\<rparr>
    \<and> (unique_rows balance_clash (balance_rows s) \<longrightarrow> unique_rows balance_clash rows)"
proof -
  have keep: "same_scope (if sb_id r = sb_id m then f r else r) r" for r
    using assms(2) by (simp add: same_scope_def)
  show ?thesis
    using assms(1) unique_balance_map [OF _ keep] by (auto simp: update_balance_def split: option.splits)
qed

lemma write_balance_frame:
  assumes "write_balance env seen tenant seller cur f s = Inr (s', r)" and "\<And>r. same_scope (f r) r"
  shows "\<exists>rows. s' = s\<lparr>balance_rows := rows\<rparr>
    \<and> (unique_rows balance_clash (balance_rows s) \<longrightarrow> unique_rows balance_clash rows)"
proof -
  have ins: "unique_rows balance_clash (balance_rows s) \<longrightarrow> unique_rows balance_clash rows"
    if "insert_unique balance_clash x (balance_rows s) = Some rows" for x rows
    using balance_table.unique_insert [OF _ that] by blast
  from assms(1) consider m where "update_balance f m s = Inr (s', r)"
    | x rows where "insert_unique balance_clash x (balance_rows s) = Some rows" "s' = s\<lparr>balance_rows := rows\<rparr>"
    by (auto simp: write_balance_def Let_def split: option.splits)
  then show ?thesis
  proof cases
    case 1
    then show ?thesis by (rule update_balance_frame [OF _ assms(2)])
  next
    case 2
    then show ?thesis using ins by blast
  qed
qed

lemma rebuild_frame:
  assumes "rebuild_seller_balance_projection env read seen s tenant seller currency = (s', res)"
  shows "\<exists>rows. s' = s\<lparr>balance_rows := rows\<rparr>
    \<and> (unique_rows balance_clash (balance_rows s) \<longrightarrow> unique_rows balance_clash rows)"
proof -
  have same: "\<exists>rows. s = s\<lparr>balance_rows := rows\<rparr>
      \<and> (unique_rows balance_clash (balance_rows s) \<longrightarrow> unique_rows balance_clash rows)"
    by (rule exI [of _ "balance_rows s"]) simp
  from assms consider "s' = s"
    | cur es t neg n m where "write_balance env seen tenant seller cur (set_balance env es t neg n) s = Inr (s', m)"
    by (auto simp: rebuild_seller_balance_projection_def Let_def split: sum.splits prod.splits)
  then show ?thesis
  proof cases
    case 1
    then show ?thesis using same by simp
  next
    case 2
    then show ?thesis by (rule write_balance_frame [OF _ set_balance_scope])
  qed
qed

lemma books_ok_balance_rows:
  assumes "books_ok s" and "unique_rows balance_clash (balance_rows s) \<longrightarrow> unique_rows balance_clash rows"
  shows "books_ok (s\<lparr>balance_rows := rows\<rparr>)"
proof -
  have "tx_ok (s\<lparr>balance_rows := rows\<rparr>) = tx_ok s" "entry_ok (s\<lparr>balance_rows := rows\<rparr>) = entry_ok s"
    "refs_ok (s\<lparr>balance_rows := rows\<rparr>) = refs_ok s"
    by (auto simp: fun_eq_iff tx_ok_def entry_ok_def refs_ok_def)
  then show ?thesis using assms by (simp add: books_ok_def tables_ok_def)
qed

lemma rebuild_books_ok:
  "books_ok s \<Longrightarrow> rebuild_seller_balance_projection env read seen s tenant seller currency = (s', res) \<Longrightarrow> books_ok s'"
  using rebuild_frame books_ok_balance_rows by blast

lemma rebuild_scopes_books_ok:
  "books_ok s \<Longrightarrow> rebuild_scopes env tenant scopes s vs = (s', res) \<Longrightarrow> books_ok s'"
proof (induction scopes arbitrary: s vs)
  case (Cons sc scopes)
  obtain seller cur where sc: "sc = (seller, cur)" by (cases sc)
  obtain s1 r1 where r: "rebuild_seller_balance_projection env s s s tenant seller cur = (s1, r1)" by fastforce
  have "books_ok s1" by (rule rebuild_books_ok [OF Cons.prems(1) r])
  then show ?case using Cons.IH Cons.prems(2) by (cases r1) (auto simp: sc r)
qed simp

lemma rebuild_all_books_ok:
  "books_ok s \<Longrightarrow> rebuild_seller_balances_for_transaction env tenant t s = (s', res) \<Longrightarrow> books_ok s'"
  by (auto simp: rebuild_seller_balances_for_transaction_def dest: rebuild_scopes_books_ok split: sum.splits prod.splits)

lemma rebuild_scopes_frame: "rebuild_scopes env tenant scopes s vs = (s', res) \<Longrightarrow> \<exists>rows. s' = s\<lparr>balance_rows := rows\<rparr>"
proof (induction scopes arbitrary: s vs)
  case Nil
  then show ?case by (auto intro: exI [of _ "balance_rows s"])
next
  case (Cons sc scopes)
  obtain seller cur where sc: "sc = (seller, cur)" by (cases sc)
  obtain s1 r1 where r: "rebuild_seller_balance_projection env s s s tenant seller cur = (s1, r1)" by fastforce
  obtain rows where rows: "s1 = s\<lparr>balance_rows := rows\<rparr>" using rebuild_frame [OF r] by blast
  show ?case
  proof (cases r1)
    case (Inl e)
    then show ?thesis using Cons.prems rows by (auto simp: sc r)
  next
    case (Inr v)
    then obtain rows' where "s' = s1\<lparr>balance_rows := rows'\<rparr>" using Cons.IH Cons.prems by (auto simp: sc r)
    then show ?thesis using rows by auto
  qed
qed

lemma rebuild_all_frame:
  "rebuild_seller_balances_for_transaction env tenant t s = (s', res) \<Longrightarrow> \<exists>rows. s' = s\<lparr>balance_rows := rows\<rparr>"
  by (auto simp: rebuild_seller_balances_for_transaction_def dest: rebuild_scopes_frame split: sum.splits prod.splits
      intro: exI [of _ "balance_rows s"])

lemma post_books_ok:
  assumes "books_ok s" and "post_order_with_receipt env before seen s ctx tenant actor key inp = (s', res)"
  shows "books_ok s'"
  using post_outcome [OF assms] assms(1) post_order_books_ok [OF assms(1)] by blast

lemma reversal_answer_books_ok:
  assumes "books_ok s" and "reversal_answer env before seen s tenant actor key inp = (s', res)"
  shows "books_ok s'"
  using reversal_outcome [OF assms(2)] assms(1) reversal_books_ok [OF assms(1)] by blast

lemma transfer_answer_books_ok:
  assumes "books_ok s" and "transfer_answer env before seen s tenant actor key inp = (s', res)"
  shows "books_ok s'"
  using transfer_outcome [OF assms(2)] assms(1) transfer_books_ok [OF assms(1) prepare_transfer_lines] by blast

text \<open>
  The steps of concurrent callers: each runs a whole command of the service, except that the
  projections are rebuilt in steps of their own, which may come at any time. The stores that the
  reads outside of the transaction saw are arbitrary.
\<close>

inductive led_step :: "led_store \<Rightarrow> led_store \<Rightarrow> bool" where
  post: "post_order_with_receipt env before seen s ctx tenant actor key inp = (s', res) \<Longrightarrow> led_step s s'"
| reverse: "reversal_answer env before seen s tenant actor key inp' = (s', res) \<Longrightarrow> led_step s s'"
| transfer: "transfer_answer env before seen s tenant actor key inp'' = (s', res) \<Longrightarrow> led_step s s'"
| rebuild: "rebuild_seller_balance_projection env read seen s tenant seller currency = (s', bal) \<Longrightarrow> led_step s s'"

text \<open>The commands of the service, with the rebuilds that follow them, are sequences of these steps.\<close>

lemma rebuild_scopes_steps: "rebuild_scopes env tenant scopes s vs = (s', res) \<Longrightarrow> led_step\<^sup>*\<^sup>* s s'"
proof (induction scopes arbitrary: s vs)
  case (Cons sc scopes)
  obtain seller cur where sc: "sc = (seller, cur)" by (cases sc)
  obtain s1 r1 where r: "rebuild_seller_balance_projection env s s s tenant seller cur = (s1, r1)" by fastforce
  have step: "led_step s s1" by (rule led_step.rebuild [OF r])
  show ?case
  proof (cases r1)
    case (Inl e)
    then show ?thesis using Cons.prems step by (auto simp: sc r)
  next
    case (Inr v)
    then have "led_step\<^sup>*\<^sup>* s1 s'" using Cons.IH Cons.prems by (auto simp: sc r)
    with step show ?thesis by (rule converse_rtranclp_into_rtranclp)
  qed
qed simp

lemma rebuild_all_steps: "rebuild_seller_balances_for_transaction env tenant t s = (s', res) \<Longrightarrow> led_step\<^sup>*\<^sup>* s s'"
  by (auto simp: rebuild_seller_balances_for_transaction_def dest: rebuild_scopes_steps split: sum.splits prod.splits)

lemma reversal_command_steps:
  assumes "post_reversal_with_receipt env before seen s tenant actor key inp = (s', res)"
  shows "led_step\<^sup>*\<^sup>* s s'"
proof -
  obtain s1 r1 where r: "reversal_answer env before seen s tenant actor key inp = (s1, r1)" by fastforce
  have "led_step s s1" by (rule led_step.reverse [OF r])
  moreover have "led_step\<^sup>*\<^sup>* s1 s'"
    using assms by (auto simp: post_reversal_with_receipt_def r dest: rebuild_all_steps
        split: sum.splits led_response.splits prod.splits)
  ultimately show ?thesis by (rule converse_rtranclp_into_rtranclp)
qed

lemma transfer_command_steps:
  assumes "post_balance_transfer_with_receipt env before seen s tenant actor key inp = (s', res)"
  shows "led_step\<^sup>*\<^sup>* s s'"
proof -
  obtain s1 r1 where r: "transfer_answer env before seen s tenant actor key inp = (s1, r1)" by fastforce
  have "led_step s s1" by (rule led_step.transfer [OF r])
  moreover have "led_step\<^sup>*\<^sup>* s1 s'"
    using assms by (auto simp: post_balance_transfer_with_receipt_def r intro: led_step.rebuild
        split: sum.splits led_response.splits prod.splits)
  ultimately show ?thesis by (rule converse_rtranclp_into_rtranclp)
qed

definition empty_ledger :: led_store where
  "empty_ledger = \<lparr>tx_rows = [], entry_rows = [], bucket_rows = [], reversal_rows = [],
     reversal_line_rows = [], transfer_rows = [], transfer_line_rows = [], balance_rows = [], led_receipt_rows = []\<rparr>"

definition led_init :: "led_store \<Rightarrow> bool" where
  "led_init s \<longleftrightarrow> s = empty_ledger"

lemma empty_books_ok: "books_ok empty_ledger"
  by (simp add: books_ok_def tables_ok_def refs_ok_def classes_ok_def empty_ledger_def unique_rows_def)

lemma led_step_books_ok: "led_step s s' \<Longrightarrow> books_ok s \<Longrightarrow> books_ok s'"
  by (induction rule: led_step.induct)
    (auto intro: post_books_ok reversal_answer_books_ok transfer_answer_books_ok rebuild_books_ok)

interpretation ledger_books: transition_invariant led_init led_step "\<lambda>_. True" "\<lambda>_. books_ok"
  by unfold_locales (auto simp: led_init_def empty_books_ok led_step_books_ok)

text \<open>
  C1: in every store that any interleaving of postings, reversals, transfers and rebuilds can
  reach, every transaction carries the sums of its own debit and credit entries and these are
  equal, no entry is negative, and over all commands together no entry was reversed beyond its
  amount nor transferred beyond its amount. Orders are posted, and sources used, at most once.
\<close>

theorem ledger_stays_balanced:
  assumes "reachable led_init led_step n s"
  shows "(\<forall>t \<in> set (tx_rows s).
        lt_debit_total_amount t = dir_sum Debit (filter (of_tx (lt_tenant_id t) (lt_id t)) (entry_rows s))
        \<and> lt_credit_total_amount t = dir_sum Credit (filter (of_tx (lt_tenant_id t) (lt_id t)) (entry_rows s))
        \<and> lt_debit_total_amount t = lt_credit_total_amount t)
    \<and> (\<forall>e \<in> set (entry_rows s). 0 \<le> le_amount e
        \<and> reversed_of (reversal_line_rows s) e \<le> le_amount e
        \<and> transferred_of (transfer_line_rows s) e \<le> le_amount e)
    \<and> (\<forall>t \<in> set (tx_rows s). \<forall>t' \<in> set (tx_rows s). lt_tenant_id t = lt_tenant_id t'
        \<and> lt_source_kind t = lt_source_kind t' \<and> lt_source_id t = lt_source_id t' \<longrightarrow> t = t')"
proof -
  have ok: "books_ok s" by (rule ledger_books.reachable_inv [OF assms]) simp
  then have u: "unique_rows tx_clash (tx_rows s)" by (simp add: books_ok_def tables_ok_def)
  have "t = t'" if "t \<in> set (tx_rows s)" "t' \<in> set (tx_rows s)" "lt_tenant_id t = lt_tenant_id t'"
    "lt_source_kind t = lt_source_kind t'" "lt_source_id t = lt_source_id t'" for t t'
    by (rule tx_table.unique_eq [OF u that(1,2)]) (use that(3-5) in \<open>simp add: tx_clash_def\<close>)
  then show ?thesis using ok by (auto simp: books_ok_def tx_ok_def entry_ok_def)
qed

subsection \<open>What the commands do to the account of a seller\<close>

lemma post_order_balance:
  assumes "books_ok s" and "load_batch env ctx tenant order = Inr b"
    and "led_commits env s tenant actor k kind h (post_order_in_transaction env tenant order at b) v s'"
  shows "seller_balance s' t seller c bk = seller_balance s t seller c bk
    + (if t = tenant \<and> bk = PendingBucket then sum_list (map as_seller_proceeds_amount
         (filter (\<lambda>a. as_seller_id a = seller \<and> as_currency_code a = c) (ba_assessments b))) else 0)"
proof -
  have ok: "batch_ok tenant order (ba_currency_code b) (ba_assessments b)" by (rule load_batch_Inr(3) [OF assms(2)])
  have "balance_of [] [] (posted_entries env tenant 0 (ba_assessments b)) t seller c bk
      = (if t = tenant \<and> bk = PendingBucket then sum_list (map as_seller_proceeds_amount
         (filter (\<lambda>a. as_seller_id a = seller \<and> as_currency_code a = c) (ba_assessments b))) else 0)"
    using posted_entries_balance [of env tenant 0 "ba_assessments b" seller c bk]
      posted_entries_other_tenant [of t tenant "[]" "[]" env 0 "ba_assessments b" seller c bk]
    by (cases "t = tenant") auto
  then show ?thesis by (simp add: balance_extend [OF assms(1) post_order_extends(1) [OF assms(1) ok assms(3)]])
qed

text \<open>
  C25: posting an order credits the proceeds of its assessments to the sellers. A command that
  fails changes nothing. One that changes the store appends entries for the assessments the
  commission service answered, none of which had entries before, and the only effect on any
  account is that the proceeds of each seller are added to the pending bucket.
\<close>

theorem posting_credits_proceeds:
  assumes "books_ok s" and "post_order_with_receipt env before seen s ctx tenant actor key inp = (s', res)"
  shows "(\<not> is_ok res \<longrightarrow> s' = s)
    \<and> (s' \<noteq> s \<longrightarrow> (\<exists>as es. commission_reader env ctx (po_order_id inp) = Inr as
         \<and> entry_rows s' = entry_rows s @ es \<and> le_assessment_id ` set es = as_id ` set as
         \<and> dir_sum Debit es = sum_list (map as_allocation_total_amount as)
         \<and> (\<forall>e \<in> set (entry_rows s). le_tenant_id e = tenant \<longrightarrow> le_assessment_id e \<notin> as_id ` set as)
         \<and> (\<forall>t seller c b. seller_balance s' t seller c b = seller_balance s t seller c b
              + (if t = tenant \<and> b = PendingBucket then sum_list (map as_seller_proceeds_amount
                   (filter (\<lambda>a. as_seller_id a = seller \<and> as_currency_code a = c) as)) else 0))))"
proof (cases "s' = s")
  case True
  then show ?thesis by simp
next
  case False
  then obtain k h b v where load: "load_batch env ctx tenant (po_order_id inp) = Inr b" and res: "res = Inr v"
    and c: "led_commits env s tenant actor k ''post_order_commissions'' h
              (post_order_in_transaction env tenant (po_order_id inp) (po_posted_at inp) b) v s'"
    using post_outcome [OF assms] by blast
  note l = load_batch_Inr [OF load] and e = post_order_extends [OF assms(1) load_batch_Inr(3) [OF load] c]
  let ?es = "posted_entries env tenant 0 (ba_assessments b)"
  have ids: "le_assessment_id ` set (posted_entries env tenant n as) = as_id ` set as" for n as
    by (induction as arbitrary: n) auto
  have "entry_rows s' = entry_rows s @ ?es" using e(1) by (simp add: books_extend_def)
  then show ?thesis
    using False res l(1) e(5) ids posted_entries_sums(1) post_order_balance [OF assms(1) load c]
    by (intro conjI impI exI [of _ "ba_assessments b"] exI [of _ ?es]) auto
qed

text \<open>
  C24: a reversal takes back, once per source and kind. A command that fails changes nothing. One
  that changes the store appends entries only, and the only effect on any account is that the
  seller amounts of its lines leave the buckets the lines name.
\<close>

theorem reversal_takes_back:
  assumes "books_ok s" and "reversal_answer env before seen s tenant actor key inp = (s', res)"
  shows "(\<not> is_ok res \<longrightarrow> s' = s)
    \<and> (s' \<noteq> s \<longrightarrow> (\<exists>cur es. led_normalize_currency (rvi_currency_code inp) = Inr cur
         \<and> entry_rows s' = entry_rows s @ es
         \<and> dir_sum Credit es = sum_list (map (\<lambda>l. rli_commission_amount l + rli_seller_amount l) (rvi_lines inp))
         \<and> (\<forall>t seller c b. seller_balance s' t seller c b = seller_balance s t seller c b
              - (if t = tenant \<and> c = cur then sum_list (map rli_seller_amount
                   (filter (\<lambda>l. rli_seller_id l = seller \<and> rli_seller_balance_bucket l = b) (rvi_lines inp))) else 0))))"
proof (cases "s' = s")
  case True
  then show ?thesis by simp
next
  case False
  then obtain k h v where res: "res = Inr v"
    and c: "led_commits env s tenant actor k ''post_financial_reversal'' h (post_reversal_in_transaction env tenant inp) v s'"
    using reversal_outcome [OF assms(2)] by blast
  obtain cur md oss where cur: "led_normalize_currency (rvi_currency_code inp) = Inr cur"
    and ext: "books_extend s (reversal_tx_of env tenant inp cur md)
        (item_entries env tenant inp cur 0 (all_items (rvi_lines inp) oss)) []
        (item_links env tenant 0 (all_items (rvi_lines inp) oss)) [] s'"
    and oss: "list_all2 (line_ok (set (entry_rows s))) (rvi_lines inp) oss"
    using reversal_extends [OF assms(1) c] by blast
  let ?es = "item_entries env tenant inp cur 0 (all_items (rvi_lines inp) oss)"
  have "entry_rows s' = entry_rows s @ ?es" using ext by (simp add: books_extend_def)
  moreover have "dir_sum Credit ?es = sum_list (map (\<lambda>l. rli_commission_amount l + rli_seller_amount l) (rvi_lines inp))"
    by (simp add: item_entries_sum all_items_sums(1) [OF oss])
  ultimately show ?thesis
    using False res cur reversal_balance [OF assms(1) c cur]
    by (intro conjI impI exI [of _ cur] exI [of _ ?es]) (auto simp: reversed_from_def)
qed

text \<open>
  C7: a transfer moves its total, and creates or loses nothing. A command that fails changes
  nothing. One that changes the store moves a positive total between the two buckets of its kind
  on the account of its seller, leaves the source bucket at or above zero, and changes no other
  account; the sum over the buckets stays what it was.
\<close>

theorem transfer_moves_exactly:
  assumes "books_ok s" and "transfer_answer env before seen s tenant actor key inp = (s', res)"
    and "transfer_buckets (tri_kind inp) = (from_b, to_b)"
  shows "(\<not> is_ok res \<longrightarrow> s' = s)
    \<and> (s' \<noteq> s \<longrightarrow> (\<exists>cur total. led_normalize_currency (tri_currency_code inp) = Inr cur
         \<and> total = sum_list (map tli_amount (tri_lines inp)) \<and> 0 < total
         \<and> (\<exists>es. entry_rows s' = entry_rows s @ es)
         \<and> seller_balance s' tenant (tri_seller_id inp) cur =
             (seller_balance s tenant (tri_seller_id inp) cur)
               (from_b := seller_balance s tenant (tri_seller_id inp) cur from_b - total,
                to_b := seller_balance s tenant (tri_seller_id inp) cur to_b + total)
         \<and> 0 \<le> seller_balance s' tenant (tri_seller_id inp) cur from_b
         \<and> (\<forall>t seller c. (t, seller, c) \<noteq> (tenant, tri_seller_id inp, cur)
              \<longrightarrow> seller_balance s' t seller c = seller_balance s t seller c)))"
proof (cases "s' = s")
  case True
  then show ?thesis by simp
next
  case False
  then obtain k h v where prep: "prepare_transfer env tenant actor key inp = Inr (k, h)" and res: "res = Inr v"
    and c: "led_commits env s tenant actor k ''post_seller_balance_transfer'' h (post_transfer_in_transaction env tenant inp) v s'"
    using transfer_outcome [OF assms(2)] by blast
  note pos = prepare_transfer_lines [OF prep]
  obtain cur order tot refs where cur: "led_normalize_currency (tri_currency_code inp) = Inr cur"
    and ext: "books_extend s (transfer_tx_row env tenant inp cur order tot) (moved_entries env tenant inp cur 0 refs)
        (moved_buckets env tenant inp 0 refs) [] (moved_lines env tenant 0 refs) s'"
    using transfer_extends [OF assms(1) pos c] by blast
  note b = transfer_balance [OF assms(1) pos c cur assms(3)]
  have "from_b \<noteq> to_b" using assms(3) by (cases "tri_kind inp") auto
  then have move: "seller_balance s' tenant (tri_seller_id inp) cur =
      (seller_balance s tenant (tri_seller_id inp) cur)
        (from_b := seller_balance s tenant (tri_seller_id inp) cur from_b - moved_total inp,
         to_b := seller_balance s tenant (tri_seller_id inp) cur to_b + moved_total inp)"
    by (auto simp: fun_eq_iff b(3))
  moreover have "seller_balance s' t seller c = seller_balance s t seller c"
    if "(t, seller, c) \<noteq> (tenant, tri_seller_id inp, cur)" for t seller c
    using that by (auto simp: fun_eq_iff b(3))
  moreover have "entry_rows s' = entry_rows s @ moved_entries env tenant inp cur 0 refs"
    using ext by (simp add: books_extend_def)
  ultimately show ?thesis
    using False res cur b(1,2) \<open>from_b \<noteq> to_b\<close>
    by (intro conjI impI exI [of _ cur] exI [of _ "moved_total inp"]) (auto simp: moved_total_def)
qed

subsection \<open>Replay\<close>

datatype led_command =
    PostOrder led_env port_context uuid uuid string post_input
  | PostReversal led_env uuid uuid string reversal_input
  | PostTransfer led_env uuid uuid string transfer_input

fun run_led :: "led_store \<Rightarrow> led_command \<Rightarrow> led_store \<times> (led_error + led_response)" where
  "run_led s (PostOrder env ctx tenant actor key inp) = post_order_with_receipt env s s s ctx tenant actor key inp"
| "run_led s (PostReversal env tenant actor key inp) = post_reversal_with_receipt env s s s tenant actor key inp"
| "run_led s (PostTransfer env tenant actor key inp) = post_balance_transfer_with_receipt env s s s tenant actor key inp"

text \<open>The commands up to their rebuilds of the projections, and these rebuilds.\<close>

fun answer_led :: "led_store \<Rightarrow> led_command \<Rightarrow> led_store \<times> (led_error + led_response)" where
  "answer_led s (PostOrder env ctx tenant actor key inp) = post_order_with_receipt env s s s ctx tenant actor key inp"
| "answer_led s (PostReversal env tenant actor key inp) = reversal_answer env s s s tenant actor key inp"
| "answer_led s (PostTransfer env tenant actor key inp) = transfer_answer env s s s tenant actor key inp"

fun rebuild_after :: "led_command \<Rightarrow> led_response \<Rightarrow> led_store \<Rightarrow> led_store \<times> (led_error + unit)" where
  "rebuild_after (PostReversal env tenant actor key inp) (ReversalResponse v) s =
     map_prod id (map_sum id (\<lambda>_. ())) (rebuild_seller_balances_for_transaction env tenant (rvv_transaction v) s)"
| "rebuild_after (PostTransfer env tenant actor key inp) (TransferResponse v) s =
     map_prod id (map_sum id (\<lambda>_. ()))
       (rebuild_seller_balance_projection env s s s tenant (trv_seller_id v) (trv_currency_code v))"
| "rebuild_after c r s = (s, Inr ())"

lemma run_led_answer: "run_led s c = followed_by (answer_led s c) (rebuild_after c)"
proof (cases c)
  case (PostOrder env ctx tenant actor key inp)
  have "followed_by x (rebuild_after c) = x" for x
    using PostOrder by (cases x; cases "snd x") auto
  then show ?thesis by (simp add: PostOrder)
qed (auto simp: post_reversal_with_receipt_def post_balance_transfer_with_receipt_def
      split: prod.splits sum.splits led_response.splits)

text \<open>What a command is bound to: the kind and reader of its response, tenant, key and hash.\<close>

fun prepare_led :: "led_command \<Rightarrow> led_error + string \<times> (led_response \<Rightarrow> bool) \<times> uuid \<times> string \<times> string" where
  "prepare_led (PostOrder env ctx tenant actor key inp) =
     rbind (prepare_post env tenant actor key inp) (\<lambda>(k, h). Inr (''post_order_commissions'', reads_post, tenant, k, h))"
| "prepare_led (PostReversal env tenant actor key inp) =
     rbind (prepare_reversal env tenant actor key inp) (\<lambda>(k, h). Inr (''post_financial_reversal'', reads_reversal, tenant, k, h))"
| "prepare_led (PostTransfer env tenant actor key inp) =
     rbind (prepare_transfer env tenant actor key inp)
       (\<lambda>(k, h). Inr (''post_seller_balance_transfer'', reads_transfer, tenant, k, h))"

fun lookup_led :: "led_store \<Rightarrow> string \<times> (led_response \<Rightarrow> bool) \<times> uuid \<times> string \<times> string \<Rightarrow> led_receipt option" where
  "lookup_led s (kind, reads, tenant, k, h) = led_find_receipt s tenant k"

fun replay_led :: "led_receipt \<Rightarrow> string \<times> (led_response \<Rightarrow> bool) \<times> uuid \<times> string \<times> string \<Rightarrow> led_error + led_response" where
  "replay_led r (kind, reads, tenant, k, h) = led_replay_command_receipt reads r kind h"

lemma with_receipt_replayed:
  assumes "tenant \<noteq> 0" and "led_find_receipt before tenant k = Some r"
  shows "led_with_receipt env before seen s tenant actor k kind h reads load body
    = (s, led_replay_command_receipt reads r kind h)"
  using assms by (cases "led_replay_command_receipt reads r kind h")
    (simp_all add: led_with_receipt_def led_replay_existing_command_def)

lemma prepare_led_tenant:
  "prepare_post env tenant actor key inp = Inr p \<Longrightarrow> tenant \<noteq> 0"
  "prepare_reversal env tenant actor key inp' = Inr p \<Longrightarrow> tenant \<noteq> 0"
  "prepare_transfer env tenant actor key inp'' = Inr p \<Longrightarrow> tenant \<noteq> 0"
  by (auto simp: prepare_post_def prepare_reversal_def prepare_transfer_def)

lemma commits_recorded:
  assumes "led_commits env s tenant actor k kind h body v s'" and "reads v" and "books_ok s'"
  shows "\<exists>s'' r rc. (s', Inr v) = (s'', Inr r) \<and> books_ok s'' \<and> lookup_led s'' (kind, reads, tenant, k, h) = Some rc
    \<and> replay_led rc (kind, reads, tenant, k, h) = (Inr r :: led_error + led_response)
    \<and> (\<forall>q x. lookup_led s q = Some x \<longrightarrow> lookup_led s'' q = Some x)"
proof -
  have r: "led_receipted env s tenant actor k kind h v s'" using assms(1) by (simp add: led_commits_def)
  have "lookup_led s q = Some x \<longrightarrow> lookup_led s' q = Some x" for q x
    using led_find_receipted(1) [OF r] by (cases q) auto
  then show ?thesis
    using led_find_receipted(2) [OF r] assms(2,3)
    by (intro exI [of _ s'] exI [of _ v]
        exI [of _ "led_completed_receipt env v (led_pending_receipt env tenant actor k kind h)"])
      (simp add: led_replay_completed)
qed

lemma answer_led_outcome:
  assumes "books_ok s" and "prepare_led c = Inr p" and "lookup_led s p = None"
  shows "(\<exists>e. answer_led s c = (s, Inl e))
    \<or> (\<exists>s' r rc. answer_led s c = (s', Inr r) \<and> books_ok s' \<and> lookup_led s' p = Some rc \<and> replay_led rc p = Inr r
         \<and> (\<forall>q x. lookup_led s q = Some x \<longrightarrow> lookup_led s' q = Some x))"
proof -
  obtain s' res where run: "answer_led s c = (s', res)" by fastforce
  have "(s' = s \<and> (\<exists>e. res = Inl e)) \<or> (\<exists>kind reads tenant k h env actor body v. p = (kind, reads, tenant, k, h)
      \<and> res = Inr v \<and> led_commits env s tenant actor k kind h body v s' \<and> reads v \<and> books_ok s')"
  proof (cases c)
    case (PostOrder env ctx tenant actor key inp)
    then obtain k h where p: "prepare_post env tenant actor key inp = Inr (k, h)"
      "p = (''post_order_commissions'', reads_post, tenant, k, h)" using assms(2) by auto
    from post_outcome [OF assms(1), of env s s ctx tenant actor key inp s' res] run assms(3) p PostOrder
    consider e where "s' = s" "res = Inl e" | b v where "load_batch env ctx tenant (po_order_id inp) = Inr b" "res = Inr v"
      "led_commits env s tenant actor k ''post_order_commissions'' h
              (post_order_in_transaction env tenant (po_order_id inp) (po_posted_at inp) b) v s'"
      by (cases res) auto
    then show ?thesis
    proof cases
      case 2
      then show ?thesis
        using p(2) post_order_books_ok [OF assms(1) 2(1,3)]
          post_order_extends(3) [OF assms(1) load_batch_Inr(3) [OF 2(1)] 2(3)] by blast
    qed blast
  next
    case (PostReversal env tenant actor key inp)
    then obtain k h where p: "prepare_reversal env tenant actor key inp = Inr (k, h)"
      "p = (''post_financial_reversal'', reads_reversal, tenant, k, h)" using assms(2) by auto
    from reversal_outcome [of env s s s tenant actor key inp s' res] run assms(3) p PostReversal
    consider e where "s' = s" "res = Inl e" | v where "res = Inr v"
      "led_commits env s tenant actor k ''post_financial_reversal'' h (post_reversal_in_transaction env tenant inp) v s'"
      by (cases res) auto
    then show ?thesis
    proof cases
      case 2
      then show ?thesis using p(2) reversal_books_ok [OF assms(1) 2(2)] reversal_extends [OF assms(1) 2(2)] by blast
    qed blast
  next
    case (PostTransfer env tenant actor key inp)
    then obtain k h where p: "prepare_transfer env tenant actor key inp = Inr (k, h)"
      "p = (''post_seller_balance_transfer'', reads_transfer, tenant, k, h)" using assms(2) by auto
    from transfer_outcome [of env s s s tenant actor key inp s' res] run assms(3) p PostTransfer
    consider e where "s' = s" "res = Inl e" | v where "res = Inr v"
      "led_commits env s tenant actor k ''post_seller_balance_transfer'' h (post_transfer_in_transaction env tenant inp) v s'"
      by (cases res) auto
    then show ?thesis
    proof cases
      case 2
      note pos = prepare_transfer_lines [OF p(1)]
      show ?thesis
        using 2 p(2) transfer_books_ok [OF assms(1) pos 2(2)] transfer_extends [OF assms(1) pos 2(2)] by blast
    qed blast
  qed
  then show ?thesis
  proof (elim disjE exE conjE)
    fix e
    assume "s' = s" "res = Inl e"
    then show ?thesis using run by simp
  next
    fix kind reads tenant k h env actor body v
    assume "p = (kind, reads, tenant, k, h)" "res = Inr v" "reads v" "books_ok s'"
      "led_commits env s tenant actor k kind h body v s'"
    then show ?thesis using commits_recorded [of env s tenant actor k kind h body v s' reads] run by simp
  qed
qed

lemma rebuild_after_frame: "\<exists>rows. fst (rebuild_after c r s) = s\<lparr>balance_rows := rows\<rparr>"
proof (cases "(c, r, s)" rule: rebuild_after.cases)
  case (1 env tenant actor key inp v s')
  then show ?thesis
    using rebuild_all_frame [of env tenant "rvv_transaction v" s] by (cases "rebuild_seller_balances_for_transaction env tenant (rvv_transaction v) s") auto
next
  case (2 env tenant actor key inp v s')
  then show ?thesis
    using rebuild_frame [of env s s s tenant "trv_seller_id v" "trv_currency_code v"]
    by (cases "rebuild_seller_balance_projection env s s s tenant (trv_seller_id v) (trv_currency_code v)") auto
qed (auto intro: exI [of _ "balance_rows s"])

lemma rebuild_after_books_ok: "books_ok s \<Longrightarrow> books_ok (fst (rebuild_after c r s))"
proof (cases "(c, r, s)" rule: rebuild_after.cases)
  case (1 env tenant actor key inp v s')
  then show "books_ok s \<Longrightarrow> ?thesis"
    using rebuild_all_books_ok [of s env tenant "rvv_transaction v"] by (cases "rebuild_seller_balances_for_transaction env tenant (rvv_transaction v) s") auto
next
  case (2 env tenant actor key inp v s')
  then show "books_ok s \<Longrightarrow> ?thesis"
    using rebuild_books_ok [of s env s s tenant "trv_seller_id v" "trv_currency_code v"]
    by (cases "rebuild_seller_balance_projection env s s s tenant (trv_seller_id v) (trv_currency_code v)") auto
qed auto

interpretation ledger_command: followed_command answer_led books_ok prepare_led lookup_led replay_led rebuild_after
proof
  fix c s e
  assume "prepare_led c = Inl e"
  then show "answer_led s c = (s, Inl e)"
    by (cases c) (auto simp: post_order_with_receipt_def reversal_answer_def transfer_answer_def rbind_eq_Inl
        split: prod.splits)
next
  fix c s p rc
  assume p: "prepare_led c = Inr p" "lookup_led s p = Some rc"
  then show "answer_led s c = (s, replay_led rc p)"
    by (cases c) (auto simp: post_order_with_receipt_def reversal_answer_def transfer_answer_def
        intro!: with_receipt_replayed dest: prepare_led_tenant)
next
  fix s c p
  assume "books_ok s" "prepare_led c = Inr p" "lookup_led s p = None"
  then show "(\<exists>e. answer_led s c = (s, Inl e)) \<or> (\<exists>s' r rc. answer_led s c = (s', Inr r) \<and> books_ok s'
      \<and> lookup_led s' p = Some rc \<and> replay_led rc p = Inr r
      \<and> (\<forall>q x. lookup_led s q = Some x \<longrightarrow> lookup_led s' q = Some x))"
    by (rule answer_led_outcome)
next
  fix s c r
  assume "books_ok s"
  then show "books_ok (fst (rebuild_after c r s))"
    using rebuild_after_books_ok by blast
next
  fix s p rc c r
  assume "lookup_led s p = Some rc"
  then show "lookup_led (fst (rebuild_after c r s)) p = Some rc"
    using rebuild_after_frame [of c r s] by (cases p) (auto simp: led_find_receipt_def)
qed

text \<open>
  C26: every command of the ledger takes effect once per idempotency key. Once its transaction was
  committed, be it that the command succeeded or that it failed in the rebuild of a projection that
  follows, and whatever other ledger commands ran since, a repetition of the request (recognised by
  tenant, key, kind and hash, with whatever identifiers and clock) changes nothing but balance
  projections. It has the identical response \<open>r\<close>, and it answers it unless the rebuild it runs
  again fails: then it answers the error of that rebuild. A posting has no rebuild and repeats
  exactly.
\<close>

theorem ledger_replayed:
  assumes "books_ok s" and "run_led s c = (s', res)" and "is_ok res \<or> led_receipt_rows s' \<noteq> led_receipt_rows s"
    and "prepare_led d = prepare_led c" and "s'' = foldl (\<lambda>s d. fst (run_led s d)) s' cs"
  shows "\<exists>r. (\<exists>s1. answer_led s c = (s1, Inr r)) \<and> (\<forall>x. res = Inr x \<longrightarrow> x = r)
    \<and> run_led s'' d = (case rebuild_after d r s'' of (t, Inl e) \<Rightarrow> (t, Inl e) | (t, Inr _) \<Rightarrow> (t, Inr r))
    \<and> (\<exists>rows. fst (run_led s'' d) = s''\<lparr>balance_rows := rows\<rparr>)"
proof -
  obtain s1 res1 where answer: "answer_led s c = (s1, res1)" by fastforce
  have run: "(s', res) = followed_by (s1, res1) (rebuild_after c)"
    using assms(2) answer by (simp add: run_led_answer)
  obtain r where r: "res1 = Inr r"
    using run assms(3) ledger_command.failed_unchanged [OF assms(1), of c s1] answer by (cases res1) auto
  have s': "s' = fst (rebuild_after c r s1)" using run r by (metis followed_by_store fst_conv)
  have "answer_led s'' d = (s'', Inr r)"
    using ledger_command.whole_replays [OF assms(1) answer [unfolded r] assms(4) refl, of cs] assms(5)
    by (simp add: s' run_led_answer)
  then have again: "run_led s'' d
      = (case rebuild_after d r s'' of (t, Inl e) \<Rightarrow> (t, Inl e) | (t, Inr _) \<Rightarrow> (t, Inr r))"
    by (simp add: run_led_answer)
  moreover have "\<exists>rows. fst (run_led s'' d) = s''\<lparr>balance_rows := rows\<rparr>"
    using rebuild_after_frame [of d r s''] unfolding again by (auto split: prod.splits sum.splits)
  moreover have "\<forall>x. res = Inr x \<longrightarrow> x = r" using run r by (auto split: prod.splits sum.splits)
  ultimately show ?thesis using answer r by blast
qed

end
