(* ===== verification/Ledger_Reads.thy ===== *)
theory Ledger_Reads
  imports Ledger_Commands
begin

text \<open>
  What the queries of the ledger answer in the stores the commands reach: the text columns always
  hold texts the readers know, so that reading a posted order or the entries of a seller cannot
  fail on a row, and what is read is the sum of what was written. It also holds what a caller of
  the command ports can conclude from an error.
\<close>

subsection \<open>Rows the readers understand\<close>

definition rows_typed :: "led_store \<Rightarrow> bool" where
  "rows_typed s \<longleftrightarrow>
     (\<forall>t \<in> set (tx_rows s). lt_status t \<in> range tx_status_as_str)
     \<and> (\<forall>e \<in> set (entry_rows s). le_account_code e \<in> range account_code_as_str)"

lemma posted_typed: "\<forall>e \<in> set (posted_entries env tenant n as). le_account_code e \<in> range account_code_as_str"
  by (induction as arbitrary: n) (auto simp: posting_entry_def simp del: account_code_as_str.simps)

lemma reversed_typed: "\<forall>e \<in> set (item_entries env tenant inp cur n its). le_account_code e \<in> range account_code_as_str"
  by (induction its arbitrary: n) (auto simp: reversal_entry_row_def simp del: account_code_as_str.simps)

lemma moved_typed: "\<forall>e \<in> set (moved_entries env tenant inp cur i refs). le_account_code e \<in> range account_code_as_str"
  by (induction refs arbitrary: i) (auto simp: transfer_entry_row_def simp del: account_code_as_str.simps)

lemma typed_extend:
  assumes "rows_typed s" and "books_extend s t es bs rls tls s'" and "lt_status t = tx_status_as_str TxPosted"
    and "\<forall>e \<in> set es. le_account_code e \<in> range account_code_as_str"
  shows "rows_typed s'"
  using assms by (auto simp: rows_typed_def books_extend_def simp del: tx_status_as_str.simps)

lemma post_typed:
  assumes "books_ok s" "rows_typed s" and "post_order_with_receipt env before seen s ctx tenant actor key inp = (s', res)"
  shows "rows_typed s'"
proof (cases "s' = s")
  case False
  then obtain k h b v where load: "load_batch env ctx tenant (po_order_id inp) = Inr b"
    and c: "led_commits env s tenant actor k ''post_order_commissions'' h
              (post_order_in_transaction env tenant (po_order_id inp) (po_posted_at inp) b) v s'"
    using post_outcome [OF assms(1,3)] by blast
  show ?thesis
    by (rule typed_extend [OF assms(2) post_order_extends(1) [OF assms(1) load_batch_Inr(3) [OF load] c]])
      (simp add: posting_tx_row_def, rule posted_typed)
qed (use assms(2) in simp)

lemma reversal_typed:
  assumes "books_ok s" "rows_typed s" and "reversal_answer env before seen s tenant actor key inp = (s', res)"
  shows "rows_typed s'"
proof (cases "s' = s")
  case False
  then obtain k h v where
    c: "led_commits env s tenant actor k ''post_financial_reversal'' h (post_reversal_in_transaction env tenant inp) v s'"
    using reversal_outcome [OF assms(3)] by blast
  obtain cur md oss where ext: "books_extend s (reversal_tx_of env tenant inp cur md)
        (item_entries env tenant inp cur 0 (all_items (rvi_lines inp) oss)) []
        (item_links env tenant 0 (all_items (rvi_lines inp) oss)) [] s'"
    using reversal_extends [OF assms(1) c] by blast
  show ?thesis
    by (rule typed_extend [OF assms(2) ext]) (simp add: reversal_tx_of_def reversal_tx_row_def, rule reversed_typed)
qed (use assms(2) in simp)

lemma transfer_typed:
  assumes "books_ok s" "rows_typed s" and "transfer_answer env before seen s tenant actor key inp = (s', res)"
  shows "rows_typed s'"
proof (cases "s' = s")
  case False
  then obtain k h v where prep: "prepare_transfer env tenant actor key inp = Inr (k, h)"
    and c: "led_commits env s tenant actor k ''post_seller_balance_transfer'' h (post_transfer_in_transaction env tenant inp) v s'"
    using transfer_outcome [OF assms(3)] by blast
  obtain cur order tot refs where
    ext: "books_extend s (transfer_tx_row env tenant inp cur order tot) (moved_entries env tenant inp cur 0 refs)
        (moved_buckets env tenant inp 0 refs) [] (moved_lines env tenant 0 refs) s'"
    using transfer_extends [OF assms(1) prepare_transfer_lines [OF prep] c] by blast
  show ?thesis
    by (rule typed_extend [OF assms(2) ext]) (simp add: transfer_tx_row_def split: prod.split, rule moved_typed)
qed (use assms(2) in simp)

lemma rebuild_typed:
  assumes "rows_typed s" and "rebuild_seller_balance_projection env read seen s tenant seller currency = (s', res)"
  shows "rows_typed s'"
proof -
  obtain rows where "s' = s\<lparr>balance_rows := rows\<rparr>" using rebuild_frame [OF assms(2)] by blast
  then show ?thesis using assms(1) by (simp add: rows_typed_def)
qed

lemma led_step_typed: "led_step s s' \<Longrightarrow> books_ok s \<and> rows_typed s \<Longrightarrow> books_ok s' \<and> rows_typed s'"
  by (induction rule: led_step.induct)
    (auto intro: post_books_ok reversal_answer_books_ok transfer_answer_books_ok rebuild_books_ok
      post_typed reversal_typed transfer_typed rebuild_typed)

interpretation ledger_rows: transition_invariant led_init led_step "\<lambda>_. True" "\<lambda>_ s. books_ok s \<and> rows_typed s"
  by unfold_locales (auto simp: led_init_def empty_books_ok led_step_typed, simp add: rows_typed_def empty_ledger_def)

subsection \<open>Reading a posted order\<close>

definition view_of :: "entry_row \<Rightarrow> entry_view" where
  "view_of m =
     \<lparr>le_id = le_id m, le_tenant_id = le_tenant_id m, le_transaction_id = le_transaction_id m,
      le_order_id = le_order_id m, le_assessment_id = le_assessment_id m,
      le_allocation_id = le_allocation_id m, le_order_line_item_id = le_order_line_item_id m,
      le_seller_id = le_seller_id m, le_account_code = the (account_code_parse (le_account_code m)),
      le_direction = the (direction_parse (le_direction m)), le_currency_code = le_currency_code m,
      le_amount = le_amount m, le_metadata = le_metadata m, le_created_at = le_created_at m\<rparr>"

lemma map_entry_typed:
  assumes "books_ok s" "rows_typed s" "e \<in> set (entry_rows s)"
  shows "map_entry prn e = Inr (view_of e)"
proof -
  have "le_account_code e \<in> range account_code_as_str" "le_direction e \<in> range direction_as_str" "0 \<le> le_amount e"
    using assms by (auto simp: rows_typed_def books_ok_def entry_ok_def)
  then obtain acc dir where a: "le_account_code e = account_code_as_str acc" "le_direction e = direction_as_str dir"
    by blast
  have "account_code_parse (le_account_code e) = Some acc" "direction_parse (le_direction e) = Some dir"
    by (simp_all add: a account_code_text.parse_render direction_text.parse_render del: account_code_as_str.simps direction_as_str.simps)
  then show ?thesis using \<open>0 \<le> le_amount e\<close> by (simp add: map_entry_def read_entry_def view_of_def)
qed

lemma try_map_typed:
  assumes "books_ok s" "rows_typed s" "set es \<subseteq> set (entry_rows s)"
  shows "try_map (map_entry prn) es = Inr (map view_of es)"
  using assms(3) by (induction es) (auto simp: map_entry_typed [OF assms(1,2)])

lemma view_direction:
  assumes "books_ok s" "rows_typed s" "e \<in> set (entry_rows s)"
  shows "le_direction (view_of e) = d \<longleftrightarrow> le_direction e = direction_as_str d"
proof -
  obtain dir where "le_direction e = direction_as_str dir" using assms by (auto simp: books_ok_def entry_ok_def)
  then show ?thesis
    by (simp add: view_of_def direction_text.parse_render del: direction_as_str.simps) (cases dir; cases d; simp)
qed

lemma view_sum:
  assumes "books_ok s" "rows_typed s" "set es \<subseteq> set (entry_rows s)"
  shows "sum_list (map le_amount (filter (\<lambda>v. le_direction v = d) (map view_of es))) = dir_sum d es"
  using assms(3)
  by (induction es) (auto simp: dir_sum_def view_direction [OF assms(1,2)], simp_all add: view_of_def)

text \<open>
  C27: a posted order can always be read. In every store that postings, reversals, transfers and
  rebuilds can reach, reading the ledger of an order fails only because the order was not posted:
  every text a row holds is one the readers know and every amount passes their checks. The answer
  is the transaction with its entries, whose debits and whose credits both add up to its totals.
\<close>

theorem order_ledger_readable:
  assumes "reachable led_init led_step n s" and "tenant \<noteq> 0" "order \<noteq> 0"
  shows "(find_order_tx s tenant order = None \<longrightarrow> read_order_ledger prn s tenant order = Inl (TransactionNotFound order))
    \<and> (\<forall>t. find_order_tx s tenant order = Some t \<longrightarrow> (\<exists>v. read_order_ledger prn s tenant order = Inr v
        \<and> lt_id v = lt_id t \<and> lt_debit_total_amount v = lt_debit_total_amount t
        \<and> sum_list (map le_amount (filter (\<lambda>e. le_direction e = Debit) (lt_entries v))) = lt_debit_total_amount v
        \<and> sum_list (map le_amount (filter (\<lambda>e. le_direction e = Credit) (lt_entries v))) = lt_debit_total_amount v))"
proof (intro conjI allI impI)
  assume "find_order_tx s tenant order = None"
  then show "read_order_ledger prn s tenant order = Inl (TransactionNotFound order)"
    using assms by (simp add: read_order_ledger_def)
next
  fix t
  assume find: "find_order_tx s tenant order = Some t"
  have ok: "books_ok s" "rows_typed s" using ledger_rows.reachable_inv [OF assms(1)] by simp_all
  have t: "t \<in> set (tx_rows s)" "lt_tenant_id t = tenant"
    using find_SomeD [OF find [unfolded find_order_tx_def]] by simp_all
  let ?es = "sort_key le_order_line_item_id (sort_key le_assessment_id
         (sort_key le_account_code (filter (\<lambda>e. le_tenant_id e = tenant \<and> le_transaction_id e = lt_id t) (entry_rows s))))"
  have sub: "set ?es \<subseteq> set (entry_rows s)" by auto
  have sums: "dir_sum d ?es = dir_sum d (filter (of_tx tenant (lt_id t)) (entry_rows s))" for d
    unfolding dir_sum_def by (rule sum_list_perm) (simp add: of_tx_def)
  have "tx_ok s t" using ok(1) t(1) by (simp add: books_ok_def)
  then have tot: "lt_debit_total_amount t = dir_sum Debit ?es" "lt_debit_total_amount t = dir_sum Credit ?es"
    "lt_debit_total_amount t = lt_credit_total_amount t"
    by (simp_all add: tx_ok_def sums t(2))
  obtain st where "lt_status t = tx_status_as_str st" using ok(2) t(1) by (auto simp: rows_typed_def)
  then have "tx_status_parse (lt_status t) = Some st" by (simp add: tx_status_text.parse_render del: tx_status_as_str.simps)
  then obtain v where v: "map_transaction prn t (map view_of ?es) = Inr v" "lt_id v = lt_id t"
    "lt_debit_total_amount v = lt_debit_total_amount t" "lt_entries v = map view_of ?es"
    using tot(3) by (simp add: map_transaction_def)
  have "read_order_ledger prn s tenant order = Inr v"
    using assms find v(1) by (simp add: read_order_ledger_def try_map_typed [OF ok sub])
  moreover have "sum_list (map le_amount (filter (\<lambda>e. le_direction e = Debit) (lt_entries v))) = lt_debit_total_amount v"
    "sum_list (map le_amount (filter (\<lambda>e. le_direction e = Credit) (lt_entries v))) = lt_debit_total_amount v"
    unfolding v(3,4) view_sum [OF ok sub] using tot by simp_all
  ultimately show "\<exists>v. read_order_ledger prn s tenant order = Inr v
        \<and> lt_id v = lt_id t \<and> lt_debit_total_amount v = lt_debit_total_amount t
        \<and> sum_list (map le_amount (filter (\<lambda>e. le_direction e = Debit) (lt_entries v))) = lt_debit_total_amount v
        \<and> sum_list (map le_amount (filter (\<lambda>e. le_direction e = Credit) (lt_entries v))) = lt_debit_total_amount v"
    using v(2,3) by blast
qed

subsection \<open>What an error of a command port means\<close>

text \<open>Sorting rows and reading them is reading them and sorting the views.\<close>

lemma insort_key_map: "insort_key k (g x) (map g xs) = map g (insort_key (\<lambda>x. k (g x)) x xs)"
  by (induction xs) auto

lemma sort_key_map: "sort_key k (map g xs) = map g (sort_key (\<lambda>x. k (g x)) xs)"
  by (induction xs) (simp_all add: insort_key_map)

lemma insort_key_same: "\<forall>y \<in> insert x (set ys). k y = k' y \<Longrightarrow> insort_key k x ys = insort_key k' x ys"
  by (induction ys) auto

lemma sort_key_same: "\<forall>y \<in> set xs. k y = k' y \<Longrightarrow> sort_key k xs = sort_key k' xs"
  by (induction xs) (auto intro: insort_key_same)

lemma map_entry_view:
  assumes "map_entry prn e = Inr v"
  shows "v = view_of e" and "account_code_as_str (le_account_code (view_of e)) = le_account_code e"
  using assms by (auto simp: map_entry_def read_entry_def view_of_def account_code_text.parse_render
      simp del: account_code_as_str.simps dest!: account_code_parse_Some)

lemma sorted_views:
  assumes "try_map (map_entry prn) es = Inr vs"
  shows "try_map (map_entry prn) (sort_key le_order_line_item_id (sort_key le_assessment_id (sort_key le_account_code es)))
    = Inr (sort_posted_entries vs)"
proof -
  have all: "list_all2 (\<lambda>e v. map_entry prn e = Inr v) es vs" using assms by (simp add: try_map_Inr)
  then have each: "\<forall>e \<in> set es. map_entry prn e = Inr (view_of e)
      \<and> account_code_as_str (le_account_code (view_of e)) = le_account_code e"
    using map_entry_view by (fastforce simp: list_all2_conv_all_nth in_set_conv_nth)
  have vs: "vs = map view_of es"
    using all map_entry_view(1) by (intro nth_equalityI) (auto simp: list_all2_conv_all_nth)
  have keys: "le_order_line_item_id (view_of e) = le_order_line_item_id e" "le_assessment_id (view_of e) = le_assessment_id e"
    for e by (simp_all add: view_of_def)
  have "sort_key (\<lambda>e. account_code_as_str (le_account_code (view_of e))) es = sort_key le_account_code es"
    by (rule sort_key_same) (use each in blast)
  then have "sort_posted_entries vs
      = map view_of (sort_key le_order_line_item_id (sort_key le_assessment_id (sort_key le_account_code es)))"
    by (simp add: sort_posted_entries_def vs sort_key_map keys)
  moreover have "try_map (map_entry prn) xs = Inr (map view_of xs)" if "set xs = set es" for xs
    using each that by (simp add: try_map_Inr list_all2_map2 list_all2_same)
  ultimately show ?thesis by simp
qed

text \<open>What a posting answers is what reading the order answers from then on.\<close>

lemma posted_readable:
  assumes "books_ok s" and "tenant \<noteq> 0" "order \<noteq> 0"
    and "batch_ok tenant order (ba_currency_code b) (ba_assessments b)"
    and c: "led_commits env s tenant actor k kind h (post_order_in_transaction env tenant order at b) (PostResponse v) s'"
  shows "read_order_ledger (led_print_uuid env) s' tenant order = Inr v"
proof -
  let ?t = "posting_tx_row env tenant order at b" and ?es = "posted_entries env tenant 0 (ba_assessments b)"
  note e = post_order_extends [OF assms(1,4) c]
  obtain tx rs where body: "post_order_in_transaction env tenant order at b (s\<lparr>led_receipt_rows := rs\<rparr>) = Inr (tx, PostResponse v)"
    using c by (auto simp: led_commits_def)
  then obtain rows vs where loop: "post_assessments env tenant 0 (ba_assessments b) (entry_rows s, []) = Inr (rows, vs)"
    and v: "map_transaction (led_print_uuid env) ?t (sort_posted_entries vs) = Inr v"
    by (auto simp: post_order_in_transaction_def Let_def split: option.splits)
  have vs: "try_map (map_entry (led_print_uuid env)) ?es = Inr vs"
    using post_assessments_Inr [OF loop] by auto
  have rows: "tx_rows s' = tx_rows s @ [?t]" "entry_rows s' = entry_rows s @ ?es"
    and new: "\<And>e. e \<in> set ?es \<Longrightarrow> of_tx tenant (lt_id ?t) e"
    using e(1) by (auto simp: books_extend_def posting_tx_row_def)
  have old: "lt_id ?t \<noteq> le_transaction_id e" if "e \<in> set (entry_rows s)" for e
    using assms(1) that extend_fresh(2) [OF e(1)] by (fastforce simp: books_ok_def entry_ok_def)
  have "filter (\<lambda>e. le_tenant_id e = tenant \<and> le_transaction_id e = lt_id ?t) (entry_rows s) = []"
    using old by (simp add: filter_empty_conv) metis
  moreover have "filter (\<lambda>e. le_tenant_id e = tenant \<and> le_transaction_id e = lt_id ?t) ?es = ?es"
    using new by (auto simp: filter_id_conv of_tx_def)
  ultimately have "filter (\<lambda>e. le_tenant_id e = tenant \<and> le_transaction_id e = lt_id ?t) (entry_rows s') = ?es"
    by (simp add: rows)
  moreover have "find_order_tx s' tenant order = Some ?t"
    using e(4) by (simp add: find_order_tx_def rows find_append posting_tx_row_def)
  ultimately show ?thesis using assms(2,3) v by (simp add: read_order_ledger_def sorted_views [OF vs])
qed

lemma post_replays:
  assumes "books_ok s" and "post_order_with_receipt env s s s ctx tenant actor key inp = (s1, Inr (PostResponse v))"
    and "s1 \<noteq> s" and "t = s1\<lparr>balance_rows := rows\<rparr>"
  shows "find_order_tx s tenant (po_order_id inp) = None"
    and "read_order_ledger (led_print_uuid env) t tenant (po_order_id inp) = Inr v"
    and "post_order_with_receipt env t t t ctx tenant actor key inp = (t, Inr (PostResponse v))"
proof -
  obtain k h b where prep: "prepare_post env tenant actor key inp = Inr (k, h)"
    and load: "load_batch env ctx tenant (po_order_id inp) = Inr b"
    and c: "led_commits env s tenant actor k ''post_order_commissions'' h
              (post_order_in_transaction env tenant (po_order_id inp) (po_posted_at inp) b) (PostResponse v) s1"
    using post_outcome [OF assms(1,2)] assms(3) by blast
  have r: "led_receipted env s tenant actor k ''post_order_commissions'' h (PostResponse v) s1"
    using c by (simp add: led_commits_def)
  have nil: "tenant \<noteq> 0" "po_order_id inp \<noteq> 0" using prep by (auto simp: prepare_post_def)
  show "find_order_tx s tenant (po_order_id inp) = None"
    by (rule post_order_extends(4) [OF assms(1) load_batch_Inr(3) [OF load] c])
  have "read_order_ledger (led_print_uuid env) t tenant (po_order_id inp)
      = read_order_ledger (led_print_uuid env) s1 tenant (po_order_id inp)"
    by (simp add: assms(4) read_order_ledger_def find_order_tx_def)
  then show "read_order_ledger (led_print_uuid env) t tenant (po_order_id inp) = Inr v"
    using posted_readable [OF assms(1) nil load_batch_Inr(3) [OF load] c] by simp
  have "led_find_receipt t tenant k = led_find_receipt s1 tenant k"
    by (simp add: assms(4) led_find_receipt_def)
  then show "post_order_with_receipt env t t t ctx tenant actor key inp = (t, Inr (PostResponse v))"
    using led_find_receipted(2) [OF r] nil(1)
    by (simp add: post_order_with_receipt_def prep with_receipt_replayed led_replay_completed reads_post_def)
qed

text \<open>What the port adds to the command of the service: the rebuild, whose error it answers.\<close>

lemma port_post_admitted:
  assumes "require_policy ctx policy_write = Inr ()" and "po_order_id inp \<noteq> 0"
    and "port_write_context parse_uuid ctx = Inr (tenant, actor, key)"
    and "post_order_with_receipt env before seen s ctx tenant actor key inp = (s1, Inr (PostResponse v))"
  shows "port_post_order_commissions parse_uuid env before seen s ctx inp
    = (case rebuild_seller_balances_for_transaction env tenant v s1 of
         (t, Inl x) \<Rightarrow> (t, Inl (led_map_owner_error (led_print_uuid env) x))
       | (t, Inr _) \<Rightarrow> (t, Inr (PostResponse v)))"
  using assms by (simp add: port_post_order_commissions_def)

text \<open>Where its errors come from.\<close>

lemma port_post_error:
  assumes "port_post_order_commissions parse_uuid env before seen s ctx inp = (s', Inl e)"
  obtains "s' = s"
  | tenant actor key res where
    "post_order_with_receipt env before seen s ctx tenant actor key inp = (s', res)" "\<not> is_ok res"
  | tenant actor key v s1 x where "require_policy ctx policy_write = Inr ()" "po_order_id inp \<noteq> 0"
    "port_write_context parse_uuid ctx = Inr (tenant, actor, key)"
    "post_order_with_receipt env before seen s ctx tenant actor key inp = (s1, Inr (PostResponse v))"
    "rebuild_seller_balances_for_transaction env tenant v s1 = (s', Inl x)"
    "e = led_map_owner_error (led_print_uuid env) x"
  using assms
  by (auto simp: port_post_order_commissions_def rbind_eq_Inr map_err_eq_Inr is_ok_iff
      split: sum.splits prod.splits led_response.splits)

text \<open>
  C28: an error of the posting port never hides a half posted order. When the port answers an
  error, then either nothing but balance projections changed, or the order, which was not posted
  before, is posted whole and only the rebuild of the projections failed, with the error the port
  answered. In that case reading the order answers the committed posting \<open>v\<close>, and repeating the
  call of the port posts nothing again: it runs the rebuild once more, and answers \<open>v\<close>, or the
  error of this rebuild.
\<close>

theorem posting_port_error:
  assumes "books_ok s" and "port_post_order_commissions parse_uuid env s s s ctx inp = (s', Inl e)"
  shows "(\<exists>rows. s' = s\<lparr>balance_rows := rows\<rparr>)
    \<or> (\<exists>tenant actor key v. port_write_context parse_uuid ctx = Inr (tenant, actor, key)
         \<and> find_order_tx s tenant (po_order_id inp) = None
         \<and> read_order_ledger (led_print_uuid env) s' tenant (po_order_id inp) = Inr v
         \<and> (\<exists>t x. rebuild_seller_balances_for_transaction env tenant v t = (s', Inl x)
              \<and> e = led_map_owner_error (led_print_uuid env) x)
         \<and> port_post_order_commissions parse_uuid env s' s' s' ctx inp
             = (case rebuild_seller_balances_for_transaction env tenant v s' of
                  (t, Inl x) \<Rightarrow> (t, Inl (led_map_owner_error (led_print_uuid env) x))
                | (t, Inr _) \<Rightarrow> (t, Inr (PostResponse v)))
         \<and> (\<exists>rows. fst (port_post_order_commissions parse_uuid env s' s' s' ctx inp) = s'\<lparr>balance_rows := rows\<rparr>))"
proof -
  have same: "\<exists>rows. s = s\<lparr>balance_rows := rows\<rparr>" by (rule exI [of _ "balance_rows s"]) simp
  from assms(2) show ?thesis
  proof (cases rule: port_post_error)
    case 1
    then show ?thesis using same by simp
  next
    case (2 tenant actor key res)
    then have "s' = s" using post_outcome [OF assms(1) 2(1)] by auto
    then show ?thesis using same by simp
  next
    case (3 tenant actor key v s1 x)
    obtain rows where rows: "s' = s1\<lparr>balance_rows := rows\<rparr>" using rebuild_all_frame [OF 3(5)] by blast
    show ?thesis
    proof (cases "s1 = s")
      case True
      then show ?thesis using rows by blast
    next
      case False
      note posted = post_replays [OF assms(1) 3(4) False rows]
      note again = port_post_admitted [OF 3(1-3) posted(3)]
      have "\<exists>rows. fst (port_post_order_commissions parse_uuid env s' s' s' ctx inp) = s'\<lparr>balance_rows := rows\<rparr>"
        unfolding again using rebuild_all_frame [of env tenant v s'] by (auto split: prod.splits sum.splits)
      then show ?thesis using 3(3,5,6) posted(1,2) again by blast
    qed
  qed
qed

end
