(* ===== verification/Ledger_Examples.thy ===== *)
theory Ledger_Examples
  imports Ledger_Reads
begin

text \<open>
  A ledger run on concrete data: an order of one assessed line is posted, then its proceeds are
  released, or the line is refunded in part. The properties of the ledger are applied to this run.
\<close>

subsection \<open>The run\<close>

definition example_assessment :: assessment_view where
  "example_assessment =
     \<lparr>as_id = 200, as_tenant_id = 2, as_allocation_id = 100, as_order_id = 9,
      as_order_line_item_id = 10, as_seller_id = 12, as_listing_id = 13, as_rule_id = 51,
      as_rule_key = 60, as_rule_version = 2, as_currency_code = ''EUR'',
      as_allocation_total_amount = 137, as_rate_bps = 1500, as_fixed_amount = 0,
      as_commission_amount = 20, as_seller_proceeds_amount = 117, as_status = Assessed,
      as_metadata = JObject [], as_assessed_at = 5, as_created_at = 5\<rparr>"

definition example_led_env :: "uuid \<Rightarrow> led_env" where
  "example_led_env k =
     \<lparr>post_to_value = (\<lambda>_. Some JNull), reversal_to_value = (\<lambda>_. Some JNull),
      transfer_to_value = (\<lambda>_. Some JNull), led_digest_of = (\<lambda>_. Some ''h''),
      led_print_uuid = (\<lambda>_. ''id''), led_receipt_id = k + 1, led_tx_id = k + 2, led_group_id = k + 3,
      led_balance_id = k + 4, led_entry_id = (\<lambda>n. k + 100 + of_nat n),
      led_link_id = (\<lambda>n. k + 200 + of_nat n), led_line_id = (\<lambda>n. k + 300 + of_nat n),
      led_receipt_now = 6, led_row_now = 6, led_completion_now = 7, led_rebuild_now = 8,
      led_scope_order = (\<lambda>scopes. scopes),
      commission_reader = (\<lambda>_ _. Inr [example_assessment])\<rparr>"

definition example_context :: port_context where
  "example_context = port_context_new [] (actor_user []) [] []"

definition example_batch :: assessment_batch where
  "example_batch = \<lparr>ba_currency_code = ''EUR'', ba_debit_total_amount = 137,
     ba_credit_total_amount = 137, ba_assessments = [example_assessment]\<rparr>"

text \<open>The ledger once the order is posted.\<close>

definition example_books :: led_store where
  "example_books = empty_ledger
     \<lparr>tx_rows := [posting_tx_row (example_led_env 1000) 2 9 6 example_batch],
      entry_rows := posted_entries (example_led_env 1000) 2 0 [example_assessment]\<rparr>"

text \<open>A part of the proceeds becomes available.\<close>

definition example_release :: transfer_input where
  "example_release =
     \<lparr>tri_kind = PendingRelease, tri_source_id = 70, tri_seller_id = 12, tri_currency_code = ''EUR'',
      tri_transferred_at = 9, tri_lines = [\<lparr>tli_reference_entry_id = 1102, tli_amount = 100\<rparr>],
      tri_metadata = JObject []\<rparr>"

text \<open>A part of the line is refunded.\<close>

definition example_refund :: reversal_input where
  "example_refund =
     \<lparr>rvi_kind = Refund, rvi_source_id = 80, rvi_order_id = 9, rvi_currency_code = ''EUR'',
      rvi_reversed_at = 10,
      rvi_lines = [\<lparr>rli_assessment_id = 200, rli_allocation_id = 100, rli_order_line_item_id = 10,
        rli_seller_id = 12, rli_commission_amount = 10, rli_seller_amount = 58,
        rli_seller_balance_bucket = PendingBucket\<rparr>],
      rvi_metadata = JObject []\<rparr>"

subsection \<open>Its steps\<close>

lemma led_with_receipt_fresh:
  assumes "led_find_receipt s tenant k = None" and "tenant \<noteq> 0" "actor \<noteq> 0"
    and "led_normalize_command_kind kind = Inr kind" and "led_receipt_id env \<notin> lr_id ` set (led_receipt_rows s)"
    and "load = Inr b"
    and "body b (s\<lparr>led_receipt_rows := led_receipt_rows s @ [led_pending_receipt env tenant actor k kind h]\<rparr>) = Inr (tx, v)"
    and "led_receipt_rows tx = led_receipt_rows s @ [led_pending_receipt env tenant actor k kind h]"
  shows "\<exists>s'. led_with_receipt env s s s tenant actor k kind h reads load body = (s', Inr v) \<and> s' \<noteq> s"
proof -
  let ?p = "led_pending_receipt env tenant actor k kind h"
  let ?nr = "\<lparr>led_transaction = s\<lparr>led_receipt_rows := led_receipt_rows s @ [?p]\<rparr>,
      nl_receipt_id = led_receipt_id env, nl_tenant_id = tenant\<rparr>"
  have "\<forall>r \<in> set (led_receipt_rows s). \<not> led_receipt_clash ?p r"
    using assms(1,5) by (auto simp: led_receipt_clash_def led_pending_receipt_def led_find_None)
  then have "insert_unique led_receipt_clash ?p (led_receipt_rows s) = Some (led_receipt_rows s @ [?p])"
    by (simp add: led_receipt_table.insert_unique_Some)
  then have adm: "led_admit_command_receipt env s s tenant actor k kind h = Inr (LedNew ?nr)"
    by (simp add: led_admit_command_receipt_def assms(1-4))
  obtain rs where rs: "led_complete_receipt env s (?nr\<lparr>led_transaction := tx\<rparr>) v = (tx\<lparr>led_receipt_rows := rs\<rparr>, Inr v)"
    "led_receipted env s tenant actor k kind h v (tx\<lparr>led_receipt_rows := rs\<rparr>)"
    using led_complete_New [OF adm assms(4), of tx v] assms(8) by auto
  then have "led_receipt_rows (tx\<lparr>led_receipt_rows := rs\<rparr>) \<noteq> led_receipt_rows s" by (simp add: led_receipted_def)
  then have "tx\<lparr>led_receipt_rows := rs\<rparr> \<noteq> s" by (rule contrapos_nn) (rule arg_cong)
  moreover have "led_with_receipt env s s s tenant actor k kind h reads load body = (tx\<lparr>led_receipt_rows := rs\<rparr>, Inr v)"
    using rs(1) by (simp add: led_with_receipt_def led_replay_existing_command_def assms(1,2,6,7) adm)
  ultimately show ?thesis by blast
qed

lemma example_led_key: "led_normalize_idempotency_key ''key'' = Inr ''key''"
  by (simp add: led_normalize_idempotency_key_def Let_def trim_letters ascii_defs)

lemma example_hash:
  assumes "led_normalize_command_kind kind = Inr kind"
  shows "led_command_request_hash (example_led_env k) kind 3 (Some JNull) = Inr ''h''"
  by (simp add: led_command_request_hash_def assms) (simp add: example_led_env_def)

lemma example_currency: "led_normalize_currency ''EUR'' = Inr ''EUR''"
  by (simp add: led_normalize_currency_def Let_def trim_letters ascii_defs to_ascii_uppercase_def ascii_upper_def)

lemma example_ids:
  "led_entry_id (example_led_env k) n = k + 100 + of_nat n" "led_link_id (example_led_env k) n = k + 200 + of_nat n"
  "led_line_id (example_led_env k) n = k + 300 + of_nat n" "led_tx_id (example_led_env k) = k + 2"
  "led_group_id (example_led_env k) = k + 3" "led_balance_id (example_led_env k) = k + 4"
  "led_row_now (example_led_env k) = 6" "led_receipt_id (example_led_env k) = k + 1"
  "commission_reader (example_led_env k) ctx order = Inr [example_assessment]"
  "post_to_value (example_led_env k) p = Some JNull" "reversal_to_value (example_led_env k) r = Some JNull"
  "transfer_to_value (example_led_env k) t = Some JNull"
  by (simp_all add: example_led_env_def)

lemmas example_rows =
  example_books_def empty_ledger_def posting_tx_row_def posting_entry_def example_batch_def example_ids
  example_assessment_def example_currency

lemmas insert_steps =
  insert_unique_def tx_clash_def entry_clash_def map_entry_def read_entry_def account_code_parse_def
  direction_parse_def map_transaction_def tx_status_parse_def posting_source_kind_def find_order_tx_def Let_def

lemma example_books_ok: "books_ok example_books"
  by (simp add: books_ok_def tables_ok_def unique_rows_def tx_ok_def entry_ok_def refs_ok_def classes_ok_def
      example_rows dir_sum_def of_tx_def reversed_of_def transferred_of_def entry_clash_def)

lemma example_led_load: "load_batch (example_led_env k) ctx 2 9 = Inr example_batch"
  by (simp add: load_batch_def example_ids validate_assessment_batch_def check_assessment_def example_assessment_def
      example_currency example_batch_def i64_arith)

definition example_post :: "led_store \<times> (led_error + led_response)" where
  "example_post = post_order_with_receipt (example_led_env 1000) empty_ledger empty_ledger empty_ledger
     example_context 2 3 ''key'' \<lparr>po_order_id = 9, po_posted_at = 6\<rparr>"

lemma example_post: "\<exists>s v. example_post = (s, Inr v) \<and> s \<noteq> empty_ledger"
proof -
  let ?env = "example_led_env 1000"
  let ?s = "empty_ledger\<lparr>led_receipt_rows := [led_pending_receipt ?env 2 3 ''key'' ''post_order_commissions'' ''h'']\<rparr>"
  have prep: "prepare_post ?env 2 3 ''key'' \<lparr>po_order_id = 9, po_posted_at = 6\<rparr> = Inr (''key'', ''h'')"
    by (simp add: prepare_post_def example_led_key example_ids example_hash post_kind)
  have "is_ok (post_order_in_transaction ?env 2 9 6 example_batch ?s)"
    by (simp add: post_order_in_transaction_def insert_entry_def insert_steps example_rows)
  then obtain tx v where body: "post_order_in_transaction ?env 2 9 6 example_batch ?s = Inr (tx, v)"
    by (auto simp: is_ok_iff)
  then have "led_receipt_rows tx = led_receipt_rows ?s" using post_order_body(1) by blast
  then have "\<exists>s'. led_with_receipt ?env empty_ledger empty_ledger empty_ledger 2 3 ''key'' ''post_order_commissions'' ''h''
      reads_post (Inr example_batch) (post_order_in_transaction ?env 2 9 6) = (s', Inr v) \<and> s' \<noteq> empty_ledger"
    using body by (intro led_with_receipt_fresh post_kind refl) (auto simp: empty_ledger_def led_find_receipt_def)
  then show ?thesis by (auto simp: example_post_def post_order_with_receipt_def prep example_led_load)
qed

lemma example_post_rows:
  assumes "example_post = (s, res)" "s \<noteq> empty_ledger"
  shows "tx_rows s = [posting_tx_row (example_led_env 1000) 2 9 6 example_batch]"
    and "entry_rows s = posted_entries (example_led_env 1000) 2 0 [example_assessment]"
proof -
  obtain k h b v where load: "load_batch (example_led_env 1000) example_context 2 9 = Inr b"
    and c: "led_commits (example_led_env 1000) empty_ledger 2 3 k ''post_order_commissions'' h
              (post_order_in_transaction (example_led_env 1000) 2 9 6 b) v s"
    using post_outcome [OF empty_books_ok assms(1) [unfolded example_post_def]] assms(2) by auto
  have b: "b = example_batch" using load by (simp add: example_led_load)
  have "books_extend empty_ledger (posting_tx_row (example_led_env 1000) 2 9 6 b)
      (posted_entries (example_led_env 1000) 2 0 (ba_assessments b)) [] [] [] s"
    by (rule post_order_extends(1) [OF empty_books_ok load_batch_Inr(3) [OF load] c])
  then show "tx_rows s = [posting_tx_row (example_led_env 1000) 2 9 6 example_batch]"
    "entry_rows s = posted_entries (example_led_env 1000) 2 0 [example_assessment]"
    by (simp_all add: books_extend_def b empty_ledger_def) (simp add: example_batch_def)
qed

definition example_transfer :: "led_store \<times> (led_error + led_response)" where
  "example_transfer = transfer_answer (example_led_env 2000) example_books example_books example_books 2 3 ''key''
     example_release"

lemma example_transfer: "\<exists>s v. example_transfer = (s, Inr v) \<and> s \<noteq> example_books"
proof -
  let ?env = "example_led_env 2000"
  let ?s = "example_books\<lparr>led_receipt_rows := [led_pending_receipt ?env 2 3 ''key'' ''post_seller_balance_transfer'' ''h'']\<rparr>"
  have prep: "prepare_transfer ?env 2 3 ''key'' example_release = Inr (''key'', ''h'')"
    by (simp add: prepare_transfer_def example_led_key example_ids example_hash transfer_kind_text validate_transfer_input_def
        example_release_def example_currency is_object_def check_transfer_line_def MAX_LEDGER_BALANCE_TRANSFER_LINES_def)
  have "is_ok (post_transfer_in_transaction ?env 2 example_release ?s)"
    by (simp add: post_transfer_in_transaction_def admit_transfer_def reference_context_of_def example_release_def
        payable_entries_def sorted_payable_def explicit_buckets_def reversal_buckets_def List.map_filter_simps
        transfer_total_def calculate_bucket_totals_def bucket_totals_apply_def totals_apply_def entry_bucket_def
        zero_totals_def check_reference_def insert_transfer_entry_def transfer_entry_row_def transfer_bucket_row_def
        transfer_line_row_of_def transfer_line_clash_def transfer_clash_def bucket_clash_def transfer_tx_row_def
        transfer_row_of_def sort_transfer_entries_def i64_arith insert_steps example_rows)
  then obtain tx v where body: "post_transfer_in_transaction ?env 2 example_release ?s = Inr (tx, v)"
    by (auto simp: is_ok_iff)
  then have "led_receipt_rows tx = led_receipt_rows ?s" using transfer_body(1) by blast
  then have "\<exists>s'. led_with_receipt ?env example_books example_books example_books 2 3 ''key''
      ''post_seller_balance_transfer'' ''h'' reads_transfer (Inr ())
      (\<lambda>_. post_transfer_in_transaction ?env 2 example_release) = (s', Inr v) \<and> s' \<noteq> example_books"
    using body by (intro led_with_receipt_fresh transfer_kind_text refl)
      (auto simp: example_books_def empty_ledger_def led_find_receipt_def)
  then show ?thesis by (auto simp: example_transfer_def transfer_answer_def prep)
qed

lemma example_prepare_refund: "prepare_reversal (example_led_env k) 2 3 ''key'' example_refund = Inr (''key'', ''h'')"
  by (simp add: prepare_reversal_def example_led_key example_ids example_hash reversal_kind validate_reversal_input_def
      example_refund_def example_currency is_object_def MAX_LEDGER_REVERSAL_LINES_def)

definition example_reverse :: "led_store \<times> (led_error + led_response)" where
  "example_reverse = reversal_answer (example_led_env 3000) example_books example_books example_books 2 3 ''key''
     example_refund"

lemma example_reverse: "\<exists>s v. example_reverse = (s, Inr v) \<and> s \<noteq> example_books"
proof -
  let ?env = "example_led_env 3000"
  let ?s = "example_books\<lparr>led_receipt_rows := [led_pending_receipt ?env 2 3 ''key'' ''post_financial_reversal'' ''h'']\<rparr>"
  have "is_ok (post_reversal_in_transaction ?env 2 example_refund ?s)"
    by (simp add: post_reversal_in_transaction_def example_refund_def tx_entries_def original_direction_def
        insert_original_def no_originals_def reversal_total_def reversal_metadata_def reversal_tx_row_def
        reversal_row_of_def reversal_clash_def validate_original_def ensure_remaining_def reversal_items_def
        insert_reversal_entry_def reversal_entry_row_def reversal_link_row_def reversal_line_clash_def
        sort_reversal_by_def i64_arith insert_steps example_rows)
  then obtain tx v where body: "post_reversal_in_transaction ?env 2 example_refund ?s = Inr (tx, v)"
    by (auto simp: is_ok_iff)
  then have "led_receipt_rows tx = led_receipt_rows ?s" using reversal_body(1) by blast
  then have "\<exists>s'. led_with_receipt ?env example_books example_books example_books 2 3 ''key''
      ''post_financial_reversal'' ''h'' reads_reversal (Inr ())
      (\<lambda>_. post_reversal_in_transaction ?env 2 example_refund) = (s', Inr v) \<and> s' \<noteq> example_books"
    using body by (intro led_with_receipt_fresh reversal_kind refl)
      (auto simp: example_books_def empty_ledger_def led_find_receipt_def)
  then show ?thesis by (auto simp: example_reverse_def reversal_answer_def example_prepare_refund)
qed

subsection \<open>The properties at work\<close>

lemma example_balances:
  "seller_balance empty_ledger t seller c b = 0"
  "seller_balance example_books 2 12 ''EUR'' PendingBucket = 117"
  "seller_balance example_books 2 12 ''EUR'' AvailableBucket = 0"
  by (simp add: seller_balance_def balance_of_def empty_ledger_def) code_simp+

lemma posting_credits_proceeds_witness:
  "\<exists>s v. example_post = (s, Inr v) \<and> seller_balance s 2 12 ''EUR'' PendingBucket = 117"
proof -
  obtain s v where run: "example_post = (s, Inr v)" "s \<noteq> empty_ledger" using example_post by blast
  have "as_seller_id example_assessment = 12" "as_currency_code example_assessment = ''EUR''"
    "as_seller_proceeds_amount example_assessment = 117"
    by (simp_all add: example_assessment_def)
  then have "seller_balance s 2 12 ''EUR'' PendingBucket = 117"
    using posting_credits_proceeds [OF empty_books_ok run(1) [unfolded example_post_def]] run(2)
    by (auto simp: example_ids example_balances)
  then show ?thesis using run(1) by blast
qed

lemma transfer_moves_exactly_witness:
  "\<exists>s v. example_transfer = (s, Inr v) \<and> seller_balance s 2 12 ''EUR'' PendingBucket = 17
    \<and> seller_balance s 2 12 ''EUR'' AvailableBucket = 100"
proof -
  obtain s v where run: "example_transfer = (s, Inr v)" "s \<noteq> example_books" using example_transfer by blast
  have b: "transfer_buckets (tri_kind example_release) = (PendingBucket, AvailableBucket)" and
    i: "tri_currency_code example_release = ''EUR''" "tri_seller_id example_release = 12"
    "map tli_amount (tri_lines example_release) = [100]"
    by (simp_all add: example_release_def)
  show ?thesis
    using transfer_moves_exactly [OF example_books_ok run(1) [unfolded example_transfer_def] b] run
    by (auto simp: i example_currency example_balances)
qed

lemma reversal_takes_back_witness:
  "\<exists>s v. example_reverse = (s, Inr v) \<and> seller_balance s 2 12 ''EUR'' PendingBucket = 59"
proof -
  obtain s v where run: "example_reverse = (s, Inr v)" "s \<noteq> example_books" using example_reverse by blast
  have i: "rvi_currency_code example_refund = ''EUR''"
    "map rli_seller_amount (filter (\<lambda>l. rli_seller_id l = 12 \<and> rli_seller_balance_bucket l = PendingBucket)
       (rvi_lines example_refund)) = [58]"
    by (simp_all add: example_refund_def)
  have "seller_balance s 2 12 ''EUR'' PendingBucket = 59"
    using reversal_takes_back [OF example_books_ok run(1) [unfolded example_reverse_def]] run(2)
    by (auto simp: i example_currency example_balances)
  then show ?thesis using run(1) by blast
qed

lemma ledger_stays_balanced_witness:
  "\<exists>s. fst example_post = s \<and> (\<forall>t \<in> set (tx_rows s). lt_debit_total_amount t = lt_credit_total_amount t)"
proof -
  obtain s v where run: "example_post = (s, Inr v)" using example_post by blast
  have "reachable led_init led_step 0 empty_ledger" by (rule reachable.start) (simp add: led_init_def)
  then have "reachable led_init led_step (Suc 0) s"
    by (rule reachable.next_step) (rule led_step.post [OF run [unfolded example_post_def]])
  from ledger_stays_balanced [OF this]
  have "\<forall>t \<in> set (tx_rows s). lt_debit_total_amount t = lt_credit_total_amount t" by blast
  then show ?thesis by (simp only: run fst_conv) simp
qed

lemma example_payable:
  "sum_list (map le_amount (payable_entries example_books 2 12 ''EUR'')) = 117"
  "length (payable_entries example_books 2 12 ''EUR'') = 1"
  by code_simp+

lemma rebuild_succeeds_witness:
  "is_ok (snd (rebuild_seller_balance_projection (example_led_env 4000) example_books example_books example_books
     2 12 ''EUR''))"
  by (rule rebuild_succeeds [OF example_books_ok _ _ example_currency])
    (simp_all add: example_payable i64_max_def, simp add: example_books_def empty_ledger_def)

lemma projection_refines_witness:
  "\<exists>s v. rebuild_seller_balance_projection (example_led_env 4000) example_books example_books example_books
      2 12 ''EUR'' = (s, Inr v) \<and> bv_pending_amount v = 117 \<and> bv_source_entry_count v = 1"
proof -
  let ?run = "rebuild_seller_balance_projection (example_led_env 4000) example_books example_books example_books
      2 12 ''EUR''"
  have "is_ok (snd ?run)"
    by (simp add: rebuild_seller_balance_projection_def validate_tenant_id_def validate_seller_id_def
        rebuild_totals_def sorted_payable_def payable_entries_def explicit_buckets_def reversal_buckets_def
        balance_totals_apply_def totals_apply_def entry_bucket_def zero_totals_def current_balance_def
        negative_amount_of_def write_balance_def find_balance_def blank_balance_def set_balance_def map_balance_def
        List.map_filter_simps i64_arith insert_steps example_rows)
  then obtain s v where run: "?run = (s, Inr v)" by (cases ?run) (auto simp: is_ok_iff)
  have t: "tables_ok example_books" by (rule books_ok_tables [OF example_books_ok])
  have "\<forall>c m. find_balance example_books 2 12 c = Some m
      \<longrightarrow> (\<exists>r. find_balance example_books 2 12 c = Some r \<and> sb_id r = sb_id m)" by blast
  from projection_refines [OF t t this run] show ?thesis
    using run by (auto simp: example_currency example_balances example_payable)
qed

text \<open>
  The line is refunded, the rest is released, and the refund is asked for again with other
  identifiers and another clock.
\<close>

lemma ledger_replayed_witness:
  "\<exists>s res s' r. run_led example_books (PostReversal (example_led_env 3000) 2 3 ''key'' example_refund) = (s, res)
    \<and> s' = fst (run_led s (PostTransfer (example_led_env 2000) 2 3 ''other'' example_release))
    \<and> run_led s' (PostReversal (example_led_env 6000) 2 3 ''key'' example_refund)
        = (case rebuild_after (PostReversal (example_led_env 6000) 2 3 ''key'' example_refund) r s' of
             (t, Inl e) \<Rightarrow> (t, Inl e) | (t, Inr _) \<Rightarrow> (t, Inr r))
    \<and> (\<exists>rows. fst (run_led s' (PostReversal (example_led_env 6000) 2 3 ''key'' example_refund))
        = s'\<lparr>balance_rows := rows\<rparr>)"
proof -
  let ?c = "\<lambda>k. PostReversal (example_led_env k) 2 3 ''key'' example_refund"
  let ?d = "PostTransfer (example_led_env 2000) 2 3 ''other'' example_release"
  obtain s1 v where run: "example_reverse = (s1, Inr v)" "s1 \<noteq> example_books" using example_reverse by blast
  obtain s res where whole: "run_led example_books (?c 3000) = (s, res)" by fastforce
  have answer: "answer_led example_books (?c 3000) = (s1, Inr v)"
    using run(1) by (simp add: example_reverse_def)
  obtain k h where "led_commits (example_led_env 3000) example_books 2 3 k ''post_financial_reversal'' h
      (post_reversal_in_transaction (example_led_env 3000) 2 example_refund) v s1"
    using reversal_outcome [OF run(1) [unfolded example_reverse_def]] run(2) by blast
  then have "led_receipt_rows s1 \<noteq> led_receipt_rows example_books" by (simp add: led_commits_def led_receipted_def)
  moreover have "s = fst (rebuild_after (?c 3000) v s1)"
    using whole answer by (metis run_led_answer followed_by_store fst_conv)
  then have "led_receipt_rows s = led_receipt_rows s1"
    using rebuild_after_frame [of "?c 3000" v s1] by auto
  ultimately have "is_ok res \<or> led_receipt_rows s \<noteq> led_receipt_rows example_books" by simp
  moreover have "prepare_led (?c 6000) = prepare_led (?c 3000)" by (simp add: example_prepare_refund)
  moreover have "fst (run_led s ?d) = foldl (\<lambda>s d. fst (run_led s d)) s [?d]" by simp
  ultimately obtain r where
    "run_led (fst (run_led s ?d)) (?c 6000)
       = (case rebuild_after (?c 6000) r (fst (run_led s ?d)) of (t, Inl e) \<Rightarrow> (t, Inl e) | (t, Inr _) \<Rightarrow> (t, Inr r))"
    "\<exists>rows. fst (run_led (fst (run_led s ?d)) (?c 6000)) = (fst (run_led s ?d))\<lparr>balance_rows := rows\<rparr>"
    by (rule ledger_replayed [OF example_books_ok whole, THEN exE]) (elim conjE)
  then show ?thesis 
    by (intro exI [of _ s] exI [of _ res] exI [of _ "fst (run_led s ?d)"] exI [of _ r] conjI whole refl)
qed

lemma order_ledger_readable_witness:
  "\<exists>s v. fst example_post = s \<and> read_order_ledger (\<lambda>_. ''id'') s 2 9 = Inr v
    \<and> sum_list (map le_amount (filter (\<lambda>e. le_direction e = Credit) (lt_entries v))) = 137"
proof -
  obtain s res where run: "example_post = (s, Inr res)" "s \<noteq> empty_ledger" using example_post by blast
  have "reachable led_init led_step 0 empty_ledger" by (rule reachable.start) (simp add: led_init_def)
  then have "reachable led_init led_step (Suc 0) s"
    by (rule reachable.next_step) (rule led_step.post [OF run(1) [unfolded example_post_def]])
  note readable = order_ledger_readable [OF this, of 2 9 "\<lambda>_. ''id''"]
  have "find_order_tx s 2 9 = Some (posting_tx_row (example_led_env 1000) 2 9 6 example_batch)"
    by (simp add: find_order_tx_def example_post_rows [OF run] posting_tx_row_def)
  moreover have "lt_debit_total_amount (posting_tx_row (example_led_env 1000) 2 9 6 example_batch) = 137"
    by (simp add: posting_tx_row_def example_batch_def)
  ultimately obtain v where "read_order_ledger (\<lambda>_. ''id'') s 2 9 = Inr v"
    "sum_list (map le_amount (filter (\<lambda>e. le_direction e = Credit) (lt_entries v))) = 137"
    using readable by auto
  then show ?thesis by (intro exI [of _ s] exI [of _ v]) (simp only: run(1) fst_conv)
qed

text \<open>
  A seller whose proceeds are already as large as a balance can be. The order of the example can
  still be posted, and then the balance of this seller cannot be rebuilt.
\<close>

definition example_parse :: "string \<Rightarrow> uuid option" where
  "example_parse t = (if t = ''t'' then Some 2 else if t = ''u'' then Some 3 else None)"

definition example_pay_context :: port_context where
  "example_pay_context = with_deadline (with_idempotency_key (port_context_new ''t'' (actor_user ''u'') [] []) ''key'') 5"

lemma example_pay_context_simps:
  "require_policy example_pay_context policy_read = Inr ()" "require_policy example_pay_context policy_write = Inr ()"
  "ctx_tenant_id example_pay_context = ''t''" "actor_id (ctx_actor example_pay_context) = ''u''"
  "idempotency_key example_pay_context = Some ''key''"
  "example_parse ''t'' = Some 2" "example_parse ''u'' = Some 3"
  by (simp_all add: example_pay_context_def require_policy_def policy_read_def policy_write_def
      require_read_semantics_def require_write_semantics_def require_deadline_semantics_def with_deadline_def
      with_idempotency_key_def port_context_new_def actor_user_def example_parse_def)

definition rich_assessment :: assessment_view where
  "rich_assessment = example_assessment
     \<lparr>as_id := 201, as_allocation_id := 101, as_order_id := 8, as_order_line_item_id := 11,
      as_allocation_total_amount := i64_max, as_rate_bps := 0, as_commission_amount := 0,
      as_seller_proceeds_amount := i64_max\<rparr>"

definition rich_books :: led_store where
  "rich_books = empty_ledger
     \<lparr>tx_rows := [posting_tx_row (example_led_env 4000) 2 8 6
        \<lparr>ba_currency_code = ''EUR'', ba_debit_total_amount = i64_max, ba_credit_total_amount = i64_max,
         ba_assessments = [rich_assessment]\<rparr>],
      entry_rows := posted_entries (example_led_env 4000) 2 0 [rich_assessment]\<rparr>"

lemma rich_books_ok: "books_ok rich_books"
  by (simp add: books_ok_def tables_ok_def unique_rows_def tx_ok_def entry_ok_def refs_ok_def classes_ok_def
      rich_books_def rich_assessment_def i64_max_def
      example_rows dir_sum_def of_tx_def reversed_of_def transferred_of_def entry_clash_def)

abbreviation example_order :: post_input where
  "example_order \<equiv> \<lparr>po_order_id = 9, po_posted_at = 6\<rparr>"

lemma rich_post:
  "\<exists>s v. post_order_with_receipt (example_led_env 5000) rich_books rich_books rich_books example_pay_context 2 3 ''key''
      example_order = (s, Inr v) \<and> s \<noteq> rich_books"
proof -
  let ?env = "example_led_env 5000"
  let ?s = "rich_books\<lparr>led_receipt_rows := [led_pending_receipt ?env 2 3 ''key'' ''post_order_commissions'' ''h'']\<rparr>"
  have prep: "prepare_post ?env 2 3 ''key'' example_order = Inr (''key'', ''h'')"
    by (simp add: prepare_post_def example_led_key example_ids example_hash post_kind)
  have "is_ok (post_order_in_transaction ?env 2 9 6 example_batch ?s)"
    by (simp add: post_order_in_transaction_def insert_entry_def insert_steps rich_books_def rich_assessment_def example_rows)
  then obtain tx v where body: "post_order_in_transaction ?env 2 9 6 example_batch ?s = Inr (tx, v)"
    by (auto simp: is_ok_iff)
  then have "led_receipt_rows tx = led_receipt_rows ?s" using post_order_body(1) by blast
  then have "\<exists>s'. led_with_receipt ?env rich_books rich_books rich_books 2 3 ''key'' ''post_order_commissions'' ''h''
      reads_post (Inr example_batch) (post_order_in_transaction ?env 2 9 6) = (s', Inr v) \<and> s' \<noteq> rich_books"
    using body by (intro led_with_receipt_fresh post_kind refl) (auto simp: rich_books_def empty_ledger_def led_find_receipt_def)
  then show ?thesis by (auto simp: post_order_with_receipt_def prep example_led_load)
qed

lemma rich_post_rows:
  assumes "post_order_with_receipt (example_led_env 5000) rich_books rich_books rich_books example_pay_context 2 3 ''key''
      example_order = (s, Inr v)" and "s \<noteq> rich_books"
  shows "entry_rows s = entry_rows rich_books @ posted_entries (example_led_env 5000) 2 0 [example_assessment]"
    and "tx_rows s = tx_rows rich_books @ [posting_tx_row (example_led_env 5000) 2 9 6 example_batch]"
    and "bucket_rows s = []" "reversal_line_rows s = []" "reads_post v"
proof -
  obtain k h b where load: "load_batch (example_led_env 5000) example_pay_context 2 9 = Inr b"
    and c: "led_commits (example_led_env 5000) rich_books 2 3 k ''post_order_commissions'' h
              (post_order_in_transaction (example_led_env 5000) 2 9 6 b) v s"
    using post_outcome [OF rich_books_ok assms(1)] assms(2) by auto
  have b: "b = example_batch" using load by (simp add: example_led_load)
  note e = post_order_extends [OF rich_books_ok load_batch_Inr(3) [OF load] c]
  show "entry_rows s = entry_rows rich_books @ posted_entries (example_led_env 5000) 2 0 [example_assessment]"
    "tx_rows s = tx_rows rich_books @ [posting_tx_row (example_led_env 5000) 2 9 6 example_batch]"
    "bucket_rows s = []" "reversal_line_rows s = []" "reads_post v"
    using e(1,3) by (simp_all add: books_extend_def b rich_books_def empty_ledger_def) (simp add: example_batch_def)
qed

lemma rich_scopes:
  assumes "entry_rows s = entry_rows rich_books @ posted_entries (example_led_env 5000) 2 0 [example_assessment]"
    and "tx_rows s = tx_rows rich_books @ [posting_tx_row (example_led_env 5000) 2 9 6 example_batch]"
    and "read_order_ledger prn s 2 9 = Inr v"
  shows "payable_scopes v = [(12, ''EUR'')]"
  using assms(3)
  by (clarsimp simp: read_order_ledger_def assms(1,2) rich_books_def rich_assessment_def insert_steps payable_scopes_def
      List.map_filter_simps example_rows)

lemma rich_rebuild:
  assumes "entry_rows s = entry_rows rich_books @ posted_entries (example_led_env 5000) 2 0 [example_assessment]"
    and "bucket_rows s = []" "reversal_line_rows s = []"
  shows "\<exists>e. rebuild_seller_balance_projection env s s s 2 12 ''EUR'' = (s, Inl e)"
  by (simp add: rebuild_seller_balance_projection_def validate_tenant_id_def validate_seller_id_def
        rebuild_totals_def sorted_payable_def payable_entries_def explicit_buckets_def reversal_buckets_def
        balance_totals_apply_def totals_apply_def entry_bucket_def zero_totals_def
        List.map_filter_simps i64_arith insert_steps assms rich_books_def rich_assessment_def example_rows)

lemma posting_port_error_witness:
  "\<exists>s e v. port_post_order_commissions example_parse (example_led_env 5000) rich_books rich_books rich_books
      example_pay_context example_order = (s, Inl e)
    \<and> find_order_tx rich_books 2 9 = None \<and> read_order_ledger (\<lambda>_. ''id'') s 2 9 = Inr v
    \<and> (\<exists>rows. fst (port_post_order_commissions example_parse (example_led_env 5000) s s s
          example_pay_context example_order) = s\<lparr>balance_rows := rows\<rparr>)"
proof -
  let ?env = "example_led_env 5000"
  obtain s r where run: "post_order_with_receipt ?env rich_books rich_books rich_books example_pay_context 2 3 ''key''
      example_order = (s, Inr r)" "s \<noteq> rich_books" using rich_post by blast
  note rows = rich_post_rows [OF run]
  obtain v where v: "r = PostResponse v" using rows(5) by (auto simp: reads_post_def split: led_response.splits)
  have same: "s = s\<lparr>balance_rows := balance_rows s\<rparr>" by simp
  have read: "read_order_ledger (led_print_uuid ?env) s 2 9 = Inr v"
    using post_replays(2) [OF rich_books_ok run(1) [unfolded v] run(2) same] by simp
  have ctx: "port_write_context example_parse example_pay_context = Inr (2, 3, ''key'')"
    by (simp add: port_write_context_def led_parse_tenant_id_def led_parse_actor_id_def led_parse_idempotency_key_def
        example_pay_context_simps trim_letters ascii_defs)
  obtain x where "rebuild_seller_balance_projection ?env s s s 2 12 ''EUR'' = (s, Inl x)"
    using rich_rebuild [OF rows(1,3,4)] by blast
  moreover have "led_scope_order ?env scopes = scopes" for scopes by (simp add: example_led_env_def)
  ultimately have "rebuild_seller_balances_for_transaction ?env 2 v s = (s, Inl x)"
    by (simp add: rebuild_seller_balances_for_transaction_def validate_tenant_id_def rich_scopes [OF rows(1,2) read])
  then have port: "port_post_order_commissions example_parse ?env rich_books rich_books rich_books example_pay_context
      example_order = (s, Inl (led_map_owner_error (led_print_uuid ?env) x))"
    using port_post_admitted [OF example_pay_context_simps(2) _ ctx run(1) [unfolded v]] by simp
  have "entry_rows s \<noteq> entry_rows rich_books" using rows(1) by simp
  then have "\<not> (\<exists>rows. s = rich_books\<lparr>balance_rows := rows\<rparr>)" by auto
  then obtain w where "find_order_tx rich_books 2 9 = None" "read_order_ledger (led_print_uuid ?env) s 2 9 = Inr w"
    "\<exists>rows. fst (port_post_order_commissions example_parse ?env s s s example_pay_context example_order)
       = s\<lparr>balance_rows := rows\<rparr>"
    using posting_port_error [OF rich_books_ok port] ctx by auto
  moreover have "led_print_uuid ?env = (\<lambda>_. ''id'')" by (simp add: example_led_env_def)
  ultimately show ?thesis using port by (intro exI) auto
qed

end
