(* ===== verification/Marketplace_Payout.thy ===== *)
theory Marketplace_Payout
  imports Ledger_Reads "HOL-Library.AList"
begin

text \<open>
  Seller payouts (\<open>crates/modules/rustok-marketplace-payout/src\<close>: \<open>service.rs\<close>, \<open>receipts.rs\<close>,
  \<open>dto.rs\<close>, \<open>error.rs\<close>, \<open>ports.rs\<close>, the tables of \<open>entities\<close> and the unique indexes of the
  migration). A payout collects credits of the seller's payable account; the entries are read from
  the ledger page by page through its read port, an argument here, which may answer each page from
  a different state. Tables are lists of rows and a transaction works on its own copy of the store.
  Further parameters, in the record \<open>pay_env\<close>: serialisation, hash, clock and identifiers.
\<close>

subsection \<open>Data\<close>

datatype payout_status =
  PayoutScheduled | PayoutProcessing | PayoutPaid | PayoutFailed | PayoutCancelled

primrec payout_status_as_str :: "payout_status \<Rightarrow> string" where
  "payout_status_as_str PayoutScheduled = ''scheduled''"
| "payout_status_as_str PayoutProcessing = ''processing''"
| "payout_status_as_str PayoutPaid = ''paid''"
| "payout_status_as_str PayoutFailed = ''failed''"
| "payout_status_as_str PayoutCancelled = ''cancelled''"

definition payout_status_parse :: "string \<Rightarrow> payout_status option" where
  "payout_status_parse v =
     (if v = ''scheduled'' then Some PayoutScheduled else if v = ''processing'' then Some PayoutProcessing
      else if v = ''paid'' then Some PayoutPaid else if v = ''failed'' then Some PayoutFailed
      else if v = ''cancelled'' then Some PayoutCancelled else None)"

interpretation payout_status_text: text_codec payout_status_as_str payout_status_parse
proof
  fix x
  show "payout_status_parse (payout_status_as_str x) = Some x" by (cases x) (simp_all add: payout_status_parse_def)
qed

datatype (plugins only: code size) pay_error =
    PayoutNotFound uuid
  | LedgerEntryNotFound uuid
  | LedgerEntryAlreadyAssigned uuid
  | PayIdempotencyConflict
  | PayReceiptCorrupt
  | PayValidation string
  | LedgerBoundary string string bool port_error_kind
  | PayDatabase string

record schedule_input =
  si_seller_id :: uuid
  si_currency_code :: string
  si_ledger_entry_ids :: "uuid list"
  si_scheduled_for :: int
  si_destination_reference :: "string option"
  si_metadata :: json

record payout_item =
  pt_id :: uuid
  pt_tenant_id :: uuid
  pt_payout_id :: uuid
  pt_ledger_entry_id :: uuid
  pt_amount :: int
  pt_created_at :: int

record 'st payout =
  pa_id :: uuid
  pa_tenant_id :: uuid
  pa_seller_id :: uuid
  pa_currency_code :: string
  pa_total_amount :: int
  pa_status :: 'st
  pa_scheduled_for :: int
  pa_destination_reference :: "string option"
  pa_external_reference :: "string option"
  pa_failure_code :: "string option"
  pa_metadata :: json
  pa_created_at :: int
  pa_updated_at :: int
  pa_paid_at :: "int option"

type_synonym payout_row = "string payout"

record payout_view = "payout_status payout" +
  pa_items :: "payout_item list"

record pay_receipt =
  pr_id :: uuid
  pr_tenant_id :: uuid
  pr_actor_id :: uuid
  pr_idempotency_key :: string
  pr_command_kind :: string
  pr_request_hash :: string
  pr_status :: string
  pr_response_json :: "payout_view option"
  pr_created_at :: int
  pr_completed_at :: "int option"

record pay_store =
  payout_rows :: "payout_row list"
  item_rows :: "payout_item list"
  pay_receipt_rows :: "pay_receipt list"

text \<open>A page of the ledger: its entries, the total number of entries, the page and its size.\<close>

type_synonym ledger_page = "entry_view list \<times> nat \<times> nat \<times> nat"

record pay_env =
  schedule_to_value :: "schedule_input \<Rightarrow> json option"
  pay_digest_of :: "json \<Rightarrow> string option"
  pay_print_uuid :: "uuid \<Rightarrow> string"
  pay_receipt_id :: uuid
  payout_new_id :: uuid
  payout_item_id :: "nat \<Rightarrow> uuid"
  pay_receipt_now :: int
  pay_row_now :: int
  pay_completion_now :: int
  ledger_reader :: "port_context \<Rightarrow> uuid \<Rightarrow> string option \<Rightarrow> nat \<Rightarrow> nat \<Rightarrow> port_error + ledger_page"

definition MAX_PAYOUT_ITEMS_PER_BATCH :: nat where "MAX_PAYOUT_ITEMS_PER_BATCH = 500"
definition MAX_PAYOUTS_PER_PAGE :: nat where "MAX_PAYOUTS_PER_PAGE = 200"
definition LEDGER_PAGE_SIZE :: nat where "LEDGER_PAGE_SIZE = 200"

subsection \<open>Tables\<close>

definition payout_clash :: "payout_row \<Rightarrow> payout_row \<Rightarrow> bool" where
  "payout_clash a b \<longleftrightarrow> pa_id a = pa_id b"

definition item_clash :: "payout_item \<Rightarrow> payout_item \<Rightarrow> bool" where
  "item_clash a b \<longleftrightarrow> pt_id a = pt_id b
     \<or> pt_tenant_id a = pt_tenant_id b \<and> pt_ledger_entry_id a = pt_ledger_entry_id b"

definition pay_receipt_clash :: "pay_receipt \<Rightarrow> pay_receipt \<Rightarrow> bool" where
  "pay_receipt_clash a b \<longleftrightarrow> pr_id a = pr_id b
     \<or> pr_tenant_id a = pr_tenant_id b \<and> pr_idempotency_key a = pr_idempotency_key b"

interpretation payout_table: unique_table payout_clash
  by unfold_locales (auto simp: payout_clash_def)

interpretation payout_item_table: unique_table item_clash
  by unfold_locales (auto simp: item_clash_def)

interpretation pay_receipt_table: unique_table pay_receipt_clash
  by unfold_locales (auto simp: pay_receipt_clash_def)

subsection \<open>Input\<close>

definition pay_normalize_currency :: "string \<Rightarrow> pay_error + string" where
  "pay_normalize_currency v =
     (let v = to_ascii_uppercase (trim v) in
      if length v \<noteq> 3 \<or> \<not> list_all is_ascii_uppercase v
      then Inl (PayValidation ''currency_code must contain exactly three ASCII letters'')
      else Inr v)"

definition pay_normalize_optional_text :: "string option \<Rightarrow> nat \<Rightarrow> string \<Rightarrow> pay_error + string option" where
  "pay_normalize_optional_text v max_bytes field =
     (case v of
        None \<Rightarrow> Inr None
      | Some s \<Rightarrow>
          let s = trim s in
          if s = [] then Inr None
          else if max_bytes < length s
          then Inl (PayValidation (field @ '' must not exceed '' @ show_nat max_bytes @ '' bytes''))
          else Inr (Some s))"

definition pay_normalize_metadata :: "json \<Rightarrow> pay_error + json" where
  "pay_normalize_metadata v =
     (case v of
        JNull \<Rightarrow> Inr (JObject [])
      | JObject kvs \<Rightarrow> Inr v
      | _ \<Rightarrow> Inl (PayValidation ''metadata must be a JSON object''))"

definition normalize_schedule_input :: "schedule_input \<Rightarrow> pay_error + schedule_input" where
  "normalize_schedule_input inp =
     rbind (ensure (\<not> is_nil (si_seller_id inp)) (PayValidation ''seller_id must not be nil'')) (\<lambda>_.
     rbind (pay_normalize_currency (si_currency_code inp)) (\<lambda>cur.
     rbind (ensure (\<not> (si_ledger_entry_ids inp = [] \<or> MAX_PAYOUT_ITEMS_PER_BATCH < length (si_ledger_entry_ids inp)))
       (PayValidation ''payout must contain 1 to 500 ledger entries'')) (\<lambda>_.
     rbind (ensure (\<not> list_ex is_nil (si_ledger_entry_ids inp))
       (PayValidation ''ledger_entry_ids must not contain nil UUIDs'')) (\<lambda>_.
     let ids = remdups_adj (sort (si_ledger_entry_ids inp)) in
     rbind (ensure (ids \<noteq> []) (PayValidation ''payout ledger entry set must not be empty'')) (\<lambda>_.
     rbind (pay_normalize_optional_text (si_destination_reference inp) 191 ''destination_reference'') (\<lambda>dest.
     rbind (pay_normalize_metadata (si_metadata inp)) (\<lambda>md.
     Inr (inp\<lparr>si_currency_code := cur, si_ledger_entry_ids := ids, si_destination_reference := dest,
              si_metadata := md\<rparr>))))))))"

subsection \<open>Reading the selected entries\<close>

definition map_ledger_port_error :: "port_error \<Rightarrow> pay_error" where
  "map_ledger_port_error e =
     LedgerBoundary (err_code e)
       (case err_kind e of
          Validation \<Rightarrow> ''marketplace ledger request is invalid''
        | NotFound \<Rightarrow> ''marketplace ledger resource was not found''
        | Conflict \<Rightarrow> ''marketplace ledger operation conflicts with the current state''
        | Forbidden \<Rightarrow> ''marketplace ledger permission was denied''
        | Unavailable \<Rightarrow> ''marketplace ledger is temporarily unavailable''
        | Timeout \<Rightarrow> ''marketplace ledger request timed out''
        | InvariantViolation \<Rightarrow> ''marketplace ledger requires operator review'')
       (retryable e) (err_kind e)"

definition saturating_mul_u64 :: "nat \<Rightarrow> nat \<Rightarrow> nat" where
  "saturating_mul_u64 a b = min (a * b) (2 ^ 64 - 1)"

text \<open>\<open>HashMap\<close>s of this loop are association lists with distinct keys.\<close>

definition collect_wanted ::
    "uuid set \<Rightarrow> entry_view list \<Rightarrow> (uuid \<times> entry_view) list \<Rightarrow> (uuid \<times> entry_view) list" where
  "collect_wanted wanted items found =
     foldl (\<lambda>found e. if le_id e \<in> wanted then AList.update (le_id e) e found else found) found items"

text \<open>The loop over the pages. Its page counter is checked, so it ends whatever the ledger answers.\<close>

function load_pages ::
    "(nat \<Rightarrow> port_error + ledger_page) \<Rightarrow> uuid set \<Rightarrow> nat \<Rightarrow> (uuid \<times> entry_view) list
     \<Rightarrow> pay_error + (uuid \<times> entry_view) list" where
  "load_pages read wanted page found =
     (case read page of
        Inl e \<Rightarrow> Inl (map_ledger_port_error e)
      | Inr (items, tot, _, per_page) \<Rightarrow>
          (let found = collect_wanted wanted items found in
           if length found = card wanted \<or> tot \<le> saturating_mul_u64 page per_page then Inr found
           else if page < 2 ^ 64 - 1 then load_pages read wanted (page + 1) found
           else Inl (PayValidation ''ledger pagination overflow while loading payout entries'')))"
  by pat_completeness auto
termination by (relation "measure (\<lambda>(_, _, page, _). 2 ^ 64 - page)") auto

definition validate_ledger_entry ::
    "(uuid \<Rightarrow> string) \<Rightarrow> uuid \<Rightarrow> schedule_input \<Rightarrow> entry_view \<Rightarrow> pay_error + unit" where
  "validate_ledger_entry prn tenant inp e =
     rbind (ensure (\<not> (is_nil tenant \<or> is_nil (le_id e)))
       (PayValidation ''tenant_id and entry.id must not be nil'')) (\<lambda>_.
     rbind (ensure (le_tenant_id e = tenant) (PayValidation (''ledger entry '' @ prn (le_id e)
       @ '' does not match payout tenant scope''))) (\<lambda>_.
     rbind (ensure (\<not> (le_seller_id e \<noteq> Some (si_seller_id inp) \<or> le_account_code e \<noteq> SellerPayable
         \<or> le_direction e \<noteq> Credit))
       (PayValidation (''ledger entry '' @ prn (le_id e) @ '' is not a seller payable credit for seller ''
         @ prn (si_seller_id inp)))) (\<lambda>_.
     rbind (pay_normalize_currency (le_currency_code e)) (\<lambda>c.
     rbind (ensure (c = si_currency_code inp) (PayValidation (''ledger entry '' @ prn (le_id e)
       @ '' currency does not match payout currency''))) (\<lambda>_.
     ensure (\<not> le_amount e \<le> 0) (PayValidation (''ledger entry '' @ prn (le_id e)
       @ '' amount must be greater than zero'')))))))"

fun take_entries ::
    "(uuid \<Rightarrow> string) \<Rightarrow> uuid \<Rightarrow> schedule_input \<Rightarrow> uuid list \<Rightarrow> (uuid \<times> entry_view) list
     \<Rightarrow> pay_error + entry_view list" where
  "take_entries prn tenant inp [] found = Inr []"
| "take_entries prn tenant inp (i # is) found =
     rbind (ok_or (map_of found i) (LedgerEntryNotFound i)) (\<lambda>e.
     rbind (validate_ledger_entry prn tenant inp e) (\<lambda>_.
     rbind (take_entries prn tenant inp is (AList.delete i found)) (\<lambda>es.
     Inr (e # es))))"

definition load_selected_entries ::
    "pay_env \<Rightarrow> port_context \<Rightarrow> uuid \<Rightarrow> schedule_input \<Rightarrow> pay_error + entry_view list" where
  "load_selected_entries env ctx tenant inp =
     rbind (ensure (\<not> is_nil tenant) (PayValidation ''tenant_id must not be nil'')) (\<lambda>_.
     rbind (load_pages (\<lambda>page. ledger_reader env ctx (si_seller_id inp) (Some (si_currency_code inp)) page LEDGER_PAGE_SIZE)
       (set (si_ledger_entry_ids inp)) 1 []) (\<lambda>found.
     take_entries (pay_print_uuid env) tenant inp (si_ledger_entry_ids inp) found))"

subsection \<open>Scheduling\<close>

definition map_payout :: "(uuid \<Rightarrow> string) \<Rightarrow> payout_row \<Rightarrow> payout_item list \<Rightarrow> pay_error + payout_view" where
  "map_payout prn m items =
     rbind (ok_or (payout_status_parse (pa_status m))
       (PayValidation (''unknown marketplace payout status `'' @ pa_status m @ ''`''))) (\<lambda>st.
     rbind (checked_sum (PayValidation ''payout item total overflow'') (map pt_amount items) 0) (\<lambda>item_total.
     rbind (ensure (item_total = pa_total_amount m)
       (PayValidation (''payout '' @ prn (pa_id m) @ '' total does not match its items''))) (\<lambda>_.
     Inr \<lparr>pa_id = pa_id m, pa_tenant_id = pa_tenant_id m, pa_seller_id = pa_seller_id m,
          pa_currency_code = pa_currency_code m, pa_total_amount = pa_total_amount m, pa_status = st,
          pa_scheduled_for = pa_scheduled_for m, pa_destination_reference = pa_destination_reference m,
          pa_external_reference = pa_external_reference m, pa_failure_code = pa_failure_code m,
          pa_metadata = pa_metadata m, pa_created_at = pa_created_at m, pa_updated_at = pa_updated_at m,
          pa_paid_at = pa_paid_at m, pa_items = items\<rparr>)))"

definition payout_row_of :: "pay_env \<Rightarrow> uuid \<Rightarrow> schedule_input \<Rightarrow> int \<Rightarrow> payout_row" where
  "payout_row_of env tenant inp tot =
     \<lparr>pa_id = payout_new_id env, pa_tenant_id = tenant, pa_seller_id = si_seller_id inp,
      pa_currency_code = si_currency_code inp, pa_total_amount = tot,
      pa_status = payout_status_as_str PayoutScheduled, pa_scheduled_for = si_scheduled_for inp,
      pa_destination_reference = si_destination_reference inp, pa_external_reference = None,
      pa_failure_code = None, pa_metadata = si_metadata inp, pa_created_at = pay_row_now env,
      pa_updated_at = pay_row_now env, pa_paid_at = None\<rparr>"

definition item_row_of :: "pay_env \<Rightarrow> uuid \<Rightarrow> nat \<Rightarrow> entry_view \<Rightarrow> payout_item" where
  "item_row_of env tenant i e =
     \<lparr>pt_id = payout_item_id env i, pt_tenant_id = tenant, pt_payout_id = payout_new_id env,
      pt_ledger_entry_id = le_id e, pt_amount = le_amount e, pt_created_at = pay_row_now env\<rparr>"

fun insert_items ::
    "pay_env \<Rightarrow> uuid \<Rightarrow> nat \<Rightarrow> entry_view list \<Rightarrow> payout_item list \<times> payout_item list
     \<Rightarrow> pay_error + payout_item list \<times> payout_item list" where
  "insert_items env tenant i [] acc = Inr acc"
| "insert_items env tenant i (e # es) (rows, items) =
     (let m = item_row_of env tenant i e in
      rbind (ok_or (insert_unique item_clash m rows) (LedgerEntryAlreadyAssigned (le_id e))) (\<lambda>rows.
      insert_items env tenant (i + 1) es (rows, items @ [m])))"

definition schedule_in_transaction ::
    "pay_env \<Rightarrow> uuid \<Rightarrow> schedule_input \<Rightarrow> entry_view list \<Rightarrow> pay_store \<Rightarrow> pay_error + pay_store \<times> payout_view" where
  "schedule_in_transaction env tenant inp es tx =
     rbind (ensure (\<not> is_nil tenant) (PayValidation ''tenant_id must not be nil'')) (\<lambda>_.
     case List.find (\<lambda>m. pt_tenant_id m = tenant \<and> pt_ledger_entry_id m \<in> set (map le_id es)) (item_rows tx) of
       Some existing \<Rightarrow> Inl (LedgerEntryAlreadyAssigned (pt_ledger_entry_id existing))
     | None \<Rightarrow>
         rbind (checked_sum (PayValidation ''payout total overflow'') (map le_amount es) 0) (\<lambda>tot.
         rbind (ensure (\<not> tot \<le> 0) (PayValidation ''payout total must be greater than zero'')) (\<lambda>_.
         let model = payout_row_of env tenant inp tot in
         rbind (ok_or (insert_unique payout_clash model (payout_rows tx)) (PayDatabase ''unique constraint'')) (\<lambda>pays.
         rbind (insert_items env tenant 0 es (item_rows tx, [])) (\<lambda>(rows, items).
         rbind (map_payout (pay_print_uuid env) model (sort_key pt_ledger_entry_id items)) (\<lambda>v.
         Inr (tx\<lparr>payout_rows := pays, item_rows := rows\<rparr>, v)))))))"

subsection \<open>Receipts\<close>

definition pay_normalize_idempotency_key :: "string \<Rightarrow> pay_error + string" where
  "pay_normalize_idempotency_key v =
     (let v = trim v in
      if v = [] \<or> 191 < length v
      then Inl (PayValidation ''idempotency key must contain 1 to 191 bytes'')
      else Inr v)"

definition schedule_request_hash :: "pay_env \<Rightarrow> uuid \<Rightarrow> json option \<Rightarrow> pay_error + string" where
  "schedule_request_hash env actor request =
     rbind (ensure (\<not> is_nil actor) (PayValidation ''actor_id must not be nil UUID'')) (\<lambda>_.
     rbind (ok_or request (PayValidation ''payout schedule request could not be normalized'')) (\<lambda>request.
     ok_or (pay_digest_of env (JObject
        [(''version'', JNumber ''1''), (''command_kind'', JString ''schedule_payout''),
         (''actor_id'', JString (pay_print_uuid env actor)), (''request'', canonical_json request)]))
       (PayValidation ''payout schedule request could not be hashed'')))"

definition pay_find_receipt :: "pay_store \<Rightarrow> uuid \<Rightarrow> string \<Rightarrow> pay_receipt option" where
  "pay_find_receipt s tenant key =
     List.find (\<lambda>r. pr_tenant_id r = tenant \<and> pr_idempotency_key r = key) (pay_receipt_rows s)"

definition pay_replay_receipt :: "pay_receipt \<Rightarrow> string \<Rightarrow> pay_error + payout_view" where
  "pay_replay_receipt r hash =
     (if pr_command_kind r \<noteq> ''schedule_payout'' \<or> pr_request_hash r \<noteq> hash then Inl PayIdempotencyConflict
      else if pr_status r \<noteq> ''completed'' \<or> pr_completed_at r = None then Inl PayReceiptCorrupt
      else ok_or (pr_response_json r) PayReceiptCorrupt)"

definition pay_replay_existing :: "pay_store \<Rightarrow> uuid \<Rightarrow> string \<Rightarrow> string \<Rightarrow> pay_error + payout_view option" where
  "pay_replay_existing s tenant key hash =
     rbind (ensure (\<not> is_nil tenant) (PayValidation ''tenant_id must not be nil UUID'')) (\<lambda>_.
     case pay_find_receipt s tenant key of
       Some r \<Rightarrow> rbind (pay_replay_receipt r hash) (\<lambda>v. Inr (Some v))
     | None \<Rightarrow> Inr None)"

record new_pay_receipt =
  pay_transaction :: pay_store
  np_receipt_id :: uuid
  np_tenant_id :: uuid

datatype pay_admission = PayReplay pay_receipt | PayNew new_pay_receipt

definition pay_pending_receipt :: "pay_env \<Rightarrow> uuid \<Rightarrow> uuid \<Rightarrow> string \<Rightarrow> string \<Rightarrow> pay_receipt" where
  "pay_pending_receipt env tenant actor key hash =
     \<lparr>pr_id = pay_receipt_id env, pr_tenant_id = tenant, pr_actor_id = actor,
      pr_idempotency_key = key, pr_command_kind = ''schedule_payout'', pr_request_hash = hash,
      pr_status = ''pending'', pr_response_json = None,
      pr_created_at = pay_receipt_now env, pr_completed_at = None\<rparr>"

definition pay_admit_receipt ::
    "pay_env \<Rightarrow> pay_store \<Rightarrow> pay_store \<Rightarrow> uuid \<Rightarrow> uuid \<Rightarrow> string \<Rightarrow> string \<Rightarrow> pay_error + pay_admission" where
  "pay_admit_receipt env seen s tenant actor key hash =
     rbind (ensure (\<not> (is_nil tenant \<or> is_nil actor))
       (PayValidation ''tenant_id and actor_id must not be nil UUID'')) (\<lambda>_.
     case pay_find_receipt seen tenant key of
       Some existing \<Rightarrow> Inr (PayReplay existing)
     | None \<Rightarrow>
         (case insert_unique pay_receipt_clash (pay_pending_receipt env tenant actor key hash) (pay_receipt_rows s) of
            Some rs \<Rightarrow> Inr (PayNew \<lparr>pay_transaction = s\<lparr>pay_receipt_rows := rs\<rparr>,
                              np_receipt_id = pay_receipt_id env, np_tenant_id = tenant\<rparr>)
          | None \<Rightarrow>
              (case pay_find_receipt s tenant key of
                 Some existing \<Rightarrow> Inr (PayReplay existing)
               | None \<Rightarrow> Inl (PayDatabase ''unique constraint''))))"

definition pay_completes :: "new_pay_receipt \<Rightarrow> pay_receipt \<Rightarrow> bool" where
  "pay_completes nr r \<longleftrightarrow>
     pr_id r = np_receipt_id nr \<and> pr_tenant_id r = np_tenant_id nr \<and> pr_status r = ''pending''"

definition pay_completed_receipt :: "pay_env \<Rightarrow> payout_view \<Rightarrow> pay_receipt \<Rightarrow> pay_receipt" where
  "pay_completed_receipt env resp r =
     r\<lparr>pr_status := ''completed'', pr_response_json := Some resp,
       pr_completed_at := Some (pay_completion_now env)\<rparr>"

definition pay_complete_receipt ::
    "pay_env \<Rightarrow> pay_store \<Rightarrow> new_pay_receipt \<Rightarrow> payout_view \<Rightarrow> pay_store \<times> (pay_error + payout_view)" where
  "pay_complete_receipt env s nr resp =
     (let tx = pay_transaction nr;
          rs = map (\<lambda>r. if pay_completes nr r then pay_completed_receipt env resp r else r) (pay_receipt_rows tx);
          rows_affected = length (filter (pay_completes nr) (pay_receipt_rows tx)) in
      if rows_affected \<noteq> 1 then (s, Inl PayReceiptCorrupt)
      else (tx\<lparr>pay_receipt_rows := rs\<rparr>, Inr resp))"

subsection \<open>The command\<close>

definition prepare_schedule ::
    "pay_env \<Rightarrow> uuid \<Rightarrow> uuid \<Rightarrow> string \<Rightarrow> schedule_input \<Rightarrow> pay_error + schedule_input \<times> string \<times> string" where
  "prepare_schedule env tenant actor key inp =
     rbind (ensure (\<not> is_nil tenant) (PayValidation ''tenant_id must not be nil'')) (\<lambda>_.
     rbind (ensure (\<not> is_nil actor) (PayValidation ''actor_id must not be nil'')) (\<lambda>_.
     rbind (normalize_schedule_input inp) (\<lambda>inp.
     rbind (pay_normalize_idempotency_key key) (\<lambda>key.
     rbind (schedule_request_hash env actor (schedule_to_value env inp)) (\<lambda>hash.
     Inr (inp, key, hash))))))"

definition schedule_with_receipt ::
    "pay_env \<Rightarrow> pay_store \<Rightarrow> pay_store \<Rightarrow> pay_store \<Rightarrow> port_context \<Rightarrow> uuid \<Rightarrow> uuid \<Rightarrow> string \<Rightarrow> schedule_input
     \<Rightarrow> pay_store \<times> (pay_error + payout_view)" where
  "schedule_with_receipt env before seen s ctx tenant actor key inp =
     (case prepare_schedule env tenant actor key inp of
        Inl e \<Rightarrow> (s, Inl e)
      | Inr (inp, key, hash) \<Rightarrow>
          (case pay_replay_existing before tenant key hash of
             Inl e \<Rightarrow> (s, Inl e)
           | Inr (Some v) \<Rightarrow> (s, Inr v)
           | Inr None \<Rightarrow>
               (case load_selected_entries env ctx tenant inp of
                  Inl e \<Rightarrow> (s, Inl e)
                | Inr es \<Rightarrow>
                    (case pay_admit_receipt env seen s tenant actor key hash of
                       Inl e \<Rightarrow> (s, Inl e)
                     | Inr (PayReplay r) \<Rightarrow> (s, pay_replay_receipt r hash)
                     | Inr (PayNew nr) \<Rightarrow>
                         (case schedule_in_transaction env tenant inp es (pay_transaction nr) of
                            Inr (tx, v) \<Rightarrow> pay_complete_receipt env s (nr\<lparr>pay_transaction := tx\<rparr>) v
                          | Inl e \<Rightarrow> (s, Inl e))))))"

subsection \<open>Queries\<close>

definition read_payout :: "(uuid \<Rightarrow> string) \<Rightarrow> pay_store \<Rightarrow> uuid \<Rightarrow> uuid \<Rightarrow> pay_error + payout_view" where
  "read_payout prn s tenant payout =
     rbind (ensure (\<not> is_nil tenant) (PayValidation ''tenant_id must not be nil'')) (\<lambda>_.
     rbind (ensure (\<not> is_nil payout) (PayValidation ''payout_id must not be nil'')) (\<lambda>_.
     rbind (ok_or (List.find (\<lambda>m. pa_tenant_id m = tenant \<and> pa_id m = payout) (payout_rows s))
       (PayoutNotFound payout)) (\<lambda>m.
     map_payout prn m (sort_key pt_ledger_entry_id
       (filter (\<lambda>i. pt_tenant_id i = tenant \<and> pt_payout_id i = payout) (item_rows s))))))"

definition list_seller_payouts ::
    "(uuid \<Rightarrow> string) \<Rightarrow> pay_store \<Rightarrow> uuid \<Rightarrow> uuid \<Rightarrow> string option \<Rightarrow> payout_status option \<Rightarrow> nat \<Rightarrow> nat
     \<Rightarrow> pay_error + payout_view list \<times> nat \<times> nat \<times> nat" where
  "list_seller_payouts prn s tenant seller currency status page per_page =
     rbind (ensure (\<not> is_nil tenant) (PayValidation ''tenant_id must not be nil'')) (\<lambda>_.
     rbind (ensure (\<not> is_nil seller) (PayValidation ''seller_id must not be nil'')) (\<lambda>_.
     rbind (case currency of
              Some v \<Rightarrow> rbind (pay_normalize_currency v) (\<lambda>c. Inr (Some c))
            | None \<Rightarrow> Inr None) (\<lambda>currency.
     let page = max page 1;
         per_page = min (max per_page 1) MAX_PAYOUTS_PER_PAGE;
         rows = sort_key (\<lambda>m. - pa_scheduled_for m) (sort_key (\<lambda>m. - uint (pa_id m))
           (filter (\<lambda>m. pa_tenant_id m = tenant \<and> pa_seller_id m = seller
              \<and> (case currency of None \<Rightarrow> True | Some c \<Rightarrow> pa_currency_code m = c)
              \<and> (case status of None \<Rightarrow> True | Some st \<Rightarrow> pa_status m = payout_status_as_str st)) (payout_rows s))) in
     rbind (try_map (\<lambda>m. map_payout prn m (sort_key pt_ledger_entry_id
         (filter (\<lambda>i. pt_tenant_id i = tenant \<and> pt_payout_id i = pa_id m) (item_rows s))))
       (take per_page (drop (per_page * (page - 1)) rows))) (\<lambda>items.
     Inr (items, length rows, page, per_page)))))"

subsection \<open>Ports\<close>

definition pay_parse_tenant_id :: "(string \<Rightarrow> uuid option) \<Rightarrow> port_context \<Rightarrow> port_error + uuid" where
  "pay_parse_tenant_id parse_uuid ctx =
     rbind (ok_or (parse_uuid (ctx_tenant_id ctx)) (err_validation ''marketplace_payout.tenant_id_invalid''
       ''PortContext.tenant_id must be a UUID for marketplace payout ports'')) (\<lambda>i.
     if is_nil i then Inl (err_validation ''marketplace_payout.tenant_id_invalid''
       ''PortContext.tenant_id must not be nil UUID'')
     else Inr i)"

definition pay_parse_actor_id :: "(string \<Rightarrow> uuid option) \<Rightarrow> port_context \<Rightarrow> port_error + uuid" where
  "pay_parse_actor_id parse_uuid ctx =
     rbind (ok_or (parse_uuid (actor_id (ctx_actor ctx))) (err_validation ''marketplace_payout.actor_id_invalid''
       ''write PortContext.actor.id must be a UUID for marketplace payout audit'')) (\<lambda>i.
     if is_nil i then Inl (err_validation ''marketplace_payout.actor_id_invalid''
       ''write PortContext.actor.id must not be nil UUID'')
     else Inr i)"

definition pay_parse_idempotency_key :: "port_context \<Rightarrow> port_error + string" where
  "pay_parse_idempotency_key ctx =
     ok_or (case idempotency_key ctx of None \<Rightarrow> None | Some k \<Rightarrow> if trim k = [] then None else Some (trim k))
       (err_validation ''marketplace_payout.idempotency_key_required''
         ''marketplace payout write requires an idempotency key'')"

fun pay_map_owner_error :: "(uuid \<Rightarrow> string) \<Rightarrow> pay_error \<Rightarrow> port_error" where
  "pay_map_owner_error prn (PayoutNotFound i) = err_not_found ''marketplace_payout.not_found''
     (''marketplace payout '' @ prn i @ '' was not found'')"
| "pay_map_owner_error prn (LedgerEntryNotFound i) = err_not_found ''marketplace_payout.ledger_entry_not_found''
     (''ledger entry '' @ prn i @ '' was not found in the seller payable projection'')"
| "pay_map_owner_error prn (LedgerEntryAlreadyAssigned i) =
     err_conflict ''marketplace_payout.ledger_entry_already_assigned''
       (''ledger entry '' @ prn i @ '' is already assigned to a payout'')"
| "pay_map_owner_error prn PayIdempotencyConflict = err_conflict ''marketplace_payout.idempotency_conflict''
     ''payout idempotency key is already bound to another request''"
| "pay_map_owner_error prn PayReceiptCorrupt = err_invariant_violation ''marketplace_payout.receipt_corrupt''
     ''payout receipt requires operator review''"
| "pay_map_owner_error prn (PayValidation m) = err_validation ''marketplace_payout.validation'' m"
| "pay_map_owner_error prn (LedgerBoundary c m r k) = port_error_new k c m r"
| "pay_map_owner_error prn (PayDatabase m) = port_error_new Unavailable ''marketplace_payout.storage_unavailable''
     ''marketplace payout storage is temporarily unavailable'' True"

definition port_read_payout ::
    "(string \<Rightarrow> uuid option) \<Rightarrow> (uuid \<Rightarrow> string) \<Rightarrow> pay_store \<Rightarrow> port_context \<Rightarrow> uuid \<Rightarrow> port_error + payout_view" where
  "port_read_payout parse_uuid prn s ctx payout =
     rbind (require_policy ctx policy_read) (\<lambda>_.
     rbind (ensure (\<not> is_nil payout) (err_validation ''marketplace_payout.payout_id_invalid''
       ''request.payout_id must not be nil UUID'')) (\<lambda>_.
     rbind (pay_parse_tenant_id parse_uuid ctx) (\<lambda>tenant.
     map_err (pay_map_owner_error prn) (read_payout prn s tenant payout))))"

definition port_list_seller_payouts ::
    "(string \<Rightarrow> uuid option) \<Rightarrow> (uuid \<Rightarrow> string) \<Rightarrow> pay_store \<Rightarrow> port_context \<Rightarrow> uuid \<Rightarrow> string option
     \<Rightarrow> payout_status option \<Rightarrow> nat \<Rightarrow> nat \<Rightarrow> port_error + payout_view list \<times> nat \<times> nat \<times> nat" where
  "port_list_seller_payouts parse_uuid prn s ctx seller currency status page per_page =
     rbind (require_policy ctx policy_read) (\<lambda>_.
     rbind (ensure (\<not> is_nil seller) (err_validation ''marketplace_payout.seller_id_invalid''
       ''request.seller_id must not be nil UUID'')) (\<lambda>_.
     rbind (pay_parse_tenant_id parse_uuid ctx) (\<lambda>tenant.
     map_err (pay_map_owner_error prn) (list_seller_payouts prn s tenant seller currency status page per_page))))"

text \<open>The checks of the schedule port, and the tenant, actor and key it hands to the command.\<close>

definition port_schedule_context ::
    "(string \<Rightarrow> uuid option) \<Rightarrow> port_context \<Rightarrow> schedule_input \<Rightarrow> port_error + uuid \<times> uuid \<times> string" where
  "port_schedule_context parse_uuid ctx inp =
     rbind (require_policy ctx policy_write) (\<lambda>_.
     rbind (pay_parse_tenant_id parse_uuid ctx) (\<lambda>tenant.
     rbind (pay_parse_actor_id parse_uuid ctx) (\<lambda>actor.
     rbind (pay_parse_idempotency_key ctx) (\<lambda>key.
     rbind (ensure (\<not> is_nil (si_seller_id inp)) (err_validation ''marketplace_payout.seller_id_invalid''
       ''request.seller_id must not be nil UUID'')) (\<lambda>_.
     rbind (ensure (\<not> list_ex is_nil (si_ledger_entry_ids inp))
       (err_validation ''marketplace_payout.ledger_entry_id_invalid''
         ''request.ledger_entry_ids must not contain nil UUID'')) (\<lambda>_.
     Inr (tenant, actor, key)))))))"

definition port_schedule_payout ::
    "(string \<Rightarrow> uuid option) \<Rightarrow> pay_env \<Rightarrow> pay_store \<Rightarrow> pay_store \<Rightarrow> pay_store \<Rightarrow> port_context \<Rightarrow> schedule_input
     \<Rightarrow> pay_store \<times> (port_error + payout_view)" where
  "port_schedule_payout parse_uuid env before seen s ctx inp =
     (case port_schedule_context parse_uuid ctx inp of
        Inl e \<Rightarrow> (s, Inl e)
      | Inr (tenant, actor, key) \<Rightarrow>
          map_prod id (map_err (pay_map_owner_error (pay_print_uuid env)))
            (schedule_with_receipt env before seen s ctx tenant actor key inp))"

end
