(* ===== verification/Payout_Safety.thy ===== *)
theory Payout_Safety
  imports Marketplace_Payout
begin

text \<open>
  What scheduling guarantees over any interleaving of callers: the rows a committed command
  appends, the invariant of the payout tables, and the replay of receipts.
\<close>

subsection \<open>The protocol of the receipts\<close>

lemma pay_find_None:
  "pay_find_receipt s tenant key = None \<longleftrightarrow>
     (\<forall>r \<in> set (pay_receipt_rows s). \<not> (pr_tenant_id r = tenant \<and> pr_idempotency_key r = key))"
  by (auto simp: pay_find_receipt_def find_None_iff)

lemma pay_replay_completed:
  "pay_replay_receipt (pay_completed_receipt env resp (pay_pending_receipt env tenant actor key hash)) hash = Inr resp"
  by (simp add: pay_replay_receipt_def pay_completed_receipt_def pay_pending_receipt_def)

lemma pay_admit_Replay:
  "pay_admit_receipt env seen s tenant actor key hash = Inr (PayReplay r) \<Longrightarrow>
   pay_find_receipt seen tenant key = Some r \<or> pay_find_receipt s tenant key = Some r"
  by (auto simp: pay_admit_receipt_def split: if_splits option.splits)

lemma pay_admit_New:
  assumes "pay_admit_receipt env seen s tenant actor key hash = Inr (PayNew nr)"
  shows "nr = \<lparr>pay_transaction = s\<lparr>pay_receipt_rows := pay_receipt_rows s
                 @ [pay_pending_receipt env tenant actor key hash]\<rparr>,
               np_receipt_id = pay_receipt_id env, np_tenant_id = tenant\<rparr>"
    and "\<forall>r \<in> set (pay_receipt_rows s). \<not> pay_receipt_clash (pay_pending_receipt env tenant actor key hash) r"
  using assms
  by (auto simp: pay_admit_receipt_def pay_receipt_table.insert_unique_Some split: if_splits option.splits)

definition pay_receipted ::
    "pay_env \<Rightarrow> pay_store \<Rightarrow> uuid \<Rightarrow> uuid \<Rightarrow> string \<Rightarrow> string \<Rightarrow> payout_view \<Rightarrow> pay_store \<Rightarrow> bool" where
  "pay_receipted env s tenant actor key hash resp s' \<longleftrightarrow>
     pay_find_receipt s tenant key = None
     \<and> pay_receipt_rows s' = pay_receipt_rows s
          @ [pay_completed_receipt env resp (pay_pending_receipt env tenant actor key hash)]
     \<and> (unique_rows pay_receipt_clash (pay_receipt_rows s) \<longrightarrow> unique_rows pay_receipt_clash (pay_receipt_rows s'))"

lemma pay_find_receipted:
  assumes "pay_receipted env s tenant actor key hash resp s'"
  shows "pay_find_receipt s t k = Some r \<Longrightarrow> pay_find_receipt s' t k = Some r"
    and "pay_find_receipt s' tenant key
      = Some (pay_completed_receipt env resp (pay_pending_receipt env tenant actor key hash))"
  using assms
  by (simp_all add: pay_receipted_def pay_find_receipt_def find_append pay_completed_receipt_def
      pay_pending_receipt_def)

lemma pay_complete_New:
  assumes "pay_admit_receipt env seen s tenant actor key hash = Inr (PayNew nr)"
    and "pay_receipt_rows tx = pay_receipt_rows (pay_transaction nr)"
  shows "\<exists>rs. pay_complete_receipt env s (nr\<lparr>pay_transaction := tx\<rparr>) resp = (tx\<lparr>pay_receipt_rows := rs\<rparr>, Inr resp)
    \<and> pay_receipted env s tenant actor key hash resp (tx\<lparr>pay_receipt_rows := rs\<rparr>)"
proof -
  let ?p = "pay_pending_receipt env tenant actor key hash"
  let ?nr = "nr\<lparr>pay_transaction := tx\<rparr>"
  let ?rs = "pay_receipt_rows s @ [pay_completed_receipt env resp ?p]"
  note nr = pay_admit_New(1) [OF assms(1)] and fresh = pay_admit_New(2) [OF assms(1)]
  have tx: "pay_receipt_rows tx = pay_receipt_rows s @ [?p]" using assms(2) by (simp add: nr)
  have "\<not> pay_completes ?nr r" if "r \<in> set (pay_receipt_rows s)" for r
    using fresh that by (auto simp: pay_completes_def nr pay_receipt_clash_def pay_pending_receipt_def)
  then have old: "filter (pay_completes ?nr) (pay_receipt_rows s) = []"
    "map (\<lambda>r. if pay_completes ?nr r then pay_completed_receipt env resp r else r) (pay_receipt_rows s)
      = pay_receipt_rows s"
    by (auto simp: filter_empty_conv intro: map_idI)
  have "pay_completes ?nr ?p" by (simp add: pay_completes_def nr pay_pending_receipt_def)
  then have run: "pay_complete_receipt env s ?nr resp = (tx\<lparr>pay_receipt_rows := ?rs\<rparr>, Inr resp)"
    using old by (simp add: pay_complete_receipt_def Let_def tx)
  have "unique_rows pay_receipt_clash ?rs" if "unique_rows pay_receipt_clash (pay_receipt_rows s)"
    using that fresh by (auto simp: pay_receipt_table.unique_snoc pay_receipt_clash_def pay_completed_receipt_def)
  moreover have "pay_find_receipt s tenant key = None"
    using fresh by (auto simp: pay_find_None pay_receipt_clash_def pay_pending_receipt_def)
  ultimately show ?thesis by (intro exI [of _ ?rs]) (simp add: run pay_receipted_def)
qed

subsection \<open>The rows of a payout\<close>

primrec new_items :: "pay_env \<Rightarrow> uuid \<Rightarrow> nat \<Rightarrow> entry_view list \<Rightarrow> payout_item list" where
  "new_items env tenant i [] = []"
| "new_items env tenant i (e # es) = item_row_of env tenant i e # new_items env tenant (i + 1) es"

lemma new_items_fields:
  "map pt_amount (new_items env tenant i es) = map le_amount es"
  "map pt_ledger_entry_id (new_items env tenant i es) = map le_id es"
  "\<forall>m \<in> set (new_items env tenant i es). pt_tenant_id m = tenant \<and> pt_payout_id m = payout_new_id env"
  by (induction es arbitrary: i) (simp_all add: item_row_of_def)

lemma insert_items_Inr:
  "insert_items env tenant i es (rows, items) = Inr (rows', items') \<Longrightarrow>
     rows' = rows @ new_items env tenant i es \<and> items' = items @ new_items env tenant i es
     \<and> (unique_rows item_clash rows \<longrightarrow> unique_rows item_clash rows')"
proof (induction es arbitrary: i rows items)
  case (Cons e es)
  let ?m = "item_row_of env tenant i e"
  from Cons.prems obtain rows1 where ins: "insert_unique item_clash ?m rows = Some rows1"
    and rest: "insert_items env tenant (i + 1) es (rows1, items @ [?m]) = Inr (rows', items')"
    by (auto simp: Let_def rbind_eq_Inr)
  have "rows1 = rows @ [?m]" using ins by (simp add: payout_item_table.insert_unique_Some)
  with Cons.IH [OF rest] payout_item_table.unique_insert [OF _ ins] show ?case by auto
qed simp

text \<open>What a committed payout appends.\<close>

definition payout_extends ::
    "pay_env \<Rightarrow> uuid \<Rightarrow> schedule_input \<Rightarrow> entry_view list \<Rightarrow> payout_view \<Rightarrow> pay_store \<Rightarrow> pay_store \<Rightarrow> bool" where
  "payout_extends env tenant inp es v s s' \<longleftrightarrow>
     (\<exists>tot. tot = sum_list (map le_amount es) \<and> 0 < tot \<and> in_i64 tot
        \<and> payout_rows s' = payout_rows s @ [payout_row_of env tenant inp tot]
        \<and> item_rows s' = item_rows s @ new_items env tenant 0 es
        \<and> pa_total_amount v = tot \<and> pa_items v = sort_key pt_ledger_entry_id (new_items env tenant 0 es)
        \<and> pa_id v = payout_new_id env \<and> pa_status v = PayoutScheduled
        \<and> payout_new_id env \<notin> pa_id ` set (payout_rows s))
     \<and> (\<forall>i \<in> set (item_rows s). pt_tenant_id i = tenant \<longrightarrow> pt_ledger_entry_id i \<notin> le_id ` set es)
     \<and> (unique_rows item_clash (item_rows s) \<longrightarrow> unique_rows item_clash (item_rows s'))
     \<and> (unique_rows payout_clash (payout_rows s) \<longrightarrow> unique_rows payout_clash (payout_rows s'))"

lemma payout_extends_cong:
  assumes "payout_rows t = payout_rows s" "item_rows t = item_rows s"
    and "payout_rows t' = payout_rows s'" "item_rows t' = item_rows s'"
  shows "payout_extends env tenant inp es v t t' = payout_extends env tenant inp es v s s'"
  unfolding payout_extends_def assms by (rule refl)

lemma checked_sum_in_i64: "checked_sum e xs t = Inr v \<Longrightarrow> in_i64 t \<Longrightarrow> in_i64 v"
  by (induction xs arbitrary: t) auto

lemma schedule_body:
  assumes "schedule_in_transaction env tenant inp es tx = Inr (tx', v)"
  shows "pay_receipt_rows tx' = pay_receipt_rows tx" and "payout_extends env tenant inp es v tx tx'"
proof -
  obtain tot pays rows items where none: "List.find (\<lambda>m. pt_tenant_id m = tenant
        \<and> pt_ledger_entry_id m \<in> set (map le_id es)) (item_rows tx) = None"
    and tot: "checked_sum (PayValidation ''payout total overflow'') (map le_amount es) 0 = Inr tot" "0 < tot"
    and pays: "insert_unique payout_clash (payout_row_of env tenant inp tot) (payout_rows tx) = Some pays"
    and ins: "insert_items env tenant 0 es (item_rows tx, []) = Inr (rows, items)"
    and v: "map_payout (pay_print_uuid env) (payout_row_of env tenant inp tot) (sort_key pt_ledger_entry_id items) = Inr v"
    and tx': "tx' = tx\<lparr>payout_rows := pays, item_rows := rows\<rparr>"
    using assms by (auto simp: schedule_in_transaction_def Let_def not_le split: option.splits)
  note rows = insert_items_Inr [OF ins]
  have st: "payout_status_parse (pa_status (payout_row_of env tenant inp tot)) = Some PayoutScheduled"
    by (simp add: payout_row_of_def payout_status_text.parse_render del: payout_status_as_str.simps)
  have "payout_new_id env \<notin> pa_id ` set (payout_rows tx)" "pays = payout_rows tx @ [payout_row_of env tenant inp tot]"
    using pays by (auto simp: payout_table.insert_unique_Some payout_clash_def payout_row_of_def)
  moreover have "pa_total_amount v = tot" "pa_items v = sort_key pt_ledger_entry_id items" "pa_id v = payout_new_id env"
    "pa_status v = PayoutScheduled"
    using v st by (auto simp: map_payout_def) (auto simp: payout_row_of_def)
  moreover have "tot = sum_list (map le_amount es)" using checked_sum_Inr [OF tot(1)] by simp
  moreover have "in_i64 tot" by (rule checked_sum_in_i64 [OF tot(1)]) simp
  ultimately show "payout_extends env tenant inp es v tx tx'"
    using rows tot(2) none payout_table.unique_insert [OF _ pays]
    by (auto simp: payout_extends_def tx' find_None_iff)
  show "pay_receipt_rows tx' = pay_receipt_rows tx" by (simp add: tx')
qed

lemma prepare_schedule_Inr:
  "prepare_schedule env tenant actor key inp = Inr (inp', k, h) \<Longrightarrow>
     tenant \<noteq> 0 \<and> actor \<noteq> 0 \<and> normalize_schedule_input inp = Inr inp'"
  by (auto simp: prepare_schedule_def)

definition pay_commits ::
    "pay_env \<Rightarrow> pay_store \<Rightarrow> port_context \<Rightarrow> uuid \<Rightarrow> uuid \<Rightarrow> string \<Rightarrow> string \<Rightarrow> schedule_input \<Rightarrow> entry_view list
     \<Rightarrow> payout_view \<Rightarrow> pay_store \<Rightarrow> bool" where
  "pay_commits env s ctx tenant actor k h inp es v s' \<longleftrightarrow>
     load_selected_entries env ctx tenant inp = Inr es
     \<and> payout_extends env tenant inp es v s s' \<and> pay_receipted env s tenant actor k h v s'"

lemma schedule_outcome:
  assumes "schedule_with_receipt env before seen s ctx tenant actor key inp = (s', res)"
  shows "s' = s \<and> (\<forall>v. res = Inr v \<longrightarrow> (\<exists>inp' k h r. prepare_schedule env tenant actor key inp = Inr (inp', k, h)
             \<and> (pay_find_receipt before tenant k = Some r \<or> pay_find_receipt seen tenant k = Some r
                \<or> pay_find_receipt s tenant k = Some r)))
    \<or> (\<exists>inp' k h es v. prepare_schedule env tenant actor key inp = Inr (inp', k, h) \<and> res = Inr v
         \<and> pay_commits env s ctx tenant actor k h inp' es v s')"
proof (cases "prepare_schedule env tenant actor key inp")
  case (Inl e)
  with assms show ?thesis by (auto simp: schedule_with_receipt_def)
next
  case prep: (Inr p)
  obtain inp' k h where p: "p = (inp', k, h)" by (cases p)
  note run = assms [unfolded schedule_with_receipt_def prep p sum.case prod.case]
  show ?thesis
  proof (cases "pay_replay_existing before tenant k h")
    case (Inl e)
    with run show ?thesis by auto
  next
    case rep: (Inr o1)
    show ?thesis
    proof (cases o1)
      case (Some v)
      then show ?thesis using run rep prep p by (auto simp: pay_replay_existing_def split: option.splits)
    next
      case none: None
      show ?thesis
      proof (cases "load_selected_entries env ctx tenant inp'")
        case (Inl e)
        with run rep none show ?thesis by auto
      next
        case load: (Inr es)
        show ?thesis
        proof (cases "pay_admit_receipt env seen s tenant actor k h")
          case (Inl e)
          with run rep none load show ?thesis by auto
        next
          case adm: (Inr a)
          show ?thesis
          proof (cases a)
            case (PayReplay r)
            then show ?thesis
              using run rep none load adm prep p pay_admit_Replay [of env seen s tenant actor k h r] by auto
          next
            case (PayNew nr)
            note adm = adm [unfolded PayNew]
            show ?thesis
            proof (cases "schedule_in_transaction env tenant inp' es (pay_transaction nr)")
              case (Inl e)
              with run rep none load adm show ?thesis by auto
            next
              case (Inr t)
              then obtain tx v where t: "schedule_in_transaction env tenant inp' es (pay_transaction nr) = Inr (tx, v)"
                by (cases t) auto
              obtain rs where rs: "pay_complete_receipt env s (nr\<lparr>pay_transaction := tx\<rparr>) v = (tx\<lparr>pay_receipt_rows := rs\<rparr>, Inr v)"
                "pay_receipted env s tenant actor k h v (tx\<lparr>pay_receipt_rows := rs\<rparr>)"
                using pay_complete_New [OF adm schedule_body(1) [OF t]] by blast
              have "payout_extends env tenant inp' es v s (tx\<lparr>pay_receipt_rows := rs\<rparr>)
                  = payout_extends env tenant inp' es v (pay_transaction nr) tx"
                by (rule payout_extends_cong) (simp_all add: pay_admit_New(1) [OF adm])
              with schedule_body(2) [OF t] have "pay_commits env s ctx tenant actor k h inp' es v (tx\<lparr>pay_receipt_rows := rs\<rparr>)"
                by (simp only: pay_commits_def load rs(2) simp_thms)
              moreover have "(s', res) = (tx\<lparr>pay_receipt_rows := rs\<rparr>, Inr v)"
                using run rep none load adm t rs(1) by simp
              ultimately show ?thesis using prep p by blast
            qed
          qed
        qed
      qed
    qed
  qed
qed

subsection \<open>The invariant of the tables\<close>

definition items_of :: "pay_store \<Rightarrow> payout_row \<Rightarrow> payout_item list" where
  "items_of s p = filter (\<lambda>i. pt_tenant_id i = pa_tenant_id p \<and> pt_payout_id i = pa_id p) (item_rows s)"

definition payout_row_ok :: "pay_store \<Rightarrow> payout_row \<Rightarrow> bool" where
  "payout_row_ok s p \<longleftrightarrow> pa_status p \<in> range payout_status_as_str \<and> in_i64 (pa_total_amount p)
     \<and> 0 < pa_total_amount p \<and> pa_total_amount p = sum_list (map pt_amount (items_of s p))"

definition payouts_ok :: "pay_store \<Rightarrow> bool" where
  "payouts_ok s \<longleftrightarrow>
     unique_rows payout_clash (payout_rows s) \<and> unique_rows item_clash (item_rows s)
     \<and> unique_rows pay_receipt_clash (pay_receipt_rows s)
     \<and> pt_payout_id ` set (item_rows s) \<subseteq> pa_id ` set (payout_rows s)
     \<and> (\<forall>i \<in> set (item_rows s). 0 < pt_amount i)
     \<and> (\<forall>p \<in> set (payout_rows s). payout_row_ok s p)"

lemma items_of_extends:
  assumes "payout_extends env tenant inp es v s s'" and "payouts_ok s"
  shows "p \<in> set (payout_rows s) \<Longrightarrow> items_of s' p = items_of s p"
    and "pa_tenant_id p = tenant \<Longrightarrow> pa_id p = payout_new_id env \<Longrightarrow> items_of s' p = new_items env tenant 0 es"
proof -
  have items: "item_rows s' = item_rows s @ new_items env tenant 0 es" "payout_new_id env \<notin> pa_id ` set (payout_rows s)"
    using assms(1) by (auto simp: payout_extends_def)
  note new = new_items_fields(3) [of env tenant 0 es]
  show "p \<in> set (payout_rows s) \<Longrightarrow> items_of s' p = items_of s p"
    using items new by (auto simp: items_of_def filter_empty_conv)
  assume p: "pa_tenant_id p = tenant" "pa_id p = payout_new_id env"
  have "payout_new_id env \<notin> pt_payout_id ` set (item_rows s)" using items(2) assms(2) by (auto simp: payouts_ok_def)
  then have "filter (\<lambda>i. pt_tenant_id i = tenant \<and> pt_payout_id i = payout_new_id env) (item_rows s) = []"
    unfolding filter_empty_conv by (metis imageI)
  moreover have "filter (\<lambda>i. pt_tenant_id i = tenant \<and> pt_payout_id i = payout_new_id env) (new_items env tenant 0 es)
      = new_items env tenant 0 es"
    using new by (simp add: filter_id_conv)
  ultimately show "items_of s' p = new_items env tenant 0 es" using p items(1) by (simp add: items_of_def)
qed

lemma validate_ledger_entry_Inr:
  "validate_ledger_entry prn tenant inp e = Inr u \<longleftrightarrow> tenant \<noteq> 0 \<and> le_id e \<noteq> 0 \<and> le_tenant_id e = tenant
     \<and> le_seller_id e = Some (si_seller_id inp) \<and> le_account_code e = SellerPayable \<and> le_direction e = Credit
     \<and> pay_normalize_currency (le_currency_code e) = Inr (si_currency_code inp) \<and> 0 < le_amount e"
  by (auto simp: validate_ledger_entry_def)

lemma take_entries_valid:
  "take_entries prn tenant inp ids found = Inr es \<Longrightarrow> \<forall>e \<in> set es. validate_ledger_entry prn tenant inp e = Inr ()"
  by (induction ids arbitrary: found es) auto

lemma load_selected_valid:
  assumes "load_selected_entries env ctx tenant inp = Inr es"
  shows "\<forall>e \<in> set es. validate_ledger_entry (pay_print_uuid env) tenant inp e = Inr ()"
  using assms by (auto simp: load_selected_entries_def dest: take_entries_valid)

lemma commits_payouts_ok:
  assumes ok: "payouts_ok s" and c: "pay_commits env s ctx tenant actor k h inp es v s'"
  shows "payouts_ok s'"
proof -
  have ext: "payout_extends env tenant inp es v s s'" and rec: "pay_receipted env s tenant actor k h v s'"
    and load: "load_selected_entries env ctx tenant inp = Inr es"
    using c by (simp_all add: pay_commits_def)
  obtain tot where tot: "tot = sum_list (map le_amount es)" "0 < tot" "in_i64 tot"
    and pays: "payout_rows s' = payout_rows s @ [payout_row_of env tenant inp tot]"
    and items: "item_rows s' = item_rows s @ new_items env tenant 0 es"
    using ext by (auto simp: payout_extends_def)
  let ?p = "payout_row_of env tenant inp tot"
  have "items_of s' ?p = new_items env tenant 0 es"
    by (rule items_of_extends(2) [OF ext ok]) (simp_all add: payout_row_of_def)
  then have "sum_list (map pt_amount (items_of s' ?p)) = tot" by (simp add: new_items_fields(1) tot(1))
  have "\<forall>e \<in> set es. 0 < le_amount e"
    using load_selected_valid [OF load] by (simp add: validate_ledger_entry_Inr)
  then have "\<forall>x \<in> set (map pt_amount (new_items env tenant 0 es)). 0 < x" by (simp add: new_items_fields(1))
  then have pos: "\<forall>i \<in> set (new_items env tenant 0 es). 0 < pt_amount i" by simp
  have st: "pa_status ?p \<in> range payout_status_as_str" "pa_total_amount ?p = tot" "pa_id ?p = payout_new_id env"
    by (simp_all add: payout_row_of_def del: payout_status_as_str.simps)
  then have new: "payout_row_ok s' ?p"
    using tot(2,3) \<open>sum_list _ = tot\<close> by (simp add: payout_row_ok_def)
  have old: "payout_row_ok s' p = payout_row_ok s p" if "p \<in> set (payout_rows s)" for p
    by (simp add: payout_row_ok_def items_of_extends(1) [OF ext ok that])
  have "unique_rows pay_receipt_clash (pay_receipt_rows s')"
    using rec ok unfolding pay_receipted_def payouts_ok_def by blast
  moreover have "unique_rows item_clash (item_rows s')" "unique_rows payout_clash (payout_rows s')"
    using ext ok unfolding payout_extends_def payouts_ok_def by blast+
  moreover have "pt_payout_id ` set (item_rows s') \<subseteq> pa_id ` set (payout_rows s')"
    using ok new_items_fields(3) [of env tenant 0 es] by (auto simp: items pays payouts_ok_def st(3))
  moreover have "\<forall>i \<in> set (item_rows s'). 0 < pt_amount i" using ok pos by (auto simp: items payouts_ok_def)
  moreover have "\<forall>p \<in> set (payout_rows s'). payout_row_ok s' p"
    using ok new old by (simp add: pays payouts_ok_def)
  ultimately show ?thesis unfolding payouts_ok_def by blast
qed

lemma schedule_payouts_ok:
  assumes "payouts_ok s" and "schedule_with_receipt env before seen s ctx tenant actor key inp = (s', res)"
  shows "payouts_ok s'"
  using schedule_outcome [OF assms(2)] assms(1) commits_payouts_ok by blast

text \<open>Concurrent callers, each with its own clock and identifiers and its own view of the ledger.\<close>

inductive pay_step :: "pay_store \<Rightarrow> pay_store \<Rightarrow> bool" where
  "schedule_with_receipt env before seen s ctx tenant actor key inp = (s', res) \<Longrightarrow> pay_step s s'"

definition empty_payouts :: pay_store where
  "empty_payouts = \<lparr>payout_rows = [], item_rows = [], pay_receipt_rows = []\<rparr>"

lemma empty_payouts_ok: "payouts_ok empty_payouts"
  by (simp add: payouts_ok_def empty_payouts_def unique_rows_def)

interpretation payout_states: transition_invariant "\<lambda>s. s = empty_payouts" pay_step "\<lambda>_. True" "\<lambda>_. payouts_ok"
  by unfold_locales (auto simp: empty_payouts_ok elim!: pay_step.cases intro: schedule_payouts_ok)

lemma checked_sum_fits:
  "\<forall>x \<in> set xs. 0 \<le> x \<Longrightarrow> 0 \<le> t \<Longrightarrow> in_i64 (t + sum_list xs) \<Longrightarrow> checked_sum e xs t = Inr (t + sum_list xs)"
proof (induction xs arbitrary: t)
  case (Cons x xs)
  have "0 \<le> sum_list xs" using Cons.prems(1) by (simp add: sum_list_nonneg)
  then have "in_i64 (t + x)" using Cons.prems by (auto simp: in_i64_def i64_min_def)
  then have "checked_i64 (t + x) = Some (t + x)" by simp
  then show ?case using Cons.IH [of "t + x"] Cons.prems by (simp add: add.assoc del: checked_i64_Some)
qed simp

text \<open>
  C14: no credit is paid out twice, and every payout can be read. Over any interleaving of callers
  and whatever the ledger answered them, each ledger entry of a tenant is an item of at most one
  payout, items are positive, and reading a stored payout succeeds with items that add up to its
  positive total.
\<close>

theorem payouts_stay_exclusive:
  assumes "reachable (\<lambda>s. s = empty_payouts) pay_step n s"
  shows "(\<forall>i \<in> set (item_rows s). \<forall>j \<in> set (item_rows s). pt_tenant_id i = pt_tenant_id j
        \<and> pt_ledger_entry_id i = pt_ledger_entry_id j \<longrightarrow> i = j)
    \<and> (\<forall>i \<in> set (item_rows s). 0 < pt_amount i)
    \<and> (\<forall>p \<in> set (payout_rows s). pa_tenant_id p \<noteq> 0 \<and> pa_id p \<noteq> 0 \<longrightarrow>
        (\<exists>v. read_payout prn s (pa_tenant_id p) (pa_id p) = Inr v \<and> 0 < pa_total_amount v
          \<and> pa_total_amount v = sum_list (map pt_amount (pa_items v)) \<and> set (pa_items v) = set (items_of s p)))"
proof (intro conjI ballI impI)
  have ok: "payouts_ok s" by (rule payout_states.reachable_inv [OF assms]) simp
  fix i j
  assume "i \<in> set (item_rows s)"
  then show "0 < pt_amount i" using ok by (simp add: payouts_ok_def)
  assume "j \<in> set (item_rows s)" "pt_tenant_id i = pt_tenant_id j \<and> pt_ledger_entry_id i = pt_ledger_entry_id j"
  with \<open>i \<in> set (item_rows s)\<close> show "i = j"
    using ok by (intro payout_item_table.unique_eq [of "item_rows s"]) (simp_all add: payouts_ok_def item_clash_def)
next
  have ok: "payouts_ok s" by (rule payout_states.reachable_inv [OF assms]) simp
  fix p
  assume p: "p \<in> set (payout_rows s)" and nz: "pa_tenant_id p \<noteq> 0 \<and> pa_id p \<noteq> 0"
  let ?items = "sort_key pt_ledger_entry_id (items_of s p)"
  have find: "List.find (\<lambda>m. pa_tenant_id m = pa_tenant_id p \<and> pa_id m = pa_id p) (payout_rows s) = Some p"
    using ok p by (intro payout_table.unique_find) (simp_all add: payouts_ok_def payout_clash_def)
  have row: "pa_status p \<in> range payout_status_as_str" "in_i64 (pa_total_amount p)" "0 < pa_total_amount p"
    "pa_total_amount p = sum_list (map pt_amount (items_of s p))"
    using ok p unfolding payouts_ok_def payout_row_ok_def by blast+
  have sum: "sum_list (map pt_amount ?items) = pa_total_amount p"
    using sum_list_perm [of ?items "items_of s p" pt_amount "\<lambda>_. True"] row(4) by simp
  have "set (items_of s p) \<subseteq> set (item_rows s)" by (auto simp: items_of_def)
  then have "\<forall>x \<in> set (map pt_amount ?items). 0 \<le> x" using ok by (force simp: payouts_ok_def)
  then have "checked_sum (PayValidation ''payout item total overflow'') (map pt_amount ?items) 0 = Inr (pa_total_amount p)"
    using checked_sum_fits [of "map pt_amount ?items" 0] row(2) by (simp add: sum)
  moreover obtain st where "pa_status p = payout_status_as_str st" using row(1) by blast
  then have "payout_status_parse (pa_status p) = Some st"
    by (simp add: payout_status_text.parse_render del: payout_status_as_str.simps)
  ultimately obtain v where v: "map_payout prn p ?items = Inr v" "pa_total_amount v = pa_total_amount p" "pa_items v = ?items"
    by (simp add: map_payout_def)
  have "read_payout prn s (pa_tenant_id p) (pa_id p) = Inr v"
    using nz v(1) by (simp add: read_payout_def find items_of_def)
  then show "\<exists>v. read_payout prn s (pa_tenant_id p) (pa_id p) = Inr v \<and> 0 < pa_total_amount v
          \<and> pa_total_amount v = sum_list (map pt_amount (pa_items v)) \<and> set (pa_items v) = set (items_of s p)"
    using v(2,3) row(3) sum by (intro exI [of _ v]) simp
qed

subsection \<open>Replay\<close>

datatype pay_command = SchedulePayout pay_env port_context uuid uuid string schedule_input

primrec run_pay :: "pay_store \<Rightarrow> pay_command \<Rightarrow> pay_store \<times> (pay_error + payout_view)" where
  "run_pay s (SchedulePayout env ctx tenant actor key inp) = schedule_with_receipt env s s s ctx tenant actor key inp"

text \<open>What a command is bound to: tenant, key and hash.\<close>

primrec prepare_pay :: "pay_command \<Rightarrow> pay_error + uuid \<times> string \<times> string" where
  "prepare_pay (SchedulePayout env ctx tenant actor key inp) =
     rbind (prepare_schedule env tenant actor key inp) (\<lambda>(inp, k, h). Inr (tenant, k, h))"

fun lookup_pay :: "pay_store \<Rightarrow> uuid \<times> string \<times> string \<Rightarrow> pay_receipt option" where
  "lookup_pay s (tenant, k, h) = pay_find_receipt s tenant k"

fun replay_pay :: "pay_receipt \<Rightarrow> uuid \<times> string \<times> string \<Rightarrow> pay_error + payout_view" where
  "replay_pay r (tenant, k, h) = pay_replay_receipt r h"

interpretation payout_command: receipted_command run_pay payouts_ok prepare_pay lookup_pay replay_pay
proof
  fix c s e
  assume "prepare_pay c = Inl e"
  then show "run_pay s c = (s, Inl e)"
    by (cases c) (auto simp: schedule_with_receipt_def rbind_eq_Inl split: prod.splits)
next
  fix c s p rc
  assume p: "prepare_pay c = Inr p" "lookup_pay s p = Some rc"
  obtain env ctx tenant actor key inp where c: "c = SchedulePayout env ctx tenant actor key inp" by (cases c)
  obtain inp' k h where prep: "prepare_schedule env tenant actor key inp = Inr (inp', k, h)" "p = (tenant, k, h)"
    using p(1) by (auto simp: c)
  show "run_pay s c = (s, replay_pay rc p)"
    using p(2) prep prepare_schedule_Inr [OF prep(1)] by (cases "pay_replay_receipt rc h")
      (simp_all add: c schedule_with_receipt_def pay_replay_existing_def)
next
  fix s c p
  assume ok: "payouts_ok s" and p: "prepare_pay c = Inr p" "lookup_pay s p = None"
  obtain env ctx tenant actor key inp where c: "c = SchedulePayout env ctx tenant actor key inp" by (cases c)
  obtain s' res where run: "schedule_with_receipt env s s s ctx tenant actor key inp = (s', res)" by fastforce
  have none: "prepare_schedule env tenant actor key inp = Inr (inp', k, h) \<Longrightarrow> p = (tenant, k, h) \<and> pay_find_receipt s tenant k = None"
    for inp' k h using p by (auto simp: c)
  from schedule_outcome [OF run] consider e where "s' = s" "res = Inl e"
    | inp' k h es v where "prepare_schedule env tenant actor key inp = Inr (inp', k, h)" "res = Inr v"
      "pay_commits env s ctx tenant actor k h inp' es v s'"
    using none by (cases res) fastforce+
  then show "(\<exists>e. run_pay s c = (s, Inl e)) \<or> (\<exists>s' r rc. run_pay s c = (s', Inr r) \<and> payouts_ok s'
      \<and> lookup_pay s' p = Some rc \<and> replay_pay rc p = Inr r
      \<and> (\<forall>q x. lookup_pay s q = Some x \<longrightarrow> lookup_pay s' q = Some x))"
  proof cases
    case 1
    then show ?thesis using run by (simp add: c)
  next
    case (2 inp' k h es v)
    have rec: "pay_receipted env s tenant actor k h v s'" using 2(3) by (simp add: pay_commits_def)
    then show ?thesis
      using run 2(2) none [OF 2(1)] pay_find_receipted(2) [OF rec] commits_payouts_ok [OF ok 2(3)]
        pay_find_receipted(1) [OF rec] by (simp add: c pay_replay_completed)
  qed
qed

text \<open>
  A payout is scheduled once per idempotency key. After a schedule succeeded, and whatever
  other schedules ran since, a repetition of the request (recognised by tenant, key and hash,
  whatever the ledger answers meanwhile) returns the identical payout and changes nothing.
\<close>

theorem payout_replayed:
  assumes "payouts_ok s" and "run_pay s c = (s', Inr r)" and "prepare_pay d = prepare_pay c"
    and "s'' = foldl (\<lambda>s d. fst (run_pay s d)) s' cs"
  shows "run_pay s'' d = (s'', Inr r)"
  using payout_command.commands.replay_after [OF assms(1,2) assms(3) [symmetric]] assms(4) by simp

end
