(* ===== verification/Payout_Reads.thy ===== *)
theory Payout_Reads
  imports Payout_Safety
begin

text \<open>
  Payouts against the ledger's own read port: what the loop over its pages computes, how many
  pages it reads, and which entries a committed payout pays.
\<close>

subsection \<open>The loop over the pages\<close>

declare load_pages.simps [simp del]

definition page_of :: "nat \<Rightarrow> 'a list \<Rightarrow> nat \<Rightarrow> 'a list" where
  "page_of sz vs page = take sz (drop (sz * (page - 1)) vs)"

lemma pages_append:
  assumes "1 \<le> page"
  shows "take (sz * (page - 1)) vs @ page_of sz vs page = take (sz * page) vs"
proof -
  have "sz * page = sz * (page - 1) + sz" using assms by (cases page) simp_all
  then show ?thesis by (simp add: page_of_def take_add)
qed

text \<open>What the map \<open>found\<close> of the loop holds once the entries \<open>es\<close> have gone by.\<close>

definition holds :: "uuid set \<Rightarrow> entry_view list \<Rightarrow> (uuid \<times> entry_view) list \<Rightarrow> bool" where
  "holds W es found \<longleftrightarrow> distinct (map fst found)
     \<and> (\<forall>i e. map_of found i = Some e \<longleftrightarrow> i \<in> W \<and> e \<in> set es \<and> le_id e = i)"

lemma collect_wanted_simps [simp]:
  "collect_wanted W [] found = found"
  "collect_wanted W (e # es) found =
     collect_wanted W es (if le_id e \<in> W then AList.update (le_id e) e found else found)"
  by (simp_all add: collect_wanted_def)

lemma holds_collect:
  "holds W es found \<Longrightarrow> distinct (map le_id (es @ items)) \<Longrightarrow> holds W (es @ items) (collect_wanted W items found)"
proof (induction items arbitrary: es found)
  case (Cons e items)
  have "le_id e \<notin> le_id ` set es" using Cons.prems(2) by auto
  then have "holds W (es @ [e]) (if le_id e \<in> W then AList.update (le_id e) e found else found)"
    using Cons.prems(1) by (auto simp: holds_def distinct_update update_conv' image_iff simp del: map_of_eq_Some_iff)
  from Cons.IH [OF this] Cons.prems(2) show ?case by simp
qed simp

lemma holds_page:
  assumes "holds W (take (sz * (page - 1)) vs) found" and "1 \<le> page" and "distinct (map le_id vs)"
  shows "holds W (take (sz * page) vs) (collect_wanted W (page_of sz vs page) found)"
proof -
  note app = pages_append [OF assms(2), of sz vs]
  have "distinct (map le_id (take (sz * (page - 1)) vs @ page_of sz vs page))"
    unfolding app using assms(3) by (simp add: distinct_take flip: take_map)
  from holds_collect [OF assms(1) this] show ?thesis unfolding app .
qed

lemma find_id:
  assumes "distinct (map le_id vs)"
  shows "List.find (\<lambda>e. le_id e = i) vs = Some e \<longleftrightarrow> e \<in> set vs \<and> le_id e = i"
  using assms by (induction vs) auto

lemma find_id_None: "List.find (\<lambda>e. le_id e = i) vs = None \<longleftrightarrow> i \<notin> le_id ` set vs"
  by (auto simp: find_None_iff)

lemma holds_full:
  assumes "holds W es found" and "finite W" and "length found = card W"
  shows "W \<subseteq> le_id ` set es"
proof -
  have "i \<in> W \<and> i \<in> le_id ` set es" if i: "i \<in> fst ` set found" for i
  proof -
    obtain e where "map_of found i = Some e" 
      using i map_of_eq_None_iff [of found i] by (cases "map_of found i") blast+
    then have "i \<in> W \<and> e \<in> set es \<and> le_id e = i" using assms(1) unfolding holds_def by blast
    then show ?thesis by auto
  qed
  then have sub: "fst ` set found \<subseteq> le_id ` set es" "fst ` set found \<subseteq> W" by blast+
  moreover have "card (fst ` set found) = card W"
    using assms by (simp add: holds_def distinct_card flip: set_map)
  ultimately have "fst ` set found = W" using card_subset_eq [OF assms(2), of "fst ` set found"] by blast
  with sub show ?thesis by blast
qed

lemma holds_find:
  assumes h: "holds W es found" and d: "distinct (map le_id vs)" and sub: "set es \<subseteq> set vs" and i: "i \<in> W"
    and all: "finite W \<and> length found = card W \<or> es = vs"
  shows "map_of found i = List.find (\<lambda>e. le_id e = i) vs"
proof (rule option.expand)
  have "i \<in> le_id ` set vs \<Longrightarrow> i \<in> le_id ` set es" using all holds_full [OF h] i by auto
  then show "(map_of found i = None) = (List.find (\<lambda>e. le_id e = i) vs = None)"
    using h i sub unfolding holds_def find_id_None by (metis (no_types, lifting) image_iff not_None_eq subsetD)
next
  assume "map_of found i \<noteq> None"
  then obtain e where e: "map_of found i = Some e" by auto
  then have "List.find (\<lambda>e. le_id e = i) vs = Some e" using h sub unfolding holds_def find_id [OF d] by blast
  with e show "the (map_of found i) = the (List.find (\<lambda>e. le_id e = i) vs)" by simp
qed

text \<open>The number of pages the loop can read, at least one.\<close>

definition pages_needed :: "nat \<Rightarrow> nat" where
  "pages_needed n = max 1 ((n + (LEDGER_PAGE_SIZE - 1)) div LEDGER_PAGE_SIZE)"

lemma load_pages_finds:
  assumes "1 \<le> page" "page \<le> pages_needed (length vs)" and "length vs < 2 ^ 64" and "distinct (map le_id vs)"
    and "finite W" and "holds W (take (LEDGER_PAGE_SIZE * (page - 1)) vs) found"
    and read: "\<forall>p \<in> {1..pages_needed (length vs)}. \<exists>q. read p
          = Inr (page_of LEDGER_PAGE_SIZE vs p, length vs, q, LEDGER_PAGE_SIZE)"
  shows "\<exists>found'. load_pages read W page found = Inr found'
    \<and> (\<forall>i \<in> W. map_of found' i = List.find (\<lambda>e. le_id e = i) vs)"
  using assms(1,2,6)
proof (induction "pages_needed (length vs) - page" arbitrary: page found)
  case zero: (0 page found)
  then have page: "page = pages_needed (length vs)" by simp
  let ?es = "take (LEDGER_PAGE_SIZE * page) vs" and ?found = "collect_wanted W (page_of LEDGER_PAGE_SIZE vs page) found"
  have len: "length vs \<le> LEDGER_PAGE_SIZE * page"
    unfolding page pages_needed_def LEDGER_PAGE_SIZE_def by simp
  have h: "holds W ?es ?found"
    by (rule holds_page [OF zero.prems(3,1) assms(4)])
  obtain q where "read page = Inr (page_of LEDGER_PAGE_SIZE vs page, length vs, q, LEDGER_PAGE_SIZE)"
    using read zero.prems(1,2) by (meson atLeastAtMost_iff)
  moreover have "length vs \<le> saturating_mul_u64 page LEDGER_PAGE_SIZE"
    using len assms(3) by (simp add: saturating_mul_u64_def mult.commute)
  ultimately have "load_pages read W page found = Inr ?found" by (subst load_pages.simps) (simp add: Let_def)
  moreover have "\<forall>i \<in> W. map_of ?found i = List.find (\<lambda>e. le_id e = i) vs"
    using holds_find [OF h assms(4) set_take_subset] len by auto
  ultimately show ?case by blast
next
  case (Suc k page found)
  let ?es = "take (LEDGER_PAGE_SIZE * page) vs" and ?found = "collect_wanted W (page_of LEDGER_PAGE_SIZE vs page) found"
  have h: "holds W ?es ?found"
    by (rule holds_page [OF Suc.prems(3,1) assms(4)])
  obtain q where r: "read page = Inr (page_of LEDGER_PAGE_SIZE vs page, length vs, q, LEDGER_PAGE_SIZE)"
    using read Suc.prems(1,2) by (meson atLeastAtMost_iff)
  have "pages_needed (length vs) < 2 ^ 64" using assms(3) by (simp add: pages_needed_def LEDGER_PAGE_SIZE_def)
  then have small: "page < 2 ^ 64 - 1" using Suc.hyps(2) by simp
  show ?case
  proof (cases "length ?found = card W \<or> length vs \<le> saturating_mul_u64 page LEDGER_PAGE_SIZE")
    case True
    then have "load_pages read W page found = Inr ?found" by (subst load_pages.simps) (auto simp: Let_def r)
    moreover have "\<forall>i \<in> W. map_of ?found i = List.find (\<lambda>e. le_id e = i) vs"
      using holds_find [OF h assms(4) set_take_subset] True assms(5)
      by (auto simp: saturating_mul_u64_def mult.commute)
    ultimately show ?thesis by blast
  next
    case False
    then have "load_pages read W page found = load_pages read W (page + 1) ?found"
      using small by (subst load_pages.simps) (auto simp: Let_def r)
    moreover have "holds W (take (LEDGER_PAGE_SIZE * (page + 1 - 1)) vs) ?found" using h by simp
    ultimately show ?thesis using Suc.hyps(1) [of "page + 1" ?found] Suc.hyps(2) Suc.prems(1,2) by simp
  qed
qed

lemma take_entries_lookup:
  "distinct ids \<Longrightarrow> (\<forall>i \<in> set ids. map_of found i = look i) \<Longrightarrow>
   take_entries prn tenant inp ids found =
     try_map (\<lambda>i. rbind (ok_or (look i) (LedgerEntryNotFound i)) (\<lambda>e.
        rbind (validate_ledger_entry prn tenant inp e) (\<lambda>_. Inr e))) ids"
proof (induction ids arbitrary: found)
  case (Cons i ids)
  have rest: "take_entries prn tenant inp ids (AList.delete i found) =
     try_map (\<lambda>i. rbind (ok_or (look i) (LedgerEntryNotFound i)) (\<lambda>e.
        rbind (validate_ledger_entry prn tenant inp e) (\<lambda>_. Inr e))) ids"
    using Cons.prems by (intro Cons.IH) (auto simp: delete_conv')
  show ?case
  proof (cases "look i")
    case (Some e)
    then show ?thesis using Cons.prems rest by (cases "validate_ledger_entry prn tenant inp e") simp_all
  qed (use Cons.prems in simp)
qed simp

subsection \<open>The pages of the ledger\<close>

text \<open>The credits and debits of a seller's payable account, the newest first.\<close>

definition payable_statement :: "led_store \<Rightarrow> uuid \<Rightarrow> uuid \<Rightarrow> string \<Rightarrow> entry_view list" where
  "payable_statement led tenant seller cur =
     map view_of (sort_key (\<lambda>e. - le_created_at e) (sort_key (\<lambda>e. - uint (le_id e))
       (payable_entries led tenant seller cur)))"

lemma payable_statement_length: "length (payable_statement led tenant seller cur) = length (payable_entries led tenant seller cur)"
  by (simp add: payable_statement_def)

lemma payable_statement_set:
  "set (payable_statement led tenant seller cur) = view_of ` set (payable_entries led tenant seller cur)"
  by (simp add: payable_statement_def)

lemma books_entry_eq:
  assumes "books_ok led" "e \<in> set (entry_rows led)" "e' \<in> set (entry_rows led)" "le_id e = le_id e'"
  shows "e = e'"
  using assms by (intro entry_table.unique_eq [of "entry_rows led"])
    (simp_all add: books_ok_def tables_ok_def entry_clash_def)

lemma view_of_fields [simp]:
  "le_id (view_of e) = le_id e" "le_amount (view_of e) = le_amount e" "le_tenant_id (view_of e) = le_tenant_id e"
  "le_seller_id (view_of e) = le_seller_id e" "le_currency_code (view_of e) = le_currency_code e"
  "le_account_code (view_of e) = the (account_code_parse (le_account_code e))"
  "le_direction (view_of e) = the (direction_parse (le_direction e))"
  by (simp_all add: view_of_def)

lemma books_distinct:
  assumes "books_ok led"
  shows "distinct (map le_id (entry_rows led))"
proof -
  have "unique_rows entry_clash (entry_rows led)" using assms by (simp add: books_ok_def tables_ok_def)
  then have "sorted_wrt (\<lambda>a b. le_id a \<noteq> le_id b) (entry_rows led)"
    unfolding unique_rows_def by (rule sorted_wrt_mono_rel [rotated]) (auto simp: entry_clash_def)
  then show ?thesis by (simp add: distinct_conv_nth sorted_wrt_iff_nth_less) (metis nat_neq_iff)
qed

lemma payable_statement_distinct:
  assumes "books_ok led"
  shows "distinct (map le_id (payable_statement led tenant seller cur))"
proof -
  have "distinct (map le_id (payable_entries led tenant seller cur))"
    using books_distinct [OF assms] by (simp add: payable_entries_def distinct_map_filter)
  then show ?thesis by (simp add: payable_statement_def distinct_map o_def)
qed

lemma ledger_page:
  assumes "books_ok led" "rows_typed led" and "require_policy ctx policy_read = Inr ()"
    and "parse_uuid (ctx_tenant_id ctx) = Some tenant" "tenant \<noteq> 0" "seller \<noteq> 0"
    and "led_normalize_currency cur = Inr cur" and "1 \<le> page"
  shows "port_list_seller_entries parse_uuid prn led ctx seller (Some cur) page LEDGER_PAGE_SIZE
    = Inr (page_of LEDGER_PAGE_SIZE (payable_statement led tenant seller cur) page,
           length (payable_statement led tenant seller cur), page, LEDGER_PAGE_SIZE)"
proof -
  let ?rows = "sort_key (\<lambda>e. - le_created_at e) (sort_key (\<lambda>e. - uint (le_id e)) (payable_entries led tenant seller cur))"
  have "set (page_of LEDGER_PAGE_SIZE ?rows page) \<subseteq> set (entry_rows led)"
    by (auto simp: page_of_def payable_entries_def dest!: in_set_takeD in_set_dropD)
  note read = try_map_typed [OF assms(1,2) this]
  have "min (max LEDGER_PAGE_SIZE 1) MAX_LEDGER_ENTRIES_PER_PAGE = LEDGER_PAGE_SIZE"
    by (simp add: LEDGER_PAGE_SIZE_def MAX_LEDGER_ENTRIES_PER_PAGE_def)
  then show ?thesis
    using assms(3-8) read
    by (simp add: port_list_seller_entries_def led_parse_tenant_id_def list_seller_entries_def Let_def
        payable_statement_def payable_entries_def page_of_def max_def take_map drop_map mult.commute)
qed

text \<open>What the selection amounts to: each identifier is looked up among the seller's entries.\<close>

definition selected_credits ::
    "(uuid \<Rightarrow> string) \<Rightarrow> uuid \<Rightarrow> schedule_input \<Rightarrow> entry_view list \<Rightarrow> pay_error + entry_view list" where
  "selected_credits prn tenant inp vs =
     try_map (\<lambda>i. rbind (ok_or (List.find (\<lambda>e. le_id e = i) vs) (LedgerEntryNotFound i)) (\<lambda>e.
        rbind (validate_ledger_entry prn tenant inp e) (\<lambda>_. Inr e))) (si_ledger_entry_ids inp)"

lemma normalize_schedule_Inr:
  assumes "normalize_schedule_input raw = Inr inp"
  shows "si_seller_id inp \<noteq> 0" "si_seller_id inp = si_seller_id raw"
    and "pay_normalize_currency (si_currency_code raw) = Inr (si_currency_code inp)"
    and "led_normalize_currency (si_currency_code inp) = Inr (si_currency_code inp)"
    and "distinct (si_ledger_entry_ids inp)" "set (si_ledger_entry_ids inp) = set (si_ledger_entry_ids raw)"
proof -
  obtain cur where inp: "si_seller_id raw \<noteq> 0" "pay_normalize_currency (si_currency_code raw) = Inr cur"
    "si_seller_id inp = si_seller_id raw" "si_currency_code inp = cur"
    "si_ledger_entry_ids inp = remdups_adj (sort (si_ledger_entry_ids raw))" "si_ledger_entry_ids raw \<noteq> []"
    using assms by (auto simp: normalize_schedule_input_def Let_def)
  have "length cur = 3" "list_all is_ascii_uppercase cur"
    using inp(2) by (auto simp: pay_normalize_currency_def Let_def split: if_splits)
  then show "led_normalize_currency (si_currency_code inp) = Inr (si_currency_code inp)"
    using inp(4) by (simp add: led_normalize_currency_def upper_text)
  show "distinct (si_ledger_entry_ids inp)" using inp(5) by (simp add: distinct_remdups_adj_sorted)
  show "si_seller_id inp \<noteq> 0" "si_seller_id inp = si_seller_id raw"
    "pay_normalize_currency (si_currency_code raw) = Inr (si_currency_code inp)"
    "set (si_ledger_entry_ids inp) = set (si_ledger_entry_ids raw)"
    using inp by simp_all
qed

lemma load_selected_lookup:
  assumes led: "books_ok led" "rows_typed led" and ctx: "require_policy ctx policy_read = Inr ()"
    and tenant: "parse_uuid (ctx_tenant_id ctx) = Some tenant" "tenant \<noteq> 0"
    and norm: "normalize_schedule_input raw = Inr inp"
    and len: "length (payable_entries led tenant (si_seller_id inp) (si_currency_code inp)) < 2 ^ 64"
    and read: "\<forall>page \<in> {1..pages_needed (length (payable_entries led tenant (si_seller_id inp) (si_currency_code inp)))}.
      ledger_reader env ctx (si_seller_id inp) (Some (si_currency_code inp)) page LEDGER_PAGE_SIZE
        = port_list_seller_entries parse_uuid prn led ctx (si_seller_id inp) (Some (si_currency_code inp)) page LEDGER_PAGE_SIZE"
  shows "load_selected_entries env ctx tenant inp = selected_credits (pay_print_uuid env) tenant inp
      (payable_statement led tenant (si_seller_id inp) (si_currency_code inp))"
proof -
  let ?vs = "payable_statement led tenant (si_seller_id inp) (si_currency_code inp)"
  note inp = normalize_schedule_Inr [OF norm]
  let ?read = "\<lambda>page. ledger_reader env ctx (si_seller_id inp) (Some (si_currency_code inp)) page LEDGER_PAGE_SIZE"
  have pages: "\<forall>p \<in> {1..pages_needed (length ?vs)}. \<exists>q. ?read p
      = Inr (page_of LEDGER_PAGE_SIZE ?vs p, length ?vs, q, LEDGER_PAGE_SIZE)"
    using read ledger_page [where parse_uuid = parse_uuid and tenant = tenant and prn = prn, OF led ctx tenant inp(1,4)]
    by (auto simp: payable_statement_length)
  have "1 \<le> pages_needed (length ?vs)" by (simp add: pages_needed_def)
  moreover have "holds (set (si_ledger_entry_ids inp)) (take (LEDGER_PAGE_SIZE * (1 - 1)) ?vs) []" by (simp add: holds_def)
  ultimately obtain found where found: "load_pages ?read (set (si_ledger_entry_ids inp)) 1 [] = Inr found"
    "\<forall>i \<in> set (si_ledger_entry_ids inp). map_of found i = List.find (\<lambda>e. le_id e = i) ?vs"
    using load_pages_finds [of 1 ?vs "set (si_ledger_entry_ids inp)" "[]" ?read] pages len payable_statement_distinct [OF led(1)]
    by (auto simp: payable_statement_length)
  show ?thesis
    using tenant(2) by (simp add: load_selected_entries_def found(1) selected_credits_def
        take_entries_lookup [OF inp(5) found(2)] del: One_nat_def)
qed

text \<open>
  C22: selecting the entries of a payout ends after as many pages as the seller's account has.
  Against a ledger that any of its commands left, with n entries on the seller's payable account,
  the loop reads no page past the first max(1, n/200 rounded up): a reader that agrees with the
  ledger on those pages, whatever it answers on others, gives the result of looking each
  identifier up in the account directly, errors included and in the order of the identifiers.
\<close>

theorem selection_reads_few_pages:
  assumes "reachable led_init led_step n led" and "require_policy ctx policy_read = Inr ()"
    and "parse_uuid (ctx_tenant_id ctx) = Some tenant" "tenant \<noteq> 0"
    and "normalize_schedule_input raw = Inr inp"
    and "length (payable_entries led tenant (si_seller_id inp) (si_currency_code inp)) < 2 ^ 64"
    and "\<forall>page \<in> {1..pages_needed (length (payable_entries led tenant (si_seller_id inp) (si_currency_code inp)))}.
      ledger_reader env ctx (si_seller_id inp) (Some (si_currency_code inp)) page LEDGER_PAGE_SIZE
        = port_list_seller_entries parse_uuid prn led ctx (si_seller_id inp) (Some (si_currency_code inp)) page LEDGER_PAGE_SIZE"
  shows "load_selected_entries env ctx tenant inp = selected_credits (pay_print_uuid env) tenant inp
      (payable_statement led tenant (si_seller_id inp) (si_currency_code inp))"
proof -
  have "books_ok led" "rows_typed led" using ledger_rows.reachable_inv [OF assms(1)] by simp_all
  then show ?thesis by (rule load_selected_lookup [where parse_uuid = parse_uuid and prn = prn]) (rule assms)+
qed

subsection \<open>What a payout pays\<close>

lemma load_selected_context:
  assumes "load_selected_entries env ctx tenant inp = Inr es" and "ledger_reader env = port_list_seller_entries parse_uuid prn led"
    and "normalize_schedule_input raw = Inr inp"
  shows "require_policy ctx policy_read = Inr ()" "\<exists>t. parse_uuid (ctx_tenant_id ctx) = Some t \<and> t \<noteq> 0"
proof -
  obtain page where "port_list_seller_entries parse_uuid prn led ctx (si_seller_id inp) (Some (si_currency_code inp)) 1 LEDGER_PAGE_SIZE = Inr page"
    using assms(1) unfolding load_selected_entries_def assms(2)
    by (subst (asm) load_pages.simps) (auto simp: rbind_eq_Inr split: sum.splits)
  then show "require_policy ctx policy_read = Inr ()" "\<exists>t. parse_uuid (ctx_tenant_id ctx) = Some t \<and> t \<noteq> 0"
    by (auto simp: port_list_seller_entries_def led_parse_tenant_id_def rbind_eq_Inr split: if_splits)
qed

lemma selected_credits_Inr:
  assumes "selected_credits prn tenant inp (payable_statement led tenant seller cur) = Inr es" and "books_ok led" "rows_typed led"
  shows "map le_id es = si_ledger_entry_ids inp"
    and "\<forall>v \<in> set es. \<exists>e \<in> set (entry_rows led). v = view_of e \<and> le_tenant_id e = tenant
      \<and> le_seller_id e = Some (si_seller_id inp) \<and> le_account_code e = account_code_as_str SellerPayable
      \<and> le_direction e = direction_as_str Credit \<and> pay_normalize_currency (le_currency_code e) = Inr (si_currency_code inp)
      \<and> 0 < le_amount e"
proof -
  have each: "list_all2 (\<lambda>i v. v \<in> set (payable_statement led tenant seller cur) \<and> le_id v = i
      \<and> validate_ledger_entry prn tenant inp v = Inr ()) (si_ledger_entry_ids inp) es"
    using assms(1) unfolding selected_credits_def try_map_Inr
    by (rule list_all2_mono) (auto simp: rbind_eq_Inr find_id [OF payable_statement_distinct [OF assms(2)]])
  then show "map le_id es = si_ledger_entry_ids inp"
    by (induction rule: list_all2_induct) simp_all
  show "\<forall>v \<in> set es. \<exists>e \<in> set (entry_rows led). v = view_of e \<and> le_tenant_id e = tenant
      \<and> le_seller_id e = Some (si_seller_id inp) \<and> le_account_code e = account_code_as_str SellerPayable
      \<and> le_direction e = direction_as_str Credit \<and> pay_normalize_currency (le_currency_code e) = Inr (si_currency_code inp)
      \<and> 0 < le_amount e"
  proof
    fix v
    assume "v \<in> set es"
    then have v: "v \<in> set (payable_statement led tenant seller cur)" "validate_ledger_entry prn tenant inp v = Inr ()"
      using list_all2_set2_ex [OF each] by blast+
    then obtain e where e: "e \<in> set (entry_rows led)" "v = view_of e" "le_account_code e = account_code_as_str SellerPayable"
      by (auto simp: payable_statement_set payable_entries_def)
    show "\<exists>e \<in> set (entry_rows led). v = view_of e \<and> le_tenant_id e = tenant
      \<and> le_seller_id e = Some (si_seller_id inp) \<and> le_account_code e = account_code_as_str SellerPayable
      \<and> le_direction e = direction_as_str Credit \<and> pay_normalize_currency (le_currency_code e) = Inr (si_currency_code inp)
      \<and> 0 < le_amount e"
      using v(2) e view_direction [OF assms(2,3) e(1), of Credit]
      by (intro bexI [of _ e]) (simp_all add: validate_ledger_entry_Inr)
  qed
qed

lemma sum_selected:
  assumes "books_ok led" and "distinct (map le_id es)" and "\<forall>v \<in> set es. \<exists>e \<in> set (entry_rows led). v = view_of e"
    and "le_id ` set es = W"
  shows "sum_list (map le_amount es) = sum_list (map le_amount (filter (\<lambda>e. le_id e \<in> W) (entry_rows led)))"
proof -
  let ?rows = "filter (\<lambda>e. le_id e \<in> W) (entry_rows led)"
  have inj: "inj_on le_id (set (entry_rows led))" and dist: "distinct ?rows"
    using books_distinct [OF assms(1)] by (auto simp: distinct_map)
  have set: "set es = view_of ` set ?rows"
  proof
    show "set es \<subseteq> view_of ` set ?rows"
    proof
      fix v
      assume "v \<in> set es"
      moreover from this obtain e where "e \<in> set (entry_rows led)" "v = view_of e" using assms(3) by blast
      moreover from calculation have "le_id e \<in> W" using assms(4) by force
      ultimately show "v \<in> view_of ` set ?rows" by simp
    qed
    show "view_of ` set ?rows \<subseteq> set es"
    proof
      fix w
      assume "w \<in> view_of ` set ?rows"
      then obtain e v where e: "e \<in> set (entry_rows led)" "w = view_of e" "v \<in> set es" "le_id v = le_id e"
        using assms(4) by auto
      moreover obtain e' where "e' \<in> set (entry_rows led)" "v = view_of e'" using assms(3) e(3) by auto
      ultimately show "w \<in> set es" using inj by (auto simp: inj_on_def)
    qed
  qed
  have "inj_on view_of (set ?rows)" using inj unfolding inj_on_def by (metis (no_types, lifting) mem_Collect_eq set_filter view_of_fields(1))
  then have "sum le_amount (set es) = sum le_amount (set ?rows)" by (simp add: set sum.reindex)
  moreover have "distinct es" using assms(2) by (simp add: distinct_map)
  ultimately show ?thesis using dist by (simp only: sum_list_distinct_conv_sum_set)
qed

text \<open>
  C20: a payout pays exactly the selected credits. When scheduling against the ledger's own read
  port commits, the requested identifiers are entries of the ledger that credit the payable
  account of the seller in the payout's currency and tenant, the items of the payout are those
  entries, and its total is the sum of their amounts in the ledger.
\<close>

theorem payout_pays_ledger_credits:
  assumes "reachable led_init led_step n led" and "length (entry_rows led) < 2 ^ 64"
    and "ledger_reader env = port_list_seller_entries parse_uuid prn led"
    and "port_schedule_payout parse_uuid env before seen s ctx inp = (s', Inr v)" and "s' \<noteq> s"
  shows "\<exists>tenant. parse_uuid (ctx_tenant_id ctx) = Some tenant
    \<and> (\<forall>i \<in> set (si_ledger_entry_ids inp). \<exists>e \<in> set (entry_rows led). le_id e = i \<and> le_tenant_id e = tenant
         \<and> le_seller_id e = Some (si_seller_id inp) \<and> le_account_code e = account_code_as_str SellerPayable
         \<and> le_direction e = direction_as_str Credit \<and> 0 < le_amount e
         \<and> pay_normalize_currency (le_currency_code e) = pay_normalize_currency (si_currency_code inp))
    \<and> pt_ledger_entry_id ` set (pa_items v) = set (si_ledger_entry_ids inp)
    \<and> pa_total_amount v = sum_list (map le_amount (filter (\<lambda>e. le_id e \<in> set (si_ledger_entry_ids inp)) (entry_rows led)))"
proof -
  have led: "books_ok led" "rows_typed led" using ledger_rows.reachable_inv [OF assms(1)] by simp_all
  obtain tenant actor key where t: "pay_parse_tenant_id parse_uuid ctx = Inr tenant"
    and run: "schedule_with_receipt env before seen s ctx tenant actor key inp = (s', Inr v)"
    using assms(4) by (auto simp: port_schedule_payout_def port_schedule_context_def rbind_eq_Inr map_prod_def
        split: sum.splits prod.splits)
  have tenant: "parse_uuid (ctx_tenant_id ctx) = Some tenant" "tenant \<noteq> 0"
    using t by (auto simp: pay_parse_tenant_id_def split: if_splits)
  obtain inp' k h es where prep: "prepare_schedule env tenant actor key inp = Inr (inp', k, h)"
    and c: "pay_commits env s ctx tenant actor k h inp' es v s'"
    using schedule_outcome [OF run] assms(5) by auto
  have norm: "normalize_schedule_input inp = Inr inp'" using prepare_schedule_Inr [OF prep] by simp
  have load: "load_selected_entries env ctx tenant inp' = Inr es"
    and ext: "payout_extends env tenant inp' es v s s'"
    using c by (simp_all add: pay_commits_def)
  let ?vs = "payable_statement led tenant (si_seller_id inp') (si_currency_code inp')"
  have len: "length (payable_entries led tenant (si_seller_id inp') (si_currency_code inp')) < 2 ^ 64"
    using assms(2) length_filter_le le_less_trans unfolding payable_entries_def by blast
  have sel: "selected_credits (pay_print_uuid env) tenant inp' ?vs = Inr es"
    using load load_selected_lookup [of led ctx parse_uuid tenant inp inp' env prn, OF led
        load_selected_context(1) [OF load assms(3) norm] tenant norm len] by (simp add: assms(3))
  note inp = normalize_schedule_Inr [OF norm] and es = selected_credits_Inr [OF sel led]
  have ids: "le_id ` set es = set (si_ledger_entry_ids inp)" using es(1) inp(6) by (metis set_map)
  have rows: "\<exists>e \<in> set (entry_rows led). le_id e = i \<and> le_tenant_id e = tenant
         \<and> le_seller_id e = Some (si_seller_id inp) \<and> le_account_code e = account_code_as_str SellerPayable
         \<and> le_direction e = direction_as_str Credit \<and> 0 < le_amount e
         \<and> pay_normalize_currency (le_currency_code e) = pay_normalize_currency (si_currency_code inp)"
    if i: "i \<in> set (si_ledger_entry_ids inp)" for i
  proof -
    obtain w where "w \<in> set es" "le_id w = i" using i ids by (metis imageE)
    then show ?thesis using es(2) inp(2,3) by fastforce
  qed
  have amounts: "sum_list (map le_amount es)
      = sum_list (map le_amount (filter (\<lambda>e. le_id e \<in> set (si_ledger_entry_ids inp)) (entry_rows led)))"
    by (rule sum_selected [OF led(1)]) (use es inp ids in auto)
  have "pt_ledger_entry_id ` set (pa_items v) = set (si_ledger_entry_ids inp)"
    "pa_total_amount v = sum_list (map le_amount es)"
    using ext ids new_items_fields(2) [of env tenant 0 es] by (auto simp: payout_extends_def simp flip: set_map)
  then show ?thesis using tenant(1) rows amounts by auto
qed

end
