(* ===== verification/Payout_Examples.thy ===== *)
theory Payout_Examples
  imports Payout_Reads Ledger_Examples
begin

text \<open>
  Payouts of the ledger of \<open>Ledger_Examples\<close>: the properties of payouts applied to a run, and a
  payout that takes more out of the ledger than the seller has.
\<close>

subsection \<open>A ledger with a release\<close>

definition released_entries :: "entry_row list" where
  "released_entries = (let ps = posted_entries (example_led_env 1000) 2 0 [example_assessment] in
     ps @ [transfer_entry_row (example_led_env 2000) 2 example_release ''EUR'' 0 (ps ! 2) PendingBucket Debit 100,
           transfer_entry_row (example_led_env 2000) 2 example_release ''EUR'' 1 (ps ! 2) AvailableBucket Credit 100])"

definition released_buckets :: "bucket_row list" where
  "released_buckets = [transfer_bucket_row (example_led_env 2000) 2 example_release 0 12 PendingBucket,
                       transfer_bucket_row (example_led_env 2000) 2 example_release 1 12 AvailableBucket]"

lemma released_balances:
  "balance_of released_buckets [] released_entries 2 12 ''EUR'' PendingBucket = 17"
  "balance_of released_buckets [] released_entries 2 12 ''EUR'' AvailableBucket = 100"
  "balance_of released_buckets [] released_entries 2 12 ''EUR'' ReservedBucket = 0"
  "balance_of released_buckets [] released_entries 2 12 ''EUR'' PaidBucket = 0"
  by code_simp+

lemma example_release_entries:
  "\<exists>tx v. post_transfer_in_transaction (example_led_env 2000) 2 example_release (example_books\<lparr>led_receipt_rows := rs\<rparr>)
        = Inr (tx, v)
     \<and> led_receipt_rows tx = rs
     \<and> entry_rows tx = released_entries \<and> bucket_rows tx = released_buckets \<and> reversal_line_rows tx = []"
  by (simp add: released_entries_def released_buckets_def post_transfer_in_transaction_def admit_transfer_def reference_context_of_def example_release_def
        payable_entries_def sorted_payable_def explicit_buckets_def reversal_buckets_def List.map_filter_simps
        transfer_total_def calculate_bucket_totals_def bucket_totals_apply_def totals_apply_def entry_bucket_def
        zero_totals_def check_reference_def insert_transfer_entry_def transfer_entry_row_def transfer_bucket_row_def
        transfer_line_row_of_def transfer_line_clash_def transfer_clash_def bucket_clash_def transfer_tx_row_def
        transfer_row_of_def sort_transfer_entries_def i64_arith insert_steps example_rows)

lemma example_post_store:
  "\<exists>v. post_order_in_transaction (example_led_env 1000) 2 9 6 example_batch (empty_ledger\<lparr>led_receipt_rows := rs\<rparr>)
     = Inr (example_books\<lparr>led_receipt_rows := rs\<rparr>, v)"
  by (simp add: post_order_in_transaction_def insert_entry_def insert_steps example_rows)

lemma example_post_books:
  assumes "example_post = (s, res)" "s \<noteq> empty_ledger"
  shows "\<exists>r. s = example_books\<lparr>led_receipt_rows := [r]\<rparr> \<and> lr_idempotency_key r = ''key'' \<and> lr_id r = 1001"
proof -
  obtain k h b v where prep: "prepare_post (example_led_env 1000) 2 3 ''key'' \<lparr>po_order_id = 9, po_posted_at = 6\<rparr> = Inr (k, h)"
    and load: "load_batch (example_led_env 1000) example_context 2 9 = Inr b"
    and c: "led_commits (example_led_env 1000) empty_ledger 2 3 k ''post_order_commissions'' h
              (post_order_in_transaction (example_led_env 1000) 2 9 6 b) v s"
    using post_outcome [OF empty_books_ok assms(1) [unfolded example_post_def]] assms(2) by auto
  have k: "k = ''key''" using prep by (simp add: prepare_post_def example_led_key example_ids example_hash post_kind)
  have b: "b = example_batch" using load by (simp add: example_led_load)
  obtain tx rs rs' where body: "post_order_in_transaction (example_led_env 1000) 2 9 6 example_batch
      (empty_ledger\<lparr>led_receipt_rows := rs\<rparr>) = Inr (tx, v)" and s: "s = tx\<lparr>led_receipt_rows := rs'\<rparr>"
    and rec: "led_receipted (example_led_env 1000) empty_ledger 2 3 k ''post_order_commissions'' h v s"
    using c unfolding led_commits_def b by blast
  have "tx = example_books\<lparr>led_receipt_rows := rs\<rparr>" using body example_post_store [of rs] by auto
  moreover have "led_receipt_rows s = [led_completed_receipt (example_led_env 1000) v
      (led_pending_receipt (example_led_env 1000) 2 3 k ''post_order_commissions'' h)]"
    using rec by (simp add: led_receipted_def empty_ledger_def)
  ultimately show ?thesis
    by (auto simp: s k led_completed_receipt_def led_pending_receipt_def example_ids)
qed

text \<open>The order is posted and a part of its proceeds is released.\<close>

lemma example_released:
  "\<exists>led. reachable led_init led_step 2 led
     \<and> sum_list (map (seller_balance led 2 12 ''EUR'') [PendingBucket, AvailableBucket, ReservedBucket, PaidBucket]) = 117
     \<and> entry_rows led = released_entries"
proof -
  obtain s v where run: "example_post = (s, Inr v)" "s \<noteq> empty_ledger" using example_post by blast
  have "reachable led_init led_step 0 empty_ledger" by (rule reachable.start) (simp add: led_init_def)
  then have reach: "reachable led_init led_step (Suc 0) s"
    by (rule reachable.next_step) (rule led_step.post [OF run(1) [unfolded example_post_def]])
  obtain r where s: "s = example_books\<lparr>led_receipt_rows := [r]\<rparr>" "lr_idempotency_key r = ''key''" "lr_id r = 1001"
    using example_post_books [OF run] by blast
  let ?env = "example_led_env 2000"
  have other: "led_normalize_idempotency_key ''other'' = Inr ''other''"
    by (simp add: led_normalize_idempotency_key_def Let_def trim_letters ascii_defs)
  have prep: "prepare_transfer ?env 2 3 ''other'' example_release = Inr (''other'', ''h'')"
    by (simp add: prepare_transfer_def other example_ids example_hash transfer_kind_text validate_transfer_input_def
        example_release_def example_currency is_object_def check_transfer_line_def MAX_LEDGER_BALANCE_TRANSFER_LINES_def)
  let ?p = "led_pending_receipt ?env 2 3 ''other'' ''post_seller_balance_transfer'' ''h''"
  obtain tx w where body: "post_transfer_in_transaction ?env 2 example_release (s\<lparr>led_receipt_rows := [r, ?p]\<rparr>) = Inr (tx, w)"
    "led_receipt_rows tx = [r, ?p]"
    using example_release_entries [of "[r, ?p]"] by (auto simp: s(1))
  have "\<exists>s'. led_with_receipt ?env s s s 2 3 ''other'' ''post_seller_balance_transfer'' ''h'' reads_transfer (Inr ())
      (\<lambda>_. post_transfer_in_transaction ?env 2 example_release) = (s', Inr w) \<and> s' \<noteq> s"
    using body s by (intro led_with_receipt_fresh transfer_kind_text refl) (auto simp: led_find_receipt_def example_ids)
  then obtain led where led: "transfer_answer ?env s s s 2 3 ''other'' example_release = (led, Inr w)" "led \<noteq> s"
    by (auto simp: transfer_answer_def prep)
  obtain k h where c: "led_commits ?env s 2 3 k ''post_seller_balance_transfer'' h (post_transfer_in_transaction ?env 2 example_release) w led"
    using transfer_outcome [OF led(1)] led(2) by auto
  then obtain tx rs rs' where t: "post_transfer_in_transaction ?env 2 example_release (s\<lparr>led_receipt_rows := rs\<rparr>) = Inr (tx, w)"
    "led = tx\<lparr>led_receipt_rows := rs'\<rparr>"
    unfolding led_commits_def by blast
  show ?thesis
    using example_release_entries [of rs] t reachable.next_step [OF reach led_step.transfer [OF led(1)]]
    by (intro exI [of _ led]) (auto simp: s(1) numeral_2_eq_2 seller_balance_def released_balances)
qed

subsection \<open>Scheduling\<close>

definition example_pay_env :: "led_store \<Rightarrow> pay_env" where
  "example_pay_env led =
     \<lparr>schedule_to_value = (\<lambda>_. Some JNull), pay_digest_of = (\<lambda>_. Some ''h''), pay_print_uuid = (\<lambda>_. ''id''),
      pay_receipt_id = 7001, payout_new_id = 7002, payout_item_id = (\<lambda>n. 7100 + of_nat n),
      pay_receipt_now = 20, pay_row_now = 20, pay_completion_now = 21,
      ledger_reader = port_list_seller_entries example_parse (\<lambda>_. ''id'') led\<rparr>"

definition example_schedule :: "uuid list \<Rightarrow> schedule_input" where
  "example_schedule ids =
     \<lparr>si_seller_id = 12, si_currency_code = ''EUR'', si_ledger_entry_ids = ids, si_scheduled_for = 30,
      si_destination_reference = None, si_metadata = JObject []\<rparr>"

lemma example_schedule_simps:
  "si_seller_id (example_schedule ids) = 12" "si_currency_code (example_schedule ids) = ''EUR''"
  "si_ledger_entry_ids (example_schedule ids) = ids"
  by (simp_all add: example_schedule_def)

lemma example_pay_env_simps:
  "schedule_to_value (example_pay_env led) i = Some JNull" "pay_digest_of (example_pay_env led) j = Some ''h''"
  "pay_print_uuid (example_pay_env led) = (\<lambda>_. ''id'')" "pay_receipt_id (example_pay_env led) = 7001"
  "payout_new_id (example_pay_env led) = 7002" "payout_item_id (example_pay_env led) n = 7100 + of_nat n"
  "pay_row_now (example_pay_env led) = 20"
  "ledger_reader (example_pay_env led) = port_list_seller_entries example_parse (\<lambda>_. ''id'') led"
  by (simp_all add: example_pay_env_def)

lemma example_pay_currency: "pay_normalize_currency ''EUR'' = Inr ''EUR''"
  by (simp add: pay_normalize_currency_def Let_def trim_letters ascii_defs to_ascii_uppercase_def ascii_upper_def)

lemma example_schedule_normal:
  "normalize_schedule_input (example_schedule [1102]) = Inr (example_schedule [1102])"
  "normalize_schedule_input (example_schedule [1102, 2101]) = Inr (example_schedule [1102, 2101])"
  by (simp_all add: normalize_schedule_input_def example_schedule_def example_pay_currency MAX_PAYOUT_ITEMS_PER_BATCH_def
      pay_normalize_optional_text_def pay_normalize_metadata_def)

lemma example_prepare:
  assumes "normalize_schedule_input inp = Inr inp"
  shows "prepare_schedule (example_pay_env led) 2 3 ''key'' inp = Inr (inp, ''key'', ''h'')"
  by (simp add: prepare_schedule_def assms pay_normalize_idempotency_key_def Let_def trim_letters ascii_defs
      schedule_request_hash_def example_pay_env_simps)

lemma schedule_fresh:
  assumes "prepare_schedule env tenant actor key inp = Inr (inp', k, h)"
    and "pay_receipt_rows s = []" and "load_selected_entries env ctx tenant inp' = Inr es"
    and "schedule_in_transaction env tenant inp' es (s\<lparr>pay_receipt_rows := [pay_pending_receipt env tenant actor k h]\<rparr>)
      = Inr (tx, v)" and "tenant \<noteq> 0" "actor \<noteq> 0"
  shows "\<exists>s'. schedule_with_receipt env s s s ctx tenant actor key inp = (s', Inr v) \<and> s' \<noteq> s"
proof -
  let ?p = "pay_pending_receipt env tenant actor k h"
  let ?nr = "\<lparr>pay_transaction = s\<lparr>pay_receipt_rows := [?p]\<rparr>, np_receipt_id = pay_receipt_id env, np_tenant_id = tenant\<rparr>"
  have adm: "pay_admit_receipt env s s tenant actor k h = Inr (PayNew ?nr)"
    by (simp add: pay_admit_receipt_def pay_find_receipt_def insert_unique_def assms(2,5,6))
  have "pay_receipt_rows tx = pay_receipt_rows (pay_transaction ?nr)" using schedule_body(1) [OF assms(4)] by simp
  from pay_complete_New [OF adm this] obtain rs
    where rs: "pay_complete_receipt env s (?nr\<lparr>pay_transaction := tx\<rparr>) v = (tx\<lparr>pay_receipt_rows := rs\<rparr>, Inr v)"
      "pay_receipted env s tenant actor k h v (tx\<lparr>pay_receipt_rows := rs\<rparr>)" by blast
  then have "pay_receipt_rows (tx\<lparr>pay_receipt_rows := rs\<rparr>) \<noteq> pay_receipt_rows s" by (simp add: pay_receipted_def)
  then have "tx\<lparr>pay_receipt_rows := rs\<rparr> \<noteq> s" by (rule contrapos_nn) (rule arg_cong)
  moreover have "schedule_with_receipt env s s s ctx tenant actor key inp = (tx\<lparr>pay_receipt_rows := rs\<rparr>, Inr v)"
    using rs(1) by (simp add: schedule_with_receipt_def assms pay_replay_existing_def pay_find_receipt_def adm)
  ultimately show ?thesis by blast
qed

text \<open>The seller's account after the posting, and after the release.\<close>

lemma example_statement:
  "entry_rows led = posted_entries (example_led_env 1000) 2 0 [example_assessment] \<Longrightarrow>
     payable_statement led 2 12 ''EUR'' = [view_of (released_entries ! 2)]"
  "entry_rows led = released_entries \<Longrightarrow>
     payable_statement led 2 12 ''EUR'' = map view_of [released_entries ! 4, released_entries ! 3, released_entries ! 2]"
  by (simp_all add: payable_statement_def payable_entries_def released_entries_def Let_def transfer_entry_row_def
      example_release_def example_rows)

lemma example_credits:
  "validate_ledger_entry prn 2 (example_schedule ids) (view_of (released_entries ! 2)) = Inr ()"
  "validate_ledger_entry prn 2 (example_schedule ids) (view_of (released_entries ! 4)) = Inr ()"
  "map (\<lambda>e. (le_id e, le_amount e)) released_entries = [(1100, 137), (1101, 20), (1102, 117), (2100, 100), (2101, 100)]"
  by (simp_all add: validate_ledger_entry_Inr released_entries_def Let_def transfer_entry_row_def example_release_def
      example_schedule_def example_pay_currency account_code_parse_def direction_parse_def example_rows)

lemma example_selected_credits:
  assumes "reachable led_init led_step n led" and "normalize_schedule_input (example_schedule ids) = Inr (example_schedule ids)"
    and "entry_rows led = released_entries \<or> entry_rows led = posted_entries (example_led_env 1000) 2 0 [example_assessment]"
  shows "load_selected_entries (example_pay_env led) example_pay_context 2 (example_schedule ids)
    = selected_credits (\<lambda>_. ''id'') 2 (example_schedule ids) (payable_statement led 2 12 ''EUR'')"
proof -
  have ok: "books_ok led" "rows_typed led" using ledger_rows.reachable_inv [OF assms(1)] by simp_all
  have "length (payable_entries led 2 12 ''EUR'') < 2 ^ 64"
    unfolding payable_statement_length [symmetric] using assms(3) by (auto simp: example_statement)
  then show ?thesis
    using load_selected_lookup [OF ok example_pay_context_simps(1), of example_parse 2 "example_schedule ids"
        "example_schedule ids" "example_pay_env led" "\<lambda>_. ''id''"] assms(2)
    by (simp add: example_schedule_simps example_pay_context_simps example_pay_env_simps)
qed

definition example_payout :: "led_store \<Rightarrow> uuid list \<Rightarrow> pay_store \<times> (port_error + payout_view)" where
  "example_payout led ids = port_schedule_payout example_parse (example_pay_env led) empty_payouts empty_payouts
     empty_payouts example_pay_context (example_schedule ids)"

lemma example_payout_runs:
  assumes "normalize_schedule_input (example_schedule ids) = Inr (example_schedule ids)"
    and "load_selected_entries (example_pay_env led) example_pay_context 2 (example_schedule ids) = Inr es"
    and "schedule_in_transaction (example_pay_env led) 2 (example_schedule ids) es (empty_payouts\<lparr>pay_receipt_rows :=
      [pay_pending_receipt (example_pay_env led) 2 3 ''key'' ''h'']\<rparr>) = Inr (tx, v)"
    and "0 \<notin> set ids"
  shows "\<exists>s. example_payout led ids = (s, Inr v) \<and> s \<noteq> empty_payouts
    \<and> schedule_with_receipt (example_pay_env led) empty_payouts empty_payouts empty_payouts example_pay_context 2 3 ''key''
        (example_schedule ids) = (s, Inr v)"
proof -
  have nil: "\<not> list_ex is_nil ids" using assms(4) by (auto simp: list_ex_iff)
  have key: "pay_parse_idempotency_key example_pay_context = Inr ''key''"
    by (simp add: pay_parse_idempotency_key_def example_pay_context_simps trim_letters ascii_defs)
  have "port_schedule_context example_parse example_pay_context (example_schedule ids) = Inr (2, 3, ''key'')"
    by (simp add: port_schedule_context_def example_pay_context_simps pay_parse_tenant_id_def pay_parse_actor_id_def key nil
        example_schedule_simps)
  then have "example_payout led ids = map_prod id (map_err (pay_map_owner_error (\<lambda>_. ''id'')))
      (schedule_with_receipt (example_pay_env led) empty_payouts empty_payouts empty_payouts example_pay_context 2 3 ''key''
        (example_schedule ids))"
    by (simp add: example_payout_def port_schedule_payout_def example_pay_env_simps)
  moreover have "pay_receipt_rows empty_payouts = []" by (simp add: empty_payouts_def)
  from schedule_fresh [OF example_prepare [OF assms(1)] this assms(2,3)] obtain s
    where "schedule_with_receipt (example_pay_env led) empty_payouts empty_payouts empty_payouts example_pay_context 2 3 ''key''
        (example_schedule ids) = (s, Inr v)" "s \<noteq> empty_payouts" by auto
  ultimately show ?thesis by auto
qed

lemma example_payout_bodies:
  "\<exists>tx v. schedule_in_transaction (example_pay_env led) 2 (example_schedule [1102]) [view_of (released_entries ! 2)]
     (empty_payouts\<lparr>pay_receipt_rows := rs\<rparr>) = Inr (tx, v) \<and> pa_total_amount v = 117"
  "\<exists>tx v. schedule_in_transaction (example_pay_env led) 2 (example_schedule [1102, 2101])
     [view_of (released_entries ! 2), view_of (released_entries ! 4)]
     (empty_payouts\<lparr>pay_receipt_rows := rs\<rparr>) = Inr (tx, v) \<and> pa_total_amount v = 217"
  by (simp_all add: schedule_in_transaction_def empty_payouts_def insert_unique_def item_row_of_def payout_row_of_def
      item_clash_def map_payout_def payout_status_parse_def example_pay_env_simps Let_def i64_arith released_entries_def
      transfer_entry_row_def example_release_def example_schedule_def example_rows)

text \<open>One payout of the posted credit.\<close>

lemma example_posted_payout:
  "\<exists>led s v. reachable led_init led_step 1 led
     \<and> entry_rows led = posted_entries (example_led_env 1000) 2 0 [example_assessment]
     \<and> example_payout led [1102] = (s, Inr v) \<and> s \<noteq> empty_payouts
     \<and> schedule_with_receipt (example_pay_env led) empty_payouts empty_payouts empty_payouts example_pay_context 2 3 ''key''
        (example_schedule [1102]) = (s, Inr v)"
proof -
  obtain led w where run: "example_post = (led, Inr w)" "led \<noteq> empty_ledger" using example_post by blast
  have "reachable led_init led_step 0 empty_ledger" by (rule reachable.start) (simp add: led_init_def)
  then have reach: "reachable led_init led_step (Suc 0) led"
    by (rule reachable.next_step) (rule led_step.post [OF run(1) [unfolded example_post_def]])
  note rows = example_post_rows(2) [OF run]
  have id: "le_id (view_of (released_entries ! 2)) = 1102"
    using arg_cong [OF example_credits(3), of "\<lambda>xs. xs ! 2"] by (simp add: released_entries_def Let_def)
  have "load_selected_entries (example_pay_env led) example_pay_context 2 (example_schedule [1102])
      = Inr [view_of (released_entries ! 2)]"
    unfolding example_selected_credits [OF reach example_schedule_normal(1) disjI2 [OF rows]] example_statement(1) [OF rows]
    using id by (simp add: selected_credits_def example_schedule_simps example_credits)
  then show ?thesis
    using example_payout_runs [OF example_schedule_normal(1)] example_payout_bodies(1) reach rows by fastforce
qed

lemma payout_pays_ledger_credits_witness:
  "\<exists>led s v. example_payout led [1102] = (s, Inr v) \<and> pa_total_amount v = 117
     \<and> pt_ledger_entry_id ` set (pa_items v) = {1102}"
proof -
  obtain led s v where led: "reachable led_init led_step 1 led"
    "entry_rows led = posted_entries (example_led_env 1000) 2 0 [example_assessment]"
    and run: "example_payout led [1102] = (s, Inr v)" "s \<noteq> empty_payouts"
    using example_posted_payout by blast
  have len: "length (entry_rows led) < 2 ^ 64" by (simp add: led(2))
  have "sum_list (map le_amount (filter (\<lambda>e. le_id e \<in> set [1102]) (entry_rows led))) = 117"
    by (simp add: led(2) example_rows)
  then show ?thesis
    using payout_pays_ledger_credits [OF led(1) len example_pay_env_simps(8) run(1) [unfolded example_payout_def] run(2)] run(1)
    by (auto simp: example_schedule_simps)
qed

lemma selection_reads_few_pages_witness:
  "\<exists>led. load_selected_entries (example_pay_env led) example_pay_context 2 (example_schedule [1102])
     = selected_credits (\<lambda>_. ''id'') 2 (example_schedule [1102]) [view_of (released_entries ! 2)]"
proof -
  obtain led where led: "reachable led_init led_step 1 led"
    "entry_rows led = posted_entries (example_led_env 1000) 2 0 [example_assessment]"
    using example_posted_payout by blast
  have "length (payable_entries led 2 12 ''EUR'') < 2 ^ 64"
    unfolding payable_statement_length [symmetric] by (simp add: example_statement(1) [OF led(2)])
  then show ?thesis
    using selection_reads_few_pages [OF led(1) example_pay_context_simps(1), of example_parse 2
        "example_schedule [1102]" "example_schedule [1102]" "example_pay_env led" "\<lambda>_. ''id''"]
    by (intro exI [of _ led])
      (simp add: example_schedule_simps example_pay_context_simps example_pay_env_simps example_schedule_normal example_statement(1) [OF led(2)])
qed

lemma payouts_stay_exclusive_witness:
  "\<exists>led s v. example_payout led [1102] = (s, Inr v) \<and> s \<noteq> empty_payouts
     \<and> (\<forall>i \<in> set (item_rows s). \<forall>j \<in> set (item_rows s). pt_tenant_id i = pt_tenant_id j
          \<and> pt_ledger_entry_id i = pt_ledger_entry_id j \<longrightarrow> i = j)"
proof -
  obtain led s v where run: "example_payout led [1102] = (s, Inr v)" "s \<noteq> empty_payouts"
    "schedule_with_receipt (example_pay_env led) empty_payouts empty_payouts empty_payouts example_pay_context 2 3 ''key''
        (example_schedule [1102]) = (s, Inr v)"
    using example_posted_payout by blast
  have "reachable (\<lambda>s. s = empty_payouts) pay_step 0 empty_payouts" by (rule reachable.start) simp
  then have "reachable (\<lambda>s. s = empty_payouts) pay_step (Suc 0) s"
    by (rule reachable.next_step) (rule pay_step.intros [OF run(3)])
  from payouts_stay_exclusive [OF this, of "\<lambda>_. ''id''"] show ?thesis using run(1,2) by blast
qed

lemma payout_replayed_witness:
  "\<exists>led s v s'. run_pay empty_payouts (SchedulePayout (example_pay_env led) example_pay_context 2 3 ''key'' (example_schedule [1102]))
       = (s, Inr v)
     \<and> s' = fst (run_pay s (SchedulePayout (example_pay_env led) example_pay_context 2 3 ''other'' (example_schedule [1102])))
     \<and> run_pay s' (SchedulePayout (example_pay_env led) example_pay_context 2 3 ''key'' (example_schedule [1102])) = (s', Inr v)"
proof -
  obtain led s v where run: "schedule_with_receipt (example_pay_env led) empty_payouts empty_payouts empty_payouts
      example_pay_context 2 3 ''key'' (example_schedule [1102]) = (s, Inr v)"
    using example_posted_payout by blast
  let ?c = "SchedulePayout (example_pay_env led) example_pay_context 2 3 ''key'' (example_schedule [1102])"
  let ?d = "SchedulePayout (example_pay_env led) example_pay_context 2 3 ''other'' (example_schedule [1102])"
  have c: "run_pay empty_payouts ?c = (s, Inr v)" using run by simp
  have "fst (run_pay s ?d) = foldl (\<lambda>s d. fst (run_pay s d)) s [?d]" by simp
  from payout_replayed [OF empty_payouts_ok c refl this] show ?thesis using c by blast
qed

text \<open>
  C23: a payout can exceed what the seller has. Releasing 100 of the 117 pending proceeds books a debit
  and a credit, and the credit of the posting stays: selecting both credits schedules 217, while
  the balances of the seller add up to 117.
\<close>

theorem payout_exceeds_balance:
  "\<exists>led s v. reachable led_init led_step 2 led \<and> example_payout led [1102, 2101] = (s, Inr v)
     \<and> pa_total_amount v = 217
     \<and> sum_list (map (seller_balance led 2 12 ''EUR'') [PendingBucket, AvailableBucket, ReservedBucket, PaidBucket]) = 117"
proof -
  obtain led where led: "reachable led_init led_step 2 led" "entry_rows led = released_entries"
    "sum_list (map (seller_balance led 2 12 ''EUR'') [PendingBucket, AvailableBucket, ReservedBucket, PaidBucket]) = 117"
    using example_released by blast
  have id: "le_id (released_entries ! 2) = 1102" "le_id (released_entries ! 3) = 2100" "le_id (released_entries ! 4) = 2101"
    using example_credits(3) by (simp_all add: released_entries_def Let_def)
  have "load_selected_entries (example_pay_env led) example_pay_context 2 (example_schedule [1102, 2101])
      = Inr [view_of (released_entries ! 2), view_of (released_entries ! 4)]"
    unfolding example_selected_credits [OF led(1) example_schedule_normal(2) disjI1 [OF led(2)]] example_statement(2) [OF led(2)]
    by (simp add: selected_credits_def example_schedule_simps id example_credits)
  then show ?thesis
    using example_payout_runs [OF example_schedule_normal(2)] example_payout_bodies(2) led(1,3) by fastforce
qed

end
