(* ===== verification/Inventory.thy ===== *)
theory Inventory
  imports Idempotency
begin

text \<open>
  Stock of the inventory module (\<open>crates/modules/rustok-inventory/src\<close>, with the entities of
  \<open>rustok-commerce-foundation\<close>): the tables, what its services share (default location, item and
  level of a variant, availability, the policy of a variant) and the facts it puts into the outbox.
  The database is PostgreSQL at READ COMMITTED. Every writer locks the row of the inventory item
  first, so that a command is a function of the store as it stands once it holds that lock; it works
  on a copy that replaces the store at commit. Serialisation of identifiers, SHA-256, clock and
  generated identifiers are parameters, in the record \<open>inv_env\<close>.
\<close>

subsection \<open>Data\<close>

datatype core_error = CoreDatabase string | CoreOther string

text \<open>The errors of \<open>CommerceError\<close> that this module raises. Database errors carry their text.\<close>

datatype commerce_error =
    CommerceDatabase string
  | VariantNotFound uuid
  | InsufficientInventory int int
  | CommerceValidation string
  | CommerceCore core_error

text \<open>The columns of products and variants that the module reads.\<close>

record product_row =
  pd_id :: uuid
  pd_tenant_id :: uuid

record variant_row =
  vr_id :: uuid
  vr_product_id :: uuid
  vr_tenant_id :: uuid
  vr_sku :: "string option"
  vr_inventory_policy :: string
  vr_inventory_quantity :: int

record stock_item =
  ii_id :: uuid
  ii_variant_id :: uuid
  ii_sku :: "string option"
  ii_requires_shipping :: bool
  ii_metadata :: json
  ii_created_at :: int
  ii_updated_at :: int

record stock_level =
  il_id :: uuid
  il_inventory_item_id :: uuid
  il_location_id :: uuid
  il_stocked_quantity :: int
  il_reserved_quantity :: int
  il_incoming_quantity :: int
  il_low_stock_threshold :: "int option"
  il_updated_at :: int

record reservation =
  rsv_id :: uuid
  rsv_inventory_item_id :: uuid
  rsv_location_id :: uuid
  rsv_quantity :: int
  rsv_line_item_id :: "uuid option"
  rsv_description :: "string option"
  rsv_external_id :: "string option"
  rsv_metadata :: json
  rsv_created_at :: int
  rsv_updated_at :: int
  rsv_deleted_at :: "int option"

record stock_location =
  sl_id :: uuid
  sl_tenant_id :: uuid
  sl_code :: "string option"
  sl_address_line1 :: "string option"
  sl_address_line2 :: "string option"
  sl_city :: "string option"
  sl_province :: "string option"
  sl_postal_code :: "string option"
  sl_country_code :: "string option"
  sl_phone :: "string option"
  sl_metadata :: json
  sl_created_at :: int
  sl_updated_at :: int
  sl_deleted_at :: "int option"

record location_name =
  stn_id :: uuid
  stn_stock_location_id :: uuid
  stn_locale :: string
  stn_name :: string

datatype location_lifecycle = LocationActive | LocationDeleted

record location_change =
  slc_operation_id :: uuid
  slc_tenant_id :: uuid
  slc_stock_location_id :: uuid
  slc_resource_revision :: string
  slc_lifecycle :: location_lifecycle

text \<open>The tables of the source journal.\<close>

record source_baseline =
  bl_tenant_id :: uuid
  bl_baseline_id :: uuid
  bl_actor_id :: uuid
  bl_active :: bool
  bl_last_variant_id :: "uuid option"
  bl_record_count :: int
  bl_last_page_id :: "uuid option"
  bl_last_page_after :: "uuid option"
  bl_last_page_limit :: "int option"

record source_page =
  pg_tenant_id :: uuid
  pg_page_id :: uuid
  pg_baseline_id :: uuid
  pg_after_variant_id :: "uuid option"
  pg_page_limit :: int
  pg_next_after :: "uuid option"
  pg_active :: bool
  pg_record_count :: int

record source_record =
  sr_tenant_id :: uuid
  sr_variant_id :: uuid
  sr_baseline_id :: uuid
  sr_inventory_item_id :: uuid
  sr_product_id :: uuid
  sr_source_version :: int
  sr_deleted :: bool
  sr_stocked :: int
  sr_reserved :: int
  sr_incoming :: int
  sr_binding_digest :: string
  sr_last_change_id :: uuid
  sr_updated_at :: int

record source_change =
  sch_change_id :: uuid
  sch_tenant_id :: uuid
  sch_variant_id :: uuid
  sch_baseline_id :: uuid
  sch_source_version :: int
  sch_kind :: string
  sch_created_at :: int

text \<open>The facts published through the outbox, inside the transaction of their writer.\<close>

datatype inv_fact =
    InventoryUpdated uuid uuid uuid int int
  | InventoryLow uuid uuid int int
  | ReservationChanged uuid uuid
  | SourceChanged uuid uuid nat
  | SourceActivated uuid

record outbox_fact =
  of_envelope_id :: "uuid option"
  of_tenant_id :: uuid
  of_actor_id :: "uuid option"
  of_fact :: inv_fact

text \<open>
  Of the ledger of restocked returns only the items it names are read here, of the proofs of shipments
  the pairs of variant and item.
\<close>

record inv_store =
  inv_products :: "product_row list"
  inv_variants :: "variant_row list"
  inv_items :: "stock_item list"
  inv_levels :: "stock_level list"
  inv_reservations :: "reservation list"
  inv_locations :: "stock_location list"
  inv_location_names :: "location_name list"
  inv_location_changes :: "location_change list"
  src_baselines :: "source_baseline list"
  src_pages :: "source_page list"
  src_records :: "source_record list"
  src_changes :: "source_change list"
  inv_outbox :: "outbox_fact list"
  restock_items :: "uuid list"
  proof_refs :: "(uuid \<times> uuid) list"

record inv_env =
  inv_parse_uuid :: "string \<Rightarrow> uuid option"
  inv_print_uuid :: "uuid \<Rightarrow> string"
  sha256_hex :: "string \<Rightarrow> string"
  transaction_isolation :: "string option"
  gate_admitted :: bool
  inv_item_id :: uuid
  inv_level_id :: uuid
  inv_location_id :: uuid
  inv_location_name_id :: uuid
  inv_operation_id :: uuid
  inv_reservation_id :: uuid
  src_change_id :: uuid
  inv_now :: int
  low_stock_threshold :: int

subsection \<open>Tables\<close>

definition stock_item_clash :: "stock_item \<Rightarrow> stock_item \<Rightarrow> bool" where
  "stock_item_clash a b \<longleftrightarrow> ii_id a = ii_id b \<or> ii_variant_id a = ii_variant_id b"

definition stock_level_clash :: "stock_level \<Rightarrow> stock_level \<Rightarrow> bool" where
  "stock_level_clash a b \<longleftrightarrow> il_id a = il_id b
     \<or> il_inventory_item_id a = il_inventory_item_id b \<and> il_location_id a = il_location_id b"

definition reservation_clash :: "reservation \<Rightarrow> reservation \<Rightarrow> bool" where
  "reservation_clash a b \<longleftrightarrow> rsv_id a = rsv_id b"

definition location_clash :: "stock_location \<Rightarrow> stock_location \<Rightarrow> bool" where
  "location_clash a b \<longleftrightarrow> sl_id a = sl_id b"

definition location_name_clash :: "location_name \<Rightarrow> location_name \<Rightarrow> bool" where
  "location_name_clash a b \<longleftrightarrow> stn_id a = stn_id b
     \<or> stn_stock_location_id a = stn_stock_location_id b \<and> stn_locale a = stn_locale b"

definition location_change_clash :: "location_change \<Rightarrow> location_change \<Rightarrow> bool" where
  "location_change_clash a b \<longleftrightarrow>
     slc_operation_id a = slc_operation_id b \<and> slc_stock_location_id a = slc_stock_location_id b"

interpretation stock_item_table: unique_table stock_item_clash
  by unfold_locales (auto simp: stock_item_clash_def)

interpretation stock_level_table: unique_table stock_level_clash
  by unfold_locales (auto simp: stock_level_clash_def)

interpretation reservation_table: unique_table reservation_clash
  by unfold_locales (auto simp: reservation_clash_def)

interpretation location_table: unique_table location_clash
  by unfold_locales (auto simp: location_clash_def)

interpretation location_name_table: unique_table location_name_clash
  by unfold_locales (auto simp: location_name_clash_def)

interpretation location_change_table: unique_table location_change_clash
  by unfold_locales (auto simp: location_change_clash_def)

text \<open>An \<open>UPDATE\<close> that must hit exactly one row.\<close>

definition update_one :: "('a \<Rightarrow> bool) \<Rightarrow> ('a \<Rightarrow> 'a) \<Rightarrow> 'a list \<Rightarrow> 'a list option" where
  "update_one P f rows =
     (if length (filter P rows) = 1 then Some (map (\<lambda>r. if P r then f r else r) rows) else None)"

text \<open>A loop of such updates, each with the row as it was read and its change.\<close>

fun update_each ::
    "('a \<Rightarrow> 'a \<Rightarrow> bool) \<Rightarrow> ('c \<Rightarrow> 'a \<Rightarrow> 'a) \<Rightarrow> 'e \<Rightarrow> ('a \<times> 'c) list \<Rightarrow> 'a list \<Rightarrow> 'e + 'a list" where
  "update_each hits put e [] rows = Inr rows"
| "update_each hits put e ((x, c) # cs) rows =
     rbind (ok_or (update_one (hits x) (put c) rows) e) (update_each hits put e cs)"

locale keyed_rows =
  fixes key :: "'a \<Rightarrow> 'k" and hits :: "'a \<Rightarrow> 'a \<Rightarrow> bool" and put :: "'c \<Rightarrow> 'a \<Rightarrow> 'a"
  assumes hits_key: "hits x y \<Longrightarrow> key y = key x"
    and key_put: "key (put c y) = key y"
begin

lemma update_one_keyed:
  assumes "distinct (map key rows)" and "update_one (hits x) (put c) rows = Some rows'"
  shows "rows' = map (\<lambda>y. if key y = key x then put c y else y) rows \<and> (\<exists>y \<in> set rows. hits x y)"
proof -
  have one: "length (filter (hits x) rows) = 1" and
    rows': "rows' = map (\<lambda>y. if hits x y then put c y else y) rows"
    using assms(2) by (auto simp: update_one_def split: if_splits)
  from one obtain y where "filter (hits x) rows = [y]" by (auto simp: length_Suc_conv)
  then have y: "y \<in> set rows" "hits x y" by (auto simp: filter_eq_Cons_iff)
  have "hits x z \<longleftrightarrow> key z = key x" if "z \<in> set rows" for z
    using assms(1) that y hits_key by (auto simp: distinct_map inj_on_def)
  then show ?thesis using y rows' by auto
qed

lemma update_each_keyed:
  assumes "distinct (map key rows)" and "distinct (map (key \<circ> fst) cs)"
    and "update_each hits put e cs rows = Inr rows'"
  shows "rows' = map (\<lambda>y. case map_of (map (\<lambda>(x, c). (key x, c)) cs) (key y) of None \<Rightarrow> y | Some c \<Rightarrow> put c y) rows
    \<and> (\<forall>(x, c) \<in> set cs. \<exists>y \<in> set rows. key y = key x)"
  using assms
proof (induction cs arbitrary: rows)
  case (Cons xc cs)
  obtain x c where xc: "xc = (x, c)" by force
  obtain mid where mid: "update_one (hits x) (put c) rows = Some mid" "update_each hits put e cs mid = Inr rows'"
    using Cons.prems(3) by (auto simp: xc)
  note one = update_one_keyed [OF Cons.prems(1) mid(1)]
  have keys: "map key mid = map key rows" using one by (auto simp: key_put)
  have "rows' = map (\<lambda>y. case map_of (map (\<lambda>(x, c). (key x, c)) cs) (key y) of None \<Rightarrow> y | Some c \<Rightarrow> put c y) mid
    \<and> (\<forall>(x, c) \<in> set cs. \<exists>y \<in> set mid. key y = key x)"
    using Cons.IH [OF _ _ mid(2)] Cons.prems(1,2) keys by (simp add: xc)
  moreover have "map_of (map (\<lambda>(x, c). (key x, c)) cs) (key x) = None"
    using Cons.prems(2) by (force simp: xc map_of_eq_None_iff)
  moreover have "key ` set mid = key ` set rows" using keys by (metis set_map)
  ultimately show ?case using one by (fastforce simp: xc key_put hits_key image_iff)
qed simp

end

text \<open>\<open>DELETE\<close>s that must each hit exactly one row.\<close>

definition delete_one :: "('a \<Rightarrow> bool) \<Rightarrow> 'a list \<Rightarrow> 'a list option" where
  "delete_one P rows = (if length (filter P rows) = 1 then Some (filter (\<lambda>r. \<not> P r) rows) else None)"

fun delete_each :: "('b \<Rightarrow> 'a \<Rightarrow> bool) \<Rightarrow> 'e \<Rightarrow> 'b list \<Rightarrow> 'a list \<Rightarrow> 'e + 'a list" where
  "delete_each hits e [] rows = Inr rows"
| "delete_each hits e (x # xs) rows =
     rbind (ok_or (delete_one (hits x) rows) e) (delete_each hits e xs)"

lemma delete_each_rows:
  assumes "delete_each hits e xs rows = Inr rows'"
  shows "rows' = filter (\<lambda>r. \<not> list_ex (\<lambda>x. hits x r) xs) rows"
  using assms
proof (induction xs arbitrary: rows)
  case (Cons x xs)
  then obtain mid where "delete_one (hits x) rows = Some mid" "delete_each hits e xs mid = Inr rows'" by auto
  then show ?case using Cons.IH [of mid] by (auto simp: delete_one_def conj_commute split: if_splits intro: filter_cong)
qed simp

definition find_variant :: "inv_store \<Rightarrow> uuid \<Rightarrow> uuid \<Rightarrow> variant_row option" where
  "find_variant s tenant variant =
     List.find (\<lambda>v. vr_id v = variant \<and> vr_tenant_id v = tenant) (inv_variants s)"

definition find_item :: "inv_store \<Rightarrow> uuid \<Rightarrow> stock_item option" where
  "find_item s variant = List.find (\<lambda>i. ii_variant_id i = variant) (inv_items s)"

text \<open>
  The triggers on levels and reservations: a level belongs to a variant and an active location of the
  same tenant, its counters are not negative; a reservation is live with a positive quantity or
  deleted with none, has no blank external identity, and its location has a level of its item.
\<close>

definition level_admissible :: "inv_store \<Rightarrow> stock_level \<Rightarrow> bool" where
  "level_admissible s l \<longleftrightarrow> 0 \<le> il_reserved_quantity l \<and> 0 \<le> il_incoming_quantity l
     \<and> (\<exists>i \<in> set (inv_items s). \<exists>v \<in> set (inv_variants s). \<exists>w \<in> set (inv_locations s).
          ii_id i = il_inventory_item_id l \<and> vr_id v = ii_variant_id i \<and> sl_id w = il_location_id l
          \<and> sl_deleted_at w = None \<and> vr_tenant_id v = sl_tenant_id w)"

definition reservation_admissible :: "inv_store \<Rightarrow> reservation \<Rightarrow> bool" where
  "reservation_admissible s r \<longleftrightarrow>
     (rsv_deleted_at r = None \<and> 0 < rsv_quantity r \<or> rsv_deleted_at r \<noteq> None \<and> rsv_quantity r = 0)
     \<and> (case rsv_external_id r of None \<Rightarrow> True | Some e \<Rightarrow> trim e \<noteq> [])
     \<and> (\<exists>l \<in> set (inv_levels s). il_inventory_item_id l = rsv_inventory_item_id r
          \<and> il_location_id l = rsv_location_id r)"

subsection \<open>The policy of a variant\<close>

definition inventory_policy_allows_backorder :: "string \<Rightarrow> bool" where
  "inventory_policy_allows_backorder policy = eq_ignore_ascii_case (trim policy) ''continue''"

definition in_stock_of :: "int \<Rightarrow> string \<Rightarrow> bool" where
  "in_stock_of quantity policy \<longleftrightarrow> 0 < quantity \<or> inventory_policy_allows_backorder policy"

subsection \<open>The default location\<close>

definition find_default_location :: "inv_store \<Rightarrow> uuid \<Rightarrow> stock_location option" where
  "find_default_location s tenant =
     (let first = (\<lambda>ls. case sort_key sl_created_at (sort_key sl_id ls) of [] \<Rightarrow> None | l # _ \<Rightarrow> Some l);
          active = filter (\<lambda>l. sl_tenant_id l = tenant \<and> sl_deleted_at l = None) (inv_locations s) in
      case first (filter (\<lambda>l. sl_code l = Some ''default'') active) of
        Some l \<Rightarrow> Some l
      | None \<Rightarrow> first active)"

definition byte_at :: "'a::len word \<Rightarrow> nat \<Rightarrow> char" where
  "byte_at w k = char_of (unat (take_bit 8 (drop_bit (8 * k) w)))"

text \<open>\<open>to_be_bytes\<close> of a 64-bit length, and \<open>as_bytes\<close> of an identifier.\<close>

definition u64_be_bytes :: "nat \<Rightarrow> string" where
  "u64_be_bytes n = map (\<lambda>k. byte_at (of_nat n :: 64 word) (7 - k)) [0..<8]"

definition uuid_bytes :: "uuid \<Rightarrow> string" where
  "uuid_bytes i = map (\<lambda>k. byte_at i (15 - k)) [0..<16]"

definition append_text :: "string \<Rightarrow> string \<Rightarrow> string" where
  "append_text payload v = payload @ u64_be_bytes (length v) @ v"

definition append_translation :: "inv_env \<Rightarrow> string \<Rightarrow> location_name \<Rightarrow> string" where
  "append_translation env payload n =
     append_text (append_text (append_text payload (inv_print_uuid env (stn_stock_location_id n))) (stn_locale n))
       (stn_name n)"

definition location_revision :: "inv_env \<Rightarrow> stock_location \<Rightarrow> location_name list \<Rightarrow> string" where
  "location_revision env l names =
     (let payload = append_text [] ''rustok-inventory/stock-location-translation-resource/v1'';
          payload = append_text payload (inv_print_uuid env (sl_id l));
          payload = append_text payload (inv_print_uuid env (sl_tenant_id l)) in
      ''sha256:'' @ sha256_hex env (foldl (append_translation env) payload names))"

definition record_location_change ::
    "inv_env \<Rightarrow> inv_store \<Rightarrow> uuid \<Rightarrow> uuid \<Rightarrow> uuid \<Rightarrow> string \<Rightarrow> location_lifecycle \<Rightarrow> string + inv_store" where
  "record_location_change env s tenant loc op_id revision lifecycle =
     rbind (ensure (\<not> (is_nil tenant \<or> is_nil loc \<or> is_nil op_id)) ''Inventory translation change identity must not be nil'') (\<lambda>_.
     rbind (ensure (trim revision \<noteq> []) ''Inventory translation change revision must not be blank'') (\<lambda>_.
     let previous = filter (\<lambda>c. slc_tenant_id c = tenant \<and> slc_stock_location_id c = loc) (inv_location_changes s) in
     if previous \<noteq> [] \<and> slc_resource_revision (last previous) = revision \<and> slc_lifecycle (last previous) = lifecycle
     then Inr s
     else rbind (ok_or (insert_unique location_change_clash
              \<lparr>slc_operation_id = op_id, slc_tenant_id = tenant, slc_stock_location_id = loc,
               slc_resource_revision = revision, slc_lifecycle = lifecycle\<rparr> (inv_location_changes s)) ''unique constraint'')
            (\<lambda>cs. Inr (s\<lparr>inv_location_changes := cs\<rparr>))))"

definition default_location_row :: "inv_env \<Rightarrow> uuid \<Rightarrow> stock_location" where
  "default_location_row env tenant =
     \<lparr>sl_id = inv_location_id env, sl_tenant_id = tenant, sl_code = Some ''default'', sl_address_line1 = None,
      sl_address_line2 = None, sl_city = None, sl_province = None, sl_postal_code = None,
      sl_country_code = None, sl_phone = None,
      sl_metadata = JObject [(''source'', JString ''inventory_bootstrap'')], sl_created_at = inv_now env,
      sl_updated_at = inv_now env, sl_deleted_at = None\<rparr>"

definition default_location_name :: "inv_env \<Rightarrow> location_name" where
  "default_location_name env =
     \<lparr>stn_id = inv_location_name_id env, stn_stock_location_id = inv_location_id env, stn_locale = ''en'',
      stn_name = ''Default''\<rparr>"

definition ensure_default_location :: "inv_env \<Rightarrow> inv_store \<Rightarrow> uuid \<Rightarrow> string + inv_store \<times> stock_location" where
  "ensure_default_location env s tenant =
     rbind (ensure (\<not> is_nil tenant) ''tenant_id cannot be nil'') (\<lambda>_.
     case find_default_location s tenant of
       Some l \<Rightarrow> Inr (s, l)
     | None \<Rightarrow>
         (let l = default_location_row env tenant; n = default_location_name env in
          rbind (ok_or (insert_unique location_clash l (inv_locations s)) ''unique constraint'') (\<lambda>ls.
          rbind (ok_or (insert_unique location_name_clash n (inv_location_names s)) ''unique constraint'') (\<lambda>ns.
          rbind (record_location_change env (s\<lparr>inv_locations := ls, inv_location_names := ns\<rparr>) tenant (sl_id l)
              (inv_operation_id env) (location_revision env l [n]) LocationActive) (\<lambda>s.
          Inr (s, l))))))"

subsection \<open>Items and levels\<close>

definition new_item_row :: "inv_env \<Rightarrow> variant_row \<Rightarrow> stock_item" where
  "new_item_row env v =
     \<lparr>ii_id = inv_item_id env, ii_variant_id = vr_id v, ii_sku = vr_sku v, ii_requires_shipping = True,
      ii_metadata = JObject [(''source'', JString ''legacy_inventory_service'')], ii_created_at = inv_now env,
      ii_updated_at = inv_now env\<rparr>"

definition ensure_inventory_item :: "inv_env \<Rightarrow> inv_store \<Rightarrow> variant_row \<Rightarrow> string + inv_store \<times> stock_item" where
  "ensure_inventory_item env s v =
     (case find_item s (vr_id v) of
        Some i \<Rightarrow> Inr (s, i)
      | None \<Rightarrow>
          rbind (ok_or (insert_unique stock_item_clash (new_item_row env v) (inv_items s)) ''unique constraint'') (\<lambda>items.
          Inr (s\<lparr>inv_items := items\<rparr>, new_item_row env v)))"

definition new_level_row :: "inv_env \<Rightarrow> stock_item \<Rightarrow> stock_location \<Rightarrow> int \<Rightarrow> stock_level" where
  "new_level_row env i l quantity =
     \<lparr>il_id = inv_level_id env, il_inventory_item_id = ii_id i, il_location_id = sl_id l,
      il_stocked_quantity = quantity, il_reserved_quantity = 0, il_incoming_quantity = 0,
      il_low_stock_threshold = Some (low_stock_threshold env), il_updated_at = inv_now env\<rparr>"

definition ensure_inventory_level ::
    "inv_env \<Rightarrow> inv_store \<Rightarrow> stock_item \<Rightarrow> stock_location \<Rightarrow> int \<Rightarrow> string + inv_store \<times> stock_level" where
  "ensure_inventory_level env s i w quantity =
     (case List.find (\<lambda>l. il_inventory_item_id l = ii_id i \<and> il_location_id l = sl_id w) (inv_levels s) of
        Some l \<Rightarrow> Inr (s, l)
      | None \<Rightarrow>
          (let l = new_level_row env i w quantity in
           rbind (ensure (level_admissible s l) ''level constraint'') (\<lambda>_.
           rbind (ok_or (insert_unique stock_level_clash l (inv_levels s)) ''unique constraint'') (\<lambda>levels.
           Inr (s\<lparr>inv_levels := levels\<rparr>, l)))))"

definition STOCK_LEVEL_READ_LIMIT :: nat where "STOCK_LEVEL_READ_LIMIT = 4096"

fun sum_available :: "stock_level list \<Rightarrow> int \<Rightarrow> commerce_error + int" where
  "sum_available [] t = Inr t"
| "sum_available (l # ls) t =
     rbind (ensure (\<not> il_reserved_quantity l < 0)
       (CommerceValidation ''Inventory has a negative reserved counter; reconcile saved state'')) (\<lambda>_.
     rbind (ok_or (checked_i64 (t + (il_stocked_quantity l - il_reserved_quantity l)))
       (CommerceValidation ''Inventory availability exceeds the supported range'')) (\<lambda>t.
     sum_available ls t))"

definition checked_available_quantity :: "stock_level list \<Rightarrow> commerce_error + int" where
  "checked_available_quantity levels =
     rbind (ensure (\<not> STOCK_LEVEL_READ_LIMIT < length levels)
       (CommerceValidation (''Inventory availability exceeds the '' @ show_nat STOCK_LEVEL_READ_LIMIT @ '' level read bound''))) (\<lambda>_.
     rbind (sum_available levels 0) (\<lambda>t.
     ok_or (checked_i32 t)
       (CommerceValidation ''Inventory availability exceeds the signed i32 response range'')))"

definition available_quantity :: "inv_store \<Rightarrow> uuid \<Rightarrow> commerce_error + int" where
  "available_quantity s item =
     checked_available_quantity (take (STOCK_LEVEL_READ_LIMIT + 1)
       (sort_key il_id (filter (\<lambda>l. il_inventory_item_id l = item) (inv_levels s))))"

definition load_variant :: "inv_store \<Rightarrow> uuid \<Rightarrow> uuid \<Rightarrow> commerce_error + variant_row" where
  "load_variant s tenant variant = ok_or (find_variant s tenant variant) (VariantNotFound variant)"

definition validate_non_nil_uuid :: "uuid \<Rightarrow> string \<Rightarrow> commerce_error + unit" where
  "validate_non_nil_uuid i field = ensure (\<not> is_nil i) (CommerceValidation (field @ '' cannot be nil''))"

definition check_availability :: "inv_store \<Rightarrow> uuid \<Rightarrow> uuid \<Rightarrow> int \<Rightarrow> commerce_error + bool" where
  "check_availability s tenant variant requested =
     rbind (validate_non_nil_uuid tenant ''tenant_id'') (\<lambda>_.
     rbind (validate_non_nil_uuid variant ''variant_id'') (\<lambda>_.
     rbind (ensure (\<not> requested < 0) (CommerceValidation ''Availability check quantity must be non-negative'')) (\<lambda>_.
     rbind (load_variant s tenant variant) (\<lambda>v.
     if inventory_policy_allows_backorder (vr_inventory_policy v) then Inr True
     else rbind (case find_item s variant of Some i \<Rightarrow> available_quantity s (ii_id i) | None \<Rightarrow> Inr 0) (\<lambda>available.
          Inr (requested \<le> available))))))"

end
