(* ===== verification/Inventory_Source.thy ===== *)
theory Inventory_Source
  imports Inventory
begin

text \<open>
  The source journal of the inventory (\<open>rustok-inventory/src/source_history\<close>): once a tenant has an
  active baseline, every change of the counters of a variant updates the variant's record, appends
  a numbered change and publishes it, all in the transaction of the counter change. This theory has
  the writers.
\<close>

datatype source_error =
    SrcInvalidRequest
  | SrcForbidden
  | SrcLimitExceeded
  | SrcBaselineUnavailable
  | SrcStateUnverified
  | SrcConflict
  | SrcUnsupported
  | SrcDeadlineExceeded
  | SrcPublicationUnavailable
  | SrcDatabase string

text \<open>For its callers every failure of the journal is a failure of the database.\<close>

definition source_into_db_error :: "source_error \<Rightarrow> string" where
  "source_into_db_error e =
     (case e of SrcDatabase m \<Rightarrow> m
      | _ \<Rightarrow> ''Inventory source provenance is unverified; recover the original owner operation'')"

definition source_port_error :: "source_error \<Rightarrow> port_error" where
  "source_port_error e =
     (case e of
        SrcPublicationUnavailable \<Rightarrow> err_unavailable ''inventory.source_publication_unavailable''
          ''Recover the original Inventory operation; canonical source publication is unavailable''
      | SrcDeadlineExceeded \<Rightarrow> err_timeout ''inventory.source_timeout''
          ''Recover the original Inventory baseline and page outcome; timeout is not proof of no effect''
      | SrcInvalidRequest \<Rightarrow> err_validation ''inventory.source_invalid'' ''Inventory source request is invalid''
      | SrcForbidden \<Rightarrow> err_forbidden ''inventory.source_forbidden'' ''Inventory source permission is required''
      | SrcLimitExceeded \<Rightarrow> err_validation ''inventory.source_limit''
          ''Use a smaller complete Inventory source page without truncating state''
      | SrcConflict \<Rightarrow> err_conflict ''inventory.source_conflict''
          ''Recover the original baseline and page identity; do not reset history''
      | SrcDatabase _ \<Rightarrow> err_unavailable ''inventory.source_storage_unavailable''
          ''Inventory source storage is unavailable; recover the original operation''
      | SrcBaselineUnavailable \<Rightarrow> err_invariant_violation ''inventory.source_baseline_unavailable''
          ''Complete the explicit Inventory current-state baseline; history is not inferred''
      | SrcStateUnverified \<Rightarrow> err_invariant_violation ''inventory.source_state_unverified''
          ''Reconcile Inventory source identity and counters without recreating missing history''
      | SrcUnsupported \<Rightarrow> err_invariant_violation ''inventory.source_backend_unsupported''
          ''Inventory source baseline requires PostgreSQL READ COMMITTED or SQLite'')"

definition MAX_SOURCE_PAGE :: int where "MAX_SOURCE_PAGE = 128"
definition MAX_SOURCE_LEVELS :: nat where "MAX_SOURCE_LEVELS = 4096"

subsection \<open>The baseline of a tenant\<close>

definition current_snapshot :: "inv_env \<Rightarrow> source_error + unit" where
  "current_snapshot env =
     rbind (ok_or (transaction_isolation env) SrcUnsupported) (\<lambda>isolation.
     ensure (eq_ignore_ascii_case isolation ''read committed'') SrcUnsupported)"

definition source_gate :: "inv_env \<Rightarrow> uuid \<Rightarrow> source_error + unit" where
  "source_gate env tenant =
     rbind (ensure (\<not> is_nil tenant) SrcStateUnverified) (\<lambda>_.
     rbind (current_snapshot env) (\<lambda>_.
     ensure (gate_admitted env) SrcConflict))"

definition baseline_shape_ok :: "uuid \<Rightarrow> source_baseline \<Rightarrow> bool" where
  "baseline_shape_ok tenant b \<longleftrightarrow>
     \<not> (bl_tenant_id b \<noteq> tenant \<or> is_nil (bl_baseline_id b) \<or> is_nil (bl_actor_id b) \<or> bl_record_count b < 0
        \<or> bl_last_variant_id b = Some 0 \<or> bl_last_page_id b = Some 0 \<or> bl_last_page_after b = Some 0
        \<or> (bl_last_page_id b \<noteq> None) \<noteq> (bl_last_page_limit b \<noteq> None)
        \<or> (case bl_last_page_limit b of None \<Rightarrow> False | Some n \<Rightarrow> \<not> (1 \<le> n \<and> n \<le> MAX_SOURCE_PAGE))
        \<or> bl_active b \<and> bl_last_page_id b = None)
     \<and> \<not> (bl_last_page_id b = None
        \<and> (bl_record_count b \<noteq> 0 \<or> bl_last_variant_id b \<noteq> None \<or> bl_last_page_after b \<noteq> None))"

definition page_matches :: "source_baseline \<Rightarrow> source_page \<Rightarrow> bool" where
  "page_matches b p \<longleftrightarrow>
     pg_baseline_id p = bl_baseline_id b \<and> pg_after_variant_id p = bl_last_page_after b
     \<and> Some (pg_page_limit p) = bl_last_page_limit b \<and> pg_next_after p = bl_last_variant_id b
     \<and> pg_record_count p = bl_record_count b \<and> pg_active p = bl_active b"

definition saved_baseline :: "inv_store \<Rightarrow> uuid \<Rightarrow> source_error + source_baseline option" where
  "saved_baseline s tenant =
     (case List.find (\<lambda>b. bl_tenant_id b = tenant) (src_baselines s) of
        None \<Rightarrow> Inr None
      | Some b \<Rightarrow>
          rbind (ensure (baseline_shape_ok tenant b) SrcStateUnverified) (\<lambda>_.
          rbind (case bl_last_page_id b of
                   None \<Rightarrow> Inr ()
                 | Some page \<Rightarrow>
                     rbind (ok_or (List.find (\<lambda>p. pg_tenant_id p = tenant \<and> pg_page_id p = page) (src_pages s))
                       SrcStateUnverified) (\<lambda>p.
                     ensure (page_matches b p) SrcStateUnverified)) (\<lambda>_.
          Inr (Some b))))"

text \<open>Journal rows of a tenant that never declared a baseline.\<close>

definition stranded :: "inv_store \<Rightarrow> uuid \<Rightarrow> bool" where
  "stranded s tenant \<longleftrightarrow> list_ex (\<lambda>r. sr_tenant_id r = tenant) (src_records s)
     \<or> list_ex (\<lambda>c. sch_tenant_id c = tenant) (src_changes s) \<or> list_ex (\<lambda>p. pg_tenant_id p = tenant) (src_pages s)"

definition tracking_baseline :: "inv_env \<Rightarrow> inv_store \<Rightarrow> uuid \<Rightarrow> source_error + uuid option" where
  "tracking_baseline env s tenant =
     rbind (source_gate env tenant) (\<lambda>_.
     rbind (saved_baseline s tenant) (\<lambda>saved.
     case saved of
       None \<Rightarrow> if stranded s tenant then Inl SrcStateUnverified else Inr None
     | Some b \<Rightarrow> if \<not> bl_active b then Inl SrcBaselineUnavailable else Inr (Some (bl_baseline_id b))))"

subsection \<open>Snapshots of the counters\<close>

record source_snapshot =
  ss_variant_id :: uuid
  ss_product_id :: uuid
  ss_item_id :: uuid
  ss_stocked :: int
  ss_reserved :: int
  ss_incoming :: int
  ss_binding_digest :: string
  ss_level_count :: nat

text \<open>The loop over the levels: the identifiers and locations seen, and the three sums.\<close>

fun scan_levels ::
    "uuid \<Rightarrow> stock_level list \<Rightarrow> uuid set \<times> uuid set \<times> int \<times> int \<times> int \<Rightarrow> source_error + int \<times> int \<times> int" where
  "scan_levels item [] (ids, locs, st, re, inc) = Inr (st, re, inc)"
| "scan_levels item (l # ls) (ids, locs, st, re, inc) =
     rbind (ensure (\<not> (is_nil (il_id l) \<or> is_nil (il_location_id l) \<or> il_inventory_item_id l \<noteq> item
         \<or> il_id l \<in> ids \<or> il_location_id l \<in> locs \<or> il_stocked_quantity l < 0 \<or> il_reserved_quantity l < 0
         \<or> il_incoming_quantity l < 0)) SrcStateUnverified) (\<lambda>_.
     rbind (ok_or (checked_i64 (st + il_stocked_quantity l)) SrcStateUnverified) (\<lambda>st.
     rbind (ok_or (checked_i64 (re + il_reserved_quantity l)) SrcStateUnverified) (\<lambda>re.
     rbind (ok_or (checked_i64 (inc + il_incoming_quantity l)) SrcStateUnverified) (\<lambda>inc.
     scan_levels item ls (insert (il_id l) ids, insert (il_location_id l) locs, st, re, inc)))))"

definition bindings_digest :: "inv_env \<Rightarrow> stock_level list \<Rightarrow> string" where
  "bindings_digest env levels =
     (let bindings = sort_key fst (sort_key snd (map (\<lambda>l. (il_id l, il_location_id l)) levels)) in
      sha256_hex env (''inventory-source-level-bindings''
        @ concat (map (\<lambda>(l, w). uuid_bytes l @ uuid_bytes w) bindings)))"

definition summarize :: "inv_env \<Rightarrow> uuid \<Rightarrow> uuid \<Rightarrow> uuid \<Rightarrow> stock_level list \<Rightarrow> source_error + source_snapshot" where
  "summarize env variant parent item levels =
     rbind (ensure (\<not> MAX_SOURCE_LEVELS < length levels) SrcLimitExceeded) (\<lambda>_.
     rbind (ensure (\<not> (is_nil variant \<or> is_nil parent \<or> is_nil item \<or> levels = [])) SrcStateUnverified) (\<lambda>_.
     rbind (scan_levels item levels ({}, {}, 0, 0, 0)) (\<lambda>(st, re, inc).
     Inr \<lparr>ss_variant_id = variant, ss_product_id = parent, ss_item_id = item, ss_stocked = st, ss_reserved = re,
          ss_incoming = inc, ss_binding_digest = bindings_digest env levels, ss_level_count = length levels\<rparr>)))"

definition item_levels :: "inv_store \<Rightarrow> uuid \<Rightarrow> stock_level list" where
  "item_levels s item = filter (\<lambda>l. il_inventory_item_id l = item) (inv_levels s)"

text \<open>The parent of a variant, proved to belong to the tenant.\<close>

definition proved_parent :: "inv_store \<Rightarrow> uuid \<Rightarrow> uuid \<Rightarrow> uuid option" where
  "proved_parent s tenant parent =
     (if is_nil parent then None
      else map_option pd_id (List.find (\<lambda>p. pd_id p = parent \<and> pd_tenant_id p = tenant) (inv_products s)))"

definition load_snapshot ::
    "inv_env \<Rightarrow> inv_store \<Rightarrow> uuid \<Rightarrow> uuid \<Rightarrow> nat \<Rightarrow> source_error + source_snapshot" where
  "load_snapshot env s tenant variant allowance =
     rbind (ensure (\<not> (is_nil tenant \<or> is_nil variant)) SrcStateUnverified) (\<lambda>_.
     rbind (ensure (\<not> (allowance = 0 \<or> MAX_SOURCE_LEVELS < allowance)) SrcLimitExceeded) (\<lambda>_.
     rbind (ok_or (find_variant s tenant variant) SrcStateUnverified) (\<lambda>v.
     rbind (ok_or (proved_parent s tenant (vr_product_id v)) SrcStateUnverified) (\<lambda>parent.
     case take 2 (filter (\<lambda>i. ii_variant_id i = variant) (inv_items s)) of
       [i] \<Rightarrow>
         rbind (ensure (\<not> is_nil (ii_id i)) SrcStateUnverified) (\<lambda>_.
         let levels = take (allowance + 1) (sort_key il_id (item_levels s (ii_id i))) in
         rbind (ensure (\<not> allowance < length levels) SrcLimitExceeded) (\<lambda>_.
         let locs = il_location_id ` set levels;
             proved = take (MAX_SOURCE_LEVELS + 1)
               (filter (\<lambda>w. sl_tenant_id w = tenant \<and> sl_id w \<in> locs) (inv_locations s)) in
         rbind (ensure (sl_id ` set proved = locs) SrcStateUnverified) (\<lambda>_.
         summarize env variant parent (ii_id i) levels)))
     | _ \<Rightarrow> Inl SrcStateUnverified))))"

subsection \<open>Records and changes\<close>

definition is_hex_digit :: "char \<Rightarrow> bool" where
  "is_hex_digit c \<longleftrightarrow> is_ascii_digit c
     \<or> (is_ascii_alphabetic c \<and> ascii_upper c \<le> CHR ''F'')"

definition validate_record :: "source_record \<Rightarrow> uuid \<Rightarrow> uuid \<Rightarrow> source_error + unit" where
  "validate_record r tenant baseline =
     ensure (\<not> (is_nil tenant \<or> is_nil baseline \<or> sr_tenant_id r \<noteq> tenant \<or> sr_baseline_id r \<noteq> baseline
       \<or> is_nil (sr_variant_id r) \<or> is_nil (sr_inventory_item_id r) \<or> is_nil (sr_product_id r)
       \<or> is_nil (sr_last_change_id r) \<or> sr_source_version r \<le> 0 \<or> sr_stocked r < 0 \<or> sr_reserved r < 0
       \<or> sr_incoming r < 0 \<or> length (sr_binding_digest r) \<noteq> 64 \<or> \<not> list_all is_hex_digit (sr_binding_digest r)
       \<or> sr_deleted r \<and> (sr_stocked r \<noteq> 0 \<or> sr_reserved r \<noteq> 0 \<or> sr_incoming r \<noteq> 0))) SrcStateUnverified"

definition change_kind_known :: "string \<Rightarrow> bool" where
  "change_kind_known k \<longleftrightarrow> k = ''baseline'' \<or> k = ''created'' \<or> k = ''changed'' \<or> k = ''deleted''"

definition validate_change :: "source_change \<Rightarrow> uuid \<Rightarrow> uuid \<Rightarrow> source_error + unit" where
  "validate_change c tenant baseline =
     ensure (\<not> (sch_tenant_id c \<noteq> tenant \<or> sch_baseline_id c \<noteq> baseline \<or> is_nil (sch_change_id c)
       \<or> is_nil (sch_variant_id c) \<or> sch_source_version c \<le> 0 \<or> \<not> change_kind_known (sch_kind c))) SrcStateUnverified"

definition source_record_clash :: "source_record \<Rightarrow> source_record \<Rightarrow> bool" where
  "source_record_clash a b \<longleftrightarrow> sr_tenant_id a = sr_tenant_id b \<and> sr_variant_id a = sr_variant_id b
     \<or> sr_last_change_id a = sr_last_change_id b"

definition source_change_clash :: "source_change \<Rightarrow> source_change \<Rightarrow> bool" where
  "source_change_clash a b \<longleftrightarrow> sch_change_id a = sch_change_id b
     \<or> sch_tenant_id a = sch_tenant_id b \<and> sch_variant_id a = sch_variant_id b
       \<and> sch_source_version a = sch_source_version b"

interpretation source_record_table: unique_table source_record_clash
  by unfold_locales (auto simp: source_record_clash_def)

interpretation source_change_table: unique_table source_change_clash
  by unfold_locales (auto simp: source_change_clash_def)

definition live_record :: "inv_store \<Rightarrow> uuid \<Rightarrow> uuid \<Rightarrow> uuid \<Rightarrow> source_error + source_record" where
  "live_record s tenant baseline variant =
     rbind (ok_or (List.find (\<lambda>r. sr_tenant_id r = tenant \<and> sr_variant_id r = variant) (src_records s)) SrcStateUnverified) (\<lambda>saved.
     rbind (validate_record saved tenant baseline) (\<lambda>_.
     rbind (ensure (\<not> sr_deleted saved) SrcStateUnverified) (\<lambda>_.
     rbind (ok_or (List.find (\<lambda>c. sch_change_id c = sr_last_change_id saved) (src_changes s)) SrcStateUnverified) (\<lambda>head.
     rbind (validate_change head tenant baseline) (\<lambda>_.
     rbind (ensure (\<not> (sch_variant_id head \<noteq> variant \<or> sch_source_version head \<noteq> sr_source_version saved
         \<or> sch_kind head = ''deleted'')) SrcStateUnverified) (\<lambda>_.
     Inr saved))))))"

definition next_version :: "int \<Rightarrow> source_error + int" where
  "next_version v =
     rbind (ensure (\<not> v \<le> 0) SrcStateUnverified) (\<lambda>_. ok_or (checked_i64 (v + 1)) SrcStateUnverified)"

definition append_change ::
    "inv_env \<Rightarrow> inv_store \<Rightarrow> uuid \<Rightarrow> uuid \<Rightarrow> uuid \<Rightarrow> int \<Rightarrow> uuid \<Rightarrow> string \<Rightarrow> source_error + inv_store" where
  "append_change env s tenant baseline variant version i kind =
     rbind (ensure (change_kind_known kind) SrcStateUnverified) (\<lambda>_.
     rbind (ok_or (insert_unique source_change_clash
         \<lparr>sch_change_id = i, sch_tenant_id = tenant, sch_variant_id = variant, sch_baseline_id = baseline,
          sch_source_version = version, sch_kind = kind, sch_created_at = inv_now env\<rparr> (src_changes s))
       (SrcDatabase ''unique constraint'')) (\<lambda>cs.
     Inr (s\<lparr>src_changes := cs\<rparr>)))"

text \<open>Writing a fact once under its envelope identity.\<close>

definition publish_once ::
    "inv_store \<Rightarrow> uuid \<Rightarrow> uuid \<Rightarrow> uuid option \<Rightarrow> inv_fact \<Rightarrow> source_error + inv_store" where
  "publish_once s envelope tenant actor published =
     (let f = \<lparr>of_envelope_id = Some envelope, of_tenant_id = tenant, of_actor_id = actor, of_fact = published\<rparr> in
      case List.find (\<lambda>g. of_envelope_id g = Some envelope) (inv_outbox s) of
        None \<Rightarrow> Inr (s\<lparr>inv_outbox := inv_outbox s @ [f]\<rparr>)
      | Some g \<Rightarrow> if g = f then Inr s else Inl SrcStateUnverified)"

definition source_event_valid :: "inv_fact \<Rightarrow> bool" where
  "source_event_valid f =
     (case f of
        SourceChanged b v version \<Rightarrow> \<not> is_nil v \<and> version \<noteq> 0 \<and> int version \<le> i64_max \<and> \<not> is_nil b
      | SourceActivated b \<Rightarrow> \<not> is_nil b
      | _ \<Rightarrow> False)"

definition publish_source ::
    "inv_store \<Rightarrow> uuid \<Rightarrow> uuid option \<Rightarrow> uuid \<Rightarrow> inv_fact \<Rightarrow> source_error + inv_store" where
  "publish_source s tenant actor envelope event =
     rbind (ensure (\<not> (is_nil tenant \<or> is_nil envelope \<or> actor = Some 0)) SrcStateUnverified) (\<lambda>_.
     rbind (ensure (source_event_valid event) SrcPublicationUnavailable) (\<lambda>_.
     publish_once s envelope tenant actor event))"

definition publish_changed ::
    "inv_store \<Rightarrow> uuid \<Rightarrow> uuid option \<Rightarrow> uuid \<Rightarrow> uuid \<Rightarrow> int \<Rightarrow> uuid \<Rightarrow> source_error + inv_store" where
  "publish_changed s tenant actor baseline variant version change =
     rbind (ensure (\<not> version \<le> 0) SrcStateUnverified) (\<lambda>_.
     publish_source s tenant actor change (SourceChanged baseline variant (nat version)))"

definition publish_activated :: "inv_store \<Rightarrow> uuid \<Rightarrow> uuid option \<Rightarrow> uuid \<Rightarrow> source_error + inv_store" where
  "publish_activated s tenant actor baseline = publish_source s tenant actor baseline (SourceActivated baseline)"

definition insert_record ::
    "inv_env \<Rightarrow> inv_store \<Rightarrow> uuid \<Rightarrow> uuid \<Rightarrow> source_snapshot \<Rightarrow> string \<Rightarrow> source_error + inv_store" where
  "insert_record env s tenant baseline snap kind =
     rbind (ok_or (insert_unique source_record_clash
         \<lparr>sr_tenant_id = tenant, sr_variant_id = ss_variant_id snap, sr_baseline_id = baseline,
          sr_inventory_item_id = ss_item_id snap, sr_product_id = ss_product_id snap, sr_source_version = 1,
          sr_deleted = False, sr_stocked = ss_stocked snap, sr_reserved = ss_reserved snap,
          sr_incoming = ss_incoming snap, sr_binding_digest = ss_binding_digest snap,
          sr_last_change_id = src_change_id env, sr_updated_at = inv_now env\<rparr> (src_records s))
       (SrcDatabase ''unique constraint'')) (\<lambda>rs.
     append_change env (s\<lparr>src_records := rs\<rparr>) tenant baseline (ss_variant_id snap) 1 (src_change_id env) kind)"

definition updates_record :: "source_record \<Rightarrow> source_record \<Rightarrow> bool" where
  "updates_record saved r \<longleftrightarrow>
     sr_tenant_id r = sr_tenant_id saved \<and> sr_variant_id r = sr_variant_id saved
     \<and> sr_baseline_id r = sr_baseline_id saved \<and> sr_inventory_item_id r = sr_inventory_item_id saved
     \<and> sr_product_id r = sr_product_id saved \<and> sr_source_version r = sr_source_version saved
     \<and> sr_last_change_id r = sr_last_change_id saved \<and> \<not> sr_deleted r"

definition set_record :: "inv_env \<Rightarrow> int \<times> int \<times> int \<times> int \<times> bool \<Rightarrow> source_record \<Rightarrow> source_record" where
  "set_record env = (\<lambda>(version, st, re, inc, deleted) r.
     r\<lparr>sr_source_version := version, sr_stocked := st, sr_reserved := re, sr_incoming := inc,
       sr_deleted := deleted, sr_last_change_id := src_change_id env, sr_updated_at := inv_now env\<rparr>)"

interpretation source_record_rows: keyed_rows "\<lambda>r. (sr_tenant_id r, sr_variant_id r)" updates_record "set_record env"
  for env :: inv_env
  by unfold_locales (auto simp: updates_record_def set_record_def)

definition update_record ::
    "inv_env \<Rightarrow> inv_store \<Rightarrow> source_record \<Rightarrow> int \<Rightarrow> int \<Rightarrow> int \<Rightarrow> bool \<Rightarrow> uuid option \<Rightarrow> source_error + inv_store" where
  "update_record env s saved st re inc deleted actor =
     rbind (next_version (sr_source_version saved)) (\<lambda>version.
     let i = src_change_id env in
     rbind (ensure (\<not> list_ex (\<lambda>r. \<not> updates_record saved r \<and> sr_last_change_id r = i) (src_records s))
       (SrcDatabase ''unique constraint'')) (\<lambda>_.
     rbind (ok_or (update_one (updates_record saved) (set_record env (version, st, re, inc, deleted)) (src_records s))
       SrcStateUnverified) (\<lambda>rs.
     rbind (append_change env (s\<lparr>src_records := rs\<rparr>)
         (sr_tenant_id saved) (sr_baseline_id saved) (sr_variant_id saved) version i
         (if deleted then ''deleted'' else ''changed'')) (\<lambda>s.
     publish_changed s (sr_tenant_id saved) actor (sr_baseline_id saved) (sr_variant_id saved) version i))))"

definition prove_binding :: "source_record \<Rightarrow> source_snapshot \<Rightarrow> source_error + unit" where
  "prove_binding saved snap =
     ensure (\<not> (sr_inventory_item_id saved \<noteq> ss_item_id snap \<or> sr_product_id saved \<noteq> ss_product_id snap
       \<or> sr_binding_digest saved \<noteq> ss_binding_digest snap)) SrcStateUnverified"

subsection \<open>The writers\<close>

definition record_created :: "inv_env \<Rightarrow> inv_store \<Rightarrow> uuid \<Rightarrow> uuid \<Rightarrow> uuid option \<Rightarrow> string + inv_store" where
  "record_created env s tenant variant actor =
     map_err source_into_db_error
       (rbind (tracking_baseline env s tenant) (\<lambda>tracked.
        case tracked of
          None \<Rightarrow> Inr s
        | Some baseline \<Rightarrow>
            rbind (load_snapshot env s tenant variant MAX_SOURCE_LEVELS) (\<lambda>snap.
            rbind (insert_record env s tenant baseline snap ''created'') (\<lambda>s.
            publish_changed s tenant actor baseline variant 1 (src_change_id env)))))"

definition record_changed :: "inv_env \<Rightarrow> inv_store \<Rightarrow> uuid \<Rightarrow> uuid \<Rightarrow> uuid option \<Rightarrow> string + inv_store" where
  "record_changed env s tenant variant actor =
     map_err source_into_db_error
       (rbind (tracking_baseline env s tenant) (\<lambda>tracked.
        case tracked of
          None \<Rightarrow> Inr s
        | Some baseline \<Rightarrow>
            rbind (load_snapshot env s tenant variant MAX_SOURCE_LEVELS) (\<lambda>snap.
            rbind (live_record s tenant baseline variant) (\<lambda>saved.
            rbind (prove_binding saved snap) (\<lambda>_.
            update_record env s saved (ss_stocked snap) (ss_reserved snap) (ss_incoming snap) False actor)))))"

text \<open>
  A deletion is prepared while the levels exist, and recorded after they and the item are gone. The
  prepared value is the live record of the variant, or nothing without a baseline.
\<close>

definition prepare_deletion ::
    "inv_env \<Rightarrow> inv_store \<Rightarrow> uuid \<Rightarrow> uuid \<Rightarrow> uuid \<Rightarrow> string + source_record option" where
  "prepare_deletion env s tenant variant item =
     map_err source_into_db_error
       (rbind (tracking_baseline env s tenant) (\<lambda>tracked.
        case tracked of
          None \<Rightarrow> Inr None
        | Some baseline \<Rightarrow>
            rbind (load_snapshot env s tenant variant MAX_SOURCE_LEVELS) (\<lambda>snap.
            rbind (live_record s tenant baseline variant) (\<lambda>saved.
            rbind (prove_binding saved snap) (\<lambda>_.
            rbind (ensure (\<not> (is_nil item \<or> sr_inventory_item_id saved \<noteq> item \<or> sr_stocked saved \<noteq> 0
                \<or> sr_reserved saved \<noteq> 0 \<or> sr_incoming saved \<noteq> 0 \<or> ss_stocked snap \<noteq> 0 \<or> ss_reserved snap \<noteq> 0
                \<or> ss_incoming snap \<noteq> 0)) SrcStateUnverified) (\<lambda>_.
            Inr (Some saved)))))))"

definition record_deleted :: "inv_env \<Rightarrow> inv_store \<Rightarrow> source_record option \<Rightarrow> uuid option \<Rightarrow> string + inv_store" where
  "record_deleted env s prepared actor =
     (case prepared of
        None \<Rightarrow> Inr s
      | Some saved \<Rightarrow> map_err source_into_db_error (update_record env s saved 0 0 0 True actor))"

end
