(* ===== verification/Inventory_Quantity.thy ===== *)
theory Inventory_Quantity
  imports Inventory_Source
begin

text \<open>
  Setting and adjusting the available quantity of a variant (\<open>rustok-inventory/src/services\<close>:
  \<open>quantity.rs\<close>, the callers in \<open>inventory.rs\<close> and the initial records of \<open>bootstrap.rs\<close>). A plan is
  built from a complete and proved reading of the levels and then applied to the one level at the
  default location. The first reading of the levels may see an older state than the locked one,
  hence the argument \<open>seen\<close>.
\<close>

subsection \<open>Errors\<close>

datatype quantity_blocker =
    QInvalidRequest | QLimitExceeded | QIdentityUnavailable | QStateUnverified | QLocationUnavailable
  | QQuantityUnrepresentable | QInsufficientStock | QConcurrentChange | QIsolationUnsupported
  | QEventUnrepresentable | QPublicationUnverified

primrec blocker_kind :: "quantity_blocker \<Rightarrow> port_error_kind" where
  "blocker_kind QInvalidRequest = Validation"
| "blocker_kind QLimitExceeded = Validation"
| "blocker_kind QLocationUnavailable = Conflict"
| "blocker_kind QInsufficientStock = Conflict"
| "blocker_kind QConcurrentChange = Conflict"
| "blocker_kind QIdentityUnavailable = InvariantViolation"
| "blocker_kind QStateUnverified = InvariantViolation"
| "blocker_kind QQuantityUnrepresentable = InvariantViolation"
| "blocker_kind QIsolationUnsupported = InvariantViolation"
| "blocker_kind QEventUnrepresentable = InvariantViolation"
| "blocker_kind QPublicationUnverified = InvariantViolation"

primrec blocker_code :: "quantity_blocker \<Rightarrow> string" where
  "blocker_code QInvalidRequest = ''inventory.quantity_invalid''"
| "blocker_code QLimitExceeded = ''inventory.quantity_limit''"
| "blocker_code QIdentityUnavailable = ''inventory.quantity_identity_unavailable''"
| "blocker_code QStateUnverified = ''inventory.quantity_state_unverified''"
| "blocker_code QLocationUnavailable = ''inventory.quantity_location_unavailable''"
| "blocker_code QQuantityUnrepresentable = ''inventory.quantity_unrepresentable''"
| "blocker_code QInsufficientStock = ''inventory.quantity_insufficient''"
| "blocker_code QConcurrentChange = ''inventory.quantity_changed''"
| "blocker_code QIsolationUnsupported = ''inventory.quantity_isolation_unsupported''"
| "blocker_code QEventUnrepresentable = ''inventory.quantity_event_unrepresentable''"
| "blocker_code QPublicationUnverified = ''inventory.quantity_publication_unverified''"

primrec blocker_message :: "quantity_blocker \<Rightarrow> string" where
  "blocker_message QInvalidRequest =
     ''Inventory quantity writes require nonnil tenant, actor and SKU identities and valid quantity input''"
| "blocker_message QLimitExceeded =
     ''Inventory quantity exceeds the complete level bound; reconcile through a bounded Inventory operation''"
| "blocker_message QIdentityUnavailable =
     ''Inventory quantity cannot prove the saved item and levels; reconcile without recreating stock identity''"
| "blocker_message QStateUnverified =
     ''Inventory quantity cannot prove all original location bindings and counters; reconcile without moving stock''"
| "blocker_message QLocationUnavailable =
     ''Inventory quantity needs an active saved owner-default level; configure it explicitly without relocating reservations''"
| "blocker_message QQuantityUnrepresentable =
     ''Inventory quantity cannot fit the exact storage or response range; reconcile without clamping counters''"
| "blocker_message QInsufficientStock =
     ''Inventory quantity would violate physical stock or deny-policy availability; reconcile stock and reservations first''"
| "blocker_message QConcurrentChange =
     ''Inventory quantity state changed; recover the original command outcome before issuing a new stock instruction''"
| "blocker_message QIsolationUnsupported =
     ''Inventory quantity requires verified READ COMMITTED on PostgreSQL/MySQL and enabled current-transaction instrumentation on MySQL''"
| "blocker_message QEventUnrepresentable =
     ''Inventory quantity cannot be represented by the existing stock notification; reconcile without changing reservation history''"
| "blocker_message QPublicationUnverified =
     ''Inventory quantity notification could not be verified; preserve the original operation and reconcile its outcome''"

definition blocker_port_error :: "quantity_blocker \<Rightarrow> port_error" where
  "blocker_port_error b = port_error_new (blocker_kind b) (blocker_code b) (blocker_message b) False"

datatype quantity_error =
    QRejected quantity_blocker
  | QVariantNotFound uuid
  | QDatabase string
  | QPublication core_error

definition quantity_port_error :: "quantity_error \<Rightarrow> port_error" where
  "quantity_port_error e =
     (let storage = err_unavailable ''inventory.quantity_storage_unavailable''
        ''Inventory quantity storage is temporarily unavailable'' in
      case e of
        QRejected b \<Rightarrow> blocker_port_error b
      | QVariantNotFound _ \<Rightarrow> err_not_found ''inventory.variant_not_found'' ''Inventory SKU was not found''
      | QDatabase _ \<Rightarrow> storage
      | QPublication (CoreDatabase _) \<Rightarrow> storage
      | QPublication (CoreOther _) \<Rightarrow> blocker_port_error QPublicationUnverified)"

subsection \<open>Planning\<close>

datatype quantity_change = SetQuantity int | AdjustQuantity int

record write_outcome =
  wo_quantity :: int
  wo_inventory_policy :: string

record quantity_plan =
  qp_tenant_id :: uuid
  qp_actor_id :: uuid
  qp_variant_id :: uuid
  qp_product_id :: uuid
  qp_inventory_policy :: string
  qp_before :: int
  qp_after :: int
  qp_target :: "(stock_level \<times> int) option"

definition MAX_QUANTITY_LEVELS :: nat where "MAX_QUANTITY_LEVELS = 4096"

definition validate_request :: "uuid \<Rightarrow> uuid \<Rightarrow> uuid \<Rightarrow> quantity_error + unit" where
  "validate_request tenant actor variant =
     ensure (\<not> (is_nil tenant \<or> is_nil actor \<or> is_nil variant)) (QRejected QInvalidRequest)"

definition require_current_snapshot :: "inv_env \<Rightarrow> quantity_error + unit" where
  "require_current_snapshot env =
     rbind (ok_or (transaction_isolation env) (QRejected QIsolationUnsupported)) (\<lambda>isolation.
     ensure (eq_ignore_ascii_case (map (\<lambda>c. if c = CHR ''-'' then CHR '' '' else c) isolation) ''read committed'')
       (QRejected QIsolationUnsupported))"

definition level_query :: "inv_store \<Rightarrow> uuid \<Rightarrow> stock_level list" where
  "level_query s item =
     take (MAX_QUANTITY_LEVELS + 1) (sort_key il_location_id (sort_key il_id (item_levels s item)))"

fun scan_available ::
    "uuid \<Rightarrow> uuid set \<Rightarrow> stock_level list \<Rightarrow> uuid set \<times> uuid set \<times> int \<Rightarrow> quantity_error + int" where
  "scan_available item locations [] (ids, locs, t) = Inr t"
| "scan_available item locations (l # ls) (ids, locs, t) =
     rbind (ensure (\<not> (is_nil (il_id l) \<or> il_inventory_item_id l \<noteq> item \<or> is_nil item \<or> is_nil (il_location_id l)
         \<or> il_location_id l \<notin> locations \<or> il_id l \<in> ids \<or> il_location_id l \<in> locs \<or> il_stocked_quantity l < 0
         \<or> il_reserved_quantity l < 0 \<or> il_incoming_quantity l < 0)) (QRejected QStateUnverified)) (\<lambda>_.
     rbind (ok_or (checked_i64 (t + (il_stocked_quantity l - il_reserved_quantity l)))
       (QRejected QQuantityUnrepresentable)) (\<lambda>t.
     scan_available item locations ls (insert (il_id l) ids, insert (il_location_id l) locs, t)))"

definition plan_available :: "stock_level list \<Rightarrow> uuid \<Rightarrow> uuid set \<Rightarrow> quantity_error + int" where
  "plan_available levels item locations =
     rbind (ensure (\<not> MAX_QUANTITY_LEVELS < length levels) (QRejected QLimitExceeded)) (\<lambda>_.
     rbind (ensure (levels \<noteq> []) (QRejected QIdentityUnavailable)) (\<lambda>_.
     rbind (scan_available item locations levels ({}, {}, 0)) (\<lambda>t.
     ok_or (checked_i32 t) (QRejected QQuantityUnrepresentable))))"

definition target_quantity :: "int \<Rightarrow> quantity_change \<Rightarrow> quantity_error + int" where
  "target_quantity before change =
     (case change of
        SetQuantity q \<Rightarrow> Inr q
      | AdjustQuantity a \<Rightarrow> ok_or (checked_i32 (before + a)) (QRejected QQuantityUnrepresentable))"

definition stocked_target :: "int \<Rightarrow> int \<Rightarrow> int \<Rightarrow> int \<Rightarrow> bool \<Rightarrow> quantity_error + int" where
  "stocked_target before after stocked reserved backorder =
     rbind (ensure (\<not> (stocked < 0 \<or> reserved < 0)) (QRejected QStateUnverified)) (\<lambda>_.
     rbind (ok_or (checked_i64 (stocked + (after - before))) (QRejected QQuantityUnrepresentable)) (\<lambda>target.
     rbind (ensure (\<not> (target < 0 \<or> (\<not> backorder \<and> (after < 0 \<or> target - reserved < 0))))
       (QRejected QInsufficientStock)) (\<lambda>_.
     ok_or (checked_i32 target) (QRejected QQuantityUnrepresentable))))"

definition validate_event_quantities :: "int \<Rightarrow> int \<Rightarrow> quantity_error + unit" where
  "validate_event_quantities before after =
     ensure (\<not> (before < 0 \<or> after < 0)) (QRejected QEventUnrepresentable)"

text \<open>The level to write and its stock: nothing when the quantity does not change.\<close>

definition plan_target ::
    "stock_location option \<Rightarrow> stock_location list \<Rightarrow> stock_level list \<Rightarrow> int \<Rightarrow> int \<Rightarrow> string
     \<Rightarrow> quantity_error + (stock_level \<times> int) option" where
  "plan_target candidate locations levels before after policy =
     (if before = after then Inr None
      else
        rbind (ok_or candidate (QRejected QLocationUnavailable)) (\<lambda>candidate.
        rbind (ok_or (List.find (\<lambda>w. sl_id w = sl_id candidate) locations) (QRejected QStateUnverified)) (\<lambda>current.
        rbind (ensure (\<not> (sl_deleted_at current \<noteq> None \<or> sl_code current \<noteq> sl_code candidate))
          (QRejected QLocationUnavailable)) (\<lambda>_.
        rbind (ok_or (List.find (\<lambda>l. il_location_id l = sl_id candidate) levels) (QRejected QLocationUnavailable)) (\<lambda>target.
        rbind (stocked_target before after (il_stocked_quantity target) (il_reserved_quantity target)
          (inventory_policy_allows_backorder policy)) (\<lambda>stocked.
        rbind (validate_event_quantities before after) (\<lambda>_.
        Inr (Some (target, stocked)))))))))"

definition load_plan ::
    "inv_store \<Rightarrow> inv_store \<Rightarrow> uuid \<Rightarrow> uuid \<Rightarrow> uuid \<Rightarrow> quantity_change \<Rightarrow> quantity_error + quantity_plan" where
  "load_plan seen s tenant actor variant change =
     rbind (ok_or (find_variant s tenant variant) (QVariantNotFound variant)) (\<lambda>v.
     rbind (ensure (proved_parent s tenant (vr_product_id v) \<noteq> None) (QRejected QIdentityUnavailable)) (\<lambda>_.
     case take 2 (filter (\<lambda>i. ii_variant_id i = variant) (inv_items s)) of
       [i] \<Rightarrow>
         rbind (ensure (\<not> is_nil (ii_id i)) (QRejected QIdentityUnavailable)) (\<lambda>_.
         let discovered = level_query seen (ii_id i) in
         rbind (ensure (\<not> MAX_QUANTITY_LEVELS < length discovered) (QRejected QLimitExceeded)) (\<lambda>_.
         rbind (ensure (discovered \<noteq> []) (QRejected QIdentityUnavailable)) (\<lambda>_.
         let candidate = find_default_location seen tenant;
             original = il_location_id ` set discovered;
             ids = (case candidate of None \<Rightarrow> original | Some w \<Rightarrow> insert (sl_id w) original) in
         rbind (ensure (0 \<notin> ids) (QRejected QStateUnverified)) (\<lambda>_.
         let locations = take (MAX_QUANTITY_LEVELS + 2)
               (sort_key sl_id (filter (\<lambda>w. sl_tenant_id w = tenant \<and> sl_id w \<in> ids) (inv_locations s))) in
         rbind (ensure (sl_id ` set locations = ids) (QRejected QStateUnverified)) (\<lambda>_.
         let levels = level_query s (ii_id i);
             binding = (\<lambda>l. (il_inventory_item_id l, il_location_id l, il_id l)) in
         rbind (ensure (map binding levels = map binding discovered) (QRejected QConcurrentChange)) (\<lambda>_.
         rbind (plan_available levels (ii_id i) original) (\<lambda>before.
         rbind (target_quantity before change) (\<lambda>after.
         rbind (plan_target candidate locations levels before after (vr_inventory_policy v)) (\<lambda>target.
         Inr \<lparr>qp_tenant_id = tenant, qp_actor_id = actor, qp_variant_id = variant,
              qp_product_id = vr_product_id v, qp_inventory_policy = vr_inventory_policy v,
              qp_before = before, qp_after = after, qp_target = target\<rparr>)))))))))
     | _ \<Rightarrow> Inl (QRejected QIdentityUnavailable)))"

subsection \<open>Applying a plan\<close>

definition inventory_event_valid :: "inv_fact \<Rightarrow> bool" where
  "inventory_event_valid f =
     (case f of
        InventoryUpdated v p l old new_q \<Rightarrow> \<not> is_nil v \<and> \<not> is_nil p \<and> \<not> is_nil l \<and> 0 \<le> old \<and> 0 \<le> new_q
      | InventoryLow v p remaining threshold \<Rightarrow>
          \<not> is_nil v \<and> \<not> is_nil p \<and> 0 \<le> remaining \<and> 0 \<le> threshold \<and> remaining < threshold
      | ReservationChanged p v \<Rightarrow> \<not> is_nil p \<and> \<not> is_nil v
      | SourceChanged _ _ _ \<Rightarrow> source_event_valid f
      | SourceActivated _ \<Rightarrow> source_event_valid f)"

definition publish_root :: "inv_store \<Rightarrow> uuid \<Rightarrow> uuid option \<Rightarrow> inv_fact \<Rightarrow> core_error + inv_store" where
  "publish_root s tenant actor f =
     rbind (ensure (inventory_event_valid f) (CoreOther ''event validation'')) (\<lambda>_.
     Inr (s\<lparr>inv_outbox := inv_outbox s
       @ [\<lparr>of_envelope_id = None, of_tenant_id = tenant, of_actor_id = actor, of_fact = f\<rparr>]\<rparr>))"

definition same_counters :: "stock_level \<Rightarrow> stock_level \<Rightarrow> bool" where
  "same_counters a b \<longleftrightarrow> il_id a = il_id b \<and> il_inventory_item_id a = il_inventory_item_id b
     \<and> il_location_id a = il_location_id b \<and> il_stocked_quantity a = il_stocked_quantity b
     \<and> il_reserved_quantity a = il_reserved_quantity b \<and> il_incoming_quantity a = il_incoming_quantity b"

definition write_stocked :: "inv_env \<Rightarrow> inv_store \<Rightarrow> stock_level \<Rightarrow> int \<Rightarrow> quantity_error + inv_store" where
  "write_stocked env s level stocked =
     rbind (ok_or (update_one (same_counters level)
         (\<lambda>l. l\<lparr>il_stocked_quantity := stocked, il_updated_at := inv_now env\<rparr>) (inv_levels s)) (QRejected QConcurrentChange)) (\<lambda>ls.
     Inr (s\<lparr>inv_levels := ls\<rparr>))"

definition apply_plan ::
    "inv_env \<Rightarrow> inv_store \<Rightarrow> quantity_plan \<Rightarrow> int option \<Rightarrow> quantity_error + inv_store \<times> write_outcome" where
  "apply_plan env s p threshold =
     rbind (case qp_target p of
              None \<Rightarrow> Inr s
            | Some (level, stocked) \<Rightarrow>
                (let event = InventoryUpdated (qp_variant_id p) (qp_product_id p) (il_location_id level) (qp_before p) (qp_after p);
                     low = (case threshold of
                              Some t \<Rightarrow> if 0 < qp_after p \<and> qp_after p < t
                                then Some (InventoryLow (qp_variant_id p) (qp_product_id p) (qp_after p) t) else None
                            | None \<Rightarrow> None) in
                 rbind (ensure (inventory_event_valid event) (QRejected QEventUnrepresentable)) (\<lambda>_.
                 rbind (ensure (case low of None \<Rightarrow> True | Some e \<Rightarrow> inventory_event_valid e)
                   (QRejected QEventUnrepresentable)) (\<lambda>_.
                 rbind (write_stocked env s level stocked) (\<lambda>s.
                 rbind (map_err QDatabase (record_changed env s (qp_tenant_id p) (qp_variant_id p) (Some (qp_actor_id p)))) (\<lambda>s.
                 rbind (map_err QPublication (publish_root s (qp_tenant_id p) (Some (qp_actor_id p)) event)) (\<lambda>s.
                 case low of
                   None \<Rightarrow> Inr s
                 | Some e \<Rightarrow> map_err QPublication (publish_root s (qp_tenant_id p) (Some (qp_actor_id p)) e)))))))) (\<lambda>s.
     Inr (s, \<lparr>wo_quantity = qp_after p, wo_inventory_policy = qp_inventory_policy p\<rparr>))"

definition write_quantity ::
    "inv_env \<Rightarrow> inv_store \<Rightarrow> inv_store \<Rightarrow> uuid \<Rightarrow> uuid \<Rightarrow> uuid \<Rightarrow> quantity_change \<Rightarrow> int option
     \<Rightarrow> quantity_error + inv_store \<times> write_outcome" where
  "write_quantity env seen s tenant actor variant change threshold =
     rbind (validate_request tenant actor variant) (\<lambda>_.
     rbind (require_current_snapshot env) (\<lambda>_.
     rbind (load_plan seen s tenant actor variant change) (\<lambda>p.
     apply_plan env s p threshold)))"

definition execute_quantity_write ::
    "inv_env \<Rightarrow> inv_store \<Rightarrow> inv_store \<Rightarrow> uuid \<Rightarrow> uuid \<Rightarrow> uuid \<Rightarrow> quantity_change \<Rightarrow> int option
     \<Rightarrow> inv_store \<times> (quantity_error + write_outcome)" where
  "execute_quantity_write env seen s tenant actor variant change threshold =
     (case write_quantity env seen s tenant actor variant change threshold of
        Inl e \<Rightarrow> (s, Inl e)
      | Inr (s', outcome) \<Rightarrow> (s', Inr outcome))"

record quantity_write_result =
  qwr_quantity :: int
  qwr_in_stock :: bool

definition quantity_result :: "write_outcome \<Rightarrow> quantity_write_result" where
  "quantity_result w = \<lparr>qwr_quantity = wo_quantity w, qwr_in_stock = in_stock_of (wo_quantity w) (wo_inventory_policy w)\<rparr>"

definition set_variant_quantity ::
    "inv_env \<Rightarrow> inv_store \<Rightarrow> inv_store \<Rightarrow> uuid \<Rightarrow> uuid \<Rightarrow> uuid \<Rightarrow> int
     \<Rightarrow> inv_store \<times> (quantity_error + quantity_write_result)" where
  "set_variant_quantity env seen s tenant actor variant quantity =
     (case validate_request tenant actor variant of
        Inl e \<Rightarrow> (s, Inl e)
      | Inr _ \<Rightarrow>
          (case execute_quantity_write env seen s tenant actor variant (SetQuantity quantity) None of
             (s', Inl e) \<Rightarrow> (s', Inl e)
           | (s', Inr w) \<Rightarrow> (s', Inr (quantity_result w))))"

definition adjust_variant_quantity ::
    "inv_env \<Rightarrow> inv_store \<Rightarrow> inv_store \<Rightarrow> uuid \<Rightarrow> uuid \<Rightarrow> uuid \<Rightarrow> int
     \<Rightarrow> inv_store \<times> (quantity_error + quantity_write_result)" where
  "adjust_variant_quantity env seen s tenant actor variant adjustment =
     (case validate_request tenant actor variant of
        Inl e \<Rightarrow> (s, Inl e)
      | Inr _ \<Rightarrow>
          (case execute_quantity_write env seen s tenant actor variant (AdjustQuantity adjustment)
              (Some (low_stock_threshold env)) of
             (s', Inl e) \<Rightarrow> (s', Inl e)
           | (s', Inr w) \<Rightarrow> (s', Inr (quantity_result w))))"

subsection \<open>The first records of a variant\<close>

definition initial_item_row :: "inv_env \<Rightarrow> uuid \<Rightarrow> string option \<Rightarrow> stock_item" where
  "initial_item_row env variant sku =
     \<lparr>ii_id = inv_item_id env, ii_variant_id = variant,
      ii_sku = (case sku of None \<Rightarrow> None | Some t \<Rightarrow> if trim t = [] then None else Some (trim t)),
      ii_requires_shipping = True, ii_metadata = JObject [(''source'', JString ''inventory_bootstrap'')],
      ii_created_at = inv_now env, ii_updated_at = inv_now env\<rparr>"

definition initial_level_row :: "inv_env \<Rightarrow> uuid \<Rightarrow> int \<Rightarrow> stock_level" where
  "initial_level_row env loc quantity =
     \<lparr>il_id = inv_level_id env, il_inventory_item_id = inv_item_id env, il_location_id = loc,
      il_stocked_quantity = quantity, il_reserved_quantity = 0, il_incoming_quantity = 0,
      il_low_stock_threshold = None, il_updated_at = inv_now env\<rparr>"

definition create_initial_records ::
    "inv_env \<Rightarrow> inv_store \<Rightarrow> stock_location \<Rightarrow> uuid \<Rightarrow> uuid \<Rightarrow> string option \<Rightarrow> int \<Rightarrow> string + inv_store" where
  "create_initial_records env s w actor variant sku quantity =
     rbind (ensure (\<not> is_nil (sl_id w)) ''location.id cannot be nil'') (\<lambda>_.
     rbind (ensure (\<not> is_nil actor) ''actor_id cannot be nil'') (\<lambda>_.
     rbind (ensure (\<not> is_nil variant) ''variant_id cannot be nil'') (\<lambda>_.
     rbind (ensure (\<not> quantity < 0) ''available_quantity cannot be negative'') (\<lambda>_.
     rbind (ok_or (insert_unique stock_item_clash (initial_item_row env variant sku) (inv_items s)) ''unique constraint'') (\<lambda>items.
     let s = s\<lparr>inv_items := items\<rparr>; l = initial_level_row env (sl_id w) quantity in
     rbind (ensure (level_admissible s l) ''level constraint'') (\<lambda>_.
     rbind (ok_or (insert_unique stock_level_clash l (inv_levels s)) ''unique constraint'') (\<lambda>levels.
     record_created env (s\<lparr>inv_levels := levels\<rparr>) (sl_tenant_id w) variant (Some actor))))))))"

definition update_initial_quantity ::
    "inv_env \<Rightarrow> inv_store \<Rightarrow> inv_store \<Rightarrow> uuid \<Rightarrow> uuid \<Rightarrow> uuid \<Rightarrow> int \<Rightarrow> quantity_error + inv_store" where
  "update_initial_quantity env seen s tenant actor variant quantity =
     rbind (ensure (\<not> quantity < 0) (QRejected QInvalidRequest)) (\<lambda>_.
     rbind (write_quantity env seen s tenant actor variant (SetQuantity quantity) None) (\<lambda>(s, _).
     Inr s))"

end
