(* ===== verification/Inventory_Reservation.thy ===== *)
theory Inventory_Reservation
  imports Inventory_Quantity "HOL-Library.AList"
begin

text \<open>
  Reserving stock and releasing reservations by quantity (\<open>rustok-inventory/src\<close>: \<open>reserve\<close> and
  \<open>release_reservation_quantity\<close> of \<open>services/inventory.rs\<close>, \<open>services/inventory/reservation_release.rs\<close>,
  \<open>reservation_events.rs\<close>). A release takes from the anonymous reservations, the oldest first, and
  never from one that carries an identity of a cart or an order.
\<close>

subsection \<open>The context and the event of a movement\<close>

definition quantity_tenant :: "inv_env \<Rightarrow> port_context \<Rightarrow> commerce_error + uuid" where
  "quantity_tenant env ctx =
     rbind (map_err (\<lambda>_. CommerceValidation (''Inventory quantity writes require current tenant context, positive deadline ''
         @ ''and a nonempty diagnostic key; the key does not make this command replay-safe''))
       (require_policy ctx policy_write)) (\<lambda>_.
     let invalid = CommerceValidation ''Inventory quantity writes require a valid current tenant'' in
     rbind (ok_or (inv_parse_uuid env (trim (ctx_tenant_id ctx))) invalid) (\<lambda>tenant.
     rbind (ensure (\<not> is_nil tenant) invalid) (\<lambda>_.
     Inr tenant)))"

definition event_actor_id :: "inv_env \<Rightarrow> port_context \<Rightarrow> commerce_error + uuid option" where
  "event_actor_id env ctx =
     (if actor_kind (ctx_actor ctx) = ActorUser
      then (case inv_parse_uuid env (actor_id (ctx_actor ctx)) of
              Some i \<Rightarrow> if is_nil i then Inl (CommerceValidation (''Inventory reservation notifications require the current ''
                  @ ''human actor's non-nil UUID; do not reconstruct an actor from saved metadata'')) else Inr (Some i)
            | None \<Rightarrow> Inl (CommerceValidation (''Inventory reservation notifications require the current ''
                  @ ''human actor's non-nil UUID; do not reconstruct an actor from saved metadata'')))
      else Inr None)"

record reservation_event_plan =
  rep_tenant_id :: uuid
  rep_actor_id :: "uuid option"
  rep_product_id :: uuid
  rep_variant_id :: uuid

definition prepare_event :: "inv_env \<Rightarrow> inv_store \<Rightarrow> port_context \<Rightarrow> variant_row \<Rightarrow> commerce_error + reservation_event_plan" where
  "prepare_event env s ctx v =
     rbind (quantity_tenant env ctx) (\<lambda>tenant.
     rbind (event_actor_id env ctx) (\<lambda>actor.
     let unverified = CommerceValidation (''Inventory reservation notification Product/Variant ownership is unverified; ''
       @ ''reconcile the original identity without substitution'') in
     rbind (ensure (\<not> (vr_tenant_id v \<noteq> tenant \<or> is_nil (vr_id v) \<or> is_nil (vr_product_id v))) unverified) (\<lambda>_.
     rbind (ensure (list_ex (\<lambda>p. pd_id p = vr_product_id v \<and> pd_tenant_id p = tenant) (inv_products s)) unverified) (\<lambda>_.
     Inr \<lparr>rep_tenant_id = tenant, rep_actor_id = actor, rep_product_id = vr_product_id v, rep_variant_id = vr_id v\<rparr>))))"

definition publish_event :: "inv_env \<Rightarrow> inv_store \<Rightarrow> reservation_event_plan \<Rightarrow> commerce_error + inv_store" where
  "publish_event env s p =
     rbind (map_err CommerceDatabase (record_changed env s (rep_tenant_id p) (rep_variant_id p) (rep_actor_id p))) (\<lambda>s.
     map_err CommerceCore (publish_root s (rep_tenant_id p) (rep_actor_id p)
       (ReservationChanged (rep_product_id p) (rep_variant_id p))))"

subsection \<open>The anonymous pool\<close>

definition QUANTITY_RESERVATION_ROW_LIMIT :: nat where "QUANTITY_RESERVATION_ROW_LIMIT = 4096"

definition inconsistent_release :: commerce_error where
  "inconsistent_release = CommerceValidation (''Anonymous reservation provenance or original level is inconsistent; ''
     @ ''use the identity port for keyed allocations and reconcile invalid history without fallback'')"

text \<open>\<open>Value::get\<close> and \<open>Value::as_str\<close>.\<close>

definition json_get :: "string \<Rightarrow> json \<Rightarrow> json option" where
  "json_get k v = (case v of JObject kvs \<Rightarrow> map_of kvs k | _ \<Rightarrow> None)"

definition json_str :: "json option \<Rightarrow> string option" where
  "json_str v = (case v of Some (JString t) \<Rightarrow> Some t | _ \<Rightarrow> None)"

definition json_present :: "string \<Rightarrow> json \<Rightarrow> bool" where
  "json_present k v = (case json_get k v of None \<Rightarrow> False | Some w \<Rightarrow> w \<noteq> JNull)"

definition has_terminal_disposition :: "json \<Rightarrow> bool" where
  "has_terminal_disposition md = list_ex (\<lambda>k. json_present k md)
     [''inventory_disposition'', ''superseded_by'', ''released_at'', ''disposed_at'', ''superseded_at'']"

definition carries_identity :: "json \<Rightarrow> bool" where
  "carries_identity md = list_ex (\<lambda>k. json_present k md)
     [''reservation_id'', ''external_id'', ''line_item_id'', ''checkout_operation_id'', ''cart_id'',
      ''cart_line_item_id'', ''order_id'', ''order_line_item_id'']"

definition load_quantity_reservation_rows :: "inv_store \<Rightarrow> uuid \<Rightarrow> reservation list" where
  "load_quantity_reservation_rows s item =
     take (QUANTITY_RESERVATION_ROW_LIMIT + 1) (sort_key rsv_created_at (sort_key rsv_id
       (filter (\<lambda>r. rsv_inventory_item_id r = item \<and> rsv_deleted_at r = None \<and> rsv_external_id r = None
          \<and> rsv_line_item_id r = None) (inv_reservations s))))"

record anonymous_pool =
  pool_eligible :: "reservation list"
  pool_tracked :: int
  pool_claims :: "(uuid \<times> int) list"

text \<open>The state of the loop: identifiers seen and the pool so far.\<close>

fun inspect_rows ::
    "inv_env \<Rightarrow> uuid \<Rightarrow> uuid \<Rightarrow> reservation list \<Rightarrow> uuid set \<times> anonymous_pool \<Rightarrow> commerce_error + anonymous_pool" where
  "inspect_rows env item variant [] (seen, pool) = Inr pool"
| "inspect_rows env item variant (r # rs) (seen, pool) =
     rbind (ensure (\<not> (rsv_inventory_item_id r \<noteq> item \<or> is_nil (rsv_id r) \<or> is_nil (rsv_location_id r)
         \<or> rsv_deleted_at r \<noteq> None \<or> rsv_quantity r \<le> 0 \<or> rsv_id r \<in> seen)) inconsistent_release) (\<lambda>_.
     rbind (ok_or (checked_i64 ((case map_of (pool_claims pool) (rsv_location_id r) of None \<Rightarrow> 0 | Some n \<Rightarrow> n)
         + rsv_quantity r)) inconsistent_release) (\<lambda>claims.
     let seen = insert (rsv_id r) seen;
         pool = pool\<lparr>pool_claims := btree_insert (rsv_location_id r) claims (pool_claims pool)\<rparr> in
     if rsv_external_id r \<noteq> None \<or> rsv_line_item_id r \<noteq> None then inspect_rows env item variant rs (seen, pool)
     else if json_str (json_get ''source'' (rsv_metadata r)) \<noteq> Some ''legacy_inventory_service''
     then inspect_rows env item variant rs (seen, pool)
     else
       rbind (ensure (\<not> (Option.bind (json_str (json_get ''variant_id'' (rsv_metadata r))) (inv_parse_uuid env) \<noteq> Some variant
           \<or> has_terminal_disposition (rsv_metadata r))) inconsistent_release) (\<lambda>_.
       if carries_identity (rsv_metadata r) then inspect_rows env item variant rs (seen, pool)
       else
         rbind (ok_or (checked_i64 (pool_tracked pool + rsv_quantity r)) inconsistent_release) (\<lambda>tracked.
         inspect_rows env item variant rs
           (seen, pool\<lparr>pool_eligible := pool_eligible pool @ [r], pool_tracked := tracked\<rparr>)))))"

definition inspect_anonymous_pool ::
    "inv_env \<Rightarrow> uuid \<Rightarrow> uuid \<Rightarrow> reservation list \<Rightarrow> commerce_error + anonymous_pool" where
  "inspect_anonymous_pool env item variant rows =
     rbind (ensure (\<not> (is_nil item \<or> is_nil variant)) inconsistent_release) (\<lambda>_.
     rbind (ensure (\<not> QUANTITY_RESERVATION_ROW_LIMIT < length rows) (CommerceValidation (''Quantity release exceeds the ''
         @ show_nat QUANTITY_RESERVATION_ROW_LIMIT
         @ '' anonymous pool row bound; reconcile saved anonymous allocations without guessing identities''))) (\<lambda>_.
     inspect_rows env item variant (sort_key rsv_created_at (sort_key rsv_id rows))
       ({}, \<lparr>pool_eligible = [], pool_tracked = 0, pool_claims = []\<rparr>)))"

definition admit_new_reservation :: "inv_env \<Rightarrow> uuid \<Rightarrow> uuid \<Rightarrow> reservation list \<Rightarrow> commerce_error + unit" where
  "admit_new_reservation env item variant rows =
     rbind (ensure (\<not> QUANTITY_RESERVATION_ROW_LIMIT \<le> length rows) (CommerceValidation (''Anonymous reservation pool is at its ''
         @ show_nat QUANTITY_RESERVATION_ROW_LIMIT
         @ '' row bound; release existing anonymous quantities or use the identity port for new allocations''))) (\<lambda>_.
     rbind (inspect_anonymous_pool env item variant rows) (\<lambda>_. Inr ()))"

subsection \<open>Reserving\<close>

record reservation_result =
  rw_reserved_quantity :: int
  rw_available_quantity :: int
  rw_in_stock :: bool

definition reservation_result_of :: "int \<Rightarrow> int \<Rightarrow> string \<Rightarrow> reservation_result" where
  "reservation_result_of quantity available policy =
     \<lparr>rw_reserved_quantity = quantity, rw_available_quantity = available, rw_in_stock = in_stock_of available policy\<rparr>"

text \<open>The answer for a quantity of zero, without any write.\<close>

definition idle_available :: "inv_store \<Rightarrow> variant_row \<Rightarrow> commerce_error + int" where
  "idle_available s v =
     (case find_item s (vr_id v) of
        Some i \<Rightarrow> available_quantity s (ii_id i)
      | None \<Rightarrow> Inr (vr_inventory_quantity v))"

definition ensure_inventory_state ::
    "inv_env \<Rightarrow> inv_store \<Rightarrow> uuid \<Rightarrow> variant_row \<Rightarrow> commerce_error + inv_store \<times> stock_item \<times> stock_location \<times> stock_level" where
  "ensure_inventory_state env s tenant v =
     rbind (map_err CommerceDatabase (ensure_inventory_item env s v)) (\<lambda>(s, i).
     rbind (map_err CommerceDatabase (ensure_default_location env s tenant)) (\<lambda>(s, w).
     rbind (ok_or (List.find (\<lambda>x. sl_id x = sl_id w \<and> sl_tenant_id x = tenant \<and> sl_deleted_at x = None) (inv_locations s))
       (CommerceValidation ''The saved default stock location is missing or archived; no replacement allocation was made'')) (\<lambda>w.
     rbind (map_err CommerceDatabase (ensure_inventory_level env s i w 0)) (\<lambda>(s, l).
     Inr (s, i, w, l)))))"

definition new_reservation_row :: "inv_env \<Rightarrow> stock_item \<Rightarrow> stock_location \<Rightarrow> uuid \<Rightarrow> int \<Rightarrow> reservation" where
  "new_reservation_row env i w variant quantity =
     \<lparr>rsv_id = inv_reservation_id env, rsv_inventory_item_id = ii_id i, rsv_location_id = sl_id w,
      rsv_quantity = quantity, rsv_line_item_id = None, rsv_description = Some ''Legacy inventory reservation'',
      rsv_external_id = None,
      rsv_metadata = JObject [(''source'', JString ''legacy_inventory_service''),
                              (''variant_id'', JString (inv_print_uuid env variant))],
      rsv_created_at = inv_now env, rsv_updated_at = inv_now env, rsv_deleted_at = None\<rparr>"

definition reserves_level :: "stock_level \<Rightarrow> bool \<Rightarrow> int \<Rightarrow> stock_level \<Rightarrow> bool" where
  "reserves_level level backorder quantity l \<longleftrightarrow> il_id l = il_id level
     \<and> (backorder \<or> quantity \<le> il_stocked_quantity l - il_reserved_quantity l)"

definition reserve_on_level ::
    "inv_env \<Rightarrow> inv_store \<Rightarrow> stock_item \<Rightarrow> stock_level \<Rightarrow> bool \<Rightarrow> int \<Rightarrow> commerce_error + inv_store" where
  "reserve_on_level env s i level backorder quantity =
     (case update_one (reserves_level level backorder quantity)
         (\<lambda>l. l\<lparr>il_reserved_quantity := il_reserved_quantity l + quantity, il_updated_at := inv_now env\<rparr>) (inv_levels s) of
        None \<Rightarrow> rbind (available_quantity s (ii_id i)) (\<lambda>available. Inl (InsufficientInventory quantity available))
      | Some ls \<Rightarrow>
          rbind (ensure (list_all (\<lambda>l. il_id l = il_id level \<longrightarrow> 0 \<le> il_incoming_quantity l) ls)
            (CommerceDatabase ''level constraint'')) (\<lambda>_.
          Inr (s\<lparr>inv_levels := ls\<rparr>)))"

definition reserve_in_transaction ::
    "inv_env \<Rightarrow> inv_store \<Rightarrow> port_context \<Rightarrow> uuid \<Rightarrow> variant_row \<Rightarrow> int \<Rightarrow> commerce_error + inv_store \<times> reservation_result" where
  "reserve_in_transaction env s ctx tenant v quantity =
     rbind (ensure_inventory_state env s tenant v) (\<lambda>(s, i, w, level).
     rbind (admit_new_reservation env (ii_id i) (vr_id v) (load_quantity_reservation_rows s (ii_id i))) (\<lambda>_.
     rbind (ensure (\<not> (il_reserved_quantity level < 0 \<or> checked_i32 (il_reserved_quantity level + quantity) = None))
       (CommerceValidation ''Inventory reserved quantity exceeds the supported range or is inconsistent'')) (\<lambda>_.
     rbind (prepare_event env s ctx v) (\<lambda>event.
     rbind (reserve_on_level env s i level (inventory_policy_allows_backorder (vr_inventory_policy v)) quantity) (\<lambda>s.
     rbind (available_quantity s (ii_id i)) (\<lambda>available.
     let r = new_reservation_row env i w (vr_id v) quantity in
     rbind (ensure (reservation_admissible s r) (CommerceDatabase ''reservation constraint'')) (\<lambda>_.
     rbind (ok_or (insert_unique reservation_clash r (inv_reservations s)) (CommerceDatabase ''unique constraint'')) (\<lambda>rs.
     rbind (publish_event env (s\<lparr>inv_reservations := rs\<rparr>) event) (\<lambda>s.
     Inr (s, reservation_result_of quantity available (vr_inventory_policy v)))))))))))"

text \<open>The checks that reserving and releasing share.\<close>

definition movement_tenant :: "inv_env \<Rightarrow> port_context \<Rightarrow> uuid \<Rightarrow> int \<Rightarrow> string \<Rightarrow> commerce_error + uuid" where
  "movement_tenant env ctx variant quantity negative =
     rbind (quantity_tenant env ctx) (\<lambda>tenant.
     rbind (validate_non_nil_uuid tenant ''tenant_id'') (\<lambda>_.
     rbind (validate_non_nil_uuid variant ''variant_id'') (\<lambda>_.
     rbind (ensure (\<not> quantity < 0) (CommerceValidation negative)) (\<lambda>_.
     Inr tenant))))"

definition reserve ::
    "inv_env \<Rightarrow> inv_store \<Rightarrow> port_context \<Rightarrow> uuid \<Rightarrow> int \<Rightarrow> inv_store \<times> (commerce_error + reservation_result)" where
  "reserve env s ctx variant quantity =
     (case rbind (movement_tenant env ctx variant quantity ''Reservation quantity must be non-negative'') (\<lambda>tenant.
           rbind (load_variant s tenant variant) (\<lambda>v.
           if quantity = 0
           then rbind (idle_available s v) (\<lambda>available. Inr (s, reservation_result_of 0 available (vr_inventory_policy v)))
           else reserve_in_transaction env s ctx tenant v quantity)) of
        Inl e \<Rightarrow> (s, Inl e)
      | Inr (s', result) \<Rightarrow> (s', Inr result))"

subsection \<open>Selecting what a release takes\<close>

record selected_release =
  sqr_item_id :: uuid
  sqr_reservations :: "(reservation \<times> int) list"
  sqr_released :: "(uuid \<times> int) list"
  sqr_claims :: "(uuid \<times> int) list"

definition insufficient_reservation_items_release_error :: "int \<Rightarrow> int \<Rightarrow> commerce_error" where
  "insufficient_reservation_items_release_error requested tracked =
     CommerceValidation (''Cannot release '' @ show_int requested @ '' reservation item units; only '' @ show_int tracked
       @ '' are tracked in the proved anonymous quantity pool; use the identity port for keyed allocations'')"

definition insufficient_reserved_release_error :: "int \<Rightarrow> int \<Rightarrow> commerce_error" where
  "insufficient_reserved_release_error requested reserved =
     CommerceValidation (''Cannot release '' @ show_int requested @ '' reserved units; only '' @ show_int reserved
       @ '' are reserved'')"

text \<open>The loop over the eligible rows: what remains to be taken, the new quantities, the sums per location.\<close>

fun select_rows ::
    "reservation list \<Rightarrow> int \<times> (reservation \<times> int) list \<times> (uuid \<times> int) list
     \<Rightarrow> commerce_error + int \<times> (reservation \<times> int) list \<times> (uuid \<times> int) list" where
  "select_rows [] (remaining, chosen, released) = Inr (remaining, chosen, released)"
| "select_rows (r # rs) (remaining, chosen, released) =
     (if remaining = 0 then Inr (remaining, chosen, released)
      else
        let n = min remaining (rsv_quantity r) in
        rbind (ok_or (checked_i32 (remaining - n)) inconsistent_release) (\<lambda>remaining.
        rbind (ok_or (checked_i32 (rsv_quantity r - n)) inconsistent_release) (\<lambda>left.
        rbind (ok_or (checked_i32 ((case map_of released (rsv_location_id r) of None \<Rightarrow> 0 | Some m \<Rightarrow> m) + n))
          inconsistent_release) (\<lambda>here.
        select_rows rs (remaining, chosen @ [(r, left)], btree_insert (rsv_location_id r) here released)))))"

definition select_release ::
    "inv_env \<Rightarrow> uuid \<Rightarrow> uuid \<Rightarrow> int \<Rightarrow> reservation list \<Rightarrow> commerce_error + selected_release" where
  "select_release env item variant quantity rows =
     rbind (ensure (\<not> quantity \<le> 0) inconsistent_release) (\<lambda>_.
     rbind (inspect_anonymous_pool env item variant rows) (\<lambda>pool.
     rbind (ensure (\<not> pool_tracked pool < quantity)
       (insufficient_reservation_items_release_error quantity (pool_tracked pool))) (\<lambda>_.
     rbind (select_rows (pool_eligible pool) (quantity, [], [])) (\<lambda>(remaining, chosen, released).
     rbind (ensure (\<not> remaining \<noteq> 0) inconsistent_release) (\<lambda>_.
     Inr \<lparr>sqr_item_id = item, sqr_reservations = chosen, sqr_released = released, sqr_claims = pool_claims pool\<rparr>)))))"

definition location_ids :: "selected_release \<Rightarrow> uuid list" where
  "location_ids sel = map fst (sqr_released sel)"

subsection \<open>Binding it to the levels\<close>

definition live_claim :: "uuid \<Rightarrow> uuid \<Rightarrow> reservation \<Rightarrow> bool" where
  "live_claim item loc r \<longleftrightarrow> rsv_inventory_item_id r = item \<and> rsv_location_id r = loc \<and> rsv_deleted_at r = None"

definition claimed :: "inv_store \<Rightarrow> uuid \<Rightarrow> uuid \<Rightarrow> int" where
  "claimed s item loc = sum_list (map rsv_quantity (filter (live_claim item loc) (inv_reservations s)))"

definition load_active_reservation_claims ::
    "inv_store \<Rightarrow> uuid \<Rightarrow> uuid list \<Rightarrow> commerce_error + (uuid \<times> int) list" where
  "load_active_reservation_claims s item locs =
     rbind (ensure (\<not> (locs = [] \<or> QUANTITY_RESERVATION_ROW_LIMIT < length locs))
       (CommerceValidation ''Invalid anonymous release location bound'')) (\<lambda>_.
     rbind (ensure (\<not> list_ex (\<lambda>r. list_ex (\<lambda>w. live_claim item w r) locs \<and> rsv_quantity r \<le> 0) (inv_reservations s))
       (CommerceValidation ''Active reservation claim has invalid quantity; reconcile saved history'')) (\<lambda>_.
     Inr (btree_collect (map (\<lambda>w. (w, claimed s item w))
       (filter (\<lambda>w. list_ex (live_claim item w) (inv_reservations s) \<and> claimed s item w \<le> 2147483647) locs)))))"

record release_plan =
  rlp_reservations :: "(reservation \<times> int) list"
  rlp_levels :: "(stock_level \<times> int) list"

fun own_locations ::
    "uuid \<Rightarrow> (uuid \<times> int) list \<Rightarrow> stock_location list \<Rightarrow> (uuid \<times> stock_location) list
     \<Rightarrow> commerce_error + (uuid \<times> stock_location) list" where
  "own_locations tenant released [] owned = Inr owned"
| "own_locations tenant released (w # ws) owned =
     rbind (ensure (\<not> (sl_tenant_id w \<noteq> tenant \<or> map_of released (sl_id w) = None
         \<or> map_of owned (sl_id w) \<noteq> None)) inconsistent_release) (\<lambda>_.
     own_locations tenant released ws (btree_insert (sl_id w) w owned))"

definition bind_level ::
    "selected_release \<Rightarrow> (uuid \<times> stock_location) list \<Rightarrow> (uuid \<times> int) list \<Rightarrow> stock_level \<Rightarrow> uuid set \<Rightarrow> commerce_error + int" where
  "bind_level sel owned held l seen =
     rbind (ok_or (map_of owned (il_location_id l)) inconsistent_release) (\<lambda>w.
     rbind (ok_or (map_of (sqr_released sel) (il_location_id l)) inconsistent_release) (\<lambda>released.
     rbind (ok_or (map_of (sqr_claims sel) (il_location_id l)) inconsistent_release) (\<lambda>selected.
     rbind (ok_or (map_of held (il_location_id l)) inconsistent_release) (\<lambda>current.
     rbind (ensure (\<not> (is_nil (il_id l) \<or> il_inventory_item_id l \<noteq> sqr_item_id sel \<or> il_location_id l \<in> seen
         \<or> il_reserved_quantity l < 0 \<or> il_incoming_quantity l < 0 \<or> current < selected
         \<or> il_reserved_quantity l < current)) inconsistent_release) (\<lambda>_.
     rbind (ok_or (checked_i32 (il_reserved_quantity l - released)) inconsistent_release) (\<lambda>left.
     rbind (ensure (0 \<le> left) inconsistent_release) (\<lambda>_.
     rbind (ensure (\<not> (sl_deleted_at w \<noteq> None
         \<and> (il_stocked_quantity l \<noteq> 0 \<or> left \<noteq> 0 \<or> il_incoming_quantity l \<noteq> 0)))
       (CommerceValidation (''Quantity release would retain nonzero inventory at an archived original location; ''
         @ ''reconcile that allocation without relocation''))) (\<lambda>_.
     Inr left))))))))"

fun bind_each ::
    "selected_release \<Rightarrow> (uuid \<times> stock_location) list \<Rightarrow> (uuid \<times> int) list \<Rightarrow> stock_level list
     \<Rightarrow> uuid set \<times> (stock_level \<times> int) list \<Rightarrow> commerce_error + (stock_level \<times> int) list" where
  "bind_each sel owned held [] (seen, changes) = Inr changes"
| "bind_each sel owned held (l # ls) (seen, changes) =
     rbind (bind_level sel owned held l seen) (\<lambda>left.
     bind_each sel owned held ls (insert (il_location_id l) seen, changes @ [(l, left)]))"

definition bind_levels ::
    "selected_release \<Rightarrow> uuid \<Rightarrow> stock_location list \<Rightarrow> stock_level list \<Rightarrow> (uuid \<times> int) list
     \<Rightarrow> commerce_error + release_plan" where
  "bind_levels sel tenant locations levels held =
     (let expected = length (sqr_released sel) in
      rbind (ensure (\<not> (is_nil tenant \<or> length locations \<noteq> expected \<or> length levels \<noteq> expected
          \<or> length held \<noteq> expected)) inconsistent_release) (\<lambda>_.
      rbind (own_locations tenant (sqr_released sel) locations []) (\<lambda>owned.
      rbind (bind_each sel owned held levels ({}, [])) (\<lambda>changes.
      Inr \<lparr>rlp_reservations = sqr_reservations sel,
           rlp_levels = sort_key (\<lambda>c. il_location_id (fst c)) (sort_key (\<lambda>c. il_id (fst c)) changes)\<rparr>))))"

subsection \<open>Applying it\<close>

definition releases_row :: "reservation \<Rightarrow> reservation \<Rightarrow> bool" where
  "releases_row row r \<longleftrightarrow> rsv_id r = rsv_id row \<and> rsv_inventory_item_id r = rsv_inventory_item_id row
     \<and> rsv_location_id r = rsv_location_id row \<and> rsv_quantity r = rsv_quantity row \<and> rsv_deleted_at r = None
     \<and> rsv_external_id r = None \<and> rsv_line_item_id r = None"

definition released_row :: "inv_env \<Rightarrow> int \<Rightarrow> reservation \<Rightarrow> reservation" where
  "released_row env left r =
     (let r = r\<lparr>rsv_quantity := left, rsv_updated_at := inv_now env\<rparr> in
      if left = 0 then r\<lparr>rsv_deleted_at := Some (inv_now env)\<rparr> else r)"

definition reserve_level :: "inv_env \<Rightarrow> int \<Rightarrow> stock_level \<Rightarrow> stock_level" where
  "reserve_level env left l = l\<lparr>il_reserved_quantity := left, il_updated_at := inv_now env\<rparr>"

interpretation reservation_rows: keyed_rows rsv_id releases_row "released_row env"
  by unfold_locales (simp_all add: releases_row_def released_row_def Let_def)

interpretation level_rows: keyed_rows il_id same_counters "reserve_level env"
  by unfold_locales (simp_all add: same_counters_def reserve_level_def)

definition apply_release :: "inv_env \<Rightarrow> inv_store \<Rightarrow> release_plan \<Rightarrow> commerce_error + inv_store" where
  "apply_release env s p =
     rbind (update_each releases_row (released_row env) inconsistent_release (rlp_reservations p) (inv_reservations s)) (\<lambda>rs.
     rbind (update_each same_counters (reserve_level env) inconsistent_release (rlp_levels p) (inv_levels s)) (\<lambda>ls.
     Inr (s\<lparr>inv_reservations := rs, inv_levels := ls\<rparr>)))"

record release_result =
  rlr_released_quantity :: int
  rlr_available_quantity :: int
  rlr_in_stock :: bool

definition release_result_of :: "int \<Rightarrow> int \<Rightarrow> string \<Rightarrow> release_result" where
  "release_result_of quantity available policy =
     \<lparr>rlr_released_quantity = quantity, rlr_available_quantity = available, rlr_in_stock = in_stock_of available policy\<rparr>"

definition release_in_transaction ::
    "inv_env \<Rightarrow> inv_store \<Rightarrow> port_context \<Rightarrow> uuid \<Rightarrow> variant_row \<Rightarrow> int \<Rightarrow> commerce_error + inv_store \<times> release_result" where
  "release_in_transaction env s ctx tenant v quantity =
     rbind (ok_or (find_item s (vr_id v)) (insufficient_reserved_release_error quantity 0)) (\<lambda>i.
     rbind (select_release env (ii_id i) (vr_id v) quantity (load_quantity_reservation_rows s (ii_id i))) (\<lambda>sel.
     let ids = location_ids sel;
         locations = take (QUANTITY_RESERVATION_ROW_LIMIT + 1)
           (sort_key sl_id (filter (\<lambda>w. sl_tenant_id w = tenant \<and> sl_id w \<in> set ids) (inv_locations s)));
         levels = take (QUANTITY_RESERVATION_ROW_LIMIT + 1) (sort_key il_location_id (sort_key il_id
           (filter (\<lambda>l. il_inventory_item_id l = ii_id i \<and> il_location_id l \<in> set ids) (inv_levels s)))) in
     rbind (ensure (\<not> length locations \<noteq> length ids) (CommerceValidation
       (''Anonymous reservation original location is missing or outside the tenant; reconcile without relocation''))) (\<lambda>_.
     rbind (load_active_reservation_claims s (ii_id i) ids) (\<lambda>held.
     rbind (bind_levels sel tenant locations levels held) (\<lambda>plan.
     rbind (prepare_event env s ctx v) (\<lambda>event.
     rbind (apply_release env s plan) (\<lambda>s.
     rbind (available_quantity s (ii_id i)) (\<lambda>available.
     rbind (publish_event env s event) (\<lambda>s.
     Inr (s, release_result_of quantity available (vr_inventory_policy v)))))))))))"

definition release_reservation_quantity ::
    "inv_env \<Rightarrow> inv_store \<Rightarrow> port_context \<Rightarrow> uuid \<Rightarrow> int \<Rightarrow> inv_store \<times> (commerce_error + release_result)" where
  "release_reservation_quantity env s ctx variant quantity =
     (case rbind (movement_tenant env ctx variant quantity ''Reservation release quantity must be non-negative'') (\<lambda>tenant.
           rbind (load_variant s tenant variant) (\<lambda>v.
           if quantity = 0
           then rbind (idle_available s v) (\<lambda>available. Inr (s, release_result_of 0 available (vr_inventory_policy v)))
           else release_in_transaction env s ctx tenant v quantity)) of
        Inl e \<Rightarrow> (s, Inl e)
      | Inr (s', result) \<Rightarrow> (s', Inr result))"

end
