(* ===== verification/Inventory_Baseline.thy ===== *)
theory Inventory_Baseline
  imports Inventory_Reservation Permissions
begin

text \<open>
  Declaring and building the baseline of the source journal
  (\<open>rustok-inventory/src/source_history/baseline.rs\<close>, with the request checks of \<open>mod.rs\<close>). A baseline
  is declared empty and then advanced page by page over the variants of the tenant; the last page
  activates it. A page holds the exclusive form of the lock whose shared form every writer of the journal
  takes, so a page is a function of the store. A call has a time budget: what the clock does to it is the
  argument \<open>timing\<close>.
\<close>

subsection \<open>Requests\<close>

definition source_scope :: "inv_env \<Rightarrow> port_context \<Rightarrow> bool \<Rightarrow> source_error + uuid \<times> uuid" where
  "source_scope env ctx write =
     rbind (map_err (\<lambda>_. SrcInvalidRequest) (require_policy ctx (if write then policy_write else policy_read))) (\<lambda>_.
     rbind (ok_or (inv_parse_uuid env (ctx_tenant_id ctx)) SrcInvalidRequest) (\<lambda>tenant.
     rbind (ok_or (inv_parse_uuid env (actor_id (ctx_actor ctx))) SrcInvalidRequest) (\<lambda>actor.
     rbind (ensure (\<not> (is_nil tenant \<or> is_nil actor
         \<or> \<not> (actor_kind (ctx_actor ctx) = ActorUser \<or> actor_kind (ctx_actor ctx) = ActorService)
         \<or> (case deadline_ms ctx of None \<Rightarrow> True | Some ms \<Rightarrow> ms = 0 \<or> 30000 < ms))) SrcInvalidRequest) (\<lambda>_.
     let manage = permission_display (permission_new Inventory Manage);
         read = permission_display (permission_new Inventory Read) in
     rbind (ensure (list_ex (\<lambda>c. c = manage \<or> \<not> write \<and> c = read) (claims ctx)) SrcForbidden) (\<lambda>_.
     Inr (tenant, actor))))))"

definition page_limit :: "nat \<Rightarrow> source_error + unit" where
  "page_limit limit = ensure (1 \<le> limit \<and> int limit \<le> MAX_SOURCE_PAGE) SrcLimitExceeded"

record baseline_progress =
  bp_tenant_id :: uuid
  bp_baseline_id :: uuid
  bp_active :: bool
  bp_after_variant_id :: "uuid option"
  bp_record_count :: int
  bp_last_page_id :: "uuid option"

record baseline_page_request =
  pr_baseline_id :: uuid
  pr_page_id :: uuid
  pr_after_variant_id :: "uuid option"
  pr_limit :: nat

text \<open>
  The work ends in time, or the budget runs out while the transaction begins, during the work, after it,
  or during the commit, of which the caller does not learn whether it happened.
\<close>

datatype call_timing = InTime | BeginLate | WorkLate | BudgetSpent | CommitLate bool

definition run_budgeted ::
    "call_timing \<Rightarrow> inv_store \<Rightarrow> source_error + inv_store \<times> 'a \<Rightarrow> inv_store \<times> (source_error + 'a)" where
  "run_budgeted timing s work =
     (if timing = BeginLate \<or> timing = WorkLate then (s, Inl SrcDeadlineExceeded)
      else
        case work of
          Inl e \<Rightarrow> (s, Inl e)
        | Inr (s', p) \<Rightarrow>
            (case timing of
               InTime \<Rightarrow> (s', Inr p)
             | CommitLate landed \<Rightarrow> (if landed then s' else s, Inl SrcDeadlineExceeded)
             | _ \<Rightarrow> (s, Inl SrcDeadlineExceeded)))"

definition read_budget :: "call_timing \<Rightarrow> source_error + 'a \<Rightarrow> source_error + 'a" where
  "read_budget timing answer = (if timing = InTime then answer else Inl SrcDeadlineExceeded)"

subsection \<open>Declaring a baseline\<close>

definition baseline_progress_of :: "source_baseline \<Rightarrow> source_error + baseline_progress" where
  "baseline_progress_of b =
     rbind (ensure (0 \<le> bl_record_count b) SrcStateUnverified) (\<lambda>_.
     Inr \<lparr>bp_tenant_id = bl_tenant_id b, bp_baseline_id = bl_baseline_id b, bp_active = bl_active b,
          bp_after_variant_id = bl_last_variant_id b, bp_record_count = bl_record_count b,
          bp_last_page_id = bl_last_page_id b\<rparr>)"

definition source_baseline_clash :: "source_baseline \<Rightarrow> source_baseline \<Rightarrow> bool" where
  "source_baseline_clash a b \<longleftrightarrow> bl_tenant_id a = bl_tenant_id b \<or> bl_baseline_id a = bl_baseline_id b"

definition source_page_clash :: "source_page \<Rightarrow> source_page \<Rightarrow> bool" where
  "source_page_clash a b \<longleftrightarrow> pg_tenant_id a = pg_tenant_id b \<and> pg_page_id a = pg_page_id b"

interpretation source_baseline_table: unique_table source_baseline_clash
  by unfold_locales (auto simp: source_baseline_clash_def)

interpretation source_page_table: unique_table source_page_clash
  by unfold_locales (auto simp: source_page_clash_def)

definition new_baseline :: "uuid \<Rightarrow> uuid \<Rightarrow> uuid \<Rightarrow> source_baseline" where
  "new_baseline tenant actor i =
     \<lparr>bl_tenant_id = tenant, bl_baseline_id = i, bl_actor_id = actor, bl_active = False, bl_last_variant_id = None,
      bl_record_count = 0, bl_last_page_id = None, bl_last_page_after = None, bl_last_page_limit = None\<rparr>"

definition start_in ::
    "inv_env \<Rightarrow> inv_store \<Rightarrow> uuid \<Rightarrow> uuid \<Rightarrow> uuid \<Rightarrow> source_error + inv_store \<times> baseline_progress" where
  "start_in env s tenant actor i =
     rbind (source_gate env tenant) (\<lambda>_.
     rbind (saved_baseline s tenant) (\<lambda>saved.
     case saved of
       Some b \<Rightarrow>
         rbind (ensure (\<not> (bl_baseline_id b \<noteq> i \<or> bl_actor_id b \<noteq> actor)) SrcConflict) (\<lambda>_.
         rbind (baseline_progress_of b) (\<lambda>p. Inr (s, p)))
     | None \<Rightarrow>
         rbind (ensure (\<not> stranded s tenant) SrcStateUnverified) (\<lambda>_.
         rbind (ok_or (insert_unique source_baseline_clash (new_baseline tenant actor i) (src_baselines s))
           (SrcDatabase ''unique constraint'')) (\<lambda>bs.
         let s = s\<lparr>src_baselines := bs\<rparr> in
         rbind (saved_baseline s tenant) (\<lambda>saved.
         rbind (ok_or saved SrcStateUnverified) (\<lambda>b.
         rbind (baseline_progress_of b) (\<lambda>p. Inr (s, p))))))))"

definition start_baseline ::
    "inv_env \<Rightarrow> call_timing \<Rightarrow> inv_store \<Rightarrow> port_context \<Rightarrow> uuid \<Rightarrow> inv_store \<times> (source_error + baseline_progress)" where
  "start_baseline env timing s ctx i =
     (case rbind (source_scope env ctx True) (\<lambda>(tenant, actor).
           rbind (ensure (\<not> is_nil i) SrcInvalidRequest) (\<lambda>_. Inr (tenant, actor))) of
        Inl e \<Rightarrow> (s, Inl e)
      | Inr (tenant, actor) \<Rightarrow> run_budgeted timing s (start_in env s tenant actor i))"

subsection \<open>Advancing it by a page\<close>

text \<open>The snapshots of the variants of a page, within one bound on their levels together.\<close>

fun snapshot_each ::
    "inv_env \<Rightarrow> inv_store \<Rightarrow> uuid \<Rightarrow> nat \<Rightarrow> uuid list \<Rightarrow> source_error + source_snapshot list" where
  "snapshot_each env s tenant levels [] = Inr []"
| "snapshot_each env s tenant levels (v # vs) =
     rbind (ensure (levels \<le> MAX_SOURCE_LEVELS) SrcLimitExceeded) (\<lambda>_.
     rbind (load_snapshot env s tenant v (MAX_SOURCE_LEVELS - levels)) (\<lambda>snap.
     rbind (ensure (\<not> MAX_SOURCE_LEVELS < levels + ss_level_count snap) SrcLimitExceeded) (\<lambda>_.
     rbind (snapshot_each env s tenant (levels + ss_level_count snap) vs) (\<lambda>snaps.
     Inr (snap # snaps)))))"

text \<open>Each insertion generates the identity of its change.\<close>

fun insert_each ::
    "inv_env \<Rightarrow> (nat \<Rightarrow> uuid) \<Rightarrow> inv_store \<Rightarrow> uuid \<Rightarrow> uuid \<Rightarrow> source_snapshot list \<Rightarrow> source_error + inv_store" where
  "insert_each env ids s tenant baseline [] = Inr s"
| "insert_each env ids s tenant baseline (snap # snaps) =
     rbind (insert_record (env\<lparr>src_change_id := ids 0\<rparr>) s tenant baseline snap ''baseline'') (\<lambda>s.
     insert_each env (\<lambda>n. ids (Suc n)) s tenant baseline snaps)"

text \<open>The variants of a page and one more.\<close>

definition page_variants :: "inv_store \<Rightarrow> uuid \<Rightarrow> uuid option \<Rightarrow> nat \<Rightarrow> uuid list" where
  "page_variants s tenant after limit =
     take (limit + 1) (sort (map vr_id (filter (\<lambda>v. vr_tenant_id v = tenant
       \<and> (case after of None \<Rightarrow> True | Some a \<Rightarrow> a < vr_id v)) (inv_variants s))))"

definition replay_page :: "uuid \<Rightarrow> baseline_page_request \<Rightarrow> source_page \<Rightarrow> source_error + baseline_progress" where
  "replay_page tenant request p =
     rbind (ensure (\<not> (pg_baseline_id p \<noteq> pr_baseline_id request \<or> pg_after_variant_id p \<noteq> pr_after_variant_id request
         \<or> pg_page_limit p \<noteq> int (pr_limit request))) SrcConflict) (\<lambda>_.
     rbind (ensure (\<not> (pg_record_count p < 0 \<or> pg_next_after p = Some 0)) SrcStateUnverified) (\<lambda>_.
     Inr \<lparr>bp_tenant_id = tenant, bp_baseline_id = pg_baseline_id p, bp_active = pg_active p,
          bp_after_variant_id = pg_next_after p, bp_record_count = pg_record_count p,
          bp_last_page_id = Some (pg_page_id p)\<rparr>))"

definition new_page :: "uuid \<Rightarrow> baseline_page_request \<Rightarrow> uuid option \<Rightarrow> bool \<Rightarrow> int \<Rightarrow> source_page" where
  "new_page tenant request after further n =
     \<lparr>pg_tenant_id = tenant, pg_page_id = pr_page_id request, pg_baseline_id = pr_baseline_id request,
      pg_after_variant_id = pr_after_variant_id request, pg_page_limit = int (pr_limit request), pg_next_after = after,
      pg_active = (\<not> further), pg_record_count = n\<rparr>"

definition advances_baseline :: "source_baseline \<Rightarrow> uuid \<Rightarrow> baseline_page_request \<Rightarrow> source_baseline \<Rightarrow> bool" where
  "advances_baseline saved tenant request b \<longleftrightarrow>
     bl_tenant_id b = tenant \<and> bl_baseline_id b = pr_baseline_id request \<and> \<not> bl_active b
     \<and> bl_record_count b = bl_record_count saved \<and> bl_last_variant_id b = bl_last_variant_id saved"

definition advanced_baseline ::
    "baseline_page_request \<Rightarrow> uuid option \<times> bool \<times> int \<Rightarrow> source_baseline \<Rightarrow> source_baseline" where
  "advanced_baseline request = (\<lambda>(after, further, n) b.
     b\<lparr>bl_active := \<not> further, bl_last_variant_id := after, bl_record_count := n,
       bl_last_page_id := Some (pr_page_id request), bl_last_page_after := pr_after_variant_id request,
       bl_last_page_limit := Some (int (pr_limit request))\<rparr>)"

definition copy_page ::
    "inv_env \<Rightarrow> (nat \<Rightarrow> uuid) \<Rightarrow> inv_store \<Rightarrow> uuid \<Rightarrow> uuid option \<Rightarrow> baseline_page_request \<Rightarrow> source_baseline
     \<Rightarrow> source_error + inv_store \<times> baseline_progress" where
  "copy_page env ids s tenant publisher request saved =
     (let found = page_variants s tenant (pr_after_variant_id request) (pr_limit request);
          further = pr_limit request < length found;
          vs = take (pr_limit request) found;
          after = (if vs = [] then bl_last_variant_id saved else Some (last vs)) in
      rbind (snapshot_each env s tenant 0 vs) (\<lambda>snaps.
      rbind (insert_each env ids s tenant (pr_baseline_id request) snaps) (\<lambda>s.
      rbind (ok_or (checked_i64 (bl_record_count saved + int (length vs))) SrcLimitExceeded) (\<lambda>n.
      rbind (ok_or (insert_unique source_page_clash (new_page tenant request after further n) (src_pages s))
        (SrcDatabase ''unique constraint'')) (\<lambda>ps.
      rbind (ok_or (update_one (advances_baseline saved tenant request) (advanced_baseline request (after, further, n))
          (src_baselines s)) SrcStateUnverified) (\<lambda>bs.
      let s = s\<lparr>src_pages := ps, src_baselines := bs\<rparr> in
      rbind (saved_baseline s tenant) (\<lambda>b.
      rbind (ok_or b SrcStateUnverified) (\<lambda>b.
      rbind (if bl_active b then publish_activated s tenant publisher (bl_baseline_id b) else Inr s) (\<lambda>s.
      rbind (baseline_progress_of b) (\<lambda>p.
      Inr (s, p)))))))))))"

definition advance_in ::
    "inv_env \<Rightarrow> (nat \<Rightarrow> uuid) \<Rightarrow> inv_store \<Rightarrow> uuid \<Rightarrow> uuid \<Rightarrow> uuid option \<Rightarrow> baseline_page_request
     \<Rightarrow> source_error + inv_store \<times> baseline_progress" where
  "advance_in env ids s tenant actor publisher request =
     rbind (source_gate env tenant) (\<lambda>_.
     rbind (saved_baseline s tenant) (\<lambda>saved.
     rbind (ok_or saved SrcBaselineUnavailable) (\<lambda>saved.
     rbind (ensure (\<not> (bl_baseline_id saved \<noteq> pr_baseline_id request \<or> bl_actor_id saved \<noteq> actor)) SrcConflict) (\<lambda>_.
     case List.find (\<lambda>p. pg_tenant_id p = tenant \<and> pg_page_id p = pr_page_id request) (src_pages s) of
       Some p \<Rightarrow> rbind (replay_page tenant request p) (\<lambda>p. Inr (s, p))
     | None \<Rightarrow>
         rbind (ensure (\<not> (bl_active saved \<or> bl_last_variant_id saved \<noteq> pr_after_variant_id request)) SrcConflict) (\<lambda>_.
         copy_page env ids s tenant publisher request saved)))))"

definition advance_baseline ::
    "inv_env \<Rightarrow> (nat \<Rightarrow> uuid) \<Rightarrow> call_timing \<Rightarrow> inv_store \<Rightarrow> port_context \<Rightarrow> baseline_page_request
     \<Rightarrow> inv_store \<times> (source_error + baseline_progress)" where
  "advance_baseline env ids timing s ctx request =
     (case rbind (source_scope env ctx True) (\<lambda>(tenant, actor).
           rbind (map_err (\<lambda>_. SrcInvalidRequest) (event_actor_id env ctx)) (\<lambda>publisher.
           rbind (page_limit (pr_limit request)) (\<lambda>_.
           rbind (ensure (\<not> (is_nil (pr_baseline_id request) \<or> is_nil (pr_page_id request)
               \<or> pr_after_variant_id request = Some 0)) SrcInvalidRequest) (\<lambda>_.
           Inr (tenant, actor, publisher))))) of
        Inl e \<Rightarrow> (s, Inl e)
      | Inr (tenant, actor, publisher) \<Rightarrow> run_budgeted timing s (advance_in env ids s tenant actor publisher request))"

definition baseline_status ::
    "inv_env \<Rightarrow> call_timing \<Rightarrow> inv_store \<Rightarrow> port_context \<Rightarrow> source_error + baseline_progress option" where
  "baseline_status env timing s ctx =
     rbind (source_scope env ctx False) (\<lambda>(tenant, _).
     read_budget timing
       (rbind (saved_baseline s tenant) (\<lambda>saved.
        case saved of None \<Rightarrow> Inr None | Some b \<Rightarrow> rbind (baseline_progress_of b) (\<lambda>p. Inr (Some p)))))"

end
