(* ===== verification/Inventory_Reader.thy ===== *)
theory Inventory_Reader
  imports Inventory_Baseline
begin

text \<open>
  Reading the source journal (\<open>rustok-inventory/src/source_history/reader.rs\<close>): records by variant,
  a scan in pages, and the changes of one variant. Every row is checked against the change it names. The
  queries of a read run outside of a transaction, each on the store of its moment: \<open>s\<close> for the baseline (its
  page receipt never changes once written), \<open>t\<close> for the rows, \<open>u\<close> for the changes they name.
\<close>

record source_view =
  sv_tenant_id :: uuid
  sv_baseline_id :: uuid
  sv_variant_id :: uuid
  sv_product_id :: uuid
  sv_inventory_item_id :: uuid
  sv_source_version :: int
  sv_deleted :: bool
  sv_stocked :: int
  sv_reserved :: int
  sv_incoming :: int
  sv_available :: int
  sv_change_id :: uuid

record source_view_page =
  svp_baseline_id :: uuid
  svp_records :: "source_view list"
  svp_next_after :: "uuid option"

record change_view =
  cv_change_id :: uuid
  cv_tenant_id :: uuid
  cv_baseline_id :: uuid
  cv_variant_id :: uuid
  cv_source_version :: int
  cv_kind :: string

definition active_baseline :: "inv_store \<Rightarrow> uuid \<Rightarrow> uuid \<Rightarrow> source_error + unit" where
  "active_baseline s tenant baseline =
     rbind (ensure (\<not> is_nil baseline) SrcInvalidRequest) (\<lambda>_.
     rbind (saved_baseline s tenant) (\<lambda>saved.
     rbind (ok_or saved SrcBaselineUnavailable) (\<lambda>b.
     rbind (ensure (bl_active b) SrcBaselineUnavailable) (\<lambda>_.
     ensure (bl_baseline_id b = baseline) SrcConflict))))"

definition view_of :: "uuid \<Rightarrow> uuid \<Rightarrow> source_record \<Rightarrow> int \<Rightarrow> source_view" where
  "view_of tenant baseline r available =
     \<lparr>sv_tenant_id = tenant, sv_baseline_id = baseline, sv_variant_id = sr_variant_id r, sv_product_id = sr_product_id r,
      sv_inventory_item_id = sr_inventory_item_id r, sv_source_version = sr_source_version r, sv_deleted = sr_deleted r,
      sv_stocked = sr_stocked r, sv_reserved = sr_reserved r, sv_incoming = sr_incoming r, sv_available = available,
      sv_change_id = sr_last_change_id r\<rparr>"

fun validate_each :: "uuid \<Rightarrow> uuid \<Rightarrow> source_record list \<Rightarrow> source_error + unit" where
  "validate_each tenant baseline [] = Inr ()"
| "validate_each tenant baseline (r # rs) =
     rbind (validate_record r tenant baseline) (\<lambda>_. validate_each tenant baseline rs)"

text \<open>A change that was read serves one row only.\<close>

fun view_each ::
    "uuid \<Rightarrow> uuid \<Rightarrow> (uuid \<times> source_change) list \<Rightarrow> source_record list \<Rightarrow> source_error + source_view list" where
  "view_each tenant baseline heads [] = Inr []"
| "view_each tenant baseline heads (r # rs) =
     rbind (ok_or (map_of heads (sr_last_change_id r)) SrcStateUnverified) (\<lambda>c.
     rbind (validate_change c tenant baseline) (\<lambda>_.
     rbind (ensure (\<not> (sch_variant_id c \<noteq> sr_variant_id r \<or> sch_source_version c \<noteq> sr_source_version r
         \<or> sr_deleted r \<noteq> (sch_kind c = ''deleted''))) SrcStateUnverified) (\<lambda>_.
     rbind (ok_or (checked_i64 (sr_stocked r - sr_reserved r)) SrcStateUnverified) (\<lambda>available.
     rbind (view_each tenant baseline (filter (\<lambda>(k, _). k \<noteq> sr_last_change_id r) heads) rs) (\<lambda>views.
     Inr (view_of tenant baseline r available # views))))))"

definition checked_rows ::
    "inv_store \<Rightarrow> source_record list \<Rightarrow> uuid \<Rightarrow> uuid \<Rightarrow> source_error + source_view list" where
  "checked_rows u rows tenant baseline =
     (if rows = [] then Inr []
      else
        rbind (validate_each tenant baseline rows) (\<lambda>_.
        let named = sr_last_change_id ` set rows;
            heads = filter (\<lambda>c. sch_tenant_id c = tenant \<and> sch_change_id c \<in> named) (src_changes u) in
        view_each tenant baseline (btree_collect (map (\<lambda>c. (sch_change_id c, c)) heads)) rows))"

text \<open>The answer in the order of the request, each view taken once.\<close>

fun take_views :: "(uuid \<times> source_view) list \<Rightarrow> uuid list \<Rightarrow> source_error + source_view list" where
  "take_views views [] = Inr []"
| "take_views views (v # vs) =
     rbind (ok_or (map_of views v) SrcStateUnverified) (\<lambda>w.
     rbind (take_views (filter (\<lambda>(k, _). k \<noteq> v) views) vs) (\<lambda>ws. Inr (w # ws)))"

fun source_load ::
    "inv_env \<Rightarrow> call_timing \<Rightarrow> inv_store \<times> inv_store \<times> inv_store \<Rightarrow> port_context \<Rightarrow> uuid \<Rightarrow> uuid list \<Rightarrow> source_error + source_view list" where
  "source_load env timing (s, t, u) ctx baseline variants =
     rbind (source_scope env ctx False) (\<lambda>(tenant, _).
     rbind (page_limit (length variants)) (\<lambda>_.
     rbind (ensure (\<not> (\<not> distinct variants \<or> 0 \<in> set variants)) SrcInvalidRequest) (\<lambda>_.
     read_budget timing
       (rbind (active_baseline s tenant baseline) (\<lambda>_.
        let rows = filter (\<lambda>r. sr_tenant_id r = tenant \<and> sr_variant_id r \<in> set variants) (src_records t) in
        rbind (ensure (length rows = length variants) SrcStateUnverified) (\<lambda>_.
        rbind (checked_rows u rows tenant baseline) (\<lambda>views.
        take_views (btree_collect (map (\<lambda>w. (sv_variant_id w, w)) views)) variants)))))))"

fun source_scan ::
    "inv_env \<Rightarrow> call_timing \<Rightarrow> inv_store \<times> inv_store \<times> inv_store \<Rightarrow> port_context \<Rightarrow> uuid \<Rightarrow> uuid option \<Rightarrow> nat
     \<Rightarrow> source_error + source_view_page" where
  "source_scan env timing (s, t, u) ctx baseline after limit =
     rbind (source_scope env ctx False) (\<lambda>(tenant, _).
     rbind (page_limit limit) (\<lambda>_.
     rbind (ensure (after \<noteq> Some 0) SrcInvalidRequest) (\<lambda>_.
     read_budget timing
       (rbind (active_baseline s tenant baseline) (\<lambda>_.
        let found = take (limit + 1) (sort_key sr_variant_id (filter (\<lambda>r. sr_tenant_id r = tenant
              \<and> (case after of None \<Rightarrow> True | Some a \<Rightarrow> a < sr_variant_id r)) (src_records t)));
            rows = take limit found in
        rbind (checked_rows u rows tenant baseline) (\<lambda>views.
        rbind (if limit < length found
               then (if views = [] then Inl SrcStateUnverified else Inr (Some (sv_variant_id (last views))))
               else Inr None) (\<lambda>next_after.
        Inr \<lparr>svp_baseline_id = baseline, svp_records = views, svp_next_after = next_after\<rparr>)))))))"

fun change_views :: "uuid \<Rightarrow> uuid \<Rightarrow> uuid \<Rightarrow> source_change list \<Rightarrow> source_error + change_view list" where
  "change_views tenant baseline variant [] = Inr []"
| "change_views tenant baseline variant (c # cs) =
     rbind (validate_change c tenant baseline) (\<lambda>_.
     rbind (ensure (sch_variant_id c = variant) SrcStateUnverified) (\<lambda>_.
     rbind (change_views tenant baseline variant cs) (\<lambda>views.
     Inr (\<lparr>cv_change_id = sch_change_id c, cv_tenant_id = tenant, cv_baseline_id = baseline, cv_variant_id = variant,
           cv_source_version = sch_source_version c, cv_kind = sch_kind c\<rparr> # views))))"

fun source_changes ::
    "inv_env \<Rightarrow> call_timing \<Rightarrow> inv_store \<times> inv_store \<Rightarrow> port_context \<Rightarrow> uuid \<Rightarrow> uuid \<Rightarrow> nat \<Rightarrow> nat
     \<Rightarrow> source_error + change_view list" where
  "source_changes env timing (s, t) ctx baseline variant after limit =
     rbind (source_scope env ctx False) (\<lambda>(tenant, _).
     rbind (page_limit limit) (\<lambda>_.
     rbind (ensure (\<not> is_nil variant) SrcInvalidRequest) (\<lambda>_.
     rbind (ensure (int after \<le> i64_max) SrcInvalidRequest) (\<lambda>_.
     read_budget timing
       (rbind (active_baseline s tenant baseline) (\<lambda>_.
        change_views tenant baseline variant (take limit (sort_key sch_source_version
          (filter (\<lambda>c. sch_tenant_id c = tenant \<and> sch_variant_id c = variant \<and> int after < sch_source_version c)
            (src_changes t))))))))))"

end
