(* ===== verification/Inventory_Deletion.thy ===== *)
theory Inventory_Deletion
  imports Inventory_Reservation
begin

text \<open>
  Removing the stock records of variants that the catalogue deletes
  (\<open>rustok-inventory/src/services/bootstrap/deletion.rs\<close>). Only empty bookkeeping is removed: whatever
  a reservation, a restocked return or the proof of a shipment refers to stays. The whole batch is proved
  before the first write, and any error rolls the caller's transaction back.
\<close>

subsection \<open>Refusals\<close>

datatype deletion_blocker =
    DInvalidRequest | DLimitExceeded | DIdentityUnavailable | DHistoryPresent | DStockPresent | DStateUnverified
  | DIsolationUnsupported | DConcurrentChange

primrec deletion_message :: "deletion_blocker \<Rightarrow> string" where
  "deletion_message DInvalidRequest =
     ''Inventory deletion requires a nonnil tenant and distinct nonnil SKU identities''"
| "deletion_message DLimitExceeded =
     ''Inventory deletion exceeds its atomic batch bound; use a bounded owner-governed catalog reconciliation''"
| "deletion_message DIdentityUnavailable =
     ''Inventory deletion cannot prove every tenant-owned SKU and inventory identity; reconcile the catalog first''"
| "deletion_message DHistoryPresent =
     ''Saved reservation or stock history must be retained; archive the product instead of deleting its SKUs''"
| "deletion_message DStockPresent =
     ''SKU inventory is not empty; reconcile stocked, reserved and incoming quantities through Inventory or archive the product''"
| "deletion_message DStateUnverified =
     ''Inventory deletion cannot prove the original location and complete level bindings; reconcile without relocating stock''"
| "deletion_message DIsolationUnsupported =
     ''Inventory deletion requires a current-state transaction; PostgreSQL must use READ COMMITTED isolation''"
| "deletion_message DConcurrentChange =
     ''Inventory deletion state changed; reload and reconcile the same catalog command''"

datatype deletion_error = DRejected deletion_blocker | DDatabase string

definition deletion_error_display :: "deletion_error \<Rightarrow> string" where
  "deletion_error_display e =
     (case e of
        DRejected b \<Rightarrow> deletion_message b
      | DDatabase m \<Rightarrow> ''Inventory catalog deletion storage failed: '' @ m)"

definition MAX_CATALOG_DELETE_VARIANTS :: nat where "MAX_CATALOG_DELETE_VARIANTS = 256"
definition MAX_DELETE_LEVELS :: nat where "MAX_DELETE_LEVELS = 4096"

definition validate_deletion :: "uuid \<Rightarrow> uuid list \<Rightarrow> deletion_error + uuid list" where
  "validate_deletion tenant variants =
     rbind (ensure (\<not> (is_nil tenant \<or> 0 \<in> set variants)) (DRejected DInvalidRequest)) (\<lambda>_.
     rbind (ensure (\<not> MAX_CATALOG_DELETE_VARIANTS < length variants) (DRejected DLimitExceeded)) (\<lambda>_.
     rbind (ensure (distinct variants) (DRejected DInvalidRequest)) (\<lambda>_.
     Inr (sort variants))))"

definition deletion_snapshot :: "inv_env \<Rightarrow> deletion_error + unit" where
  "deletion_snapshot env =
     rbind (ok_or (transaction_isolation env) (DRejected DIsolationUnsupported)) (\<lambda>isolation.
     ensure (isolation = ''read committed'') (DRejected DIsolationUnsupported))"

subsection \<open>Proving the batch\<close>

definition deletion_levels :: "inv_store \<Rightarrow> uuid set \<Rightarrow> stock_level list" where
  "deletion_levels s items =
     take (MAX_DELETE_LEVELS + 1) (sort_key il_inventory_item_id (sort_key il_location_id (sort_key il_id
       (filter (\<lambda>l. il_inventory_item_id l \<in> items) (inv_levels s)))))"

definition level_is_empty :: "stock_level \<Rightarrow> bool" where
  "level_is_empty l \<longleftrightarrow> il_stocked_quantity l = 0 \<and> il_reserved_quantity l = 0 \<and> il_incoming_quantity l = 0"

fun validate_levels ::
    "uuid set \<Rightarrow> uuid set \<Rightarrow> stock_level list \<Rightarrow> uuid set \<times> (uuid \<times> uuid) set \<Rightarrow> deletion_error + unit" where
  "validate_levels items locations [] (ids, bindings) = Inr ()"
| "validate_levels items locations (l # ls) (ids, bindings) =
     rbind (ensure (\<not> (is_nil (il_id l) \<or> is_nil (il_inventory_item_id l) \<or> is_nil (il_location_id l)
         \<or> il_inventory_item_id l \<notin> items \<or> il_location_id l \<notin> locations \<or> il_id l \<in> ids
         \<or> (il_inventory_item_id l, il_location_id l) \<in> bindings)) (DRejected DStateUnverified)) (\<lambda>_.
     rbind (ensure (level_is_empty l) (DRejected DStockPresent)) (\<lambda>_.
     validate_levels items locations ls
       (insert (il_id l) ids, insert (il_inventory_item_id l, il_location_id l) bindings)))"

definition has_history :: "inv_store \<Rightarrow> uuid list \<Rightarrow> uuid set \<Rightarrow> bool" where
  "has_history s variants items \<longleftrightarrow>
     list_ex (\<lambda>r. rsv_inventory_item_id r \<in> items) (inv_reservations s)
     \<or> list_ex (\<lambda>i. i \<in> items) (restock_items s)
     \<or> list_ex (\<lambda>(v, _). v \<in> set variants) (proof_refs s) \<or> list_ex (\<lambda>(_, i). i \<in> items) (proof_refs s)"

record deletion_plan =
  dp_items :: "(uuid \<times> uuid) list"
  dp_levels :: "stock_level list"

text \<open>The variants of the tenant among the named ones, and the items of the named ones.\<close>

definition deletion_variants :: "inv_store \<Rightarrow> uuid \<Rightarrow> uuid list \<Rightarrow> uuid list" where
  "deletion_variants s tenant variants =
     take (MAX_CATALOG_DELETE_VARIANTS + 1) (sort (map vr_id
       (filter (\<lambda>v. vr_tenant_id v = tenant \<and> vr_id v \<in> set variants) (inv_variants s))))"

definition deletion_items :: "inv_store \<Rightarrow> uuid list \<Rightarrow> (uuid \<times> uuid) list" where
  "deletion_items s variants =
     map (\<lambda>i. (ii_id i, ii_variant_id i)) (take (MAX_CATALOG_DELETE_VARIANTS + 1)
       (sort_key ii_variant_id (sort_key ii_id (filter (\<lambda>i. ii_variant_id i \<in> set variants) (inv_items s)))))"

definition deletion_locations :: "inv_store \<Rightarrow> uuid \<Rightarrow> uuid set \<Rightarrow> uuid list" where
  "deletion_locations s tenant locs =
     take (MAX_DELETE_LEVELS + 1) (sort (map sl_id
       (filter (\<lambda>w. sl_tenant_id w = tenant \<and> sl_id w \<in> locs) (inv_locations s))))"

definition load_deletion ::
    "inv_store \<Rightarrow> inv_store \<Rightarrow> uuid \<Rightarrow> uuid list \<Rightarrow> deletion_error + deletion_plan" where
  "load_deletion seen s tenant variants =
     (let items = deletion_items s variants; ids = fst ` set items in
      rbind (ensure (deletion_variants s tenant variants = variants) (DRejected DIdentityUnavailable)) (\<lambda>_.
      rbind (ensure (\<not> (length items \<noteq> length variants \<or> \<not> distinct (map fst items) \<or> 0 \<in> ids
          \<or> map snd items \<noteq> variants)) (DRejected DIdentityUnavailable)) (\<lambda>_.
      rbind (ensure (\<not> has_history s variants ids) (DRejected DHistoryPresent)) (\<lambda>_.
      let discovered = deletion_levels seen ids in
      rbind (ensure (\<not> MAX_DELETE_LEVELS < length discovered) (DRejected DLimitExceeded)) (\<lambda>_.
      let locs = il_location_id ` set discovered in
      rbind (ensure (0 \<notin> locs) (DRejected DStateUnverified)) (\<lambda>_.
      rbind (ensure (deletion_locations s tenant locs = sort (remdups (map il_location_id discovered))) (DRejected DStateUnverified)) (\<lambda>_.
      let levels = deletion_levels s ids;
          binding = (\<lambda>l. (il_inventory_item_id l, il_location_id l, il_id l)) in
      rbind (ensure (\<not> MAX_DELETE_LEVELS < length levels) (DRejected DLimitExceeded)) (\<lambda>_.
      rbind (ensure (map binding levels = map binding discovered) (DRejected DConcurrentChange)) (\<lambda>_.
      rbind (validate_levels ids locs levels ({}, {})) (\<lambda>_.
      Inr \<lparr>dp_items = items, dp_levels = levels\<rparr>))))))))))"

subsection \<open>Applying it\<close>

definition deletes_level :: "stock_level \<Rightarrow> stock_level \<Rightarrow> bool" where
  "deletes_level level l \<longleftrightarrow> il_id l = il_id level \<and> il_inventory_item_id l = il_inventory_item_id level
     \<and> il_location_id l = il_location_id level \<and> level_is_empty l"

definition deletes_item :: "uuid \<times> uuid \<Rightarrow> stock_item \<Rightarrow> bool" where
  "deletes_item = (\<lambda>(item, variant) i. ii_id i = item \<and> ii_variant_id i = variant)"

fun prepare_each ::
    "inv_env \<Rightarrow> inv_store \<Rightarrow> uuid \<Rightarrow> (uuid \<times> uuid) list \<Rightarrow> string + source_record option list" where
  "prepare_each env s tenant [] = Inr []"
| "prepare_each env s tenant ((item, variant) # items) =
     rbind (prepare_deletion env s tenant variant item) (\<lambda>r.
     rbind (prepare_each env s tenant items) (\<lambda>rs. Inr (r # rs)))"

fun record_each ::
    "inv_env \<Rightarrow> (nat \<Rightarrow> uuid) \<Rightarrow> inv_store \<Rightarrow> source_record option list \<Rightarrow> uuid \<Rightarrow> string + inv_store" where
  "record_each env ids s [] actor = Inr s"
| "record_each env ids s (r # rs) actor =
     rbind (record_deleted (env\<lparr>src_change_id := ids 0\<rparr>) s r (Some actor)) (\<lambda>s.
     record_each env (\<lambda>n. ids (Suc n)) s rs actor)"

definition apply_deletion ::
    "inv_env \<Rightarrow> (nat \<Rightarrow> uuid) \<Rightarrow> inv_store \<Rightarrow> deletion_plan \<Rightarrow> uuid \<Rightarrow> uuid \<Rightarrow> deletion_error + inv_store" where
  "apply_deletion env ids s p tenant actor =
     rbind (map_err DDatabase (prepare_each env s tenant (dp_items p))) (\<lambda>prepared.
     rbind (delete_each deletes_level (DRejected DConcurrentChange) (dp_levels p) (inv_levels s)) (\<lambda>ls.
     rbind (delete_each deletes_item (DRejected DConcurrentChange) (dp_items p) (inv_items s)) (\<lambda>is.
     map_err DDatabase (record_each env ids (s\<lparr>inv_levels := ls, inv_items := is\<rparr>) prepared actor))))"

definition delete_records ::
    "inv_env \<Rightarrow> (nat \<Rightarrow> uuid) \<Rightarrow> inv_store \<Rightarrow> inv_store \<Rightarrow> uuid \<Rightarrow> uuid \<Rightarrow> uuid list \<Rightarrow> deletion_error + inv_store" where
  "delete_records env ids seen s tenant actor variants =
     rbind (ensure (\<not> is_nil actor) (DRejected DInvalidRequest)) (\<lambda>_.
     rbind (validate_deletion tenant variants) (\<lambda>variants.
     if variants = [] then Inr s
     else
       rbind (deletion_snapshot env) (\<lambda>_.
       rbind (load_deletion seen s tenant variants) (\<lambda>p.
       apply_deletion env ids s p tenant actor))))"

end
