(* ===== verification/Inventory_Safety.thy ===== *)
theory Inventory_Safety
  imports Inventory_Reservation "HOL-Library.Multiset"
begin

text \<open>
  What the inventory services guarantee over any interleaving of callers: the invariant of the stock
  tables, what setting a quantity, reserving and releasing do to the available quantity, and that a
  release takes anonymous reservations in the order of their age.
\<close>

subsection \<open>The invariant of the stock tables\<close>

definition denies_backorder :: "inv_store \<Rightarrow> uuid \<Rightarrow> bool" where
  "denies_backorder s item \<longleftrightarrow> (\<exists>i \<in> set (inv_items s). \<exists>v \<in> set (inv_variants s).
     ii_id i = item \<and> vr_id v = ii_variant_id i \<and> \<not> inventory_policy_allows_backorder (vr_inventory_policy v))"

definition level_ok :: "inv_store \<Rightarrow> stock_level \<Rightarrow> bool" where
  "level_ok s l \<longleftrightarrow> 0 \<le> il_stocked_quantity l \<and> 0 \<le> il_incoming_quantity l
     \<and> il_reserved_quantity l = claimed s (il_inventory_item_id l) (il_location_id l)
     \<and> il_inventory_item_id l \<in> ii_id ` set (inv_items s)
     \<and> (denies_backorder s (il_inventory_item_id l) \<longrightarrow> il_reserved_quantity l \<le> il_stocked_quantity l)"

definition reservation_ok :: "inv_store \<Rightarrow> reservation \<Rightarrow> bool" where
  "reservation_ok s r \<longleftrightarrow> rsv_deleted_at r \<noteq> None \<and> rsv_quantity r = 0
     \<or> rsv_deleted_at r = None \<and> 0 < rsv_quantity r \<and> (\<exists>l \<in> set (inv_levels s).
          il_inventory_item_id l = rsv_inventory_item_id r \<and> il_location_id l = rsv_location_id r)"

definition stock_ok :: "inv_store \<Rightarrow> bool" where
  "stock_ok s \<longleftrightarrow> distinct (map vr_id (inv_variants s)) \<and> unique_rows stock_item_clash (inv_items s)
     \<and> (\<forall>i \<in> set (inv_items s). ii_variant_id i \<in> vr_id ` set (inv_variants s))
     \<and> unique_rows stock_level_clash (inv_levels s) \<and> unique_rows reservation_clash (inv_reservations s)
     \<and> (\<forall>l \<in> set (inv_levels s). level_ok s l) \<and> (\<forall>r \<in> set (inv_reservations s). reservation_ok s r)"

text \<open>The tables the invariant reads; the journal and the outbox are not among them.\<close>

definition same_stock :: "inv_store \<Rightarrow> inv_store \<Rightarrow> bool" where
  "same_stock s t \<longleftrightarrow> inv_products t = inv_products s \<and> inv_variants t = inv_variants s \<and> inv_items t = inv_items s
     \<and> inv_levels t = inv_levels s \<and> inv_reservations t = inv_reservations s \<and> inv_locations t = inv_locations s
     \<and> src_baselines t = src_baselines s \<and> src_pages t = src_pages s"

lemma same_stock_trans: "same_stock s t \<Longrightarrow> same_stock t u \<Longrightarrow> same_stock s u"
  by (simp add: same_stock_def)

lemma claimed_simps [simp]:
  "claimed (s\<lparr>inv_levels := ls\<rparr>) item loc = claimed s item loc"
  "claimed (s\<lparr>inv_items := is\<rparr>) item loc = claimed s item loc"
  by (simp_all add: claimed_def)

lemma same_stock_ok:
  assumes "same_stock s t"
  shows "stock_ok t \<longleftrightarrow> stock_ok s"
proof -
  have e: "inv_variants t = inv_variants s" "inv_items t = inv_items s" "inv_levels t = inv_levels s"
    "inv_reservations t = inv_reservations s" using assms by (simp_all add: same_stock_def)
  show ?thesis by (simp add: stock_ok_def level_ok_def reservation_ok_def denies_backorder_def claimed_def e)
qed

lemma publish_once_stock: "publish_once s e t a f = Inr s' \<Longrightarrow> same_stock s s'"
  by (auto simp: publish_once_def Let_def same_stock_def split: option.splits if_splits)

lemma publish_changed_stock: "publish_changed s t a b v n c = Inr s' \<Longrightarrow> same_stock s s'"
  by (auto simp: publish_changed_def publish_source_def intro: publish_once_stock)

lemma append_change_stock: "append_change env s t b v n i k = Inr s' \<Longrightarrow> same_stock s s'"
  by (auto simp: append_change_def same_stock_def)

lemma record_created_stock: "record_created env s t v a = Inr s' \<Longrightarrow> same_stock s s'"
  by (auto simp: record_created_def insert_record_def same_stock_def split: option.splits
      dest!: append_change_stock [unfolded same_stock_def] publish_changed_stock [unfolded same_stock_def])

lemma record_changed_stock: "record_changed env s t v a = Inr s' \<Longrightarrow> same_stock s s'"
  by (auto simp: record_changed_def update_record_def Let_def same_stock_def split: option.splits
      dest!: append_change_stock [unfolded same_stock_def] publish_changed_stock [unfolded same_stock_def])

lemma publish_root_stock: "publish_root s t a f = Inr s' \<Longrightarrow> same_stock s s'"
  by (auto simp: publish_root_def same_stock_def)

lemma publish_event_stock: "publish_event env s p = Inr s' \<Longrightarrow> same_stock s s'"
  by (auto simp: publish_event_def dest!: publish_root_stock record_changed_stock intro: same_stock_trans)

subsection \<open>The available quantity\<close>

definition available_units :: "inv_store \<Rightarrow> uuid \<Rightarrow> int" where
  "available_units s item = sum_list (map (\<lambda>l. il_stocked_quantity l - il_reserved_quantity l) (item_levels s item))"

lemma sum_available_Inr:
  "sum_available ls t = Inr a \<Longrightarrow> a = t + sum_list (map (\<lambda>l. il_stocked_quantity l - il_reserved_quantity l) ls)"
proof (induction ls arbitrary: t)
  case (Cons l ls)
  from Cons.prems have "sum_available ls (t + (il_stocked_quantity l - il_reserved_quantity l)) = Inr a" by simp
  from Cons.IH [OF this] show ?case by simp
qed simp

lemma sum_list_sort_key: "sum_list (map f (sort_key k xs)) = (sum_list (map f xs) :: int)"
proof -
  have "mset (map f (sort_key k xs)) = mset (map f xs)" by (simp only: mset_map mset_sort)
  then show ?thesis by (metis sum_mset_sum_list)
qed

lemma available_quantity_units:
  assumes "available_quantity s item = Inr a"
  shows "a = available_units s item"
proof -
  let ?ls = "sort_key il_id (item_levels s item)"
  have run: "checked_available_quantity (take (STOCK_LEVEL_READ_LIMIT + 1) ?ls) = Inr a"
    using assms by (simp add: available_quantity_def item_levels_def)
  then have "take (STOCK_LEVEL_READ_LIMIT + 1) ?ls = ?ls"
    by (auto simp: checked_available_quantity_def)
  with run have "sum_available ?ls 0 = Inr a" by (auto simp: checked_available_quantity_def checked_i32_def split: if_splits)
  from sum_available_Inr [OF this] show ?thesis by (simp add: available_units_def sum_list_sort_key)
qed

lemma scan_available_Inr:
  assumes "scan_available item locations ls (ids, locs, t) = Inr a"
  shows "a = t + sum_list (map (\<lambda>l. il_stocked_quantity l - il_reserved_quantity l) ls)"
    and "\<forall>l \<in> set ls. 0 \<le> il_stocked_quantity l \<and> 0 \<le> il_reserved_quantity l \<and> 0 \<le> il_incoming_quantity l
      \<and> il_inventory_item_id l = item"
    and "distinct (map il_id ls)"
proof -
  have "a = t + sum_list (map (\<lambda>l. il_stocked_quantity l - il_reserved_quantity l) ls)
    \<and> (\<forall>l \<in> set ls. 0 \<le> il_stocked_quantity l \<and> 0 \<le> il_reserved_quantity l \<and> 0 \<le> il_incoming_quantity l
      \<and> il_inventory_item_id l = item \<and> il_id l \<notin> ids) \<and> distinct (map il_id ls)"
    using assms
  proof (induction ls arbitrary: ids locs t)
    case (Cons l ls)
    from Cons.prems have "scan_available item locations ls (insert (il_id l) ids, insert (il_location_id l) locs,
        t + (il_stocked_quantity l - il_reserved_quantity l)) = Inr a" by auto
    from Cons.IH [OF this] Cons.prems show ?case by auto
  qed simp
  then show "a = t + sum_list (map (\<lambda>l. il_stocked_quantity l - il_reserved_quantity l) ls)"
    "\<forall>l \<in> set ls. 0 \<le> il_stocked_quantity l \<and> 0 \<le> il_reserved_quantity l \<and> 0 \<le> il_incoming_quantity l
      \<and> il_inventory_item_id l = item" "distinct (map il_id ls)" by auto
qed

lemma plan_available_units:
  assumes "plan_available (level_query s item) item locations = Inr a"
  shows "a = available_units s item" and "set (level_query s item) = set (item_levels s item)"
    and "\<forall>l \<in> set (item_levels s item). 0 \<le> il_stocked_quantity l \<and> 0 \<le> il_reserved_quantity l"
proof -
  let ?ls = "sort_key il_location_id (sort_key il_id (item_levels s item))"
  have "level_query s item = ?ls"
    using assms by (auto simp: plan_available_def level_query_def)
  moreover from this have scan: "scan_available item locations ?ls ({}, {}, 0) = Inr a"
    using assms by (auto simp: plan_available_def checked_i32_def split: if_splits)
  ultimately show "set (level_query s item) = set (item_levels s item)" by simp
  show "a = available_units s item"
    using scan_available_Inr(1) [OF scan] by (simp add: available_units_def sum_list_sort_key)
  show "\<forall>l \<in> set (item_levels s item). 0 \<le> il_stocked_quantity l \<and> 0 \<le> il_reserved_quantity l"
    using scan_available_Inr(2) [OF scan] by auto
qed

subsection \<open>Changing rows under the invariant\<close>

lemma sum_list_keyed:
  fixes g :: "'a \<Rightarrow> int"
  assumes "distinct (map key xs)" and "x \<in> set xs"
  shows "sum_list (map (\<lambda>y. g (if key y = key x then h y else y)) xs) = sum_list (map g xs) + (g (h x) - g x)"
  using assms
proof (induction xs)
  case (Cons z zs)
  show ?case
  proof (cases "key z = key x")
    case True
    then have "z = x" using Cons.prems by (auto simp: rev_image_eqI)
    have "map (\<lambda>y. g (if key y = key x then h y else y)) zs = map g zs"
      using Cons.prems(1) True by (intro map_cong) (auto simp: image_iff)
    then have "sum_list (map (\<lambda>y. g (if key y = key x then h y else y)) zs) = sum_list (map g zs)" by metis
    with True \<open>z = x\<close> show ?thesis by simp
  next
    case False
    then show ?thesis using Cons by auto
  qed
qed simp

lemma unique_rows_map:
  assumes "unique_rows clash xs" and "\<And>x y. x \<in> set xs \<Longrightarrow> y \<in> set xs \<Longrightarrow> clash (f x) (f y) \<Longrightarrow> clash x y"
  shows "unique_rows clash (map f xs)"
  using assms unfolding unique_rows_def sorted_wrt_map by (metis (mono_tags, lifting) sorted_wrt_mono_rel)

lemma unique_rows_distinct:
  assumes "unique_rows clash xs" and "\<And>x y. key x = key y \<Longrightarrow> clash x y"
  shows "distinct (map key xs)"
proof -
  have "sorted_wrt (\<lambda>x y. key x \<noteq> key y) xs"
    using assms(1) unfolding unique_rows_def by (rule sorted_wrt_mono_rel [rotated]) (use assms(2) in blast)
  then show ?thesis by (induction xs) auto
qed

lemma level_ids: "unique_rows stock_level_clash ls \<Longrightarrow> distinct (map il_id ls)"
  by (rule unique_rows_distinct [of stock_level_clash]) (auto simp: stock_level_clash_def)

lemma reservation_ids: "unique_rows reservation_clash rs \<Longrightarrow> distinct (map rsv_id rs)"
  by (rule unique_rows_distinct [of reservation_clash]) (auto simp: reservation_clash_def)

lemma stock_ok_update:
  assumes ok: "stock_ok s"
    and tables: "inv_variants s' = inv_variants s" "inv_items s' = inv_items s" "inv_levels s' = map f (inv_levels s)"
    and keys: "\<And>l. il_id (f l) = il_id l \<and> il_inventory_item_id (f l) = il_inventory_item_id l
      \<and> il_location_id (f l) = il_location_id l \<and> il_incoming_quantity (f l) = il_incoming_quantity l"
    and rows: "unique_rows reservation_clash (inv_reservations s')"
      "\<And>r. r \<in> set (inv_reservations s') \<Longrightarrow> reservation_ok s r"
    and levels: "\<And>l. l \<in> set (inv_levels s) \<Longrightarrow> 0 \<le> il_stocked_quantity (f l)
      \<and> il_reserved_quantity (f l) = claimed s' (il_inventory_item_id l) (il_location_id l)
      \<and> (denies_backorder s (il_inventory_item_id l) \<longrightarrow> il_reserved_quantity (f l) \<le> il_stocked_quantity (f l))"
  shows "stock_ok s'"
proof -
  have ul: "unique_rows stock_level_clash (inv_levels s)" and lv: "\<forall>l \<in> set (inv_levels s). level_ok s l"
    using ok by (simp_all add: stock_ok_def)
  have "unique_rows stock_level_clash (inv_levels s')"
    unfolding tables using ul by (rule unique_rows_map) (simp add: stock_level_clash_def keys)
  moreover have "denies_backorder s' = denies_backorder s" by (simp add: denies_backorder_def fun_eq_iff tables)
  then have "\<forall>l \<in> set (inv_levels s). level_ok s' (f l)"
    using lv levels unfolding level_ok_def tables by (metis keys)
  then have "\<forall>l \<in> set (inv_levels s'). level_ok s' l" by (simp add: tables)
  moreover have "\<forall>r \<in> set (inv_reservations s'). reservation_ok s' r"
    using rows(2) by (fastforce simp: reservation_ok_def tables keys)
  ultimately show ?thesis using ok rows(1) by (simp add: stock_ok_def tables)
qed

lemma claimed_nonneg: "stock_ok s \<Longrightarrow> 0 \<le> claimed s item loc"
  unfolding claimed_def stock_ok_def reservation_ok_def by (intro sum_list_nonneg) fastforce

lemma denies_policy:
  assumes "stock_ok s" and "i \<in> set (inv_items s)" and "find_variant s tenant (ii_variant_id i) = Some v"
    and "denies_backorder s (ii_id i)"
  shows "\<not> inventory_policy_allows_backorder (vr_inventory_policy v)"
proof -
  obtain j w where jw: "j \<in> set (inv_items s)" "w \<in> set (inv_variants s)" "ii_id j = ii_id i" "vr_id w = ii_variant_id j"
    "\<not> inventory_policy_allows_backorder (vr_inventory_policy w)"
    using assms(4) by (auto simp: denies_backorder_def)
  have "j = i" using assms(1,2) jw(1,3)
    by (intro stock_item_table.unique_eq [of "inv_items s"]) (auto simp: stock_ok_def stock_item_clash_def)
  moreover have "v \<in> set (inv_variants s)" "vr_id v = ii_variant_id i"
    using assms(3) by (auto simp: find_variant_def find_Some_iff)
  ultimately have "w = v" using assms(1) jw(2,4) by (auto simp: stock_ok_def distinct_map inj_on_def)
  with jw(5) show ?thesis by simp
qed

subsection \<open>Setting and adjusting\<close>

interpretation stocked_rows: keyed_rows il_id same_counters
  "\<lambda>stocked l. l\<lparr>il_stocked_quantity := stocked, il_updated_at := inv_now env\<rparr>" for env :: inv_env
  by unfold_locales (simp_all add: same_counters_def)

definition restock :: "inv_env \<Rightarrow> stock_level \<Rightarrow> int \<Rightarrow> stock_level \<Rightarrow> stock_level" where
  "restock env l stocked m = (if il_id m = il_id l
     then m\<lparr>il_stocked_quantity := stocked, il_updated_at := inv_now env\<rparr> else m)"

lemma apply_plan_stock:
  assumes "apply_plan env s p threshold = Inr (s', w)" and "unique_rows stock_level_clash (inv_levels s)"
  shows "wo_quantity w = qp_after p"
    and "case qp_target p of None \<Rightarrow> s' = s
      | Some (l, st) \<Rightarrow> same_stock (s\<lparr>inv_levels := map (restock env l st) (inv_levels s)\<rparr>) s'"
proof -
  show "wo_quantity w = qp_after p" using assms(1) by (auto simp: apply_plan_def)
  show "case qp_target p of None \<Rightarrow> s' = s
      | Some (l, st) \<Rightarrow> same_stock (s\<lparr>inv_levels := map (restock env l st) (inv_levels s)\<rparr>) s'"
  proof (cases "qp_target p")
    case None
    then show ?thesis using assms(1) by (simp add: apply_plan_def)
  next
    case (Some t)
    obtain l st where t: "t = (l, st)" by force
    obtain mid where mid: "write_stocked env s l st = Inr mid" "same_stock mid s'"
      using assms(1) Some t by (auto simp: apply_plan_def Let_def split: option.splits
          dest!: record_changed_stock publish_root_stock intro: same_stock_trans)
    then obtain ls where "mid = s\<lparr>inv_levels := ls\<rparr>" "update_one (same_counters l)
        (\<lambda>m. m\<lparr>il_stocked_quantity := st, il_updated_at := inv_now env\<rparr>) (inv_levels s) = Some ls"
      by (auto simp: write_stocked_def)
    then have "mid = s\<lparr>inv_levels := map (restock env l st) (inv_levels s)\<rparr>"
      using stocked_rows.update_one_keyed [OF level_ids [OF assms(2)], of l env st ls] by (simp add: restock_def [abs_def])
    then show ?thesis using mid(2) Some t by simp
  qed
qed

lemma take_2_single: "take 2 (filter P xs) = [x] \<Longrightarrow> x \<in> set xs \<and> P x \<and> List.find P xs = Some x"
proof (induction xs)
  case (Cons y ys)
  then show ?case by (cases "P y") (auto simp: take_Suc_conv_app_nth)
qed simp

lemma plan_target_Inr:
  assumes "plan_target candidate locations levels before after policy = Inr target"
  shows "case target of None \<Rightarrow> after = before
    | Some (l, st) \<Rightarrow> l \<in> set levels
        \<and> stocked_target before after (il_stocked_quantity l) (il_reserved_quantity l)
            (inventory_policy_allows_backorder policy) = Inr st"
  using assms by (auto simp: plan_target_def find_Some_iff split: if_splits)

lemma load_plan_Inr:
  assumes "load_plan seen s tenant actor variant change = Inr p"
  obtains i v where "i \<in> set (inv_items s)" "ii_variant_id i = variant" "find_item s variant = Some i"
    "find_variant s tenant variant = Some v" "qp_before p = available_units s (ii_id i)"
    "target_quantity (qp_before p) change = Inr (qp_after p)"
    "case qp_target p of None \<Rightarrow> qp_after p = qp_before p
     | Some (l, st) \<Rightarrow> l \<in> set (item_levels s (ii_id i))
         \<and> stocked_target (qp_before p) (qp_after p) (il_stocked_quantity l) (il_reserved_quantity l)
             (inventory_policy_allows_backorder (vr_inventory_policy v)) = Inr st"
proof -
  obtain v where v: "find_variant s tenant variant = Some v"
    using assms by (cases "find_variant s tenant variant") (simp_all add: load_plan_def)
  obtain i where i: "take 2 (filter (\<lambda>i. ii_variant_id i = variant) (inv_items s)) = [i]"
    using assms by (auto simp: load_plan_def v split: list.splits)
  note item = take_2_single [OF i]
  obtain before after target locations locs where plan: "plan_available (level_query s (ii_id i)) (ii_id i) locs = Inr before"
    "target_quantity before change = Inr after"
    "plan_target (find_default_location seen tenant) locations (level_query s (ii_id i)) before after (vr_inventory_policy v) = Inr target"
    "qp_before p = before" "qp_after p = after" "qp_target p = target"
    using assms by (auto simp: load_plan_def v i Let_def)
  show thesis
    using plan_available_units [OF plan(1)] plan_target_Inr [OF plan(3)] item v plan
    by (intro that [of i v]) (auto simp: find_item_def split: option.splits)
qed

text \<open>A write of a quantity: nothing, or a new stock at one level.\<close>

lemma write_quantity_outcome:
  assumes "write_quantity env seen s tenant actor variant change threshold = Inr (s', w)"
    and "unique_rows stock_level_clash (inv_levels s)"
  obtains i v before after where "i \<in> set (inv_items s)" "ii_variant_id i = variant" "find_item s variant = Some i"
    "find_variant s tenant variant = Some v" "before = available_units s (ii_id i)"
    "target_quantity before change = Inr after" "wo_quantity w = after"
    "after = before \<and> s' = s \<or> (\<exists>l st. l \<in> set (inv_levels s) \<and> il_inventory_item_id l = ii_id i
       \<and> stocked_target before after (il_stocked_quantity l) (il_reserved_quantity l)
           (inventory_policy_allows_backorder (vr_inventory_policy v)) = Inr st
       \<and> same_stock (s\<lparr>inv_levels := map (restock env l st) (inv_levels s)\<rparr>) s')"
proof -
  obtain p where p: "load_plan seen s tenant actor variant change = Inr p" "apply_plan env s p threshold = Inr (s', w)"
    using assms(1) by (auto simp: write_quantity_def)
  from p(1) obtain i v where "i \<in> set (inv_items s)" "ii_variant_id i = variant" "find_item s variant = Some i"
    "find_variant s tenant variant = Some v" "qp_before p = available_units s (ii_id i)"
    "target_quantity (qp_before p) change = Inr (qp_after p)"
    "case qp_target p of None \<Rightarrow> qp_after p = qp_before p
     | Some (l, st) \<Rightarrow> l \<in> set (item_levels s (ii_id i))
         \<and> stocked_target (qp_before p) (qp_after p) (il_stocked_quantity l) (il_reserved_quantity l)
             (inventory_policy_allows_backorder (vr_inventory_policy v)) = Inr st"
    by (rule load_plan_Inr)
  then show thesis
    using apply_plan_stock [OF p(2) assms(2)]
    by (intro that [of i v "qp_before p" "qp_after p"]) (auto simp: item_levels_def split: option.splits)
qed

lemma stocked_target_Inr:
  "stocked_target before after stocked reserved backorder = Inr st \<Longrightarrow>
   st = stocked + (after - before) \<and> 0 \<le> st \<and> (\<not> backorder \<longrightarrow> reserved \<le> st \<and> 0 \<le> after)"
  by (auto simp: stocked_target_def checked_i32_def split: if_splits)

lemma restock_keys:
  "il_id (restock env l st m) = il_id m \<and> il_inventory_item_id (restock env l st m) = il_inventory_item_id m
   \<and> il_location_id (restock env l st m) = il_location_id m \<and> il_incoming_quantity (restock env l st m) = il_incoming_quantity m
   \<and> il_reserved_quantity (restock env l st m) = il_reserved_quantity m"
  by (simp add: restock_def)

lemma write_quantity_ok:
  assumes "write_quantity env seen s tenant actor variant change threshold = Inr (s', w)" and "stock_ok s"
  shows "stock_ok s'"
proof -
  have ul: "unique_rows stock_level_clash (inv_levels s)" using assms(2) by (simp add: stock_ok_def)
  obtain i v before after where w: "i \<in> set (inv_items s)" "ii_variant_id i = variant" "find_item s variant = Some i"
    "find_variant s tenant variant = Some v" "before = available_units s (ii_id i)"
    "target_quantity before change = Inr after" "wo_quantity w = after"
    "after = before \<and> s' = s \<or> (\<exists>l st. l \<in> set (inv_levels s) \<and> il_inventory_item_id l = ii_id i
       \<and> stocked_target before after (il_stocked_quantity l) (il_reserved_quantity l)
           (inventory_policy_allows_backorder (vr_inventory_policy v)) = Inr st
       \<and> same_stock (s\<lparr>inv_levels := map (restock env l st) (inv_levels s)\<rparr>) s')"
    by (rule write_quantity_outcome [OF assms(1) ul])
  show ?thesis
  proof (cases "s' = s")
    case True
    with assms(2) show ?thesis by simp
  next
    case False
    with w(8) obtain l st where l: "l \<in> set (inv_levels s)" "il_inventory_item_id l = ii_id i"
      "stocked_target before after (il_stocked_quantity l) (il_reserved_quantity l)
           (inventory_policy_allows_backorder (vr_inventory_policy v)) = Inr st"
      "same_stock (s\<lparr>inv_levels := map (restock env l st) (inv_levels s)\<rparr>) s'" by blast
    note st = stocked_target_Inr [OF l(3)]
    have "stock_ok (s\<lparr>inv_levels := map (restock env l st) (inv_levels s)\<rparr>)"
    proof (rule stock_ok_update [OF assms(2), where f = "restock env l st"])
      fix m assume m: "m \<in> set (inv_levels s)"
      then have ok: "level_ok s m" using assms(2) by (simp add: stock_ok_def)
      show "0 \<le> il_stocked_quantity (restock env l st m)
        \<and> il_reserved_quantity (restock env l st m)
          = claimed (s\<lparr>inv_levels := map (restock env l st) (inv_levels s)\<rparr>) (il_inventory_item_id m) (il_location_id m)
        \<and> (denies_backorder s (il_inventory_item_id m) \<longrightarrow>
            il_reserved_quantity (restock env l st m) \<le> il_stocked_quantity (restock env l st m))"
      proof (cases "il_id m = il_id l")
        case True
        then have "m = l" using m l(1) level_ids [OF ul] by (auto simp: distinct_map inj_on_def)
        then show ?thesis
          using ok st denies_policy [OF assms(2) w(1), of tenant v] w(2,4) l(2) by (auto simp: restock_def level_ok_def)
      qed (use ok in \<open>auto simp: restock_def level_ok_def\<close>)
    qed (use assms(2) in \<open>auto simp: restock_keys stock_ok_def\<close>)
    with same_stock_ok [OF l(4)] show ?thesis by simp
  qed
qed

text \<open>Where a write succeeds, the available quantity is the one it reports.\<close>

lemma item_levels_map:
  "(\<And>l. il_inventory_item_id (f l) = il_inventory_item_id l) \<Longrightarrow> inv_levels s' = map f (inv_levels s)
   \<Longrightarrow> item_levels s' item = map f (item_levels s item)"
  by (simp add: item_levels_def filter_map comp_def)

lemma available_units_update:
  assumes "distinct (map il_id (inv_levels s))" and "l \<in> set (inv_levels s)"
    and "inv_levels s' = map (\<lambda>m. if il_id m = il_id l then h m else m) (inv_levels s)"
    and "\<And>m. il_inventory_item_id (h m) = il_inventory_item_id m"
  shows "available_units s' (il_inventory_item_id l) = available_units s (il_inventory_item_id l)
    + ((il_stocked_quantity (h l) - il_reserved_quantity (h l)) - (il_stocked_quantity l - il_reserved_quantity l))"
proof -
  let ?xs = "item_levels s (il_inventory_item_id l)"
  have "item_levels s' (il_inventory_item_id l) = map (\<lambda>m. if il_id m = il_id l then h m else m) ?xs"
    by (rule item_levels_map [OF _ assms(3)]) (simp add: assms(4))
  moreover have "distinct (map il_id ?xs)" "l \<in> set ?xs"
    using assms(1,2) by (simp_all add: item_levels_def distinct_map_filter)
  ultimately show ?thesis
    using sum_list_keyed [of il_id ?xs l "\<lambda>m. il_stocked_quantity m - il_reserved_quantity m" h]
    by (simp add: available_units_def comp_def)
qed

lemma available_units_stock: "same_stock s t \<Longrightarrow> available_units t item = available_units s item"
  by (simp add: available_units_def item_levels_def same_stock_def)

lemma write_quantity_units:
  assumes "write_quantity env seen s tenant actor variant change threshold = Inr (s', w)" and "stock_ok s"
  obtains i where "find_item s variant = Some i" "find_item s' variant = Some i"
    "target_quantity (available_units s (ii_id i)) change = Inr (wo_quantity w)"
    "available_units s' (ii_id i) = wo_quantity w"
    "inv_reservations s' = inv_reservations s"
    "inv_levels s' = inv_levels s \<or> (\<exists>l st. l \<in> set (inv_levels s) \<and> il_inventory_item_id l = ii_id i
       \<and> inv_levels s' = map (restock env l st) (inv_levels s))"
proof -
  have ul: "unique_rows stock_level_clash (inv_levels s)" using assms(2) by (simp add: stock_ok_def)
  obtain i v before after where w: "i \<in> set (inv_items s)" "ii_variant_id i = variant" "find_item s variant = Some i"
    "find_variant s tenant variant = Some v" "before = available_units s (ii_id i)"
    "target_quantity before change = Inr after" "wo_quantity w = after"
    "after = before \<and> s' = s \<or> (\<exists>l st. l \<in> set (inv_levels s) \<and> il_inventory_item_id l = ii_id i
       \<and> stocked_target before after (il_stocked_quantity l) (il_reserved_quantity l)
           (inventory_policy_allows_backorder (vr_inventory_policy v)) = Inr st
       \<and> same_stock (s\<lparr>inv_levels := map (restock env l st) (inv_levels s)\<rparr>) s')"
    by (rule write_quantity_outcome [OF assms(1) ul])
  show thesis
  proof (cases "after = before \<and> s' = s")
    case True
    with w show thesis by (intro that [of i]) auto
  next
    case False
    with w(8) obtain l st where l: "l \<in> set (inv_levels s)" "il_inventory_item_id l = ii_id i"
      "stocked_target before after (il_stocked_quantity l) (il_reserved_quantity l)
           (inventory_policy_allows_backorder (vr_inventory_policy v)) = Inr st"
      "same_stock (s\<lparr>inv_levels := map (restock env l st) (inv_levels s)\<rparr>) s'" by blast
    have "available_units s' (ii_id i) = after"
      using available_units_update [OF level_ids [OF ul] l(1),
          of "s\<lparr>inv_levels := map (restock env l st) (inv_levels s)\<rparr>"
            "\<lambda>m. m\<lparr>il_stocked_quantity := st, il_updated_at := inv_now env\<rparr>"]
        stocked_target_Inr [OF l(3)] available_units_stock [OF l(4)] l(2) w(5)
      by (simp add: restock_def [abs_def])
    with w l show thesis by (intro that [of i]) (auto simp: same_stock_def find_item_def)
  qed
qed

subsection \<open>New items and levels\<close>

lemma stock_ok_new_item:
  assumes "stock_ok s" and "insert_unique stock_item_clash i (inv_items s) = Some items"
    and "ii_variant_id i \<in> vr_id ` set (inv_variants s)"
  shows "stock_ok (s\<lparr>inv_items := items\<rparr>)"
proof -
  have items: "items = inv_items s @ [i]" "\<forall>j \<in> set (inv_items s). ii_id j \<noteq> ii_id i"
    using assms(2) by (auto simp: stock_item_table.insert_unique_Some stock_item_clash_def)
  have "unique_rows stock_item_clash items"
    using assms by (auto simp: stock_ok_def intro: stock_item_table.unique_insert)
  moreover have "denies_backorder (s\<lparr>inv_items := items\<rparr>) item = denies_backorder s item" if "item \<in> ii_id ` set (inv_items s)" for item
    using that items by (auto simp: denies_backorder_def)
  then have "\<forall>l \<in> set (inv_levels s). level_ok (s\<lparr>inv_items := items\<rparr>) l"
    using assms(1) items(1) by (auto simp: stock_ok_def level_ok_def)
  ultimately show ?thesis using assms(1,3) items(1) by (simp add: stock_ok_def reservation_ok_def)
qed

lemma stock_ok_new_level:
  assumes "stock_ok s" and "insert_unique stock_level_clash l (inv_levels s) = Some levels"
    and "0 \<le> il_stocked_quantity l" "il_reserved_quantity l = 0" "il_incoming_quantity l = 0"
    and "il_inventory_item_id l \<in> ii_id ` set (inv_items s)"
  shows "stock_ok (s\<lparr>inv_levels := levels\<rparr>)"
proof -
  have levels: "levels = inv_levels s @ [l]" "\<forall>m \<in> set (inv_levels s). \<not> stock_level_clash l m"
    using assms(2) by (auto simp: stock_level_table.insert_unique_Some)
  have ul: "unique_rows stock_level_clash levels"
    using assms(1,2) by (auto simp: stock_ok_def intro: stock_level_table.unique_insert)
  have "filter (live_claim (il_inventory_item_id l) (il_location_id l)) (inv_reservations s) = []"
    using assms(1) levels(2) unfolding filter_empty_conv stock_ok_def reservation_ok_def live_claim_def stock_level_clash_def
    by metis
  then have "claimed s (il_inventory_item_id l) (il_location_id l) = 0" by (simp add: claimed_def)
  then have "\<forall>m \<in> set levels. level_ok (s\<lparr>inv_levels := levels\<rparr>) m"
    using assms levels(1) by (auto simp: stock_ok_def level_ok_def denies_backorder_def)
  moreover have "\<forall>r \<in> set (inv_reservations s). reservation_ok (s\<lparr>inv_levels := levels\<rparr>) r"
    using assms(1) levels(1) by (auto simp: stock_ok_def reservation_ok_def)
  ultimately show ?thesis using assms(1) ul by (simp add: stock_ok_def)
qed

lemma create_initial_ok:
  assumes "create_initial_records env s w actor variant sku quantity = Inr s'" and "stock_ok s"
  shows "stock_ok s'"
proof -
  obtain items levels where run: "insert_unique stock_item_clash (initial_item_row env variant sku) (inv_items s) = Some items"
    "insert_unique stock_level_clash (initial_level_row env (sl_id w) quantity) (inv_levels s) = Some levels" "0 \<le> quantity"
    "record_created env (s\<lparr>inv_items := items, inv_levels := levels\<rparr>) (sl_tenant_id w) variant (Some actor) = Inr s'"
    "level_admissible (s\<lparr>inv_items := items\<rparr>) (initial_level_row env (sl_id w) quantity)"
    using assms(1) by (auto simp: create_initial_records_def Let_def)
  have items: "items = inv_items s @ [initial_item_row env variant sku]" "\<forall>j \<in> set (inv_items s). ii_id j \<noteq> inv_item_id env"
    using run(1) by (auto simp: stock_item_table.insert_unique_Some stock_item_clash_def initial_item_row_def)
  have listed: "variant \<in> vr_id ` set (inv_variants s)"
    using run(5) items by (auto simp: level_admissible_def initial_level_row_def initial_item_row_def)
  have "stock_ok (s\<lparr>inv_items := items\<rparr>\<lparr>inv_levels := levels\<rparr>)"
    by (rule stock_ok_new_level [OF stock_ok_new_item [OF assms(2) run(1)], of "initial_level_row env (sl_id w) quantity"])
      (use run(2,3) listed in \<open>simp_all add: items initial_level_row_def initial_item_row_def\<close>)
  then show ?thesis using same_stock_ok [OF record_created_stock [OF run(4)]] by simp
qed

subsection \<open>Reserving\<close>

text \<open>The item, the location and the level that a reservation uses, created where they are missing.\<close>

lemma record_location_change_frame:
  assumes "record_location_change env s tenant loc op_id revision lifecycle = Inr s'"
  shows "s' = s \<or> (\<exists>cs. s' = s\<lparr>inv_location_changes := cs\<rparr>)"
proof -
  define previous where "previous = filter (\<lambda>c. slc_tenant_id c = tenant \<and> slc_stock_location_id c = loc) (inv_location_changes s)"
  define same where "same = (previous \<noteq> [] \<and> slc_resource_revision (last previous) = revision \<and> slc_lifecycle (last previous) = lifecycle)"
  show ?thesis
    using assms unfolding record_location_change_def Let_def previous_def [symmetric] same_def [symmetric]
    by (cases same) auto
qed

lemma ensure_default_location_frame:
  assumes "ensure_default_location env s tenant = Inr (s', w)"
  shows "s' = s \<or> (\<exists>ls ns. s' = s\<lparr>inv_locations := ls, inv_location_names := ns\<rparr>)
    \<or> (\<exists>ls ns cs. s' = s\<lparr>inv_locations := ls, inv_location_names := ns, inv_location_changes := cs\<rparr>)"
proof (cases "find_default_location s tenant")
  case None
  with assms obtain ls ns where "record_location_change env (s\<lparr>inv_locations := ls, inv_location_names := ns\<rparr>) tenant
      (sl_id (default_location_row env tenant)) (inv_operation_id env)
      (location_revision env (default_location_row env tenant) [default_location_name env]) LocationActive = Inr s'"
    by (auto simp: ensure_default_location_def Let_def)
  from record_location_change_frame [OF this] show ?thesis by blast
next
  case (Some l)
  with assms show ?thesis by (simp add: ensure_default_location_def)
qed

lemma ensure_default_location_stock:
  assumes "ensure_default_location env s tenant = Inr (s', w)"
  shows "inv_products s' = inv_products s" "inv_variants s' = inv_variants s" "inv_items s' = inv_items s"
    "inv_levels s' = inv_levels s" "inv_reservations s' = inv_reservations s" "src_records s' = src_records s"
    "src_changes s' = src_changes s" "src_baselines s' = src_baselines s" "src_pages s' = src_pages s"
  using ensure_default_location_frame [OF assms] by (elim disjE exE; simp)+

lemma stock_ok_cong:
  assumes "inv_variants t = inv_variants s" "inv_items t = inv_items s" "inv_levels t = inv_levels s"
    "inv_reservations t = inv_reservations s"
  shows "stock_ok t \<longleftrightarrow> stock_ok s"
  by (simp add: stock_ok_def level_ok_def reservation_ok_def denies_backorder_def claimed_def assms)

lemma find_item_Some: "find_item s variant = Some i \<Longrightarrow> i \<in> set (inv_items s) \<and> ii_variant_id i = variant"
  by (auto simp: find_item_def find_Some_iff)

lemma find_variant_Some: "find_variant s tenant variant = Some v \<Longrightarrow> v \<in> set (inv_variants s) \<and> vr_id v = variant"
  by (auto simp: find_variant_def find_Some_iff)

lemma ensure_inventory_state_stock:
  assumes "ensure_inventory_state env s tenant v = Inr (s', i, w, l)" and "stock_ok s"
    and "v \<in> set (inv_variants s)"
  shows "stock_ok s'" and "i \<in> set (inv_items s')" and "find_item s' (vr_id v) = Some i" and "ii_variant_id i = vr_id v"
    and "l \<in> set (inv_levels s')" and "il_inventory_item_id l = ii_id i" and "il_location_id l = sl_id w"
    and "inv_variants s' = inv_variants s" and "inv_reservations s' = inv_reservations s"
    and "available_units s' item = available_units s item"
proof -
  obtain s1 s2 w' where run: "ensure_inventory_item env s v = Inr (s1, i)"
    "ensure_default_location env s1 tenant = Inr (s2, w')" "sl_id w = sl_id w'"
    "ensure_inventory_level env s2 i w 0 = Inr (s', l)"
    using assms(1) by (auto simp: ensure_inventory_state_def find_Some_iff)
  have s1: "stock_ok s1 \<and> i \<in> set (inv_items s1) \<and> find_item s1 (vr_id v) = Some i \<and> ii_variant_id i = vr_id v
    \<and> inv_variants s1 = inv_variants s \<and> inv_reservations s1 = inv_reservations s \<and> inv_levels s1 = inv_levels s"
  proof (cases "find_item s (vr_id v)")
    case None
    with run(1) obtain items where items: "insert_unique stock_item_clash (new_item_row env v) (inv_items s) = Some items"
      "s1 = s\<lparr>inv_items := items\<rparr>" "i = new_item_row env v" by (auto simp: ensure_inventory_item_def)
    moreover have "items = inv_items s @ [new_item_row env v]"
      using items(1) by (simp add: stock_item_table.insert_unique_Some)
    moreover from this None have "find_item (s\<lparr>inv_items := items\<rparr>) (vr_id v) = Some (new_item_row env v)"
      by (auto simp: find_item_def find_append new_item_row_def)
    ultimately show ?thesis using stock_ok_new_item [OF assms(2) items(1)] assms(3) by (simp add: new_item_row_def)
  next
    case (Some j)
    with run(1) have "s1 = s" "i = j" by (simp_all add: ensure_inventory_item_def)
    with find_item_Some [OF Some] Some assms(2) show ?thesis by simp
  qed
  note s2 = ensure_default_location_stock [OF run(2)]
  have ok2: "stock_ok s2" using s1 stock_ok_cong [of s2 s1] s2 by simp
  have s': "stock_ok s' \<and> inv_variants s' = inv_variants s2 \<and> inv_items s' = inv_items s2
    \<and> inv_reservations s' = inv_reservations s2 \<and> l \<in> set (inv_levels s') \<and> il_inventory_item_id l = ii_id i
    \<and> il_location_id l = sl_id w \<and> available_units s' item = available_units s2 item"
  proof (cases "List.find (\<lambda>l. il_inventory_item_id l = ii_id i \<and> il_location_id l = sl_id w) (inv_levels s2)")
    case None
    with run(4) obtain levels where lv: "insert_unique stock_level_clash (new_level_row env i w 0) (inv_levels s2) = Some levels"
      "s' = s2\<lparr>inv_levels := levels\<rparr>" "l = new_level_row env i w 0" by (auto simp: ensure_inventory_level_def Let_def)
    moreover have "levels = inv_levels s2 @ [new_level_row env i w 0]"
      using lv(1) by (simp add: stock_level_table.insert_unique_Some)
    moreover have "stock_ok s'"
      unfolding lv(2) by (rule stock_ok_new_level [OF ok2 lv(1)]) (use s1 s2 in \<open>simp_all add: new_level_row_def\<close>)
    ultimately show ?thesis by (simp add: new_level_row_def available_units_def item_levels_def)
  next
    case (Some m)
    with run(4) ok2 show ?thesis by (auto simp: ensure_inventory_level_def find_Some_iff)
  qed
  show "stock_ok s'" "i \<in> set (inv_items s')" "find_item s' (vr_id v) = Some i" "ii_variant_id i = vr_id v"
    "l \<in> set (inv_levels s')" "il_inventory_item_id l = ii_id i" "il_location_id l = sl_id w"
    "inv_variants s' = inv_variants s" "inv_reservations s' = inv_reservations s"
    "available_units s' item = available_units s item"
    using s1 s2 s' by (simp_all add: find_item_def available_units_def item_levels_def)
qed

interpretation reserving_rows: keyed_rows il_id "\<lambda>l. reserves_level l backorder quantity"
  "\<lambda>n l. l\<lparr>il_reserved_quantity := il_reserved_quantity l + n, il_updated_at := inv_now env\<rparr>"
  for backorder quantity and env :: inv_env
  by unfold_locales (simp_all add: reserves_level_def)

definition claim_more :: "inv_env \<Rightarrow> stock_level \<Rightarrow> int \<Rightarrow> stock_level \<Rightarrow> stock_level" where
  "claim_more env l n m = (if il_id m = il_id l
     then m\<lparr>il_reserved_quantity := il_reserved_quantity m + n, il_updated_at := inv_now env\<rparr> else m)"

lemma reserve_on_level_Inr:
  assumes "reserve_on_level env s i l backorder quantity = Inr s'" and "unique_rows stock_level_clash (inv_levels s)"
    and "l \<in> set (inv_levels s)"
  shows "s' = s\<lparr>inv_levels := map (claim_more env l quantity) (inv_levels s)\<rparr>"
    and "backorder \<or> quantity \<le> il_stocked_quantity l - il_reserved_quantity l"
proof -
  let ?put = "\<lambda>m. m\<lparr>il_reserved_quantity := il_reserved_quantity m + quantity, il_updated_at := inv_now env\<rparr>"
  note ids = level_ids [OF assms(2)]
  obtain ls where ls: "update_one (reserves_level l backorder quantity) ?put (inv_levels s) = Some ls"
    "s' = s\<lparr>inv_levels := ls\<rparr>"
    using assms(1) by (auto simp: reserve_on_level_def split: option.splits)
  note keyed = reserving_rows.update_one_keyed [OF ids ls(1)]
  then show "s' = s\<lparr>inv_levels := map (claim_more env l quantity) (inv_levels s)\<rparr>"
    using ls(2) by (simp add: claim_more_def [abs_def])
  from keyed obtain y where y: "y \<in> set (inv_levels s)" "reserves_level l backorder quantity y" by blast
  then have "y = l" using assms(3) ids by (auto simp: reserves_level_def distinct_map inj_on_def)
  with y show "backorder \<or> quantity \<le> il_stocked_quantity l - il_reserved_quantity l" by (simp add: reserves_level_def)
qed

definition new_claim :: "inv_env \<Rightarrow> stock_item \<Rightarrow> stock_location \<Rightarrow> uuid \<Rightarrow> int \<Rightarrow> inv_store \<Rightarrow> stock_level \<Rightarrow> inv_store" where
  "new_claim env i w variant quantity s l =
     s\<lparr>inv_levels := map (claim_more env l quantity) (inv_levels s),
       inv_reservations := inv_reservations s @ [new_reservation_row env i w variant quantity]\<rparr>"

text \<open>A reservation that succeeds is one new claim on one level, which has the stock where the policy asks for it.\<close>

lemma reserve_in_transaction_outcome:
  assumes "reserve_in_transaction env s ctx tenant v quantity = Inr (s', r)" and "stock_ok s"
    and "find_variant s tenant variant = Some v"
  obtains t i w l where "ensure_inventory_state env s tenant v = Inr (t, i, w, l)"
    "inventory_policy_allows_backorder (vr_inventory_policy v) \<or> quantity \<le> il_stocked_quantity l - il_reserved_quantity l"
    "same_stock (new_claim env i w (vr_id v) quantity t l) s'"
    "r = reservation_result_of quantity (available_units s' (ii_id i)) (vr_inventory_policy v)"
    "0 < quantity" "inv_reservation_id env \<notin> rsv_id ` set (inv_reservations s)"
    "\<exists>event. prepare_event env t ctx v = Inr event \<and> publish_event env (new_claim env i w (vr_id v) quantity t l) event = Inr s'"
proof -
  obtain t i w l where st: "ensure_inventory_state env s tenant v = Inr (t, i, w, l)"
    using assms(1) by (auto simp: reserve_in_transaction_def)
  note facts = ensure_inventory_state_stock [OF st assms(2) conjunct1 [OF find_variant_Some [OF assms(3)]]]
  let ?r = "new_reservation_row env i w (vr_id v) quantity"
  obtain event t1 available rs where run:
    "reserve_on_level env t i l (inventory_policy_allows_backorder (vr_inventory_policy v)) quantity = Inr t1"
    "available_quantity t1 (ii_id i) = Inr available" "reservation_admissible t1 ?r"
    "insert_unique reservation_clash ?r (inv_reservations t1) = Some rs"
    "publish_event env (t1\<lparr>inv_reservations := rs\<rparr>) event = Inr s'"
    "r = reservation_result_of quantity available (vr_inventory_policy v)" "prepare_event env t ctx v = Inr event"
    using assms(1) by (auto simp: reserve_in_transaction_def st Let_def)
  have ul: "unique_rows stock_level_clash (inv_levels t)" using facts(1) by (simp add: stock_ok_def)
  note on = reserve_on_level_Inr [OF run(1) ul facts(5)]
  have rs: "rs = inv_reservations t @ [?r]" "\<forall>x \<in> set (inv_reservations t). rsv_id x \<noteq> inv_reservation_id env"
    using run(4) on(1)
    by (auto simp: reservation_table.insert_unique_Some reservation_clash_def new_reservation_row_def)
  have event: "publish_event env (new_claim env i w (vr_id v) quantity t l) event = Inr s'"
    using run(5) by (simp add: new_claim_def on(1) rs(1))
  note same = publish_event_stock [OF event]
  have "available = available_units t1 (ii_id i)" by (rule available_quantity_units [OF run(2)])
  also have "\<dots> = available_units s' (ii_id i)"
    using publish_event_stock [OF run(5)] by (simp add: available_units_def item_levels_def same_stock_def)
  finally have "r = reservation_result_of quantity (available_units s' (ii_id i)) (vr_inventory_policy v)"
    using run(6) by simp
  moreover have "0 < quantity" using run(3) by (auto simp: reservation_admissible_def new_reservation_row_def)
  ultimately show thesis using st on(2) same rs(2) facts(9) event run(7) by (intro that [of t i w l]) auto
qed

lemma new_claim_ok:
  assumes ok: "stock_ok s" and l: "l \<in> set (inv_levels s)" "il_inventory_item_id l = ii_id i" "il_location_id l = sl_id w"
    and v: "i \<in> set (inv_items s)" "find_variant s tenant (ii_variant_id i) = Some v"
    and fits: "inventory_policy_allows_backorder (vr_inventory_policy v) \<or> quantity \<le> il_stocked_quantity l - il_reserved_quantity l"
    and fresh: "inv_reservation_id env \<notin> rsv_id ` set (inv_reservations s)" and pos: "0 < quantity"
  shows "stock_ok (new_claim env i w variant quantity s l)" (is "stock_ok ?t")
proof (rule stock_ok_update [OF ok, where f = "claim_more env l quantity"])
  show "unique_rows reservation_clash (inv_reservations ?t)"
    using ok fresh by (auto simp: new_claim_def reservation_table.unique_snoc stock_ok_def reservation_clash_def
        new_reservation_row_def)
  fix r assume "r \<in> set (inv_reservations ?t)"
  then show "reservation_ok s r"
    using ok l pos by (auto simp: new_claim_def stock_ok_def reservation_ok_def new_reservation_row_def)
next
  fix m assume m: "m \<in> set (inv_levels s)"
  then have row: "level_ok s m" using ok by (simp add: stock_ok_def)
  have ul: "unique_rows stock_level_clash (inv_levels s)" using ok by (simp add: stock_ok_def)
  have same: "il_id m = il_id l \<longleftrightarrow> m = l" using m l(1) level_ids [OF ul] by (auto simp: distinct_map inj_on_def)
  have here: "il_inventory_item_id m = ii_id i \<and> il_location_id m = sl_id w \<longleftrightarrow> m = l"
    using stock_level_table.unique_eq [OF ul m l(1)] l(2,3) by (auto simp: stock_level_clash_def)
  have claim: "claimed ?t (il_inventory_item_id m) (il_location_id m)
      = claimed s (il_inventory_item_id m) (il_location_id m) + (if m = l then quantity else 0)"
    using here by (auto simp: claimed_def new_claim_def live_claim_def new_reservation_row_def)
  show "0 \<le> il_stocked_quantity (claim_more env l quantity m)
    \<and> il_reserved_quantity (claim_more env l quantity m) = claimed ?t (il_inventory_item_id m) (il_location_id m)
    \<and> (denies_backorder s (il_inventory_item_id m) \<longrightarrow>
        il_reserved_quantity (claim_more env l quantity m) \<le> il_stocked_quantity (claim_more env l quantity m))"
    unfolding claim using row fits denies_policy [OF ok v] l(2)
    by (cases "m = l") (auto simp: claim_more_def same level_ok_def)
qed (simp_all add: new_claim_def claim_more_def)

lemma reserve_in_transaction_ok:
  assumes "reserve_in_transaction env s ctx tenant v quantity = Inr (s', r)" and "stock_ok s"
    and "find_variant s tenant variant = Some v"
  shows "stock_ok s'"
proof -
  obtain t i w l where st: "ensure_inventory_state env s tenant v = Inr (t, i, w, l)"
    and fits: "inventory_policy_allows_backorder (vr_inventory_policy v) \<or> quantity \<le> il_stocked_quantity l - il_reserved_quantity l"
    and same: "same_stock (new_claim env i w (vr_id v) quantity t l) s'"
    and fresh: "inv_reservation_id env \<notin> rsv_id ` set (inv_reservations s)" and pos: "0 < quantity"
    by (rule reserve_in_transaction_outcome [OF assms])
  note t = ensure_inventory_state_stock [OF st assms(2) conjunct1 [OF find_variant_Some [OF assms(3)]]]
  have "find_variant t tenant (ii_variant_id i) = Some v"
    using find_variant_Some [OF assms(3)] assms(3) t(4,8) by (simp add: find_variant_def)
  then have "stock_ok (new_claim env i w (vr_id v) quantity t l)"
    using new_claim_ok [OF t(1,5,6,7,2) _ fits _ pos] fresh t(9) by simp
  with same_stock_ok [OF same] show ?thesis by simp
qed

lemma new_claim_units:
  assumes "unique_rows stock_level_clash (inv_levels s)" and "l \<in> set (inv_levels s)" and "il_inventory_item_id l = ii_id i"
  shows "available_units (new_claim env i w variant quantity s l) (ii_id i) = available_units s (ii_id i) - quantity"
  using available_units_update [OF level_ids [OF assms(1)] assms(2), of "new_claim env i w variant quantity s l"
      "\<lambda>m. m\<lparr>il_reserved_quantity := il_reserved_quantity m + quantity, il_updated_at := inv_now env\<rparr>"] assms(3)
  by (simp add: new_claim_def claim_more_def [abs_def])

end
