(* ===== verification/Inventory_Release.thy ===== *)
theory Inventory_Release
  imports Inventory_Safety
begin

text \<open>
  Releasing by quantity: which rows a release takes, in which order, and what it does to the levels.
\<close>

subsection \<open>The order of the pool\<close>

definition older :: "reservation \<Rightarrow> reservation \<Rightarrow> bool" where
  "older a b \<longleftrightarrow> rsv_created_at a < rsv_created_at b \<or> rsv_created_at a = rsv_created_at b \<and> rsv_id a < rsv_id b"

definition not_younger :: "reservation \<Rightarrow> reservation \<Rightarrow> bool" where
  "not_younger a b \<longleftrightarrow> rsv_created_at a < rsv_created_at b \<or> rsv_created_at a = rsv_created_at b \<and> rsv_id a \<le> rsv_id b"

lemma insort_not_younger:
  "sorted_wrt not_younger rs \<Longrightarrow> \<forall>x \<in> set rs. rsv_id r \<le> rsv_id x \<Longrightarrow> sorted_wrt not_younger (insort_key rsv_created_at r rs)"
proof (induction rs)
  case (Cons x xs)
  show ?case
  proof (cases "rsv_created_at r \<le> rsv_created_at x")
    case True
    have "not_younger r y" if "y \<in> set (x # xs)" for y
    proof -
      have "rsv_created_at x \<le> rsv_created_at y" using Cons.prems(1) that by (auto simp: not_younger_def)
      with True Cons.prems(2) that show ?thesis by (auto simp: not_younger_def)
    qed
    with True Cons.prems(1) show ?thesis by simp
  next
    case False
    then show ?thesis using Cons by (auto simp: set_insort_key not_younger_def)
  qed
qed simp

lemma sorted_by_age: "sorted_wrt not_younger (sort_key rsv_created_at (sort_key rsv_id rs))"
proof -
  have "sorted_wrt not_younger (sort_key rsv_created_at ys)" if "sorted (map rsv_id ys)" for ys
    using that by (induction ys) (auto intro!: insort_not_younger)
  then show ?thesis by (simp add: sorted_sort_key)
qed

subsection \<open>The pool\<close>

definition anonymous :: "reservation \<Rightarrow> bool" where
  "anonymous r \<longleftrightarrow> rsv_external_id r = None \<and> rsv_line_item_id r = None
     \<and> json_str (json_get ''source'' (rsv_metadata r)) = Some ''legacy_inventory_service''
     \<and> \<not> carries_identity (rsv_metadata r)"

lemma inspect_rows_Inr:
  assumes "inspect_rows env item variant rows (seen, pool) = Inr pool'"
  shows "pool_eligible pool' = pool_eligible pool @ filter anonymous rows"
    and "pool_tracked pool' = pool_tracked pool + sum_list (map rsv_quantity (filter anonymous rows))"
    and "\<forall>r \<in> set rows. rsv_inventory_item_id r = item \<and> rsv_deleted_at r = None \<and> 0 < rsv_quantity r"
proof -
  have "pool_eligible pool' = pool_eligible pool @ filter anonymous rows
    \<and> pool_tracked pool' = pool_tracked pool + sum_list (map rsv_quantity (filter anonymous rows))
    \<and> (\<forall>r \<in> set rows. rsv_inventory_item_id r = item \<and> rsv_deleted_at r = None \<and> 0 < rsv_quantity r)"
    using assms
  proof (induction rows arbitrary: seen pool)
    case (Cons r rs)
    obtain held where row: "rsv_inventory_item_id r = item" "rsv_deleted_at r = None" "0 < rsv_quantity r"
      and rest: "if anonymous r
        then inspect_rows env item variant rs (insert (rsv_id r) seen,
          pool\<lparr>pool_claims := held, pool_eligible := pool_eligible pool @ [r], pool_tracked := pool_tracked pool + rsv_quantity r\<rparr>) = Inr pool'
        else inspect_rows env item variant rs (insert (rsv_id r) seen, pool\<lparr>pool_claims := held\<rparr>) = Inr pool'"
      using Cons.prems by (auto simp: anonymous_def Let_def split: if_splits)
    show ?case
    proof (cases "anonymous r")
      case True
      with rest have "inspect_rows env item variant rs (insert (rsv_id r) seen,
          pool\<lparr>pool_claims := held, pool_eligible := pool_eligible pool @ [r], pool_tracked := pool_tracked pool + rsv_quantity r\<rparr>) = Inr pool'"
        by simp
      from Cons.IH [OF this] row True show ?thesis by simp
    next
      case False
      with rest have "inspect_rows env item variant rs (insert (rsv_id r) seen, pool\<lparr>pool_claims := held\<rparr>) = Inr pool'"
        by simp
      from Cons.IH [OF this] row False show ?thesis by simp
    qed
  qed simp
  then show "pool_eligible pool' = pool_eligible pool @ filter anonymous rows"
    "pool_tracked pool' = pool_tracked pool + sum_list (map rsv_quantity (filter anonymous rows))"
    "\<forall>r \<in> set rows. rsv_inventory_item_id r = item \<and> rsv_deleted_at r = None \<and> 0 < rsv_quantity r" by blast+
qed

subsection \<open>What a release takes\<close>

fun oldest_first :: "int \<Rightarrow> reservation list \<Rightarrow> (reservation \<times> int) list" where
  "oldest_first q [] = []"
| "oldest_first q (r # rs) =
     (if q = 0 then [] else (r, rsv_quantity r - min q (rsv_quantity r)) # oldest_first (q - min q (rsv_quantity r)) rs)"

definition taken :: "(reservation \<times> int) list \<Rightarrow> int" where
  "taken cs = sum_list (map (\<lambda>(r, left). rsv_quantity r - left) cs)"

definition taken_at :: "(reservation \<times> int) list \<Rightarrow> uuid \<Rightarrow> int" where
  "taken_at cs loc = taken (filter (\<lambda>(r, left). rsv_location_id r = loc) cs)"

lemma taken_simps [simp]:
  "taken [] = 0" "taken ((r, left) # cs) = rsv_quantity r - left + taken cs" "taken_at [] loc = 0"
  "taken_at ((r, left) # cs) loc = (if rsv_location_id r = loc then rsv_quantity r - left else 0) + taken_at cs loc"
  by (simp_all add: taken_def taken_at_def)

lemma oldest_first_rows:
  assumes "0 \<le> q" and "\<forall>r \<in> set rs. 0 < rsv_quantity r"
  shows "\<forall>(r, left) \<in> set (oldest_first q rs). r \<in> set rs \<and> 0 \<le> left \<and> left < rsv_quantity r"
    and "\<exists>k. map fst (oldest_first q rs) = take k rs"
    and "sorted_wrt (\<lambda>a b. snd a = 0) (oldest_first q rs)"
proof -
  have "(\<forall>(r, left) \<in> set (oldest_first q rs). r \<in> set rs \<and> 0 \<le> left \<and> left < rsv_quantity r)
    \<and> (\<exists>k. map fst (oldest_first q rs) = take k rs) \<and> sorted_wrt (\<lambda>a b. snd a = 0) (oldest_first q rs)"
    using assms
  proof (induction q rs rule: oldest_first.induct)
    case (2 q r rs)
    show ?case
    proof (cases "q = 0")
      case False
      let ?q = "q - min q (rsv_quantity r)"
      have IH: "(\<forall>(r, left) \<in> set (oldest_first ?q rs). r \<in> set rs \<and> 0 \<le> left \<and> left < rsv_quantity r)
        \<and> (\<exists>k. map fst (oldest_first ?q rs) = take k rs) \<and> sorted_wrt (\<lambda>a b. snd a = 0) (oldest_first ?q rs)"
        by (rule 2(1) [OF False]) (use 2(2,3) in auto)
      then obtain k where "map fst (oldest_first ?q rs) = take k rs" by blast
      then have "map fst (oldest_first q (r # rs)) = take (Suc k) (r # rs)" using False by simp
      moreover have "oldest_first ?q rs = [] \<or> rsv_quantity r - min q (rsv_quantity r) = 0"
        by (cases rs) auto
      ultimately show ?thesis using IH False 2(2,3) by (fastforce simp: min_def)
    qed (use take_0 in auto)
  qed simp
  then show "\<forall>(r, left) \<in> set (oldest_first q rs). r \<in> set rs \<and> 0 \<le> left \<and> left < rsv_quantity r"
    "\<exists>k. map fst (oldest_first q rs) = take k rs" "sorted_wrt (\<lambda>a b. snd a = 0) (oldest_first q rs)" by blast+
qed

definition amount_at :: "(uuid \<times> int) list \<Rightarrow> uuid \<Rightarrow> int" where
  "amount_at m loc = (case map_of m loc of None \<Rightarrow> 0 | Some n \<Rightarrow> n)"

lemma select_rows_Inr:
  assumes "select_rows rs (q, chosen, released) = Inr (q', chosen', released')"
  shows "chosen' = chosen @ oldest_first q rs" and "q' = q - taken (oldest_first q rs)"
    and "amount_at released' loc = amount_at released loc + taken_at (oldest_first q rs) loc"
    and "fst ` set released' = fst ` set released \<union> rsv_location_id ` fst ` set (oldest_first q rs)"
proof -
  have "chosen' = chosen @ oldest_first q rs \<and> q' = q - taken (oldest_first q rs)
    \<and> amount_at released' loc = amount_at released loc + taken_at (oldest_first q rs) loc
    \<and> fst ` set released' = fst ` set released \<union> rsv_location_id ` fst ` set (oldest_first q rs)"
    using assms
  proof (induction rs arbitrary: q chosen released)
    case (Cons r rs)
    show ?case
    proof (cases "q = 0")
      case True
      with Cons.prems show ?thesis by simp
    next
      case False
      let ?n = "min q (rsv_quantity r)"
      have "select_rows rs (q - ?n, chosen @ [(r, rsv_quantity r - ?n)],
          btree_insert (rsv_location_id r) (amount_at released (rsv_location_id r) + ?n) released) = Inr (q', chosen', released')"
        using Cons.prems False by (auto simp: Let_def checked_i32_def amount_at_def split: if_splits)
      from Cons.IH [OF this] False show ?thesis
        by (auto simp: amount_at_def map_of_btree_insert fst_btree_insert)
    qed
  qed simp
  then show "chosen' = chosen @ oldest_first q rs" "q' = q - taken (oldest_first q rs)"
    "amount_at released' loc = amount_at released loc + taken_at (oldest_first q rs) loc"
    "fst ` set released' = fst ` set released \<union> rsv_location_id ` fst ` set (oldest_first q rs)" by blast+
qed

text \<open>The rows a release may take, the oldest first.\<close>

definition release_pool :: "inv_store \<Rightarrow> uuid \<Rightarrow> reservation list" where
  "release_pool s item = filter anonymous (sort_key rsv_created_at (sort_key rsv_id (load_quantity_reservation_rows s item)))"

definition unkeyed :: "uuid \<Rightarrow> reservation \<Rightarrow> bool" where
  "unkeyed item r \<longleftrightarrow> rsv_inventory_item_id r = item \<and> rsv_deleted_at r = None \<and> rsv_external_id r = None
     \<and> rsv_line_item_id r = None"

lemma select_release_Inr:
  assumes "select_release env item variant quantity (load_quantity_reservation_rows s item) = Inr sel"
  shows "sqr_item_id sel = item" and "0 < quantity"
    and "sqr_reservations sel = oldest_first quantity (release_pool s item)"
    and "taken (oldest_first quantity (release_pool s item)) = quantity"
    and "amount_at (sqr_released sel) loc = taken_at (oldest_first quantity (release_pool s item)) loc"
    and "fst ` set (sqr_released sel) = rsv_location_id ` fst ` set (oldest_first quantity (release_pool s item))"
    and "set (release_pool s item) = set (filter (\<lambda>r. unkeyed item r \<and> anonymous r) (inv_reservations s))"
    and "\<forall>r \<in> set (release_pool s item). 0 < rsv_quantity r"
    and "quantity \<le> sum_list (map rsv_quantity (release_pool s item))"
proof -
  let ?rows = "load_quantity_reservation_rows s item"
  obtain pool chosen released where run: "inspect_anonymous_pool env item variant ?rows = Inr pool"
    "select_rows (pool_eligible pool) (quantity, [], []) = Inr (0, chosen, released)" "0 < quantity"
    "quantity \<le> pool_tracked pool"
    "sel = \<lparr>sqr_item_id = item, sqr_reservations = chosen, sqr_released = released, sqr_claims = pool_claims pool\<rparr>"
    using assms by (auto simp: select_release_def)
  have insp: "inspect_rows env item variant (sort_key rsv_created_at (sort_key rsv_id ?rows))
      ({}, \<lparr>pool_eligible = [], pool_tracked = 0, pool_claims = []\<rparr>) = Inr pool"
    and short: "length ?rows \<le> QUANTITY_RESERVATION_ROW_LIMIT"
    using run(1) by (auto simp: inspect_anonymous_pool_def)
  note pool = inspect_rows_Inr [OF insp]
  have eligible: "pool_eligible pool = release_pool s item" using pool(1) by (simp add: release_pool_def)
  note rows = select_rows_Inr [OF run(2) [unfolded eligible]]
  show "sqr_item_id sel = item" "0 < quantity" using run by simp_all
  show "sqr_reservations sel = oldest_first quantity (release_pool s item)"
    "taken (oldest_first quantity (release_pool s item)) = quantity"
    "amount_at (sqr_released sel) loc = taken_at (oldest_first quantity (release_pool s item)) loc"
    "fst ` set (sqr_released sel) = rsv_location_id ` fst ` set (oldest_first quantity (release_pool s item))"
    using rows run(5) by (simp_all add: amount_at_def)
  let ?all = "filter (\<lambda>r. rsv_inventory_item_id r = item \<and> rsv_deleted_at r = None \<and> rsv_external_id r = None
          \<and> rsv_line_item_id r = None) (inv_reservations s)"
  have "?rows = sort_key rsv_created_at (sort_key rsv_id ?all)"
    using short by (auto simp: load_quantity_reservation_rows_def)
  then have "set ?rows = set ?all" by simp
  then show "set (release_pool s item) = set (filter (\<lambda>r. unkeyed item r \<and> anonymous r) (inv_reservations s))"
    by (auto simp: release_pool_def unkeyed_def)
  show "\<forall>r \<in> set (release_pool s item). 0 < rsv_quantity r"
    using pool(3) by (auto simp: release_pool_def)
  show "quantity \<le> sum_list (map rsv_quantity (release_pool s item))"
    using run(4) pool(2) by (simp add: release_pool_def)
qed

subsection \<open>What it does to the levels\<close>

lemma bind_each_Inr:
  assumes "bind_each sel owned held ls (seen, changes) = Inr changes'"
  shows "changes' = changes @ map (\<lambda>l. (l, il_reserved_quantity l - amount_at (sqr_released sel) (il_location_id l))) ls"
    and "\<forall>l \<in> set ls. il_location_id l \<in> fst ` set (sqr_released sel)
      \<and> 0 \<le> il_reserved_quantity l - amount_at (sqr_released sel) (il_location_id l)"
    and "distinct (map il_location_id ls)"
proof -
  have "changes' = changes @ map (\<lambda>l. (l, il_reserved_quantity l - amount_at (sqr_released sel) (il_location_id l))) ls
    \<and> (\<forall>l \<in> set ls. il_location_id l \<in> fst ` set (sqr_released sel) \<and> il_location_id l \<notin> seen
      \<and> 0 \<le> il_reserved_quantity l - amount_at (sqr_released sel) (il_location_id l)) \<and> distinct (map il_location_id ls)"
    using assms
  proof (induction ls arbitrary: seen changes)
    case (Cons l ls)
    obtain left where left: "bind_level sel owned held l seen = Inr left"
      "bind_each sel owned held ls (insert (il_location_id l) seen, changes @ [(l, left)]) = Inr changes'"
      using Cons.prems by auto
    have "left = il_reserved_quantity l - amount_at (sqr_released sel) (il_location_id l) \<and> 0 \<le> left
      \<and> il_location_id l \<in> fst ` set (sqr_released sel) \<and> il_location_id l \<notin> seen"
      using left(1) by (auto simp: bind_level_def checked_i32_def amount_at_def dest: map_of_SomeD
          intro: rev_image_eqI split: if_splits)
    with Cons.IH [OF left(2)] show ?case by auto
  qed simp
  then show "changes' = changes @ map (\<lambda>l. (l, il_reserved_quantity l - amount_at (sqr_released sel) (il_location_id l))) ls"
    "\<forall>l \<in> set ls. il_location_id l \<in> fst ` set (sqr_released sel)
      \<and> 0 \<le> il_reserved_quantity l - amount_at (sqr_released sel) (il_location_id l)"
    "distinct (map il_location_id ls)" by blast+
qed

definition release_row :: "inv_env \<Rightarrow> (reservation \<times> int) list \<Rightarrow> reservation \<Rightarrow> reservation" where
  "release_row env cs r = (case map_of (map (\<lambda>(x, left). (rsv_id x, left)) cs) (rsv_id r) of
     None \<Rightarrow> r | Some left \<Rightarrow> released_row env left r)"

definition lower_level :: "inv_env \<Rightarrow> uuid \<Rightarrow> (reservation \<times> int) list \<Rightarrow> stock_level \<Rightarrow> stock_level" where
  "lower_level env item cs l =
     (if il_inventory_item_id l = item \<and> il_location_id l \<in> rsv_location_id ` fst ` set cs
      then reserve_level env (il_reserved_quantity l - taken_at cs (il_location_id l)) l else l)"

definition release_effect :: "inv_env \<Rightarrow> uuid \<Rightarrow> (reservation \<times> int) list \<Rightarrow> inv_store \<Rightarrow> inv_store" where
  "release_effect env item cs s = s\<lparr>inv_reservations := map (release_row env cs) (inv_reservations s),
     inv_levels := map (lower_level env item cs) (inv_levels s)\<rparr>"

lemma distinct_map_sort_key: "distinct (map k xs) \<Longrightarrow> distinct (map k (sort_key f xs))"
  by (simp add: distinct_map)

lemma release_pool_ids:
  "unique_rows reservation_clash (inv_reservations s) \<Longrightarrow> distinct (map rsv_id (release_pool s item))"
  unfolding release_pool_def load_quantity_reservation_rows_def
  by (intro distinct_map_filter distinct_map_sort_key)
    (simp only: take_map [symmetric], intro distinct_take distinct_map_sort_key distinct_map_filter reservation_ids)

lemma take_shorter: "length (take (Suc n) xs) \<le> n \<Longrightarrow> take (Suc n) xs = xs"
  by simp

lemma apply_release_Inr:
  assumes "apply_release env s p = Inr s'" and "stock_ok s"
    and rows: "rlp_reservations p = cs" "distinct (map (rsv_id \<circ> fst) cs)"
    and levels: "set (rlp_levels p) = (\<lambda>l. (l, il_reserved_quantity l - taken_at cs (il_location_id l))) ` {l \<in> set (inv_levels s).
        il_inventory_item_id l = item \<and> il_location_id l \<in> rsv_location_id ` fst ` set cs}"
      "distinct (map (il_id \<circ> fst) (rlp_levels p))"
  shows "s' = release_effect env item cs s"
proof -
  have ul: "unique_rows stock_level_clash (inv_levels s)" and ur: "unique_rows reservation_clash (inv_reservations s)"
    using assms(2) by (simp_all add: stock_ok_def)
  obtain rs ls where run: "update_each releases_row (released_row env) inconsistent_release cs (inv_reservations s) = Inr rs"
    "update_each same_counters (reserve_level env) inconsistent_release (rlp_levels p) (inv_levels s) = Inr ls"
    "s' = s\<lparr>inv_reservations := rs, inv_levels := ls\<rparr>"
    using assms(1) rows(1) by (auto simp: apply_release_def)
  have rs: "rs = map (release_row env cs) (inv_reservations s)"
    using reservation_rows.update_each_keyed [OF reservation_ids [OF ur] rows(2) run(1)]
    by (simp add: release_row_def [abs_def])
  let ?m = "map_of (map (\<lambda>(x, c). (il_id x, c)) (rlp_levels p))"
  have keys: "distinct (map fst (map (\<lambda>(x, c). (il_id x, c)) (rlp_levels p)))"
    using levels(2) by (simp add: comp_def case_prod_beta)
  have "(case ?m (il_id y) of None \<Rightarrow> y | Some c \<Rightarrow> reserve_level env c y) = lower_level env item cs y"
    if y: "y \<in> set (inv_levels s)" for y
  proof (cases "il_inventory_item_id y = item \<and> il_location_id y \<in> rsv_location_id ` fst ` set cs")
    case True
    with y levels(1) have "(y, il_reserved_quantity y - taken_at cs (il_location_id y)) \<in> set (rlp_levels p)" by blast
    then have "?m (il_id y) = Some (il_reserved_quantity y - taken_at cs (il_location_id y))"
      by (intro map_of_is_SomeI [OF keys]) force
    with True show ?thesis by (simp add: lower_level_def)
  next
    case False
    have "il_id y \<noteq> il_id l" if "(l, c) \<in> set (rlp_levels p)" for l c
    proof
      assume "il_id y = il_id l"
      moreover have "l \<in> set (inv_levels s)" "il_inventory_item_id l = item"
        "il_location_id l \<in> rsv_location_id ` fst ` set cs" using that levels(1) by auto
      ultimately show False using y level_ids [OF ul] False by (auto simp: distinct_map inj_on_def)
    qed
    then have "il_id y \<notin> fst ` set (map (\<lambda>(x, c). (il_id x, c)) (rlp_levels p))" by fastforce
    then have "?m (il_id y) = None" by (simp only: map_of_eq_None_iff simp_thms)
    with False show ?thesis by (auto simp: lower_level_def)
  qed
  then have "ls = map (lower_level env item cs) (inv_levels s)"
    using level_rows.update_each_keyed [OF level_ids [OF ul] levels(2) run(2)] by simp
  with rs run(3) show ?thesis by (simp add: release_effect_def)
qed

lemma release_in_transaction_outcome:
  assumes "release_in_transaction env s ctx tenant v quantity = Inr (s', r)" and "stock_ok s"
  obtains i cs where "find_item s (vr_id v) = Some i" "cs = oldest_first quantity (release_pool s (ii_id i))"
    "0 < quantity" "taken cs = quantity" "same_stock (release_effect env (ii_id i) cs s) s'"
    "r = release_result_of quantity (available_units s' (ii_id i)) (vr_inventory_policy v)"
    "set (release_pool s (ii_id i)) = set (filter (\<lambda>r. unkeyed (ii_id i) r \<and> anonymous r) (inv_reservations s))"
    "\<forall>r \<in> set (release_pool s (ii_id i)). 0 < rsv_quantity r"
    "\<exists>event. prepare_event env s ctx v = Inr event \<and> publish_event env (release_effect env (ii_id i) cs s) event = Inr s'"
proof -
  obtain i sel where sel: "find_item s (vr_id v) = Some i"
    "select_release env (ii_id i) (vr_id v) quantity (load_quantity_reservation_rows s (ii_id i)) = Inr sel"
    using assms(1) by (auto simp: release_in_transaction_def)
  define cs where "cs = oldest_first quantity (release_pool s (ii_id i))"
  note cs = select_release_Inr [OF sel(2), folded cs_def]
  let ?in = "\<lambda>l. il_inventory_item_id l = ii_id i \<and> il_location_id l \<in> set (location_ids sel)"
  let ?X = "sort_key il_location_id (sort_key il_id (filter ?in (inv_levels s)))"
  let ?levels = "take (QUANTITY_RESERVATION_ROW_LIMIT + 1) ?X"
  obtain locations held plan event s1 available where run:
    "load_active_reservation_claims s (ii_id i) (location_ids sel) = Inr held"
    "bind_levels sel tenant locations ?levels held = Inr plan" "apply_release env s plan = Inr s1"
    "available_quantity s1 (ii_id i) = Inr available" "publish_event env s1 event = Inr s'"
    "r = release_result_of quantity available (vr_inventory_policy v)" "prepare_event env s ctx v = Inr event"
    using assms(1) by (auto simp: release_in_transaction_def sel Let_def)
  obtain owned changes where bind: "length ?levels = length (sqr_released sel)"
    "bind_each sel owned held ?levels ({}, []) = Inr changes" "rlp_reservations plan = sqr_reservations sel"
    "rlp_levels plan = sort_key (\<lambda>c. il_location_id (fst c)) (sort_key (\<lambda>c. il_id (fst c)) changes)"
    using run(2) by (auto simp: bind_levels_def Let_def)
  have "length (sqr_released sel) \<le> QUANTITY_RESERVATION_ROW_LIMIT"
    using run(1) by (auto simp: load_active_reservation_claims_def location_ids_def)
  then have whole: "?levels = ?X" using bind(1) take_shorter [of QUANTITY_RESERVATION_ROW_LIMIT ?X] by simp
  note each = bind_each_Inr(1) [OF bind(2) [unfolded whole]]
  have locs: "set (location_ids sel) = rsv_location_id ` fst ` set cs"
    using cs(6) by (simp add: location_ids_def)
  have changes: "changes = map (\<lambda>l. (l, il_reserved_quantity l - taken_at cs (il_location_id l))) ?X"
    using each cs(5) by simp
  have s1: "s1 = release_effect env (ii_id i) cs s"
  proof (rule apply_release_Inr [OF run(3) assms(2)])
    show "rlp_reservations plan = cs" using bind(3) cs(3) by simp
    obtain k where "map fst cs = take k (release_pool s (ii_id i))"
      using oldest_first_rows(2) cs(2,8) unfolding cs_def by (metis less_imp_le)
    then have "map (rsv_id \<circ> fst) cs = take k (map rsv_id (release_pool s (ii_id i)))" by (metis map_map take_map)
    then show "distinct (map (rsv_id \<circ> fst) cs)"
      using release_pool_ids assms(2) by (simp add: stock_ok_def)
    show "set (rlp_levels plan) = (\<lambda>l. (l, il_reserved_quantity l - taken_at cs (il_location_id l))) ` {l \<in> set (inv_levels s).
        il_inventory_item_id l = ii_id i \<and> il_location_id l \<in> rsv_location_id ` fst ` set cs}"
      using bind(4) changes locs by auto
    have "distinct (map il_id ?X)"
      using assms(2) by (intro distinct_map_sort_key distinct_map_filter level_ids) (simp add: stock_ok_def)
    then show "distinct (map (il_id \<circ> fst) (rlp_levels plan))"
      unfolding bind(4) changes by (intro distinct_map_sort_key) (simp add: comp_def)
  qed
  have "available = available_units s1 (ii_id i)" by (rule available_quantity_units [OF run(4)])
  also have "\<dots> = available_units s' (ii_id i)"
    using available_units_stock [OF publish_event_stock [OF run(5)]] by simp
  finally show thesis
    using that [of i cs] sel(1) cs_def cs(2,4,7,8) publish_event_stock [OF run(5)] s1 run(5-7) by auto
qed

subsection \<open>What is left of the claims\<close>

definition releasable :: "inv_store \<Rightarrow> uuid \<Rightarrow> (reservation \<times> int) list \<Rightarrow> bool" where
  "releasable s item cs \<longleftrightarrow> distinct (map (rsv_id \<circ> fst) cs)
     \<and> (\<forall>(x, left) \<in> set cs. x \<in> set (inv_reservations s) \<and> unkeyed item x \<and> anonymous x \<and> 0 \<le> left \<and> left < rsv_quantity x)"

lemma sum_list_point:
  fixes f :: "'a \<Rightarrow> int"
  assumes "distinct xs" and "x \<in> set xs" and "\<And>y. y \<in> set xs \<Longrightarrow> y \<noteq> x \<Longrightarrow> f y = g y"
  shows "sum_list (map f xs) = sum_list (map g xs) + (f x - g x)"
  using assms
proof (induction xs)
  case (Cons z zs)
  show ?case
  proof (cases "z = x")
    case True
    then have "map f zs = map g zs" using Cons.prems by (intro map_cong) auto
    then have "sum_list (map f zs) = sum_list (map g zs)" by metis
    with True show ?thesis by simp
  next
    case False
    then show ?thesis using Cons by auto
  qed
qed simp

lemma release_row_simps [simp]:
  "release_row env [] r = r"
  "release_row env ((x, left) # cs) r = (if rsv_id r = rsv_id x then released_row env left r else release_row env cs r)"
  by (simp_all add: release_row_def)

lemma release_row_other: "rsv_id r \<notin> (rsv_id \<circ> fst) ` set cs \<Longrightarrow> release_row env cs r = r"
  by (induction cs) auto

lemma released_row_quantity [simp]: "rsv_quantity (released_row env left r) = left"
  by (simp add: released_row_def Let_def)

lemma sum_released:
  assumes "distinct (map rsv_id rows)" and "distinct (map (rsv_id \<circ> fst) cs)" and "fst ` set cs \<subseteq> set rows"
  shows "sum_list (map (\<lambda>r. if P r then rsv_quantity r else 0) rows)
    = sum_list (map (\<lambda>r. if P r then rsv_quantity (release_row env cs r) else 0) rows) + taken (filter (P \<circ> fst) cs)"
  using assms(2,3)
proof (induction cs)
  case (Cons xl cs)
  obtain x left where xl: "xl = (x, left)" by force
  let ?f = "\<lambda>r. if P r then rsv_quantity (release_row env cs r) else 0"
  let ?g = "\<lambda>r. if P r then rsv_quantity (release_row env (xl # cs) r) else 0"
  have "sum_list (map ?f rows) = sum_list (map ?g rows) + (?f x - ?g x)"
  proof (rule sum_list_point)
    show "distinct rows" using assms(1) by (simp add: distinct_map)
    show "x \<in> set rows" using Cons.prems(2) by (simp add: xl)
    fix y assume "y \<in> set rows" "y \<noteq> x"
    then have "rsv_id y \<noteq> rsv_id x" using assms(1) \<open>x \<in> set rows\<close> by (auto simp: distinct_map inj_on_def)
    then show "?f y = ?g y" by (simp add: xl)
  qed
  moreover have "release_row env cs x = x" using Cons.prems(1) by (intro release_row_other) (simp add: xl)
  ultimately show ?case using Cons by (simp add: xl)
qed (simp cong: if_cong)

lemma claimed_all:
  assumes "\<forall>r \<in> set (inv_reservations s). rsv_deleted_at r \<noteq> None \<longrightarrow> rsv_quantity r = 0"
  shows "claimed s item loc
    = sum_list (map (\<lambda>r. if rsv_inventory_item_id r = item \<and> rsv_location_id r = loc then rsv_quantity r else 0) (inv_reservations s))"
proof -
  have "sum_list (map rsv_quantity (filter (live_claim item loc) rs))
    = sum_list (map (\<lambda>r. if rsv_inventory_item_id r = item \<and> rsv_location_id r = loc then rsv_quantity r else 0) rs)"
    if "\<forall>r \<in> set rs. rsv_deleted_at r \<noteq> None \<longrightarrow> rsv_quantity r = 0" for rs
    using that by (induction rs) (auto simp: live_claim_def)
  with assms show ?thesis by (simp add: claimed_def)
qed

lemma release_row_keys:
  "rsv_id (release_row env cs r) = rsv_id r" "rsv_inventory_item_id (release_row env cs r) = rsv_inventory_item_id r"
  "rsv_location_id (release_row env cs r) = rsv_location_id r"
  by (simp_all add: release_row_def released_row_def Let_def split: option.split)

lemma reservation_ok_deleted: "reservation_ok s r \<Longrightarrow> rsv_deleted_at r \<noteq> None \<Longrightarrow> rsv_quantity r = 0"
  by (auto simp: reservation_ok_def)

text \<open>A row is left alone, or it was taken from, and is deleted exactly when nothing of it is left.\<close>

lemma release_row_cases:
  assumes "releasable s item cs" and "distinct (map rsv_id (inv_reservations s))" and "r \<in> set (inv_reservations s)"
  shows "release_row env cs r = r \<and> r \<notin> fst ` set cs
    \<or> (\<exists>left. (r, left) \<in> set cs \<and> release_row env cs r = released_row env left r)"
proof (cases "map_of (map (\<lambda>(x, left). (rsv_id x, left)) cs) (rsv_id r)")
  case None
  then have "rsv_id r \<notin> fst ` set (map (\<lambda>(x, left). (rsv_id x, left)) cs)" unfolding map_of_eq_None_iff .
  then have "r \<notin> fst ` set cs" by (auto simp: image_image case_prod_beta)
  moreover have "release_row env cs r = r" using None by (simp add: release_row_def)
  ultimately show ?thesis by blast
next
  case (Some left)
  then obtain x where x: "(x, left) \<in> set cs" "rsv_id x = rsv_id r" by (force dest: map_of_SomeD)
  with assms have "x = r" by (force simp: releasable_def distinct_map inj_on_def)
  with x Some show ?thesis by (auto simp: release_row_def)
qed

lemma release_row_ok:
  assumes "releasable s item cs" and "stock_ok s" and "r \<in> set (inv_reservations s)"
  shows "reservation_ok s (release_row env cs r)"
proof -
  have ids: "distinct (map rsv_id (inv_reservations s))" using assms(2) by (auto simp: stock_ok_def intro: reservation_ids)
  have r: "reservation_ok s r" using assms(2,3) by (simp add: stock_ok_def)
  from release_row_cases [OF assms(1) ids assms(3), of env] show ?thesis
  proof (elim disjE conjE exE)
    fix left assume "(r, left) \<in> set cs" "release_row env cs r = released_row env left r"
    with assms(1) r show ?thesis by (auto simp: releasable_def unkeyed_def reservation_ok_def released_row_def Let_def)
  qed (use r in simp)
qed

lemma taken_at_out: "loc \<notin> rsv_location_id ` fst ` set cs \<Longrightarrow> taken_at cs loc = 0"
  by (induction cs) auto

lemma taken_at_nonneg: "releasable s item cs \<Longrightarrow> 0 \<le> taken_at cs loc"
  unfolding taken_at_def taken_def releasable_def by (intro sum_list_nonneg) fastforce

lemma claimed_released:
  assumes "releasable s item cs" and "stock_ok s"
  shows "claimed (release_effect env item cs s) it loc = claimed s it loc - (if it = item then taken_at cs loc else 0)"
proof -
  have ids: "distinct (map rsv_id (inv_reservations s))" using assms(2) by (auto simp: stock_ok_def intro: reservation_ids)
  let ?P = "\<lambda>r. rsv_inventory_item_id r = it \<and> rsv_location_id r = loc"
  have cs: "distinct (map (rsv_id \<circ> fst) cs)" "fst ` set cs \<subseteq> set (inv_reservations s)"
    using assms(1) by (auto simp: releasable_def)
  have "claimed s it loc = sum_list (map (\<lambda>r. if ?P r then rsv_quantity r else 0) (inv_reservations s))"
    by (rule claimed_all) (use assms(2) in \<open>auto simp: stock_ok_def reservation_ok_def\<close>)
  also have "\<dots> = sum_list (map (\<lambda>r. if ?P r then rsv_quantity (release_row env cs r) else 0) (inv_reservations s))
      + taken (filter (?P \<circ> fst) cs)"
    by (rule sum_released [OF ids cs])
  also have "sum_list (map (\<lambda>r. if ?P r then rsv_quantity (release_row env cs r) else 0) (inv_reservations s))
      = claimed (release_effect env item cs s) it loc"
  proof -
    have "\<forall>r \<in> set (inv_reservations (release_effect env item cs s)). rsv_deleted_at r \<noteq> None \<longrightarrow> rsv_quantity r = 0"
      by (auto simp: release_effect_def intro: reservation_ok_deleted [OF release_row_ok [OF assms]])
    from claimed_all [OF this, of it loc] show ?thesis
      by (simp add: release_effect_def comp_def release_row_keys)
  qed
  also have "taken (filter (?P \<circ> fst) cs) = (if it = item then taken_at cs loc else 0)"
  proof -
    have "filter (?P \<circ> fst) cs = (if it = item then filter (\<lambda>(r, left). rsv_location_id r = loc) cs else [])"
      using assms(1) by (auto simp: releasable_def unkeyed_def filter_empty_conv intro!: filter_cong)
    then show ?thesis by (simp add: taken_at_def)
  qed
  finally show ?thesis by simp
qed

lemma release_effect_ok:
  assumes "releasable s item cs" and "stock_ok s"
  shows "stock_ok (release_effect env item cs s)" (is "stock_ok ?t")
proof (rule stock_ok_update [OF assms(2), where f = "lower_level env item cs"])
  show "unique_rows reservation_clash (inv_reservations ?t)"
    using assms(2) by (auto simp: release_effect_def stock_ok_def reservation_clash_def release_row_keys intro!: unique_rows_map)
  show "reservation_ok s r" if "r \<in> set (inv_reservations ?t)" for r
    using that release_row_ok [OF assms] by (auto simp: release_effect_def)
  fix l assume "l \<in> set (inv_levels s)"
  then have l: "level_ok s l" using assms(2) by (simp add: stock_ok_def)
  show "0 \<le> il_stocked_quantity (lower_level env item cs l)
    \<and> il_reserved_quantity (lower_level env item cs l) = claimed ?t (il_inventory_item_id l) (il_location_id l)
    \<and> (denies_backorder s (il_inventory_item_id l) \<longrightarrow>
        il_reserved_quantity (lower_level env item cs l) \<le> il_stocked_quantity (lower_level env item cs l))"
    using l taken_at_out [of "il_location_id l" cs] taken_at_nonneg [OF assms(1), of "il_location_id l"]
    unfolding claimed_released [OF assms] by (auto simp: lower_level_def level_ok_def reserve_level_def)
qed (auto simp: release_effect_def lower_level_def reserve_level_def)

subsection \<open>The available quantity\<close>

lemma sum_taken_at:
  assumes "distinct (map il_location_id ls)" and "rsv_location_id ` fst ` set cs \<subseteq> il_location_id ` set ls"
  shows "sum_list (map (\<lambda>l. taken_at cs (il_location_id l)) ls) = taken cs"
  using assms(2)
proof (induction cs)
  case (Cons xl cs)
  obtain x left where xl: "xl = (x, left)" by force
  then obtain l where l: "l \<in> set ls" "il_location_id l = rsv_location_id x" using Cons.prems by auto
  have "sum_list (map (\<lambda>l. taken_at (xl # cs) (il_location_id l)) ls)
    = sum_list (map (\<lambda>l. taken_at cs (il_location_id l)) ls)
      + (taken_at (xl # cs) (il_location_id l) - taken_at cs (il_location_id l))"
  proof (rule sum_list_point)
    show "distinct ls" using assms(1) by (simp add: distinct_map)
    fix y assume "y \<in> set ls" "y \<noteq> l"
    then have "il_location_id y \<noteq> rsv_location_id x" using assms(1) l by (auto simp: distinct_map inj_on_def)
    then show "taken_at (xl # cs) (il_location_id y) = taken_at cs (il_location_id y)" by (simp add: xl)
  qed (rule l(1))
  also have "taken_at (xl # cs) (il_location_id l) - taken_at cs (il_location_id l) = rsv_quantity x - left"
    by (simp add: xl l(2))
  finally show ?case using Cons by (simp add: xl)
qed simp

lemma release_effect_units:
  assumes "releasable s item cs" and "stock_ok s"
  shows "available_units (release_effect env item cs s) item = available_units s item + taken cs"
proof -
  let ?ls = "item_levels s item"
  have ul: "unique_rows stock_level_clash (inv_levels s)" using assms(2) by (simp add: stock_ok_def)
  have "distinct (inv_levels s)" using level_ids [OF ul] by (simp add: distinct_map)
  then have locs: "distinct (map il_location_id ?ls)"
    using stock_level_table.unique_eq [OF ul]
    by (auto simp: item_levels_def distinct_map inj_on_def stock_level_clash_def)
  have "rsv_location_id ` fst ` set cs \<subseteq> il_location_id ` set ?ls"
  proof clarsimp
    fix x left assume "(x, left) \<in> set cs"
    with assms have "reservation_ok s x" "rsv_deleted_at x = None" "rsv_inventory_item_id x = item"
      by (auto simp: releasable_def unkeyed_def stock_ok_def)
    then show "rsv_location_id x \<in> il_location_id ` set ?ls"
      by (auto simp: reservation_ok_def item_levels_def image_iff)
  qed
  note total = sum_taken_at [OF locs this]
  have "item_levels (release_effect env item cs s) item = map (lower_level env item cs) ?ls"
    by (rule item_levels_map) (simp_all add: release_effect_def lower_level_def reserve_level_def)
  moreover have "il_stocked_quantity (lower_level env item cs l) - il_reserved_quantity (lower_level env item cs l)
      = (il_stocked_quantity l - il_reserved_quantity l) + taken_at cs (il_location_id l)" if "l \<in> set ?ls" for l
    using that taken_at_out [of "il_location_id l" cs] by (auto simp: lower_level_def reserve_level_def item_levels_def)
  then have "map (\<lambda>l. il_stocked_quantity (lower_level env item cs l) - il_reserved_quantity (lower_level env item cs l)) ?ls
      = map (\<lambda>l. (il_stocked_quantity l - il_reserved_quantity l) + taken_at cs (il_location_id l)) ?ls"
    by (intro map_cong) simp_all
  then have "sum_list (map (\<lambda>l. il_stocked_quantity (lower_level env item cs l) - il_reserved_quantity (lower_level env item cs l)) ?ls)
      = available_units s item + taken cs"
    by (simp add: sum_list_addf total available_units_def del: map_eq_conv)
  ultimately show ?thesis
    by (simp add: available_units_def comp_def)
qed

lemma releasable_oldest:
  assumes "stock_ok s" and "0 < quantity"
    and "set (release_pool s item) = set (filter (\<lambda>r. unkeyed item r \<and> anonymous r) (inv_reservations s))"
    and "\<forall>r \<in> set (release_pool s item). 0 < rsv_quantity r"
  shows "releasable s item (oldest_first quantity (release_pool s item))"
proof -
  let ?cs = "oldest_first quantity (release_pool s item)"
  note facts = oldest_first_rows [OF less_imp_le [OF assms(2)] assms(4)]
  from facts(2) obtain k where "map fst ?cs = take k (release_pool s item)" by blast
  then have "map (rsv_id \<circ> fst) ?cs = take k (map rsv_id (release_pool s item))" by (metis map_map take_map)
  then have "distinct (map (rsv_id \<circ> fst) ?cs)" using release_pool_ids assms(1) by (simp add: stock_ok_def)
  then show ?thesis using facts(1) assms(3) by (fastforce simp: releasable_def)
qed

lemma release_in_transaction_ok:
  assumes "release_in_transaction env s ctx tenant v quantity = Inr (s', r)" and "stock_ok s"
  shows "stock_ok s'"
proof -
  obtain i cs where o: "find_item s (vr_id v) = Some i" "cs = oldest_first quantity (release_pool s (ii_id i))"
    "0 < quantity" "taken cs = quantity" "same_stock (release_effect env (ii_id i) cs s) s'"
    "r = release_result_of quantity (available_units s' (ii_id i)) (vr_inventory_policy v)"
    "set (release_pool s (ii_id i)) = set (filter (\<lambda>r. unkeyed (ii_id i) r \<and> anonymous r) (inv_reservations s))"
    "\<forall>r \<in> set (release_pool s (ii_id i)). 0 < rsv_quantity r"
    by (rule release_in_transaction_outcome [OF assms])
  have "releasable s (ii_id i) cs" unfolding o(2) by (rule releasable_oldest [OF assms(2) o(3,7,8)])
  from release_effect_ok [OF this assms(2)] same_stock_ok [OF o(5)] show ?thesis by simp
qed

end
