(* ===== verification/Inventory_Lifecycle.thy ===== *)
theory Inventory_Lifecycle
  imports Inventory_Safety Inventory_Baseline Inventory_Deletion
begin

text \<open>
  What building a baseline, listing a variant and removing one do to the tables of the stock.
\<close>

subsection \<open>Building a baseline\<close>

lemma run_budgeted_outcome:
  assumes "run_budgeted timing s work = (s', res)"
  shows "s' = s \<and> (\<exists>e. res = Inl e) \<or> (\<exists>p. work = Inr (s', p) \<and> (\<forall>q. res = Inr q \<longrightarrow> q = p))"
  using assms by (auto simp: run_budgeted_def split: sum.splits call_timing.splits if_splits)

lemma start_in_Inr:
  assumes "start_in env s tenant actor i = Inr (s', p)"
  shows "\<exists>bs. s' = s\<lparr>src_baselines := bs\<rparr> \<and> (bs = src_baselines s \<or>
     insert_unique source_baseline_clash (new_baseline tenant actor i) (src_baselines s) = Some bs \<and> \<not> stranded s tenant)"
  using assms by (auto simp: start_in_def Let_def split: option.splits intro: exI [of _ "src_baselines s"])

lemma insert_record_Inr:
  assumes "insert_record env s tenant baseline snap kind = Inr s'"
  shows "\<exists>rs cs. s' = s\<lparr>src_records := rs, src_changes := cs\<rparr>"
  using assms by (auto simp: insert_record_def append_change_def)

lemma insert_each_Inr:
  "insert_each env ids s tenant baseline snaps = Inr s' \<Longrightarrow> \<exists>rs cs. s' = s\<lparr>src_records := rs, src_changes := cs\<rparr>"
proof (induction snaps arbitrary: ids s)
  case Nil
  then show ?case by (intro exI [of _ "src_records s"] exI [of _ "src_changes s"]) simp
next
  case (Cons snap snaps)
  then obtain t where t: "insert_record (env\<lparr>src_change_id := ids 0\<rparr>) s tenant baseline snap ''baseline'' = Inr t"
    "insert_each env (\<lambda>n. ids (Suc n)) t tenant baseline snaps = Inr s'" by auto
  obtain rs cs where "s' = t\<lparr>src_records := rs, src_changes := cs\<rparr>" using Cons.IH [OF t(2)] by blast
  moreover obtain rs' cs' where "t = s\<lparr>src_records := rs', src_changes := cs'\<rparr>" using insert_record_Inr [OF t(1)] by blast
  ultimately show ?case by (intro exI [of _ rs] exI [of _ cs]) simp
qed

lemma publish_source_Inr:
  "publish_source s tenant actor envelope event = Inr s' \<Longrightarrow> \<exists>ob. s' = s\<lparr>inv_outbox := ob\<rparr>"
  by (auto simp: publish_source_def publish_once_def Let_def split: option.splits if_splits intro: exI [of _ "inv_outbox s"])

text \<open>A page that is copied.\<close>

lemma copy_page_Inr:
  assumes "copy_page env ids s tenant publisher request saved = Inr (s', p)"
  obtains found snaps t n ps bs b u where "found = page_variants s tenant (pr_after_variant_id request) (pr_limit request)"
    "snapshot_each env s tenant 0 (take (pr_limit request) found) = Inr snaps"
    "insert_each env ids s tenant (pr_baseline_id request) snaps = Inr t"
    "n = bl_record_count saved + int (length (take (pr_limit request) found))"
    "insert_unique source_page_clash (new_page tenant request (if take (pr_limit request) found = [] then bl_last_variant_id saved
        else Some (last (take (pr_limit request) found))) (pr_limit request < length found) n) (src_pages t) = Some ps"
    "update_one (advances_baseline saved tenant request) (advanced_baseline request (if take (pr_limit request) found = []
        then bl_last_variant_id saved else Some (last (take (pr_limit request) found)), pr_limit request < length found, n))
        (src_baselines t) = Some bs"
    "u = t\<lparr>src_pages := ps, src_baselines := bs\<rparr>" "saved_baseline u tenant = Inr (Some b)" "baseline_progress_of b = Inr p"
    "if bl_active b then publish_activated u tenant publisher (bl_baseline_id b) = Inr s' else s' = u"
  using assms by (auto simp: copy_page_def Let_def split: if_splits)

lemma copy_page_frame:
  assumes "copy_page env ids s tenant publisher request saved = Inr (s', p)"
  shows "\<exists>rs cs ps bs ob. s' = s\<lparr>src_records := rs, src_changes := cs, src_pages := ps, src_baselines := bs, inv_outbox := ob\<rparr>"
proof (rule copy_page_Inr [OF assms])
  fix snaps t ps bs b u
  assume t: "insert_each env ids s tenant (pr_baseline_id request) snaps = Inr t"
    and u: "u = t\<lparr>src_pages := ps, src_baselines := bs\<rparr>"
    and s': "if bl_active b then publish_activated u tenant publisher (bl_baseline_id b) = Inr s' else s' = u"
  have "\<exists>ob. s' = u\<lparr>inv_outbox := ob\<rparr>"
  proof (cases "bl_active b")
    case True
    with s' show ?thesis by (simp add: publish_activated_def publish_source_Inr)
  next
    case False
    with s' show ?thesis by (intro exI [of _ "inv_outbox u"]) simp
  qed
  then obtain ob where "s' = u\<lparr>inv_outbox := ob\<rparr>" by blast
  moreover obtain rs cs where "t = s\<lparr>src_records := rs, src_changes := cs\<rparr>" using insert_each_Inr [OF t] by blast
  ultimately show ?thesis
    by (intro exI [of _ rs] exI [of _ cs] exI [of _ ps] exI [of _ bs] exI [of _ ob]) (simp add: u)
qed

lemma copy_page_stock:
  assumes "copy_page env ids s tenant publisher request saved = Inr (s', p)"
  shows "inv_products s' = inv_products s" "inv_variants s' = inv_variants s" "inv_items s' = inv_items s"
    "inv_levels s' = inv_levels s" "inv_reservations s' = inv_reservations s" "inv_locations s' = inv_locations s"
  using copy_page_frame [OF assms] by auto

lemma advance_in_Inr:
  assumes "advance_in env ids s tenant actor publisher request = Inr (s', p)"
  obtains saved q where "saved_baseline s tenant = Inr (Some saved)" "bl_baseline_id saved = pr_baseline_id request"
      "bl_actor_id saved = actor" "List.find (\<lambda>p. pg_tenant_id p = tenant \<and> pg_page_id p = pr_page_id request) (src_pages s) = Some q"
      "replay_page tenant request q = Inr p" "s' = s"
  | saved where "saved_baseline s tenant = Inr (Some saved)" "bl_baseline_id saved = pr_baseline_id request"
      "\<not> bl_active saved" "bl_last_variant_id saved = pr_after_variant_id request"
      "List.find (\<lambda>p. pg_tenant_id p = tenant \<and> pg_page_id p = pr_page_id request) (src_pages s) = None"
      "source_gate env tenant = Inr ()" "copy_page env ids s tenant publisher request saved = Inr (s', p)"
proof -
  obtain saved where saved: "saved_baseline s tenant = Inr (Some saved)" "bl_baseline_id saved = pr_baseline_id request"
    "bl_actor_id saved = actor" "source_gate env tenant = Inr ()"
    using assms by (auto simp: advance_in_def)
  show thesis
  proof (cases "List.find (\<lambda>p. pg_tenant_id p = tenant \<and> pg_page_id p = pr_page_id request) (src_pages s)")
    case None
    with assms saved show thesis by (intro that(2) [of saved]) (simp_all add: advance_in_def)
  next
    case (Some q)
    with assms saved show thesis by (intro that(1) [of saved q]) (simp_all add: advance_in_def)
  qed
qed

lemma start_baseline_outcome:
  assumes "start_baseline env timing s ctx i = (s', res)"
  shows "s' = s \<or> (\<exists>tenant actor p. start_in env s tenant actor i = Inr (s', p))"
  using assms by (auto simp: start_baseline_def split: sum.splits dest: run_budgeted_outcome)

lemma advance_baseline_outcome:
  assumes "advance_baseline env ids timing s ctx request = (s', res)"
  shows "s' = s \<or> (\<exists>tenant actor publisher p. advance_in env ids s tenant actor publisher request = Inr (s', p))"
  using assms by (auto simp: advance_baseline_def split: sum.splits dest: run_budgeted_outcome)

lemma start_baseline_ok:
  assumes "start_baseline env timing s ctx i = (s', res)" and "stock_ok s"
  shows "stock_ok s'"
  using start_baseline_outcome [OF assms(1)] assms(2) stock_ok_cong [of s' s] by (auto dest!: start_in_Inr)

lemma advance_baseline_ok:
  assumes "advance_baseline env ids timing s ctx request = (s', res)" and "stock_ok s"
  shows "stock_ok s'"
  using advance_baseline_outcome [OF assms(1)]
proof (elim disjE exE)
  fix tenant actor publisher p
  assume "advance_in env ids s tenant actor publisher request = Inr (s', p)"
  then show ?thesis
    by (rule advance_in_Inr) (use assms(2) copy_page_stock stock_ok_cong [of s' s] in auto)
qed (use assms(2) in simp)

subsection \<open>Listing a variant\<close>

lemma stock_ok_listed:
  assumes "stock_ok s" and "vr_id v \<notin> vr_id ` set (inv_variants s)"
  shows "stock_ok (s\<lparr>inv_products := ps, inv_variants := inv_variants s @ [v]\<rparr>)" (is "stock_ok ?t")
proof -
  have "denies_backorder ?t item = denies_backorder s item" for item
    using assms by (fastforce simp: denies_backorder_def stock_ok_def)
  then show ?thesis using assms by (auto simp: stock_ok_def level_ok_def reservation_ok_def claimed_def)
qed

lemma listed_ok:
  assumes "stock_ok s" and "vr_id v \<notin> vr_id ` set (inv_variants s)"
    and "ensure_default_location env (s\<lparr>inv_products := ps, inv_variants := inv_variants s @ [v]\<rparr>) tenant = Inr (t, w)"
    and "create_initial_records env t w actor (vr_id v) sku quantity = Inr s'"
  shows "stock_ok s'"
proof -
  have "stock_ok t" using stock_ok_listed [OF assms(1,2), of ps] stock_ok_cong [OF ensure_default_location_stock(2-5) [OF assms(3)]] by simp
  then show ?thesis by (rule create_initial_ok [OF assms(4)])
qed

subsection \<open>Removing variants\<close>

text \<open>The tables without the given items and their levels.\<close>

definition removed_stock :: "uuid set \<Rightarrow> inv_store \<Rightarrow> inv_store" where
  "removed_stock items s = s\<lparr>inv_levels := filter (\<lambda>l. il_inventory_item_id l \<notin> items) (inv_levels s),
     inv_items := filter (\<lambda>i. ii_id i \<notin> items) (inv_items s)\<rparr>"

text \<open>A batch that may go: the items of its variants, without stock and without history.\<close>

definition removable :: "inv_store \<Rightarrow> uuid \<Rightarrow> uuid list \<Rightarrow> (uuid \<times> uuid) list \<Rightarrow> bool" where
  "removable s tenant variants items \<longleftrightarrow> map snd items = variants \<and> distinct (map fst items) \<and> distinct variants
     \<and> (\<forall>v \<in> set variants. \<exists>w \<in> set (inv_variants s). vr_id w = v \<and> vr_tenant_id w = tenant)
     \<and> (\<forall>i \<in> set (inv_items s). ii_id i \<in> fst ` set items \<longleftrightarrow> ii_variant_id i \<in> set variants)
     \<and> (\<forall>(item, variant) \<in> set items. \<exists>i \<in> set (inv_items s). ii_id i = item \<and> ii_variant_id i = variant)
     \<and> (\<forall>r \<in> set (inv_reservations s). rsv_inventory_item_id r \<notin> fst ` set items)
     \<and> (\<forall>l \<in> set (inv_levels s). il_inventory_item_id l \<in> fst ` set items \<longrightarrow> level_is_empty l)
     \<and> \<not> has_history s variants (fst ` set items)"

lemma validate_levels_Inr:
  "validate_levels items locations ls (ids, bindings) = Inr () \<Longrightarrow> \<forall>l \<in> set ls. level_is_empty l"
  by (induction ls arbitrary: ids bindings) auto

lemma set_take_all: "length (take (Suc n) xs) \<le> n \<Longrightarrow> set (take (Suc n) xs) = set xs"
  by auto

lemma load_deletion_Inr:
  assumes "load_deletion seen s tenant variants = Inr p" and "stock_ok s" and "distinct variants"
    and "length variants \<le> MAX_CATALOG_DELETE_VARIANTS"
  shows "removable s tenant variants (dp_items p)"
    and "set (dp_levels p) = {l \<in> set (inv_levels s). il_inventory_item_id l \<in> fst ` set (dp_items p)}"
proof -
  let ?sorted = "sort_key ii_variant_id (sort_key ii_id (filter (\<lambda>i. ii_variant_id i \<in> set variants) (inv_items s)))"
  let ?rows = "take (MAX_CATALOG_DELETE_VARIANTS + 1) ?sorted"
  let ?ids = "ii_id ` set ?rows"
  have run: "deletion_variants s tenant variants = variants" "dp_items p = deletion_items s variants"
    "map snd (deletion_items s variants) = variants" "distinct (map fst (deletion_items s variants))"
    "\<not> has_history s variants (fst ` set (deletion_items s variants))"
    "dp_levels p = deletion_levels s (fst ` set (deletion_items s variants))" "\<not> MAX_DELETE_LEVELS < length (dp_levels p)"
    "\<exists>locs. validate_levels (fst ` set (deletion_items s variants)) locs (dp_levels p) ({}, {}) = Inr ()"
    using assms(1) by (auto simp: load_deletion_def Let_def)
  have items: "dp_items p = map (\<lambda>i. (ii_id i, ii_variant_id i)) ?rows" "map ii_variant_id ?rows = variants" "distinct (map ii_id ?rows)"
    using run(2-4) by (simp_all add: deletion_items_def comp_def take_map)
  have ids: "fst ` set (dp_items p) = ?ids" by (simp add: items(1) image_image)
  have history: "\<not> has_history s variants ?ids" using run(5) ids by (simp add: run(2))
  have "length ?rows = length variants" using items(2) by (metis length_map)
  then have full: "?rows = ?sorted" using assms(4) by simp
  have rows: "set ?rows = {i \<in> set (inv_items s). ii_variant_id i \<in> set variants}" unfolding full by auto
  have "length (deletion_levels s ?ids) \<le> MAX_DELETE_LEVELS" using run(6,7) ids by (simp add: run(2))
  then have "set (deletion_levels s ?ids) = {l \<in> set (inv_levels s). il_inventory_item_id l \<in> ?ids}"
    by (simp add: deletion_levels_def set_take_all)
  then show levels': "set (dp_levels p) = {l \<in> set (inv_levels s). il_inventory_item_id l \<in> fst ` set (dp_items p)}"
    using run(6) by (simp add: ids run(2) [symmetric])
  have "\<forall>l \<in> set (dp_levels p). level_is_empty l" using run(8) validate_levels_Inr by blast
  then have empty: "\<forall>l \<in> set (inv_levels s). il_inventory_item_id l \<in> fst ` set (dp_items p) \<longrightarrow> level_is_empty l"
    using levels' by blast
  have known: "\<exists>w \<in> set (inv_variants s). vr_id w = v \<and> vr_tenant_id w = tenant" if "v \<in> set variants" for v
  proof -
    have "v \<in> set (deletion_variants s tenant variants)" using that run(1) by simp
    then show ?thesis unfolding deletion_variants_def by (auto dest!: in_set_takeD)
  qed
  have member: "ii_id i \<in> ?ids \<longleftrightarrow> ii_variant_id i \<in> set variants" if "i \<in> set (inv_items s)" for i
  proof
    assume "ii_id i \<in> ?ids"
    then obtain j where j: "j \<in> set ?rows" "ii_id j = ii_id i" by auto
    then have "j = i" using that assms(2) unfolding rows
      by (intro stock_item_table.unique_eq [of "inv_items s"]) (auto simp: stock_ok_def stock_item_clash_def)
    with j(1) rows show "ii_variant_id i \<in> set variants" by auto
  qed (use that rows in auto)
  show "removable s tenant variants (dp_items p)"
    unfolding removable_def ids
  proof (intro conjI ballI)
    show "map snd (dp_items p) = variants" "distinct (map fst (dp_items p))" using run(2-4) by simp_all
    show "\<not> has_history s variants ?ids" by (rule history)
    show "rsv_inventory_item_id r \<notin> ?ids" if "r \<in> set (inv_reservations s)" for r
      using history that by (auto simp: has_history_def list_ex_iff)
    show "il_inventory_item_id l \<in> ?ids \<longrightarrow> level_is_empty l" if "l \<in> set (inv_levels s)" for l
      using empty that by (simp add: ids)
    show "case x of (item, variant) \<Rightarrow> \<exists>i \<in> set (inv_items s). ii_id i = item \<and> ii_variant_id i = variant"
      if "x \<in> set (dp_items p)" for x
      using that rows by (force simp: items(1))
  qed (use known member assms(3) in simp_all)
qed

lemma deletes_levels:
  assumes "set ls = {l \<in> set rows. il_inventory_item_id l \<in> ids}" and "\<forall>l \<in> set ls. level_is_empty l"
  shows "filter (\<lambda>r. \<not> list_ex (\<lambda>x. deletes_level x r) ls) rows = filter (\<lambda>l. il_inventory_item_id l \<notin> ids) rows"
  using assms by (intro filter_cong) (auto simp: deletes_level_def list_ex_iff)

lemma deletes_items:
  assumes "removable s tenant variants items" and "unique_rows stock_item_clash (inv_items s)"
  shows "filter (\<lambda>r. \<not> list_ex (\<lambda>x. deletes_item x r) items) (inv_items s)
    = filter (\<lambda>i. ii_id i \<notin> fst ` set items) (inv_items s)"
proof (intro filter_cong refl)
  fix i assume i: "i \<in> set (inv_items s)"
  have "(ii_id i, ii_variant_id i) \<in> set items" if x: "(ii_id i, v) \<in> set items" for v
  proof -
    obtain j where j: "j \<in> set (inv_items s)" "ii_id j = ii_id i" "ii_variant_id j = v"
      using assms(1) x by (force simp: removable_def)
    then have "j = i" using assms(2) i by (intro stock_item_table.unique_eq) (auto simp: stock_item_clash_def)
    with j(3) x show ?thesis by simp
  qed
  then show "(\<not> list_ex (\<lambda>x. deletes_item x i) items) = (ii_id i \<notin> fst ` set items)"
    by (force simp: deletes_item_def list_ex_iff)
qed

lemma delete_records_Inr:
  assumes "delete_records env ids seen s tenant actor variants = Inr s'" and "stock_ok s"
  obtains "variants = []" "s' = s"
  | items prepared where "variants \<noteq> []" "removable s tenant (sort variants) items" "prepare_each env s tenant items = Inr prepared"
      "record_each env ids (removed_stock (fst ` set items) s) prepared actor = Inr s'"
proof -
  have valid: "distinct variants" "length variants \<le> MAX_CATALOG_DELETE_VARIANTS"
    using assms(1) by (auto simp: delete_records_def validate_deletion_def)
  show thesis
  proof (cases "variants = []")
    case True
    with assms(1) show thesis by (intro that(1)) (auto simp: delete_records_def validate_deletion_def)
  next
    case False
    then have "sort variants \<noteq> []" by (metis length_0_conv length_sort)
    with assms(1) obtain p where p: "load_deletion seen s tenant (sort variants) = Inr p"
      "apply_deletion env ids s p tenant actor = Inr s'"
      by (auto simp: delete_records_def validate_deletion_def)
    note facts = load_deletion_Inr [OF p(1) assms(2)]
    have rem: "removable s tenant (sort variants) (dp_items p)" and
      lv: "set (dp_levels p) = {l \<in> set (inv_levels s). il_inventory_item_id l \<in> fst ` set (dp_items p)}"
      using facts valid by simp_all
    obtain prepared ls js where run: "prepare_each env s tenant (dp_items p) = Inr prepared"
      "delete_each deletes_level (DRejected DConcurrentChange) (dp_levels p) (inv_levels s) = Inr ls"
      "delete_each deletes_item (DRejected DConcurrentChange) (dp_items p) (inv_items s) = Inr js"
      "record_each env ids (s\<lparr>inv_levels := ls, inv_items := js\<rparr>) prepared actor = Inr s'"
      using p(2) by (auto simp: apply_deletion_def)
    have "\<forall>l \<in> set (dp_levels p). level_is_empty l" using rem by (auto simp: lv removable_def)
    then have "ls = filter (\<lambda>l. il_inventory_item_id l \<notin> fst ` set (dp_items p)) (inv_levels s)"
      using delete_each_rows [OF run(2)] deletes_levels [OF lv] by simp
    moreover have "js = filter (\<lambda>i. ii_id i \<notin> fst ` set (dp_items p)) (inv_items s)"
      using delete_each_rows [OF run(3)] deletes_items [OF rem] assms(2) by (simp add: stock_ok_def)
    ultimately have "record_each env ids (removed_stock (fst ` set (dp_items p)) s) prepared actor = Inr s'"
      using run(4) by (simp add: removed_stock_def)
    with False rem run(1) show thesis by (intro that(2))
  qed
qed

lemma record_each_stock: "record_each env ids s rs actor = Inr s' \<Longrightarrow> same_stock s s'"
proof (induction rs arbitrary: ids s)
  case Nil
  then show ?case by (simp add: same_stock_def)
next
  case (Cons r rs)
  then obtain t where t: "record_deleted (env\<lparr>src_change_id := ids 0\<rparr>) s r (Some actor) = Inr t"
    "record_each env (\<lambda>n. ids (Suc n)) t rs actor = Inr s'" by auto
  have "same_stock s t"
    using t(1) by (auto simp: record_deleted_def update_record_def Let_def same_stock_def split: option.splits
      dest!: append_change_stock [unfolded same_stock_def] publish_changed_stock [unfolded same_stock_def])
  then show ?case using Cons.IH [OF t(2)] by (rule same_stock_trans)
qed

lemma unique_rows_filter: "unique_rows clash xs \<Longrightarrow> unique_rows clash (filter P xs)"
  by (simp add: unique_rows_def sorted_wrt_filter)

text \<open>The catalogue removes the variants themselves in the same transaction.\<close>

definition without_variants :: "uuid list \<Rightarrow> inv_store \<Rightarrow> inv_store" where
  "without_variants variants s = s\<lparr>inv_variants := filter (\<lambda>v. vr_id v \<notin> set variants) (inv_variants s)\<rparr>"

lemma removed_ok:
  assumes "stock_ok s" and "removable s tenant variants items"
  shows "stock_ok (without_variants variants (removed_stock (fst ` set items) s))" (is "stock_ok ?t")
proof -
  let ?ids = "fst ` set items"
  have kept: "i \<in> set (inv_items ?t) \<longleftrightarrow> i \<in> set (inv_items s) \<and> ii_variant_id i \<notin> set variants" for i
    using assms(2) by (auto simp: removable_def removed_stock_def without_variants_def)
  have listed: "\<forall>i \<in> set (inv_items ?t). ii_variant_id i \<in> vr_id ` set (inv_variants ?t)"
    using assms(1) unfolding Ball_def kept by (force simp: stock_ok_def removed_stock_def without_variants_def)
  have denies: "denies_backorder ?t item \<Longrightarrow> denies_backorder s item" for item
    by (auto simp: denies_backorder_def removed_stock_def without_variants_def)
  have claims: "claimed ?t = claimed s" by (simp add: claimed_def fun_eq_iff removed_stock_def without_variants_def)
  have "level_ok ?t l" if "l \<in> set (inv_levels ?t)" for l
  proof -
    have "level_ok s l" "il_inventory_item_id l \<notin> ?ids"
      using that assms(1) by (auto simp: stock_ok_def removed_stock_def without_variants_def)
    moreover from this have "il_inventory_item_id l \<in> ii_id ` set (inv_items ?t)"
      by (auto simp: level_ok_def removed_stock_def without_variants_def)
    ultimately show ?thesis using denies unfolding level_ok_def claims by blast
  qed
  moreover have "reservation_ok ?t r" if "r \<in> set (inv_reservations s)" for r
  proof -
    have "reservation_ok s r" "rsv_inventory_item_id r \<notin> ?ids" using that assms by (simp_all add: stock_ok_def removable_def)
    then show ?thesis by (auto simp: reservation_ok_def removed_stock_def without_variants_def) metis
  qed
  ultimately show ?thesis
    using assms(1) listed
    by (simp add: stock_ok_def removed_stock_def without_variants_def unique_rows_filter distinct_map_filter)
qed

lemma without_variants_simps [simp]:
  "inv_items (without_variants vs s) = inv_items s" "inv_levels (without_variants vs s) = inv_levels s"
  "inv_reservations (without_variants vs s) = inv_reservations s" "src_records (without_variants vs s) = src_records s"
  "src_changes (without_variants vs s) = src_changes s" "src_baselines (without_variants vs s) = src_baselines s"
  "src_pages (without_variants vs s) = src_pages s" "inv_outbox (without_variants vs s) = inv_outbox s"
  by (simp_all add: without_variants_def)

lemma delete_records_ok:
  assumes "delete_records env ids seen s tenant actor variants = Inr s'" and "stock_ok s"
  shows "stock_ok (without_variants variants s')"
proof (rule delete_records_Inr [OF assms])
  assume "variants = []" "s' = s"
  then show ?thesis using assms(2) by (simp add: without_variants_def)
next
  fix items prepared
  assume run: "removable s tenant (sort variants) items"
    "record_each env ids (removed_stock (fst ` set items) s) prepared actor = Inr s'"
  have "stock_ok (without_variants (sort variants) (removed_stock (fst ` set items) s))"
    by (rule removed_ok [OF assms(2) run(1)])
  moreover have "inv_variants (without_variants variants s') = inv_variants (without_variants (sort variants) (removed_stock (fst ` set items) s))"
    "inv_items s' = inv_items (removed_stock (fst ` set items) s)" "inv_levels s' = inv_levels (removed_stock (fst ` set items) s)"
    "inv_reservations s' = inv_reservations (removed_stock (fst ` set items) s)"
    using record_each_stock [OF run(2)] by (simp_all add: same_stock_def without_variants_def)
  ultimately show ?thesis
    using stock_ok_cong [of "without_variants variants s'" "without_variants (sort variants) (removed_stock (fst ` set items) s)"]
    by simp
qed

end
