(* ===== verification/Inventory_Commands.thy ===== *)
theory Inventory_Commands
  imports Inventory_Release Inventory_Lifecycle
begin

text \<open>
  The commands of the inventory over time: what each does when it succeeds, and the invariant over
  any interleaving of callers.
\<close>

subsection \<open>Effects of the commands\<close>

lemma execute_quantity_effect:
  assumes "execute_quantity_write env seen s tenant actor variant change threshold = (s', Inr w)" and "stock_ok s"
  shows "\<exists>i. find_item s variant = Some i \<and> find_item s' variant = Some i
    \<and> target_quantity (available_units s (ii_id i)) change = Inr (wo_quantity w)
    \<and> available_units s' (ii_id i) = wo_quantity w \<and> inv_reservations s' = inv_reservations s
    \<and> (inv_levels s' = inv_levels s \<or> (\<exists>l st. l \<in> set (inv_levels s) \<and> il_inventory_item_id l = ii_id i
         \<and> inv_levels s' = map (restock env l st) (inv_levels s)))"
proof -
  have "write_quantity env seen s tenant actor variant change threshold = Inr (s', w)"
    using assms(1) by (auto simp: execute_quantity_write_def split: sum.splits)
  then show ?thesis by (rule write_quantity_units [OF _ assms(2)]) blast
qed

lemma execute_quantity_ok:
  assumes "execute_quantity_write env seen s tenant actor variant change threshold = (s', res)" and "stock_ok s"
  shows "stock_ok s'"
  using assms by (auto simp: execute_quantity_write_def split: sum.splits intro: write_quantity_ok)

lemma set_quantity_ok:
  "set_variant_quantity env seen s tenant actor variant quantity = (s', res) \<Longrightarrow> stock_ok s \<Longrightarrow> stock_ok s'"
  by (auto simp: set_variant_quantity_def split: sum.splits prod.splits intro: execute_quantity_ok)

lemma adjust_quantity_ok:
  "adjust_variant_quantity env seen s tenant actor variant quantity = (s', res) \<Longrightarrow> stock_ok s \<Longrightarrow> stock_ok s'"
  by (auto simp: adjust_variant_quantity_def split: sum.splits prod.splits intro: execute_quantity_ok)

lemma update_initial_ok:
  "update_initial_quantity env seen s tenant actor variant quantity = Inr s' \<Longrightarrow> stock_ok s \<Longrightarrow> stock_ok s'"
  by (auto simp: update_initial_quantity_def intro: write_quantity_ok)

text \<open>A movement that changes the store is one transaction on a variant of the tenant.\<close>

lemma reserve_outcome:
  assumes "reserve env s ctx variant quantity = (s', res)"
  shows "s' = s \<and> (quantity = 0 \<or> (\<exists>e. res = Inl e)) \<or> (\<exists>tenant v r. find_variant s tenant variant = Some v
     \<and> res = Inr r \<and> reserve_in_transaction env s ctx tenant v quantity = Inr (s', r))"
  using assms by (auto simp: reserve_def load_variant_def split: sum.splits if_splits)

lemma release_outcome:
  assumes "release_reservation_quantity env s ctx variant quantity = (s', res)"
  shows "s' = s \<and> (quantity = 0 \<or> (\<exists>e. res = Inl e)) \<or> (\<exists>tenant v r. find_variant s tenant variant = Some v
     \<and> res = Inr r \<and> release_in_transaction env s ctx tenant v quantity = Inr (s', r))"
  using assms by (auto simp: release_reservation_quantity_def load_variant_def split: sum.splits if_splits)

lemma reserve_ok:
  assumes "reserve env s ctx variant quantity = (s', res)" and "stock_ok s"
  shows "stock_ok s'"
  using reserve_outcome [OF assms(1)] assms(2) by (auto intro: reserve_in_transaction_ok)

lemma release_ok:
  assumes "release_reservation_quantity env s ctx variant quantity = (s', res)" and "stock_ok s"
  shows "stock_ok s'"
  using release_outcome [OF assms(1)] assms(2) by (auto intro: release_in_transaction_ok)

lemma reserve_effect:
  assumes "reserve env s ctx variant quantity = (s', Inr r)" and "stock_ok s" and "0 < quantity"
  obtains i row l where "find_item s' variant = Some i" "rw_reserved_quantity r = quantity"
    "rw_available_quantity r = available_units s' (ii_id i)"
    "available_units s' (ii_id i) = available_units s (ii_id i) - quantity"
    "inv_reservations s' = inv_reservations s @ [row]" "unkeyed (ii_id i) row" "rsv_quantity row = quantity"
    "l \<in> set (inv_levels s')" "il_inventory_item_id l = ii_id i" "il_location_id l = rsv_location_id row"
    "\<exists>v tenant. find_variant s tenant variant = Some v \<and> (inventory_policy_allows_backorder (vr_inventory_policy v)
        \<or> il_reserved_quantity l \<le> il_stocked_quantity l)"
proof -
  obtain tenant v where v: "find_variant s tenant variant = Some v"
    "reserve_in_transaction env s ctx tenant v quantity = Inr (s', r)"
    using reserve_outcome [OF assms(1)] assms(3) by auto
  have id: "vr_id v = variant" using find_variant_Some [OF v(1)] by simp
  obtain t i w l where st: "ensure_inventory_state env s tenant v = Inr (t, i, w, l)"
    and fits: "inventory_policy_allows_backorder (vr_inventory_policy v) \<or> quantity \<le> il_stocked_quantity l - il_reserved_quantity l"
    and same: "same_stock (new_claim env i w (vr_id v) quantity t l) s'"
    and r: "r = reservation_result_of quantity (available_units s' (ii_id i)) (vr_inventory_policy v)"
    by (rule reserve_in_transaction_outcome [OF v(2) assms(2) v(1)])
  note t = ensure_inventory_state_stock [OF st assms(2) conjunct1 [OF find_variant_Some [OF v(1)]]]
  have ul: "unique_rows stock_level_clash (inv_levels t)" using t(1) by (simp add: stock_ok_def)
  have units: "available_units s' (ii_id i) = available_units s (ii_id i) - quantity"
    using available_units_stock [OF same] new_claim_units [OF ul t(5,6)] t(10) by simp
  have tables: "inv_items s' = inv_items t" "inv_levels s' = map (claim_more env l quantity) (inv_levels t)"
    "inv_reservations s' = inv_reservations s @ [new_reservation_row env i w (vr_id v) quantity]"
    using same t(9) by (simp_all add: same_stock_def new_claim_def)
  show thesis
  proof (rule that [of i "new_reservation_row env i w (vr_id v) quantity" "claim_more env l quantity l"])
    show "find_item s' variant = Some i" using t(3) id by (simp add: find_item_def tables)
    show "\<exists>v tenant. find_variant s tenant variant = Some v \<and> (inventory_policy_allows_backorder (vr_inventory_policy v)
        \<or> il_reserved_quantity (claim_more env l quantity l) \<le> il_stocked_quantity (claim_more env l quantity l))"
      using v(1) fits by (intro exI [of _ v] exI [of _ tenant]) (auto simp: claim_more_def)
  qed (use r units tables t(5-7) in
      \<open>auto simp: reservation_result_of_def unkeyed_def new_reservation_row_def claim_more_def\<close>)
qed

text \<open>The order in which rows give way: what is not the last row taken is exhausted.\<close>

lemma oldest_first_order:
  assumes rs: "sorted_wrt not_younger rs" "distinct (map rsv_id rs)" "\<forall>r \<in> set rs. 0 < rsv_quantity r" and q: "0 \<le> q"
    and x: "(x, left) \<in> set (oldest_first q rs)" and y: "y \<in> set rs" "older y x"
  shows "(y, 0) \<in> set (oldest_first q rs)"
proof -
  note facts = oldest_first_rows [OF q rs(3)]
  obtain k where k: "map fst (oldest_first q rs) = take k rs" using facts(2) by blast
  obtain j where j: "j < length (oldest_first q rs)" "oldest_first q rs ! j = (x, left)" using x by (auto simp: in_set_conv_nth)
  then have "x = take k rs ! j" using k by (metis fst_conv nth_map)
  moreover have len: "length (oldest_first q rs) = length (take k rs)" using k by (metis length_map)
  ultimately have xj: "x = rs ! j" "j < length rs" "j < k" using j by auto
  obtain m where m: "m < length rs" "rs ! m = y" using y(1) by (auto simp: in_set_conv_nth)
  have "m < j"
  proof (rule ccontr)
    assume "\<not> m < j"
    then have "j = m \<or> not_younger (rs ! j) (rs ! m)"
      using sorted_wrt_nth_less [OF rs(1), of j m] m(1) by (cases "j = m") simp_all
    then have "x = y \<or> not_younger x y" by (auto simp: xj(1) m(2) [symmetric])
    with y(2) show False unfolding older_def not_younger_def by (elim disjE) auto
  qed
  have "snd (oldest_first q rs ! m) = 0"
    using facts(3) \<open>m < j\<close> j(1) unfolding sorted_wrt_iff_nth_less by blast
  moreover have "m < length (oldest_first q rs)" using \<open>m < j\<close> j(1) by simp
  then have "fst (oldest_first q rs ! m) = take k rs ! m" using nth_map [of m "oldest_first q rs" fst] k by simp
  then have "fst (oldest_first q rs ! m) = y" using \<open>m < j\<close> xj m by simp
  ultimately have "oldest_first q rs ! m = (y, 0)" by (intro prod_eqI) simp_all
  with \<open>m < length (oldest_first q rs)\<close> show ?thesis using nth_mem by force
qed

lemma release_pool_order: "sorted_wrt not_younger (release_pool s item)"
  unfolding release_pool_def by (rule sorted_wrt_filter [OF sorted_by_age])

text \<open>What a release does to the rows: nothing, or it takes from an anonymous one, never below zero.\<close>

definition gives_way :: "uuid \<Rightarrow> reservation \<Rightarrow> reservation \<Rightarrow> bool" where
  "gives_way item r r' \<longleftrightarrow> unkeyed item r \<and> anonymous r \<and> rsv_id r' = rsv_id r \<and> rsv_inventory_item_id r' = item
     \<and> rsv_location_id r' = rsv_location_id r \<and> 0 \<le> rsv_quantity r' \<and> rsv_quantity r' < rsv_quantity r
     \<and> (rsv_deleted_at r' = None \<longleftrightarrow> 0 < rsv_quantity r')"

lemma release_effect:
  assumes "release_reservation_quantity env s ctx variant quantity = (s', Inr r)" and "stock_ok s" and "0 < quantity"
  shows "\<exists>i f. find_item s variant = Some i \<and> find_item s' variant = Some i \<and> rlr_released_quantity r = quantity
    \<and> rlr_available_quantity r = available_units s' (ii_id i)
    \<and> available_units s' (ii_id i) = available_units s (ii_id i) + quantity
    \<and> inv_reservations s' = map f (inv_reservations s)
    \<and> sum_list (map (\<lambda>x. rsv_quantity x - rsv_quantity (f x)) (inv_reservations s)) = quantity
    \<and> (\<forall>x \<in> set (inv_reservations s). f x = x \<or> gives_way (ii_id i) x (f x))
    \<and> (\<forall>x \<in> set (inv_reservations s). \<forall>y \<in> set (inv_reservations s). f x \<noteq> x \<and> older y x
         \<and> unkeyed (ii_id i) y \<and> anonymous y \<longrightarrow> rsv_quantity (f y) = 0)"
proof -
  obtain tenant v where v: "find_variant s tenant variant = Some v"
    "release_in_transaction env s ctx tenant v quantity = Inr (s', r)"
    using release_outcome [OF assms(1)] assms(3) by auto
  have id: "vr_id v = variant" using find_variant_Some [OF v(1)] by simp
  obtain i cs where o: "find_item s (vr_id v) = Some i" "cs = oldest_first quantity (release_pool s (ii_id i))"
    "0 < quantity" "taken cs = quantity" "same_stock (release_effect env (ii_id i) cs s) s'"
    "r = release_result_of quantity (available_units s' (ii_id i)) (vr_inventory_policy v)"
    "set (release_pool s (ii_id i)) = set (filter (\<lambda>r. unkeyed (ii_id i) r \<and> anonymous r) (inv_reservations s))"
    "\<forall>r \<in> set (release_pool s (ii_id i)). 0 < rsv_quantity r"
    by (rule release_in_transaction_outcome [OF v(2) assms(2)])
  let ?f = "release_row env cs"
  have ok: "releasable s (ii_id i) cs" unfolding o(2) by (rule releasable_oldest [OF assms(2) o(3,7,8)])
  have ur: "unique_rows reservation_clash (inv_reservations s)" using assms(2) by (simp add: stock_ok_def)
  note ids = reservation_ids [OF ur]
  have units: "available_units s' (ii_id i) = available_units s (ii_id i) + quantity"
    using available_units_stock [OF o(5)] release_effect_units [OF ok assms(2)] o(4) by simp
  have total: "sum_list (map (\<lambda>x. rsv_quantity x - rsv_quantity (?f x)) (inv_reservations s)) = quantity"
  proof -
    have "distinct (map (rsv_id \<circ> fst) cs)" "fst ` set cs \<subseteq> set (inv_reservations s)"
      using ok by (auto simp: releasable_def)
    from sum_released [OF ids this, of "\<lambda>_. True" env] o(4) show ?thesis by (simp add: sum_list_subtractf comp_def)
  qed
  have rows: "?f x = x \<or> gives_way (ii_id i) x (?f x)" if "x \<in> set (inv_reservations s)" for x
    using release_row_cases [OF ok ids that, of env]
  proof (elim disjE conjE exE)
    fix left assume left: "(x, left) \<in> set cs" "?f x = released_row env left x"
    then have "unkeyed (ii_id i) x \<and> anonymous x \<and> 0 \<le> left \<and> left < rsv_quantity x"
      using ok by (auto simp: releasable_def)
    with left(2) show ?thesis by (auto simp: gives_way_def unkeyed_def released_row_def Let_def)
  qed simp
  have order: "rsv_quantity (?f y) = 0"
    if "x \<in> set (inv_reservations s)" "y \<in> set (inv_reservations s)" "?f x \<noteq> x" "older y x" "unkeyed (ii_id i) y" "anonymous y"
    for x y
  proof -
    note row = release_row_cases [OF ok ids that(1), of env] that(3)
    obtain left where x: "(x, left) \<in> set cs" using row by blast
    have "(y, 0) \<in> set cs"
      unfolding o(2) by (rule oldest_first_order [OF release_pool_order release_pool_ids [OF ur] o(8) less_imp_le [OF o(3)]
            x [unfolded o(2)] _ that(4)]) (use that o(7) in simp)
    then have "map_of (map (\<lambda>(x, left). (rsv_id x, left)) cs) (rsv_id y) = Some 0"
      using ok by (intro map_of_is_SomeI) (force simp: releasable_def comp_def case_prod_beta)+
    then show ?thesis by (simp add: release_row_def)
  qed
  have "find_item s' variant = Some i" using o(1,5) id by (simp add: find_item_def same_stock_def release_effect_def)
  moreover have "inv_reservations s' = map ?f (inv_reservations s)" using o(5) by (simp add: same_stock_def release_effect_def)
  ultimately show ?thesis
    using o(1,6) id units total rows order by (intro exI [of _ i] exI [of _ ?f]) (auto simp: release_result_of_def)
qed

subsection \<open>Interleavings\<close>

text \<open>
  Concurrent callers, each with its own clock, identifiers and earlier reading of the levels. The
  catalogue lists a new variant, or removes some, in the transaction in which it calls the inventory.
\<close>

inductive stock_step :: "inv_store \<Rightarrow> inv_store \<Rightarrow> bool" where
  created: "create_initial_records env s w actor variant sku quantity = Inr s' \<Longrightarrow> stock_step s s'"
| initial: "update_initial_quantity env seen s tenant actor variant quantity = Inr s' \<Longrightarrow> stock_step s s'"
| stocked: "set_variant_quantity env seen s tenant actor variant quantity = (s', res) \<Longrightarrow> stock_step s s'"
| adjusted: "adjust_variant_quantity env seen s tenant actor variant quantity = (s', res) \<Longrightarrow> stock_step s s'"
| reserved: "reserve env s ctx variant quantity = (s', held) \<Longrightarrow> stock_step s s'"
| released: "release_reservation_quantity env s ctx variant quantity = (s', freed) \<Longrightarrow> stock_step s s'"
| listed: "vr_id v \<notin> vr_id ` set (inv_variants s) \<Longrightarrow>
    ensure_default_location env (s\<lparr>inv_products := inv_products s @ ps, inv_variants := inv_variants s @ [v]\<rparr>) (vr_tenant_id v) = Inr (t, w) \<Longrightarrow>
    create_initial_records env t w actor (vr_id v) sku quantity = Inr s' \<Longrightarrow> stock_step s s'"
| removed: "delete_records env ids seen s tenant actor variants = Inr t \<Longrightarrow> stock_step s (without_variants variants t)"
| started: "start_baseline env timing s ctx i = (s', progress) \<Longrightarrow> stock_step s s'"
| advanced: "advance_baseline env ids timing s ctx request = (s', progress) \<Longrightarrow> stock_step s s'"

inductive_cases stock_stepE: "stock_step s s'"

text \<open>A store with any products, variants and locations, without stock and without a journal.\<close>

definition no_stock :: "inv_store \<Rightarrow> bool" where
  "no_stock s \<longleftrightarrow> distinct (map vr_id (inv_variants s)) \<and> inv_items s = [] \<and> inv_levels s = [] \<and> inv_reservations s = []
     \<and> src_records s = [] \<and> src_changes s = [] \<and> src_baselines s = [] \<and> src_pages s = []"

lemma no_stock_ok: "no_stock s \<Longrightarrow> stock_ok s"
  by (simp add: no_stock_def stock_ok_def unique_rows_def)

lemma stock_step_ok: "stock_step s s' \<Longrightarrow> stock_ok s \<Longrightarrow> stock_ok s'"
  by (erule stock_stepE)
    (auto intro: create_initial_ok update_initial_ok set_quantity_ok adjust_quantity_ok reserve_ok release_ok
      listed_ok delete_records_ok start_baseline_ok advance_baseline_ok)

interpretation stock_states: transition_invariant no_stock stock_step "\<lambda>_. True" "\<lambda>_. stock_ok"
  by unfold_locales (auto intro: no_stock_ok stock_step_ok)

lemma reachable_stock: "reachable no_stock stock_step n s \<Longrightarrow> stock_ok s"
  using stock_states.reachable_inv by blast

text \<open>
  C2: stock and reservations agree in every interleaving. The counters of a level are not negative,
  its reserved counter is the sum of the live reservations at its item and location, an item has one
  level per location, a live reservation has a positive quantity and a level, and where the variant
  does not allow backorders a level never has more reserved than is in stock. The policy of a variant is
  the one it was listed with: a later change of it is not a step.
\<close>

theorem stock_matches_reservations:
  assumes "reachable no_stock stock_step n s"
  shows "(\<forall>l \<in> set (inv_levels s). 0 \<le> il_stocked_quantity l \<and> 0 \<le> il_reserved_quantity l \<and> 0 \<le> il_incoming_quantity l
        \<and> il_reserved_quantity l = sum_list (map rsv_quantity (filter (\<lambda>r. rsv_inventory_item_id r = il_inventory_item_id l
            \<and> rsv_location_id r = il_location_id l \<and> rsv_deleted_at r = None) (inv_reservations s))))
    \<and> (\<forall>r \<in> set (inv_reservations s). rsv_deleted_at r = None \<longrightarrow> 0 < rsv_quantity r
        \<and> (\<exists>!l. l \<in> set (inv_levels s) \<and> il_inventory_item_id l = rsv_inventory_item_id r
            \<and> il_location_id l = rsv_location_id r))
    \<and> (\<forall>v \<in> set (inv_variants s). \<forall>i \<in> set (inv_items s). \<forall>l \<in> set (inv_levels s).
        ii_variant_id i = vr_id v \<and> il_inventory_item_id l = ii_id i
        \<and> \<not> inventory_policy_allows_backorder (vr_inventory_policy v) \<longrightarrow> il_reserved_quantity l \<le> il_stocked_quantity l)"
proof (intro conjI ballI impI)
  have ok: "stock_ok s" by (rule reachable_stock [OF assms])
  fix l
  assume "l \<in> set (inv_levels s)"
  then have l: "level_ok s l" using ok by (simp add: stock_ok_def)
  have "0 \<le> il_reserved_quantity l" using l claimed_nonneg [OF ok] by (simp add: level_ok_def)
  then show "0 \<le> il_stocked_quantity l" "0 \<le> il_reserved_quantity l" "0 \<le> il_incoming_quantity l"
    "il_reserved_quantity l = sum_list (map rsv_quantity (filter (\<lambda>r. rsv_inventory_item_id r = il_inventory_item_id l
            \<and> rsv_location_id r = il_location_id l \<and> rsv_deleted_at r = None) (inv_reservations s)))"
    using l by (simp_all add: level_ok_def claimed_def live_claim_def [abs_def])
  fix v i
  assume "v \<in> set (inv_variants s)" "i \<in> set (inv_items s)" "ii_variant_id i = vr_id v \<and> il_inventory_item_id l = ii_id i
        \<and> \<not> inventory_policy_allows_backorder (vr_inventory_policy v)"
  then have "denies_backorder s (il_inventory_item_id l)"
    unfolding denies_backorder_def by (intro bexI [of _ i] bexI [of _ v]) simp_all
  with l show "il_reserved_quantity l \<le> il_stocked_quantity l" by (simp add: level_ok_def)
next
  have ok: "stock_ok s" by (rule reachable_stock [OF assms])
  fix r
  assume "r \<in> set (inv_reservations s)" "rsv_deleted_at r = None"
  then have r: "0 < rsv_quantity r" "\<exists>l \<in> set (inv_levels s). il_inventory_item_id l = rsv_inventory_item_id r
      \<and> il_location_id l = rsv_location_id r"
    using ok by (auto simp: stock_ok_def reservation_ok_def)
  show "0 < rsv_quantity r" by (rule r(1))
  show "\<exists>!l. l \<in> set (inv_levels s) \<and> il_inventory_item_id l = rsv_inventory_item_id r \<and> il_location_id l = rsv_location_id r"
    using r(2) stock_level_table.unique_eq [of "inv_levels s"] ok by (auto simp: stock_ok_def stock_level_clash_def)
qed

subsection \<open>The commands on a reachable store\<close>

text \<open>
  C15: setting and adjusting are exact. Where a quantity write succeeds the available quantity of the
  variant, summed over all locations, becomes the quantity set, or the former one plus the adjustment,
  and fits 32 bits; reservations stay as they are and the stock of at most one level of the item changes.
\<close>

theorem quantity_written_exactly:
  assumes "reachable no_stock stock_step n s"
    and "execute_quantity_write env seen s tenant actor variant change threshold = (s', Inr w)"
  shows "\<exists>i. find_item s variant = Some i \<and> find_item s' variant = Some i
    \<and> available_units s' (ii_id i) = wo_quantity w
    \<and> wo_quantity w = (case change of SetQuantity q \<Rightarrow> q | AdjustQuantity a \<Rightarrow> available_units s (ii_id i) + a)
    \<and> inv_reservations s' = inv_reservations s
    \<and> (\<exists>l stocked. inv_levels s' = map (\<lambda>m. if il_id m = l \<and> il_inventory_item_id m = ii_id i
          then m\<lparr>il_stocked_quantity := stocked, il_updated_at := inv_now env\<rparr> else m) (inv_levels s)
        \<or> inv_levels s' = inv_levels s)"
proof -
  have ok: "stock_ok s" by (rule reachable_stock [OF assms(1)])
  then have ul: "unique_rows stock_level_clash (inv_levels s)" by (simp add: stock_ok_def)
  obtain i where i: "find_item s variant = Some i" "find_item s' variant = Some i"
    "target_quantity (available_units s (ii_id i)) change = Inr (wo_quantity w)"
    "available_units s' (ii_id i) = wo_quantity w" "inv_reservations s' = inv_reservations s"
    "inv_levels s' = inv_levels s \<or> (\<exists>l st. l \<in> set (inv_levels s) \<and> il_inventory_item_id l = ii_id i
         \<and> inv_levels s' = map (restock env l st) (inv_levels s))"
    using execute_quantity_effect [OF assms(2) ok] by blast
  have target: "wo_quantity w = (case change of SetQuantity q \<Rightarrow> q | AdjustQuantity a \<Rightarrow> available_units s (ii_id i) + a)"
    using i(3) by (auto simp: target_quantity_def checked_i32_def split: quantity_change.splits if_splits)
  have "\<exists>l stocked. inv_levels s' = map (\<lambda>m. if il_id m = l \<and> il_inventory_item_id m = ii_id i
          then m\<lparr>il_stocked_quantity := stocked, il_updated_at := inv_now env\<rparr> else m) (inv_levels s)
        \<or> inv_levels s' = inv_levels s"
    using i(6)
  proof (elim disjE exE conjE)
    fix l st assume l: "l \<in> set (inv_levels s)" "il_inventory_item_id l = ii_id i"
      "inv_levels s' = map (restock env l st) (inv_levels s)"
    have "il_inventory_item_id m = ii_id i" if "m \<in> set (inv_levels s)" "il_id m = il_id l" for m
      using that l(1,2) level_ids [OF ul] by (auto simp: distinct_map inj_on_def)
    then have "inv_levels s' = map (\<lambda>m. if il_id m = il_id l \<and> il_inventory_item_id m = ii_id i
          then m\<lparr>il_stocked_quantity := st, il_updated_at := inv_now env\<rparr> else m) (inv_levels s)"
      unfolding l(3) by (intro map_cong) (auto simp: restock_def)
    then show ?thesis by blast
  qed blast
  with i target show ?thesis by blast
qed

text \<open>
  C16: a reservation that succeeds takes exactly its quantity. It appends one live reservation without
  the identity of a cart or an order, the available quantity of the variant drops by it and is the one
  answered, and unless the variant allows backorders the level it is on has the stock for all its claims.
\<close>

theorem reservation_takes_exactly:
  assumes "reachable no_stock stock_step n s" and "reserve env s ctx variant quantity = (s', Inr r)" and "0 < quantity"
  shows "\<exists>i row. find_item s' variant = Some i \<and> inv_reservations s' = inv_reservations s @ [row]
    \<and> rsv_quantity row = quantity \<and> unkeyed (ii_id i) row \<and> rw_reserved_quantity r = quantity
    \<and> rw_available_quantity r = available_units s' (ii_id i)
    \<and> available_units s' (ii_id i) = available_units s (ii_id i) - quantity
    \<and> (\<exists>l \<in> set (inv_levels s'). il_inventory_item_id l = ii_id i \<and> il_location_id l = rsv_location_id row
        \<and> (\<exists>v tenant. find_variant s tenant variant = Some v
            \<and> (inventory_policy_allows_backorder (vr_inventory_policy v) \<or> il_reserved_quantity l \<le> il_stocked_quantity l)))"
  by (rule reserve_effect [OF assms(2) reachable_stock [OF assms(1)] assms(3)]) blast

text \<open>
  C8: a release takes exactly its quantity, the oldest anonymous reservations first. No row that
  carries an identity changes, no row falls below zero, a row is deleted exactly when nothing of it is
  left, a row gives way only after every older anonymous one of the item is exhausted, and the available
  quantity grows by what was released.
\<close>

theorem release_takes_oldest_first:
  assumes "reachable no_stock stock_step n s"
    and "release_reservation_quantity env s ctx variant quantity = (s', Inr r)" and "0 < quantity"
  shows "\<exists>i f. find_item s variant = Some i \<and> rlr_released_quantity r = quantity
    \<and> rlr_available_quantity r = available_units s' (ii_id i)
    \<and> available_units s' (ii_id i) = available_units s (ii_id i) + quantity
    \<and> inv_reservations s' = map f (inv_reservations s)
    \<and> sum_list (map (\<lambda>x. rsv_quantity x - rsv_quantity (f x)) (inv_reservations s)) = quantity
    \<and> (\<forall>x \<in> set (inv_reservations s). f x = x \<or> gives_way (ii_id i) x (f x))
    \<and> (\<forall>x \<in> set (inv_reservations s). \<forall>y \<in> set (inv_reservations s). f x \<noteq> x \<and> older y x
         \<and> unkeyed (ii_id i) y \<and> anonymous y \<longrightarrow> rsv_quantity (f y) = 0)"
  using release_effect [OF assms(2) reachable_stock [OF assms(1)] assms(3)] by blast

text \<open>
  Reserving and releasing the same quantity cancel: when both succeed, by whatever callers and
  clocks, the available quantity of the variant and the sum of its live reservations are what they were.
\<close>

theorem reserve_then_release:
  assumes "reachable no_stock stock_step n s" and "reserve env s ctx variant quantity = (s1, Inr r1)"
    and "release_reservation_quantity env' s1 ctx' variant quantity = (s2, Inr r2)" and "0 < quantity"
  shows "\<exists>i. find_item s2 variant = Some i \<and> available_units s2 (ii_id i) = available_units s (ii_id i)
    \<and> sum_list (map rsv_quantity (inv_reservations s2)) = sum_list (map rsv_quantity (inv_reservations s))
    \<and> rlr_available_quantity r2 = rw_available_quantity r1 + quantity"
proof -
  have ok: "stock_ok s" by (rule reachable_stock [OF assms(1)])
  obtain i row l where one: "find_item s1 variant = Some i" "rw_available_quantity r1 = available_units s1 (ii_id i)"
    "available_units s1 (ii_id i) = available_units s (ii_id i) - quantity"
    "inv_reservations s1 = inv_reservations s @ [row]" "rsv_quantity row = quantity"
    by (rule reserve_effect [OF assms(2) ok assms(4)])
  obtain j f where two: "find_item s1 variant = Some j" "find_item s2 variant = Some j"
    "rlr_available_quantity r2 = available_units s2 (ii_id j)"
    "available_units s2 (ii_id j) = available_units s1 (ii_id j) + quantity"
    "inv_reservations s2 = map f (inv_reservations s1)"
    "sum_list (map (\<lambda>x. rsv_quantity x - rsv_quantity (f x)) (inv_reservations s1)) = quantity"
    using release_effect [OF assms(3) reserve_ok [OF assms(2) ok] assms(4)] by blast
  have "sum_list (map rsv_quantity (inv_reservations s2)) = sum_list (map rsv_quantity (inv_reservations s1)) - quantity"
    using two(5,6) by (simp add: sum_list_subtractf comp_def)
  with one two show ?thesis by (intro exI [of _ j]) auto
qed

end
