(* ===== verification/Inventory_Journal.thy ===== *)
theory Inventory_Journal
  imports Inventory_Commands
begin

text \<open>
  The source journal mirrors the stock: its live records hold the sums of the levels after every
  command, versions count the changes without a gap, and every change after the baseline was published.
\<close>

subsection \<open>The invariant\<close>

definition item_sum :: "(stock_level \<Rightarrow> int) \<Rightarrow> inv_store \<Rightarrow> uuid \<Rightarrow> int" where
  "item_sum f s item = sum_list (map f (item_levels s item))"

definition counters_match :: "inv_store \<Rightarrow> source_record \<Rightarrow> bool" where
  "counters_match s r \<longleftrightarrow> sr_stocked r = item_sum il_stocked_quantity s (sr_inventory_item_id r)
     \<and> sr_reserved r = item_sum il_reserved_quantity s (sr_inventory_item_id r)
     \<and> sr_incoming r = item_sum il_incoming_quantity s (sr_inventory_item_id r)"

definition changes_of :: "inv_store \<Rightarrow> uuid \<Rightarrow> uuid \<Rightarrow> source_change list" where
  "changes_of s tenant variant = filter (\<lambda>c. sch_tenant_id c = tenant \<and> sch_variant_id c = variant) (src_changes s)"

definition record_numbered :: "inv_store \<Rightarrow> source_record \<Rightarrow> bool" where
  "record_numbered s r \<longleftrightarrow> 1 \<le> sr_source_version r
     \<and> map sch_source_version (changes_of s (sr_tenant_id r) (sr_variant_id r)) = [1..sr_source_version r]"

definition record_bound :: "inv_store \<Rightarrow> source_record \<Rightarrow> bool" where
  "record_bound s r \<longleftrightarrow> (\<exists>v \<in> set (inv_variants s). vr_id v = sr_variant_id r \<and> vr_tenant_id v = sr_tenant_id r)
     \<and> (\<exists>i \<in> set (inv_items s). ii_id i = sr_inventory_item_id r \<and> ii_variant_id i = sr_variant_id r)"

definition change_published :: "inv_store \<Rightarrow> source_change \<Rightarrow> bool" where
  "change_published s c \<longleftrightarrow> (\<exists>f \<in> set (inv_outbox s). of_envelope_id f = Some (sch_change_id c)
     \<and> of_tenant_id f = sch_tenant_id c
     \<and> of_fact f = SourceChanged (sch_baseline_id c) (sch_variant_id c) (nat (sch_source_version c)))"

text \<open>
  The invariant while the counters of the items \<open>C\<close> are being changed and the items \<open>B\<close> removed.
\<close>

definition journal_but :: "uuid set \<Rightarrow> uuid set \<Rightarrow> inv_store \<Rightarrow> bool" where
  "journal_but C B s \<longleftrightarrow> unique_rows source_record_clash (src_records s)
     \<and> (\<forall>r \<in> set (src_records s). record_numbered s r
          \<and> (\<not> sr_deleted r \<and> sr_inventory_item_id r \<notin> B \<longrightarrow> record_bound s r
             \<and> (sr_inventory_item_id r \<notin> C \<longrightarrow> counters_match s r)))
     \<and> (\<forall>c \<in> set (src_changes s). (sch_kind c \<noteq> ''baseline'' \<longrightarrow> change_published s c)
          \<and> (\<exists>r \<in> set (src_records s). sr_tenant_id r = sch_tenant_id c \<and> sr_variant_id r = sch_variant_id c))"

abbreviation journal_ok :: "inv_store \<Rightarrow> bool" where
  "journal_ok \<equiv> journal_but {} {}"

lemma journal_live:
  "journal_ok s \<Longrightarrow> r \<in> set (src_records s) \<Longrightarrow> \<not> sr_deleted r \<Longrightarrow> record_bound s r \<and> counters_match s r"
  by (simp add: journal_but_def)

text \<open>A change of the counters of one item, and of nothing the journal knows otherwise.\<close>

lemma journal_but_change:
  assumes "journal_ok s"
    and "src_records t = src_records s" "src_changes t = src_changes s" "inv_outbox t = inv_outbox s"
    and "inv_variants t = inv_variants s" "set (inv_items s) \<subseteq> set (inv_items t)"
    and "\<And>item. item \<noteq> k \<Longrightarrow> item_levels t item = item_levels s item"
  shows "journal_but {k} {} t"
proof -
  have "record_numbered t r \<and> (\<not> sr_deleted r \<longrightarrow> record_bound t r \<and> (sr_inventory_item_id r \<noteq> k \<longrightarrow> counters_match t r))"
    if "r \<in> set (src_records s)" for r
  proof -
    have "record_numbered s r" "\<not> sr_deleted r \<longrightarrow> record_bound s r \<and> counters_match s r"
      using assms(1) that by (simp_all add: journal_but_def)
    moreover have "item_sum f t item = item_sum f s item" if "item \<noteq> k" for f item
      using assms(7) [OF that] by (simp add: item_sum_def)
    ultimately show ?thesis
      using assms(6) unfolding record_numbered_def record_bound_def counters_match_def changes_of_def assms(3,5) by auto
  qed
  then show ?thesis using assms(1) by (simp add: journal_but_def assms(2-4) change_published_def)
qed

lemma journal_ok_change:
  assumes "journal_ok s"
    and "src_records t = src_records s" "src_changes t = src_changes s" "set (inv_outbox s) \<subseteq> set (inv_outbox t)"
    and "set (inv_variants s) \<subseteq> set (inv_variants t)" "inv_items t = inv_items s" "inv_levels t = inv_levels s"
  shows "journal_ok t"
  using assms(1,4,5) unfolding journal_but_def record_numbered_def record_bound_def counters_match_def changes_of_def
    change_published_def item_sum_def item_levels_def assms(2,3,6,7) by blast

subsection \<open>Snapshots are the sums\<close>

lemma scan_levels_Inr:
  assumes "scan_levels item ls (ids, locs, st, re, inc) = Inr (st', re', inc')"
  shows "st' = st + sum_list (map il_stocked_quantity ls)" and "re' = re + sum_list (map il_reserved_quantity ls)"
    and "inc' = inc + sum_list (map il_incoming_quantity ls)"
proof -
  have "st' = st + sum_list (map il_stocked_quantity ls) \<and> re' = re + sum_list (map il_reserved_quantity ls)
    \<and> inc' = inc + sum_list (map il_incoming_quantity ls)"
    using assms
  proof (induction ls arbitrary: ids locs st re inc)
    case (Cons l ls)
    from Cons.prems have "scan_levels item ls (insert (il_id l) ids, insert (il_location_id l) locs,
        st + il_stocked_quantity l, re + il_reserved_quantity l, inc + il_incoming_quantity l) = Inr (st', re', inc')"
      by auto
    from Cons.IH [OF this] show ?case by simp
  qed simp
  then show "st' = st + sum_list (map il_stocked_quantity ls)" "re' = re + sum_list (map il_reserved_quantity ls)"
    "inc' = inc + sum_list (map il_incoming_quantity ls)" by blast+
qed

lemma singleton_case:
  "(case xs of [] \<Rightarrow> Inl e | [x] \<Rightarrow> f x | _ \<Rightarrow> Inl e) = Inr y \<longleftrightarrow> (\<exists>x. xs = [x] \<and> f x = Inr y)"
  by (auto split: list.splits)

lemma load_snapshot_Inr:
  assumes "load_snapshot env s tenant variant allowance = Inr snap"
  obtains i v where "i \<in> set (inv_items s)" "ii_variant_id i = variant" "find_variant s tenant variant = Some v"
    "ss_variant_id snap = variant" "ss_item_id snap = ii_id i" "ss_stocked snap = item_sum il_stocked_quantity s (ii_id i)"
    "ss_reserved snap = item_sum il_reserved_quantity s (ii_id i)"
    "ss_incoming snap = item_sum il_incoming_quantity s (ii_id i)"
proof -
  obtain v where v: "find_variant s tenant variant = Some v"
    using assms by (cases "find_variant s tenant variant") (auto simp: load_snapshot_def)
  obtain i where i: "take 2 (filter (\<lambda>i. ii_variant_id i = variant) (inv_items s)) = [i]"
    using assms unfolding load_snapshot_def v by (auto simp: singleton_case)
  let ?ls = "sort_key il_id (item_levels s (ii_id i))"
  obtain parent where run: "summarize env variant parent (ii_id i) (take (allowance + 1) ?ls) = Inr snap"
    "\<not> allowance < length (take (allowance + 1) ?ls)"
    using assms by (auto simp: load_snapshot_def v i Let_def)
  then have "take (allowance + 1) ?ls = ?ls" by auto
  with run(1) obtain st re inc where "scan_levels (ii_id i) ?ls ({}, {}, 0, 0, 0) = Inr (st, re, inc)"
    "snap = \<lparr>ss_variant_id = variant, ss_product_id = parent, ss_item_id = ii_id i, ss_stocked = st, ss_reserved = re,
          ss_incoming = inc, ss_binding_digest = bindings_digest env ?ls, ss_level_count = length ?ls\<rparr>"
    by (auto simp: summarize_def)
  with scan_levels_Inr [of "ii_id i" ?ls "{}" "{}" 0 0 0 st re inc] take_2_single [OF i] v show thesis
    by (intro that [of i v]) (simp_all add: item_sum_def sum_list_sort_key)
qed

text \<open>What a snapshot tells.\<close>

definition snapshot_ok :: "inv_store \<Rightarrow> uuid \<Rightarrow> source_snapshot \<Rightarrow> bool" where
  "snapshot_ok s tenant snap \<longleftrightarrow> (\<exists>v \<in> set (inv_variants s). vr_id v = ss_variant_id snap \<and> vr_tenant_id v = tenant)
     \<and> (\<exists>i \<in> set (inv_items s). ii_id i = ss_item_id snap \<and> ii_variant_id i = ss_variant_id snap)
     \<and> ss_stocked snap = item_sum il_stocked_quantity s (ss_item_id snap)
     \<and> ss_reserved snap = item_sum il_reserved_quantity s (ss_item_id snap)
     \<and> ss_incoming snap = item_sum il_incoming_quantity s (ss_item_id snap)"

lemma load_snapshot_ok:
  assumes "load_snapshot env s tenant variant allowance = Inr snap"
  shows "snapshot_ok s tenant snap" and "ss_variant_id snap = variant"
proof -
  obtain i v where i: "i \<in> set (inv_items s)" "ii_variant_id i = variant" "find_variant s tenant variant = Some v"
    "ss_variant_id snap = variant" "ss_item_id snap = ii_id i" "ss_stocked snap = item_sum il_stocked_quantity s (ii_id i)"
    "ss_reserved snap = item_sum il_reserved_quantity s (ii_id i)"
    "ss_incoming snap = item_sum il_incoming_quantity s (ii_id i)"
    by (rule load_snapshot_Inr [OF assms])
  then show "snapshot_ok s tenant snap" "ss_variant_id snap = variant"
    by (auto simp: snapshot_ok_def find_variant_def find_Some_iff)
qed

lemma snapshot_ok_cong:
  assumes "inv_variants t = inv_variants s" "inv_items t = inv_items s" "inv_levels t = inv_levels s"
  shows "snapshot_ok t = snapshot_ok s"
  by (simp add: fun_eq_iff snapshot_ok_def item_sum_def item_levels_def assms)

subsection \<open>Recording a change\<close>

lemma publish_once_outbox:
  assumes "publish_once s e t a p = Inr s'"
  shows "\<exists>ob. s' = s\<lparr>inv_outbox := ob\<rparr> \<and> set (inv_outbox s) \<subseteq> set ob
    \<and> (\<exists>f \<in> set ob. of_envelope_id f = Some e \<and> of_tenant_id f = t \<and> of_fact f = p)"
  using assms
proof (cases "List.find (\<lambda>g. of_envelope_id g = Some e) (inv_outbox s)")
  case None
  with assms show ?thesis by (auto simp: publish_once_def Let_def)
next
  case (Some g)
  then have "g \<in> set (inv_outbox s)" by (auto simp: find_Some_iff)
  with assms Some show ?thesis
    by (intro exI [of _ "inv_outbox s"] conjI bexI [of _ g]) (auto simp: publish_once_def Let_def split: if_splits)
qed

lemma publish_changed_outbox:
  assumes "publish_changed s t a b v n c = Inr s'"
  shows "\<exists>ob. s' = s\<lparr>inv_outbox := ob\<rparr> \<and> set (inv_outbox s) \<subseteq> set ob
    \<and> (\<exists>f \<in> set ob. of_envelope_id f = Some c \<and> of_tenant_id f = t \<and> of_fact f = SourceChanged b v (nat n))"
  using assms by (auto simp: publish_changed_def publish_source_def dest: publish_once_outbox)

text \<open>A change appended and published, with the record that carries its version.\<close>

lemma journal_append:
  assumes "journal_but C B s" and rows: "unique_rows source_record_clash rs"
    and old: "\<And>r. r \<in> set rs \<Longrightarrow> (sr_tenant_id r, sr_variant_id r) \<noteq> (sch_tenant_id c, sch_variant_id c) \<Longrightarrow> r \<in> set (src_records s)
      \<and> (\<not> sr_deleted r \<and> sr_inventory_item_id r \<notin> B \<longrightarrow> sr_inventory_item_id r \<notin> C)"
    and head: "r0 \<in> set rs" "sr_tenant_id r0 = sch_tenant_id c" "sr_variant_id r0 = sch_variant_id c"
      "sr_source_version r0 = sch_source_version c" "\<not> sr_deleted r0 \<Longrightarrow> counters_match s r0 \<and> record_bound s r0"
      "1 \<le> sch_source_version c"
      "map sch_source_version (changes_of s (sch_tenant_id c) (sch_variant_id c)) = [1..sch_source_version c - 1]"
    and keep: "(\<lambda>r. (sr_tenant_id r, sr_variant_id r)) ` set (src_records s) \<subseteq> (\<lambda>r. (sr_tenant_id r, sr_variant_id r)) ` set rs"
    and ob: "set (inv_outbox s) \<subseteq> set ob" "sch_kind c \<noteq> ''baseline'' \<Longrightarrow> \<exists>f \<in> set ob. of_envelope_id f = Some (sch_change_id c)
      \<and> of_tenant_id f = sch_tenant_id c
      \<and> of_fact f = SourceChanged (sch_baseline_id c) (sch_variant_id c) (nat (sch_source_version c))"
  shows "journal_but {} B (s\<lparr>src_records := rs, src_changes := src_changes s @ [c], inv_outbox := ob\<rparr>)"
    (is "journal_but {} B ?t")
proof -
  have sums: "item_sum g ?t item = item_sum g s item" for g item by (simp add: item_sum_def item_levels_def)
  have kept: "record_numbered ?t r \<and> (\<not> sr_deleted r \<and> sr_inventory_item_id r \<notin> B \<longrightarrow> record_bound ?t r \<and> counters_match ?t r)"
    if r: "r \<in> set rs" for r
  proof (cases "(sr_tenant_id r, sr_variant_id r) = (sch_tenant_id c, sch_variant_id c)")
    case True
    then have "r = r0" using source_record_table.unique_eq [OF rows r head(1)] head(2,3) by (simp add: source_record_clash_def)
    moreover have "[1..sch_source_version c - 1] @ [sch_source_version c] = [1..sch_source_version c]"
      using upto_rec2 [of 1 "sch_source_version c"] head(6) by simp
    ultimately show ?thesis
      using head by (simp add: record_numbered_def record_bound_def changes_of_def counters_match_def sums)
  next
    case False
    then have "record_numbered s r" "\<not> sr_deleted r \<and> sr_inventory_item_id r \<notin> B \<longrightarrow> record_bound s r \<and> counters_match s r"
      using old [OF r] assms(1) by (auto simp: journal_but_def)
    moreover have "changes_of ?t (sr_tenant_id r) (sr_variant_id r) = changes_of s (sr_tenant_id r) (sr_variant_id r)"
      using False by (auto simp: changes_of_def)
    ultimately show ?thesis by (auto simp: record_numbered_def record_bound_def counters_match_def sums)
  qed
  have change: "(sch_kind d \<noteq> ''baseline'' \<longrightarrow> change_published ?t d)
      \<and> (\<exists>r \<in> set rs. sr_tenant_id r = sch_tenant_id d \<and> sr_variant_id r = sch_variant_id d)"
    if "d \<in> set (src_changes s) \<or> d = c" for d
    using that
  proof
    assume d: "d \<in> set (src_changes s)"
    then have "sch_kind d \<noteq> ''baseline'' \<longrightarrow> change_published s d"
      "(sch_tenant_id d, sch_variant_id d) \<in> (\<lambda>r. (sr_tenant_id r, sr_variant_id r)) ` set (src_records s)"
      using assms(1) by (force simp: journal_but_def)+
    then show ?thesis using ob(1) keep by (force simp: change_published_def)
  qed (use ob head in \<open>auto simp: change_published_def\<close>)
  from kept change rows show ?thesis by (auto simp: journal_but_def)
qed

text \<open>A record of the item of a variant is the record of that variant and its tenant.\<close>

lemma record_of_item:
  assumes "record_bound s r" and "stock_ok s" and "find_variant s tenant variant = Some v"
    and "i \<in> set (inv_items s)" "ii_variant_id i = variant" and "sr_inventory_item_id r = ii_id i"
  shows "sr_tenant_id r = tenant \<and> sr_variant_id r = variant"
proof -
  obtain j where j: "j \<in> set (inv_items s)" "ii_id j = ii_id i" "ii_variant_id j = sr_variant_id r"
    using assms(1,6) by (auto simp: record_bound_def)
  then have "j = i" using assms(2,4)
    by (intro stock_item_table.unique_eq [of "inv_items s"]) (auto simp: stock_ok_def stock_item_clash_def)
  moreover obtain w where w: "w \<in> set (inv_variants s)" "vr_id w = sr_variant_id r" "vr_tenant_id w = sr_tenant_id r"
    using assms(1) by (auto simp: record_bound_def)
  moreover have v: "v \<in> set (inv_variants s)" "vr_id v = variant" "vr_tenant_id v = tenant"
    using assms(3) by (auto simp: find_variant_def find_Some_iff)
  moreover have "distinct (map vr_id (inv_variants s))" using assms(2) by (simp add: stock_ok_def)
  ultimately show ?thesis using j(3) assms(5) by (auto simp: distinct_map inj_on_def)
qed

lemma source_record_keys:
  "unique_rows source_record_clash rs \<Longrightarrow> distinct (map (\<lambda>r. (sr_tenant_id r, sr_variant_id r)) rs)"
  by (rule unique_rows_distinct [of source_record_clash]) (auto simp: source_record_clash_def)

lemma update_record_Inr:
  assumes "update_record env s saved st re inc gone actor = Inr s'" and "unique_rows source_record_clash (src_records s)"
    and "saved \<in> set (src_records s)"
  obtains rs c ob f where "s' = s\<lparr>src_records := rs, src_changes := src_changes s @ [c], inv_outbox := ob\<rparr>"
    "rs = map (\<lambda>r. if (sr_tenant_id r, sr_variant_id r) = (sr_tenant_id saved, sr_variant_id saved)
        then set_record env (sr_source_version saved + 1, st, re, inc, gone) r else r) (src_records s)"
    "unique_rows source_record_clash rs"
    "sch_tenant_id c = sr_tenant_id saved" "sch_variant_id c = sr_variant_id saved"
    "sch_source_version c = sr_source_version saved + 1" "sch_baseline_id c = sr_baseline_id saved" "sch_kind c \<noteq> ''baseline''"
    "set (inv_outbox s) \<subseteq> set ob" "f \<in> set ob" "of_envelope_id f = Some (sch_change_id c)"
    "of_tenant_id f = sch_tenant_id c" "of_fact f = SourceChanged (sch_baseline_id c) (sch_variant_id c) (nat (sch_source_version c))"
proof -
  let ?set = "set_record env (sr_source_version saved + 1, st, re, inc, gone)"
  obtain rs t where run: "update_one (updates_record saved) ?set (src_records s) = Some rs"
    "append_change env (s\<lparr>src_records := rs\<rparr>) (sr_tenant_id saved) (sr_baseline_id saved) (sr_variant_id saved)
        (sr_source_version saved + 1) (src_change_id env) (if gone then ''deleted'' else ''changed'') = Inr t"
    "publish_changed t (sr_tenant_id saved) actor (sr_baseline_id saved) (sr_variant_id saved)
        (sr_source_version saved + 1) (src_change_id env) = Inr s'"
    "\<forall>r \<in> set (src_records s). updates_record saved r \<or> sr_last_change_id r \<noteq> src_change_id env"
    using assms(1) by (auto simp: update_record_def next_version_def Let_def list_ex_iff)
  note keys = source_record_keys [OF assms(2)]
  have rs: "rs = map (\<lambda>r. if (sr_tenant_id r, sr_variant_id r) = (sr_tenant_id saved, sr_variant_id saved)
      then ?set r else r) (src_records s)"
    using source_record_rows.update_one_keyed [OF keys run(1)] by simp
  have only: "r = saved" if "r \<in> set (src_records s)" "(sr_tenant_id r, sr_variant_id r) = (sr_tenant_id saved, sr_variant_id saved)" for r
    using that assms(3) keys by (auto simp: distinct_map inj_on_def)
  have "unique_rows source_record_clash rs"
    unfolding rs using assms(2)
  proof (rule unique_rows_map)
    fix x y
    assume xy: "x \<in> set (src_records s)" "y \<in> set (src_records s)"
      "source_record_clash (if (sr_tenant_id x, sr_variant_id x) = (sr_tenant_id saved, sr_variant_id saved) then ?set x else x)
        (if (sr_tenant_id y, sr_variant_id y) = (sr_tenant_id saved, sr_variant_id saved) then ?set y else y)"
    have fresh: "src_change_id env \<noteq> sr_last_change_id z" if "z \<in> set (src_records s)" "z \<noteq> saved" for z
      using run(4) that only by (auto simp: updates_record_def)
    then show "source_record_clash x y"
      using xy only [OF xy(1)] only [OF xy(2)] fresh [OF xy(1)] fresh [OF xy(2)]
        fresh [OF xy(1), symmetric] fresh [OF xy(2), symmetric]
      by (cases "x = saved"; cases "y = saved") (auto simp: source_record_clash_def set_record_def split: if_splits)
  qed
  moreover let ?c = "\<lparr>sch_change_id = src_change_id env, sch_tenant_id = sr_tenant_id saved,
       sch_variant_id = sr_variant_id saved, sch_baseline_id = sr_baseline_id saved,
       sch_source_version = sr_source_version saved + 1, sch_kind = (if gone then ''deleted'' else ''changed''), sch_created_at = inv_now env\<rparr>"
  have t: "t = s\<lparr>src_records := rs, src_changes := src_changes s @ [?c]\<rparr>"
    using run(2) by (auto simp: append_change_def source_change_table.insert_unique_Some)
  obtain ob f where "s' = t\<lparr>inv_outbox := ob\<rparr>" "set (inv_outbox t) \<subseteq> set ob" "f \<in> set ob" "of_envelope_id f = Some (src_change_id env)"
    "of_tenant_id f = sr_tenant_id saved"
    "of_fact f = SourceChanged (sr_baseline_id saved) (sr_variant_id saved) (nat (sr_source_version saved + 1))"
    using publish_changed_outbox [OF run(3)] by blast
  ultimately show thesis using rs t by (intro that [where rs = rs and c = ?c and ob = ob and f = f]) simp_all
qed

lemma update_record_keys:
  assumes "rs = map (\<lambda>r. if (sr_tenant_id r, sr_variant_id r) = (sr_tenant_id saved, sr_variant_id saved)
      then set_record env x r else r) (src_records s)"
  shows "(\<lambda>r. (sr_tenant_id r, sr_variant_id r)) ` set (src_records s) \<subseteq> (\<lambda>r. (sr_tenant_id r, sr_variant_id r)) ` set rs"
proof -
  obtain version st re inc gone where x: "x = (version, st, re, inc, gone)" by (cases x)
  have "map (\<lambda>r. (sr_tenant_id r, sr_variant_id r)) rs = map (\<lambda>r. (sr_tenant_id r, sr_variant_id r)) (src_records s)"
    unfolding assms x set_record_def by simp
  then have "set (map (\<lambda>r. (sr_tenant_id r, sr_variant_id r)) rs)
    = set (map (\<lambda>r. (sr_tenant_id r, sr_variant_id r)) (src_records s))" by (rule arg_cong)
  then show ?thesis by (simp only: list.set_map order_refl)
qed

lemma update_record_journal:
  assumes run: "update_record env s saved st re inc gone actor = Inr s'" and but: "journal_but C B s"
    and saved: "saved \<in> set (src_records s)"
    and live: "\<not> gone \<Longrightarrow> st = item_sum il_stocked_quantity s (sr_inventory_item_id saved)
      \<and> re = item_sum il_reserved_quantity s (sr_inventory_item_id saved)
      \<and> inc = item_sum il_incoming_quantity s (sr_inventory_item_id saved) \<and> record_bound s saved"
    and rest: "\<And>r. r \<in> set (src_records s) \<Longrightarrow> r \<noteq> saved \<Longrightarrow> \<not> sr_deleted r \<Longrightarrow> sr_inventory_item_id r \<notin> B
      \<Longrightarrow> sr_inventory_item_id r \<notin> C"
  shows "journal_but {} B s'"
proof -
  have urs: "unique_rows source_record_clash (src_records s)" using but by (simp add: journal_but_def)
  obtain rs c ob f where u: "s' = s\<lparr>src_records := rs, src_changes := src_changes s @ [c], inv_outbox := ob\<rparr>"
    "rs = map (\<lambda>r. if (sr_tenant_id r, sr_variant_id r) = (sr_tenant_id saved, sr_variant_id saved)
        then set_record env (sr_source_version saved + 1, st, re, inc, gone) r else r) (src_records s)"
    "unique_rows source_record_clash rs"
    "sch_tenant_id c = sr_tenant_id saved" "sch_variant_id c = sr_variant_id saved"
    "sch_source_version c = sr_source_version saved + 1" "sch_baseline_id c = sr_baseline_id saved" "sch_kind c \<noteq> ''baseline''"
    "set (inv_outbox s) \<subseteq> set ob" "f \<in> set ob" "of_envelope_id f = Some (sch_change_id c)"
    "of_tenant_id f = sch_tenant_id c" "of_fact f = SourceChanged (sch_baseline_id c) (sch_variant_id c) (nat (sch_source_version c))"
    by (rule update_record_Inr [OF run urs saved])
  let ?r0 = "set_record env (sr_source_version saved + 1, st, re, inc, gone) saved"
  have numbered: "record_numbered s saved" using but saved by (simp add: journal_but_def)
  show ?thesis unfolding u(1)
  proof (rule journal_append [OF but u(3)])
    show "r \<in> set (src_records s) \<and> (\<not> sr_deleted r \<and> sr_inventory_item_id r \<notin> B \<longrightarrow> sr_inventory_item_id r \<notin> C)"
      if r: "r \<in> set rs" "(sr_tenant_id r, sr_variant_id r) \<noteq> (sch_tenant_id c, sch_variant_id c)" for r
    proof -
      have "r \<in> set (src_records s)" using r u(2,4,5) by (auto simp: set_record_def split: if_splits)
      moreover have "r \<noteq> saved" using r(2) u(4,5) by auto
      ultimately show ?thesis using rest by blast
    qed
    show "?r0 \<in> set rs" using saved u(2) by (auto simp: image_iff)
    show "sr_tenant_id ?r0 = sch_tenant_id c" "sr_variant_id ?r0 = sch_variant_id c" "sr_source_version ?r0 = sch_source_version c"
      by (simp_all add: set_record_def u(4-6))
    show "counters_match s ?r0 \<and> record_bound s ?r0" if "\<not> sr_deleted ?r0"
      using live that by (simp add: counters_match_def record_bound_def set_record_def)
    show "1 \<le> sch_source_version c"
      "map sch_source_version (changes_of s (sch_tenant_id c) (sch_variant_id c)) = [1..sch_source_version c - 1]"
      using numbered by (simp_all add: record_numbered_def u(4-6))
    show "\<exists>f \<in> set ob. of_envelope_id f = Some (sch_change_id c) \<and> of_tenant_id f = sch_tenant_id c
      \<and> of_fact f = SourceChanged (sch_baseline_id c) (sch_variant_id c) (nat (sch_source_version c))"
      using u(10-13) by blast
  qed (use u(9) update_record_keys [OF u(2)] in simp_all)
qed

lemma live_record_Inr:
  assumes "live_record s tenant baseline variant = Inr saved"
  shows "saved \<in> set (src_records s)" "sr_tenant_id saved = tenant" "sr_variant_id saved = variant" "\<not> sr_deleted saved"
  using assms by (auto simp: live_record_def find_Some_iff)

lemma untracked_records:
  "tracking_baseline env s tenant = Inr None \<Longrightarrow> r \<in> set (src_records s) \<Longrightarrow> sr_tenant_id r \<noteq> tenant"
  by (auto simp: tracking_baseline_def stranded_def list_ex_iff split: option.splits if_splits)

lemma record_changed_journal:
  assumes run: "record_changed env s tenant variant actor = Inr s'" and but: "journal_but {ii_id i} {} s" and ok: "stock_ok s"
    and i: "i \<in> set (inv_items s)" "ii_variant_id i = variant" and v: "find_variant s tenant variant = Some v"
  shows "journal_ok s'"
proof -
  have key: "sr_tenant_id r = tenant \<and> sr_variant_id r = variant"
    if "r \<in> set (src_records s)" "\<not> sr_deleted r" "sr_inventory_item_id r = ii_id i" for r
    using record_of_item [OF _ ok v i that(3)] but that(1,2) by (simp add: journal_but_def)
  obtain tracked where tracked: "tracking_baseline env s tenant = Inr tracked"
    using run by (auto simp: record_changed_def)
  show ?thesis
  proof (cases tracked)
    case None
    then have "\<forall>r \<in> set (src_records s). \<not> sr_deleted r \<longrightarrow> sr_inventory_item_id r \<noteq> ii_id i"
      using untracked_records tracked key by blast
    moreover have "s' = s" using run tracked None by (simp add: record_changed_def)
    ultimately show ?thesis using but by (auto simp: journal_but_def)
  next
    case (Some baseline)
    obtain snap saved where w: "load_snapshot env s tenant variant MAX_SOURCE_LEVELS = Inr snap"
      "live_record s tenant baseline variant = Inr saved" "prove_binding saved snap = Inr ()"
      "update_record env s saved (ss_stocked snap) (ss_reserved snap) (ss_incoming snap) False actor = Inr s'"
      using run tracked Some by (auto simp: record_changed_def)
    note saved = live_record_Inr [OF w(2)]
    have snap: "snapshot_ok s tenant snap" by (rule load_snapshot_ok [OF w(1)])
    have item: "sr_inventory_item_id saved = ss_item_id snap" using w(3) by (simp add: prove_binding_def)
    have keys: "distinct (map (\<lambda>r. (sr_tenant_id r, sr_variant_id r)) (src_records s))"
      using but source_record_keys by (simp add: journal_but_def)
    show ?thesis
    proof (rule update_record_journal [OF w(4) but saved(1)])
      show "sr_inventory_item_id r \<notin> {ii_id i}" if "r \<in> set (src_records s)" "r \<noteq> saved" "\<not> sr_deleted r" for r
        using key [OF that(1,3)] that(1,2) saved keys by (auto simp: distinct_map inj_on_def)
      have "record_bound s saved" using but saved by (simp add: journal_but_def)
      then show "ss_stocked snap = item_sum il_stocked_quantity s (sr_inventory_item_id saved)
        \<and> ss_reserved snap = item_sum il_reserved_quantity s (sr_inventory_item_id saved)
        \<and> ss_incoming snap = item_sum il_incoming_quantity s (sr_inventory_item_id saved) \<and> record_bound s saved"
        using item snap by (simp add: snapshot_ok_def)
    qed
  qed
qed

lemma journal_changed_stock:
  assumes "record_changed env t tenant variant actor = Inr s'" and "journal_ok s" and "stock_ok t"
    and "i \<in> set (inv_items t)" "ii_variant_id i = variant" and "find_variant t tenant variant = Some v"
    and "src_records t = src_records s" "src_changes t = src_changes s" "inv_outbox t = inv_outbox s"
    and "inv_variants t = inv_variants s" "set (inv_items s) \<subseteq> set (inv_items t)"
    and "\<And>item. item \<noteq> ii_id i \<Longrightarrow> item_levels t item = item_levels s item"
  shows "journal_ok s'"
  by (rule record_changed_journal [OF assms(1) journal_but_change [OF assms(2,7-12)] assms(3-6)])

subsection \<open>The commands\<close>

lemma publish_root_journal: "publish_root s t a p = Inr s' \<Longrightarrow> journal_ok s \<Longrightarrow> journal_ok s'"
  by (rule journal_ok_change [of s]) (auto simp: publish_root_def)

lemma item_levels_other:
  assumes "inv_levels t = map f (inv_levels s)" and "\<And>l. il_inventory_item_id (f l) = il_inventory_item_id l"
    and "\<And>l. l \<in> set (inv_levels s) \<Longrightarrow> il_inventory_item_id l \<noteq> k \<Longrightarrow> f l = l" and "item \<noteq> k"
  shows "item_levels t item = item_levels s item"
  using item_levels_map [OF assms(2,1)] assms(3,4) by (auto simp: item_levels_def intro: map_idI)

lemma apply_plan_recorded:
  assumes "apply_plan env s p threshold = Inr (s', w)" and "unique_rows stock_level_clash (inv_levels s)"
    and "qp_target p = Some (l, st)"
  obtains m where "record_changed env (s\<lparr>inv_levels := map (restock env l st) (inv_levels s)\<rparr>) (qp_tenant_id p) (qp_variant_id p)
      (Some (qp_actor_id p)) = Inr m" "journal_ok m \<longrightarrow> journal_ok s'"
proof -
  obtain mid m where mid: "write_stocked env s l st = Inr mid"
    "record_changed env mid (qp_tenant_id p) (qp_variant_id p) (Some (qp_actor_id p)) = Inr m"
    "journal_ok m \<longrightarrow> journal_ok s'"
    using assms(1,3) by (auto simp: apply_plan_def Let_def split: option.splits dest: publish_root_journal)
  then obtain ls where "mid = s\<lparr>inv_levels := ls\<rparr>" "update_one (same_counters l)
      (\<lambda>m. m\<lparr>il_stocked_quantity := st, il_updated_at := inv_now env\<rparr>) (inv_levels s) = Some ls"
    by (auto simp: write_stocked_def)
  then have "mid = s\<lparr>inv_levels := map (restock env l st) (inv_levels s)\<rparr>"
    using stocked_rows.update_one_keyed [OF level_ids [OF assms(2)], of l env st ls] by (simp add: restock_def [abs_def])
  with mid(2,3) show thesis by (intro that) simp_all
qed

lemma write_quantity_journal:
  assumes "write_quantity env seen s tenant actor variant change threshold = Inr (s', w)" and "stock_ok s" and "journal_ok s"
  shows "journal_ok s'"
proof -
  have ul: "unique_rows stock_level_clash (inv_levels s)" using assms(2) by (simp add: stock_ok_def)
  obtain p where p: "load_plan seen s tenant actor variant change = Inr p" "apply_plan env s p threshold = Inr (s', w)"
    using assms(1) by (auto simp: write_quantity_def)
  have ids: "qp_tenant_id p = tenant" "qp_variant_id p = variant"
    using p(1) by (auto simp: load_plan_def Let_def singleton_case)
  obtain i v where i: "i \<in> set (inv_items s)" "ii_variant_id i = variant" "find_variant s tenant variant = Some v"
    and target: "case qp_target p of None \<Rightarrow> qp_after p = qp_before p
     | Some (l, st) \<Rightarrow> l \<in> set (item_levels s (ii_id i))
         \<and> stocked_target (qp_before p) (qp_after p) (il_stocked_quantity l) (il_reserved_quantity l)
             (inventory_policy_allows_backorder (vr_inventory_policy v)) = Inr st"
    by (rule load_plan_Inr [OF p(1)])
  show ?thesis
  proof (cases "qp_target p")
    case None
    with p(2) assms(3) show ?thesis by (simp add: apply_plan_def)
  next
    case (Some ls)
    obtain l st where ls: "ls = (l, st)" by force
    have l: "l \<in> set (inv_levels s)" "il_inventory_item_id l = ii_id i" using target Some ls by (auto simp: item_levels_def)
    let ?t = "s\<lparr>inv_levels := map (restock env l st) (inv_levels s)\<rparr>"
    obtain m where m: "record_changed env ?t (qp_tenant_id p) (qp_variant_id p) (Some (qp_actor_id p)) = Inr m"
      "journal_ok m \<longrightarrow> journal_ok s'"
      by (rule apply_plan_recorded [OF p(2) ul Some [unfolded ls]])
    have "same_stock m s'" and okm: "stock_ok ?t"
    proof -
      have "stock_ok s'" by (rule write_quantity_ok [OF assms(1,2)])
      moreover have "same_stock ?t s'" using apply_plan_stock(2) [OF p(2) ul] Some ls by simp
      ultimately show "stock_ok ?t" by (simp add: same_stock_ok)
      show "same_stock m s'" using record_changed_stock [OF m(1)] \<open>same_stock ?t s'\<close> by (simp add: same_stock_def)
    qed
    have "restock env l st x = x" if "x \<in> set (inv_levels s)" "il_inventory_item_id x \<noteq> ii_id i" for x
      using that l level_ids [OF ul] by (auto simp: restock_def distinct_map inj_on_def)
    then have "item_levels ?t item = item_levels s item" if "item \<noteq> ii_id i" for item
      by (intro item_levels_other [where f = "restock env l st" and k = "ii_id i", OF _ _ _ that]) (simp_all add: restock_keys)
    then have "journal_ok m"
      by (intro journal_changed_stock [OF m(1) assms(3) okm, of i v]) (use i ids in \<open>simp_all add: find_variant_def\<close>)
    then show ?thesis using m(2) by simp
  qed
qed

text \<open>The notification of a movement records it first.\<close>

lemma publish_event_recorded:
  assumes "prepare_event env t ctx v = Inr event" and "publish_event env u event = Inr s'"
  obtains m where "record_changed env u (vr_tenant_id v) (vr_id v) (rep_actor_id event) = Inr m" "journal_ok m \<longrightarrow> journal_ok s'"
proof -
  have "rep_tenant_id event = vr_tenant_id v" "rep_variant_id event = vr_id v"
    using assms(1) by (auto simp: prepare_event_def Let_def)
  then obtain m where "record_changed env u (vr_tenant_id v) (vr_id v) (rep_actor_id event) = Inr m"
    "publish_root m (vr_tenant_id v) (rep_actor_id event) (ReservationChanged (rep_product_id event) (vr_id v)) = Inr s'"
    using assms(2) by (auto simp: publish_event_def)
  then show thesis by (intro that) (auto intro: publish_root_journal)
qed

lemma find_variant_tenant: "find_variant s tenant variant = Some v \<Longrightarrow> vr_tenant_id v = tenant \<and> vr_id v = variant"
  by (auto simp: find_variant_def find_Some_iff)

lemma release_in_transaction_journal:
  assumes "release_in_transaction env s ctx tenant v quantity = Inr (s', r)" and "stock_ok s" and "journal_ok s"
    and v: "find_variant s tenant variant = Some v"
  shows "journal_ok s'"
proof -
  obtain i cs where o: "find_item s (vr_id v) = Some i" "cs = oldest_first quantity (release_pool s (ii_id i))" "0 < quantity"
    "set (release_pool s (ii_id i)) = set (filter (\<lambda>r. unkeyed (ii_id i) r \<and> anonymous r) (inv_reservations s))"
    "\<forall>r \<in> set (release_pool s (ii_id i)). 0 < rsv_quantity r"
    "\<exists>event. prepare_event env s ctx v = Inr event \<and> publish_event env (release_effect env (ii_id i) cs s) event = Inr s'"
    by (rule release_in_transaction_outcome [OF assms(1,2)])
  let ?t = "release_effect env (ii_id i) cs s"
  obtain event where event: "prepare_event env s ctx v = Inr event" "publish_event env ?t event = Inr s'" using o(6) by blast
  obtain m where m: "record_changed env ?t (vr_tenant_id v) (vr_id v) (rep_actor_id event) = Inr m" "journal_ok m \<longrightarrow> journal_ok s'"
    by (rule publish_event_recorded [OF event])
  have "releasable s (ii_id i) cs" unfolding o(2) by (rule releasable_oldest [OF assms(2) o(3-5)])
  then have ok: "stock_ok ?t" using release_effect_ok assms(2) by blast
  have "journal_ok m"
  proof (rule journal_changed_stock [OF m(1) assms(3) ok, of i v])
    show "item_levels ?t item = item_levels s item" if "item \<noteq> ii_id i" for item
      by (rule item_levels_other [where f = "lower_level env (ii_id i) cs" and k = "ii_id i", OF _ _ _ that])
        (auto simp: release_effect_def lower_level_def reserve_level_def)
  qed (use find_item_Some [OF o(1)] find_variant_tenant [OF v] v in \<open>simp_all add: release_effect_def find_variant_def\<close>)
  then show ?thesis using m(2) by simp
qed

text \<open>What a reservation creates belongs to the item of its variant.\<close>

lemma ensure_inventory_state_frame:
  assumes "ensure_inventory_state env s tenant v = Inr (t, i, w, l)"
  shows "src_records t = src_records s" "src_changes t = src_changes s" "inv_outbox t = inv_outbox s"
    "set (inv_items s) \<subseteq> set (inv_items t)" "item \<noteq> ii_id i \<Longrightarrow> item_levels t item = item_levels s item"
proof -
  obtain s1 s2 w' where run: "ensure_inventory_item env s v = Inr (s1, i)"
    "ensure_default_location env s1 tenant = Inr (s2, w')" "ensure_inventory_level env s2 i w 0 = Inr (t, l)"
    using assms by (auto simp: ensure_inventory_state_def find_Some_iff)
  have one: "src_records s1 = src_records s" "src_changes s1 = src_changes s" "inv_outbox s1 = inv_outbox s"
    "set (inv_items s) \<subseteq> set (inv_items s1)" "inv_levels s1 = inv_levels s"
    using run(1) by (auto simp: ensure_inventory_item_def stock_item_table.insert_unique_Some split: option.splits)
  have two: "src_records s2 = src_records s1" "src_changes s2 = src_changes s1" "inv_outbox s2 = inv_outbox s1"
    "inv_items s2 = inv_items s1" "inv_levels s2 = inv_levels s1"
    using ensure_default_location_frame [OF run(2)] by (elim disjE exE; simp)+
  have three: "src_records t = src_records s2" "src_changes t = src_changes s2" "inv_outbox t = inv_outbox s2"
    "inv_items t = inv_items s2" "inv_levels t = inv_levels s2 \<or> inv_levels t = inv_levels s2 @ [new_level_row env i w 0]"
    using run(3) by (auto simp: ensure_inventory_level_def stock_level_table.insert_unique_Some Let_def split: option.splits)
  show "src_records t = src_records s" "src_changes t = src_changes s" "inv_outbox t = inv_outbox s"
    "set (inv_items s) \<subseteq> set (inv_items t)"
    using one two three by simp_all
  show "item_levels t item = item_levels s item" if "item \<noteq> ii_id i"
    using one(5) two(5) three(5) that by (auto simp: item_levels_def new_level_row_def)
qed

lemma reserve_in_transaction_journal:
  assumes "reserve_in_transaction env s ctx tenant v quantity = Inr (s', r)" and "stock_ok s" and "journal_ok s"
    and v: "find_variant s tenant variant = Some v"
  shows "journal_ok s'"
proof -
  obtain t i w l where o: "ensure_inventory_state env s tenant v = Inr (t, i, w, l)"
    "same_stock (new_claim env i w (vr_id v) quantity t l) s'"
    "\<exists>event. prepare_event env t ctx v = Inr event \<and> publish_event env (new_claim env i w (vr_id v) quantity t l) event = Inr s'"
    by (rule reserve_in_transaction_outcome [OF assms(1,2) v])
  let ?t = "new_claim env i w (vr_id v) quantity t l"
  obtain event where event: "prepare_event env t ctx v = Inr event" "publish_event env ?t event = Inr s'" using o(3) by blast
  obtain m where m: "record_changed env ?t (vr_tenant_id v) (vr_id v) (rep_actor_id event) = Inr m" "journal_ok m \<longrightarrow> journal_ok s'"
    by (rule publish_event_recorded [OF event])
  note stock = ensure_inventory_state_stock [OF o(1) assms(2) conjunct1 [OF find_variant_Some [OF v]]] and frame = ensure_inventory_state_frame [OF o(1)]
  have ul: "unique_rows stock_level_clash (inv_levels t)" using stock(1) by (simp add: stock_ok_def)
  have ok: "stock_ok ?t"
    using reserve_in_transaction_ok [OF assms(1,2) v] same_stock_ok [OF o(2)] by simp
  have "journal_ok m"
  proof (rule journal_changed_stock [OF m(1) assms(3) ok, of i v])
    fix item assume item: "item \<noteq> ii_id i"
    have "claim_more env l quantity x = x" if "x \<in> set (inv_levels t)" "il_inventory_item_id x \<noteq> ii_id i" for x
      using that stock(5,6) level_ids [OF ul] by (auto simp: claim_more_def distinct_map inj_on_def)
    then have "item_levels ?t item = item_levels t item"
      by (intro item_levels_other [where f = "claim_more env l quantity" and k = "ii_id i", OF _ _ _ item])
        (auto simp: new_claim_def claim_more_def)
    then show "item_levels ?t item = item_levels s item" using frame(5) [OF item] by simp
  qed (use find_variant_tenant [OF v] v stock frame in \<open>simp_all add: new_claim_def find_variant_def\<close>)
  then show ?thesis using m(2) by simp
qed

text \<open>A first record, of a new variant or on a page of a baseline.\<close>

lemma insert_record_journal:
  assumes run: "insert_record env t tenant baseline snap kind = Inr u" and ok: "journal_ok t" and snap: "snapshot_ok t tenant snap"
    and ob: "set (inv_outbox t) \<subseteq> set ob" "kind \<noteq> ''baseline'' \<Longrightarrow> \<exists>f \<in> set ob. of_envelope_id f = Some (src_change_id env)
      \<and> of_tenant_id f = tenant \<and> of_fact f = SourceChanged baseline (ss_variant_id snap) 1"
  shows "journal_ok (u\<lparr>inv_outbox := ob\<rparr>)"
proof -
  define r0 where "r0 = \<lparr>sr_tenant_id = tenant, sr_variant_id = ss_variant_id snap, sr_baseline_id = baseline,
      sr_inventory_item_id = ss_item_id snap, sr_product_id = ss_product_id snap, sr_source_version = 1,
      sr_deleted = False, sr_stocked = ss_stocked snap, sr_reserved = ss_reserved snap,
      sr_incoming = ss_incoming snap, sr_binding_digest = ss_binding_digest snap,
      sr_last_change_id = src_change_id env, sr_updated_at = inv_now env\<rparr>"
  define c where "c = \<lparr>sch_change_id = src_change_id env, sch_tenant_id = tenant, sch_variant_id = ss_variant_id snap,
      sch_baseline_id = baseline, sch_source_version = 1, sch_kind = kind, sch_created_at = inv_now env\<rparr>"
  have fresh: "\<forall>r \<in> set (src_records t). \<not> source_record_clash r0 r" and
    u: "u = t\<lparr>src_records := src_records t @ [r0], src_changes := src_changes t @ [c]\<rparr>"
    using run by (auto simp: insert_record_def append_change_def source_record_table.insert_unique_Some
        source_change_table.insert_unique_Some r0_def c_def)
  have "\<not> (sch_tenant_id d = tenant \<and> sch_variant_id d = ss_variant_id snap)" if "d \<in> set (src_changes t)" for d
    using ok that fresh unfolding journal_but_def source_record_clash_def r0_def by force
  then have none: "changes_of t tenant (ss_variant_id snap) = []" by (simp add: changes_of_def filter_empty_conv)
  have "u\<lparr>inv_outbox := ob\<rparr> = t\<lparr>src_records := src_records t @ [r0], src_changes := src_changes t @ [c], inv_outbox := ob\<rparr>"
    by (simp add: u)
  also have "journal_ok \<dots>"
  proof (rule journal_append [OF ok])
    show "unique_rows source_record_clash (src_records t @ [r0])"
      using ok fresh by (simp add: source_record_table.unique_snoc journal_but_def)
    show "r0 \<in> set (src_records t @ [r0])" by simp
    show "counters_match t r0 \<and> record_bound t r0"
      using snap by (simp add: snapshot_ok_def counters_match_def record_bound_def r0_def)
  qed (use ob none in \<open>auto simp: r0_def c_def\<close>)
  finally show ?thesis .
qed

lemma create_initial_journal:
  assumes "create_initial_records env s w actor variant sku quantity = Inr s'" and "stock_ok s" and "journal_ok s"
  shows "journal_ok s'"
proof -
  obtain items levels where run: "insert_unique stock_item_clash (initial_item_row env variant sku) (inv_items s) = Some items"
    "insert_unique stock_level_clash (initial_level_row env (sl_id w) quantity) (inv_levels s) = Some levels"
    "record_created env (s\<lparr>inv_items := items, inv_levels := levels\<rparr>) (sl_tenant_id w) variant (Some actor) = Inr s'"
    using assms(1) by (auto simp: create_initial_records_def Let_def)
  let ?t = "s\<lparr>inv_items := items, inv_levels := levels\<rparr>" and ?k = "inv_item_id env"
  have items: "items = inv_items s @ [initial_item_row env variant sku]" "\<forall>j \<in> set (inv_items s). ii_id j \<noteq> ?k"
    using run(1) by (auto simp: stock_item_table.insert_unique_Some stock_item_clash_def initial_item_row_def)
  have levels: "levels = inv_levels s @ [initial_level_row env (sl_id w) quantity]"
    using run(2) by (simp add: stock_level_table.insert_unique_Some)
  have "journal_but {?k} {} ?t"
    by (rule journal_but_change [OF assms(3)]) (auto simp: items levels item_levels_def initial_level_row_def)
  moreover have "sr_inventory_item_id r \<noteq> ?k" if "r \<in> set (src_records s)" "\<not> sr_deleted r" for r
    using journal_live [OF assms(3) that] items(2) by (force simp: record_bound_def)
  ultimately have ok: "journal_ok ?t" by (auto simp: journal_but_def)
  obtain tracked where tracked: "tracking_baseline env ?t (sl_tenant_id w) = Inr tracked"
    using run(3) by (auto simp: record_created_def)
  show ?thesis
  proof (cases tracked)
    case None
    with run(3) tracked ok show ?thesis by (simp add: record_created_def)
  next
    case (Some baseline)
    obtain snap u where u: "load_snapshot env ?t (sl_tenant_id w) variant MAX_SOURCE_LEVELS = Inr snap"
      "insert_record env ?t (sl_tenant_id w) baseline snap ''created'' = Inr u"
      "publish_changed u (sl_tenant_id w) (Some actor) baseline variant 1 (src_change_id env) = Inr s'"
      using run(3) tracked Some by (auto simp: record_created_def)
    note snap = load_snapshot_ok [OF u(1)]
    obtain ob f where ob: "s' = u\<lparr>inv_outbox := ob\<rparr>" "set (inv_outbox u) \<subseteq> set ob" "f \<in> set ob"
      "of_envelope_id f = Some (src_change_id env)" "of_tenant_id f = sl_tenant_id w" "of_fact f = SourceChanged baseline variant (nat 1)"
      using publish_changed_outbox [OF u(3)] by blast
    have "inv_outbox u = inv_outbox ?t" using insert_record_Inr [OF u(2)] by auto
    then show ?thesis unfolding ob(1)
      by (intro insert_record_journal [OF u(2) ok snap(1)]) (use ob snap(2) in auto)
  qed
qed

lemma execute_quantity_journal:
  assumes "execute_quantity_write env seen s tenant actor variant change threshold = (s', res)" and "stock_ok s" and "journal_ok s"
  shows "journal_ok s'"
  using assms by (auto simp: execute_quantity_write_def split: sum.splits intro: write_quantity_journal)

lemma set_quantity_journal:
  "set_variant_quantity env seen s tenant actor variant quantity = (s', res) \<Longrightarrow> stock_ok s \<Longrightarrow> journal_ok s \<Longrightarrow> journal_ok s'"
  by (auto simp: set_variant_quantity_def split: sum.splits prod.splits intro: execute_quantity_journal)

lemma adjust_quantity_journal:
  "adjust_variant_quantity env seen s tenant actor variant quantity = (s', res) \<Longrightarrow> stock_ok s \<Longrightarrow> journal_ok s \<Longrightarrow> journal_ok s'"
  by (auto simp: adjust_variant_quantity_def split: sum.splits prod.splits intro: execute_quantity_journal)

lemma update_initial_journal:
  "update_initial_quantity env seen s tenant actor variant quantity = Inr s' \<Longrightarrow> stock_ok s \<Longrightarrow> journal_ok s \<Longrightarrow> journal_ok s'"
  by (auto simp: update_initial_quantity_def intro: write_quantity_journal)

lemma reserve_journal:
  assumes "reserve env s ctx variant quantity = (s', res)" and "stock_ok s" and "journal_ok s"
  shows "journal_ok s'"
  using reserve_outcome [OF assms(1)] assms(2,3) by (auto intro: reserve_in_transaction_journal)

lemma release_journal:
  assumes "release_reservation_quantity env s ctx variant quantity = (s', res)" and "stock_ok s" and "journal_ok s"
  shows "journal_ok s'"
  using release_outcome [OF assms(1)] assms(2,3) by (auto intro: release_in_transaction_journal)

subsection \<open>Building a baseline\<close>

lemma snapshot_each_ok:
  assumes "snapshot_each env s tenant levels vs = Inr snaps"
  shows "\<forall>snap \<in> set snaps. snapshot_ok s tenant snap" and "map ss_variant_id snaps = vs"
proof -
  have "(\<forall>snap \<in> set snaps. snapshot_ok s tenant snap) \<and> map ss_variant_id snaps = vs"
    using assms
  proof (induction vs arbitrary: levels snaps)
    case (Cons v vs)
    then obtain snap rest where "load_snapshot env s tenant v (MAX_SOURCE_LEVELS - levels) = Inr snap"
      "snapshot_each env s tenant (levels + ss_level_count snap) vs = Inr rest" "snaps = snap # rest" by auto
    with Cons.IH [of "levels + ss_level_count snap" rest] load_snapshot_ok show ?case by auto
  qed simp
  then show "\<forall>snap \<in> set snaps. snapshot_ok s tenant snap" "map ss_variant_id snaps = vs" by blast+
qed

lemma insert_each_journal:
  "insert_each env ids s tenant baseline snaps = Inr s' \<Longrightarrow> journal_ok s \<Longrightarrow> \<forall>snap \<in> set snaps. snapshot_ok s tenant snap
   \<Longrightarrow> journal_ok s'"
proof (induction snaps arbitrary: ids s)
  case (Cons snap snaps)
  then obtain t where t: "insert_record (env\<lparr>src_change_id := ids 0\<rparr>) s tenant baseline snap ''baseline'' = Inr t"
    "insert_each env (\<lambda>n. ids (Suc n)) t tenant baseline snaps = Inr s'" by auto
  obtain rs cs where u: "t = s\<lparr>src_records := rs, src_changes := cs\<rparr>" using insert_record_Inr [OF t(1)] by blast
  have "journal_ok (t\<lparr>inv_outbox := inv_outbox s\<rparr>)"
    by (rule insert_record_journal [OF t(1) Cons.prems(2)]) (use Cons.prems(3) in simp_all)
  then have "journal_ok t" by (simp add: u)
  moreover have "snapshot_ok t = snapshot_ok s" by (rule snapshot_ok_cong) (simp_all add: u)
  ultimately show ?case using Cons.IH [OF t(2)] Cons.prems(3) by simp
qed simp

lemma publish_activated_outbox:
  assumes "publish_activated s t a b = Inr s'"
  shows "\<exists>ob. s' = s\<lparr>inv_outbox := ob\<rparr> \<and> set (inv_outbox s) \<subseteq> set ob
    \<and> (\<exists>f \<in> set ob. of_envelope_id f = Some b \<and> of_tenant_id f = t \<and> of_fact f = SourceActivated b)"
  using assms by (auto simp: publish_activated_def publish_source_def dest: publish_once_outbox)

lemma copy_page_journal:
  assumes "copy_page env ids s tenant publisher request saved = Inr (s', p)" and "journal_ok s"
  shows "journal_ok s'"
proof (rule copy_page_Inr [OF assms(1)])
  fix found snaps t ps bs b u
  assume run: "snapshot_each env s tenant 0 (take (pr_limit request) found) = Inr snaps"
    "insert_each env ids s tenant (pr_baseline_id request) snaps = Inr t" "u = t\<lparr>src_pages := ps, src_baselines := bs\<rparr>"
    "if bl_active b then publish_activated u tenant publisher (bl_baseline_id b) = Inr s' else s' = u"
  have "journal_ok t" using insert_each_journal [OF run(2) assms(2)] snapshot_each_ok(1) [OF run(1)] by blast
  then have "journal_ok u" by (rule journal_ok_change) (simp_all add: run(3))
  have "\<exists>ob. s' = u\<lparr>inv_outbox := ob\<rparr> \<and> set (inv_outbox u) \<subseteq> set ob"
  proof (cases "bl_active b")
    case True
    with run(4) show ?thesis by (auto dest: publish_activated_outbox)
  next
    case False
    with run(4) show ?thesis by (intro exI [of _ "inv_outbox u"]) simp
  qed
  then obtain ob where ob: "s' = u\<lparr>inv_outbox := ob\<rparr>" "set (inv_outbox u) \<subseteq> set ob" by blast
  show ?thesis by (rule journal_ok_change [OF \<open>journal_ok u\<close>]) (use ob in simp_all)
qed

lemma start_baseline_journal:
  assumes "start_baseline env timing s ctx i = (s', res)" and "journal_ok s"
  shows "journal_ok s'"
  using start_baseline_outcome [OF assms(1)]
proof (elim disjE exE)
  fix tenant actor p
  assume "start_in env s tenant actor i = Inr (s', p)"
  then obtain bs where "s' = s\<lparr>src_baselines := bs\<rparr>" by (auto dest!: start_in_Inr)
  then show ?thesis by (intro journal_ok_change [OF assms(2)]) simp_all
qed (use assms(2) in simp)

lemma advance_baseline_journal:
  assumes "advance_baseline env ids timing s ctx request = (s', res)" and "journal_ok s"
  shows "journal_ok s'"
  using advance_baseline_outcome [OF assms(1)]
proof (elim disjE exE)
  fix tenant actor publisher p
  assume "advance_in env ids s tenant actor publisher request = Inr (s', p)"
  then show ?thesis
  proof (rule advance_in_Inr)
    fix saved
    assume "copy_page env ids s tenant publisher request saved = Inr (s', p)"
    then show ?thesis using assms(2) by (rule copy_page_journal)
  qed (use assms(2) in simp)
qed (use assms(2) in simp)

subsection \<open>Listing and removing variants\<close>

lemma listed_journal:
  assumes "stock_ok s" and "journal_ok s" and "vr_id v \<notin> vr_id ` set (inv_variants s)"
    and t: "ensure_default_location env (s\<lparr>inv_products := ps, inv_variants := inv_variants s @ [v]\<rparr>) tenant = Inr (t, w)"
    and "create_initial_records env t w actor (vr_id v) sku quantity = Inr s'"
  shows "journal_ok s'"
proof (rule create_initial_journal [OF assms(5)])
  note frame = ensure_default_location_stock [OF t]
  show "stock_ok t" using stock_ok_listed [OF assms(1,3), of ps] stock_ok_cong [OF frame(2-5)] by simp
  have "inv_outbox t = inv_outbox s" using ensure_default_location_frame [OF t] by (elim disjE exE) simp_all
  then show "journal_ok t" by (intro journal_ok_change [OF assms(2)]) (use frame in auto)
qed

text \<open>What a deletion prepares is every live record of the items it removes.\<close>

definition prepared_for :: "inv_store \<Rightarrow> uuid \<Rightarrow> uuid \<times> uuid \<Rightarrow> source_record option \<Rightarrow> bool" where
  "prepared_for s tenant = (\<lambda>(item, variant) found.
     (\<forall>r. found = Some r \<longrightarrow> r \<in> set (src_records s) \<and> sr_inventory_item_id r = item \<and> sr_variant_id r = variant)
     \<and> (\<forall>r \<in> set (src_records s). \<not> sr_deleted r \<and> sr_tenant_id r = tenant \<and> sr_variant_id r = variant \<longrightarrow> found = Some r))"

lemma prepared_forD:
  "prepared_for s tenant (item, variant) found \<Longrightarrow> r \<in> set (src_records s) \<Longrightarrow> \<not> sr_deleted r \<Longrightarrow> sr_tenant_id r = tenant
   \<Longrightarrow> sr_variant_id r = variant \<Longrightarrow> found = Some r"
  unfolding prepared_for_def prod.case by blast

lemma prepare_deletion_Inr:
  assumes run: "prepare_deletion env s tenant variant item = Inr found" and urs: "unique_rows source_record_clash (src_records s)"
  shows "prepared_for s tenant (item, variant) found"
proof -
  obtain tracked where tracked: "tracking_baseline env s tenant = Inr tracked" using run by (auto simp: prepare_deletion_def)
  show ?thesis
  proof (cases tracked)
    case None
    then have "found = None" using run tracked by (simp add: prepare_deletion_def)
    moreover have "\<forall>r \<in> set (src_records s). sr_tenant_id r \<noteq> tenant" using untracked_records tracked None by blast
    ultimately show ?thesis by (simp add: prepared_for_def)
  next
    case (Some baseline)
    then obtain saved where saved: "live_record s tenant baseline variant = Inr saved" "found = Some saved"
      "sr_inventory_item_id saved = item"
      using run tracked by (auto simp: prepare_deletion_def)
    note facts = live_record_Inr [OF saved(1)]
    have only: "r = saved" if "r \<in> set (src_records s)" "sr_tenant_id r = tenant" "sr_variant_id r = variant" for r
      using source_record_table.unique_eq [OF urs that(1) facts(1)] that(2,3) facts(2,3) by (simp add: source_record_clash_def)
    show ?thesis unfolding prepared_for_def using only saved(2,3) facts by blast
  qed
qed

lemma prepare_each_Inr:
  assumes "prepare_each env s tenant items = Inr prepared" and "unique_rows source_record_clash (src_records s)"
  shows "list_all2 (prepared_for s tenant) items prepared"
  using assms(1)
proof (induction items arbitrary: prepared)
  case (Cons x items)
  obtain item variant where x: "x = (item, variant)" by force
  obtain found rest where "prepare_deletion env s tenant variant item = Inr found"
    "prepare_each env s tenant items = Inr rest" "prepared = found # rest" using Cons.prems by (auto simp: x)
  with Cons.IH [of rest] prepare_deletion_Inr [OF _ assms(2)] show ?case by (simp add: x)
qed simp

lemma prepared_rows:
  assumes "list_all2 (prepared_for s tenant) items prepared" and "distinct (map fst items)"
  shows "distinct (filter (\<lambda>x. x \<noteq> None) prepared)"
    and "Some r \<in> set prepared \<Longrightarrow> r \<in> set (src_records s) \<and> sr_inventory_item_id r \<in> fst ` set items"
proof -
  have "distinct (filter (\<lambda>x. x \<noteq> None) prepared)
    \<and> (\<forall>r. Some r \<in> set prepared \<longrightarrow> r \<in> set (src_records s) \<and> sr_inventory_item_id r \<in> fst ` set items)"
    using assms
  proof (induction rule: list_all2_induct)
    case (Cons x items found prepared)
    obtain item variant where x: "x = (item, variant)" by force
    have found: "r \<in> set (src_records s) \<and> sr_inventory_item_id r = item" if "found = Some r" for r
      using Cons.hyps(1) that by (simp add: x prepared_for_def)
    have "found \<notin> set (filter (\<lambda>x. x \<noteq> None) prepared)"
    proof (cases found)
      case (Some r)
      then show ?thesis using found [OF Some] Cons by (auto simp: x)
    qed simp
    with found Cons show ?case by (auto simp: x)
  qed simp
  then show "distinct (filter (\<lambda>x. x \<noteq> None) prepared)"
    "Some r \<in> set prepared \<Longrightarrow> r \<in> set (src_records s) \<and> sr_inventory_item_id r \<in> fst ` set items" by blast+
qed

lemma prepared_found:
  assumes "list_all2 (prepared_for s tenant) items prepared" and "(item, variant) \<in> set items"
    and "r \<in> set (src_records s)" "\<not> sr_deleted r" "sr_tenant_id r = tenant" "sr_variant_id r = variant"
  shows "Some r \<in> set prepared"
  using assms(1,2)
proof (induction rule: list_all2_induct)
  case (Cons x items found prepared)
  show ?case
  proof (cases "x = (item, variant)")
    case True
    then have "found = Some r" using prepared_forD [OF _ assms(3-6)] Cons.hyps(1) by simp
    then show ?thesis by simp
  next
    case False
    then show ?thesis using Cons.IH Cons.prems by simp
  qed
qed simp

text \<open>Recording the deletions leaves a tombstone of each prepared record and nothing else changes.\<close>

lemma record_each_journal:
  "record_each env ids s prepared actor = Inr s' \<Longrightarrow> journal_but {} B s \<Longrightarrow> distinct (filter (\<lambda>x. x \<noteq> None) prepared)
   \<Longrightarrow> \<forall>r. Some r \<in> set prepared \<longrightarrow> r \<in> set (src_records s)
   \<Longrightarrow> journal_but {} B s' \<and> (\<forall>r \<in> set (src_records s'). \<not> sr_deleted r \<longrightarrow> r \<in> set (src_records s) \<and> Some r \<notin> set prepared)"
proof (induction prepared arbitrary: ids s)
  case (Cons found prepared)
  obtain t where t: "record_deleted (env\<lparr>src_change_id := ids 0\<rparr>) s found (Some actor) = Inr t"
    "record_each env (\<lambda>n. ids (Suc n)) t prepared actor = Inr s'" using Cons.prems(1) by auto
  show ?case
  proof (cases found)
    case None
    with t(1) have "t = s" by (simp add: record_deleted_def)
    then show ?thesis using Cons.IH [OF t(2)] Cons.prems(2-4) None by auto
  next
    case (Some saved)
    let ?env = "env\<lparr>src_change_id := ids 0\<rparr>" and ?key = "\<lambda>r. (sr_tenant_id r, sr_variant_id r)"
    have run: "update_record ?env s saved 0 0 0 True (Some actor) = Inr t"
      using t(1) by (auto simp: Some record_deleted_def)
    have saved: "saved \<in> set (src_records s)" using Cons.prems(4) Some by simp
    have urs: "unique_rows source_record_clash (src_records s)" using Cons.prems(2) by (simp add: journal_but_def)
    have key: "r = saved" if "r \<in> set (src_records s)" "?key r = ?key saved" for r
      using source_record_table.unique_eq [OF urs that(1) saved] that(2) by (simp add: source_record_clash_def)
    obtain rs where rs: "src_records t = rs" "rs = map (\<lambda>r. if ?key r = ?key saved
        then set_record ?env (sr_source_version saved + 1, 0, 0, 0, True) r else r) (src_records s)"
      by (rule update_record_Inr [OF run urs saved]) simp
    have live: "r \<in> set (src_records s) \<and> r \<noteq> saved" if "r \<in> set (src_records t)" "\<not> sr_deleted r" for r
      using that unfolding rs by (auto simp: set_record_def split: if_splits dest: arg_cong [of _ _ sr_deleted])
    have kept: "r \<in> set (src_records t)" if "r \<in> set (src_records s)" "r \<noteq> saved" for r
    proof -
      have "?key r \<noteq> ?key saved" using key [OF that(1)] that(2) by blast
      then show ?thesis unfolding rs using that(1) by (force simp: image_iff)
    qed
    have "journal_but {} B t" by (rule update_record_journal [OF run Cons.prems(2) saved]) simp_all
    moreover have "r \<in> set (src_records t)" if "Some r \<in> set prepared" for r
      using kept Cons.prems(3,4) that Some by auto
    ultimately have "journal_but {} B s' \<and> (\<forall>r \<in> set (src_records s'). \<not> sr_deleted r \<longrightarrow> r \<in> set (src_records t) \<and> Some r \<notin> set prepared)"
      using Cons.IH [OF t(2)] Cons.prems(3) Some by simp
    then show ?thesis using live Some by auto
  qed
qed simp

lemma removable_facts:
  assumes "removable s tenant variants items"
  shows "i \<in> set (inv_items s) \<Longrightarrow> ii_id i \<in> fst ` set items \<longleftrightarrow> ii_variant_id i \<in> set variants"
    and "v \<in> set variants \<Longrightarrow> \<exists>w \<in> set (inv_variants s). vr_id w = v \<and> vr_tenant_id w = tenant"
    and "v \<in> set variants \<Longrightarrow> \<exists>item. (item, v) \<in> set items"
proof -
  have "map snd items = variants" using assms by (simp add: removable_def)
  then have "set variants = snd ` set items" by (metis list.set_map)
  then show "v \<in> set variants \<Longrightarrow> \<exists>item. (item, v) \<in> set items" by force
qed (use assms in \<open>simp_all add: removable_def\<close>)

lemma removed_journal:
  assumes "journal_ok s" and "removable s tenant variants items"
  shows "journal_but {} (fst ` set items) (removed_stock (fst ` set items) s)" (is "journal_but {} ?ids ?t")
proof -
  have "record_bound ?t r \<and> counters_match ?t r"
    if r: "r \<in> set (src_records s)" "\<not> sr_deleted r" "sr_inventory_item_id r \<notin> ?ids" for r
  proof -
    have "item_levels ?t (sr_inventory_item_id r) = item_levels s (sr_inventory_item_id r)"
      unfolding item_levels_def removed_stock_def using r(3) by (simp add: filter_filter) (metis (mono_tags, lifting))
    then have "counters_match ?t r = counters_match s r" by (simp add: counters_match_def item_sum_def)
    moreover have "record_bound ?t r"
    proof -
      obtain v i where "v \<in> set (inv_variants s)" "vr_id v = sr_variant_id r" "vr_tenant_id v = sr_tenant_id r"
        "i \<in> set (inv_items s)" "ii_id i = sr_inventory_item_id r" "ii_variant_id i = sr_variant_id r"
        using journal_live [OF assms(1) r(1,2)] by (auto simp: record_bound_def)
      then show ?thesis unfolding record_bound_def using r(3)
        by (intro conjI bexI [of _ v] bexI [of _ i]) (simp_all add: removed_stock_def)
    qed
    ultimately show ?thesis using journal_live [OF assms(1) r(1,2)] by simp
  qed
  then show ?thesis
    using assms(1) by (auto simp: journal_but_def record_numbered_def changes_of_def change_published_def removed_stock_def)
qed

lemma delete_records_journal:
  assumes run: "delete_records env ids seen s tenant actor variants = Inr s'" and ok: "stock_ok s" and "journal_ok s"
  shows "journal_ok (without_variants variants s')"
proof (rule delete_records_Inr [OF run ok])
  assume "variants = []" "s' = s"
  then show ?thesis using assms(3) by (simp add: without_variants_def)
next
  fix items :: "(uuid \<times> uuid) list" and prepared
  let ?ids = "fst ` set items"
  assume rem: "removable s tenant (sort variants) items" and prep: "prepare_each env s tenant items = Inr prepared"
    and rec: "record_each env ids (removed_stock ?ids s) prepared actor = Inr s'"
  have urs: "unique_rows source_record_clash (src_records s)" using assms(3) by (simp add: journal_but_def)
  note prepared = prepare_each_Inr [OF prep urs]
  have "distinct (map fst items)" using rem by (simp add: removable_def)
  note rows = prepared_rows [OF prepared this]
  have after: "journal_but {} ?ids s' \<and> (\<forall>r \<in> set (src_records s'). \<not> sr_deleted r \<longrightarrow> r \<in> set (src_records s) \<and> Some r \<notin> set prepared)"
    using record_each_journal [OF rec removed_journal [OF assms(3) rem] rows(1)] rows(2) by (simp add: removed_stock_def)
  have tables: "inv_variants s' = inv_variants s" "inv_items s' = filter (\<lambda>i. ii_id i \<notin> ?ids) (inv_items s)"
    using record_each_stock [OF rec] by (simp_all add: same_stock_def removed_stock_def)
  have gone: "sr_inventory_item_id r \<notin> ?ids" if r: "r \<in> set (src_records s')" "\<not> sr_deleted r" for r
  proof
    assume item: "sr_inventory_item_id r \<in> ?ids"
    have old: "r \<in> set (src_records s)" "Some r \<notin> set prepared" using after r by blast+
    obtain x i where b: "x \<in> set (inv_variants s)" "vr_id x = sr_variant_id r" "vr_tenant_id x = sr_tenant_id r"
      "i \<in> set (inv_items s)" "ii_id i = sr_inventory_item_id r" "ii_variant_id i = sr_variant_id r"
      using journal_live [OF assms(3) old(1) r(2)] by (auto simp: record_bound_def)
    have v: "sr_variant_id r \<in> set (sort variants)" using removable_facts(1) [OF rem b(4)] b(5,6) item by simp
    obtain w where w: "w \<in> set (inv_variants s)" "vr_id w = sr_variant_id r" "vr_tenant_id w = tenant"
      using removable_facts(2) [OF rem v] by blast
    then have "w = x" using b(1,2) ok by (auto simp: stock_ok_def distinct_map inj_on_def)
    then have "sr_tenant_id r = tenant" using w(3) b(3) by simp
    moreover obtain item where "(item, sr_variant_id r) \<in> set items" using removable_facts(3) [OF rem v] by blast
    ultimately show False using prepared_found [OF prepared _ old(1) r(2)] old(2) by blast
  qed
  have "record_bound (without_variants variants s') r" if "r \<in> set (src_records s')" "\<not> sr_deleted r" for r
  proof -
    have "record_bound s' r" using after that gone by (simp add: journal_but_def)
    then obtain v i where b: "v \<in> set (inv_variants s)" "vr_id v = sr_variant_id r" "vr_tenant_id v = sr_tenant_id r"
      "i \<in> set (inv_items s')" "ii_id i = sr_inventory_item_id r" "ii_variant_id i = sr_variant_id r"
      by (auto simp: record_bound_def tables)
    then have "sr_variant_id r \<notin> set variants" using removable_facts(1) [OF rem, of i] tables(2) by simp
    with b show ?thesis by (auto simp: record_bound_def without_variants_def tables(1))
  qed
  moreover have "counters_match (without_variants variants s') r = counters_match s' r" for r
    by (simp add: counters_match_def item_sum_def item_levels_def)
  ultimately show ?thesis
    using after gone by (simp add: journal_but_def record_numbered_def changes_of_def change_published_def)
qed

subsection \<open>Interleavings\<close>

lemmas command_journal = create_initial_journal update_initial_journal set_quantity_journal adjust_quantity_journal
  reserve_journal release_journal listed_journal delete_records_journal

lemma stock_step_journal: "stock_step s s' \<Longrightarrow> stock_ok s \<Longrightarrow> journal_ok s \<Longrightarrow> journal_ok s'"
  by (erule stock_stepE)
    (blast intro: command_journal start_baseline_journal advance_baseline_journal)+

lemma no_stock_journal: "no_stock s \<Longrightarrow> journal_ok s"
  by (simp add: no_stock_def journal_but_def unique_rows_def)

interpretation journal_states: transition_invariant no_stock stock_step "\<lambda>_. True" "\<lambda>_ s. stock_ok s \<and> journal_ok s"
  by unfold_locales (auto intro: no_stock_ok no_stock_journal stock_step_ok stock_step_journal)

lemma reachable_journal: "reachable no_stock stock_step n s \<Longrightarrow> stock_ok s \<and> journal_ok s"
  using journal_states.reachable_inv by blast

text \<open>
  C5: the source journal refines the stock. In every interleaving of quantity writes, reservations,
  releases, listings, deletions and baseline pages, whatever other tenants and callers do, each live record
  holds the exact sums of the counters over all levels of its item, the changes of a variant are numbered
  from one up to the version of its record without a gap in the order they were appended, and each change
  of a kind other than baseline went to the outbox under its own identity with its version (the rows a
  baseline page records are not published one by one).
\<close>

theorem journal_mirrors_stock:
  assumes "reachable no_stock stock_step n s"
  shows "(\<forall>r \<in> set (src_records s). \<not> sr_deleted r \<longrightarrow>
        (let levels = filter (\<lambda>l. il_inventory_item_id l = sr_inventory_item_id r) (inv_levels s) in
         sr_stocked r = sum_list (map il_stocked_quantity levels) \<and> sr_reserved r = sum_list (map il_reserved_quantity levels)
         \<and> sr_incoming r = sum_list (map il_incoming_quantity levels)))
    \<and> (\<forall>r \<in> set (src_records s). map sch_source_version (filter (\<lambda>c. sch_tenant_id c = sr_tenant_id r
          \<and> sch_variant_id c = sr_variant_id r) (src_changes s)) = [1..sr_source_version r])
    \<and> (\<forall>c \<in> set (src_changes s). sch_kind c \<noteq> ''baseline'' \<longrightarrow> (\<exists>f \<in> set (inv_outbox s).
          of_envelope_id f = Some (sch_change_id c) \<and> of_tenant_id f = sch_tenant_id c
          \<and> of_fact f = SourceChanged (sch_baseline_id c) (sch_variant_id c) (nat (sch_source_version c))))"
proof -
  have "journal_ok s" using reachable_journal [OF assms] by simp
  then show ?thesis
    by (simp add: journal_but_def record_numbered_def counters_match_def item_sum_def item_levels_def changes_of_def
        change_published_def Let_def)
qed

end
