(* ===== verification/Inventory_History.thy ===== *)
theory Inventory_History
  imports Inventory_Journal Inventory_Reader
begin

text \<open>
  The baseline of a tenant is complete: while it is built, every variant up to its cursor has a record,
  and once it is active every variant the catalogue lists has one.
\<close>

subsection \<open>The invariant\<close>

abbreviation record_key :: "source_record \<Rightarrow> uuid \<times> uuid" where
  "record_key r \<equiv> (sr_tenant_id r, sr_variant_id r)"

definition live_keys :: "inv_store \<Rightarrow> (uuid \<times> uuid) set" where
  "live_keys s = record_key ` {r \<in> set (src_records s). \<not> sr_deleted r}"

lemma live_keysI: "r \<in> set (src_records s) \<Longrightarrow> \<not> sr_deleted r \<Longrightarrow> record_key r = k \<Longrightarrow> k \<in> live_keys s"
  by (auto simp: live_keys_def)

definition baseline_covers :: "source_baseline \<Rightarrow> variant_row \<Rightarrow> bool" where
  "baseline_covers b v \<longleftrightarrow> vr_tenant_id v = bl_tenant_id b
     \<and> (bl_active b \<or> (\<exists>a. bl_last_variant_id b = Some a \<and> vr_id v \<le> a))"

definition declared :: "inv_store \<Rightarrow> uuid \<Rightarrow> uuid \<Rightarrow> bool" where
  "declared s tenant baseline \<longleftrightarrow> (\<exists>b \<in> set (src_baselines s). bl_tenant_id b = tenant \<and> bl_baseline_id b = baseline)"

lemma declared_keys: "declared s tenant i \<longleftrightarrow> (tenant, i) \<in> (\<lambda>b. (bl_tenant_id b, bl_baseline_id b)) ` set (src_baselines s)"
  by (force simp: declared_def)

lemma declared_cong:
  "(\<lambda>b. (bl_tenant_id b, bl_baseline_id b)) ` set (src_baselines t) = (\<lambda>b. (bl_tenant_id b, bl_baseline_id b)) ` set (src_baselines s)
   \<Longrightarrow> declared t = declared s"
  by (intro ext) (simp add: declared_keys)

definition history_ok :: "inv_store \<Rightarrow> bool" where
  "history_ok s \<longleftrightarrow> unique_rows source_baseline_clash (src_baselines s)
     \<and> (\<forall>r \<in> set (src_records s). declared s (sr_tenant_id r) (sr_baseline_id r))
     \<and> (\<forall>b \<in> set (src_baselines s). \<forall>v \<in> set (inv_variants s). baseline_covers b v \<longrightarrow> (bl_tenant_id b, vr_id v) \<in> live_keys s)
     \<and> (\<forall>b \<in> set (src_baselines s). bl_active b \<longrightarrow> (\<exists>f \<in> set (inv_outbox s). of_envelope_id f = Some (bl_baseline_id b)
          \<and> of_tenant_id f = bl_tenant_id b \<and> of_fact f = SourceActivated (bl_baseline_id b)))"

subsection \<open>Commands that only add to the journal\<close>

definition grows :: "inv_store \<Rightarrow> inv_store \<Rightarrow> bool" where
  "grows s t \<longleftrightarrow> src_baselines t = src_baselines s \<and> src_pages t = src_pages s \<and> inv_variants t = inv_variants s
     \<and> set (inv_outbox s) \<subseteq> set (inv_outbox t) \<and> live_keys s \<subseteq> live_keys t
     \<and> (\<forall>r \<in> set (src_records t). (\<exists>q \<in> set (src_records s). sr_tenant_id q = sr_tenant_id r \<and> sr_baseline_id q = sr_baseline_id r)
          \<or> declared s (sr_tenant_id r) (sr_baseline_id r))"

lemma grows_refl [simp]: "grows s s"
  by (auto simp: grows_def)

lemma grows_trans: "grows s t \<Longrightarrow> grows t u \<Longrightarrow> grows s u"
  unfolding grows_def declared_def by (auto; metis)

lemma grows_cong:
  assumes "src_records t = src_records s" "src_baselines t = src_baselines s" "src_pages t = src_pages s"
    "inv_variants t = inv_variants s" "set (inv_outbox s) \<subseteq> set (inv_outbox t)"
  shows "grows s t"
  using assms by (auto simp: grows_def live_keys_def)

lemma history_ok_step:
  assumes "history_ok s" and same: "src_baselines t = src_baselines s" and "set (inv_outbox s) \<subseteq> set (inv_outbox t)"
    and recs: "\<forall>r \<in> set (src_records t). (\<exists>q \<in> set (src_records s). sr_tenant_id q = sr_tenant_id r \<and> sr_baseline_id q = sr_baseline_id r)
        \<or> declared s (sr_tenant_id r) (sr_baseline_id r)"
    and "\<And>b v. b \<in> set (src_baselines s) \<Longrightarrow> v \<in> set (inv_variants t) \<Longrightarrow> baseline_covers b v \<Longrightarrow> (bl_tenant_id b, vr_id v) \<in> live_keys t"
  shows "history_ok t"
proof -
  have decl: "declared t = declared s" by (rule declared_cong) (simp add: same)
  have "declared s (sr_tenant_id r) (sr_baseline_id r)" if "r \<in> set (src_records t)" for r
    using assms(1) recs that unfolding history_ok_def by metis
  then show ?thesis using assms(1,3,5) unfolding history_ok_def decl same by blast
qed

lemma history_ok_grows:
  assumes "history_ok s" and "grows s t"
  shows "history_ok t"
proof (rule history_ok_step [OF assms(1)])
  fix b v assume "b \<in> set (src_baselines s)" "v \<in> set (inv_variants t)" "baseline_covers b v"
  then have "(bl_tenant_id b, vr_id v) \<in> live_keys s" using assms unfolding grows_def history_ok_def by simp
  then show "(bl_tenant_id b, vr_id v) \<in> live_keys t" using assms(2) unfolding grows_def by blast
qed (use assms(2) in \<open>simp_all add: grows_def\<close>)

lemma publish_once_grows: "publish_once s e t a p = Inr s' \<Longrightarrow> grows s s'"
  by (rule grows_cong) (auto simp: publish_once_def Let_def split: option.splits if_splits)

lemma publish_source_grows: "publish_source s t a e p = Inr s' \<Longrightarrow> grows s s'"
  by (auto simp: publish_source_def intro: publish_once_grows)

lemma publish_changed_grows: "publish_changed s t a b v n c = Inr s' \<Longrightarrow> grows s s'"
  by (auto simp: publish_changed_def intro: publish_source_grows)

lemma publish_root_grows: "publish_root s t a f = Inr s' \<Longrightarrow> grows s s'"
  by (rule grows_cong) (auto simp: publish_root_def)

lemma append_change_grows: "append_change env s t b v n i k = Inr s' \<Longrightarrow> grows s s'"
  by (rule grows_cong) (auto simp: append_change_def)

lemma update_record_grows:
  assumes "update_record env s saved st re inc False actor = Inr s'"
  shows "grows s s'"
proof -
  let ?P = "updates_record saved" and ?f = "set_record env (sr_source_version saved + 1, st, re, inc, False)"
  obtain rs t where run: "update_one ?P ?f (src_records s) = Some rs"
    "append_change env (s\<lparr>src_records := rs\<rparr>) (sr_tenant_id saved) (sr_baseline_id saved) (sr_variant_id saved)
        (sr_source_version saved + 1) (src_change_id env) ''changed'' = Inr t"
    "publish_changed t (sr_tenant_id saved) actor (sr_baseline_id saved) (sr_variant_id saved)
        (sr_source_version saved + 1) (src_change_id env) = Inr s'"
    using assms by (auto simp: update_record_def next_version_def Let_def)
  have rs: "rs = map (\<lambda>r. if ?P r then ?f r else r) (src_records s)"
    using run(1) by (auto simp: update_one_def split: if_splits)
  have "record_key r \<in> live_keys (s\<lparr>src_records := rs\<rparr>)" if "r \<in> set (src_records s)" "\<not> sr_deleted r" for r
    by (rule live_keysI [of "if ?P r then ?f r else r"]) (use that in \<open>auto simp: rs set_record_def\<close>)
  then have "live_keys s \<subseteq> live_keys (s\<lparr>src_records := rs\<rparr>)" by (auto simp: live_keys_def)
  moreover have "\<exists>q \<in> set (src_records s). sr_tenant_id q = sr_tenant_id r \<and> sr_baseline_id q = sr_baseline_id r"
    if "r \<in> set rs" for r
    using that by (auto simp: rs set_record_def)
  ultimately have "grows s (s\<lparr>src_records := rs\<rparr>)" by (simp add: grows_def)
  then show ?thesis
    using append_change_grows [OF run(2)] publish_changed_grows [OF run(3)] by (blast intro: grows_trans)
qed

lemma tracked_declared:
  "tracking_baseline env s tenant = Inr (Some baseline) \<Longrightarrow> declared s tenant baseline"
  by (auto simp: tracking_baseline_def saved_baseline_def declared_def find_Some_iff baseline_shape_ok_def
      split: option.splits if_splits)

lemma insert_record_rows:
  assumes "insert_record env s tenant baseline snap kind = Inr s'"
  shows "\<exists>r0 cs. s' = s\<lparr>src_records := src_records s @ [r0], src_changes := cs\<rparr>
    \<and> record_key r0 = (tenant, ss_variant_id snap) \<and> sr_baseline_id r0 = baseline \<and> \<not> sr_deleted r0"
proof -
  define r0 where "r0 = \<lparr>sr_tenant_id = tenant, sr_variant_id = ss_variant_id snap, sr_baseline_id = baseline,
      sr_inventory_item_id = ss_item_id snap, sr_product_id = ss_product_id snap, sr_source_version = 1,
      sr_deleted = False, sr_stocked = ss_stocked snap, sr_reserved = ss_reserved snap,
      sr_incoming = ss_incoming snap, sr_binding_digest = ss_binding_digest snap,
      sr_last_change_id = src_change_id env, sr_updated_at = inv_now env\<rparr>"
  have "\<exists>cs. s' = s\<lparr>src_records := src_records s @ [r0], src_changes := cs\<rparr>"
    using assms by (auto simp: insert_record_def append_change_def source_record_table.insert_unique_Some r0_def)
  then show ?thesis by (intro exI [of _ r0]) (auto simp: r0_def)
qed

lemma insert_record_live:
  assumes "insert_record env s tenant baseline snap kind = Inr s'"
  shows "live_keys s' = insert (tenant, ss_variant_id snap) (live_keys s)"
    and "\<forall>r \<in> set (src_records s'). r \<in> set (src_records s) \<or> sr_tenant_id r = tenant \<and> sr_baseline_id r = baseline"
proof -
  obtain r0 cs where r0: "s' = s\<lparr>src_records := src_records s @ [r0], src_changes := cs\<rparr>"
    "record_key r0 = (tenant, ss_variant_id snap)" "sr_baseline_id r0 = baseline" "\<not> sr_deleted r0"
    using insert_record_rows [OF assms] by blast
  have "{r \<in> set (src_records s'). \<not> sr_deleted r} = insert r0 {r \<in> set (src_records s). \<not> sr_deleted r}"
    using r0(1,4) by auto
  then show "live_keys s' = insert (tenant, ss_variant_id snap) (live_keys s)" by (simp add: live_keys_def r0(2))
  show "\<forall>r \<in> set (src_records s'). r \<in> set (src_records s) \<or> sr_tenant_id r = tenant \<and> sr_baseline_id r = baseline"
    using r0 by auto
qed

lemma insert_record_grows:
  assumes "insert_record env s tenant baseline snap kind = Inr s'" and "declared s tenant baseline"
  shows "grows s s'"
  using insert_record_live [OF assms(1)] insert_record_Inr [OF assms(1)] assms(2) by (auto simp: grows_def)

lemma record_created_grows:
  assumes "record_created env s tenant variant actor = Inr s'"
  shows "grows s s'"
proof -
  obtain tracked where tracked: "tracking_baseline env s tenant = Inr tracked" using assms by (auto simp: record_created_def)
  show ?thesis
  proof (cases tracked)
    case None
    with assms tracked show ?thesis by (simp add: record_created_def)
  next
    case (Some baseline)
    then obtain snap t where "insert_record env s tenant baseline snap ''created'' = Inr t"
      "publish_changed t tenant actor baseline variant 1 (src_change_id env) = Inr s'"
      using assms tracked by (auto simp: record_created_def)
    then show ?thesis
      using tracked tracked_declared Some by (blast intro: grows_trans insert_record_grows publish_changed_grows)
  qed
qed

lemma record_changed_grows: "record_changed env s tenant variant actor = Inr s' \<Longrightarrow> grows s s'"
  by (auto simp: record_changed_def split: option.splits intro: update_record_grows)

lemma apply_plan_grows:
  assumes "apply_plan env s p threshold = Inr (s', w)"
  shows "grows s s'"
proof (cases "qp_target p")
  case None
  with assms show ?thesis by (simp add: apply_plan_def)
next
  case (Some target)
  obtain l st where target: "target = (l, st)" by force
  obtain t u v where "write_stocked env s l st = Inr t"
    "record_changed env t (qp_tenant_id p) (qp_variant_id p) (Some (qp_actor_id p)) = Inr u"
    "grows u v" "grows v s'"
    using assms by (auto simp: apply_plan_def Some target Let_def split: option.splits dest!: publish_root_grows)
  moreover from this(1) have "grows s t" by (intro grows_cong) (auto simp: write_stocked_def)
  ultimately show ?thesis by (blast intro: grows_trans record_changed_grows)
qed

lemma write_quantity_grows: "write_quantity env seen s tenant actor variant change threshold = Inr (s', w) \<Longrightarrow> grows s s'"
  by (auto simp: write_quantity_def dest: apply_plan_grows)

lemma publish_event_grows: "publish_event env s p = Inr s' \<Longrightarrow> grows s s'"
  by (auto simp: publish_event_def intro: grows_trans record_changed_grows publish_root_grows)

lemma ensure_default_location_grows:
  assumes "ensure_default_location env s tenant = Inr (t, w)"
  shows "grows s t"
  using ensure_default_location_stock [OF assms] ensure_default_location_frame [OF assms]
  by (intro grows_cong) (elim disjE exE; simp)+

lemma ensure_inventory_state_grows:
  assumes "ensure_inventory_state env s tenant v = Inr (t, i, w, l)"
  shows "grows s t"
proof -
  obtain s1 s2 w' where run: "ensure_inventory_item env s v = Inr (s1, i)"
    "ensure_default_location env s1 tenant = Inr (s2, w')" "ensure_inventory_level env s2 i w 0 = Inr (t, l)"
    using assms by (auto simp: ensure_inventory_state_def find_Some_iff)
  have "grows s s1" using run(1) by (intro grows_cong) (auto simp: ensure_inventory_item_def split: option.splits)
  moreover have "grows s2 t" using run(3) by (intro grows_cong) (auto simp: ensure_inventory_level_def Let_def split: option.splits)
  ultimately show ?thesis using ensure_default_location_grows [OF run(2)] by (blast intro: grows_trans)
qed

lemma reserve_grows:
  assumes "reserve env s ctx variant quantity = (s', res)" and "stock_ok s"
  shows "grows s s'"
  using reserve_outcome [OF assms(1)]
proof (elim disjE exE conjE)
  fix tenant v r
  assume v: "find_variant s tenant variant = Some v" and run: "reserve_in_transaction env s ctx tenant v quantity = Inr (s', r)"
  obtain t i w l where o: "ensure_inventory_state env s tenant v = Inr (t, i, w, l)"
    "\<exists>event. prepare_event env t ctx v = Inr event \<and> publish_event env (new_claim env i w (vr_id v) quantity t l) event = Inr s'"
    by (rule reserve_in_transaction_outcome [OF run assms(2) v])
  have "grows t (new_claim env i w (vr_id v) quantity t l)" by (rule grows_cong) (simp_all add: new_claim_def)
  then show ?thesis using ensure_inventory_state_grows [OF o(1)] o(2) by (blast intro: grows_trans publish_event_grows)
qed simp_all

lemma release_grows:
  assumes "release_reservation_quantity env s ctx variant quantity = (s', res)" and "stock_ok s"
  shows "grows s s'"
  using release_outcome [OF assms(1)]
proof (elim disjE exE conjE)
  fix tenant v r
  assume run: "release_in_transaction env s ctx tenant v quantity = Inr (s', r)"
  obtain i cs where o: "find_item s (vr_id v) = Some i"
    "\<exists>event. prepare_event env s ctx v = Inr event \<and> publish_event env (release_effect env (ii_id i) cs s) event = Inr s'"
    by (rule release_in_transaction_outcome [OF run assms(2)])
  have "grows s (release_effect env (ii_id i) cs s)" by (rule grows_cong) (simp_all add: release_effect_def)
  then show ?thesis using o(2) by (blast intro: grows_trans publish_event_grows)
qed simp_all

lemma create_initial_grows:
  assumes "create_initial_records env s w actor variant sku quantity = Inr s'"
  shows "grows s s'"
proof -
  obtain items levels where "record_created env (s\<lparr>inv_items := items, inv_levels := levels\<rparr>) (sl_tenant_id w) variant (Some actor) = Inr s'"
    using assms by (auto simp: create_initial_records_def Let_def)
  moreover have "grows s (s\<lparr>inv_items := items, inv_levels := levels\<rparr>)" by (rule grows_cong) simp_all
  ultimately show ?thesis by (blast intro: grows_trans record_created_grows)
qed

lemma quantity_grows:
  "update_initial_quantity env seen s tenant actor variant quantity = Inr s' \<Longrightarrow> grows s s'"
  "execute_quantity_write env seen s tenant actor variant change threshold = (s', w) \<Longrightarrow> grows s s'"
  "set_variant_quantity env seen s tenant actor variant quantity = (s', res) \<Longrightarrow> grows s s'"
  "adjust_variant_quantity env seen s tenant actor variant quantity = (s', res) \<Longrightarrow> grows s s'"
  by (auto simp: update_initial_quantity_def execute_quantity_write_def set_variant_quantity_def adjust_variant_quantity_def
      split: sum.splits prod.splits dest: write_quantity_grows)

lemmas command_grows = create_initial_grows quantity_grows reserve_grows release_grows

subsection \<open>Building a baseline\<close>

lemma saved_baseline_Some:
  assumes "saved_baseline s tenant = Inr (Some b)"
  shows "b \<in> set (src_baselines s) \<and> bl_tenant_id b = tenant"
  using assms by (auto simp: saved_baseline_def find_Some_iff split: option.splits)

lemma start_in_history:
  assumes "start_in env s tenant actor i = Inr (s', p)" and "history_ok s"
  shows "history_ok s'"
proof -
  obtain bs where bs: "s' = s\<lparr>src_baselines := bs\<rparr>" "bs = src_baselines s \<or>
      insert_unique source_baseline_clash (new_baseline tenant actor i) (src_baselines s) = Some bs"
    using start_in_Inr [OF assms(1)] by blast
  from bs(2) show ?thesis
  proof
    assume "insert_unique source_baseline_clash (new_baseline tenant actor i) (src_baselines s) = Some bs"
    then have new: "bs = src_baselines s @ [new_baseline tenant actor i]" "unique_rows source_baseline_clash bs"
      using assms(2) by (auto simp: source_baseline_table.insert_unique_Some history_ok_def
          intro: source_baseline_table.unique_insert)
    show ?thesis
      using assms(2) new(2) unfolding history_ok_def bs(1) declared_def live_keys_def baseline_covers_def
      by (auto simp: new(1) new_baseline_def)
  qed (use assms(2) bs(1) in simp)
qed

lemma sorted_take_last:
  assumes "sorted xs" and "x \<in> set xs" and "take n xs \<noteq> []" and "x \<le> last (take n xs)"
  shows "x \<in> set (take n xs)"
proof (rule ccontr)
  assume out: "x \<notin> set (take n xs)"
  then have "x \<in> set (drop n xs)" using assms(2) by (metis append_take_drop_id set_append Un_iff)
  moreover have "sorted (take n xs @ drop n xs)" using assms(1) by simp
  ultimately have "last (take n xs) \<le> x" using assms(3) by (simp add: sorted_append del: append_take_drop_id)
  with assms(4) have "x = last (take n xs)" by simp
  with out assms(3) show False by simp
qed

lemma page_variants_cover:
  assumes "v \<in> set (inv_variants s)" and "vr_tenant_id v = tenant" and "case after of None \<Rightarrow> True | Some a \<Rightarrow> a < vr_id v"
    and "\<not> limit < length (page_variants s tenant after limit)
      \<or> take limit (page_variants s tenant after limit) \<noteq> [] \<and> vr_id v \<le> last (take limit (page_variants s tenant after limit))"
  shows "vr_id v \<in> set (take limit (page_variants s tenant after limit))"
proof -
  define all where "all = sort (map vr_id (filter (\<lambda>v. vr_tenant_id v = tenant
       \<and> (case after of None \<Rightarrow> True | Some a \<Rightarrow> a < vr_id v)) (inv_variants s)))"
  have page: "page_variants s tenant after limit = take (limit + 1) all" by (simp add: page_variants_def all_def)
  have v: "vr_id v \<in> set all" "sorted all" using assms(1-3) by (auto simp: all_def)
  have first: "take limit (take (limit + 1) all) = take limit all" by (simp add: min_def)
  from assms(4) show ?thesis
  proof
    assume "\<not> limit < length (page_variants s tenant after limit)"
    then have "length all \<le> limit" by (simp add: page)
    then show ?thesis using v(1) by (simp add: page)
  qed (use sorted_take_last [OF v(2,1)] in \<open>simp add: page first\<close>)
qed

interpretation baseline_rows: keyed_rows bl_tenant_id "\<lambda>saved. advances_baseline saved (bl_tenant_id saved) request"
  "advanced_baseline request" for request
  by unfold_locales (auto simp: advances_baseline_def advanced_baseline_def)

lemma insert_each_live:
  "insert_each env ids s tenant baseline snaps = Inr s' \<Longrightarrow>
     live_keys s' = live_keys s \<union> {tenant} \<times> ss_variant_id ` set snaps
     \<and> (\<forall>r \<in> set (src_records s'). r \<in> set (src_records s) \<or> sr_tenant_id r = tenant \<and> sr_baseline_id r = baseline)"
proof (induction snaps arbitrary: ids s)
  case (Cons snap snaps)
  then obtain t where t: "insert_record (env\<lparr>src_change_id := ids 0\<rparr>) s tenant baseline snap ''baseline'' = Inr t"
    "insert_each env (\<lambda>n. ids (Suc n)) t tenant baseline snaps = Inr s'" by auto
  from Cons.IH [OF t(2)] insert_record_live [OF t(1)] show ?case by auto
qed simp

text \<open>What a page leaves: the new records, the receipt, and the baseline at its new cursor.\<close>

lemma copy_page_effect:
  assumes run: "copy_page env ids s tenant publisher request saved = Inr (s', p)" and hist: "history_ok s"
    and saved: "saved_baseline s tenant = Inr (Some saved)" "bl_baseline_id saved = pr_baseline_id request"
  obtains found after n where "found = page_variants s tenant (pr_after_variant_id request) (pr_limit request)"
    "after = (if take (pr_limit request) found = [] then bl_last_variant_id saved else Some (last (take (pr_limit request) found)))"
    "src_pages s' = src_pages s @ [new_page tenant request after (pr_limit request < length found) n]"
    "src_baselines s' = map (\<lambda>b. if b = saved then advanced_baseline request (after, pr_limit request < length found, n) b else b)
        (src_baselines s)"
    "live_keys s' = live_keys s \<union> {tenant} \<times> set (take (pr_limit request) found)"
    "\<forall>r \<in> set (src_records s'). r \<in> set (src_records s) \<or> sr_tenant_id r = tenant \<and> sr_baseline_id r = pr_baseline_id request"
    "baseline_progress_of (advanced_baseline request (after, pr_limit request < length found, n) saved) = Inr p"
    "set (inv_outbox s) \<subseteq> set (inv_outbox s')"
    "\<not> pr_limit request < length found \<longrightarrow> (\<exists>f \<in> set (inv_outbox s'). of_envelope_id f = Some (bl_baseline_id saved)
       \<and> of_tenant_id f = tenant \<and> of_fact f = SourceActivated (bl_baseline_id saved))"
proof (rule copy_page_Inr [OF run])
  fix found snaps t n ps bs b u
  assume found: "found = page_variants s tenant (pr_after_variant_id request) (pr_limit request)"
    and snaps: "snapshot_each env s tenant 0 (take (pr_limit request) found) = Inr snaps"
    and ins: "insert_each env ids s tenant (pr_baseline_id request) snaps = Inr t"
    and ps: "insert_unique source_page_clash (new_page tenant request (if take (pr_limit request) found = [] then bl_last_variant_id saved
        else Some (last (take (pr_limit request) found))) (pr_limit request < length found) n) (src_pages t) = Some ps"
    and bs: "update_one (advances_baseline saved tenant request) (advanced_baseline request (if take (pr_limit request) found = []
        then bl_last_variant_id saved else Some (last (take (pr_limit request) found)), pr_limit request < length found, n))
        (src_baselines t) = Some bs"
    and u: "u = t\<lparr>src_pages := ps, src_baselines := bs\<rparr>" "saved_baseline u tenant = Inr (Some b)" "baseline_progress_of b = Inr p"
    and s': "if bl_active b then publish_activated u tenant publisher (bl_baseline_id b) = Inr s' else s' = u"
  define after where "after = (if take (pr_limit request) found = [] then bl_last_variant_id saved
    else Some (last (take (pr_limit request) found)))"
  let ?new = "advanced_baseline request (after, pr_limit request < length found, n)"
  note in_s = saved_baseline_Some [OF saved(1)]
  have ub: "unique_rows source_baseline_clash (src_baselines s)" using hist by (simp add: history_ok_def)
  then have keys: "distinct (map bl_tenant_id (src_baselines s))"
    by (rule unique_rows_distinct) (simp add: source_baseline_clash_def)
  have t: "src_baselines t = src_baselines s" "src_pages t = src_pages s" "inv_outbox t = inv_outbox s"
    using insert_each_Inr [OF ins] by auto
  have same: "bl_tenant_id b = tenant \<longleftrightarrow> b = saved" if "b \<in> set (src_baselines s)" for b
    using that keys in_s by (auto simp: distinct_map inj_on_def)
  have "bs = map (\<lambda>b. if bl_tenant_id b = bl_tenant_id saved then ?new b else b) (src_baselines s)"
    using baseline_rows.update_one_keyed [OF keys, of saved request "(after, pr_limit request < length found, n)" bs] bs
    by (simp add: t(1) in_s after_def)
  then have bs': "bs = map (\<lambda>b. if b = saved then ?new b else b) (src_baselines s)" using same in_s by auto
  have b: "b = ?new saved"
  proof -
    have "b \<in> set bs" "bl_tenant_id b = tenant" using saved_baseline_Some [OF u(2)] by (simp_all add: u(1))
    then show ?thesis using same by (auto simp: bs')
  qed
  have out: "set (inv_outbox u) \<subseteq> set (inv_outbox s') \<and> src_pages s' = src_pages u \<and> src_baselines s' = src_baselines u
    \<and> src_records s' = src_records u \<and> (bl_active b \<longrightarrow> (\<exists>f \<in> set (inv_outbox s'). of_envelope_id f = Some (bl_baseline_id b)
       \<and> of_tenant_id f = tenant \<and> of_fact f = SourceActivated (bl_baseline_id b)))"
  proof (cases "bl_active b")
    case True
    with s' obtain ob where "s' = u\<lparr>inv_outbox := ob\<rparr>" "set (inv_outbox u) \<subseteq> set ob"
      "\<exists>f \<in> set ob. of_envelope_id f = Some (bl_baseline_id b) \<and> of_tenant_id f = tenant \<and> of_fact f = SourceActivated (bl_baseline_id b)"
      by (auto dest!: publish_activated_outbox)
    then show ?thesis by simp
  qed (use s' in simp)
  note live = insert_each_live [OF ins] and vs = snapshot_each_ok(2) [OF snaps]
  have variants: "ss_variant_id ` set snaps = set (take (pr_limit request) found)" using vs by (metis list.set_map)
  show thesis
  proof (rule that [OF found after_def])
    show "src_pages s' = src_pages s @ [new_page tenant request after (pr_limit request < length found) n]"
      using ps out by (auto simp: u(1) t(2) after_def source_page_table.insert_unique_Some)
    show "src_baselines s' = map (\<lambda>b. if b = saved then ?new b else b) (src_baselines s)" using out by (simp add: u(1) bs')
    show "live_keys s' = live_keys s \<union> {tenant} \<times> set (take (pr_limit request) found)"
      using live variants out by (simp add: live_keys_def u(1))
    show "\<forall>r \<in> set (src_records s'). r \<in> set (src_records s) \<or> sr_tenant_id r = tenant \<and> sr_baseline_id r = pr_baseline_id request"
      using live out by (simp add: u(1))
    show "baseline_progress_of (?new saved) = Inr p" using u(3) b by simp
    show "set (inv_outbox s) \<subseteq> set (inv_outbox s')" using out by (simp add: u(1) t(3))
    show "\<not> pr_limit request < length found \<longrightarrow> (\<exists>f \<in> set (inv_outbox s'). of_envelope_id f = Some (bl_baseline_id saved)
       \<and> of_tenant_id f = tenant \<and> of_fact f = SourceActivated (bl_baseline_id saved))"
      using out by (simp add: b advanced_baseline_def)
  qed
qed

lemma advanced_baseline_simps [simp]:
  "bl_tenant_id (advanced_baseline request x b) = bl_tenant_id b" "bl_baseline_id (advanced_baseline request x b) = bl_baseline_id b"
  "bl_actor_id (advanced_baseline request x b) = bl_actor_id b"
  "bl_active (advanced_baseline request (after, further, n) b) = (\<not> further)"
  "bl_last_variant_id (advanced_baseline request (after, further, n) b) = after"
  by (auto simp: advanced_baseline_def split: prod.splits)

lemma copy_page_history:
  assumes run: "copy_page env ids s tenant publisher request saved = Inr (s', p)" and hist: "history_ok s"
    and saved: "saved_baseline s tenant = Inr (Some saved)" "bl_baseline_id saved = pr_baseline_id request"
      "bl_last_variant_id saved = pr_after_variant_id request" "\<not> bl_active saved"
  shows "history_ok s'"
proof -
  obtain found after n where e: "found = page_variants s tenant (pr_after_variant_id request) (pr_limit request)"
    "after = (if take (pr_limit request) found = [] then bl_last_variant_id saved else Some (last (take (pr_limit request) found)))"
    "src_baselines s' = map (\<lambda>b. if b = saved then advanced_baseline request (after, pr_limit request < length found, n) b else b)
        (src_baselines s)"
    "live_keys s' = live_keys s \<union> {tenant} \<times> set (take (pr_limit request) found)"
    "\<forall>r \<in> set (src_records s'). r \<in> set (src_records s) \<or> sr_tenant_id r = tenant \<and> sr_baseline_id r = pr_baseline_id request"
    "set (inv_outbox s) \<subseteq> set (inv_outbox s')"
    "\<not> pr_limit request < length found \<longrightarrow> (\<exists>f \<in> set (inv_outbox s'). of_envelope_id f = Some (bl_baseline_id saved)
       \<and> of_tenant_id f = tenant \<and> of_fact f = SourceActivated (bl_baseline_id saved))"
    by (rule copy_page_effect [OF run hist saved(1,2)])
  let ?new = "\<lambda>b. if b = saved then advanced_baseline request (after, pr_limit request < length found, n) b else b"
  have vs: "inv_variants s' = inv_variants s" by (rule copy_page_stock [OF run])
  have in_s: "saved \<in> set (src_baselines s)" "bl_tenant_id saved = tenant" using saved_baseline_Some [OF saved(1)] by simp_all
  have ub: "unique_rows source_baseline_clash (src_baselines s')"
    unfolding e(3) using hist unfolding history_ok_def
    by (elim conjE) (erule unique_rows_map, auto simp: source_baseline_clash_def split: if_splits)
  have "(\<lambda>b. (bl_tenant_id b, bl_baseline_id b)) ` set (src_baselines s') = (\<lambda>b. (bl_tenant_id b, bl_baseline_id b)) ` set (src_baselines s)"
    unfolding e(3) set_map image_image by (rule image_cong) simp_all
  then have decl: "declared s' = declared s" by (rule declared_cong)
  have here: "declared s tenant (pr_baseline_id request)"
    unfolding declared_def by (intro bexI [of _ saved]) (use in_s saved(2) in simp_all)
  have recs: "declared s (sr_tenant_id r) (sr_baseline_id r)" if "r \<in> set (src_records s')" for r
  proof (cases "r \<in> set (src_records s)")
    case True
    with hist show ?thesis by (simp add: history_ok_def)
  next
    case False
    then have "sr_tenant_id r = tenant" "sr_baseline_id r = pr_baseline_id request" using e(5) that by blast+
    with here show ?thesis by simp
  qed
  have cover: "(bl_tenant_id b, vr_id v) \<in> live_keys s'"
    if b: "b \<in> set (src_baselines s)" and v: "v \<in> set (inv_variants s)" "baseline_covers (?new b) v" for b v
  proof (cases "b = saved \<and> \<not> baseline_covers saved v")
    case True
    have tenant: "vr_tenant_id v = tenant" using v(2) True in_s(2) by (simp add: baseline_covers_def)
    have past: "case pr_after_variant_id request of None \<Rightarrow> True | Some a \<Rightarrow> a < vr_id v"
      using True tenant in_s(2) saved(3,4) by (auto simp: baseline_covers_def split: option.splits)
    have "\<not> pr_limit request < length found \<or> take (pr_limit request) found \<noteq> [] \<and> vr_id v \<le> last (take (pr_limit request) found)"
      using v(2) True tenant past saved(3) e(2) by (auto simp: baseline_covers_def split: if_splits)
    from page_variants_cover [OF v(1) tenant past this [unfolded e(1)]] show ?thesis
      using True in_s(2) by (simp add: e(1,4))
  next
    case False
    then have "baseline_covers b v" using v(2) by (auto split: if_splits)
    then show ?thesis using hist b v(1) e(4) unfolding history_ok_def by blast
  qed
  have act: "\<exists>f \<in> set (inv_outbox s'). of_envelope_id f = Some (bl_baseline_id b) \<and> of_tenant_id f = bl_tenant_id b
      \<and> of_fact f = SourceActivated (bl_baseline_id b)"
    if b: "b \<in> set (src_baselines s)" "bl_active (?new b)" for b
  proof (cases "b = saved")
    case True
    with e(7) b(2) in_s show ?thesis by simp
  next
    case False
    with hist b have "\<exists>f \<in> set (inv_outbox s). of_envelope_id f = Some (bl_baseline_id b) \<and> of_tenant_id f = bl_tenant_id b
      \<and> of_fact f = SourceActivated (bl_baseline_id b)" by (simp add: history_ok_def)
    then show ?thesis using e(6) by blast
  qed
  show ?thesis unfolding history_ok_def decl vs
    using ub recs cover act by (auto simp: e(3))
qed

lemma start_baseline_history:
  assumes "start_baseline env timing s ctx i = (s', res)" and "history_ok s"
  shows "history_ok s'"
  using start_baseline_outcome [OF assms(1)] assms(2) by (auto dest: start_in_history)

lemma advance_baseline_history:
  assumes "advance_baseline env ids timing s ctx request = (s', res)" and "history_ok s"
  shows "history_ok s'"
  using advance_baseline_outcome [OF assms(1)]
proof (elim disjE exE)
  fix tenant actor publisher p
  assume "advance_in env ids s tenant actor publisher request = Inr (s', p)"
  then show ?thesis
  proof (rule advance_in_Inr)
    fix saved
    assume h: "saved_baseline s tenant = Inr (Some saved)" "bl_baseline_id saved = pr_baseline_id request"
      "\<not> bl_active saved" "bl_last_variant_id saved = pr_after_variant_id request"
      "copy_page env ids s tenant publisher request saved = Inr (s', p)"
    show ?thesis by (rule copy_page_history [OF h(5) assms(2) h(1,2,4,3)])
  qed (use assms(2) in simp)
qed (use assms(2) in simp)

subsection \<open>Listing a variant\<close>

lemma sorted_first: "sort_key f (sort_key g xs) = x # ys \<Longrightarrow> x \<in> set xs"
  by (metis list.set_intros(1) set_sort)

lemma find_default_location_tenant: "find_default_location s tenant = Some l \<Longrightarrow> sl_tenant_id l = tenant"
  by (auto simp: find_default_location_def Let_def split: option.splits list.splits dest!: sorted_first)

lemma ensure_default_location_tenant:
  "ensure_default_location env s tenant = Inr (t, w) \<Longrightarrow> sl_tenant_id w = tenant"
  by (auto simp: ensure_default_location_def Let_def default_location_row_def
      split: option.splits dest: find_default_location_tenant)

text \<open>A new variant of a tenant with a baseline gets a record, or is not created.\<close>

lemma record_created_covers:
  assumes "record_created env s tenant variant actor = Inr s'" and "b \<in> set (src_baselines s)" "bl_tenant_id b = tenant"
  shows "(tenant, variant) \<in> live_keys s'"
proof -
  obtain tracked where tracked: "tracking_baseline env s tenant = Inr tracked" using assms(1) by (auto simp: record_created_def)
  moreover have "List.find (\<lambda>b. bl_tenant_id b = tenant) (src_baselines s) \<noteq> None" using assms(2,3) by (auto simp: find_None_iff)
  ultimately obtain baseline where "tracked = Some baseline"
    by (auto simp: tracking_baseline_def saved_baseline_def split: option.splits if_splits)
  with assms(1) tracked obtain snap t where run: "load_snapshot env s tenant variant MAX_SOURCE_LEVELS = Inr snap"
    "insert_record env s tenant baseline snap ''created'' = Inr t"
    "publish_changed t tenant actor baseline variant 1 (src_change_id env) = Inr s'"
    by (auto simp: record_created_def)
  have "(tenant, variant) \<in> live_keys t"
    using insert_record_live(1) [OF run(2)] load_snapshot_ok(2) [OF run(1)] by simp
  then show ?thesis using publish_changed_grows [OF run(3)] by (auto simp: grows_def)
qed

lemma listed_history:
  assumes hist: "history_ok s"
    and t: "ensure_default_location env (s\<lparr>inv_products := ps, inv_variants := inv_variants s @ [v]\<rparr>) (vr_tenant_id v) = Inr (t, w)"
    and run: "create_initial_records env t w actor (vr_id v) sku quantity = Inr s'"
  shows "history_ok s'"
proof -
  let ?s = "s\<lparr>inv_products := ps, inv_variants := inv_variants s @ [v]\<rparr>"
  have g: "grows ?s s'" using ensure_default_location_grows [OF t] create_initial_grows [OF run] by (rule grows_trans)
  have tenant: "sl_tenant_id w = vr_tenant_id v" by (rule ensure_default_location_tenant [OF t])
  obtain items levels where created: "record_created env (t\<lparr>inv_items := items, inv_levels := levels\<rparr>) (vr_tenant_id v)
      (vr_id v) (Some actor) = Inr s'"
    using run by (auto simp: create_initial_records_def Let_def tenant)
  have live: "live_keys ?s = live_keys s" "declared ?s = declared s"
    by (simp_all add: live_keys_def declared_def fun_eq_iff)
  show ?thesis
  proof (rule history_ok_step [OF hist])
    fix b u assume b: "b \<in> set (src_baselines s)" "u \<in> set (inv_variants s')" "baseline_covers b u"
    show "(bl_tenant_id b, vr_id u) \<in> live_keys s'"
    proof (cases "u = v")
      case True
      have "b \<in> set (src_baselines (t\<lparr>inv_items := items, inv_levels := levels\<rparr>))"
        using b(1) ensure_default_location_stock [OF t] by simp
      moreover have "bl_tenant_id b = vr_tenant_id v" using b(3) True by (simp add: baseline_covers_def)
      ultimately show ?thesis using record_created_covers [OF created, of b] True by simp
    next
      case False
      then have "u \<in> set (inv_variants s)" using b(2) g by (simp add: grows_def)
      then have "(bl_tenant_id b, vr_id u) \<in> live_keys s" using hist b unfolding history_ok_def by blast
      then show ?thesis using g live by (auto simp: grows_def)
    qed
  qed (use g live in \<open>simp_all add: grows_def\<close>)
qed

subsection \<open>Removing variants\<close>

lemma update_record_rows:
  assumes "update_record env s saved st re inc del actor = Inr s'"
  shows "src_records s' = map (\<lambda>r. if updates_record saved r
      then set_record env (sr_source_version saved + 1, st, re, inc, del) r else r) (src_records s)"
    and "src_baselines s' = src_baselines s" "src_pages s' = src_pages s" "inv_variants s' = inv_variants s"
      "set (inv_outbox s) \<subseteq> set (inv_outbox s')"
proof -
  let ?f = "set_record env (sr_source_version saved + 1, st, re, inc, del)"
  obtain rs t kind where run: "update_one (updates_record saved) ?f (src_records s) = Some rs"
    "append_change env (s\<lparr>src_records := rs\<rparr>) (sr_tenant_id saved) (sr_baseline_id saved) (sr_variant_id saved)
        (sr_source_version saved + 1) (src_change_id env) kind = Inr t"
    "publish_changed t (sr_tenant_id saved) actor (sr_baseline_id saved) (sr_variant_id saved)
        (sr_source_version saved + 1) (src_change_id env) = Inr s'"
    using assms by (auto simp: update_record_def next_version_def Let_def)
  have t: "\<exists>cs. t = s\<lparr>src_records := rs, src_changes := cs\<rparr>" using run(2) by (auto simp: append_change_def)
  have rs: "rs = map (\<lambda>r. if updates_record saved r then ?f r else r) (src_records s)"
    using run(1) by (auto simp: update_one_def split: if_splits)
  note out = publish_changed_outbox [OF run(3)]
  show "src_records s' = map (\<lambda>r. if updates_record saved r then ?f r else r) (src_records s)"
    "src_baselines s' = src_baselines s" "src_pages s' = src_pages s" "inv_variants s' = inv_variants s"
    "set (inv_outbox s) \<subseteq> set (inv_outbox s')"
    using out t by (auto simp: rs)
qed

lemma record_each_kept:
  "record_each env ids s prepared actor = Inr s' \<Longrightarrow>
     src_baselines s' = src_baselines s \<and> src_pages s' = src_pages s \<and> inv_variants s' = inv_variants s
     \<and> set (inv_outbox s) \<subseteq> set (inv_outbox s')
     \<and> (\<forall>r \<in> set (src_records s'). \<exists>q \<in> set (src_records s). sr_tenant_id q = sr_tenant_id r \<and> sr_baseline_id q = sr_baseline_id r)
     \<and> (\<forall>r \<in> set (src_records s). (\<forall>q. Some q \<in> set prepared \<longrightarrow> sr_variant_id q \<noteq> sr_variant_id r) \<longrightarrow> r \<in> set (src_records s'))"
proof (induction prepared arbitrary: ids s)
  case (Cons found prepared)
  obtain t where t: "record_deleted (env\<lparr>src_change_id := ids 0\<rparr>) s found (Some actor) = Inr t"
    "record_each env (\<lambda>n. ids (Suc n)) t prepared actor = Inr s'" using Cons.prems(1) by auto
  note IH = Cons.IH [OF t(2)]
  show ?case
  proof (cases found)
    case None
    with t(1) have "t = s" by (simp add: record_deleted_def)
    then show ?thesis using IH None by simp
  next
    case (Some saved)
    have run: "update_record (env\<lparr>src_change_id := ids 0\<rparr>) s saved 0 0 0 True (Some actor) = Inr t"
      using t(1) by (auto simp: Some record_deleted_def)
    note rows = update_record_rows [OF run]
    have "\<exists>q \<in> set (src_records s). sr_tenant_id q = sr_tenant_id r \<and> sr_baseline_id q = sr_baseline_id r"
      if "r \<in> set (src_records t)" for r
      using that by (auto simp: rows(1) set_record_def)
    then have recs: "\<forall>r \<in> set (src_records s'). \<exists>q \<in> set (src_records s). sr_tenant_id q = sr_tenant_id r \<and> sr_baseline_id q = sr_baseline_id r"
      using IH by metis
    have "r \<in> set (src_records t)" if "r \<in> set (src_records s)" "sr_variant_id saved \<noteq> sr_variant_id r" for r
      using that by (force simp: rows(1) updates_record_def)
    then have kept: "\<forall>r \<in> set (src_records s). (\<forall>q. Some q \<in> set (found # prepared) \<longrightarrow> sr_variant_id q \<noteq> sr_variant_id r)
        \<longrightarrow> r \<in> set (src_records s')"
      using IH Some by simp
    show ?thesis using IH rows(2-5) by (intro conjI recs kept) auto
  qed
qed auto

lemma prepared_variant:
  assumes "list_all2 (prepared_for s tenant) items prepared" and "Some q \<in> set prepared"
  shows "sr_variant_id q \<in> snd ` set items"
  using assms
proof (induction rule: list_all2_induct)
  case (Cons x items found prepared)
  obtain item variant where x: "x = (item, variant)" by force
  show ?case
  proof (cases "found = Some q")
    case True
    with Cons.hyps(1) show ?thesis by (simp add: x prepared_for_def)
  next
    case False
    then show ?thesis using Cons.IH Cons.prems by (simp add: x)
  qed
qed simp

lemma delete_records_history:
  assumes run: "delete_records env ids seen s tenant actor variants = Inr s'" and ok: "stock_ok s"
    and journal: "journal_ok s" and hist: "history_ok s"
  shows "history_ok (without_variants variants s')"
proof (rule delete_records_Inr [OF run ok])
  assume "variants = []" "s' = s"
  then show ?thesis using hist by (simp add: without_variants_def)
next
  fix items :: "(uuid \<times> uuid) list" and prepared
  let ?ids = "fst ` set items" and ?t = "without_variants variants s'"
  assume rem: "removable s tenant (sort variants) items" and prep: "prepare_each env s tenant items = Inr prepared"
    and rec: "record_each env ids (removed_stock ?ids s) prepared actor = Inr s'"
  have "unique_rows source_record_clash (src_records s)" using journal by (simp add: journal_but_def)
  note prepared = prepare_each_Inr [OF prep this]
  have "map snd items = sort variants" using rem by (simp add: removable_def)
  then have "snd ` set items = set variants" by (metis list.set_map set_sort)
  then have gone: "sr_variant_id q \<in> set variants" if "Some q \<in> set prepared" for q
    using prepared_variant [OF prepared that] by simp
  note kept = record_each_kept [OF rec, unfolded removed_stock_def, simplified]
  show ?thesis
  proof (rule history_ok_step [OF hist])
    fix b v assume b: "b \<in> set (src_baselines s)" "v \<in> set (inv_variants ?t)" "baseline_covers b v"
    then have v: "v \<in> set (inv_variants s)" "vr_id v \<notin> set variants" using kept by (simp_all add: without_variants_def)
    then have "(bl_tenant_id b, vr_id v) \<in> live_keys s" using hist b(1,3) unfolding history_ok_def by blast
    then obtain r where r: "r \<in> set (src_records s)" "\<not> sr_deleted r" "record_key r = (bl_tenant_id b, vr_id v)"
      by (auto simp: live_keys_def)
    have "\<forall>q. Some q \<in> set prepared \<longrightarrow> sr_variant_id q \<noteq> sr_variant_id r"
      using gone v(2) r(3) by (metis prod.inject)
    then have "r \<in> set (src_records ?t)" using kept r(1) by simp
    then show "(bl_tenant_id b, vr_id v) \<in> live_keys ?t" using r(2,3) by (rule live_keysI)
  qed (use kept in simp_all)
qed

subsection \<open>Interleavings\<close>

lemma stock_step_history: "stock_step s s' \<Longrightarrow> stock_ok s \<Longrightarrow> journal_ok s \<Longrightarrow> history_ok s \<Longrightarrow> history_ok s'"
  by (erule stock_stepE)
    (blast intro: command_grows history_ok_grows start_baseline_history advance_baseline_history listed_history
      delete_records_history)+

lemma no_stock_history: "no_stock s \<Longrightarrow> history_ok s"
  by (simp add: no_stock_def history_ok_def unique_rows_def)

interpretation history_states: transition_invariant no_stock stock_step "\<lambda>_. True"
  "\<lambda>_ s. stock_ok s \<and> journal_ok s \<and> history_ok s"
  by unfold_locales (auto intro: no_stock_ok no_stock_journal no_stock_history stock_step_ok stock_step_journal stock_step_history)

lemma reachable_history: "reachable no_stock stock_step n s \<Longrightarrow> stock_ok s \<and> journal_ok s \<and> history_ok s"
  using history_states.reachable_inv by blast

text \<open>
  C6: an active baseline is complete. In every interleaving, each variant the catalogue lists for a tenant
  whose baseline is active has exactly one record, which is live, belongs to that baseline and holds the
  exact sums of the counters of its item; and the activation of the baseline was published.
\<close>

theorem baseline_complete:
  assumes "reachable no_stock stock_step n s" and "b \<in> set (src_baselines s)" and "bl_active b"
    and "v \<in> set (inv_variants s)" and "vr_tenant_id v = bl_tenant_id b"
  shows "\<exists>r. {q \<in> set (src_records s). sr_tenant_id q = bl_tenant_id b \<and> sr_variant_id q = vr_id v} = {r}
    \<and> \<not> sr_deleted r \<and> sr_baseline_id r = bl_baseline_id b
    \<and> (\<exists>i \<in> set (inv_items s). ii_id i = sr_inventory_item_id r \<and> ii_variant_id i = vr_id v)
    \<and> (let levels = filter (\<lambda>l. il_inventory_item_id l = sr_inventory_item_id r) (inv_levels s) in
         sr_stocked r = sum_list (map il_stocked_quantity levels) \<and> sr_reserved r = sum_list (map il_reserved_quantity levels)
         \<and> sr_incoming r = sum_list (map il_incoming_quantity levels))
    \<and> (\<exists>f \<in> set (inv_outbox s). of_envelope_id f = Some (bl_baseline_id b) \<and> of_tenant_id f = bl_tenant_id b
         \<and> of_fact f = SourceActivated (bl_baseline_id b))"
proof -
  have ok: "journal_ok s" "history_ok s" using reachable_history [OF assms(1)] by simp_all
  have "(bl_tenant_id b, vr_id v) \<in> live_keys s"
    using ok(2) assms(2-5) unfolding history_ok_def baseline_covers_def by blast
  then obtain r where r: "r \<in> set (src_records s)" "\<not> sr_deleted r" "sr_tenant_id r = bl_tenant_id b" "sr_variant_id r = vr_id v"
    by (auto simp: live_keys_def)
  have urs: "unique_rows source_record_clash (src_records s)" using ok(1) by (simp add: journal_but_def)
  have "q = r" if "q \<in> set (src_records s)" "sr_tenant_id q = bl_tenant_id b" "sr_variant_id q = vr_id v" for q
    using source_record_table.unique_eq [OF urs that(1) r(1)] that(2,3) r(3,4) by (simp add: source_record_clash_def)
  with r have only: "{q \<in> set (src_records s). sr_tenant_id q = bl_tenant_id b \<and> sr_variant_id q = vr_id v} = {r}" by blast
  obtain c where c: "c \<in> set (src_baselines s)" "bl_tenant_id c = sr_tenant_id r" "bl_baseline_id c = sr_baseline_id r"
    using ok(2) r(1) by (auto simp: history_ok_def declared_def)
  have "c = b"
    using ok(2) source_baseline_table.unique_eq [of "src_baselines s" c b] c(1,2) assms(2) r(3)
    by (simp add: history_ok_def source_baseline_clash_def)
  moreover have "record_bound s r" "counters_match s r" using journal_live [OF ok(1) r(1,2)] by simp_all
  moreover have "\<exists>f \<in> set (inv_outbox s). of_envelope_id f = Some (bl_baseline_id b) \<and> of_tenant_id f = bl_tenant_id b
         \<and> of_fact f = SourceActivated (bl_baseline_id b)"
    using ok(2) assms(2,3) by (simp add: history_ok_def)
  ultimately show ?thesis
    using only r c(3) by (intro exI [of _ r]) (simp add: record_bound_def counters_match_def item_sum_def item_levels_def Let_def)
qed

subsection \<open>Replaying a page\<close>

lemma copy_page_pages:
  assumes "copy_page env ids s tenant publisher request saved = Inr (s', p)"
  shows "\<exists>ps. src_pages s' = src_pages s @ ps"
proof (rule copy_page_Inr [OF assms])
  fix found snaps t n ps bs b u
  assume ins: "insert_each env ids s tenant (pr_baseline_id request) snaps = Inr t"
    and ps: "insert_unique source_page_clash (new_page tenant request (if take (pr_limit request) found = [] then bl_last_variant_id saved
        else Some (last (take (pr_limit request) found))) (pr_limit request < length found) n) (src_pages t) = Some ps"
    and u: "u = t\<lparr>src_pages := ps, src_baselines := bs\<rparr>"
    and s': "if bl_active b then publish_activated u tenant publisher (bl_baseline_id b) = Inr s' else s' = u"
  have "src_pages s' = ps" using s' u by (auto split: if_splits dest!: publish_activated_outbox)
  moreover have "src_pages t = src_pages s" using insert_each_Inr [OF ins] by auto
  ultimately show ?thesis using ps by (auto simp: source_page_table.insert_unique_Some)
qed

lemma stock_step_pages:
  assumes "stock_step s s'" and "stock_ok s"
  shows "\<exists>ps. src_pages s' = src_pages s @ ps"
  using assms(1)
proof (cases rule: stock_step.cases)
  case (listed v env ps t w actor sku quantity)
  then show ?thesis using ensure_default_location_stock [OF listed(2)] create_initial_grows [OF listed(3)] by (simp add: grows_def)
next
  case (removed env ids seen tenant actor variants t)
  have "src_pages t = src_pages s"
    by (rule delete_records_Inr [OF removed(2) assms(2)]) (auto simp: removed_stock_def dest: record_each_kept)
  then show ?thesis by (simp add: removed(1))
next
  case (started env timing ctx i progress)
  then show ?thesis using start_baseline_outcome [OF started] by (auto dest!: start_in_Inr)
next
  case (advanced env ids timing ctx request progress)
  show ?thesis using advance_baseline_outcome [OF advanced]
  proof (elim disjE exE)
    fix tenant actor publisher p
    assume "advance_in env ids s tenant actor publisher request = Inr (s', p)"
    then show ?thesis by (rule advance_in_Inr) (auto dest: copy_page_pages)
  qed simp
qed (use assms(2) in \<open>auto dest!: command_grows simp: grows_def\<close>)

lemma stock_steps_pages:
  assumes "rtranclp stock_step s s'" and "stock_ok s"
  shows "stock_ok s' \<and> (\<exists>ps. src_pages s' = src_pages s @ ps)"
  using assms(1)
proof (induction rule: rtranclp_induct)
  case (step t u)
  then obtain ps qs where "src_pages t = src_pages s @ ps" "src_pages u = src_pages t @ qs"
    using stock_step_pages [OF step.hyps(2)] by blast
  then show ?case using step stock_step_ok by auto
qed (simp add: assms(2))

text \<open>A page that was answered left a receipt that answers the same.\<close>

lemma advance_in_receipt:
  assumes "advance_in env ids s tenant actor publisher request = Inr (s', p)" and "history_ok s"
  shows "\<exists>q. List.find (\<lambda>p. pg_tenant_id p = tenant \<and> pg_page_id p = pr_page_id request) (src_pages s') = Some q
    \<and> (\<forall>p'. replay_page tenant request q = Inr p' \<longrightarrow> p' = p)"
proof (rule advance_in_Inr [OF assms(1)])
  fix saved
  assume saved: "saved_baseline s tenant = Inr (Some saved)" "bl_baseline_id saved = pr_baseline_id request"
    and none: "List.find (\<lambda>p. pg_tenant_id p = tenant \<and> pg_page_id p = pr_page_id request) (src_pages s) = None"
    and run: "copy_page env ids s tenant publisher request saved = Inr (s', p)"
  show ?thesis
  proof (rule copy_page_effect [OF run assms(2) saved])
    fix found after n
    assume e: "src_pages s' = src_pages s @ [new_page tenant request after (pr_limit request < length found) n]"
      "baseline_progress_of (advanced_baseline request (after, pr_limit request < length found, n) saved) = Inr p"
    have "p = \<lparr>bp_tenant_id = tenant, bp_baseline_id = pr_baseline_id request, bp_active = (\<not> pr_limit request < length found),
        bp_after_variant_id = after, bp_record_count = n, bp_last_page_id = Some (pr_page_id request)\<rparr>"
      using e(2) saved_baseline_Some [OF saved(1)] saved(2) by (auto simp: baseline_progress_of_def advanced_baseline_def)
    then show ?thesis
      using none by (intro exI [of _ "new_page tenant request after (pr_limit request < length found) n"])
        (auto simp: e(1) find_append_None new_page_def replay_page_def)
  qed
qed auto

lemma advance_in_replays:
  assumes "advance_in env ids s tenant actor publisher request = Inr (s', p)"
    and "List.find (\<lambda>p. pg_tenant_id p = tenant \<and> pg_page_id p = pr_page_id request) (src_pages s) = Some q"
  shows "replay_page tenant request q = Inr p \<and> s' = s"
  by (rule advance_in_Inr [OF assms(1)]) (use assms(2) in simp_all)

lemma advance_baseline_Inr:
  assumes "advance_baseline env ids timing s ctx request = (s', Inr p)"
  shows "\<exists>tenant actor publisher. inv_parse_uuid env (ctx_tenant_id ctx) = Some tenant
    \<and> advance_in env ids s tenant actor publisher request = Inr (s', p)"
  using assms
  by (auto simp: advance_baseline_def source_scope_def Let_def split: sum.splits dest!: run_budgeted_outcome)

text \<open>
  C18: a page is built once. After a call has answered, whatever commands run in between, a call that names
  the same page of the same tenant with the same request is answered with the same progress and leaves the
  store as it is.
\<close>

theorem baseline_page_replayed:
  assumes "reachable no_stock stock_step n s" and "advance_baseline env ids timing s ctx request = (s1, Inr p)"
    and "rtranclp stock_step s1 s2" and "advance_baseline env' ids' timing' s2 ctx' request = (s3, Inr q)"
    and "inv_parse_uuid env' (ctx_tenant_id ctx') = inv_parse_uuid env (ctx_tenant_id ctx)"
  shows "q = p \<and> s3 = s2"
proof -
  have ok: "stock_ok s" "history_ok s" using reachable_history [OF assms(1)] by simp_all
  obtain tenant actor publisher where one: "inv_parse_uuid env (ctx_tenant_id ctx) = Some tenant"
    "advance_in env ids s tenant actor publisher request = Inr (s1, p)"
    using advance_baseline_Inr [OF assms(2)] by blast
  obtain actor' publisher' where two: "advance_in env' ids' s2 tenant actor' publisher' request = Inr (s3, q)"
    using advance_baseline_Inr [OF assms(4)] assms(5) one(1) by auto
  obtain receipt where receipt: "List.find (\<lambda>p. pg_tenant_id p = tenant \<and> pg_page_id p = pr_page_id request) (src_pages s1) = Some receipt"
    "\<forall>p'. replay_page tenant request receipt = Inr p' \<longrightarrow> p' = p"
    using advance_in_receipt [OF one(2) ok(2)] by blast
  have "stock_ok s1" by (rule advance_baseline_ok [OF assms(2) ok(1)])
  then obtain ps where "src_pages s2 = src_pages s1 @ ps" using stock_steps_pages [OF assms(3)] by blast
  then have "List.find (\<lambda>p. pg_tenant_id p = tenant \<and> pg_page_id p = pr_page_id request) (src_pages s2) = Some receipt"
    by (simp only:) (rule find_append_Some [OF receipt(1)])
  then show ?thesis using advance_in_replays [OF two] receipt(2) by blast
qed

subsection \<open>Reading the journal\<close>

lemma view_each_Inr:
  "view_each tenant baseline heads rows = Inr views \<Longrightarrow> w \<in> set views \<Longrightarrow>
     \<exists>r \<in> set rows. w = view_of tenant baseline r (sr_stocked r - sr_reserved r)"
proof (induction rows arbitrary: heads views)
  case (Cons r rows)
  then obtain rest where "views = view_of tenant baseline r (sr_stocked r - sr_reserved r) # rest"
    "view_each tenant baseline (filter (\<lambda>(k, _). k \<noteq> sr_last_change_id r) heads) rows = Inr rest"
    by (auto simp: checked_i64_def split: if_splits)
  with Cons.IH [OF this(2)] Cons.prems(2) show ?case by auto
qed simp

lemma take_views_Inr:
  "take_views views vs = Inr ws \<Longrightarrow> list_all2 (\<lambda>v w. (v, w) \<in> set views) vs ws"
proof (induction vs arbitrary: views ws)
  case (Cons v vs)
  then obtain w rest where run: "map_of views v = Some w" "take_views (filter (\<lambda>(k, _). k \<noteq> v) views) vs = Inr rest"
    "ws = w # rest" by auto
  have "list_all2 (\<lambda>v w. (v, w) \<in> set views) vs rest"
    using Cons.IH [OF run(2)] by (rule list_all2_mono) auto
  then show ?case using map_of_SomeD [OF run(1)] run(3) by simp
qed simp

text \<open>What a load answers: for each variant asked, in that order, the row of the tenant at the moment of the rows.\<close>

lemma source_load_Inr:
  assumes "source_load env timing (s, t, u) ctx baseline variants = Inr views"
  obtains tenant where "inv_parse_uuid env (ctx_tenant_id ctx) = Some tenant"
    "list_all2 (\<lambda>v w. \<exists>r \<in> set (src_records t). sr_tenant_id r = tenant \<and> sr_variant_id r = v
       \<and> w = view_of tenant baseline r (sr_stocked r - sr_reserved r)) variants views"
proof -
  obtain tenant where tenant: "inv_parse_uuid env (ctx_tenant_id ctx) = Some tenant"
    and run: "\<exists>rows found. rows = filter (\<lambda>r. sr_tenant_id r = tenant \<and> sr_variant_id r \<in> set variants) (src_records t)
      \<and> checked_rows u rows tenant baseline = Inr found
      \<and> take_views (btree_collect (map (\<lambda>w. (sv_variant_id w, w)) found)) variants = Inr views"
    using assms by (auto simp: source_scope_def Let_def read_budget_def split: if_splits)
  from run obtain rows found where rows: "rows = filter (\<lambda>r. sr_tenant_id r = tenant \<and> sr_variant_id r \<in> set variants) (src_records t)"
    "checked_rows u rows tenant baseline = Inr found"
    "take_views (btree_collect (map (\<lambda>w. (sv_variant_id w, w)) found)) variants = Inr views" by blast
  have view: "\<exists>r \<in> set rows. w = view_of tenant baseline r (sr_stocked r - sr_reserved r)" if "w \<in> set found" for w
  proof (cases "rows = []")
    case False
    then obtain heads where "view_each tenant baseline heads rows = Inr found" using rows(2) by (auto simp: checked_rows_def Let_def)
    from view_each_Inr [OF this that] show ?thesis .
  qed (use rows(2) that in \<open>simp add: checked_rows_def\<close>)
  have "list_all2 (\<lambda>v w. \<exists>r \<in> set (src_records t). sr_tenant_id r = tenant \<and> sr_variant_id r = v
       \<and> w = view_of tenant baseline r (sr_stocked r - sr_reserved r)) variants views"
    using take_views_Inr [OF rows(3)]
  proof (rule list_all2_mono)
    fix v w assume "(v, w) \<in> set (btree_collect (map (\<lambda>w. (sv_variant_id w, w)) found))"
    then have "w \<in> set found" "v = sv_variant_id w" using btree_collect_sub by fastforce+
    from view [OF this(1)] obtain r where "r \<in> set rows" "w = view_of tenant baseline r (sr_stocked r - sr_reserved r)" by blast
    with \<open>v = sv_variant_id w\<close> show "\<exists>r \<in> set (src_records t). sr_tenant_id r = tenant \<and> sr_variant_id r = v
       \<and> w = view_of tenant baseline r (sr_stocked r - sr_reserved r)"
      by (intro bexI [of _ r]) (simp_all add: rows(1) view_of_def)
  qed
  with tenant show thesis by (rule that)
qed

lemma live_view_stock:
  assumes ok: "stock_ok t" "journal_ok t" and r: "r \<in> set (src_records t)" "\<not> sr_deleted r"
    and w: "w = view_of tenant baseline r (sr_stocked r - sr_reserved r)"
  shows "\<exists>i. find_item t (sv_variant_id w) = Some i \<and> sv_inventory_item_id w = ii_id i
            \<and> sv_stocked w = sum_list (map il_stocked_quantity (item_levels t (ii_id i)))
            \<and> sv_reserved w = sum_list (map il_reserved_quantity (item_levels t (ii_id i)))
            \<and> sv_incoming w = sum_list (map il_incoming_quantity (item_levels t (ii_id i)))
            \<and> sv_available w = available_units t (ii_id i)"
proof -
  obtain i where i: "i \<in> set (inv_items t)" "ii_id i = sr_inventory_item_id r" "ii_variant_id i = sr_variant_id r"
    and sums: "counters_match t r"
    using journal_live [OF ok(2) r] by (auto simp: record_bound_def)
  have "find_item t (sr_variant_id r) \<noteq> None" using i by (auto simp: find_item_def find_None_iff)
  then obtain j where j: "find_item t (sr_variant_id r) = Some j" by blast
  then have "j = i" using i ok(1) by (intro stock_item_table.unique_eq [of "inv_items t"])
      (auto simp: find_item_def find_Some_iff stock_ok_def stock_item_clash_def)
  with j i(2) sums show ?thesis
    by (intro exI [of _ i])
      (simp add: w view_of_def counters_match_def item_sum_def available_units_def sum_list_subtractf)
qed

text \<open>
  C17: what is read is the stock. A load that succeeds answers the variants asked, each once and in
  that order; a view that is not a tombstone names the item of its variant, its counters are the exact sums
  over the levels at the moment the rows were read, and its available quantity is what is stocked and not
  reserved.
\<close>

theorem source_reads_stock:
  assumes "reachable no_stock stock_step n t"
    and "source_load env timing (s, t, u) ctx baseline variants = Inr views"
  shows "map sv_variant_id views = variants
    \<and> (\<forall>w \<in> set views. sv_baseline_id w = baseline \<and> (\<not> sv_deleted w \<longrightarrow>
         (\<exists>i. find_item t (sv_variant_id w) = Some i \<and> sv_inventory_item_id w = ii_id i
            \<and> sv_stocked w = sum_list (map il_stocked_quantity (item_levels t (ii_id i)))
            \<and> sv_reserved w = sum_list (map il_reserved_quantity (item_levels t (ii_id i)))
            \<and> sv_incoming w = sum_list (map il_incoming_quantity (item_levels t (ii_id i)))
            \<and> sv_available w = available_units t (ii_id i))))"
proof (rule source_load_Inr [OF assms(2)])
  fix tenant
  assume rows: "list_all2 (\<lambda>v w. \<exists>r \<in> set (src_records t). sr_tenant_id r = tenant \<and> sr_variant_id r = v
       \<and> w = view_of tenant baseline r (sr_stocked r - sr_reserved r)) variants views"
  have ok: "stock_ok t" "journal_ok t" using reachable_history [OF assms(1)] by simp_all
  have "list_all2 (\<lambda>v w. sv_variant_id w = v) variants views"
    using rows by (rule list_all2_mono) (auto simp: view_of_def)
  then have order: "map sv_variant_id views = variants" by (induction rule: list_all2_induct) simp_all
  have row: "\<exists>r \<in> set (src_records t). w = view_of tenant baseline r (sr_stocked r - sr_reserved r)" if "w \<in> set views" for w
    using rows that by (induction rule: list_all2_induct) auto
  show ?thesis
  proof (intro conjI ballI order)
    fix w assume "w \<in> set views"
    from row [OF this] obtain r where r: "r \<in> set (src_records t)" "w = view_of tenant baseline r (sr_stocked r - sr_reserved r)" by blast
    show "sv_baseline_id w = baseline" by (simp add: r(2) view_of_def)
    show "\<not> sv_deleted w \<longrightarrow> (\<exists>i. find_item t (sv_variant_id w) = Some i \<and> sv_inventory_item_id w = ii_id i
            \<and> sv_stocked w = sum_list (map il_stocked_quantity (item_levels t (ii_id i)))
            \<and> sv_reserved w = sum_list (map il_reserved_quantity (item_levels t (ii_id i)))
            \<and> sv_incoming w = sum_list (map il_incoming_quantity (item_levels t (ii_id i)))
            \<and> sv_available w = available_units t (ii_id i))"
      using live_view_stock [OF ok r(1) _ r(2)] by (simp add: r(2) view_of_def)
  qed
qed

subsection \<open>Removing stock records\<close>

lemma deletion_proofs:
  "\<forall>(v, item) \<in> P. v \<notin> vs \<and> item \<notin> ids \<Longrightarrow> x \<in> vs \<Longrightarrow> y \<in> ids \<Longrightarrow> \<forall>(v, item) \<in> P. v \<noteq> x \<and> item \<noteq> y"
  by blast

lemma removable_items:
  assumes rem: "removable s tenant variants items"
  shows "item \<in> fst ` set items \<longleftrightarrow> (\<exists>i \<in> set (inv_items s). ii_variant_id i \<in> set variants \<and> item = ii_id i)"
proof
  assume item: "item \<in> fst ` set items"
  then obtain v where "(item, v) \<in> set items" by auto
  then obtain i where "i \<in> set (inv_items s)" "ii_id i = item" using rem by (auto simp: removable_def)
  with removable_facts(1) [OF rem, of i] item show "\<exists>i \<in> set (inv_items s). ii_variant_id i \<in> set variants \<and> item = ii_id i" by auto
qed (use removable_facts(1) [OF rem] in auto)

text \<open>Nothing refers to the items of a batch that may go.\<close>

lemma removable_unused:
  assumes rem: "removable s tenant variants items"
  shows "\<forall>i \<in> set (inv_items s). ii_variant_id i \<in> set variants \<longrightarrow>
         (\<forall>r \<in> set (inv_reservations s). rsv_inventory_item_id r \<noteq> ii_id i) \<and> ii_id i \<notin> set (restock_items s)
         \<and> (\<forall>(v, item) \<in> set (proof_refs s). v \<noteq> ii_variant_id i \<and> item \<noteq> ii_id i)
         \<and> (\<forall>l \<in> set (item_levels s (ii_id i)). level_is_empty l)"
proof (intro ballI impI)
  let ?ids = "fst ` set items"
  have "\<not> has_history s variants ?ids" using rem by (simp add: removable_def)
  then have history: "\<forall>r \<in> set (inv_reservations s). rsv_inventory_item_id r \<notin> ?ids"
    "\<forall>item \<in> ?ids. item \<notin> set (restock_items s)"
    "\<forall>(v, item) \<in> set (proof_refs s). v \<notin> set variants \<and> item \<notin> ?ids"
    unfolding has_history_def list_ex_iff by (blast, blast, simp add: case_prod_beta)
  have levels: "level_is_empty l" if "ii_id i \<in> ?ids" "l \<in> set (item_levels s (ii_id i))" for i l
    using rem that unfolding removable_def item_levels_def by simp
  fix i assume i: "i \<in> set (inv_items s)" "ii_variant_id i \<in> set variants"
  then have "ii_id i \<in> ?ids" using removable_facts(1) [OF rem] by blast
  then show "(\<forall>r \<in> set (inv_reservations s). rsv_inventory_item_id r \<noteq> ii_id i) \<and> ii_id i \<notin> set (restock_items s)
         \<and> (\<forall>(v, item) \<in> set (proof_refs s). v \<noteq> ii_variant_id i \<and> item \<noteq> ii_id i)
         \<and> (\<forall>l \<in> set (item_levels s (ii_id i)). level_is_empty l)"
    using history(1,2) levels deletion_proofs [OF history(3) i(2)] by metis
qed

text \<open>
  C9: only empty bookkeeping is deleted. Where a deletion succeeds, every variant it names is one of the
  tenant's, no reservation, live or not, no restocked return and no shipment proof refers to their items and
  all their levels are empty; exactly their items and levels go, every other row and all reservations stay,
  and what the catalogue still lists keeps its available quantity.
\<close>

theorem deletion_keeps_history:
  assumes "reachable no_stock stock_step n s" and "delete_records env ids seen s tenant actor variants = Inr t"
  shows "(\<forall>x \<in> set variants. \<exists>v \<in> set (inv_variants s). vr_id v = x \<and> vr_tenant_id v = tenant)
    \<and> (\<forall>i \<in> set (inv_items s). ii_variant_id i \<in> set variants \<longrightarrow>
         (\<forall>r \<in> set (inv_reservations s). rsv_inventory_item_id r \<noteq> ii_id i) \<and> ii_id i \<notin> set (restock_items s)
         \<and> (\<forall>(v, item) \<in> set (proof_refs s). v \<noteq> ii_variant_id i \<and> item \<noteq> ii_id i)
         \<and> (\<forall>l \<in> set (item_levels s (ii_id i)). level_is_empty l))
    \<and> inv_items t = filter (\<lambda>i. ii_variant_id i \<notin> set variants) (inv_items s)
    \<and> inv_levels t = filter (\<lambda>l. \<forall>i \<in> set (inv_items s). ii_variant_id i \<in> set variants \<longrightarrow> il_inventory_item_id l \<noteq> ii_id i)
        (inv_levels s)
    \<and> inv_reservations t = inv_reservations s
    \<and> (\<forall>i \<in> set (inv_items t). available_units t (ii_id i) = available_units s (ii_id i))"
  using assms(2) conjunct1 [OF reachable_history [OF assms(1)]]
proof (rule delete_records_Inr)
  assume "variants = []" "t = s"
  then show ?thesis by simp
next
  fix items :: "(uuid \<times> uuid) list" and prepared
  let ?ids = "fst ` set items"
  assume rem: "removable s tenant (sort variants) items"
    and rec: "record_each env ids (removed_stock ?ids s) prepared actor = Inr t"
  have t: "inv_items t = filter (\<lambda>i. ii_id i \<notin> ?ids) (inv_items s)" "inv_reservations t = inv_reservations s"
    "inv_levels t = filter (\<lambda>l. il_inventory_item_id l \<notin> ?ids) (inv_levels s)"
    using record_each_stock [OF rec] by (simp_all add: same_stock_def removed_stock_def)
  note gone = removable_facts(1) [OF rem, simplified] and rows = removable_items [OF rem, simplified]
  have "available_units t (ii_id i) = available_units s (ii_id i)" if "i \<in> set (inv_items t)" for i
  proof -
    have "ii_id i \<notin> ?ids" using that by (simp add: t(1))
    then have "item_levels t (ii_id i) = item_levels s (ii_id i)"
      unfolding item_levels_def t(3) filter_filter by (intro filter_cong refl) metis
    then show ?thesis by (simp add: available_units_def)
  qed
  moreover have "inv_items t = filter (\<lambda>i. ii_variant_id i \<notin> set variants) (inv_items s)"
    unfolding t(1) using gone by (intro filter_cong) auto
  moreover have "inv_levels t = filter (\<lambda>l. \<forall>i \<in> set (inv_items s). ii_variant_id i \<in> set variants \<longrightarrow> il_inventory_item_id l \<noteq> ii_id i)
      (inv_levels s)"
    unfolding t(3) rows by (intro filter_cong) auto
  moreover have "\<forall>x \<in> set variants. \<exists>v \<in> set (inv_variants s). vr_id v = x \<and> vr_tenant_id v = tenant"
    using removable_facts(2) [OF rem] by simp
  ultimately show ?thesis using t(2) removable_unused [OF rem, simplified] by blast
qed

end
