(* ===== verification/Inventory_Examples.thy ===== *)
theory Inventory_Examples
  imports Inventory_History
begin

text \<open>
  A run of the inventory on concrete data: a shop with one variant receives stock, its source baseline is
  declared and completed by one page, a part of the stock is reserved and released, and its quantity is set.
  The properties of the inventory are applied to this run, those of deletion to the shop without stock.
\<close>

definition example_inv_env :: "uuid \<Rightarrow> inv_env" where
  "example_inv_env k =
     \<lparr>inv_parse_uuid = (\<lambda>t. if t = ''t'' then Some 1 else if t = ''v'' then Some 3 else if t = ''s'' then Some 7 else None),
      inv_print_uuid = (\<lambda>i. if i = 1 then ''t'' else ''v''), sha256_hex = (\<lambda>_. replicate 64 (CHR ''0'')),
      transaction_isolation = Some ''read committed'', gate_admitted = True, inv_item_id = k + 1,
      inv_level_id = k + 2, inv_location_id = k + 3, inv_location_name_id = k + 4, inv_operation_id = k + 5,
      inv_reservation_id = k + 6, src_change_id = k + 7, inv_now = 50, low_stock_threshold = 5\<rparr>"

definition example_default :: stock_location where
  "example_default = (default_location_row (example_inv_env 0) 1)\<lparr>sl_id := 4\<rparr>"

definition example_shop :: inv_store where
  "example_shop =
     \<lparr>inv_products = [\<lparr>pd_id = 2, pd_tenant_id = 1\<rparr>],
      inv_variants = [\<lparr>vr_id = 3, vr_product_id = 2, vr_tenant_id = 1, vr_sku = None,
        vr_inventory_policy = ''deny'', vr_inventory_quantity = 0\<rparr>],
      inv_items = [], inv_levels = [], inv_reservations = [], inv_locations = [example_default],
      inv_location_names = [], inv_location_changes = [],
      src_baselines = [], src_pages = [],
      src_records = [], src_changes = [], inv_outbox = [], restock_items = [], proof_refs = []\<rparr>"

lemma example_ienv:
  "inv_parse_uuid (example_inv_env k) ''t'' = Some 1" "inv_parse_uuid (example_inv_env k) ''v'' = Some 3"
  "inv_parse_uuid (example_inv_env k) ''s'' = Some 7"
  "inv_print_uuid (example_inv_env k) 1 = ''t''" "inv_print_uuid (example_inv_env k) 3 = ''v''"
  "sha256_hex (example_inv_env k) x = replicate 64 (CHR ''0'')"
  "transaction_isolation (example_inv_env k) = Some ''read committed''" "gate_admitted (example_inv_env k)"
  "inv_item_id (example_inv_env k) = k + 1" "inv_level_id (example_inv_env k) = k + 2"
  "inv_reservation_id (example_inv_env k) = k + 6" "src_change_id (example_inv_env k) = k + 7"
  "inv_now (example_inv_env k) = 50" "low_stock_threshold (example_inv_env k) = 5"
  by (simp_all add: example_inv_env_def)

lemma example_digest: "list_all is_hex_digit (replicate n (CHR ''0''))"
  by (induction n) (simp_all add: is_hex_digit_def ascii_defs)

lemmas source_steps =
  tracking_baseline_def source_gate_def current_snapshot_def saved_baseline_def baseline_shape_ok_def
  MAX_SOURCE_PAGE_def page_matches_def load_snapshot_def MAX_SOURCE_LEVELS_def find_variant_def proved_parent_def
  item_levels_def summarize_def bindings_digest_def insert_record_def append_change_def change_kind_known_def
  publish_changed_def publish_source_def source_event_valid_def publish_once_def stranded_def insert_unique_def source_record_clash_def source_change_clash_def
  live_record_def validate_record_def validate_change_def next_version_def update_record_def updates_record_def
  set_record_def prove_binding_def update_one_def eq_ignore_ascii_case_def Let_def

lemmas stock_steps =
  create_initial_records_def record_created_def record_changed_def source_steps example_ienv default_location_row_def
  initial_item_row_def initial_level_row_def level_admissible_def stock_item_clash_def stock_level_clash_def i64_arith

lemmas reserve_steps =
  stock_steps reserve_def movement_tenant_def quantity_tenant_def validate_non_nil_uuid_def
  load_variant_def reserve_in_transaction_def ensure_inventory_state_def ensure_inventory_item_def find_item_def
  ensure_default_location_def find_default_location_def ensure_inventory_level_def admit_new_reservation_def
  load_quantity_reservation_rows_def QUANTITY_RESERVATION_ROW_LIMIT_def inspect_anonymous_pool_def prepare_event_def
  event_actor_id_def reserve_on_level_def reserves_level_def inventory_policy_allows_backorder_def available_quantity_def
  checked_available_quantity_def STOCK_LEVEL_READ_LIMIT_def new_reservation_row_def reservation_admissible_def
  reservation_clash_def publish_event_def publish_root_def inventory_event_valid_def reservation_result_of_def
  trim_letters ascii_defs checked_i32_def example_digest

lemmas baseline_steps =
  stock_steps start_baseline_def advance_baseline_def start_in_def advance_in_def copy_page_def new_baseline_def
  new_page_def source_baseline_clash_def source_page_clash_def baseline_progress_of_def page_variants_def
  advances_baseline_def advanced_baseline_def publish_activated_def replay_page_def run_budgeted_def page_limit_def
  event_actor_id_def ascii_defs example_digest

definition example_inv_context :: port_context where
  "example_inv_context = with_claim (with_deadline (with_idempotency_key
     (port_context_new ''t'' (actor_service ''s'') ''en'' ''c'') ''key'') 1000) ''inventory:manage''"

lemma example_inv_context_simps:
  "require_policy example_inv_context policy_write = Inr ()"
  "ctx_tenant_id example_inv_context = ''t''" "actor_kind (ctx_actor example_inv_context) = ActorService"
  by (simp_all add: example_inv_context_def require_policy_def policy_write_def require_write_semantics_def with_claim_def
      require_deadline_semantics_def with_deadline_def with_idempotency_key_def port_context_new_def actor_service_def)

lemma example_scope: "source_scope (example_inv_env k) example_inv_context write = Inr (1, 7)"
  by (simp add: source_scope_def example_inv_context_def example_ienv require_policy_def policy_write_def policy_read_def
      require_read_semantics_def require_write_semantics_def require_deadline_semantics_def with_claim_def
      with_deadline_def with_idempotency_key_def port_context_new_def actor_service_def Let_def permission_display_def)

text \<open>The shop with ten units, its baseline declared, and the baseline complete after one page.\<close>

definition example_created :: inv_store where
  "example_created = example_shop
     \<lparr>inv_items := [initial_item_row (example_inv_env 100) 3 None],
      inv_levels := [initial_level_row (example_inv_env 100) 4 10]\<rparr>"

definition example_declared :: inv_store where
  "example_declared = example_created\<lparr>src_baselines := [new_baseline 1 7 5]\<rparr>"

definition example_page_request :: baseline_page_request where
  "example_page_request = \<lparr>pr_baseline_id = 5, pr_page_id = 6, pr_after_variant_id = None, pr_limit = 1\<rparr>"

definition example_progress :: baseline_progress where
  "example_progress = \<lparr>bp_tenant_id = 1, bp_baseline_id = 5, bp_active = True, bp_after_variant_id = Some 3,
     bp_record_count = 1, bp_last_page_id = Some 6\<rparr>"

definition example_baseline :: source_baseline where
  "example_baseline = \<lparr>bl_tenant_id = 1, bl_baseline_id = 5, bl_actor_id = 7, bl_active = True,
     bl_last_variant_id = Some 3, bl_record_count = 1, bl_last_page_id = Some 6, bl_last_page_after = None,
     bl_last_page_limit = Some 1\<rparr>"

definition example_stocked :: inv_store where
  "example_stocked = example_created
     \<lparr>src_baselines := [example_baseline],
      src_pages := [\<lparr>pg_tenant_id = 1, pg_page_id = 6, pg_baseline_id = 5, pg_after_variant_id = None,
        pg_page_limit = 1, pg_next_after = Some 3, pg_active = True, pg_record_count = 1\<rparr>],
      src_records := [\<lparr>sr_tenant_id = 1, sr_variant_id = 3, sr_baseline_id = 5, sr_inventory_item_id = 101,
        sr_product_id = 2, sr_source_version = 1, sr_deleted = False, sr_stocked = 10, sr_reserved = 0,
        sr_incoming = 0, sr_binding_digest = replicate 64 (CHR ''0''), sr_last_change_id = 107, sr_updated_at = 50\<rparr>],
      src_changes := [\<lparr>sch_change_id = 107, sch_tenant_id = 1, sch_variant_id = 3, sch_baseline_id = 5,
        sch_source_version = 1, sch_kind = ''baseline'', sch_created_at = 50\<rparr>],
      inv_outbox := [\<lparr>of_envelope_id = Some 5, of_tenant_id = 1, of_actor_id = None, of_fact = SourceActivated 5\<rparr>]\<rparr>"

lemmas shop_rows =
  example_stocked_def example_created_def example_shop_def example_default_def example_baseline_def example_inv_context_simps

lemma example_create:
  "create_initial_records (example_inv_env 100) example_shop example_default 7 3 None 10 = Inr example_created"
  by (simp add: stock_steps shop_rows)

lemma example_start:
  "start_baseline (example_inv_env 120) InTime example_created example_inv_context 5
     = (example_declared, Inr \<lparr>bp_tenant_id = 1, bp_baseline_id = 5, bp_active = False, bp_after_variant_id = None,
          bp_record_count = 0, bp_last_page_id = None\<rparr>)"
  by (simp add: baseline_steps example_scope shop_rows example_declared_def)

lemma example_advance:
  "advance_baseline (example_inv_env 140) (\<lambda>n. 107 + of_nat n) InTime example_declared example_inv_context example_page_request
     = (example_stocked, Inr example_progress)"
  by (simp add: baseline_steps example_scope shop_rows example_declared_def example_page_request_def example_progress_def)

text \<open>Four of them are reserved, then released; with four reserved the quantity is set to five.\<close>

definition example_reserved :: inv_store where
  "example_reserved = fst (reserve (example_inv_env 200) example_stocked example_inv_context 3 4)"

definition example_released :: inv_store where
  "example_released = fst (release_reservation_quantity (example_inv_env 300) example_reserved example_inv_context 3 4)"

definition example_set :: inv_store where
  "example_set = fst (execute_quantity_write (example_inv_env 400) example_reserved example_reserved 1 7 3 (SetQuantity 5) None)"

lemma example_reserve:
  "reserve (example_inv_env 200) example_stocked example_inv_context 3 4
     = (example_reserved, Inr \<lparr>rw_reserved_quantity = 4, rw_available_quantity = 6, rw_in_stock = True\<rparr>)"
  by (simp add: reserve_steps shop_rows example_reserved_def in_stock_of_def)

lemmas release_steps =
  release_reservation_quantity_def release_in_transaction_def select_release_def location_ids_def bind_levels_def
  bind_level_def load_active_reservation_claims_def live_claim_def claimed_def apply_release_def releases_row_def
  released_row_def same_counters_def reserve_level_def release_result_of_def btree_collect_def json_get_def json_str_def
  json_present_def has_terminal_disposition_def carries_identity_def

lemma example_release_run:
  "release_reservation_quantity (example_inv_env 300) example_reserved example_inv_context 3 4
     = (example_released, Inr \<lparr>rlr_released_quantity = 4, rlr_available_quantity = 10, rlr_in_stock = True\<rparr>)"
  by (simp add: reserve_steps release_steps shop_rows example_reserved_def example_released_def in_stock_of_def)

lemmas quantity_steps =
  execute_quantity_write_def write_quantity_def validate_request_def require_current_snapshot_def load_plan_def
  level_query_def MAX_QUANTITY_LEVELS_def plan_available_def target_quantity_def plan_target_def stocked_target_def
  validate_event_quantities_def apply_plan_def write_stocked_def same_counters_def

lemma example_set_run:
  "execute_quantity_write (example_inv_env 400) example_reserved example_reserved 1 7 3 (SetQuantity 5) None
     = (example_set, Inr \<lparr>wo_quantity = 5, wo_inventory_policy = ''deny''\<rparr>)"
  by (simp add: reserve_steps quantity_steps shop_rows example_reserved_def example_set_def)

subsection \<open>Its stores are reachable\<close>

lemma example_shop_reachable: "reachable no_stock stock_step 0 example_shop"
  by (rule reachable.start) (simp add: no_stock_def example_shop_def)

lemma example_created_reachable: "reachable no_stock stock_step 1 example_created"
  using reachable.next_step [OF example_shop_reachable stock_step.created [OF example_create]] by simp

lemma example_declared_reachable: "reachable no_stock stock_step 2 example_declared"
  using reachable.next_step [OF example_created_reachable stock_step.started [OF example_start]]
  by (simp add: numeral_2_eq_2)

lemma example_stocked_reachable: "reachable no_stock stock_step 3 example_stocked"
  using reachable.next_step [OF example_declared_reachable stock_step.advanced [OF example_advance]]
  by (simp add: numeral_3_eq_3)

lemma example_reserved_reachable: "reachable no_stock stock_step 4 example_reserved"
  using reachable.next_step [OF example_stocked_reachable stock_step.reserved [OF example_reserve]]
  by (simp add: eval_nat_numeral)

lemma example_reserved_rows:
  "\<exists>l r c. inv_levels example_reserved = [l] \<and> il_reserved_quantity l = 4 \<and> inv_reservations example_reserved = [r]
     \<and> rsv_quantity r = 4 \<and> src_records example_reserved = [c] \<and> sr_source_version c = 2 \<and> sr_reserved c = 4"
  by (simp add: reserve_steps shop_rows example_reserved_def)

subsection \<open>The properties on the run\<close>

theorem stock_matches_reservations_witness:
  "\<exists>l. inv_levels example_reserved = [l] \<and> il_reserved_quantity l = 4
     \<and> il_reserved_quantity l = sum_list (map rsv_quantity (filter (\<lambda>r. rsv_inventory_item_id r = il_inventory_item_id l
            \<and> rsv_location_id r = il_location_id l \<and> rsv_deleted_at r = None) (inv_reservations example_reserved)))"
  using stock_matches_reservations [OF example_reserved_reachable] example_reserved_rows by auto

theorem quantity_written_exactly_witness:
  "\<exists>i. find_item example_reserved 3 = Some i \<and> available_units example_set (ii_id i) = 5
     \<and> inv_reservations example_set = inv_reservations example_reserved"
  using quantity_written_exactly [OF example_reserved_reachable example_set_run] by auto

theorem reservation_takes_exactly_witness:
  "\<exists>i row. find_item example_reserved 3 = Some i
     \<and> inv_reservations example_reserved = inv_reservations example_stocked @ [row] \<and> rsv_quantity row = 4
     \<and> available_units example_reserved (ii_id i) = 6"
  using reservation_takes_exactly [OF example_stocked_reachable example_reserve] by auto

theorem release_takes_oldest_first_witness:
  "\<exists>i. find_item example_reserved 3 = Some i
     \<and> available_units example_released (ii_id i) = available_units example_reserved (ii_id i) + 4"
  using release_takes_oldest_first [OF example_reserved_reachable example_release_run] by auto

theorem reserve_then_release_witness:
  "\<exists>i. find_item example_released 3 = Some i
     \<and> available_units example_released (ii_id i) = available_units example_stocked (ii_id i)
     \<and> sum_list (map rsv_quantity (inv_reservations example_released))
       = sum_list (map rsv_quantity (inv_reservations example_stocked))"
  using reserve_then_release [OF example_stocked_reachable example_reserve example_release_run] by auto

theorem journal_mirrors_stock_witness:
  "\<exists>c. src_records example_reserved = [c] \<and> sr_reserved c = 4
     \<and> map sch_source_version (filter (\<lambda>d. sch_tenant_id d = sr_tenant_id c \<and> sch_variant_id d = sr_variant_id c)
          (src_changes example_reserved)) = [1, 2]"
  using journal_mirrors_stock [OF example_reserved_reachable] example_reserved_rows by (auto simp: upto_rec1)

subsection \<open>The baseline on the run\<close>

lemma example_reserved_baselines:
  "src_baselines example_reserved = [example_baseline]" "inv_variants example_reserved = inv_variants example_shop"
  by (simp_all add: reserve_steps shop_rows example_reserved_def)

theorem baseline_complete_witness:
  "\<exists>r. {q \<in> set (src_records example_reserved). sr_tenant_id q = 1 \<and> sr_variant_id q = 3} = {r}
     \<and> \<not> sr_deleted r \<and> sr_baseline_id r = 5"
  using baseline_complete [OF example_reserved_reachable, of example_baseline "hd (inv_variants example_shop)"]
    example_reserved_baselines by (auto simp: example_baseline_def example_shop_def)

lemma example_advance_again:
  "advance_baseline (example_inv_env 160) (\<lambda>n. 500) InTime example_reserved example_inv_context example_page_request
     = (example_reserved, Inr example_progress)"
  by (simp add: baseline_steps reserve_steps example_scope shop_rows example_reserved_def example_page_request_def
      example_progress_def)

theorem baseline_page_replayed_witness:
  "\<exists>q. snd (advance_baseline (example_inv_env 160) (\<lambda>n. 500) InTime example_reserved example_inv_context
       example_page_request) = Inr q \<and> q = example_progress"
  using baseline_page_replayed [OF example_declared_reachable example_advance
      r_into_rtranclp [of stock_step, OF stock_step.reserved [OF example_reserve]] example_advance_again]
    example_advance_again by (simp add: example_inv_context_simps example_ienv)

definition example_views :: "source_view list" where
  "example_views = [\<lparr>sv_tenant_id = 1, sv_baseline_id = 5, sv_variant_id = 3, sv_product_id = 2, sv_inventory_item_id = 101,
     sv_source_version = 2, sv_deleted = False, sv_stocked = 10, sv_reserved = 4, sv_incoming = 0, sv_available = 6,
     sv_change_id = 207\<rparr>]"

lemmas read_steps =
  read_budget_def active_baseline_def checked_rows_def view_of_def page_limit_def btree_collect_def

lemma example_source_load:
  "source_load (example_inv_env 170) InTime (example_stocked, example_reserved, example_reserved) example_inv_context 5 [3]
     = Inr example_views"
  by (simp add: reserve_steps read_steps example_scope shop_rows example_reserved_def example_views_def)

theorem source_reads_stock_witness:
  "\<exists>i. find_item example_reserved 3 = Some i \<and> available_units example_reserved (ii_id i) = 6
     \<and> map sv_variant_id example_views = [3]"
  using source_reads_stock [OF example_reserved_reachable example_source_load] by (auto simp: example_views_def)

subsection \<open>Deletion\<close>

text \<open>The shop with its variant recorded without stock.\<close>

definition example_empty :: inv_store where
  "example_empty = example_shop
     \<lparr>inv_items := [initial_item_row (example_inv_env 100) 3 None],
      inv_levels := [initial_level_row (example_inv_env 100) 4 0]\<rparr>"

lemma example_create_empty:
  "create_initial_records (example_inv_env 100) example_shop example_default 7 3 None 0 = Inr example_empty"
  by (simp add: stock_steps shop_rows example_empty_def)

lemma example_empty_reachable: "reachable no_stock stock_step 1 example_empty"
  using reachable.next_step [OF example_shop_reachable stock_step.created [OF example_create_empty]] by simp

lemma example_delete:
  "delete_records (example_inv_env 200) (\<lambda>n. 300) example_empty example_empty 1 7 [3]
     = Inr (example_empty\<lparr>inv_items := [], inv_levels := []\<rparr>)"
  by (simp add: stock_steps shop_rows example_empty_def delete_records_def validate_deletion_def
      MAX_CATALOG_DELETE_VARIANTS_def deletion_snapshot_def load_deletion_def deletion_items_def deletion_variants_def
      deletion_levels_def deletion_locations_def MAX_DELETE_LEVELS_def level_is_empty_def has_history_def
      apply_deletion_def prepare_deletion_def delete_one_def deletes_level_def deletes_item_def record_deleted_def)

lemma example_empty_levels: "item_levels example_empty 101 = [initial_level_row (example_inv_env 100) 4 0]"
  by (simp add: example_empty_def item_levels_def initial_level_row_def example_ienv)

theorem deletion_keeps_history_witness:
  "\<exists>l. item_levels example_empty 101 = [l] \<and> level_is_empty l
     \<and> inv_items (example_empty\<lparr>inv_items := [], inv_levels := []\<rparr>)
       = filter (\<lambda>i. ii_variant_id i \<notin> {3}) (inv_items example_empty)"
  using deletion_keeps_history [OF example_empty_reachable example_delete] example_empty_levels
  by (simp add: example_empty_def initial_item_row_def example_ienv)

end
