(* ===== verification/Spec2Isabelle.thy ===== *)
theory Spec2Isabelle
  imports Rust_Prelude Permissions Ports Rbac Rbac_Policy Role_Mutation Circuit_Breaker Module_Graph
    Wave_Rollout Outbox_Relay Accounting Idempotency Marketplace_Allocation Marketplace_Commission
    Marketplace_Ledger Ledger_Books Ledger_Balance Ledger_Reversal Ledger_Transfer Ledger_Commands
    Ledger_Reads Ledger_Examples Marketplace_Payout Payout_Safety Payout_Reads Payout_Examples
    Inventory Inventory_Source Inventory_Quantity Inventory_Reservation Inventory_Baseline Inventory_Reader
    Inventory_Deletion Inventory_Safety Inventory_Release Inventory_Lifecycle Inventory_Commands
    Inventory_Journal Inventory_History Inventory_Examples
begin

text \<open>
  A verified model of the core of the RusTok platform, a multi-tenant commerce system written in
  Rust. Paths below are relative to the root of the repository. The server composes domain modules
  (\<open>crates/modules\<close>) over shared libraries (\<open>crates/libs\<close>). A call from one module to another
  crosses a \<^emph>\<open>port\<close>: an async trait that takes a context (tenant, actor, idempotency key,
  deadline) and answers a value or a port error. Modelled are the libraries that decide what a
  call may do, the machinery that carries calls, events and releases, the chain of marketplace
  services that turns an order into the money owed to sellers, and the stock of the inventory.

  \<^bold>\<open>Parts.\<close>

  \<^item> \<open>Rust_Prelude\<close> holds what the sources use of the language: results as sums with the \<open>?\<close>
    operator, checked and saturating integers, \<open>str\<close> operations on UTF-8 bytes, ordered maps, the
    contract \<open>text_codec\<close> of an enum with a textual form, and \<open>transition_invariant\<close>, the contract
    by which every invariant of reachable states is proved. \<open>Idempotency\<close> holds JSON values, tables
    with unique constraints (\<open>unique_table\<close>) and the contract of a command protected by a receipt
    (\<open>receipted_command\<close>, which gives \<open>idempotent_command\<close>; \<open>followed_command\<close> where the source does more work
    after the transaction, as the ledger does when it rebuilds projections).
  \<^item> \<open>Permissions\<close>: \<open>rustok-api/src/permissions.rs\<close>. \<open>Ports\<close>: \<open>rustok-api/src/ports.rs\<close>, contexts, call
    policies and errors. \<open>Rbac\<close>: roles, bootstrap grants, scopes and security contexts of
    \<open>rustok-core/src\<close> (\<open>rbac.rs\<close>, \<open>types.rs\<close>, \<open>security_principal.rs\<close>). \<open>Rbac_Policy\<close>: the decision
    engine of \<open>rustok-rbac/src/services\<close>. \<open>Role_Mutation\<close>: the planner of role changes and its event.
    The theorems say which texts are permissions, what a context may claim, when access is granted,
    and that no accepted change escalates or removes the last super administrator.
  \<^item> \<open>Circuit_Breaker\<close>: \<open>rustok-core/src/resilience/circuit_breaker.rs\<close>, the locked state machine and
    its concurrent callers with cancellation, as an inductive step relation.
  \<^item> \<open>Module_Graph\<close> and \<open>Wave_Rollout\<close>: \<open>rustok-modules/src\<close> (\<open>dependency.rs\<close>, \<open>wave_rollout.rs\<close>), lock
    graphs with their cycle search, and the coordinator of staged releases.
  \<^item> \<open>Outbox_Relay\<close>: \<open>rustok-outbox/src/relay.rs\<close>, claiming, dispatching and retrying of events.
  \<^item> \<open>Accounting\<close>: \<open>rustok-accounting/src\<close>, double-entry journal transactions and their reversal.
  \<^item> \<open>Marketplace_Allocation\<close> (\<open>rustok-marketplace-allocation/src\<close>) assigns the lines of an order to
    sellers; \<open>Marketplace_Commission\<close> (\<open>rustok-marketplace-commission/src\<close>) reads the allocations and
    splits each between platform and seller by versioned rules; the ledger
    (\<open>rustok-marketplace-balance/src\<close>) reads the assessments and keeps the money.
  \<^item> The ledger is spread over \<open>Marketplace_Ledger\<close> (\<open>dto.rs\<close>, \<open>error.rs\<close>, \<open>entities\<close>, \<open>receipts.rs\<close>,
    \<open>service.rs\<close>: rows, receipts, posting, queries), \<open>Ledger_Books\<close> (the invariant of the books and the
    abstract account of a seller), \<open>Ledger_Balance\<close> (\<open>balance.rs\<close>), \<open>Ledger_Reversal\<close> (\<open>reversal.rs\<close>),
    \<open>Ledger_Transfer\<close> (\<open>balance_transfer.rs\<close>), \<open>Ledger_Commands\<close> (\<open>ports.rs\<close> and the commands
    together), \<open>Ledger_Reads\<close> (what the queries and the port errors guarantee) and
    \<open>Ledger_Examples\<close> (a concrete run).
  \<^item> Payouts (\<open>rustok-marketplace-payout/src\<close>) read the ledger page by page and assign its credits to
    payouts: \<open>Marketplace_Payout\<close> has the model, \<open>Payout_Safety\<close> the invariant of its tables and the
    replay of its receipts, \<open>Payout_Reads\<close> the payouts against the ledger's own read port and
    \<open>Payout_Examples\<close> concrete payouts.
  \<^item> The inventory (\<open>rustok-inventory/src\<close>): \<open>Inventory\<close> has the tables and what the services share
    (\<open>services/inventory.rs\<close>, \<open>services/bootstrap.rs\<close>, \<open>services/policy.rs\<close>), \<open>Inventory_Source\<close> the journal
    that follows the counters (\<open>source_history\<close>), \<open>Inventory_Baseline\<close> the declaration and the pages of its
    baselines (\<open>source_history/baseline.rs\<close>), \<open>Inventory_Reader\<close> its queries (\<open>source_history/reader.rs\<close>),
    \<open>Inventory_Deletion\<close> the removal of stock records (\<open>services/bootstrap/deletion.rs\<close>), \<open>Inventory_Quantity\<close> setting and adjusting a quantity
    (\<open>services/quantity.rs\<close>), \<open>Inventory_Reservation\<close> reserving and releasing by quantity
    (\<open>services/inventory/reservation_release.rs\<close>, \<open>reservation_events.rs\<close>). \<open>Inventory_Safety\<close> holds the invariant of
    the stock, \<open>Inventory_Release\<close> what a release selects, \<open>Inventory_Lifecycle\<close> what baselines, listings and
    removals do to the stock, \<open>Inventory_Commands\<close> the interleaving of all commands, \<open>Inventory_Journal\<close> the
    agreement of journal and stock, \<open>Inventory_History\<close> the completeness of baselines, the replay of their pages,
    what is read and what is removed, \<open>Inventory_Examples\<close> a concrete run.

  \<^bold>\<open>How state and operations correspond.\<close> A struct is a record and an enum a data type with the
  constructors of the source. An operation has the name of the function it models, with a prefix
  where two crates use the same name (\<open>led_\<close>, \<open>com_\<close>). It takes the state and returns it changed
  together with a result; each early return, panic or error of the source is a branch. A database
  table is the list of its rows with its unique indexes. A service command is a
  function of the stores that its statements see: the receipt is looked up in one, admitted in
  another, and the transaction runs on a third, which is replaced at commit and kept at rollback.
  A theorem that leaves these stores arbitrary holds for every interleaving of concurrent callers;
  where steps interleave visibly (breaker, rollout, relay, ledger, stock) they are an inductive relation.
  A stock command locks the row of its inventory item before it reads the counters, under READ COMMITTED, so
  it is a function of the store at that moment; what it read before the lock is the argument \<open>seen\<close>.
  The writers of the source journal hold the shared form of a lock of the tenant and a baseline page the exclusive
  one; a refused lock is the parameter \<open>gate_admitted\<close>. What a time budget does to a call is \<open>call_timing\<close>.
  Amounts are integers with the 64-bit checks of the source, counters that can wrap are words,
  identifiers are 128-bit words, instants are integers.

  \<^bold>\<open>Parameters.\<close> Code outside of the repository is an argument: serialisation and SHA-256, the clock and
  the generated identifiers, \<open>Uuid::parse_str\<close> and its printing, the event transport, the iteration order of
  hash maps. A port of another service is an argument as well, so that the theorems hold for any provider.
  Where a generated identifier must be fresh, the unique constraint is what enforces it.

  \<^bold>\<open>What the groups of lemmas show.\<close> For each component: which inputs each operation accepts and
  what it answers on every branch; the invariant of its store and that every step keeps it; for the
  receipted services, that a command takes effect once and is replayed afterwards. For the ledger the books
  stay balanced over every interleaving of postings, reversals, transfers and rebuilds
  (\<open>ledger_stays_balanced\<close>), each command acts on the abstract account of a seller as specified
  (\<open>posting_credits_proceeds\<close>, \<open>reversal_takes_back\<close>, \<open>transfer_moves_exactly\<close>), and the stored projection refines
  that account (\<open>projection_refines\<close>). A payout takes each ledger credit at most once
  (\<open>payouts_stay_exclusive\<close>) and, against the ledger, pays exactly the selected credits
  (\<open>payout_pays_ledger_credits\<close>); these may exceed the seller's balance (\<open>payout_exceeds_balance\<close>). A ledger command is repeated without a
  second effect even where its rebuild failed (\<open>ledger_replayed\<close>), and an error of the posting port leaves the order
  unposted or readable as it was posted (\<open>posting_port_error\<close>). The reversal and transfer theorems speak of the
  commands up to their rebuilds (\<open>reversal_answer\<close>, \<open>transfer_answer\<close>), which are steps of their own in \<open>led_step\<close>. In the inventory, counters and
  live reservations agree in every interleaving and nothing is oversold (\<open>stock_matches_reservations\<close>), each
  command moves the available quantity by exactly what it says (\<open>quantity_written_exactly\<close>,
  \<open>reservation_takes_exactly\<close>, \<open>release_takes_oldest_first\<close>, and \<open>reserve_then_release\<close> for the two together), and the
  source journal is the sum of the levels with gapless versions (\<open>journal_mirrors_stock\<close>). An active baseline has
  a record of every listed variant (\<open>baseline_complete\<close>), its pages are built once (\<open>baseline_page_replayed\<close>), a load
  answers the stock (\<open>source_reads_stock\<close>), and only empty bookkeeping is removed (\<open>deletion_keeps_history\<close>).

  \<^bold>\<open>Bounds.\<close> Loops over lists are structural recursions. The printing of numbers recurses on fuel that
  equals the number itself, more than its digits. The depth-first search of \<open>Module_Graph\<close> terminates by
  the number of unvisited nodes. The loop of payouts over the ledger pages ends by its checked page counter,
  and against the ledger after the pages the account has (\<open>selection_reads_few_pages\<close>). The counter theorems of the breaker hold for runs below \<open>2^64\<close> steps, before
  which no 64-bit counter can wrap.

  \<^bold>\<open>Not modelled.\<close> Database failures other than violated constraints, row locks (they only order
  transactions), the SQLite and MySQL variants of statements (PostgreSQL is modelled), the catalogue's later change of the
  inventory policy of a variant (\<open>update_variant\<close> of \<open>rustok-product\<close>; the stock theorems hold for the policies
  the variants were listed with), logging, metrics text and tracing spans. The accounting bridge of the ledger
  (\<open>accounting_bridge.rs\<close>), the service ports of the commission crate, and the account store of the
  accounting crate are left out, as are, in the inventory, the reservations under the identity of a cart or an order with their adoption, shipment
  and return proofs and the translation target, and the order services, pricing and tax
  (whose amounts are values of a third-party decimal type), the workflow engine and the other resilience
  wrappers. User interfaces, HTTP and GraphQL glue, clients of external services and generated
  code are not candidates.
\<close>

end
